(* ===== verification/Rasta_Prelude.thy ===== *)
theory Rasta_Prelude
  imports Main "HOL-Library.Word" "HOL-Library.Monad_Syntax" "HOL-Library.Multiset"
begin

text \<open>
  Shared vocabulary of the development: the machine types of the C sources (LP64, little-endian,
  as on x86-64), the collections of rewrite rules the component theories fill, and the generic
  facts about lists, options and words that more than one component uses.

  A C function that can read or write outside a buffer, dereference a null pointer or call
  \<open>abort\<close> is modelled with an \<open>option\<close> result; \<open>None\<close> is that undefined or aborting behaviour,
  \<open>Some\<close> is a normal return.
\<close>

unbundle bit_operations_syntax

type_synonym u8 = "8 word"
type_synonym u16 = "16 word"
type_synonym u32 = "32 word"
type_synonym u64 = "64 word"

text \<open>A buffer is the list of its bytes; \<open>length\<close> is the length field of the C struct.\<close>

type_synonym bytes = "u8 list"

named_theorems bytes_simps \<open>rewriting of byte-level reads and writes\<close>
named_theorems defined_intros \<open>conditions under which a fallible operation returns normally\<close>

section \<open>Lists\<close>

lemma take_drop_append_mid:
  assumes "length xs = i" and "length ys = n"
  shows "take n (drop i (xs @ ys @ zs)) = ys"
  using assms by simp

lemma drop_append_length: "length xs = m \<Longrightarrow> drop (m + k) (xs @ ys) = drop k ys"
  by simp

lemma length_take_drop_eq:
  "i + n \<le> length xs \<Longrightarrow> length (take n (drop i xs)) = n"
  by simp

lemma nth_take_drop:
  "i + n \<le> length xs \<Longrightarrow> j < n \<Longrightarrow> take n (drop i xs) ! j = xs ! (i + j)"
  by simp

lemma list_length_2_cases:
  assumes "length xs = 2"
  obtains a b where "xs = [a, b]"
  using assms by (auto simp: numeral_2_eq_2 length_Suc_conv)

lemma list_length_4_cases:
  assumes "length xs = 4"
  obtains a b c d where "xs = [a, b, c, d]"
  using assms by (auto simp: numeral_eq_Suc length_Suc_conv)

lemma last_notin_butlast: "distinct xs \<Longrightarrow> xs \<noteq> [] \<Longrightarrow> last xs \<notin> set (butlast xs)"
  by (induction xs rule: rev_induct) auto

text \<open>The full blocks of \<open>n\<close> elements at the front of a list.\<close>

function blocks :: "nat \<Rightarrow> 'a list \<Rightarrow> 'a list list" where
  "blocks n xs = (if n = 0 \<or> length xs < n then [] else take n xs # blocks n (drop n xs))"
  by pat_completeness auto
termination by (relation "measure (\<lambda>(n, xs). length xs)") auto

declare blocks.simps [simp del]

lemma blocks_short: "length xs < n \<Longrightarrow> blocks n xs = []"
  by (subst blocks.simps) simp

lemma blocks_step: "0 < n \<Longrightarrow> length x = n \<Longrightarrow> blocks n (x @ ys) = x # blocks n ys"
  by (subst blocks.simps) simp

lemma blocks_append:
  "0 < n \<Longrightarrow> length xs = k * n \<Longrightarrow> blocks n (xs @ ys) = blocks n xs @ blocks n ys"
proof (induction k arbitrary: xs)
  case (Suc k)
  then obtain u v where xs: "xs = u @ v" "length u = n" "length v = k * n"
    by (metis append_take_drop_id length_drop length_take min.absorb2 add_diff_cancel_left' le_add1
        mult_Suc)
  with Suc show ?case by (simp add: blocks_step)
qed (simp add: blocks_short)

lemma blocks_length: "0 < n \<Longrightarrow> x \<in> set (blocks n xs) \<Longrightarrow> length x = n"
  by (induction n xs rule: blocks.induct) (subst (asm) (2) blocks.simps, auto split: if_splits)

section \<open>Options\<close>

lemma bind_SomeE:
  assumes "Option.bind m f = Some y"
  obtains x where "m = Some x" and "f x = Some y"
  using assms by (auto simp: Option.bind_eq_Some_conv)

lemma bind_defined_iff:
  "Option.bind m f \<noteq> None \<longleftrightarrow> (\<exists>x. m = Some x \<and> f x \<noteq> None)"
  by (cases m) auto

section \<open>Words\<close>

lemma unat_ucast_up:
  fixes x :: "'a::len word"
  assumes "LENGTH('a) \<le> LENGTH('b::len)"
  shows "unat (ucast x :: 'b word) = unat x"
proof -
  have "unat x < 2 ^ LENGTH('a)"
    by (rule unsigned_less)
  also have "\<dots> \<le> 2 ^ LENGTH('b)"
    using assms by (simp add: power_increasing)
  finally show ?thesis
    by (simp add: unsigned_ucast_eq take_bit_nat_eq_self)
qed

lemma not_bit_beyond:
  fixes w :: "'a::len word"
  shows "LENGTH('a) \<le> n \<Longrightarrow> \<not> bit w n"
  using bit_imp_le_length [of w n] by auto

lemma and_255: "(w :: 'a::len word) AND 0xFF = take_bit 8 w"
  by (simp add: take_bit_eq_mask mask_eq_exp_minus_1)

lemma uint_inject: "uint (x :: 'a::len word) = uint y \<longleftrightarrow> x = y"
  by (simp add: word_uint_eq_iff)

lemma xor_left_cancel: "x XOR y = x XOR z \<longleftrightarrow> y = (z :: 'a::len word)"
proof
  assume "x XOR y = x XOR z"
  then have "x XOR (x XOR y) = x XOR (x XOR z)" by simp
  then show "y = z" by simp
qed simp

lemma xor_right_cancel: "y XOR x = z XOR x \<longleftrightarrow> y = (z :: 'a::len word)"
  using xor_left_cancel [of x y z] by (simp add: xor.commute)

lemma unat_lt: "unat (w :: 'a::len word) < 2 ^ LENGTH('a)"
  by (rule unsigned_less)

lemma unat_of_nat_bounded:
  "n < 2 ^ LENGTH('a::len) \<Longrightarrow> unat (of_nat n :: 'a word) = n"
  by (simp add: unat_of_nat take_bit_eq_mod)

lemma unat_add_no_wrap:
  fixes x y :: "'a::len word"
  assumes "unat x + unat y < 2 ^ LENGTH('a)"
  shows "unat (x + y) = unat x + unat y"
  using assms by (simp add: unat_word_ariths)

lemma unat_sub_le:
  fixes x y :: "'a::len word"
  assumes "y \<le> x"
  shows "unat (x - y) = unat x - unat y"
  using assms by (simp add: unat_sub)

lemma unat_u32_u64: "unat (ucast (x :: u32) :: u64) = unat x"
  by (rule unat_ucast_up) simp

end
