(* ===== verification/Rasta_Util.thy ===== *)
theory Rasta_Util
  imports Rasta_Prelude
begin

text \<open>
  The utility layer: \<open>util/rmemory.c\<close> (bounded copies and comparisons on buffers),
  \<open>util/rastautil.c\<close> (byte arrays, little-endian integers, the millisecond clock) and
  \<open>retransmission/protocol.c\<close> (big-endian integers, the protocol version check).

  The lemmas are the contracts the packet layer uses: when a copy is in bounds and what the
  target holds afterwards, and that writing and reading an integer are inverse.
\<close>

section \<open>Memory primitives (rmemory.c)\<close>

text \<open>Copies \<open>n\<close> bytes from offset \<open>si\<close> of \<open>src\<close> to offset \<open>di\<close> of \<open>dst\<close>.\<close>

definition rmemcpy :: "bytes \<Rightarrow> nat \<Rightarrow> bytes \<Rightarrow> nat \<Rightarrow> nat \<Rightarrow> bytes option" where
  "rmemcpy dst di src si n =
     (if di + n \<le> length dst \<and> si + n \<le> length src
      then Some (take di dst @ take n (drop si src) @ drop (di + n) dst)
      else None)"

definition rmemset :: "bytes \<Rightarrow> nat \<Rightarrow> u8 \<Rightarrow> nat \<Rightarrow> bytes option" where
  "rmemset dst di ch n =
     (if di + n \<le> length dst
      then Some (take di dst @ replicate n ch @ drop (di + n) dst)
      else None)"

text \<open>\<open>memcmp\<close> is the difference of the first two bytes that differ, 0 when there are none.\<close>

fun memcmp :: "bytes \<Rightarrow> bytes \<Rightarrow> int" where
  "memcmp (a # as) (b # bs) = (if a = b then memcmp as bs else uint a - uint b)"
| "memcmp _ _ = 0"

definition rmemcmp :: "bytes \<Rightarrow> nat \<Rightarrow> bytes \<Rightarrow> nat \<Rightarrow> nat \<Rightarrow> int option" where
  "rmemcmp a ai b bi n =
     (if ai + n \<le> length a \<and> bi + n \<le> length b
      then Some (memcmp (take n (drop ai a)) (take n (drop bi b)))
      else None)"

text \<open>Reads one byte of a buffer.\<close>

definition read_byte :: "bytes \<Rightarrow> nat \<Rightarrow> u8 option" where
  "read_byte b i = (if i < length b then Some (b ! i) else None)"

section \<open>Byte arrays and little-endian integers (rastautil.c, rastamodule.c)\<close>

definition allocateRastaByteArray :: "nat \<Rightarrow> bytes" where
  "allocateRastaByteArray n = replicate n 0"

text \<open>
  The sources store a host integer through a cast pointer; the host is little-endian and
  \<open>rasta_htole16\<close> and \<open>rasta_htole32\<close> are the identity.
\<close>

definition hostShortTole :: "u16 \<Rightarrow> bytes" where
  "hostShortTole v = [ucast v, ucast (drop_bit 8 v)]"

definition hostLongToLe :: "u32 \<Rightarrow> bytes" where
  "hostLongToLe v = [ucast v, ucast (drop_bit 8 v), ucast (drop_bit 16 v), ucast (drop_bit 24 v)]"

fun le_short :: "bytes \<Rightarrow> u16" where
  "le_short [a, b] = ucast a OR push_bit 8 (ucast b)"
| "le_short _ = 0"

fun le_long :: "bytes \<Rightarrow> u32" where
  "le_long [a, b, c, d] =
     ucast a OR push_bit 8 (ucast b) OR push_bit 16 (ucast c) OR push_bit 24 (ucast d)"
| "le_long _ = 0"

text \<open>The readers take the buffer and the offset of the first byte.\<close>

definition leShortToHost :: "bytes \<Rightarrow> nat \<Rightarrow> u16 option" where
  "leShortToHost b i =
     (if i + 2 \<le> length b then Some (le_short (take 2 (drop i b))) else None)"

definition leLongToHost :: "bytes \<Rightarrow> nat \<Rightarrow> u32 option" where
  "leLongToHost b i =
     (if i + 4 \<le> length b then Some (le_long (take 4 (drop i b))) else None)"

section \<open>Clocks\<close>

text \<open>
  \<open>clock_gettime(CLOCK_MONOTONIC)\<close> is the environment: \<open>readings k\<close> is what the \<open>k\<close>-th call
  returns and \<open>n_reads\<close> counts the calls. \<open>clk_tck\<close> is \<open>sysconf(_SC_CLK_TCK)\<close>.
\<close>

record timespec =
  tv_sec :: u64
  tv_nsec :: u64

record clock =
  readings :: "nat \<Rightarrow> timespec"
  n_reads :: nat
  clk_tck :: u64

definition NS_PER_S :: u64 where "NS_PER_S = 1000000000"
definition MS_PER_S :: u64 where "MS_PER_S = 1000"
definition NS_PER_MS :: u64 where "NS_PER_MS = 1000000"

definition clock_gettime :: "clock \<Rightarrow> timespec \<times> clock" where
  "clock_gettime c = (readings c (n_reads c), c\<lparr>n_reads := Suc (n_reads c)\<rparr>)"

text \<open>
  \<open>(long)(tv_nsec / 1.0e6)\<close> is the integer quotient for the nanoseconds of a valid
  \<open>timespec\<close>.
\<close>

definition cur_timestamp :: "clock \<Rightarrow> u32 \<times> clock" where
  "cur_timestamp c =
     (let (spec, c') = clock_gettime c;
          ms = tv_sec spec * MS_PER_S + tv_nsec spec div 1000000
      in (ucast ms, c'))"

definition get_nanotime :: "clock \<Rightarrow> u64 \<times> clock" where
  "get_nanotime c =
     (let (t, c') = clock_gettime c in (tv_sec t * NS_PER_S + tv_nsec t, c'))"

definition get_current_time_ms :: "clock \<Rightarrow> u64 \<times> clock" where
  "get_current_time_ms c =
     (let (t, c') = clock_gettime c in (tv_nsec t div NS_PER_MS + tv_sec t * MS_PER_S, c'))"

section \<open>Big-endian integers and the protocol version (protocol.c)\<close>

definition longToBytes2 :: "u64 \<Rightarrow> bytes" where
  "longToBytes2 v =
     [ucast (drop_bit 24 v AND 0xFF), ucast (drop_bit 16 v AND 0xFF),
      ucast (drop_bit 8 v AND 0xFF), ucast (v AND 0xFF)]"

fun bytesToLong2 :: "bytes \<Rightarrow> u32" where
  "bytesToLong2 [a, b, c, d] =
     push_bit 24 (ucast a) + push_bit 16 (ucast b) + push_bit 8 (ucast c) + ucast d"
| "bytesToLong2 _ = 0"

text \<open>
  \<open>strncmp\<close> on character arrays: the difference of the first characters that differ, up to
  \<open>n\<close> characters and not past a terminating 0.
\<close>

fun strncmp :: "bytes \<Rightarrow> bytes \<Rightarrow> nat \<Rightarrow> int" where
  "strncmp (a # as) (b # bs) (Suc n) =
     (if a \<noteq> b then uint a - uint b else if a = 0 then 0 else strncmp as bs n)"
| "strncmp _ _ _ = 0"

text \<open>A version is a \<open>char[5]\<close>: four characters and the terminator.\<close>

definition RASTA_VERSION :: bytes where
  "RASTA_VERSION = [0x30, 0x33, 0x30, 0x33, 0]"

definition compare_version :: "bytes \<Rightarrow> bytes \<Rightarrow> int" where
  "compare_version local_version remote_version = strncmp local_version remote_version 4"

fun version_accepted :: "bytes list \<Rightarrow> bytes \<Rightarrow> bool" where
  "version_accepted [] v = False"
| "version_accepted (a # as) v = (compare_version a v = 0 \<or> version_accepted as v)"

section \<open>Contracts of the memory primitives\<close>

lemma rmemcpy_defined [defined_intros]:
  "di + n \<le> length dst \<Longrightarrow> si + n \<le> length src \<Longrightarrow>
   rmemcpy dst di src si n = Some (take di dst @ take n (drop si src) @ drop (di + n) dst)"
  by (simp add: rmemcpy_def)

lemma length_rmemcpy:
  "rmemcpy dst di src si n = Some r \<Longrightarrow> length r = length dst"
  by (auto simp: rmemcpy_def split: if_splits)

lemma memcmp_refl [simp]: "memcmp a a = 0"
  by (induction a) auto

lemma memcmp_eq_0_iff:
  "length a = length b \<Longrightarrow> memcmp a b = 0 \<longleftrightarrow> a = b"
  by (induction a b rule: list_induct2) (auto simp: uint_inject)

lemma length_allocateRastaByteArray [simp]: "length (allocateRastaByteArray n) = n"
  by (simp add: allocateRastaByteArray_def)

section \<open>Integers and their bytes\<close>

lemma length_hostShortTole [simp, bytes_simps]: "length (hostShortTole v) = 2"
  by (simp add: hostShortTole_def)

lemma length_hostLongToLe [simp, bytes_simps]: "length (hostLongToLe v) = 4"
  by (simp add: hostLongToLe_def)

lemma host_bytes_neq_Nil [simp]: "hostShortTole v \<noteq> []" "hostLongToLe w \<noteq> []"
  by (simp_all add: hostShortTole_def hostLongToLe_def)

lemmas bit_join_simps =
  bit_or_iff bit_push_bit_iff bit_ucast_iff bit_drop_bit_eq bit_and_iff bit_xor_iff

lemma le_short_hostShortTole [simp, bytes_simps]: "le_short (hostShortTole v) = v"
  unfolding hostShortTole_def le_short.simps
  by (rule bit_word_eqI) (auto simp: bit_join_simps)

lemma le_long_hostLongToLe [simp, bytes_simps]: "le_long (hostLongToLe v) = v"
  unfolding hostLongToLe_def le_long.simps
proof (rule bit_word_eqI)
  fix n assume n: "n < LENGTH(32)"
  consider "n < 8" | "8 \<le> n \<and> n < 16" | "16 \<le> n \<and> n < 24" | "24 \<le> n"
    by linarith
  then show "bit (ucast (ucast v :: u8) OR push_bit 8 (ucast (ucast (drop_bit 8 v) :: u8)) OR
      push_bit 16 (ucast (ucast (drop_bit 16 v) :: u8)) OR
      push_bit 24 (ucast (ucast (drop_bit 24 v) :: u8)) :: u32) n = bit v n"
    using n by cases (auto simp: bit_join_simps)
qed

lemma hostShortTole_le_short: "length b = 2 \<Longrightarrow> hostShortTole (le_short b) = b"
  by (erule list_length_2_cases, simp add: hostShortTole_def)
    (auto intro!: bit_word_eqI simp: bit_join_simps not_bit_beyond)

lemma hostLongToLe_le_long: "length b = 4 \<Longrightarrow> hostLongToLe (le_long b) = b"
  by (erule list_length_4_cases, simp add: hostLongToLe_def)
    (auto intro!: bit_word_eqI simp: bit_join_simps not_bit_beyond)

lemma leShortToHost_append [bytes_simps]:
  "length xs = i \<Longrightarrow> leShortToHost (xs @ hostShortTole v @ ys) i = Some v"
  by (simp add: leShortToHost_def)

lemma leLongToHost_append [bytes_simps]:
  "length xs = i \<Longrightarrow> leLongToHost (xs @ hostLongToLe v @ ys) i = Some v"
  by (simp add: leLongToHost_def)

text \<open>The sum of the shifted bytes is the disjunction the little-endian reader computes.\<close>

lemma push_bit_byte_disjoint:
  fixes x y :: u8
  assumes "m + 8 \<le> n"
  shows "(push_bit n (ucast x) :: u32) AND push_bit m (ucast y) = 0"
proof (rule bit_word_eqI)
  fix k assume "k < LENGTH(32)"
  show "bit ((push_bit n (ucast x) :: u32) AND push_bit m (ucast y)) k = bit (0 :: u32) k"
    using assms not_bit_beyond [of "k - m" y] by (auto simp: bit_join_simps)
qed

lemma or_disjoint:
  fixes x y z :: "'a::len word"
  shows "x AND z = 0 \<Longrightarrow> y AND z = 0 \<Longrightarrow> (x OR y) AND z = 0"
  by (simp add: bit.conj_disj_distrib2)

lemma bytesToLong2_le_long:
  assumes "length b = 4"
  shows "bytesToLong2 b = le_long (rev b)"
proof -
  from assms obtain x y z w where b: "b = [x, y, z, w]"
    by (rule list_length_4_cases)
  let ?x = "push_bit 24 (ucast x) :: u32" and ?y = "push_bit 16 (ucast y) :: u32"
  let ?z = "push_bit 8 (ucast z) :: u32" and ?w = "push_bit 0 (ucast w) :: u32"
  have 1: "?x + ?y = ?x OR ?y"
    by (rule disjunctive_add_eq_or) (simp add: push_bit_byte_disjoint)
  have 2: "(?x OR ?y) + ?z = ?x OR ?y OR ?z"
    unfolding or.assoc [symmetric]
    by (intro disjunctive_add_eq_or or_disjoint push_bit_byte_disjoint) simp_all
  have 3: "(?x OR ?y OR ?z) + ?w = ?x OR ?y OR ?z OR ?w"
    unfolding or.assoc [symmetric]
    by (intro disjunctive_add_eq_or or_disjoint push_bit_byte_disjoint) simp_all
  show ?thesis
    using 1 2 3 by (simp add: b or.commute or.left_commute)
qed

lemma longToBytes2_rev: "longToBytes2 v = rev (hostLongToLe (ucast v))"
  by (auto simp: longToBytes2_def hostLongToLe_def and_255 bit_take_bit_iff bit_join_simps
    intro!: bit_word_eqI)

lemma bytesToLong2_longToBytes2: "bytesToLong2 (longToBytes2 v) = ucast v"
  by (simp add: bytesToLong2_le_long longToBytes2_rev)

lemma version_accepted_iff:
  "version_accepted vs v \<longleftrightarrow> (\<exists>a \<in> set vs. compare_version a v = 0)"
  by (induction vs) auto

lemma strncmp_eq_0_iff:
  assumes "length a = n" and "length b = n" and "0 \<notin> set a"
  shows "strncmp (a @ x) (b @ y) n = 0 \<longleftrightarrow> a = b"
  using assms
proof (induction a arbitrary: b n)
  case Nil
  then show ?case by simp
next
  case (Cons c a)
  then obtain d b' m where b: "b = d # b'" and n: "n = Suc m"
    by (cases b; cases n) simp_all
  with Cons.prems have IH: "strncmp (a @ x) (b' @ y) m = 0 \<longleftrightarrow> a = b'" and c: "c \<noteq> 0"
    using Cons.IH [of m b'] by simp_all
  show ?case
    using IH c by (simp add: b n uint_inject)
qed

end
