(* ===== verification/Rasta_MD4.thy ===== *)
theory Rasta_MD4
  imports Rasta_Util
begin

text \<open>
  The MD4 code of \<open>util/rastamd4.c\<close>: the block transformation with its three rounds, the streaming
  update with its partially filled buffer and split bit counter, the padding in the final step and
  the truncation to the configured checksum type. \<open>MD4_u32plus\<close> is \<open>unsigned int\<close>, and on x86-64
  the macros \<open>SET\<close> and \<open>GET\<close> both read the little-endian word of the block in place.

  The reference \<open>md4_ref\<close> is written from RFC 1320 and shares nothing of the transformation with the
  code: it pads the whole message first and folds \<open>rfc_block\<close>, forty-eight equal steps with the
  RFC's functions, constants, word order and rotations given as functions of the step number, over
  the 64-byte blocks. The unrolled rounds and the streaming code are proved equal to it.
\<close>

text \<open>The scratch array \<open>block\<close> of the context is not used on x86-64.\<close>

record MD4_CTX_RASTA =
  md4_lo :: u32
  md4_hi :: u32
  md4_ra :: u32
  md4_rb :: u32
  md4_rc :: u32
  md4_rd :: u32
  md4_buffer :: bytes

type_synonym md4_regs = "u32 \<times> u32 \<times> u32 \<times> u32"

section \<open>The block transformation\<close>

definition md4_F :: "u32 \<Rightarrow> u32 \<Rightarrow> u32 \<Rightarrow> u32" where
  "md4_F x y z = z XOR (x AND (y XOR z))"

definition md4_G :: "u32 \<Rightarrow> u32 \<Rightarrow> u32 \<Rightarrow> u32" where
  "md4_G x y z = (x AND (y OR z)) OR (y AND z)"

definition md4_H :: "u32 \<Rightarrow> u32 \<Rightarrow> u32 \<Rightarrow> u32" where
  "md4_H x y z = x XOR y XOR z"

definition md4_STEP ::
  "(u32 \<Rightarrow> u32 \<Rightarrow> u32 \<Rightarrow> u32) \<Rightarrow> u32 \<Rightarrow> u32 \<Rightarrow> u32 \<Rightarrow> u32 \<Rightarrow> u32 \<Rightarrow> nat \<Rightarrow> u32" where
  "md4_STEP f a b c d x s =
     (let a = a + (f b c d + x)
      in push_bit s a OR drop_bit (32 - s) (a AND 0xffffffff))"

text \<open>
  Consecutive \<open>STEP\<close>s of a round rotate the register names: \<open>a b c d\<close>, then \<open>d a b c\<close>, and so on.
  The tuple is kept in the order of the next step, which after sixteen steps is again \<open>a b c d\<close>.
\<close>

definition md4_turn ::
  "(u32 \<Rightarrow> u32 \<Rightarrow> u32 \<Rightarrow> u32) \<Rightarrow> md4_regs \<Rightarrow> u32 \<times> nat \<Rightarrow> md4_regs" where
  "md4_turn f regs xs =
     (let (a, b, c, d) = regs; (x, s) = xs in (d, md4_STEP f a b c d x s, b, c))"

definition md4_round ::
  "(u32 \<Rightarrow> u32 \<Rightarrow> u32 \<Rightarrow> u32) \<Rightarrow> (nat \<Rightarrow> u32) \<Rightarrow> (nat \<times> nat) list \<Rightarrow> md4_regs \<Rightarrow> md4_regs" where
  "md4_round f word schedule regs = foldl (md4_turn f) regs (map (\<lambda>(n, s). (word n, s)) schedule)"

definition md4_schedule1 :: "(nat \<times> nat) list" where
  "md4_schedule1 =
     [(0, 3), (1, 7), (2, 11), (3, 19), (4, 3), (5, 7), (6, 11), (7, 19),
      (8, 3), (9, 7), (10, 11), (11, 19), (12, 3), (13, 7), (14, 11), (15, 19)]"

definition md4_schedule2 :: "(nat \<times> nat) list" where
  "md4_schedule2 =
     [(0, 3), (4, 5), (8, 9), (12, 13), (1, 3), (5, 5), (9, 9), (13, 13),
      (2, 3), (6, 5), (10, 9), (14, 13), (3, 3), (7, 5), (11, 9), (15, 13)]"

definition md4_schedule3 :: "(nat \<times> nat) list" where
  "md4_schedule3 =
     [(0, 3), (8, 9), (4, 11), (12, 15), (2, 3), (10, 9), (6, 11), (14, 15),
      (1, 3), (9, 9), (5, 11), (13, 15), (3, 3), (11, 9), (7, 11), (15, 15)]"

definition md4_GET :: "bytes \<Rightarrow> nat \<Rightarrow> u32" where
  "md4_GET ptr n = le_long (take 4 (drop (n * 4) ptr))"

text \<open>One turn of the loop of \<open>body\<close>.\<close>

definition md4_block :: "md4_regs \<Rightarrow> bytes \<Rightarrow> md4_regs" where
  "md4_block saved ptr =
     (let (saved_a, saved_b, saved_c, saved_d) = saved;
          regs = md4_round md4_F (md4_GET ptr) md4_schedule1 saved;
          regs = md4_round md4_G (\<lambda>n. md4_GET ptr n + 0x5a827999) md4_schedule2 regs;
          (a, b, c, d) = md4_round md4_H (\<lambda>n. md4_GET ptr n + 0x6ed9eba1) md4_schedule3 regs
      in (a + saved_a, b + saved_b, c + saved_c, d + saved_d))"

text \<open>
  The \<open>do ... while (size -= 64)\<close> loop; its callers pass a positive multiple of 64 bytes.
\<close>

function md4_body_loop :: "md4_regs \<Rightarrow> bytes \<Rightarrow> md4_regs" where
  "md4_body_loop regs data =
     (let regs' = md4_block regs (take 64 data)
      in if length data - 64 = 0 then regs' else md4_body_loop regs' (drop 64 data))"
  by pat_completeness auto
termination by (relation "measure (\<lambda>(regs, data). length data)") auto

declare md4_body_loop.simps [simp del]

definition md4_body :: "MD4_CTX_RASTA \<Rightarrow> bytes \<Rightarrow> MD4_CTX_RASTA" where
  "md4_body ctx data =
     (let (a, b, c, d) = md4_body_loop (md4_ra ctx, md4_rb ctx, md4_rc ctx, md4_rd ctx) data
      in ctx\<lparr>md4_ra := a, md4_rb := b, md4_rc := c, md4_rd := d\<rparr>)"

section \<open>Streaming interface\<close>

text \<open>The buffer of a fresh context is uninitialised; it is a parameter.\<close>

definition MD4_Init_Rasta :: "bytes \<Rightarrow> MD4_CTX_RASTA" where
  "MD4_Init_Rasta buf =
     \<lparr>md4_lo = 0, md4_hi = 0, md4_ra = 0x67452301, md4_rb = 0xefcdab89, md4_rc = 0x98badcfe,
      md4_rd = 0x10325476, md4_buffer = buf\<rparr>"

definition md4InitContext :: "u32 \<Rightarrow> u32 \<Rightarrow> u32 \<Rightarrow> u32 \<Rightarrow> bytes \<Rightarrow> MD4_CTX_RASTA" where
  "md4InitContext a b c d buf =
     \<lparr>md4_lo = 0, md4_hi = 0, md4_ra = a, md4_rb = b, md4_rc = c, md4_rd = d, md4_buffer = buf\<rparr>"

text \<open>Writes \<open>src\<close> over the start of the array at offset \<open>i\<close>.\<close>

definition overwrite :: "bytes \<Rightarrow> nat \<Rightarrow> bytes \<Rightarrow> bytes" where
  "overwrite dst i src = take i dst @ src @ drop (i + length src) dst"

definition md4_count :: "MD4_CTX_RASTA \<Rightarrow> nat \<Rightarrow> MD4_CTX_RASTA" where
  "md4_count ctx n =
     (let saved_lo = md4_lo ctx;
          lo = ucast (((ucast saved_lo :: u64) + of_nat n) AND 0x1fffffff);
          hi = (if lo < saved_lo then md4_hi ctx + 1 else md4_hi ctx);
          hi = hi + ucast (drop_bit 29 (of_nat n :: u64))
      in ctx\<lparr>md4_lo := lo, md4_hi := hi\<rparr>)"

text \<open>What follows the filled-up buffer: whole blocks in place, the rest into the buffer.\<close>

definition md4_absorb :: "MD4_CTX_RASTA \<Rightarrow> bytes \<Rightarrow> MD4_CTX_RASTA" where
  "md4_absorb ctx data =
     (let n = length data;
          whole = n - n mod 64;
          ctx = (if 64 \<le> n then md4_body ctx (take whole data) else ctx);
          rest = (if 64 \<le> n then drop whole data else data)
      in ctx\<lparr>md4_buffer := overwrite (md4_buffer ctx) 0 rest\<rparr>)"

definition MD4_Update_Rasta :: "MD4_CTX_RASTA \<Rightarrow> bytes \<Rightarrow> MD4_CTX_RASTA" where
  "MD4_Update_Rasta ctx data =
     (let used = unat (md4_lo ctx AND 0x3f); n = length data; ctx = md4_count ctx n
      in if used \<noteq> 0 then
           (let available = 64 - used
            in if n < available
               then ctx\<lparr>md4_buffer := overwrite (md4_buffer ctx) used data\<rparr>
               else
                 let ctx = ctx\<lparr>md4_buffer := overwrite (md4_buffer ctx) used (take available data)\<rparr>
                 in md4_absorb (md4_body ctx (md4_buffer ctx)) (drop available data))
         else md4_absorb ctx data)"

text \<open>\<open>OUT\<close> is the byte split of \<open>hostLongToLe\<close>. The context is cleared at the end.\<close>

definition MD4_Final_Rasta :: "MD4_CTX_RASTA \<Rightarrow> bytes \<times> MD4_CTX_RASTA" where
  "MD4_Final_Rasta ctx =
     (let used = unat (md4_lo ctx AND 0x3f);
          ctx = ctx\<lparr>md4_buffer := (md4_buffer ctx)[used := 0x80]\<rparr>;
          used = used + 1;
          available = 64 - used;
          (ctx, used, available) =
            (if available < 8 then
               let ctx = ctx\<lparr>md4_buffer := overwrite (md4_buffer ctx) used (replicate available 0)\<rparr>
               in (md4_body ctx (md4_buffer ctx), 0, 64)
             else (ctx, used, available));
          ctx = ctx\<lparr>md4_buffer := overwrite (md4_buffer ctx) used (replicate (available - 8) 0)\<rparr>;
          ctx = ctx\<lparr>md4_lo := push_bit 3 (md4_lo ctx)\<rparr>;
          ctx = ctx\<lparr>md4_buffer := overwrite (md4_buffer ctx) 56 (hostLongToLe (md4_lo ctx))\<rparr>;
          ctx = ctx\<lparr>md4_buffer := overwrite (md4_buffer ctx) 60 (hostLongToLe (md4_hi ctx))\<rparr>;
          ctx = md4_body ctx (md4_buffer ctx)
      in (hostLongToLe (md4_ra ctx) @ hostLongToLe (md4_rb ctx) @
          hostLongToLe (md4_rc ctx) @ hostLongToLe (md4_rd ctx),
          \<lparr>md4_lo = 0, md4_hi = 0, md4_ra = 0, md4_rb = 0, md4_rc = 0, md4_rd = 0,
           md4_buffer = replicate 64 0\<rparr>))"

text \<open>
  The bytes stored to \<open>result\<close>, nothing for an unknown type. The local array \<open>MD4code\<close> has 16 bytes
  for type 2 and 8 for every other type, while \<open>MD4_Final_Rasta\<close> stores the whole digest: where
  that leaves the array the result is \<open>None\<close>.
\<close>

definition generateMD4WithVector :: "bytes \<Rightarrow> nat \<Rightarrow> MD4_CTX_RASTA \<Rightarrow> (bytes \<times> MD4_CTX_RASTA) option" where
  "generateMD4WithVector data type context0 =
     (let room = (if type = 2 then 16 else 8);
          (MD4code, ctx) = MD4_Final_Rasta (MD4_Update_Rasta context0 data)
      in if room < length MD4code then None
         else Some (if type = 0 then replicate 8 0
                    else if type = 1 then take 8 MD4code
                    else if type = 2 then take 16 MD4code
                    else [], ctx))"

definition generateMD4 :: "bytes \<Rightarrow> nat \<Rightarrow> bytes \<Rightarrow> bytes option" where
  "generateMD4 data type buf = map_option fst (generateMD4WithVector data type (MD4_Init_Rasta buf))"

section \<open>The reference: RFC 1320\<close>

text \<open>
  The step number \<open>j\<close> runs from 0 to 47, sixteen steps to a round. Round 1 reads the words of the
  block in order, round 2 by columns, round 3 in bit-reversed order.
\<close>

definition rfc_function :: "nat \<Rightarrow> u32 \<Rightarrow> u32 \<Rightarrow> u32 \<Rightarrow> u32" where
  "rfc_function j x y z =
     (if j < 16 then (x AND y) OR (NOT x AND z)
      else if j < 32 then (x AND y) OR (x AND z) OR (y AND z)
      else x XOR y XOR z)"

definition rfc_constant :: "nat \<Rightarrow> u32" where
  "rfc_constant j = (if j < 16 then 0 else if j < 32 then 0x5A827999 else 0x6ED9EBA1)"

definition rfc_index :: "nat \<Rightarrow> nat" where
  "rfc_index j =
     (if j < 16 then j
      else if j < 32 then 4 * (j mod 4) + (j - 16) div 4
      else 8 * (j mod 2) + 4 * (j div 2 mod 2) + 2 * (j div 4 mod 2) + j div 8 mod 2)"

definition rfc_shift :: "nat \<Rightarrow> nat" where
  "rfc_shift j = [[3, 7, 11, 19], [3, 5, 9, 13], [3, 9, 11, 15]] ! (j div 16) ! (j mod 4)"

definition rfc_word :: "bytes \<Rightarrow> nat \<Rightarrow> u32" where
  "rfc_word block i = of_nat (\<Sum>k<4. unat (block ! (4 * i + k)) * 256 ^ k)"

definition rfc_step :: "bytes \<Rightarrow> md4_regs \<Rightarrow> nat \<Rightarrow> md4_regs" where
  "rfc_step block regs j =
     (let (a, b, c, d) = regs
      in (d, word_rotl (rfc_shift j) (a + rfc_function j b c d + rfc_word block (rfc_index j) + rfc_constant j), b, c))"

definition rfc_block :: "md4_regs \<Rightarrow> bytes \<Rightarrow> md4_regs" where
  "rfc_block regs block =
     (let (a, b, c, d) = regs; (a', b', c', d') = foldl (rfc_step block) regs [0..<48]
      in (a' + a, b' + b, c' + c, d' + d))"

text \<open>Padding and the byte order of the result.\<close>

definition md4_pad :: "bytes \<Rightarrow> bytes" where
  "md4_pad msg =
     msg @ 0x80 # replicate (if length msg mod 64 < 56 then 55 - length msg mod 64
                             else 119 - length msg mod 64) 0 @
     (let bits = of_nat (length msg * 8) :: u64
      in hostLongToLe (ucast bits) @ hostLongToLe (ucast (drop_bit 32 bits)))"

fun md4_digest :: "md4_regs \<Rightarrow> bytes" where
  "md4_digest (a, b, c, d) = hostLongToLe a @ hostLongToLe b @ hostLongToLe c @ hostLongToLe d"

definition md4_ref :: "md4_regs \<Rightarrow> bytes \<Rightarrow> bytes" where
  "md4_ref iv msg = md4_digest (foldl rfc_block iv (blocks 64 (md4_pad msg)))"

section \<open>The unrolled rounds are the steps of the reference\<close>

lemma rotl_shifts:
  fixes a :: u32
  assumes "0 < s" "s < 32"
  shows "word_rotl s a = push_bit s a OR drop_bit (32 - s) a"
proof (rule bit_word_eqI)
  fix n assume "n < LENGTH(32)"
  then have n: "n < 32" by simp
  show "bit (word_rotl s a) n = bit (push_bit s a OR drop_bit (32 - s) a) n"
  proof (cases "s \<le> n")
    case True
    then have "n + 32 - s = n - s + 32" by simp
    then have "(n + 32 - s) mod 32 = n - s" using n by (simp only: mod_add_self2) simp
    then show ?thesis using True n assms
      by (simp add: bit_word_rotl_iff bit_or_iff bit_push_bit_iff bit_drop_bit_eq impossible_bit)
  next
    case False
    then have "(n + 32 - s) mod 32 = n + 32 - s" and "32 - s + n = n + 32 - s" using n assms by simp_all
    then show ?thesis using False n assms
      by (simp add: bit_word_rotl_iff bit_or_iff bit_push_bit_iff bit_drop_bit_eq)
  qed
qed

lemma md4_rotate:
  fixes a :: u32
  assumes "0 < s" "s < 32"
  shows "push_bit s a OR drop_bit (32 - s) (a AND 0xffffffff) = word_rotl s a"
proof -
  have "a AND 0xffffffff = a AND mask 32" by (simp add: mask_eq_exp_minus_1)
  also have "\<dots> = a" unfolding take_bit_eq_mask [symmetric] by (auto intro!: bit_word_eqI simp: bit_take_bit_iff)
  finally show ?thesis using rotl_shifts [OF assms] by simp
qed

lemma md4_functions:
  "j < 16 \<Longrightarrow> md4_F = rfc_function j"
  "16 \<le> j \<Longrightarrow> j < 32 \<Longrightarrow> md4_G = rfc_function j"
  "32 \<le> j \<Longrightarrow> md4_H = rfc_function j"
  by (auto intro!: bit_word_eqI simp: fun_eq_iff md4_F_def md4_G_def md4_H_def rfc_function_def
      bit_and_iff bit_or_iff bit_xor_iff bit_not_iff)

lemma md4_GET_word:
  assumes "length ptr = 64" "n < 16"
  shows "md4_GET ptr n = rfc_word ptr n"
proof -
  define b where "b = take 4 (drop (n * 4) ptr)"
  have len: "length b = 4" using assms by (simp add: b_def)
  then obtain x y z w where b: "b = [x, y, z, w]" by (rule list_length_4_cases)
  have nth: "ptr ! (4 * n + k) = b ! k" if "k < 4" for k
    using that assms by (simp add: b_def mult.commute)
  have sum4: "(\<Sum>k<4. g k) = g 0 + g 1 + g 2 + g 3" for g :: "nat \<Rightarrow> nat"
    by (simp add: numeral_eq_Suc lessThan_Suc)
  have "md4_GET ptr n = bytesToLong2 (rev b)" using len by (simp add: md4_GET_def b_def bytesToLong2_le_long)
  also have "\<dots> = rfc_word ptr n"
    by (simp add: b rfc_word_def sum4 nth push_bit_eq_mult)
  finally show ?thesis .
qed

lemma md4_turn_rfc:
  assumes "length ptr = 64" and "f = rfc_function j" and "rfc_index j < 16" and "0 < rfc_shift j" "rfc_shift j < 32"
  shows "md4_turn f regs (md4_GET ptr (rfc_index j) + rfc_constant j, rfc_shift j) = rfc_step ptr regs j"
  using assms md4_rotate [of "rfc_shift j"] by (simp add: md4_turn_def rfc_step_def md4_STEP_def md4_GET_word add_ac split: prod.split)

lemma md4_round_rfc:
  assumes "length ptr = 64" and "\<forall>j\<in>set js. f = rfc_function j \<and> rfc_constant j = k \<and> rfc_index j < 16 \<and> 0 < rfc_shift j \<and> rfc_shift j < 32"
  shows "md4_round f (\<lambda>n. md4_GET ptr n + k) (map (\<lambda>j. (rfc_index j, rfc_shift j)) js) regs = foldl (rfc_step ptr) regs js"
  using assms(2)
proof (induction js arbitrary: regs)
  case (Cons j js)
  then show ?case using md4_turn_rfc [OF assms(1), of f j regs] by (simp add: md4_round_def)
qed (simp add: md4_round_def)

lemma md4_schedules:
  "md4_schedule1 = map (\<lambda>j. (rfc_index j, rfc_shift j)) [0..<16]"
  "md4_schedule2 = map (\<lambda>j. (rfc_index j, rfc_shift j)) [16..<32]"
  "md4_schedule3 = map (\<lambda>j. (rfc_index j, rfc_shift j)) [32..<48]"
  by (simp_all add: md4_schedule1_def md4_schedule2_def md4_schedule3_def upt_conv_Cons rfc_index_def rfc_shift_def)

lemma rfc_bounds:
  assumes "j < 48"
  shows "rfc_index j < 16" "0 < rfc_shift j" "rfc_shift j < 32"
proof -
  have "j \<in> set [0..<48]" using assms by simp
  then have "rfc_index j < 16 \<and> 0 < rfc_shift j \<and> rfc_shift j < 32"
    by (simp add: upt_conv_Cons rfc_index_def rfc_shift_def del: set_upt) (elim disjE; simp)
  then show "rfc_index j < 16" "0 < rfc_shift j" "rfc_shift j < 32" by simp_all
qed

lemma md4_rounds_rfc:
  assumes "length ptr = 64"
  shows "md4_round md4_F (md4_GET ptr) md4_schedule1 regs = foldl (rfc_step ptr) regs [0..<16]"
    and "md4_round md4_G (\<lambda>n. md4_GET ptr n + 0x5a827999) md4_schedule2 regs = foldl (rfc_step ptr) regs [16..<32]"
    and "md4_round md4_H (\<lambda>n. md4_GET ptr n + 0x6ed9eba1) md4_schedule3 regs = foldl (rfc_step ptr) regs [32..<48]"
  using md4_round_rfc [OF assms, of "[0..<16]" md4_F 0] md4_round_rfc [OF assms, of "[16..<32]" md4_G "0x5a827999"]
      md4_round_rfc [OF assms, of "[32..<48]" md4_H "0x6ed9eba1"]
  unfolding md4_schedules
  by (simp_all add: rfc_bounds md4_functions rfc_constant_def del: upt_rec_numeral)

lemma md4_block_rfc:
  assumes "length ptr = 64"
  shows "md4_block regs ptr = rfc_block regs ptr"
proof -
  have upt: "[0..<48] = [0..<16] @ [16..<32] @ [32..<48]" by (simp add: upt_conv_Cons)
  show ?thesis
    unfolding md4_block_def rfc_block_def upt foldl_append md4_rounds_rfc [OF assms] Let_def ..
qed

lemma foldl_md4_block_rfc:
  "k * 64 = length msg \<Longrightarrow> foldl md4_block regs (blocks 64 msg) = foldl rfc_block regs (blocks 64 msg)"
proof (induction k arbitrary: regs msg)
  case (Suc k)
  then have "blocks 64 msg = take 64 msg # blocks 64 (drop 64 msg)"
    by (subst blocks.simps) simp
  moreover have "length (take 64 msg) = 64" using Suc.prems by simp
  ultimately show ?case using Suc.IH [of "drop 64 msg"] Suc.prems by (simp add: md4_block_rfc)
qed (simp add: blocks_short)

section \<open>The streaming code computes the reference\<close>

lemma overwrite_append:
  "length xs = i \<Longrightarrow> overwrite (xs @ ys) i src = xs @ src @ drop (length src) ys"
  by (simp add: overwrite_def)

lemma length_overwrite: "i + length src \<le> length dst \<Longrightarrow> length (overwrite dst i src) = length dst"
  by (simp add: overwrite_def)

lemma md4_body_loop_blocks:
  "length data = Suc k * 64 \<Longrightarrow> md4_body_loop regs data = foldl md4_block regs (blocks 64 data)"
proof (induction k arbitrary: regs data)
  case 0
  then show ?case
    by (subst md4_body_loop.simps, subst blocks.simps) (simp add: blocks_short)
next
  case (Suc k)
  then show ?case
    by (subst md4_body_loop.simps, subst blocks.simps) simp
qed

definition md4_regs_of :: "MD4_CTX_RASTA \<Rightarrow> md4_regs" where
  "md4_regs_of ctx = (md4_ra ctx, md4_rb ctx, md4_rc ctx, md4_rd ctx)"

lemma md4_body_fields [simp]:
  "md4_buffer (md4_body ctx data) = md4_buffer ctx"
  "md4_lo (md4_body ctx data) = md4_lo ctx" "md4_hi (md4_body ctx data) = md4_hi ctx"
  "md4_regs_of (md4_body ctx data) = md4_body_loop (md4_regs_of ctx) data"
  by (simp_all add: md4_body_def md4_regs_of_def Let_def split: prod.split)

lemma md4_regs_of_update [simp]:
  "md4_regs_of (ctx\<lparr>md4_buffer := b\<rparr>) = md4_regs_of ctx"
  "md4_regs_of (ctx\<lparr>md4_lo := l\<rparr>) = md4_regs_of ctx"
  "md4_regs_of (ctx\<lparr>md4_hi := l\<rparr>) = md4_regs_of ctx"
  by (simp_all add: md4_regs_of_def)

text \<open>The counter: 29 bits of the byte count in \<open>lo\<close>, the rest in \<open>hi\<close>.\<close>

lemma md4_count_fresh:
  assumes "md4_lo ctx = 0" and "md4_hi ctx = 0"
  shows "push_bit 3 (md4_lo (md4_count ctx n)) = ucast (of_nat (n * 8) :: u64)"
    and "md4_hi (md4_count ctx n) = ucast (drop_bit 32 (of_nat (n * 8) :: u64))"
    and "unat (md4_lo (md4_count ctx n) AND 0x3f) = n mod 64"
proof -
  let ?n = "of_nat n :: u64"
  have bits: "(of_nat (n * 8) :: u64) = push_bit 3 ?n"
    by (simp add: push_bit_eq_mult mult.commute)
  have low: "x AND 0x1fffffff = take_bit 29 x" for x :: u64
    by (simp add: take_bit_eq_mask mask_eq_exp_minus_1)
  have lo: "md4_lo (md4_count ctx n) = ucast (take_bit 29 ?n)"
    using assms by (simp add: md4_count_def Let_def low)
  show "push_bit 3 (md4_lo (md4_count ctx n)) = ucast (of_nat (n * 8) :: u64)"
    unfolding lo bits by (rule bit_word_eqI)
      (auto simp: bit_take_bit_iff bit_push_bit_iff bit_ucast_iff)
  have "md4_hi (md4_count ctx n) = ucast (drop_bit 29 ?n)"
    using assms by (simp add: md4_count_def Let_def word_less_nat_alt)
  then show "md4_hi (md4_count ctx n) = ucast (drop_bit 32 (of_nat (n * 8) :: u64))"
    unfolding bits by (auto intro!: bit_word_eqI simp: bit_drop_bit_eq bit_push_bit_iff bit_ucast_iff)
  have "md4_lo (md4_count ctx n) AND 0x3f = (ucast (take_bit 6 ?n) :: u32)"
  proof -
    have "x AND 0x3f = take_bit 6 x" for x :: u32
      by (simp add: take_bit_eq_mask mask_eq_exp_minus_1)
    then show ?thesis
      unfolding lo by (auto intro!: bit_word_eqI simp: bit_take_bit_iff bit_ucast_iff)
  qed
  also have "unat \<dots> = n mod 64"
    using mod_mod_cancel [of 64 "2 ^ 64" n]
    by (simp add: unsigned_ucast_eq unsigned_take_bit_eq unat_of_nat) (simp add: take_bit_eq_mod)
  finally show "unat (md4_lo (md4_count ctx n) AND 0x3f) = n mod 64" .
qed

lemma md4_absorb_spec:
  fixes data :: bytes
  assumes "length (md4_buffer ctx) = 64"
  defines "whole \<equiv> length data - length data mod 64"
  shows "md4_regs_of (md4_absorb ctx data) = foldl md4_block (md4_regs_of ctx) (blocks 64 (take whole data))"
    and "md4_buffer (md4_absorb ctx data) = drop whole data @ drop (length data mod 64) (md4_buffer ctx)"
    and "md4_lo (md4_absorb ctx data) = md4_lo ctx" and "md4_hi (md4_absorb ctx data) = md4_hi ctx"
proof -
  have small: "whole = 0" if "length data < 64"
    using that by (simp add: whole_def)
  have big: "length (take whole data) = Suc (length data div 64 - 1) * 64" if "64 \<le> length data"
    using that by (simp add: whole_def minus_mod_eq_mult_div div_greater_zero_iff mult.commute)
  show "md4_regs_of (md4_absorb ctx data) = foldl md4_block (md4_regs_of ctx) (blocks 64 (take whole data))"
    using small md4_body_loop_blocks [OF big]
    by (cases "64 \<le> length data") (simp_all add: md4_absorb_def Let_def whole_def blocks_short)
  show "md4_buffer (md4_absorb ctx data) = drop whole data @ drop (length data mod 64) (md4_buffer ctx)"
    using small by (cases "64 \<le> length data") (simp_all add: md4_absorb_def Let_def whole_def overwrite_def)
  show "md4_lo (md4_absorb ctx data) = md4_lo ctx" and "md4_hi (md4_absorb ctx data) = md4_hi ctx"
    by (simp_all add: md4_absorb_def Let_def)
qed

lemma md4_body_block:
  assumes "length (md4_buffer ctx) = 64"
  shows "md4_body_loop regs (md4_buffer ctx) = md4_block regs (md4_buffer ctx)"
  using md4_body_loop_blocks [of "md4_buffer ctx" 0 regs] blocks_step [of 64 "md4_buffer ctx" "[]"] assms
  by (simp add: blocks_short)

text \<open>The last one or two blocks.\<close>

definition md4_tail :: "bytes \<Rightarrow> u32 \<Rightarrow> u32 \<Rightarrow> bytes" where
  "md4_tail rest lo hi =
     rest @ 0x80 # replicate (if length rest < 56 then 55 - length rest else 119 - length rest) 0 @
     hostLongToLe lo @ hostLongToLe hi"

lemma length_md4_tail:
  "length rest < 64 \<Longrightarrow> length (md4_tail rest lo hi) = (if length rest < 56 then 64 else 128)"
  by (simp add: md4_tail_def)

lemma md4_digest_regs:
  "hostLongToLe (md4_ra ctx) @ hostLongToLe (md4_rb ctx) @ hostLongToLe (md4_rc ctx) @
   hostLongToLe (md4_rd ctx) = md4_digest (md4_regs_of ctx)"
  by (simp add: md4_regs_of_def)

lemma md4_length_field:
  assumes "length pre = 56" and "length junk = 8"
  shows "overwrite (overwrite (pre @ junk) 56 (hostLongToLe lo)) 60 (hostLongToLe hi) =
    pre @ hostLongToLe lo @ hostLongToLe hi"
  using assms by (simp add: overwrite_def)

lemma MD4_Final_short:
  assumes buf: "md4_buffer ctx = rest @ junk" and len: "length rest + length junk = 64"
    and rest: "length rest < 56" and used: "unat (md4_lo ctx AND 0x3f) = length rest"
  shows "fst (MD4_Final_Rasta ctx) =
    md4_digest (md4_body_loop (md4_regs_of ctx) (md4_tail rest (push_bit 3 (md4_lo ctx)) (md4_hi ctx)))"
proof -
  have nb: "\<not> 63 - length rest < 8" using rest by linarith
  have b1: "overwrite ((rest @ junk)[length rest := 0x80]) (Suc (length rest))
      (replicate (55 - length rest) 0) =
      (rest @ 0x80 # replicate (55 - length rest) 0) @ drop (56 - length rest) junk"
    using len rest by (cases junk) (simp_all add: overwrite_def drop_Cons')
  show ?thesis
    using rest len md4_length_field [of "rest @ 0x80 # replicate (55 - length rest) 0"]
    by (simp add: MD4_Final_Rasta_def Let_def used buf b1 nb md4_digest_regs md4_tail_def)
qed

lemma MD4_Final_long:
  assumes buf: "md4_buffer ctx = rest @ junk" and len: "length rest + length junk = 64"
    and rest: "56 \<le> length rest" "length rest < 64" and used: "unat (md4_lo ctx AND 0x3f) = length rest"
  shows "fst (MD4_Final_Rasta ctx) =
    md4_digest (md4_body_loop (md4_body_loop (md4_regs_of ctx) (rest @ 0x80 # replicate (63 - length rest) 0))
      (replicate 56 0 @ hostLongToLe (push_bit 3 (md4_lo ctx)) @ hostLongToLe (md4_hi ctx)))"
proof -
  have nb: "63 - length rest < 8" using rest by linarith
  have b1: "overwrite ((rest @ junk)[length rest := 0x80]) (Suc (length rest))
      (replicate (63 - length rest) 0) = rest @ 0x80 # replicate (63 - length rest) 0"
    using len rest by (cases junk) (simp_all add: overwrite_def)
  have b2: "overwrite (rest @ 0x80 # replicate (63 - length rest) 0) 0 (replicate 56 0) =
      replicate 56 0 @ drop 56 (rest @ 0x80 # replicate (63 - length rest) 0)"
    by (simp add: overwrite_def)
  show ?thesis
    using rest len
    by (simp add: MD4_Final_Rasta_def Let_def used buf b1 b2 nb md4_digest_regs md4_length_field
        del: append_assoc append_Cons drop_append)
qed

lemma MD4_Final_spec:
  assumes buf: "md4_buffer ctx = rest @ junk" and len: "length rest + length junk = 64"
    and rest: "length rest < 64" and used: "unat (md4_lo ctx AND 0x3f) = length rest"
  shows "fst (MD4_Final_Rasta ctx) = md4_digest (foldl md4_block (md4_regs_of ctx)
    (blocks 64 (md4_tail rest (push_bit 3 (md4_lo ctx)) (md4_hi ctx))))"
proof (cases "length rest < 56")
  case True
  then show ?thesis
    using md4_body_loop_blocks [of _ 0] length_md4_tail [OF rest]
    by (subst MD4_Final_short [OF buf len True used]) simp
next
  case False
  let ?lo = "push_bit 3 (md4_lo ctx)" and ?hi = "md4_hi ctx"
  let ?x = "rest @ 0x80 # replicate (63 - length rest) 0"
  let ?y = "replicate 56 0 @ hostLongToLe ?lo @ hostLongToLe ?hi"
  have "replicate (119 - length rest) (0 :: u8) = replicate (63 - length rest) 0 @ replicate 56 0"
    using False rest by (simp add: replicate_add [symmetric])
  then have tail: "md4_tail rest ?lo ?hi = ?x @ ?y"
    using False by (simp add: md4_tail_def del: replicate.simps)
  have "length ?x = 64" "length ?y = 64" using False rest by simp_all
  then have "blocks 64 (?x @ ?y) = blocks 64 ?x @ blocks 64 ?y"
    using blocks_append [of 64 ?x 1 ?y] by simp
  then show ?thesis
    using False rest md4_body_loop_blocks [of ?x 0] md4_body_loop_blocks [of ?y 0]
    by (subst MD4_Final_long [OF buf len _ rest used]) (simp_all add: tail del: append_assoc append_Cons)
qed

lemma length_md4_pad: "((length msg + 8) div 64 + 1) * 64 = length (md4_pad msg)"
proof -
  have "length msg mod 64 < 64" "length msg div 64 * 64 = length msg - length msg mod 64" "length msg mod 64 \<le> length msg"
    by (simp_all add: minus_mod_eq_div_mult)
  moreover have "(length msg + 8) div 64 = length msg div 64 + (if length msg mod 64 < 56 then 0 else 1)"
  proof (cases "length msg mod 64 < 56")
    case False
    then have "(length msg mod 64 + 8) div 64 = 1" by (simp add: div_nat_eqI)
    with False show ?thesis using div_add1_eq [of "length msg" 8 64] by simp
  qed (use div_add1_eq [of "length msg" 8 64] in simp)
  ultimately show ?thesis by (simp add: md4_pad_def Let_def) (simp add: add.commute)
qed

lemma md4_stream_spec:
  assumes "length (md4_buffer ctx) = 64" and "md4_lo ctx = 0" and "md4_hi ctx = 0"
  shows "fst (MD4_Final_Rasta (MD4_Update_Rasta ctx data)) = md4_ref (md4_regs_of ctx) data"
proof -
  let ?n = "length data" and ?c = "md4_count ctx (length data)"
  define whole where "whole = ?n - ?n mod 64"
  note cnt = md4_count_fresh [OF assms(2,3), of ?n]
  have buf: "md4_buffer ?c = md4_buffer ctx" and regs: "md4_regs_of ?c = md4_regs_of ctx"
    by (simp_all add: md4_count_def Let_def)
  have upd: "MD4_Update_Rasta ctx data = md4_absorb ?c data"
    using assms by (simp add: MD4_Update_Rasta_def Let_def)
  note absorb = md4_absorb_spec [of ?c data, unfolded buf, OF assms(1)]
  have len: "length (drop whole data) = ?n mod 64"
    unfolding whole_def by simp
  let ?tail = "md4_tail (drop whole data) (push_bit 3 (md4_lo ?c)) (md4_hi ?c)"
  have final: "fst (MD4_Final_Rasta (md4_absorb ?c data)) = md4_digest
      (foldl md4_block (foldl md4_block (md4_regs_of ctx) (blocks 64 (take whole data))) (blocks 64 ?tail))"
  proof (subst MD4_Final_spec)
    show "md4_buffer (md4_absorb ?c data) = drop whole data @ drop (?n mod 64) (md4_buffer ctx)"
      unfolding whole_def by (rule absorb(2))
    show "length (drop whole data) + length (drop (?n mod 64) (md4_buffer ctx)) = 64"
      unfolding len using assms(1) mod_less_divisor [of 64 ?n]
      by (simp del: length_drop add: length_drop [of "?n mod 64"])
    show "length (drop whole data) < 64"
      unfolding len by simp
    show "unat (md4_lo (md4_absorb ?c data) AND 0x3f) = length (drop whole data)"
      unfolding len absorb(3) by (rule cnt(3))
  qed (simp add: absorb whole_def regs)
  have "md4_pad data = take whole data @ ?tail"
    unfolding md4_pad_def md4_tail_def len cnt Let_def
    by (simp add: append_assoc [symmetric] del: append_assoc of_nat_mult)
  moreover have "length (take whole data) = (?n div 64) * 64"
    by (simp add: whole_def minus_mod_eq_mult_div mult.commute)
  ultimately have "fst (MD4_Final_Rasta (MD4_Update_Rasta ctx data)) =
      md4_digest (foldl md4_block (md4_regs_of ctx) (blocks 64 (md4_pad data)))"
    by (simp add: upd final blocks_append)
  then show ?thesis
    using foldl_md4_block_rfc [OF length_md4_pad] by (simp add: md4_ref_def)
qed

section \<open>Properties\<close>

text \<open>
  C28: With the 16-byte checksum type the streaming MD4 (unrolled rounds, counter split over two words,
  partially filled buffer, one or two padding blocks) stores, for every message and initial value and
  whatever the uninitialised buffer held, exactly the MD4 of RFC 1320 started from that initial value.
  With every other type it leaves its local array: the digest of 16 bytes is stored to 8.
\<close>

theorem generateMD4WithVector_correct:
  assumes "length buf = 64"
  shows "map_option fst (generateMD4WithVector data type (md4InitContext a b c d buf)) =
    (if type = 2 then Some (md4_ref (a, b, c, d) data) else None)"
proof -
  have "length (md4_ref (a, b, c, d) data) = 16"
    by (cases "foldl rfc_block (a, b, c, d) (blocks 64 (md4_pad data))") (simp add: md4_ref_def)
  then show ?thesis
    using md4_stream_spec [of "md4InitContext a b c d buf" data] assms
    by (simp add: generateMD4WithVector_def md4InitContext_def md4_regs_of_def case_prod_beta)
qed

theorem generateMD4WithVector_correct_witness:
  "map_option fst (generateMD4WithVector [0x61] 2 (md4InitContext 1 2 3 4 (replicate 64 9))) =
     Some (md4_ref (1, 2, 3, 4) [0x61]) \<and>
   generateMD4WithVector [0x61] 1 (md4InitContext 1 2 3 4 (replicate 64 9)) = None"
  using generateMD4WithVector_correct [of "replicate 64 9" "[0x61]" 2 1 2 3 4]
    generateMD4WithVector_correct [of "replicate 64 9" "[0x61]" 1 1 2 3 4] by simp

end
