(* ===== verification/Rasta_SipHash.thy ===== *)
theory Rasta_SipHash
  imports Rasta_Util
begin

text \<open>
  The SipHash code of \<open>util/rastasiphash24.c\<close>: SipHash-2-4 on 64-bit words for the 16-byte checksum
  and HalfSipHash on 32-bit words for the 8-byte checksum, with the macros written out.

  The rounds of the half-width variant use the macro \<open>ROTL\<close> of the full-width one, which shifts
  right by \<open>64 - b\<close>. On 32-bit operands that is a plain left shift, no rotation: no bit ever moves
  to the right. The theory proves what follows from it: flipping the top bits of two consecutive
  message words never changes the 8-byte code, under any key.
\<close>

type_synonym sip_state = "u64 \<times> u64 \<times> u64 \<times> u64"
type_synonym half_state = "u32 \<times> u32 \<times> u32 \<times> u32"

definition cROUNDS :: nat where "cROUNDS = 2"
definition dROUNDS :: nat where "dROUNDS = 4"

section \<open>SipHash-2-4\<close>

definition ROTL :: "u64 \<Rightarrow> nat \<Rightarrow> u64" where
  "ROTL x b = push_bit b x OR drop_bit (64 - b) x"

definition U8TO64_LE :: "bytes \<Rightarrow> u64" where
  "U8TO64_LE p = foldl (\<lambda>v i. v OR push_bit (8 * i) (ucast (p ! i))) 0 [0..<8]"

definition U64TO8_LE :: "u64 \<Rightarrow> bytes" where
  "U64TO8_LE v = hostLongToLe (ucast v) @ hostLongToLe (ucast (drop_bit 32 v))"

definition SIPROUND :: "sip_state \<Rightarrow> sip_state" where
  "SIPROUND v =
     (let (v0, v1, v2, v3) = v;
          v0 = v0 + v1; v1 = ROTL v1 13; v1 = v1 XOR v0; v0 = ROTL v0 32;
          v2 = v2 + v3; v3 = ROTL v3 16; v3 = v3 XOR v2;
          v0 = v0 + v3; v3 = ROTL v3 21; v3 = v3 XOR v0;
          v2 = v2 + v1; v1 = ROTL v1 17; v1 = v1 XOR v2; v2 = ROTL v2 32
      in (v0, v1, v2, v3))"

text \<open>One message word: \<open>v3 ^= m\<close>, the compression rounds, \<open>v0 ^= m\<close>.\<close>

definition sip_inject :: "sip_state \<Rightarrow> u64 \<Rightarrow> sip_state" where
  "sip_inject v m =
     (let (v0, v1, v2, v3) = v;
          (v0, v1, v2, v3) = (SIPROUND ^^ cROUNDS) (v0, v1, v2, v3 XOR m)
      in (v0 XOR m, v1, v2, v3))"

text \<open>The \<open>switch\<close> over the left-over bytes falls through from the last one to the first.\<close>

definition sip_left :: "u64 \<Rightarrow> bytes \<Rightarrow> u64" where
  "sip_left b rest = foldl (\<lambda>b i. b OR push_bit (8 * i) (ucast (rest ! i))) b (rev [0..<length rest])"

definition siphash :: "bytes \<Rightarrow> bytes \<Rightarrow> nat \<Rightarrow> bytes option" where
  "siphash data k outlen =
     (if (outlen = 8 \<or> outlen = 16) \<and> 16 \<le> length k then
        let inlen = length data;
            k0 = U8TO64_LE k; k1 = U8TO64_LE (drop 8 k);
            v1 = 0x646f72616e646f6d XOR k1;
            v = (0x736f6d6570736575 XOR k0, if outlen = 16 then v1 XOR 0xee else v1,
                 0x6c7967656e657261 XOR k0, 0x7465646279746573 XOR k1);
            v = foldl sip_inject v (map U8TO64_LE (blocks 8 data));
            b = sip_left (push_bit 56 (of_nat inlen)) (drop (inlen - inlen mod 8) data);
            (v0, v1, v2, v3) = sip_inject v b;
            v2 = (if outlen = 16 then v2 XOR 0xee else v2 XOR 0xff);
            (v0, v1, v2, v3) = (SIPROUND ^^ dROUNDS) (v0, v1, v2, v3);
            out = U64TO8_LE (v0 XOR v1 XOR v2 XOR v3)
        in if outlen = 8 then Some out
           else
             let (v0, v1, v2, v3) = (SIPROUND ^^ dROUNDS) (v0, v1 XOR 0xdd, v2, v3)
             in Some (out @ U64TO8_LE (v0 XOR v1 XOR v2 XOR v3))
      else None)"

section \<open>HalfSipHash-2-4 as the sources compute it\<close>

text \<open>The macro \<open>ROTL\<close> on a \<open>uint32_t\<close>, assigned back to a \<open>uint32_t\<close>.\<close>

definition ROTL_on_u32 :: "u32 \<Rightarrow> nat \<Rightarrow> u32" where
  "ROTL_on_u32 x b = ucast ((ucast (push_bit b x) :: u64) OR drop_bit (64 - b) (ucast x))"

text \<open>The macro \<open>ROTL_H\<close>, which no round uses.\<close>

definition ROTL_H :: "u32 \<Rightarrow> nat \<Rightarrow> u32" where
  "ROTL_H x b = push_bit b x OR drop_bit (32 - b) x"

definition U8TO32_LE :: "bytes \<Rightarrow> u32" where
  "U8TO32_LE p = foldl (\<lambda>v i. v OR push_bit (8 * i) (ucast (p ! i))) 0 [0..<4]"

definition SIPROUND_H :: "half_state \<Rightarrow> half_state" where
  "SIPROUND_H v =
     (let (v0, v1, v2, v3) = v;
          v0 = v0 + v1; v1 = ROTL_on_u32 v1 5; v1 = v1 XOR v0; v0 = ROTL_on_u32 v0 16;
          v2 = v2 + v3; v3 = ROTL_on_u32 v3 8; v3 = v3 XOR v2;
          v0 = v0 + v3; v3 = ROTL_on_u32 v3 7; v3 = v3 XOR v0;
          v2 = v2 + v1; v1 = ROTL_on_u32 v1 13; v1 = v1 XOR v2; v2 = ROTL_on_u32 v2 16
      in (v0, v1, v2, v3))"

definition half_inject :: "half_state \<Rightarrow> u32 \<Rightarrow> half_state" where
  "half_inject v m =
     (let (v0, v1, v2, v3) = v;
          (v0, v1, v2, v3) = (SIPROUND_H ^^ cROUNDS) (v0, v1, v2, v3 XOR m)
      in (v0 XOR m, v1, v2, v3))"

definition half_left :: "u32 \<Rightarrow> bytes \<Rightarrow> u32" where
  "half_left b rest = foldl (\<lambda>b i. b OR push_bit (8 * i) (ucast (rest ! i))) b (rev [0..<length rest])"

definition half_init :: "bytes \<Rightarrow> nat \<Rightarrow> half_state" where
  "half_init k outlen =
     (let k0 = U8TO32_LE k; k1 = U8TO32_LE (drop 4 k)
      in (k0, if outlen = 8 then k1 XOR 0xee else k1, 0x6c796765 XOR k0, 0x74656462 XOR k1))"

definition half_output :: "half_state \<Rightarrow> nat \<Rightarrow> bytes" where
  "half_output v outlen =
     (let (v0, v1, v2, v3) = v;
          v2 = (if outlen = 8 then v2 XOR 0xee else v2 XOR 0xff);
          (v0, v1, v2, v3) = (SIPROUND_H ^^ dROUNDS) (v0, v1, v2, v3);
          out = hostLongToLe (v1 XOR v3)
      in if outlen = 4 then out
         else
           let (v0, v1, v2, v3) = (SIPROUND_H ^^ dROUNDS) (v0, v1 XOR 0xdd, v2, v3)
           in out @ hostLongToLe (v1 XOR v3))"

definition halfsiphash :: "bytes \<Rightarrow> bytes \<Rightarrow> nat \<Rightarrow> bytes option" where
  "halfsiphash data k outlen =
     (if (outlen = 4 \<or> outlen = 8) \<and> 8 \<le> length k then
        let inlen = length data;
            v = foldl half_inject (half_init k outlen) (map U8TO32_LE (blocks 4 data));
            b = half_left (push_bit 24 (of_nat inlen)) (drop (inlen - inlen mod 4) data)
        in Some (half_output (half_inject v b) outlen)
      else None)"

section \<open>The checksum entry point\<close>

text \<open>The bytes stored to \<open>result\<close>.\<close>

definition generateSiphash24 :: "bytes \<Rightarrow> bytes \<Rightarrow> nat \<Rightarrow> bytes option" where
  "generateSiphash24 data key hash_type =
     (if hash_type = 1 then halfsiphash data key 8
      else if hash_type = 2 then siphash data key 16
      else Some (replicate 8 0))"

section \<open>No rotation on 32-bit words\<close>

lemma ROTL_on_u32_shift: "b \<le> 32 \<Longrightarrow> ROTL_on_u32 x b = push_bit b x"
  unfolding ROTL_on_u32_def
  by (rule bit_word_eqI)
    (auto simp: bit_or_iff bit_push_bit_iff bit_drop_bit_eq bit_ucast_iff dest: bit_imp_le_length)

text \<open>The top bit as an addend: it commutes with sums and disappears in left shifts.\<close>

abbreviation top_bit :: u32 where "top_bit \<equiv> 0x80000000"

lemma top_top: "top_bit + top_bit = (0 :: u32)"
  by simp

lemma bit_top: "bit top_bit n \<longleftrightarrow> n = 31"
  using bit_exp_iff [of 31 n, where 'a = u32] by (auto dest: bit_imp_le_length)

lemma xor_top: "x XOR top_bit = x + top_bit" for x :: u32
proof -
  have disj: "y XOR top_bit = y + top_bit" if "\<not> bit y 31" for y :: u32
  proof -
    have "y AND top_bit = 0"
      using that by (intro bit_word_eqI) (simp only: bit_and_iff bit_top bit_0_eq bot_apply, auto)
    then show ?thesis by (simp add: disjunctive_add_eq_xor)
  qed
  show ?thesis
  proof (cases "bit x 31")
    case True
    then have "(x XOR top_bit) XOR top_bit = (x XOR top_bit) + top_bit"
      by (intro disj) (simp only: bit_xor_iff bit_top simp_thms)
    then have "x = (x XOR top_bit) + top_bit"
      by (simp only: xor.assoc xor_self_eq xor.right_neutral)
    then have "x + top_bit = (x XOR top_bit) + top_bit + top_bit"
      by (rule arg_cong [where f = "\<lambda>x. x + top_bit"])
    then show ?thesis by (simp only: add.assoc top_top add_0_right)
  next
    case False
    then show ?thesis by (rule disj)
  qed
qed

lemma push_bit_top: "0 < k \<Longrightarrow> push_bit k (x + top_bit) = push_bit k x" for x :: u32
proof (cases k)
  case (Suc j)
  have "push_bit (Suc j) (x + top_bit) = 2 ^ j * (2 * x + (top_bit + top_bit))"
    by (simp only: push_bit_eq_mult power_Suc) (simp add: algebra_simps)
  also have "\<dots> = push_bit (Suc j) x"
    by (simp only: top_top push_bit_eq_mult power_Suc) (simp add: algebra_simps)
  finally show ?thesis using Suc by simp
qed simp

definition flip :: "u32 \<Rightarrow> u32" where
  "flip x = x XOR top_bit"

named_theorems flip_simps

lemma flip_flip [flip_simps]: "flip (flip x) = x"
  by (simp add: flip_def xor.assoc)

lemma flip_add [flip_simps]: "flip x + y = flip (x + y)" "x + flip y = flip (x + y)"
  by (simp_all add: flip_def xor_top)

lemma flip_xor [flip_simps]: "flip x XOR y = flip (x XOR y)" "x XOR flip y = flip (x XOR y)"
  by (simp_all add: flip_def ac_simps)

lemma flip_ROTL [flip_simps]:
  assumes "0 < b" and "b \<le> 32"
  shows "ROTL_on_u32 (flip x) b = ROTL_on_u32 x b"
  using assms by (simp add: ROTL_on_u32_shift flip_def xor_top push_bit_top)

definition flip_if :: "bool \<Rightarrow> u32 \<Rightarrow> u32" where
  "flip_if d x = (if d then flip x else x)"

fun flip_state :: "bool \<times> bool \<times> bool \<times> bool \<Rightarrow> half_state \<Rightarrow> half_state" where
  "flip_state (d0, d1, d2, d3) (v0, v1, v2, v3) =
     (flip_if d0 v0, flip_if d1 v1, flip_if d2 v2, flip_if d3 v3)"

text \<open>How a difference in the top bits of the state moves through a round, whatever the state.\<close>

lemma SIPROUND_H_flip:
  "SIPROUND_H (flip_state (d0, d1, d2, d3) v) =
   flip_state (d2 \<noteq> d3, (d0 \<noteq> d1) \<noteq> (d2 \<noteq> d3), False, d2 \<noteq> d3) (SIPROUND_H v)"
  by (cases v; cases d0; cases d1; cases d2; cases d3)
    (simp_all add: SIPROUND_H_def Let_def flip_if_def flip_simps)

lemma half_inject_flip:
  "half_inject (flip_state (d0, d1, d2, d3) v) (flip_if d m) =
   (let f = (d2 \<noteq> (d3 \<noteq> d)); e = (d0 \<noteq> d1)
    in flip_state (f \<noteq> d, e \<noteq> f, False, f) (half_inject v m))"
proof -
  obtain v0 v1 v2 v3 where v: "v = (v0, v1, v2, v3)" by (cases v)
  have in3: "(flip_if d0 v0, flip_if d1 v1, flip_if d2 v2, flip_if d3 v3 XOR flip_if d m) =
      flip_state (d0, d1, d2, d3 \<noteq> d) (v0, v1, v2, v3 XOR m)"
    by (cases d3; cases d) (simp_all add: flip_if_def flip_simps)
  have two: "(SIPROUND_H ^^ cROUNDS) x = SIPROUND_H (SIPROUND_H x)" for x
    by (simp add: cROUNDS_def numeral_2_eq_2)
  obtain w0 w1 w2 w3 where w: "SIPROUND_H (SIPROUND_H (v0, v1, v2, v3 XOR m)) = (w0, w1, w2, w3)"
    by (cases "SIPROUND_H (SIPROUND_H (v0, v1, v2, v3 XOR m))")
  have rounds: "SIPROUND_H (SIPROUND_H
      (flip_if d0 v0, flip_if d1 v1, flip_if d2 v2, flip_if d3 v3 XOR flip_if d m)) =
      flip_state (d2 \<noteq> (d3 \<noteq> d), (d0 \<noteq> d1) \<noteq> (d2 \<noteq> (d3 \<noteq> d)), False, d2 \<noteq> (d3 \<noteq> d)) (w0, w1, w2, w3)"
    unfolding in3 SIPROUND_H_flip w by (rule arg_cong [where f = "\<lambda>d. flip_state d _"]) auto
  show ?thesis
    unfolding v half_inject_def Let_def flip_state.simps prod.case two w rounds
    by (cases d; cases d0; cases d1; cases d2; cases d3) (simp_all add: flip_if_def flip_simps)
qed

lemma flip_state_none [simp]: "flip_state (False, False, False, False) v = v"
  by (cases v) (simp add: flip_if_def)

text \<open>Two flipped words, then any word: the difference is gone.\<close>

lemma half_inject_collision:
  "half_inject (half_inject (half_inject v (flip m1)) (flip m2)) m3 =
   half_inject (half_inject (half_inject v m1) m2) m3"
  using half_inject_flip [of False False False False v True m1]
    half_inject_flip [of False True False True "half_inject v m1" True m2]
    half_inject_flip [of True True False False "half_inject (half_inject v m1) m2" False m3]
  by (simp add: flip_if_def)

lemma U8TO32_LE_word: "U8TO32_LE [a, b, c, d] = le_long [a, b, c, d]"
  by (simp add: U8TO32_LE_def upt_rec numeral_eq_Suc or.assoc)

lemma U8TO32_LE_flip: "U8TO32_LE [a, b, c, d XOR 0x80] = flip (U8TO32_LE [a, b, c, d])"
proof (rule bit_word_eqI)
  fix n assume n: "n < LENGTH(32)"
  have b80: "bit (0x80 :: u8) k \<longleftrightarrow> k = 7" for k
    using bit_exp_iff [of 7 k, where 'a = u8] by (auto dest: bit_imp_le_length)
  have far: "\<not> bit a 31" "\<not> bit b 23" "\<not> bit c 15"
    by (auto dest: bit_imp_le_length)
  show "bit (U8TO32_LE [a, b, c, d XOR 0x80]) n = bit (flip (U8TO32_LE [a, b, c, d])) n"
    unfolding U8TO32_LE_word flip_def le_long.simps bit_or_iff bit_xor_iff bit_push_bit_iff
      bit_ucast_iff bit_top b80
    using n far by (cases "n = 31"; cases "n < 24") auto
qed

section \<open>Properties\<close>

lemma foldl_half_inject_collision:
  "foldl half_inject v (ms @ flip m1 # flip m2 # m3 # rest) =
   foldl half_inject v (ms @ m1 # m2 # m3 # rest)"
  by (simp add: half_inject_collision)

text \<open>
  C30: The 8-byte SipHash code does not detect every pair of bit errors: inverting the top bits of
  the last bytes of two consecutive aligned 4-byte words of a message leaves the code unchanged,
  for every key and whatever precedes and follows the two words. (The rounds shift 32-bit words
  where HalfSipHash rotates them.)
\<close>

theorem halfsiphash_collision:
  assumes "length pre mod 4 = 0"
  shows "halfsiphash (pre @ [a, b, c, d XOR 0x80, e, f, g, h XOR 0x80] @ post) key outlen =
    halfsiphash (pre @ [a, b, c, d, e, f, g, h] @ post) key outlen"
proof -
  obtain k where k: "length pre = k * 4"
    using assms by (metis mod_0_imp_dvd dvd_def mult.commute)
  let ?tail = "\<lambda>d h. [a, b, c, d] @ [e, f, g, h] @ post"
  let ?n = "length (pre @ ?tail d h)" and ?ws = "\<lambda>d h. map U8TO32_LE (blocks 4 (pre @ ?tail d h))"
  have ws: "?ws d h = map U8TO32_LE (blocks 4 pre) @ U8TO32_LE [a, b, c, d] # U8TO32_LE [e, f, g, h] #
      map U8TO32_LE (blocks 4 post)" for d h
    using blocks_append [OF _ k, of "?tail d h"] blocks_step [of 4 "[a, b, c, d]" "[e, f, g, h] @ post"]
      blocks_step [of 4 "[e, f, g, h]" post] by simp
  have "?n = 4 * (k + 2) + length post" using k by simp
  then have "?n - ?n mod 4 = 4 * (k + 2) + length post - length post mod 4"
    by (simp only: mod_mult_self4)
  then have whole: "?n - ?n mod 4 = length pre + 8 + (length post - length post mod 4)"
    unfolding k using mod_less_eq_dividend [of "length post" 4]
    by (simp only: Nat.add_diff_assoc) simp
  have left: "drop (?n - ?n mod 4) (pre @ ?tail d' h') = drop (length post - length post mod 4) post"
    for d' h'
  proof -
    have "pre @ ?tail d' h' = (pre @ [a, b, c, d', e, f, g, h']) @ post" by simp
    then show ?thesis
      unfolding whole by (simp only:) (rule drop_append_length, simp)
  qed
  let ?b = "half_left (push_bit 24 (of_nat ?n)) (drop (?n - ?n mod 4) (pre @ ?tail d h))"
  have "half_inject (foldl half_inject v (?ws (d XOR 0x80) (h XOR 0x80))) ?b =
      half_inject (foldl half_inject v (?ws d h)) ?b" for v
  proof -
    have "foldl half_inject v (?ws (d XOR 0x80) (h XOR 0x80) @ [?b]) =
        foldl half_inject v (?ws d h @ [?b])"
      unfolding ws U8TO32_LE_flip
      by (cases "map U8TO32_LE (blocks 4 post)") (simp_all add: half_inject_collision)
    then show ?thesis by simp
  qed
  then show ?thesis
    using left [of "d XOR 0x80" "h XOR 0x80"] left [of d h]
    unfolding halfsiphash_def Let_def by simp
qed

theorem halfsiphash_collision_witness:
  "halfsiphash [1, 2, 3, 0x84, 5, 6, 7, 0x88] [1, 2, 3, 4, 5, 6, 7, 8] 8 =
   halfsiphash [1, 2, 3, 4, 5, 6, 7, 8] [1, 2, 3, 4, 5, 6, 7, 8] 8 \<and>
   halfsiphash [1, 2, 3, 4, 5, 6, 7, 8] [1, 2, 3, 4, 5, 6, 7, 8] 8 \<noteq> None"
proof
  have "(4 :: u8) XOR 0x80 = 0x84" "(8 :: u8) XOR 0x80 = 0x88" by simp_all
  with halfsiphash_collision [of "[]" 1 2 3 4 5 6 7 8 "[]" "[1, 2, 3, 4, 5, 6, 7, 8]" 8]
  show "halfsiphash [1, 2, 3, 0x84, 5, 6, 7, 0x88] [1, 2, 3, 4, 5, 6, 7, 8] 8 =
    halfsiphash [1, 2, 3, 4, 5, 6, 7, 8] [1, 2, 3, 4, 5, 6, 7, 8] 8"
    by (simp only:) simp
  show "halfsiphash [1, 2, 3, 4, 5, 6, 7, 8] [1, 2, 3, 4, 5, 6, 7, 8] 8 \<noteq> None"
    by (simp add: halfsiphash_def Let_def)
qed

end
