(* ===== verification/Rasta_Blake2.thy ===== *)
theory Rasta_Blake2
  imports Rasta_Util
begin

text \<open>
  The BLAKE2b code of \<open>util/rastablake2.c\<close>: compression function, keyed initialisation, the
  byte-wise streaming update with its lazily flushed buffer and 128-bit counter, and the final
  block. The reference \<open>blake2b_ref\<close> cuts the whole input (the padded key block, then the message)
  into 128-byte blocks; the streaming code is proved equal to it. (Both share the compression
  function of the sources, with its twelve rounds.)
\<close>

record rasta_blake2b_ctx =
  b2_b :: bytes
  b2_h :: "u64 list"
  b2_t0 :: u64
  b2_t1 :: u64
  b2_c :: nat
  b2_outlen :: nat

section \<open>The compression function\<close>

definition ROTR64 :: "u64 \<Rightarrow> nat \<Rightarrow> u64" where
  "ROTR64 x y = drop_bit y x XOR push_bit (64 - y) x"

definition B2B_GET64 :: "bytes \<Rightarrow> u64" where
  "B2B_GET64 p = foldl (\<lambda>v i. v XOR push_bit (8 * i) (ucast (p ! i))) 0 [0..<8]"

definition B2B_G :: "nat \<Rightarrow> nat \<Rightarrow> nat \<Rightarrow> nat \<Rightarrow> u64 \<Rightarrow> u64 \<Rightarrow> u64 list \<Rightarrow> u64 list" where
  "B2B_G a b c d x y v =
     (let v = v[a := v ! a + v ! b + x];
          v = v[d := ROTR64 (v ! d XOR v ! a) 32];
          v = v[c := v ! c + v ! d];
          v = v[b := ROTR64 (v ! b XOR v ! c) 24];
          v = v[a := v ! a + v ! b + y];
          v = v[d := ROTR64 (v ! d XOR v ! a) 16];
          v = v[c := v ! c + v ! d];
          v = v[b := ROTR64 (v ! b XOR v ! c) 63]
      in v)"

definition blake2b_iv :: "u64 list" where
  "blake2b_iv =
     [0x6A09E667F3BCC908, 0xBB67AE8584CAA73B, 0x3C6EF372FE94F82B, 0xA54FF53A5F1D36F1,
      0x510E527FADE682D1, 0x9B05688C2B3E6C1F, 0x1F83D9ABFB41BD6B, 0x5BE0CD19137E2179]"

definition blake2b_sigma :: "nat list list" where
  "blake2b_sigma =
     [[0, 1, 2, 3, 4, 5, 6, 7, 8, 9, 10, 11, 12, 13, 14, 15],
      [14, 10, 4, 8, 9, 15, 13, 6, 1, 12, 0, 2, 11, 7, 5, 3],
      [11, 8, 12, 0, 5, 2, 15, 13, 10, 14, 3, 6, 7, 1, 9, 4],
      [7, 9, 3, 1, 13, 12, 11, 14, 2, 6, 5, 10, 4, 0, 15, 8],
      [9, 0, 5, 7, 2, 4, 10, 15, 14, 1, 11, 12, 6, 8, 3, 13],
      [2, 12, 6, 10, 0, 11, 8, 3, 4, 13, 7, 5, 15, 14, 1, 9],
      [12, 5, 1, 15, 14, 13, 4, 10, 0, 7, 6, 3, 9, 2, 8, 11],
      [13, 11, 7, 14, 12, 1, 3, 9, 5, 0, 15, 4, 8, 6, 2, 10],
      [6, 15, 14, 9, 11, 3, 0, 8, 12, 2, 13, 7, 1, 4, 10, 5],
      [10, 2, 8, 4, 7, 6, 1, 5, 15, 11, 9, 14, 3, 12, 13, 0],
      [0, 1, 2, 3, 4, 5, 6, 7, 8, 9, 10, 11, 12, 13, 14, 15],
      [14, 10, 4, 8, 9, 15, 13, 6, 1, 12, 0, 2, 11, 7, 5, 3]]"

definition blake2b_round :: "u64 list \<Rightarrow> u64 list \<Rightarrow> nat list \<Rightarrow> u64 list" where
  "blake2b_round m v s =
     (let v = B2B_G 0 4 8 12 (m ! (s ! 0)) (m ! (s ! 1)) v;
          v = B2B_G 1 5 9 13 (m ! (s ! 2)) (m ! (s ! 3)) v;
          v = B2B_G 2 6 10 14 (m ! (s ! 4)) (m ! (s ! 5)) v;
          v = B2B_G 3 7 11 15 (m ! (s ! 6)) (m ! (s ! 7)) v;
          v = B2B_G 0 5 10 15 (m ! (s ! 8)) (m ! (s ! 9)) v;
          v = B2B_G 1 6 11 12 (m ! (s ! 10)) (m ! (s ! 11)) v;
          v = B2B_G 2 7 8 13 (m ! (s ! 12)) (m ! (s ! 13)) v;
          v = B2B_G 3 4 9 14 (m ! (s ! 14)) (m ! (s ! 15)) v
      in v)"

text \<open>The compression function on its inputs: chained state, block, counter, last flag.\<close>

definition blake2b_F :: "u64 list \<Rightarrow> bytes \<Rightarrow> u64 \<Rightarrow> u64 \<Rightarrow> bool \<Rightarrow> u64 list" where
  "blake2b_F h b t0 t1 last_block =
     (let v = h @ blake2b_iv;
          v = v[12 := v ! 12 XOR t0];
          v = v[13 := v ! 13 XOR t1];
          v = (if last_block then v[14 := NOT (v ! 14)] else v);
          m = map (\<lambda>i. B2B_GET64 (drop (8 * i) b)) [0..<16];
          v = foldl (blake2b_round m) v blake2b_sigma
      in map (\<lambda>i. h ! i XOR (v ! i XOR v ! (i + 8))) [0..<8])"

definition blake2b_compress :: "rasta_blake2b_ctx \<Rightarrow> bool \<Rightarrow> rasta_blake2b_ctx" where
  "blake2b_compress ctx last_block =
     ctx\<lparr>b2_h := blake2b_F (b2_h ctx) (b2_b ctx) (b2_t0 ctx) (b2_t1 ctx) last_block\<rparr>"

section \<open>Streaming interface\<close>

text \<open>\<open>ctx->t[0] += ctx->c\<close> with the carry into \<open>ctx->t[1]\<close>.\<close>

definition blake2b_add_counter :: "rasta_blake2b_ctx \<Rightarrow> rasta_blake2b_ctx" where
  "blake2b_add_counter ctx =
     (let t0 = b2_t0 ctx + of_nat (b2_c ctx)
      in ctx\<lparr>b2_t0 := t0,
             b2_t1 := (if t0 < of_nat (b2_c ctx) then b2_t1 ctx + 1 else b2_t1 ctx)\<rparr>)"

definition blake2b_update_byte :: "rasta_blake2b_ctx \<Rightarrow> u8 \<Rightarrow> rasta_blake2b_ctx" where
  "blake2b_update_byte ctx x =
     (let ctx = (if b2_c ctx = 128
                 then (blake2b_compress (blake2b_add_counter ctx) False)\<lparr>b2_c := 0\<rparr> else ctx)
      in ctx\<lparr>b2_b := (b2_b ctx)[b2_c ctx := x], b2_c := b2_c ctx + 1\<rparr>)"

definition rasta_blake2b_update :: "rasta_blake2b_ctx \<Rightarrow> bytes \<Rightarrow> rasta_blake2b_ctx" where
  "rasta_blake2b_update ctx data = foldl blake2b_update_byte ctx data"

text \<open>\<open>None\<close> is the return value -1. The stack context holds \<open>buf\<close> before.\<close>

definition rasta_blake2b_init :: "bytes \<Rightarrow> nat \<Rightarrow> bytes \<Rightarrow> rasta_blake2b_ctx option" where
  "rasta_blake2b_init buf outlen key =
     (let keylen = length key
      in if outlen = 0 \<or> outlen > 64 \<or> keylen > 64 then None
         else
           let h = blake2b_iv;
               h = h[0 := h ! 0 XOR (0x01010000 XOR push_bit 8 (of_nat keylen) XOR of_nat outlen)];
               ctx = \<lparr>b2_b = take keylen buf @ replicate (128 - keylen) 0, b2_h = h,
                      b2_t0 = 0, b2_t1 = 0, b2_c = 0, b2_outlen = outlen\<rparr>
           in Some (if keylen > 0 then (rasta_blake2b_update ctx key)\<lparr>b2_c := 128\<rparr> else ctx))"

definition blake2b_out :: "u64 list \<Rightarrow> nat \<Rightarrow> bytes" where
  "blake2b_out h outlen =
     map (\<lambda>i. ucast (drop_bit (8 * (i mod 8)) (h ! (i div 8)) AND 0xFF)) [0..<outlen]"

text \<open>The bytes stored to \<open>out\<close>.\<close>

definition rasta_blake2b_final :: "rasta_blake2b_ctx \<Rightarrow> bytes" where
  "rasta_blake2b_final ctx =
     (let ctx = blake2b_add_counter ctx;
          ctx = ctx\<lparr>b2_b := take (b2_c ctx) (b2_b ctx) @ replicate (128 - b2_c ctx) 0, b2_c := 128\<rparr>;
          ctx = blake2b_compress ctx True
      in blake2b_out (b2_h ctx) (b2_outlen ctx))"

definition rasta_blake2b :: "bytes \<Rightarrow> nat \<Rightarrow> bytes \<Rightarrow> bytes \<Rightarrow> bytes option" where
  "rasta_blake2b buf outlen key data =
     (case rasta_blake2b_init buf outlen key of
        None \<Rightarrow> None
      | Some ctx \<Rightarrow> Some (rasta_blake2b_final (rasta_blake2b_update ctx data)))"

text \<open>
  The bytes stored to \<open>result\<close>. For \<open>hash_type\<close> 0 the code calls \<open>rmemset(result, 8, 0)\<close>, a fill of
  length 0; after a failed initialisation nothing is stored either.
\<close>

definition generateBlake2 :: "bytes \<Rightarrow> bytes \<Rightarrow> bytes \<Rightarrow> nat \<Rightarrow> bytes" where
  "generateBlake2 buf data key hash_type =
     (let hash_len = hash_type * 8
      in if hash_len = 0 then []
         else
           case rasta_blake2b_init buf hash_len key of
             None \<Rightarrow> []
           | Some ctx \<Rightarrow> rasta_blake2b_final (rasta_blake2b_update ctx data))"

section \<open>The reference: cut the whole input into blocks\<close>

text \<open>\<open>n\<close> bytes have been hashed before; inputs are shorter than \<open>2\<^sup>6\<^sup>4\<close> bytes.\<close>

function blake2b_blocks :: "u64 list \<Rightarrow> nat \<Rightarrow> bytes \<Rightarrow> u64 list" where
  "blake2b_blocks h n d =
     (if length d \<le> 128
      then blake2b_F h (d @ replicate (128 - length d) 0) (of_nat (n + length d)) 0 True
      else blake2b_blocks (blake2b_F h (take 128 d) (of_nat (n + 128)) 0 False) (n + 128) (drop 128 d))"
  by pat_completeness auto
termination by (relation "measure (\<lambda>(h, n, d). length d)") auto

declare blake2b_blocks.simps [simp del]

definition blake2b_ref :: "nat \<Rightarrow> bytes \<Rightarrow> bytes \<Rightarrow> bytes" where
  "blake2b_ref outlen key msg =
     (let h = blake2b_iv[0 := blake2b_iv ! 0 XOR
                (0x01010000 XOR push_bit 8 (of_nat (length key)) XOR of_nat outlen)];
          d = (if key = [] then msg else key @ replicate (128 - length key) 0 @ msg)
      in blake2b_out (blake2b_blocks h 0 d) outlen)"

section \<open>The streaming code computes the reference\<close>

text \<open>A context with \<open>n\<close> bytes hashed into \<open>h\<close> and \<open>pend\<close> waiting in the buffer.\<close>

definition blake2b_state :: "rasta_blake2b_ctx \<Rightarrow> u64 list \<Rightarrow> nat \<Rightarrow> bytes \<Rightarrow> bool" where
  "blake2b_state ctx h n pend \<longleftrightarrow>
     b2_h ctx = h \<and> b2_t0 ctx = of_nat n \<and> b2_t1 ctx = 0 \<and> b2_c ctx = length pend \<and>
     length pend \<le> 128 \<and> length (b2_b ctx) = 128 \<and> take (length pend) (b2_b ctx) = pend"

lemma blake2b_counter:
  assumes "blake2b_state ctx h n pend" and "n + length pend < 2 ^ 64"
  shows "blake2b_add_counter ctx = ctx\<lparr>b2_t0 := of_nat (n + length pend)\<rparr>"
proof -
  have "\<not> (of_nat n + of_nat (length pend) :: u64) < of_nat (length pend)"
    using assms(2) unat_of_nat_bounded [of "n + length pend", where 'a = 64]
      unat_of_nat_bounded [of "length pend", where 'a = 64]
    by (simp add: word_less_nat_alt)
  then show ?thesis
    using assms(1) by (simp add: blake2b_add_counter_def blake2b_state_def Let_def)
qed

lemma blake2b_final_state:
  assumes "blake2b_state ctx h n pend" and "n + length pend < 2 ^ 64"
  shows "rasta_blake2b_final ctx = blake2b_out (blake2b_blocks h n pend) (b2_outlen ctx)"
  using assms(1)
  by (simp add: rasta_blake2b_final_def Let_def blake2b_counter [OF assms] blake2b_compress_def
      blake2b_blocks.simps [of h n pend]) (simp add: blake2b_state_def)

lemma blake2b_update_byte_room:
  assumes "blake2b_state ctx h n pend" and "length pend < 128"
  shows "blake2b_state (blake2b_update_byte ctx x) h n (pend @ [x])"
    and "b2_outlen (blake2b_update_byte ctx x) = b2_outlen ctx"
  using assms by (simp_all add: blake2b_update_byte_def blake2b_state_def take_Suc_conv_app_nth)

lemma blake2b_update_byte_full:
  assumes "blake2b_state ctx h n pend" and "length pend = 128" and "n + 128 < 2 ^ 64"
  shows "blake2b_state (blake2b_update_byte ctx x)
      (blake2b_F h pend (of_nat (n + 128)) 0 False) (n + 128) [x]"
    and "b2_outlen (blake2b_update_byte ctx x) = b2_outlen ctx"
proof -
  have cnt: "blake2b_add_counter ctx = ctx\<lparr>b2_t0 := of_nat (n + 128)\<rparr>"
    using blake2b_counter [OF assms(1)] assms(2,3) by simp
  have buf: "b2_b ctx = pend"
    using assms(1,2) by (auto simp: blake2b_state_def)
  show "blake2b_state (blake2b_update_byte ctx x)
      (blake2b_F h pend (of_nat (n + 128)) 0 False) (n + 128) [x]"
    and "b2_outlen (blake2b_update_byte ctx x) = b2_outlen ctx"
    using assms(1,2) unfolding blake2b_update_byte_def Let_def
    by (simp_all add: blake2b_state_def buf cnt blake2b_compress_def take_Suc_conv_app_nth)
qed

lemma blake2b_stream:
  assumes "blake2b_state ctx h n pend" and "n + length pend + length xs < 2 ^ 64"
  shows "rasta_blake2b_final (rasta_blake2b_update ctx xs) =
    blake2b_out (blake2b_blocks h n (pend @ xs)) (b2_outlen ctx)"
  using assms
proof (induction xs arbitrary: ctx h n pend)
  case Nil
  then show ?case by (simp add: rasta_blake2b_update_def blake2b_final_state)
next
  case (Cons x xs)
  show ?case
  proof (cases "length pend < 128")
    case True
    note b = blake2b_update_byte_room [OF Cons.prems(1) True, of x]
    from Cons.IH [OF b(1)] Cons.prems(2) b(2) show ?thesis
      by (simp add: rasta_blake2b_update_def)
  next
    case False
    with Cons.prems have full: "length pend = 128"
      by (simp add: blake2b_state_def)
    then have "n + 128 < 2 ^ 64" using Cons.prems(2) by simp
    note b = blake2b_update_byte_full [OF Cons.prems(1) full this, of x]
    have "blake2b_blocks h n (pend @ x # xs) =
        blake2b_blocks (blake2b_F h pend (of_nat (n + 128)) 0 False) (n + 128) (x # xs)"
      using full by (subst blake2b_blocks.simps) simp
    with Cons.IH [OF b(1)] Cons.prems(2) b(2) full show ?thesis
      by (simp add: rasta_blake2b_update_def)
  qed
qed

lemma blake2b_update_room:
  assumes "blake2b_state ctx h n pend" and "length pend + length xs \<le> 128"
  shows "blake2b_state (rasta_blake2b_update ctx xs) h n (pend @ xs)"
    and "b2_outlen (rasta_blake2b_update ctx xs) = b2_outlen ctx"
    and "drop (length pend + length xs) (b2_b (rasta_blake2b_update ctx xs)) =
      drop (length pend + length xs) (b2_b ctx)"
  using assms
proof (induction xs arbitrary: ctx pend)
  case Nil
  { case 1 then show ?case by (simp add: rasta_blake2b_update_def) }
  { case 2 then show ?case by (simp add: rasta_blake2b_update_def) }
  { case 3 then show ?case by (simp add: rasta_blake2b_update_def) }
next
  case (Cons x xs)
  { case 1
    with blake2b_update_byte_room(1) [OF 1(1)] Cons.IH(1) [of "blake2b_update_byte ctx x" "pend @ [x]"]
    show ?case by (simp add: rasta_blake2b_update_def) }
  { case 2
    with blake2b_update_byte_room [OF 2(1)] Cons.IH(2) [of "blake2b_update_byte ctx x" "pend @ [x]"]
    show ?case by (simp add: rasta_blake2b_update_def) }
  { case 3
    then have "drop (length pend + length (x # xs)) (b2_b (blake2b_update_byte ctx x)) =
        drop (length pend + length (x # xs)) (b2_b ctx)"
      by (simp add: blake2b_update_byte_def blake2b_state_def)
    with 3 blake2b_update_byte_room(1) [OF 3(1)]
      Cons.IH(3) [of "blake2b_update_byte ctx x" "pend @ [x]"]
    show ?case by (simp add: rasta_blake2b_update_def) }
qed

lemma blake2b_init_state:
  assumes "0 < outlen" and "outlen \<le> 64" and "length key \<le> 64" and "length buf = 128"
  defines "h \<equiv> blake2b_iv[0 := blake2b_iv ! 0 XOR
    (0x01010000 XOR push_bit 8 (of_nat (length key)) XOR of_nat outlen)]"
  obtains ctx where "rasta_blake2b_init buf outlen key = Some ctx" and "b2_outlen ctx = outlen"
    and "blake2b_state ctx h 0 (if key = [] then [] else key @ replicate (128 - length key) 0)"
proof -
  define ctx where "ctx = \<lparr>b2_b = take (length key) buf @ replicate (128 - length key) 0, b2_h = h,
    b2_t0 = 0, b2_t1 = 0, b2_c = 0, b2_outlen = outlen\<rparr>"
  have st: "blake2b_state ctx h 0 []"
    using assms(3,4) by (simp add: blake2b_state_def ctx_def)
  have "blake2b_state ((rasta_blake2b_update ctx key)\<lparr>b2_c := 128\<rparr>) h 0
      (key @ replicate (128 - length key) 0)"
    and "b2_outlen (rasta_blake2b_update ctx key) = outlen"
  proof -
    have drp: "drop (length key) (b2_b ctx) = replicate (128 - length key) 0"
      using assms(3,4) by (simp add: ctx_def)
    note u = blake2b_update_room [OF st, of key, simplified]
    have "b2_b (rasta_blake2b_update ctx key) = key @ replicate (128 - length key) 0"
      using u(1,3) assms(3) drp append_take_drop_id [of "length key" "b2_b (rasta_blake2b_update ctx key)"]
      by (simp add: blake2b_state_def)
    then show "blake2b_state ((rasta_blake2b_update ctx key)\<lparr>b2_c := 128\<rparr>) h 0
        (key @ replicate (128 - length key) 0)"
      using u(1) assms(3) by (simp add: blake2b_state_def)
    show "b2_outlen (rasta_blake2b_update ctx key) = outlen"
      using u(2) assms(3) by (simp add: ctx_def)
  qed
  then show thesis
    using that st assms(1-3)
    by (cases "key = []") (simp_all add: rasta_blake2b_init_def Let_def h_def ctx_def)
qed

section \<open>Properties\<close>

text \<open>
  C29: For a key of at most 64 bytes and a message whose length fits the counter, the streaming
  BLAKE2b stores exactly the 8 or 16 bytes of the keyed hash of the whole input cut into 128-byte
  blocks, whatever the uninitialised context held.
\<close>

theorem generateBlake2_correct:
  assumes "hash_type = 1 \<or> hash_type = 2" and "length key \<le> 64" and "length buf = 128"
    and "length data < 2 ^ 32"
  shows "generateBlake2 buf data key hash_type = blake2b_ref (hash_type * 8) key data"
proof -
  have len: "0 < hash_type * 8" "hash_type * 8 \<le> 64" using assms(1) by auto
  from blake2b_init_state [OF len assms(2,3)] obtain ctx
    where init: "rasta_blake2b_init buf (hash_type * 8) key = Some ctx"
      and out: "b2_outlen ctx = hash_type * 8"
      and st: "blake2b_state ctx (blake2b_iv[0 := blake2b_iv ! 0 XOR
        (0x01010000 XOR push_bit 8 (of_nat (length key)) XOR of_nat (hash_type * 8))]) 0
        (if key = [] then [] else key @ replicate (128 - length key) 0)" .
  have "0 + length (if key = [] then [] else key @ replicate (128 - length key) (0 :: u8)) +
      length data < 2 ^ 64"
    using assms(2,4) by simp
  from blake2b_stream [OF st this] show ?thesis
    using len(1) by (simp add: generateBlake2_def init out blake2b_ref_def Let_def)
qed

theorem generateBlake2_correct_witness:
  "generateBlake2 (replicate 128 7) [1, 2, 3] [9, 9] 1 = blake2b_ref 8 [9, 9] [1, 2, 3]"
  using generateBlake2_correct [of 1 "[9, 9]" "replicate 128 7" "[1, 2, 3]"] by simp

end
