(* ===== verification/Rasta_Hashing.thy ===== *)
theory Rasta_Hashing
  imports Rasta_MD4 Rasta_SipHash Rasta_Blake2
begin

text \<open>
  The hashing context of the safety and retransmission layer and the dispatch of
  \<open>util/rastahashing.c\<close> over MD4, BLAKE2b and SipHash.

  \<open>rasta_calculate_hash\<close> returns the bytes stored to \<open>hash\<close>; it is \<open>None\<close> where the code aborts
  (empty key), reads past the end of the key or, with MD4 and a code of fewer than 16 bytes, writes past
  the end of its array. The locale \<open>safety_code\<close> states what the packet
  layer relies on and is interpreted on the dispatch.
\<close>

datatype rasta_checksum_type = RASTA_CHECKSUM_NONE | RASTA_CHECKSUM_8B | RASTA_CHECKSUM_16B

datatype rasta_hash_algorithm = RASTA_ALGO_MD4 | RASTA_ALGO_BLAKE2B | RASTA_ALGO_SIPHASH_2_4

text \<open>The enumerator's value.\<close>

fun checksum_type_value :: "rasta_checksum_type \<Rightarrow> nat" where
  "checksum_type_value RASTA_CHECKSUM_NONE = 0"
| "checksum_type_value RASTA_CHECKSUM_8B = 1"
| "checksum_type_value RASTA_CHECKSUM_16B = 2"

record rasta_hashing_ctx =
  algorithm :: rasta_hash_algorithm
  hash_length :: rasta_checksum_type
  key :: bytes

text \<open>\<open>hash_length * 8\<close>, the number of checksum bytes at the end of a packet.\<close>

definition checksum_len :: "rasta_hashing_ctx \<Rightarrow> nat" where
  "checksum_len context0 = checksum_type_value (hash_length context0) * 8"

definition rasta_md4_set_key :: "rasta_hashing_ctx \<Rightarrow> u32 \<Rightarrow> u32 \<Rightarrow> u32 \<Rightarrow> u32 \<Rightarrow> rasta_hashing_ctx option" where
  "rasta_md4_set_key context0 a b c d = do {
     let k = allocateRastaByteArray 16;
     k \<leftarrow> rmemcpy k 0 (hostLongToLe a) 0 4;
     k \<leftarrow> rmemcpy k 4 (hostLongToLe b) 0 4;
     k \<leftarrow> rmemcpy k 8 (hostLongToLe c) 0 4;
     k \<leftarrow> rmemcpy k 12 (hostLongToLe d) 0 4;
     Some (context0\<lparr>key := k\<rparr>)
   }"

definition rasta_set_hash_key_variable :: "rasta_hashing_ctx \<Rightarrow> bytes \<Rightarrow> nat \<Rightarrow> rasta_hashing_ctx option" where
  "rasta_set_hash_key_variable context0 k key_length = do {
     b \<leftarrow> rmemcpy (allocateRastaByteArray key_length) 0 k 0 key_length;
     Some (context0\<lparr>key := b\<rparr>)
   }"

definition rasta_get_md4_ctx_from_key :: "rasta_hashing_ctx \<Rightarrow> bytes \<Rightarrow> MD4_CTX_RASTA option" where
  "rasta_get_md4_ctx_from_key context0 buf = do {
     a \<leftarrow> leLongToHost (key context0) 0;
     b \<leftarrow> leLongToHost (key context0) 4;
     c \<leftarrow> leLongToHost (key context0) 8;
     d \<leftarrow> leLongToHost (key context0) 12;
     Some (md4InitContext a b c d buf)
   }"

text \<open>
  The uninitialised buffers of the stack contexts do not influence the result; they are all zero
  here. The enumeration has no further values, so the \<open>default\<close> branch is not reached.
\<close>

definition rasta_calculate_hash :: "bytes \<Rightarrow> rasta_hashing_ctx \<Rightarrow> bytes option" where
  "rasta_calculate_hash data context0 =
     (if key context0 = [] then None
      else
        case algorithm context0 of
          RASTA_ALGO_MD4 \<Rightarrow> do {
            md4_ctx \<leftarrow> rasta_get_md4_ctx_from_key context0 (replicate 64 0);
            (h, md4_ctx) \<leftarrow> generateMD4WithVector data (checksum_type_value (hash_length context0)) md4_ctx;
            Some h
          }
        | RASTA_ALGO_BLAKE2B \<Rightarrow>
            Some (generateBlake2 (replicate 128 0) data (key context0)
                    (checksum_type_value (hash_length context0)))
        | RASTA_ALGO_SIPHASH_2_4 \<Rightarrow>
            generateSiphash24 data (key context0) (checksum_type_value (hash_length context0)))"

section \<open>The contract of a safety code\<close>

locale safety_code =
  fixes code :: "bytes \<Rightarrow> 'c \<Rightarrow> bytes option"
    and ok :: "'c \<Rightarrow> bool"
    and code_len :: "'c \<Rightarrow> nat"
  assumes code_defined: "ok c \<Longrightarrow> \<exists>h. code d c = Some h \<and> code_len c \<le> length h"
begin

lemma code_cases:
  assumes "ok c"
  obtains h where "code d c = Some h" and "code_len c \<le> length h"
  using code_defined [OF assms] by blast

text \<open>Comparing the stored code with the recomputed one accepts exactly the right code.\<close>

lemma check_accepts_iff:
  assumes "ok c" and "code d c = Some h" and "length stored = code_len c"
  shows "rmemcmp h 0 stored 0 (code_len c) = Some 0 \<longleftrightarrow> stored = take (code_len c) h"
proof -
  have "code_len c \<le> length h" using code_defined [OF assms(1), of d] assms(2) by simp
  then show ?thesis
    using assms(3) by (auto simp: rmemcmp_def memcmp_eq_0_iff)
qed

end

text \<open>
  Contexts with which the code stays inside its buffers: keys that are long enough for the algorithm,
  and MD4 only with the code of 16 bytes.
\<close>

definition hashing_ok :: "rasta_hashing_ctx \<Rightarrow> bool" where
  "hashing_ok context0 \<longleftrightarrow>
     key context0 \<noteq> [] \<and>
     (case algorithm context0 of
        RASTA_ALGO_MD4 \<Rightarrow> 16 \<le> length (key context0) \<and> hash_length context0 = RASTA_CHECKSUM_16B
      | RASTA_ALGO_BLAKE2B \<Rightarrow> length (key context0) \<le> 64
      | RASTA_ALGO_SIPHASH_2_4 \<Rightarrow>
          (case hash_length context0 of
             RASTA_CHECKSUM_NONE \<Rightarrow> True
           | RASTA_CHECKSUM_8B \<Rightarrow> 8 \<le> length (key context0)
           | RASTA_CHECKSUM_16B \<Rightarrow> 16 \<le> length (key context0)))"

lemma length_MD4_Final: "length (fst (MD4_Final_Rasta ctx)) = 16"
  by (simp add: MD4_Final_Rasta_def Let_def split: prod.split)

lemma length_generateMD4WithVector:
  "\<exists>h ctx'. generateMD4WithVector data 2 ctx = Some (h, ctx') \<and> length h = 16"
  using length_MD4_Final [of "MD4_Update_Rasta ctx data"]
  by (auto simp: generateMD4WithVector_def split: prod.splits)

lemma rasta_blake2b_outlen:
  "b2_outlen (rasta_blake2b_update ctx xs) = b2_outlen ctx"
  unfolding rasta_blake2b_update_def
  by (induction xs arbitrary: ctx)
    (simp_all add: blake2b_update_byte_def blake2b_compress_def blake2b_add_counter_def Let_def)

lemma length_rasta_blake2b_final: "length (rasta_blake2b_final ctx) = b2_outlen ctx"
  by (simp add: rasta_blake2b_final_def Let_def blake2b_out_def blake2b_compress_def
      blake2b_add_counter_def)

lemma length_generateBlake2:
  assumes "t \<le> 2" and "length k \<le> 64"
  shows "length (generateBlake2 buf data k t) = t * 8"
  using assms
  by (auto simp: generateBlake2_def rasta_blake2b_init_def Let_def length_rasta_blake2b_final
      rasta_blake2b_outlen)

lemma length_siphash_16: "16 \<le> length k \<Longrightarrow> \<exists>h. siphash data k 16 = Some h \<and> length h = 16"
  by (simp add: siphash_def Let_def U64TO8_LE_def split: prod.split)

lemma length_halfsiphash_8: "8 \<le> length k \<Longrightarrow> \<exists>h. halfsiphash data k 8 = Some h \<and> length h = 8"
  by (simp add: halfsiphash_def Let_def half_output_def split: prod.split)

lemma checksum_type_value_le: "checksum_type_value t \<le> 2"
  by (cases t) simp_all

lemma rasta_calculate_hash_defined:
  assumes "hashing_ok context0"
  shows "\<exists>h. rasta_calculate_hash data context0 = Some h \<and> checksum_len context0 \<le> length h"
proof (cases "algorithm context0")
  case RASTA_ALGO_MD4
  with assms show ?thesis
    using length_generateMD4WithVector [of data "md4InitContext (le_long (take 4 (key context0)))
        (le_long (take 4 (drop 4 (key context0)))) (le_long (take 4 (drop 8 (key context0))))
        (le_long (take 4 (drop 12 (key context0)))) (replicate 64 0)"]
    by (auto simp: rasta_calculate_hash_def rasta_get_md4_ctx_from_key_def hashing_ok_def
        leLongToHost_def checksum_len_def)
next
  case RASTA_ALGO_BLAKE2B
  with assms show ?thesis
    using length_generateBlake2 [OF checksum_type_value_le]
    by (simp add: rasta_calculate_hash_def hashing_ok_def checksum_len_def)
next
  case RASTA_ALGO_SIPHASH_2_4
  with assms show ?thesis
    using length_siphash_16 [of "key context0" data] length_halfsiphash_8 [of "key context0" data]
    by (cases "hash_length context0")
      (auto simp: rasta_calculate_hash_def hashing_ok_def checksum_len_def generateSiphash24_def)
qed

interpretation sr_code: safety_code rasta_calculate_hash hashing_ok checksum_len
  by unfold_locales (rule rasta_calculate_hash_defined)

lemma rasta_md4_set_key_ok:
  "algorithm c = RASTA_ALGO_MD4 \<Longrightarrow> hash_length c = RASTA_CHECKSUM_16B \<Longrightarrow> \<exists>c'. rasta_md4_set_key c x y z w = Some c' \<and> hashing_ok c' \<and>
    rasta_get_md4_ctx_from_key c' buf = Some (md4InitContext x y z w buf)"
  by (simp add: rasta_md4_set_key_def rmemcpy_def allocateRastaByteArray_def hashing_ok_def
      rasta_get_md4_ctx_from_key_def leLongToHost_def)

end
