(* ===== verification/Rasta_CRC.thy ===== *)
theory Rasta_CRC
  imports Rasta_Util
begin

text \<open>
  The redundancy layer's checksum, \<open>util/rastacrc.c\<close>: the option sets (6.3.6 a to e), the lookup
  table and the table-driven computation on 64-bit \<open>unsigned long\<close>s. A shift count is taken modulo
  64, as the x86-64 shift instructions do; that matters for option set a only, whose width 0 makes
  the sources shift by \<open>width - 8 = -8\<close>.

  \<open>crc_spec\<close> is the bit-by-bit reference: the parameterised shift register of width \<open>w\<close> that the
  options describe. The table-driven routine is proved equal to it for every reflected and
  unreflected option set, and the reference is proved to detect every error confined to one byte.
\<close>

unbundle bit_operations_syntax

record crc_options =
  width :: u16
  polynom :: u64
  initial :: u64
  initial_optimized :: u64
  refin :: bool
  refout :: bool
  final_xor :: u64
  crc_mask :: u64
  crc_high_bit :: u64
  is_table_generated :: bool
  crc_table :: "u64 list"

text \<open>Shifts by a C \<open>int\<close> count.\<close>

definition c_shl :: "u64 \<Rightarrow> int \<Rightarrow> u64" where
  "c_shl x n = push_bit (nat (n mod 64)) x"

definition c_shr :: "u64 \<Rightarrow> int \<Rightarrow> u64" where
  "c_shr x n = drop_bit (nat (n mod 64)) x"

section \<open>Reflection\<close>

function reflect_loop :: "u64 \<Rightarrow> u64 \<Rightarrow> u64 \<Rightarrow> u64 \<Rightarrow> u64" where
  "reflect_loop crc_in i j crc_out =
     (if i = 0 then crc_out
      else reflect_loop crc_in (drop_bit 1 i) (push_bit 1 j)
             (if crc_in AND i \<noteq> 0 then crc_out OR j else crc_out))"
  by pat_completeness auto
termination
proof (relation "measure (\<lambda>(_, i, _, _). unat i)", goal_cases)
  case 1
  show ?case by simp
next
  case (2 crc_in i j crc_out)
  then have "0 < unat i" by (simp add: unat_gt_0)
  then show ?case by (simp add: drop_bit_eq_div unat_div)
qed

declare reflect_loop.simps [simp del]

definition reflect :: "u64 \<Rightarrow> int \<Rightarrow> u64" where
  "reflect crc_in n = reflect_loop crc_in (c_shl 1 (n - 1)) 1 0"

section \<open>The option sets\<close>

definition crc_mask_of :: "u16 \<Rightarrow> u64" where
  "crc_mask_of w = push_bit 1 (c_shl 1 (uint w - 1) - 1) OR 1"

definition crc_high_bit_of :: "u16 \<Rightarrow> u64" where
  "crc_high_bit_of w = c_shl 1 (uint w - 1)"

definition crc_init_opt_a :: crc_options where
  "crc_init_opt_a =
     \<lparr>width = 0, polynom = 0, initial = 0, initial_optimized = 0, refin = False, refout = False,
      final_xor = 0, crc_mask = 0, crc_high_bit = 0, is_table_generated = False,
      crc_table = replicate 256 0\<rparr>"

text \<open>The other sets leave the table uninitialised; \<open>crc_generate_table\<close> overwrites all of it.\<close>

definition crc_init_opt_b :: "u64 list \<Rightarrow> crc_options" where
  "crc_init_opt_b tbl =
     \<lparr>width = 32, polynom = 0xEE5B42FD, initial = 0, initial_optimized = 0, refin = False,
      refout = False, final_xor = 0, crc_mask = crc_mask_of 32, crc_high_bit = crc_high_bit_of 32,
      is_table_generated = False, crc_table = tbl\<rparr>"

definition crc_init_opt_c :: "u64 list \<Rightarrow> crc_options" where
  "crc_init_opt_c tbl =
     \<lparr>width = 32, polynom = 0x1EDC6F41, initial = 0x2A26F826, initial_optimized = 0xFFFFFFFF,
      refin = True, refout = True, final_xor = 0xFFFFFFFF, crc_mask = crc_mask_of 32,
      crc_high_bit = crc_high_bit_of 32, is_table_generated = False, crc_table = tbl\<rparr>"

definition crc_init_opt_d :: "u64 list \<Rightarrow> crc_options" where
  "crc_init_opt_d tbl =
     \<lparr>width = 16, polynom = 0x1021, initial = 0, initial_optimized = 0, refin = True,
      refout = True, final_xor = 0, crc_mask = crc_mask_of 16, crc_high_bit = crc_high_bit_of 16,
      is_table_generated = False, crc_table = tbl\<rparr>"

definition crc_init_opt_e :: "u64 list \<Rightarrow> crc_options" where
  "crc_init_opt_e tbl =
     \<lparr>width = 16, polynom = 0x8005, initial = 0, initial_optimized = 0, refin = True,
      refout = True, final_xor = 0, crc_mask = crc_mask_of 16, crc_high_bit = crc_high_bit_of 16,
      is_table_generated = False, crc_table = tbl\<rparr>"

section \<open>Table generation and the table-driven computation\<close>

text \<open>One turn of the inner loop of \<open>crc_generate_table\<close>.\<close>

definition crc_table_step :: "crc_options \<Rightarrow> u64 \<Rightarrow> u64" where
  "crc_table_step opts crc =
     (let bit = crc AND crc_high_bit opts; crc = push_bit 1 crc
      in if bit \<noteq> 0 then crc XOR polynom opts else crc)"

definition crc_table_entry :: "crc_options \<Rightarrow> nat \<Rightarrow> u64" where
  "crc_table_entry opts i =
     (let crc = of_nat i;
          crc = (if refin opts then reflect crc 8 else crc);
          crc = c_shl crc (uint (width opts) - 8);
          crc = (crc_table_step opts ^^ 8) crc;
          crc = (if refin opts then reflect crc (uint (width opts)) else crc)
      in crc AND crc_mask opts)"

definition crc_generate_table :: "crc_options \<Rightarrow> crc_options" where
  "crc_generate_table opts =
     opts\<lparr>crc_table := map (crc_table_entry opts) [0..<256], is_table_generated := True\<rparr>"

fun crc_forward :: "crc_options \<Rightarrow> u64 \<Rightarrow> bytes \<Rightarrow> u64" where
  "crc_forward opts crc [] = crc"
| "crc_forward opts crc (b # bs) =
     crc_forward opts
       (push_bit 8 crc XOR
        crc_table opts ! unat ((c_shr crc (uint (width opts) - 8) AND 0xff) XOR ucast b)) bs"

fun crc_reflected :: "crc_options \<Rightarrow> u64 \<Rightarrow> bytes \<Rightarrow> u64" where
  "crc_reflected opts crc [] = crc"
| "crc_reflected opts crc (b # bs) =
     crc_reflected opts
       (drop_bit 8 crc XOR crc_table opts ! unat ((crc AND 0xff) XOR ucast b)) bs"

definition crc_calculate :: "crc_options \<Rightarrow> bytes \<Rightarrow> u64 \<times> crc_options" where
  "crc_calculate options0 data =
     (let opts = (if is_table_generated options0 then options0 else crc_generate_table options0);
          crc = initial_optimized opts;
          crc = (if refin opts then reflect crc (uint (width opts)) else crc);
          crc = (if refin opts then crc_reflected opts crc data else crc_forward opts crc data);
          crc = (if refout opts \<noteq> refin opts then reflect crc (uint (width opts)) else crc);
          crc = crc XOR final_xor opts;
          crc = crc AND crc_mask opts
      in (crc, opts))"

section \<open>The reference shift register\<close>

text \<open>One step of a \<open>w\<close>-bit register with feedback polynomial \<open>p\<close>.\<close>

definition crc_step :: "nat \<Rightarrow> u64 \<Rightarrow> u64 \<Rightarrow> u64" where
  "crc_step w p r = take_bit w (push_bit 1 r XOR (if bit r (w - 1) then p else 0))"

definition mirror :: "nat \<Rightarrow> u64 \<Rightarrow> u64" where
  "mirror n x = reflect x (int n)"

definition crc_byte :: "nat \<Rightarrow> u64 \<Rightarrow> bool \<Rightarrow> u64 \<Rightarrow> u8 \<Rightarrow> u64" where
  "crc_byte w p rin r b =
     (crc_step w p ^^ 8) (r XOR push_bit (w - 8) (if rin then mirror 8 (ucast b) else ucast b))"

definition crc_spec :: "crc_options \<Rightarrow> bytes \<Rightarrow> u64" where
  "crc_spec opts data =
     (let w = unat (width opts);
          r = foldl (crc_byte w (polynom opts) (refin opts)) (initial_optimized opts) data;
          r = (if refout opts then mirror w r else r)
      in take_bit w (r XOR final_xor opts))"

text \<open>What the routine relies on: a width the 64-bit registers can hold and fields that fit it.\<close>

definition crc_wf :: "crc_options \<Rightarrow> bool" where
  "crc_wf opts \<longleftrightarrow>
     8 \<le> unat (width opts) \<and> unat (width opts) \<le> 56 \<and>
     crc_mask opts = mask (unat (width opts)) \<and>
     crc_high_bit opts = 2 ^ (unat (width opts) - 1) \<and>
     take_bit (unat (width opts)) (polynom opts) = polynom opts \<and>
     take_bit (unat (width opts)) (initial_optimized opts) = initial_optimized opts \<and>
     (is_table_generated opts \<longrightarrow> crc_table opts = map (crc_table_entry opts) [0..<256])"

section \<open>Reflection, bit by bit\<close>

lemma and_exp_neq_0: "x AND 2 ^ m \<noteq> (0 :: u64) \<longleftrightarrow> bit x m"
  by (simp add: and_exp_eq_0_iff_not_bit)

lemma bit_reflect_loop:
  "p + m < 64 \<Longrightarrow>
   bit (reflect_loop x (2 ^ m) (2 ^ p) crc_out) k \<longleftrightarrow>
   bit crc_out k \<or> (p \<le> k \<and> k \<le> p + m \<and> bit x (p + m - k))"
proof (induction m arbitrary: p crc_out)
  case 0
  have step: "reflect_loop x (2 ^ 0) (2 ^ p) crc_out =
      (if bit x 0 then crc_out OR 2 ^ p else crc_out)"
    by (subst reflect_loop.simps, subst reflect_loop.simps)
      (simp add: and_exp_neq_0 [of x 0, simplified] drop_bit_eq_div)
  show ?case
    unfolding step using "0.prems" by (auto simp: bit_or_iff bit_exp_iff)
next
  case (Suc m)
  have half: "drop_bit 1 (2 ^ Suc m :: u64) = 2 ^ m"
    using Suc.prems by (auto intro!: bit_word_eqI simp: bit_drop_bit_eq bit_exp_iff simp del: power_Suc)
  have double: "push_bit 1 (2 ^ p :: u64) = 2 ^ Suc p"
    by (simp add: push_bit_eq_mult)
  have nz: "(2 :: u64) ^ Suc m \<noteq> 0"
    using Suc.prems bit_exp_iff [of "Suc m" "Suc m", where 'a = u64]
    by (auto simp del: power_Suc)
  have step: "reflect_loop x (2 ^ Suc m) (2 ^ p) crc_out =
      reflect_loop x (2 ^ m) (2 ^ Suc p) (if bit x (Suc m) then crc_out OR 2 ^ p else crc_out)"
    using nz by (subst reflect_loop.simps) (simp only: half double and_exp_neq_0 if_False)
  show ?case
    unfolding step using Suc.prems
    by (cases "k = p"; subst Suc.IH) (auto simp: bit_or_iff bit_exp_iff le_Suc_eq)
qed

lemma bit_reflect:
  assumes "1 \<le> n" and "n \<le> 64"
  shows "bit (reflect x (int n)) k \<longleftrightarrow> k < n \<and> bit x (n - 1 - k)"
proof -
  have "c_shl 1 (int n - 1) = 2 ^ (n - 1)"
    using assms nat_int [of "n - 1"] by (simp add: c_shl_def push_bit_eq_mult of_nat_diff)
  then have "reflect x (int n) = reflect_loop x (2 ^ (n - 1)) (2 ^ 0) 0"
    by (simp add: reflect_def)
  with assms show ?thesis
    by (auto simp: bit_reflect_loop simp del: power_0)
qed

lemma bit_mirror [bytes_simps]:
  "1 \<le> n \<Longrightarrow> n \<le> 64 \<Longrightarrow> bit (mirror n x) k \<longleftrightarrow> k < n \<and> bit x (n - 1 - k)"
  by (simp add: mirror_def bit_reflect)

lemma mirror_xor: "1 \<le> n \<Longrightarrow> n \<le> 64 \<Longrightarrow> mirror n (x XOR y) = mirror n x XOR mirror n y"
  by (rule bit_word_eqI) (auto simp: bytes_simps bit_xor_iff)

lemma mirror_mirror: "1 \<le> n \<Longrightarrow> n \<le> 64 \<Longrightarrow> mirror n (mirror n x) = take_bit n x"
  by (rule bit_word_eqI) (auto simp: bytes_simps bit_take_bit_iff)

lemma mirror_take_bit: "1 \<le> n \<Longrightarrow> n \<le> 64 \<Longrightarrow> mirror n (take_bit n x) = mirror n x"
  by (rule bit_word_eqI) (auto simp: bytes_simps bit_take_bit_iff)

lemma take_bit_mirror: "1 \<le> n \<Longrightarrow> n \<le> 64 \<Longrightarrow> take_bit n (mirror n x) = mirror n x"
  by (rule bit_word_eqI) (auto simp: bytes_simps bit_take_bit_iff)

lemma drop_bit_mirror:
  "8 \<le> w \<Longrightarrow> w \<le> 56 \<Longrightarrow> drop_bit 8 (mirror w r) = mirror w (push_bit 8 (take_bit (w - 8) r))"
  by (rule bit_word_eqI) (auto simp: bytes_simps bit_take_bit_iff bit_drop_bit_eq bit_push_bit_iff)

lemma mirror_low_byte:
  "8 \<le> w \<Longrightarrow> w \<le> 56 \<Longrightarrow> take_bit w r = r \<Longrightarrow>
   mirror 8 (take_bit 8 (mirror w r)) = drop_bit (w - 8) r"
proof (rule bit_word_eqI)
  fix k assume w: "8 \<le> w" "w \<le> 56" and r: "take_bit w r = r"
  have "bit r (w - 8 + k) \<Longrightarrow> w - 8 + k < w"
    using bit_take_bit_iff [of w r "w - 8 + k"] r by simp
  with w show "bit (mirror 8 (take_bit 8 (mirror w r))) k = bit (drop_bit (w - 8) r) k"
    by (auto simp: bytes_simps bit_take_bit_iff bit_drop_bit_eq ac_simps)
qed

section \<open>The shift register as a linear map\<close>

lemma bit_crc_step:
  "w \<le> 64 \<Longrightarrow> bit (crc_step w p r) k \<longleftrightarrow>
   k < w \<and> ((0 < k \<and> bit r (k - 1)) \<noteq> (bit r (w - 1) \<and> bit p k))"
  unfolding crc_step_def bit_take_bit_iff bit_xor_iff bit_push_bit_iff by auto

lemma crc_step_xor:
  "w \<le> 64 \<Longrightarrow> crc_step w p (x XOR y) = crc_step w p x XOR crc_step w p y"
  by (rule bit_word_eqI) (auto simp: bit_crc_step bit_xor_iff)

lemma take_bit_crc_step [simp]: "take_bit w (crc_step w p r) = crc_step w p r"
  by (simp add: crc_step_def)

lemma crc_steps_xor:
  "w \<le> 64 \<Longrightarrow> (crc_step w p ^^ n) (x XOR y) = (crc_step w p ^^ n) x XOR (crc_step w p ^^ n) y"
  by (induction n) (simp_all add: crc_step_xor)

lemma take_bit_crc_steps:
  "take_bit w r = r \<Longrightarrow> take_bit w ((crc_step w p ^^ n) r) = (crc_step w p ^^ n) r"
  by (cases n) simp_all

lemma take_bit_bits: "take_bit n (x :: 'a::len word) = x \<longleftrightarrow> (\<forall>k. bit x k \<longrightarrow> k < n)"
  by (metis bit_take_bit_iff bit_word_eqI)

text \<open>While no bit reaches the top, a step only shifts.\<close>

lemma crc_steps_shift:
  assumes "w \<le> 64" and "k \<le> w" and "take_bit (w - k) x = x"
  shows "(crc_step w p ^^ k) x = push_bit k x"
  using assms(2,3)
proof (induction k)
  case 0
  then show ?case by simp
next
  case (Suc k)
  have "take_bit (w - k) x = x"
    using Suc.prems unfolding take_bit_bits by force
  with Suc have "(crc_step w p ^^ Suc k) x = crc_step w p (push_bit k x)"
    by simp
  also have "\<dots> = push_bit (Suc k) x"
  proof (rule bit_word_eqI)
    fix j assume "j < LENGTH(64)"
    have low: "i < w - Suc k" if "bit x i" for i
      using Suc.prems that unfolding take_bit_bits by blast
    have "\<not> bit (push_bit k x) (w - 1)"
      using low [of "w - 1 - k"] by (auto simp: bit_push_bit_iff)
    moreover have "bit x (j - Suc k) \<Longrightarrow> Suc k \<le> j \<Longrightarrow> j < w"
      using low [of "j - Suc k"] by simp
    ultimately show "bit (crc_step w p (push_bit k x)) j = bit (push_bit (Suc k) x) j"
      using \<open>j < LENGTH(64)\<close> assms(1)
      by (auto simp: bit_crc_step bit_push_bit_iff simp del: push_bit_Suc)
  qed
  finally show ?case .
qed

lemma split_top_byte:
  assumes "8 \<le> w" and "w \<le> 56"
  shows "r = push_bit (w - 8) (drop_bit (w - 8) r) XOR take_bit (w - 8) (r :: u64)"
  by (rule bit_word_eqI)
    (auto simp: bit_xor_iff bit_push_bit_iff bit_drop_bit_eq bit_take_bit_iff)

text \<open>The identity behind the lookup table.\<close>

lemma crc_eight_steps:
  assumes "8 \<le> w" and "w \<le> 56"
  shows "(crc_step w p ^^ 8) r =
    (crc_step w p ^^ 8) (push_bit (w - 8) (drop_bit (w - 8) r)) XOR push_bit 8 (take_bit (w - 8) r)"
proof -
  have "(crc_step w p ^^ 8) r =
      (crc_step w p ^^ 8) (push_bit (w - 8) (drop_bit (w - 8) r) XOR take_bit (w - 8) r)"
    using split_top_byte [OF assms, of r] by simp
  also have "\<dots> = (crc_step w p ^^ 8) (push_bit (w - 8) (drop_bit (w - 8) r)) XOR
      (crc_step w p ^^ 8) (take_bit (w - 8) r)"
    by (rule crc_steps_xor) (use assms in simp)
  also have "(crc_step w p ^^ 8) (take_bit (w - 8) r) = push_bit 8 (take_bit (w - 8) r)"
    by (rule crc_steps_shift) (use assms in simp_all)
  finally show ?thesis .
qed

section \<open>The lookup table\<close>

lemma c_shift_top:
  assumes "8 \<le> n" and "n \<le> 56"
  shows "c_shl x (int n - 8) = push_bit (n - 8) x" and "c_shr x (int n - 8) = drop_bit (n - 8) x"
  using assms by (simp_all add: c_shl_def c_shr_def nat_diff_distrib)

lemma crc_wf_width:
  assumes "crc_wf opts"
  shows "8 \<le> unat (width opts)" and "unat (width opts) \<le> 56"
    and "c_shl x (uint (width opts) - 8) = push_bit (unat (width opts) - 8) x"
    and "c_shr x (uint (width opts) - 8) = drop_bit (unat (width opts) - 8) x"
    and "reflect x (uint (width opts)) = mirror (unat (width opts)) x"
    and "x AND crc_mask opts = take_bit (unat (width opts)) x"
proof -
  have w: "uint (width opts) = int (unat (width opts))" by simp
  show l: "8 \<le> unat (width opts)" and u: "unat (width opts) \<le> 56"
    using assms by (auto simp: crc_wf_def)
  show "c_shl x (uint (width opts) - 8) = push_bit (unat (width opts) - 8) x"
    and "c_shr x (uint (width opts) - 8) = drop_bit (unat (width opts) - 8) x"
    using l u unfolding w by (rule c_shift_top)+
  show "reflect x (uint (width opts)) = mirror (unat (width opts)) x"
    unfolding w mirror_def ..
  show "x AND crc_mask opts = take_bit (unat (width opts)) x"
    using assms by (simp add: crc_wf_def take_bit_eq_mask)
qed

lemma take_bit_crc_table_step:
  assumes "crc_wf opts"
  shows "take_bit (unat (width opts)) (crc_table_step opts x) =
    crc_step (unat (width opts)) (polynom opts) (take_bit (unat (width opts)) x)"
proof -
  let ?w = "unat (width opts)"
  have "crc_high_bit opts = 2 ^ (?w - 1)"
    using assms by (simp add: crc_wf_def)
  then have step: "crc_table_step opts x =
      push_bit 1 x XOR (if bit x (?w - 1) then polynom opts else 0)"
    unfolding crc_table_step_def Let_def by (simp only: and_exp_neq_0) simp
  show ?thesis
    unfolding step using crc_wf_width(1,2) [OF assms]
    by (intro bit_word_eqI)
      (auto simp: bit_crc_step bit_take_bit_iff bit_xor_iff bit_push_bit_iff
        simp del: push_bit_Suc One_nat_def)
qed

lemma take_bit_crc_table_steps:
  assumes "crc_wf opts"
  shows "take_bit (unat (width opts)) ((crc_table_step opts ^^ n) x) =
    (crc_step (unat (width opts)) (polynom opts) ^^ n) (take_bit (unat (width opts)) x)"
  by (induction n) (simp_all add: take_bit_crc_table_step [OF assms])

text \<open>The register after eight steps from a byte at its top.\<close>

definition crc_top :: "crc_options \<Rightarrow> u64 \<Rightarrow> u64" where
  "crc_top opts x =
     (crc_step (unat (width opts)) (polynom opts) ^^ 8) (push_bit (unat (width opts) - 8) x)"

lemma take_bit_push_top:
  assumes "8 \<le> w" and "w \<le> 56" and "take_bit 8 x = (x :: u64)"
  shows "take_bit w (push_bit (w - 8) x) = push_bit (w - 8) x"
  using assms unfolding take_bit_bits by (fastforce simp: bit_push_bit_iff)

lemma take_bit_crc_top:
  assumes "crc_wf opts" and "take_bit 8 x = x"
  shows "take_bit (unat (width opts)) (crc_top opts x) = crc_top opts x"
  unfolding crc_top_def
  by (intro take_bit_crc_steps take_bit_push_top crc_wf_width(1,2) assms)

lemma take_bit_reflect_8: "take_bit 8 (reflect x 8) = reflect x 8"
  using take_bit_mirror [of 8 x] by (simp add: mirror_def)

lemma crc_table_entry_eq:
  assumes "crc_wf opts" and "take_bit 8 x = x"
  shows "crc_table_entry opts (unat x) =
    (if refin opts then mirror (unat (width opts)) (crc_top opts (mirror 8 x)) else crc_top opts x)"
proof -
  note w = crc_wf_width [OF assms(1)]
  have top: "take_bit (unat (width opts))
      ((crc_table_step opts ^^ 8) (push_bit (unat (width opts) - 8) y)) = crc_top opts y"
    if "take_bit 8 y = y" for y
    by (simp only: take_bit_crc_table_steps [OF assms(1)] crc_top_def
        take_bit_push_top [OF w(1,2) that])
  have m8: "take_bit 8 (mirror 8 x) = mirror 8 x"
    by (rule take_bit_mirror) simp_all
  have mw: "take_bit (unat (width opts)) (mirror (unat (width opts)) y) =
      mirror (unat (width opts)) (take_bit (unat (width opts)) y)" for y
    using w(1,2) by (simp add: take_bit_mirror mirror_take_bit)
  show ?thesis
    using mw top [OF m8] top [OF assms(2)]
    by (simp add: crc_table_entry_def Let_def w mirror_def [of 8])
qed

section \<open>The table-driven routine computes the reference\<close>

lemma take_bit_ucast_byte: "take_bit 8 (ucast (b :: u8) :: u64) = ucast b"
  by (rule bit_word_eqI) (auto simp: bit_take_bit_iff bit_ucast_iff dest: bit_imp_le_length)

lemma drop_bit_xor_top:
  assumes "8 \<le> w" and "w \<le> 56" and "take_bit 8 v = (v :: u64)"
  shows "drop_bit (w - 8) (r XOR push_bit (w - 8) v) = drop_bit (w - 8) r XOR v"
proof (rule bit_word_eqI)
  fix n assume "n < LENGTH(64)"
  have "bit v n \<Longrightarrow> n < 8"
    using assms(3) unfolding take_bit_bits by blast
  then show "bit (drop_bit (w - 8) (r XOR push_bit (w - 8) v)) n = bit (drop_bit (w - 8) r XOR v) n"
    using assms(1,2) by (auto simp: bit_xor_iff bit_drop_bit_eq bit_push_bit_iff)
qed

lemma crc_byte_table:
  assumes "crc_wf opts" and "take_bit (unat (width opts)) r = r"
    and v: "v = (if refin opts then mirror 8 (ucast b) else ucast b)"
  shows "crc_byte (unat (width opts)) (polynom opts) (refin opts) r b =
    crc_top opts (drop_bit (unat (width opts) - 8) r XOR v) XOR
    push_bit 8 (take_bit (unat (width opts) - 8) r)"
proof -
  let ?w = "unat (width opts)"
  note w = crc_wf_width(1,2) [OF assms(1)]
  have v8: "take_bit 8 v = v"
    using v take_bit_mirror [of 8] take_bit_ucast_byte by simp
  have top: "drop_bit (?w - 8) (r XOR push_bit (?w - 8) v) = drop_bit (?w - 8) r XOR v"
    using w by (rule drop_bit_xor_top) (rule v8)
  have low: "take_bit (?w - 8) (r XOR push_bit (?w - 8) v) = take_bit (?w - 8) r"
    by (rule bit_word_eqI) (auto simp: bit_xor_iff bit_take_bit_iff bit_push_bit_iff)
  show ?thesis
    unfolding crc_byte_def crc_top_def v [symmetric]
    by (subst crc_eight_steps [OF w]) (simp only: top low)
qed

lemma crc_byte_fits:
  assumes "crc_wf opts" and "take_bit (unat (width opts)) r = r"
  shows "take_bit (unat (width opts)) (crc_byte (unat (width opts)) (polynom opts) (refin opts) r b) =
    crc_byte (unat (width opts)) (polynom opts) (refin opts) r b"
proof -
  note w = crc_wf_width(1,2) [OF assms(1)]
  have "take_bit 8 (if refin opts then mirror 8 (ucast b) else ucast b) =
      (if refin opts then mirror 8 (ucast b) else (ucast b :: u64))"
    by (simp add: take_bit_mirror take_bit_ucast_byte)
  from take_bit_push_top [OF w this] assms(2) show ?thesis
    unfolding crc_byte_def by (intro take_bit_crc_steps) (simp add: take_bit_xor)
qed

text \<open>The generated table, and the lookup both loops make.\<close>

definition crc_ready :: "crc_options \<Rightarrow> bool" where
  "crc_ready opts \<longleftrightarrow> crc_wf opts \<and> crc_table opts = map (crc_table_entry opts) [0..<256]"

lemma crc_lookup:
  assumes "crc_ready opts" and "take_bit 8 x = x"
  shows "crc_table opts ! unat x =
    (if refin opts then mirror (unat (width opts)) (crc_top opts (mirror 8 x)) else crc_top opts x)"
proof -
  have "unat x < 256"
    using arg_cong [OF assms(2), of unat] unsigned_take_bit_eq [of 8 x, where 'a = nat]
      take_bit_nat_less_exp [of 8 "unat x"] by simp
  with assms show ?thesis
    by (simp add: crc_ready_def crc_table_entry_eq)
qed

lemma take_bit_and_255_xor:
  "take_bit 8 ((x AND 0xff) XOR ucast (b :: u8)) = ((x :: u64) AND 0xff) XOR ucast b"
  by (simp add: and_255 take_bit_xor take_bit_ucast_byte)

lemma crc_forward_spec:
  assumes "crc_ready opts" and "\<not> refin opts"
  shows "take_bit (unat (width opts)) (crc_forward opts crc data) =
    foldl (crc_byte (unat (width opts)) (polynom opts) (refin opts))
      (take_bit (unat (width opts)) crc) data"
proof (induction data arbitrary: crc)
  case Nil
  then show ?case by simp
next
  case (Cons b data)
  let ?w = "unat (width opts)"
  have wf: "crc_wf opts" using assms by (simp add: crc_ready_def)
  note w = crc_wf_width [OF wf]
  let ?i = "(c_shr crc (uint (width opts) - 8) AND 0xff) XOR ucast b"
  have i: "?i = drop_bit (?w - 8) (take_bit ?w crc) XOR ucast b"
    using w(1,2) unfolding w(4) and_255
    by (intro bit_word_eqI) (auto simp: bit_xor_iff bit_drop_bit_eq bit_take_bit_iff)
  have "crc_table opts ! unat ?i = crc_top opts ?i"
    using crc_lookup [OF assms(1) take_bit_and_255_xor] assms(2) by simp
  moreover have "take_bit ?w (crc_top opts ?i) = crc_top opts ?i"
    by (rule take_bit_crc_top [OF wf take_bit_and_255_xor])
  moreover have "take_bit ?w (push_bit 8 crc) = push_bit 8 (take_bit (?w - 8) (take_bit ?w crc))"
    using w(1,2) by (intro bit_word_eqI) (auto simp: bit_push_bit_iff bit_take_bit_iff)
  moreover have "crc_byte ?w (polynom opts) (refin opts) (take_bit ?w crc) b =
      crc_top opts ?i XOR push_bit 8 (take_bit (?w - 8) (take_bit ?w crc))"
    unfolding i by (rule crc_byte_table [OF wf]) (simp_all add: assms(2))
  ultimately have "take_bit ?w (push_bit 8 crc XOR crc_table opts ! unat ?i) =
      crc_byte ?w (polynom opts) (refin opts) (take_bit ?w crc) b"
    by (simp only: take_bit_xor xor.commute)
  then show ?case
    by (simp only: crc_forward.simps Cons.IH foldl_Cons)
qed

lemma crc_reflected_spec:
  assumes "crc_ready opts" and "refin opts" and "take_bit (unat (width opts)) r = r"
  shows "crc_reflected opts (mirror (unat (width opts)) r) data =
    mirror (unat (width opts))
      (foldl (crc_byte (unat (width opts)) (polynom opts) (refin opts)) r data)"
  using assms(3)
proof (induction data arbitrary: r)
  case Nil
  then show ?case by simp
next
  case (Cons b data)
  let ?w = "unat (width opts)" and ?m = "mirror (unat (width opts))"
  have wf: "crc_wf opts" using assms by (simp add: crc_ready_def)
  note w = crc_wf_width(1,2) [OF wf]
  let ?i = "(?m r AND 0xff) XOR ucast b" and ?t = "drop_bit (?w - 8) r XOR mirror 8 (ucast b)"
  have "mirror 8 ?i = ?t"
    by (simp add: mirror_xor and_255 mirror_low_byte [OF w Cons.prems])
  then have "crc_table opts ! unat ?i = ?m (crc_top opts ?t)"
    using crc_lookup [OF assms(1) take_bit_and_255_xor] assms(2) by simp
  moreover have "crc_byte ?w (polynom opts) (refin opts) r b =
      crc_top opts ?t XOR push_bit 8 (take_bit (?w - 8) r)"
    by (rule crc_byte_table [OF wf Cons.prems]) (simp add: assms(2))
  ultimately have "drop_bit 8 (?m r) XOR crc_table opts ! unat ?i =
      ?m (crc_byte ?w (polynom opts) (refin opts) r b)"
    using w by (simp add: drop_bit_mirror mirror_xor xor.commute)
  then show ?case
    by (simp only: crc_reflected.simps foldl_Cons Cons.IH [OF crc_byte_fits [OF wf Cons.prems]])
qed

lemma crc_table_step_cong:
  "crc_table_step (opts\<lparr>crc_table := t, is_table_generated := g\<rparr>) = crc_table_step opts"
  by (simp add: fun_eq_iff crc_table_step_def Let_def)

lemma crc_table_entry_cong:
  "crc_table_entry (opts\<lparr>crc_table := t, is_table_generated := g\<rparr>) = crc_table_entry opts"
  by (simp add: fun_eq_iff crc_table_entry_def crc_table_step_cong Let_def)

lemma crc_wf_ready:
  assumes "crc_wf opts"
  shows "crc_ready (if is_table_generated opts then opts else crc_generate_table opts)"
  using assms by (auto simp: crc_ready_def crc_wf_def crc_generate_table_def crc_table_entry_cong)

lemma foldl_crc_byte_fits:
  assumes "crc_wf opts" and "take_bit (unat (width opts)) r = r"
  shows "take_bit (unat (width opts))
      (foldl (crc_byte (unat (width opts)) (polynom opts) (refin opts)) r data) =
    foldl (crc_byte (unat (width opts)) (polynom opts) (refin opts)) r data"
  using assms(2) by (induction data arbitrary: r) (simp_all add: crc_byte_fits assms(1))

text \<open>The register at the end of either loop, with the output reflection applied.\<close>

lemma crc_loop_spec:
  fixes opts data
  defines "w \<equiv> unat (width opts)"
  defines "r \<equiv> foldl (crc_byte w (polynom opts) (refin opts)) (initial_optimized opts) data"
  assumes ready: "crc_ready opts"
  defines "crc \<equiv> (if refin opts then crc_reflected opts (mirror w (initial_optimized opts)) data
                  else crc_forward opts (initial_optimized opts) data)"
  shows "take_bit w (if refout opts \<noteq> refin opts then mirror w crc else crc) =
    take_bit w (if refout opts then mirror w r else r)"
proof -
  have wf: "crc_wf opts" using ready by (simp add: crc_ready_def)
  then have init: "take_bit w (initial_optimized opts) = initial_optimized opts"
    by (simp add: crc_wf_def w_def)
  have w: "1 \<le> w" "w \<le> 64" using crc_wf_width(1,2) [OF wf] by (simp_all add: w_def)
  have r: "take_bit w r = r"
    using foldl_crc_byte_fits [OF wf] init by (simp add: r_def w_def)
  show ?thesis
  proof (cases "refin opts")
    case True
    then have "crc = mirror w r"
      using crc_reflected_spec [OF ready True] init by (simp add: crc_def r_def w_def)
    with True w r show ?thesis by (simp add: mirror_mirror)
  next
    case False
    then have "take_bit w crc = r"
      using crc_forward_spec [OF ready False, of "initial_optimized opts" data] init
      by (simp add: crc_def r_def w_def)
    with False w r mirror_take_bit [of w crc] show ?thesis by auto
  qed
qed

lemma crc_calculate_ready:
  assumes "crc_ready opts" and "is_table_generated opts"
  shows "fst (crc_calculate opts data) = crc_spec opts data"
proof -
  have wf: "crc_wf opts" using assms by (simp add: crc_ready_def)
  show ?thesis
    using crc_loop_spec [OF assms(1), of data] assms(2)
    by (cases "refin opts"; cases "refout opts")
      (simp_all add: crc_calculate_def crc_spec_def Let_def crc_wf_width(5,6) [OF wf] take_bit_xor)
qed

lemma crc_spec_generate_table: "crc_spec (crc_generate_table opts) = crc_spec opts"
  by (simp add: fun_eq_iff crc_spec_def crc_generate_table_def)

lemma crc_calculate_generate:
  "\<not> is_table_generated opts \<Longrightarrow>
   crc_calculate opts data = crc_calculate (crc_generate_table opts) data"
  by (simp add: crc_calculate_def crc_generate_table_def Let_def)

lemma crc_calculate_is_crc_spec:
  assumes "crc_wf opts"
  shows "fst (crc_calculate opts data) = crc_spec opts data"
proof (cases "is_table_generated opts")
  case True
  with crc_wf_ready [OF assms] show ?thesis by (simp add: crc_calculate_ready)
next
  case False
  with crc_wf_ready [OF assms]
    crc_calculate_ready [of "crc_generate_table opts" data] show ?thesis
    by (simp add: crc_calculate_generate crc_spec_generate_table)
      (simp add: crc_generate_table_def)
qed

lemma crc_calculate_keeps_wf:
  "crc_wf opts \<Longrightarrow> crc_wf (snd (crc_calculate opts data))"
  using crc_wf_ready [of opts] by (auto simp: crc_calculate_def Let_def crc_ready_def)

section \<open>The option sets are well formed\<close>

lemma crc_masks:
  "crc_mask_of 32 = mask 32" "crc_mask_of 16 = mask 16"
  "crc_high_bit_of 32 = 2 ^ 31" "crc_high_bit_of 16 = 2 ^ 15"
  by (simp_all add: crc_mask_of_def crc_high_bit_of_def c_shl_def push_bit_eq_mult
      mask_eq_exp_minus_1)

lemmas crc_init_opt_defs =
  crc_init_opt_b_def crc_init_opt_c_def crc_init_opt_d_def crc_init_opt_e_def

lemma crc_wf_init_opts:
  "crc_wf (crc_init_opt_b tbl)" "crc_wf (crc_init_opt_c tbl)"
  "crc_wf (crc_init_opt_d tbl)" "crc_wf (crc_init_opt_e tbl)"
  by (simp_all add: crc_wf_def crc_init_opt_defs crc_masks take_bit_eq_mod)

section \<open>Error detection\<close>

lemma crc_step_eq_0:
  assumes "1 \<le> w" and "w \<le> 64" and "bit p 0" and "take_bit w r = r" and "crc_step w p r = 0"
  shows "r = 0"
proof -
  have bits: "\<not> bit (crc_step w p r) k" for k
    using assms(5) by simp
  have top: "\<not> bit r (w - 1)"
    using bits [of 0] assms(1-3) by (simp add: bit_crc_step)
  show ?thesis
  proof (rule bit_word_eqI)
    fix k assume "k < LENGTH(64)"
    have "bit r k \<Longrightarrow> k < w"
      using assms(4) unfolding take_bit_bits by blast
    with bits [of "Suc k"] top assms(1,2) show "bit r k = bit 0 k"
      by (cases "k = w - 1") (auto simp: bit_crc_step)
  qed
qed

lemma crc_steps_inject:
  assumes "1 \<le> w" and "w \<le> 64" and "bit p 0"
    and "take_bit w x = x" and "take_bit w y = y"
    and "(crc_step w p ^^ n) x = (crc_step w p ^^ n) y"
  shows "x = y"
proof -
  have zero: "r = 0" if "take_bit w r = r" "(crc_step w p ^^ n) r = 0" for r
    using that
  proof (induction n)
    case (Suc n)
    from Suc.prems have "crc_step w p ((crc_step w p ^^ n) r) = 0" by simp
    from crc_step_eq_0 [OF assms(1-3) take_bit_crc_steps [OF Suc.prems(1)] this]
    show ?case by (rule Suc.IH [OF Suc.prems(1)])
  qed simp
  have "take_bit w (x XOR y) = x XOR y"
    by (simp only: take_bit_xor assms(4,5))
  moreover have "(crc_step w p ^^ n) (x XOR y) = 0"
    by (simp only: crc_steps_xor [OF assms(2)] assms(6) xor_self_eq)
  ultimately have "x XOR y = 0" by (rule zero)
  then have "x XOR y = y XOR y" by simp
  then show ?thesis by (simp only: xor_right_cancel)
qed

text \<open>Up to \<open>w div 8\<close> bytes, lined up from the top of the register.\<close>

fun crc_window :: "nat \<Rightarrow> bool \<Rightarrow> bytes \<Rightarrow> u64" where
  "crc_window w rin [] = 0"
| "crc_window w rin (b # bs) =
     push_bit (w - 8) (if rin then mirror 8 (ucast b) else ucast b) XOR
     drop_bit 8 (crc_window w rin bs)"

lemma bit_crc_window:
  assumes "w \<le> 56" and "8 * length bs \<le> w" and "bit (crc_window w rin bs) k"
  shows "k < w" and "w - 8 * length bs \<le> k"
  using assms(2,3)
proof (induction bs arbitrary: k)
  case (Cons b bs)
  let ?v = "if rin then mirror 8 (ucast b) else (ucast b :: u64)"
  have v: "take_bit 8 ?v = ?v" by (simp add: take_bit_mirror take_bit_ucast_byte)
  {
    case 1
    with Cons.IH(1) [of "8 + k"] v assms(1) show ?case
      unfolding take_bit_bits by (auto simp: bit_xor_iff bit_push_bit_iff bit_drop_bit_eq)
  next
    case 2
    with Cons.IH(2) [of "8 + k"] v assms(1) show ?case
      unfolding take_bit_bits by (auto simp: bit_xor_iff bit_push_bit_iff bit_drop_bit_eq)
  }
qed simp_all

text \<open>Bytes fed one at a time are the window fed at once.\<close>

lemma foldl_crc_byte_window:
  assumes "8 \<le> w" and "w \<le> 56" and "8 * length bs \<le> w"
  shows "foldl (crc_byte w p rin) r bs = (crc_step w p ^^ (8 * length bs)) (r XOR crc_window w rin bs)"
  using assms(3)
proof (induction bs arbitrary: r)
  case (Cons b bs)
  let ?m = "crc_window w rin bs" and ?v = "if rin then mirror 8 (ucast b) else (ucast b :: u64)"
  have len: "8 * length bs + 8 \<le> w" using Cons.prems by simp
  note m = bit_crc_window [of w bs rin, OF assms(2)]
  have "?m = push_bit 8 (drop_bit 8 ?m)"
    using m len by (intro bit_word_eqI) (fastforce simp: bit_push_bit_iff bit_drop_bit_eq)
  also have "\<dots> = (crc_step w p ^^ 8) (drop_bit 8 ?m)"
    using m len assms(1,2)
    by (intro crc_steps_shift [symmetric]) (fastforce simp: take_bit_bits bit_drop_bit_eq)+
  finally have m8: "?m = (crc_step w p ^^ 8) (drop_bit 8 ?m)" .
  have "foldl (crc_byte w p rin) r (b # bs) =
      (crc_step w p ^^ (8 * length bs)) ((crc_step w p ^^ 8) (r XOR push_bit (w - 8) ?v) XOR ?m)"
    using Cons by (simp only: foldl_Cons crc_byte_def [of w p rin r b]) simp
  also have "(crc_step w p ^^ 8) (r XOR push_bit (w - 8) ?v) XOR ?m =
      (crc_step w p ^^ 8) (r XOR crc_window w rin (b # bs))"
    by (subst m8) (use assms(2) in \<open>simp add: crc_steps_xor [symmetric] ac_simps\<close>)
  moreover have "8 * length (b # bs) = 8 * length bs + 8" by simp
  ultimately show ?case by (simp only: funpow_add comp_apply)
qed simp

lemma byte_image_inject:
  "(if rin then mirror 8 (ucast b) else ucast b) = (if rin then mirror 8 (ucast c) else (ucast c :: u64))
   \<longleftrightarrow> b = (c :: u8)"
proof
  assume eq: "(if rin then mirror 8 (ucast b) else ucast b) =
    (if rin then mirror 8 (ucast c) else (ucast c :: u64))"
  have undo: "mirror 8 (mirror 8 (ucast x)) = ucast x" for x :: u8
    by (simp add: mirror_mirror take_bit_ucast_byte)
  have "(ucast b :: u64) = ucast c"
  proof (cases rin)
    case True
    with eq have "mirror 8 (ucast b) = mirror 8 (ucast c)" by simp
    then have "mirror 8 (mirror 8 (ucast b)) = mirror 8 (mirror 8 (ucast c))" by simp
    then show ?thesis by (simp only: undo)
  next
    case False
    with eq show ?thesis by simp
  qed
  then have "unat (ucast b :: u64) = unat (ucast c :: u64)" by simp
  then show "b = c" by (simp add: unat_ucast_up word_unat_eq_iff)
qed simp

lemma crc_window_inject:
  assumes "8 \<le> w" and "w \<le> 56" and "length bs = length cs" and "8 * length bs \<le> w"
    and "crc_window w rin bs = crc_window w rin cs"
  shows "bs = cs"
  using assms(3-5)
proof (induction bs cs rule: list_induct2)
  case (Cons b bs c cs)
  let ?v = "\<lambda>b. if rin then mirror 8 (ucast b) else (ucast b :: u64)"
  let ?m = "crc_window w rin bs" and ?n = "crc_window w rin cs"
  have len: "8 * length bs + 8 \<le> w" "8 * length cs + 8 \<le> w" using Cons by simp_all
  note m = bit_crc_window [of w bs rin, OF assms(2)] and n = bit_crc_window [of w cs rin, OF assms(2)]
  have high: "drop_bit (w - 8) (drop_bit 8 ?m) = 0" "drop_bit (w - 8) (drop_bit 8 ?n) = 0"
    using m n len by (auto intro!: bit_word_eqI simp: bit_drop_bit_eq) fastforce+
  have v8: "take_bit 8 (?v x) = ?v x" for x :: u8
    by (simp add: take_bit_mirror take_bit_ucast_byte)
  have eq: "drop_bit 8 ?m XOR push_bit (w - 8) (?v b) = drop_bit 8 ?n XOR push_bit (w - 8) (?v c)"
    using Cons.prems by (simp add: xor.commute)
  from arg_cong [OF this, of "drop_bit (w - 8)"] have "?v b = ?v c"
    unfolding drop_bit_xor_top [OF assms(1,2) v8] high by simp
  then have "b = c" by (simp only: byte_image_inject)
  with Cons.prems have "drop_bit 8 ?m = drop_bit 8 ?n"
    by (simp add: bit_eq_iff bit_xor_iff) blast
  then have "bit (drop_bit 8 ?m) k = bit (drop_bit 8 ?n) k" for k by (simp only:)
  then have "bit ?m (8 + k) = bit ?n (8 + k)" for k by (simp only: bit_drop_bit_eq comp_apply)
  moreover have "\<not> bit ?m k" "\<not> bit ?n k" if "k < 8" for k
    using m n len that by fastforce+
  ultimately have "?m = ?n"
    by (intro bit_word_eqI) (metis le_add_diff_inverse not_le)
  with Cons.IH len \<open>b = c\<close> show ?case by simp
qed simp

lemma crc_burst_register:
  assumes wf: "crc_wf opts" and p0: "bit (polynom opts) 0"
    and len: "length bs = length cs" "8 * length bs \<le> unat (width opts)" and neq: "bs \<noteq> cs"
  defines "f \<equiv> crc_byte (unat (width opts)) (polynom opts) (refin opts)"
  assumes r: "take_bit (unat (width opts)) r = r"
  shows "foldl f r (bs @ zs) \<noteq> foldl f r (cs @ zs)"
proof
  let ?w = "unat (width opts)" and ?m = "crc_window (unat (width opts)) (refin opts)"
  assume eq: "foldl f r (bs @ zs) = foldl f r (cs @ zs)"
  note w = crc_wf_width(1,2) [OF wf]
  have w1: "1 \<le> ?w" "?w \<le> 64" using w by simp_all
  have fits: "take_bit ?w (foldl f r ds) = foldl f r ds" for ds
    unfolding f_def by (rule foldl_crc_byte_fits [OF wf r])
  have tail: "x = y" if "take_bit ?w x = x" "take_bit ?w y = y" "foldl f x ds = foldl f y ds" for x y ds
    using that
  proof (induction ds arbitrary: x y)
    case (Cons d ds)
    have "f x d = f y d"
      using Cons unfolding f_def by (simp add: crc_byte_fits wf)
    from crc_steps_inject [OF w1 p0 _ _ this [unfolded f_def crc_byte_def]] Cons.prems
      take_bit_push_top [OF w] show ?case
      by (auto simp: take_bit_xor take_bit_mirror take_bit_ucast_byte bit_eq_iff bit_xor_iff)
  qed simp
  have win: "take_bit ?w (r XOR ?m ds) = r XOR ?m ds" if "8 * length ds \<le> ?w" for ds
  proof -
    have "take_bit ?w (?m ds) = ?m ds"
      using bit_crc_window(1) [OF w(2) that] unfolding take_bit_bits by blast
    with r show ?thesis by (simp only: take_bit_xor)
  qed
  from eq have "foldl f r bs = foldl f r cs"
    by (intro tail [OF fits fits]) simp
  then have "r XOR ?m bs = r XOR ?m cs"
    using len unfolding f_def
    by (intro crc_steps_inject [OF w1 p0 win win]) (simp_all add: foldl_crc_byte_window [OF w])
  then have "?m bs = ?m cs" by (simp only: xor_left_cancel)
  from crc_window_inject [OF w len this] neq show False by simp
qed

lemma crc_spec_inject:
  assumes wf: "crc_wf opts"
  defines "w \<equiv> unat (width opts)"
  defines "reg \<equiv> foldl (crc_byte w (polynom opts) (refin opts)) (initial_optimized opts)"
  assumes "crc_spec opts d1 = crc_spec opts d2"
  shows "reg d1 = reg d2"
proof -
  have w: "1 \<le> w" "w \<le> 64" using crc_wf_width(1,2) [OF wf] by (simp_all add: w_def)
  have init: "take_bit w (initial_optimized opts) = initial_optimized opts"
    using wf by (simp add: crc_wf_def w_def)
  have fits: "take_bit w (reg d) = reg d" for d
    unfolding reg_def w_def by (rule foldl_crc_byte_fits [OF wf init [unfolded w_def]])
  let ?out = "\<lambda>r. if refout opts then mirror w r else r"
  have "take_bit w (?out (reg d1)) = take_bit w (?out (reg d2))"
    using assms(4) unfolding crc_spec_def Let_def w_def [symmetric] reg_def [symmetric] take_bit_xor
    by (simp only: xor_right_cancel)
  then have "?out (reg d1) = ?out (reg d2)"
    using fits take_bit_mirror [OF w] by (simp split: if_splits)
  moreover have "mirror w (mirror w (reg d)) = reg d" for d
    by (simp only: mirror_mirror [OF w] fits)
  ultimately show ?thesis
    by (cases "refout opts") (metis, simp)
qed

lemma crc_burst_detected:
  assumes "crc_wf opts" and "bit (polynom opts) 0" and "length bs = length cs"
    and "8 * length bs \<le> unat (width opts)" and "bs \<noteq> cs"
  shows "fst (crc_calculate opts (xs @ bs @ ys)) \<noteq> fst (crc_calculate opts (xs @ cs @ ys))"
proof
  let ?f = "crc_byte (unat (width opts)) (polynom opts) (refin opts)"
  let ?r = "foldl ?f (initial_optimized opts) xs"
  assume "fst (crc_calculate opts (xs @ bs @ ys)) = fst (crc_calculate opts (xs @ cs @ ys))"
  then have "crc_spec opts (xs @ bs @ ys) = crc_spec opts (xs @ cs @ ys)"
    using assms(1) by (simp add: crc_calculate_is_crc_spec)
  from crc_spec_inject [OF assms(1) this] have "foldl ?f ?r (bs @ ys) = foldl ?f ?r (cs @ ys)"
    by simp
  moreover have "take_bit (unat (width opts)) ?r = ?r"
    using assms(1) by (intro foldl_crc_byte_fits) (simp_all add: crc_wf_def)
  ultimately show False
    using crc_burst_register [OF assms] by blast
qed

section \<open>Properties\<close>

text \<open>
  C27: The table-driven checksum (lookup table generated on first use, reflected or unreflected
  loop) equals the bit-serial shift register with the option set's parameters, for every message,
  whether or not the table had been generated before, and leaves options with which the next call
  computes the same function.
\<close>

theorem crc_calculate_correct:
  assumes "crc_wf opts"
  shows "fst (crc_calculate opts data) = crc_spec opts data \<and>
    crc_wf (snd (crc_calculate opts data)) \<and>
    fst (crc_calculate (snd (crc_calculate opts data0)) data) = crc_spec opts data"
proof -
  have "crc_spec (snd (crc_calculate opts data0)) = crc_spec opts"
    by (simp add: crc_calculate_def Let_def crc_spec_generate_table)
  then show ?thesis
    using assms by (simp add: crc_calculate_is_crc_spec crc_calculate_keeps_wf)
qed

theorem crc_calculate_correct_witness:
  "fst (crc_calculate (crc_init_opt_c []) [0x31, 0x32]) = crc_spec (crc_init_opt_c []) [0x31, 0x32] \<and>
   fst (crc_calculate (snd (crc_calculate (crc_init_opt_c []) [7])) [0x31]) =
   crc_spec (crc_init_opt_c []) [0x31]"
  using crc_calculate_correct [OF crc_wf_init_opts(2)] by blast

text \<open>
  Two messages of equal length that differ only inside a window no longer than the checksum
  (four bytes for the 32-bit sets, two for the 16-bit sets) have different checksums: every burst
  error of that length on the wire is detected.
\<close>

theorem crc_detects_bursts:
  assumes "crc_wf opts" and "bit (polynom opts) 0" and "length bs = length cs"
    and "8 * length bs \<le> unat (width opts)" and "bs \<noteq> cs"
  shows "fst (crc_calculate opts (xs @ bs @ ys)) \<noteq> fst (crc_calculate opts (xs @ cs @ ys))"
  by (rule crc_burst_detected [OF assms])

theorem crc_detects_bursts_witness:
  "fst (crc_calculate (crc_init_opt_b []) [1, 2, 3, 4, 5, 6]) \<noteq>
   fst (crc_calculate (crc_init_opt_b []) [1, 7, 3, 4, 8, 6])"
  using crc_detects_bursts [of "crc_init_opt_b []" "[2, 3, 4, 5]" "[7, 3, 4, 8]" "[1]" "[6]"]
  by (simp add: crc_wf_init_opts) (simp add: crc_init_opt_b_def bit_0)

end
