(* ===== verification/Rasta_Module.thy ===== *)
theory Rasta_Module
  imports Rasta_Hashing Rasta_CRC
begin

text \<open>
  Packets and their byte formats, \<open>util/rastamodule.c\<close>: the packet of the safety and retransmission
  layer (28 bytes of header, data, safety code) and the redundancy layer's packet around it (8 bytes
  of header, the inner packet, CRC).

  The global \<open>rastamodule_lasterror\<close> is threaded through; reads and writes outside a buffer give
  \<open>None\<close>. The functions that fill a packet through a pointer take its previous contents, which an
  early return leaves in place.
\<close>

datatype rasta_error_type =
  RASTA_ERRORS_NONE | RASTA_ERRORS_WRONG_PACKAGE_FORMAT | RASTA_ERRORS_PACKAGE_LENGTH_INVALID

text \<open>Message types are kept as the 16-bit values on the wire: a received type can be any of them.\<close>

type_synonym rasta_conn_type = u16

definition RASTA_TYPE_CONNREQ :: rasta_conn_type where "RASTA_TYPE_CONNREQ = 6200"
definition RASTA_TYPE_CONNRESP :: rasta_conn_type where "RASTA_TYPE_CONNRESP = 6201"
definition RASTA_TYPE_RETRREQ :: rasta_conn_type where "RASTA_TYPE_RETRREQ = 6212"
definition RASTA_TYPE_RETRRESP :: rasta_conn_type where "RASTA_TYPE_RETRRESP = 6213"
definition RASTA_TYPE_DISCREQ :: rasta_conn_type where "RASTA_TYPE_DISCREQ = 6216"
definition RASTA_TYPE_HB :: rasta_conn_type where "RASTA_TYPE_HB = 6220"
definition RASTA_TYPE_DATA :: rasta_conn_type where "RASTA_TYPE_DATA = 6240"
definition RASTA_TYPE_RETRDATA :: rasta_conn_type where "RASTA_TYPE_RETRDATA = 6241"

lemmas rasta_type_defs =
  RASTA_TYPE_CONNREQ_def RASTA_TYPE_CONNRESP_def RASTA_TYPE_RETRREQ_def RASTA_TYPE_RETRRESP_def
  RASTA_TYPE_DISCREQ_def RASTA_TYPE_HB_def RASTA_TYPE_DATA_def RASTA_TYPE_RETRDATA_def

record RastaPacket =
  pkt_length :: u16
  pkt_type :: rasta_conn_type
  receiver_id :: u32
  sender_id :: u32
  sequence_number :: u32
  confirmed_sequence_number :: u32
  timestamp :: u32
  confirmed_timestamp :: u32
  pkt_data :: bytes
  checksum :: bytes
  checksum_correct :: bool

record RastaRedundancyPacket =
  red_length :: u16
  red_reserve :: u16
  red_sequence_number :: u32
  red_data :: RastaPacket
  red_checksum_correct :: bool
  checksum_type :: crc_options

text \<open>Reads the last error and clears it.\<close>

definition getRastamoduleLastError :: "rasta_error_type \<Rightarrow> rasta_error_type \<times> rasta_error_type" where
  "getRastamoduleLastError err = (err, RASTA_ERRORS_NONE)"

text \<open>\<open>unsigned int\<close> subtraction.\<close>

definition usub :: "nat \<Rightarrow> nat \<Rightarrow> nat" where
  "usub a b = unat ((of_nat a :: u32) - of_nat b)"

section \<open>The safety and retransmission layer's packet\<close>

definition getDataLength :: "u16 \<Rightarrow> rasta_hashing_ctx \<Rightarrow> nat" where
  "getDataLength len hashing_context =
     (let n = uint len - 28 - int (checksum_len hashing_context) in if n > 0 then nat n else 0)"

definition allocateBytes ::
  "rasta_error_type \<Rightarrow> RastaPacket \<Rightarrow> rasta_hashing_ctx \<Rightarrow> bytes \<times> rasta_error_type" where
  "allocateBytes err packet hashing_context =
     (allocateRastaByteArray (unat (pkt_length packet)),
      if unat (pkt_length packet) < 28 + checksum_len hashing_context
      then RASTA_ERRORS_PACKAGE_LENGTH_INVALID else err)"

definition packFields :: "bytes \<Rightarrow> RastaPacket \<Rightarrow> bytes option" where
  "packFields result packet = do {
     result \<leftarrow> rmemcpy result 0 (hostShortTole (pkt_length packet)) 0 2;
     result \<leftarrow> rmemcpy result 2 (hostShortTole (pkt_type packet)) 0 2;
     result \<leftarrow> rmemcpy result 4 (hostLongToLe (receiver_id packet)) 0 4;
     result \<leftarrow> rmemcpy result 8 (hostLongToLe (sender_id packet)) 0 4;
     result \<leftarrow> rmemcpy result 12 (hostLongToLe (sequence_number packet)) 0 4;
     result \<leftarrow> rmemcpy result 16 (hostLongToLe (confirmed_sequence_number packet)) 0 4;
     result \<leftarrow> rmemcpy result 20 (hostLongToLe (timestamp packet)) 0 4;
     result \<leftarrow> rmemcpy result 24 (hostLongToLe (confirmed_timestamp packet)) 0 4;
     Some result
   }"

definition rastaModuleToBytes ::
  "rasta_error_type \<Rightarrow> RastaPacket \<Rightarrow> rasta_hashing_ctx \<Rightarrow> (bytes \<times> rasta_error_type) option" where
  "rastaModuleToBytes err packet hashing_context =
     (let (result, err) = allocateBytes err packet hashing_context
      in if err \<noteq> RASTA_ERRORS_NONE then Some (result, err)
         else do {
           result \<leftarrow> packFields result packet;
           let len = getDataLength (pkt_length packet) hashing_context;
           result \<leftarrow> rmemcpy result 28 (pkt_data packet) 0 len;
           let cs_len = checksum_len hashing_context;
           let n = usub (unat (pkt_length packet)) cs_len;
           data_to_hash \<leftarrow> rmemcpy (allocateRastaByteArray n) 0 result 0 n;
           cs \<leftarrow> rasta_calculate_hash data_to_hash hashing_context;
           result \<leftarrow> rmemcpy result (28 + len) cs 0 cs_len;
           Some (result, err)
         })"

definition rastaModuleToBytesNoChecksum ::
  "rasta_error_type \<Rightarrow> RastaPacket \<Rightarrow> rasta_hashing_ctx \<Rightarrow> (bytes \<times> rasta_error_type) option" where
  "rastaModuleToBytesNoChecksum err packet hashing_context =
     (let (result, err) = allocateBytes err packet hashing_context
      in if err \<noteq> RASTA_ERRORS_NONE then Some (result, err)
         else do {
           result \<leftarrow> packFields result packet;
           let len = getDataLength (pkt_length packet) hashing_context;
           result \<leftarrow> rmemcpy result 28 (pkt_data packet) 0 len;
           let cs_len = checksum_len hashing_context;
           result \<leftarrow> rmemcpy result (28 + len) (checksum packet) 0 cs_len;
           Some (result, err)
         })"

definition bytesToRastaPacket ::
  "rasta_error_type \<Rightarrow> bytes \<Rightarrow> rasta_hashing_ctx \<Rightarrow> RastaPacket \<Rightarrow> (RastaPacket \<times> rasta_error_type) option"
where
  "bytesToRastaPacket err data hashing_context result =
     (if length data < 28 + checksum_len hashing_context
      then Some (result\<lparr>pkt_length := 0, checksum_correct := False\<rparr>,
                 RASTA_ERRORS_PACKAGE_LENGTH_INVALID)
      else do {
        len0 \<leftarrow> leShortToHost data 0;
        typ \<leftarrow> leShortToHost data 2;
        receiver \<leftarrow> leLongToHost data 4;
        sender \<leftarrow> leLongToHost data 8;
        sn \<leftarrow> leLongToHost data 12;
        csn \<leftarrow> leLongToHost data 16;
        ts \<leftarrow> leLongToHost data 20;
        cts \<leftarrow> leLongToHost data 24;
        let len = getDataLength len0 hashing_context;
        payload \<leftarrow> rmemcpy (allocateRastaByteArray len) 0 data 28 len;
        let cs_len = checksum_len hashing_context;
        let n = usub (unat len0) cs_len;
        data_to_hash \<leftarrow> rmemcpy (allocateRastaByteArray n) 0 data 0 n;
        cs \<leftarrow> rasta_calculate_hash data_to_hash hashing_context;
        stored \<leftarrow> rmemcpy (allocateRastaByteArray cs_len) 0 data (28 + len) cs_len;
        diff \<leftarrow> rmemcmp cs 0 data (28 + len) cs_len;
        Some (\<lparr>pkt_length = len0, pkt_type = typ, receiver_id = receiver, sender_id = sender,
               sequence_number = sn, confirmed_sequence_number = csn, timestamp = ts,
               confirmed_timestamp = cts, pkt_data = payload, checksum = stored,
               checksum_correct = (diff = 0)\<rparr>, err)
      })"

section \<open>The redundancy layer's packet\<close>

text \<open>\<open>checksum_type.width / 8\<close>.\<close>

definition crc_len :: "crc_options \<Rightarrow> nat" where
  "crc_len opts = unat (width opts) div 8"

text \<open>The call generates the lookup table in the packet's own copy of the options.\<close>

definition rastaRedundancyPacketToBytes ::
  "rasta_error_type \<Rightarrow> RastaRedundancyPacket \<Rightarrow> rasta_hashing_ctx \<Rightarrow>
   (bytes \<times> RastaRedundancyPacket \<times> rasta_error_type) option" where
  "rastaRedundancyPacketToBytes err packet hashing_context = do {
     let result = allocateRastaByteArray (unat (red_length packet));
     result \<leftarrow> rmemcpy result 0 (hostShortTole (red_length packet)) 0 2;
     result \<leftarrow> rmemcpy result 2 (hostShortTole (red_reserve packet)) 0 2;
     result \<leftarrow> rmemcpy result 4 (hostLongToLe (red_sequence_number packet)) 0 4;
     let internal_packet_len = unat (pkt_length (red_data packet));
     (internal_packet_bytes, err) \<leftarrow> rastaModuleToBytes err (red_data packet) hashing_context;
     result \<leftarrow> rmemcpy result 8 internal_packet_bytes 0 internal_packet_len;
     let w = crc_len (checksum_type packet);
     let len_wo_checksum = usub (unat (red_length packet)) w;
     temp_wo_checksum \<leftarrow> rmemcpy (allocateRastaByteArray len_wo_checksum) 0 result 0 len_wo_checksum;
     let (crc, opts) = crc_calculate (checksum_type packet) temp_wo_checksum;
     result \<leftarrow> rmemcpy result (8 + internal_packet_len) (hostLongToLe (ucast crc)) 0 w;
     Some (result, packet\<lparr>checksum_type := opts\<rparr>, err)
   }"

text \<open>The table generated in the local copy of the options is dropped on return.\<close>

definition bytesToRastaRedundancyPacket ::
  "rasta_error_type \<Rightarrow> bytes \<Rightarrow> crc_options \<Rightarrow> rasta_hashing_ctx \<Rightarrow> RastaRedundancyPacket \<Rightarrow>
   (RastaRedundancyPacket \<times> rasta_error_type) option" where
  "bytesToRastaRedundancyPacket err data opts hashing_context packet = do {
     len0 \<leftarrow> leShortToHost data 0;
     reserve \<leftarrow> leShortToHost data 2;
     sn \<leftarrow> leLongToHost data 4;
     let w = crc_len opts;
     let data_len = usub (usub (length data) 8) w;
     internal_packet_bytes \<leftarrow> rmemcpy (allocateRastaByteArray data_len) 0 data 8 data_len;
     (inner, err) \<leftarrow> bytesToRastaPacket err internal_packet_bytes hashing_context (red_data packet);
     let data_wo_checksum_len = usub (length data) w;
     data_wo_checksum \<leftarrow>
       rmemcpy (allocateRastaByteArray data_wo_checksum_len) 0 data 0 data_wo_checksum_len;
     let calculated_checksum = fst (crc_calculate opts data_wo_checksum);
     let packet = \<lparr>red_length = len0, red_reserve = reserve, red_sequence_number = sn,
                   red_data = inner, red_checksum_correct = True, checksum_type = opts\<rparr>;
     (if length data = data_wo_checksum_len then Some (packet, err)
      else do {
        diff \<leftarrow> rmemcmp (hostLongToLe (ucast calculated_checksum)) 0 data (8 + data_len) w;
        Some (packet\<lparr>red_checksum_correct := (diff = 0)\<rparr>, err)
      })
   }"

section \<open>The wire formats as concatenations\<close>

text \<open>The 28 header bytes and the whole packet as a concatenation of its fields.\<close>

definition sr_header :: "RastaPacket \<Rightarrow> bytes" where
  "sr_header p = hostShortTole (pkt_length p) @ hostShortTole (pkt_type p) @
     hostLongToLe (receiver_id p) @ hostLongToLe (sender_id p) @ hostLongToLe (sequence_number p) @
     hostLongToLe (confirmed_sequence_number p) @ hostLongToLe (timestamp p) @
     hostLongToLe (confirmed_timestamp p)"

definition red_header :: "RastaRedundancyPacket \<Rightarrow> bytes" where
  "red_header p = hostShortTole (red_length p) @ hostShortTole (red_reserve p) @
     hostLongToLe (red_sequence_number p)"

lemma length_sr_header [simp]: "length (sr_header p) = 28"
  by (simp add: sr_header_def)

lemma length_red_header [simp]: "length (red_header p) = 8"
  by (simp add: red_header_def)

text \<open>A packet whose length field matches its contents.\<close>

definition packet_wf :: "rasta_hashing_ctx \<Rightarrow> RastaPacket \<Rightarrow> bool" where
  "packet_wf ctx p \<longleftrightarrow> unat (pkt_length p) = 28 + length (pkt_data p) + checksum_len ctx"

definition red_packet_wf :: "rasta_hashing_ctx \<Rightarrow> RastaRedundancyPacket \<Rightarrow> bool" where
  "red_packet_wf ctx p \<longleftrightarrow>
     packet_wf ctx (red_data p) \<and> crc_len (checksum_type p) \<le> 4 \<and>
     unat (red_length p) = 8 + unat (pkt_length (red_data p)) + crc_len (checksum_type p)"

lemma rmemcpy_append:
  assumes "length xs = i" and "length src = n" and "n \<le> length ys"
  shows "rmemcpy (xs @ ys) i src 0 n = Some (xs @ src @ drop n ys)"
  using assms by (simp add: rmemcpy_def)

lemma rmemcpy_alloc:
  "i + n \<le> length src \<Longrightarrow> rmemcpy (allocateRastaByteArray n) 0 src i n = Some (take n (drop i src))"
  by (simp add: rmemcpy_def)

lemma usub_le: "b \<le> a \<Longrightarrow> a < 2 ^ 32 \<Longrightarrow> usub a b = a - b"
  by (simp add: usub_def unat_sub_le word_le_nat_alt unat_of_nat_bounded)

lemma usub_wrap: "a < b \<Longrightarrow> b < 2 ^ 32 \<Longrightarrow> usub a b = a + 2 ^ 32 - b"
  by (simp add: usub_def unat_sub_if_size unat_of_nat_bounded word_size)

lemma checksum_len_le: "checksum_len ctx \<le> 16"
  using checksum_type_value_le [of "hash_length ctx"] by (simp add: checksum_len_def)

lemma unat_u16_bound: "unat (x :: u16) < 2 ^ 32"
  using unat_lt [of x] by simp

lemma packFields_eq:
  assumes "28 \<le> length result"
  shows "packFields result p = Some (sr_header p @ drop 28 result)"
proof -
  have "packFields ([] @ result) p = Some (sr_header p @ drop 28 result)"
    unfolding packFields_def sr_header_def
    using assms by (simp add: rmemcpy_def) arith
  then show ?thesis by simp
qed

lemma getDataLength_nat: "getDataLength len ctx = unat len - 28 - checksum_len ctx"
proof -
  have "(if (0 :: int) < int a - 28 - int k then nat (int a - 28 - int k) else 0) = a - 28 - k" for a k
    by auto
  moreover have "uint len = int (unat len)" by simp
  ultimately show ?thesis unfolding getDataLength_def Let_def by (simp only:)
qed

lemma getDataLength_wf: "packet_wf ctx p \<Longrightarrow> getDataLength (pkt_length p) ctx = length (pkt_data p)"
  by (simp add: packet_wf_def getDataLength_nat)

text \<open>What \<open>rastaModuleToBytes\<close> produces from a well-formed packet.\<close>

definition sr_frame :: "rasta_hashing_ctx \<Rightarrow> RastaPacket \<Rightarrow> bytes" where
  "sr_frame ctx p =
     (let body = sr_header p @ pkt_data p
      in body @ take (checksum_len ctx) (the (rasta_calculate_hash body ctx)))"

lemma length_sr_frame:
  "hashing_ok ctx \<Longrightarrow> length (sr_frame ctx p) = 28 + length (pkt_data p) + checksum_len ctx"
  using sr_code.code_defined [of ctx "sr_header p @ pkt_data p"] by (auto simp: sr_frame_def Let_def)

lemma rastaModuleToBytes_eq:
  assumes "hashing_ok ctx" and "packet_wf ctx p"
  shows "rastaModuleToBytes RASTA_ERRORS_NONE p ctx = Some (sr_frame ctx p, RASTA_ERRORS_NONE)"
proof -
  let ?n = "length (pkt_data p)" and ?k = "checksum_len ctx" and ?body = "sr_header p @ pkt_data p"
  have len: "unat (pkt_length p) = 28 + ?n + ?k" using assms(2) by (simp add: packet_wf_def)
  obtain h where h: "rasta_calculate_hash ?body ctx = Some h" and hl: "?k \<le> length h"
    by (rule sr_code.code_cases [OF assms(1)])
  have sub: "usub (28 + ?n + ?k) ?k = 28 + ?n"
    using unat_u16_bound [of "pkt_length p"] by (simp add: usub_le len)
  have copy: "rmemcpy (sr_header p @ drop 28 (allocateRastaByteArray (28 + ?n + ?k))) 28 (pkt_data p) 0 ?n =
      Some (?body @ replicate ?k 0)"
    by (simp add: rmemcpy_def allocateRastaByteArray_def)
  have hash_in: "rmemcpy (allocateRastaByteArray (28 + ?n)) 0 (?body @ replicate ?k 0) 0 (28 + ?n) = Some ?body"
    by (simp add: rmemcpy_def)
  have store: "rmemcpy (?body @ replicate ?k 0) (28 + ?n) h 0 ?k = Some (?body @ take ?k h)"
    using hl by (simp add: rmemcpy_def)
  show ?thesis
    unfolding rastaModuleToBytes_def allocateBytes_def len
    by (simp add: packFields_eq getDataLength_wf [OF assms(2)] copy sub hash_in h store
        sr_frame_def Let_def del: append_assoc)
qed

text \<open>Reading the header fields back.\<close>

lemma sr_header_reads:
  "leShortToHost (sr_header p @ r) 0 = Some (pkt_length p)"
  "leShortToHost (sr_header p @ r) 2 = Some (pkt_type p)"
  "leLongToHost (sr_header p @ r) 4 = Some (receiver_id p)"
  "leLongToHost (sr_header p @ r) 8 = Some (sender_id p)"
  "leLongToHost (sr_header p @ r) 12 = Some (sequence_number p)"
  "leLongToHost (sr_header p @ r) 16 = Some (confirmed_sequence_number p)"
  "leLongToHost (sr_header p @ r) 20 = Some (timestamp p)"
  "leLongToHost (sr_header p @ r) 24 = Some (confirmed_timestamp p)"
  by (simp_all add: leShortToHost_def leLongToHost_def sr_header_def)

text \<open>
  What \<open>bytesToRastaPacket\<close> makes of header fields, data and a stored code of the right length.
\<close>

lemma bytesToRastaPacket_eq:
  assumes "hashing_ok ctx" and "packet_wf ctx p" and "length stored = checksum_len ctx"
    and "rasta_calculate_hash (sr_header p @ pkt_data p) ctx = Some h"
  shows "bytesToRastaPacket err (sr_header p @ pkt_data p @ stored) ctx old =
    Some (p\<lparr>checksum := stored, checksum_correct := (stored = take (checksum_len ctx) h)\<rparr>, err)"
proof -
  let ?n = "length (pkt_data p)" and ?k = "checksum_len ctx" and ?body = "sr_header p @ pkt_data p"
  let ?data = "sr_header p @ pkt_data p @ stored"
  have len: "unat (pkt_length p) = 28 + ?n + ?k" using assms(2) by (simp add: packet_wf_def)
  have sub: "usub (28 + ?n + ?k) ?k = 28 + ?n"
    using unat_u16_bound [of "pkt_length p"] by (simp add: usub_le len)
  have hl: "?k \<le> length h"
    using sr_code.code_defined [OF assms(1), of ?body] assms(4) by simp
  have pay: "rmemcpy (allocateRastaByteArray ?n) 0 ?data 28 ?n = Some (pkt_data p)"
    and hash_in: "rmemcpy (allocateRastaByteArray (28 + ?n)) 0 ?data 0 (28 + ?n) = Some ?body"
    and st: "rmemcpy (allocateRastaByteArray ?k) 0 ?data (28 + ?n) ?k = Some stored"
    using assms(3) by (simp_all add: rmemcpy_alloc)
  have cmp: "rmemcmp h 0 ?data (28 + ?n) ?k = rmemcmp h 0 stored 0 ?k"
    using assms(3) by (simp add: rmemcmp_def)
  obtain d where d: "rmemcmp h 0 stored 0 ?k = Some d"
    using hl assms(3) by (auto simp: rmemcmp_def)
  have acc: "d = 0 \<longleftrightarrow> stored = take ?k h"
    using sr_code.check_accepts_iff [OF assms(1,4,3)] d by simp
  have "\<not> length ?data < 28 + ?k" using assms(3) by simp
  then show ?thesis
    unfolding bytesToRastaPacket_def
    by (simp add: sr_header_reads getDataLength_wf [OF assms(2)] len sub pay hash_in st cmp d acc
        assms(4) del: length_append)
qed

text \<open>The code of a packet as its frame carries it.\<close>

definition sr_code_of :: "rasta_hashing_ctx \<Rightarrow> RastaPacket \<Rightarrow> bytes" where
  "sr_code_of ctx p = take (checksum_len ctx) (the (rasta_calculate_hash (sr_header p @ pkt_data p) ctx))"

lemma bytesToRastaPacket_frame:
  assumes "hashing_ok ctx" and "packet_wf ctx p"
  shows "bytesToRastaPacket err (sr_frame ctx p) ctx old =
    Some (p\<lparr>checksum := sr_code_of ctx p, checksum_correct := True\<rparr>, err)"
proof -
  obtain h where h: "rasta_calculate_hash (sr_header p @ pkt_data p) ctx = Some h" "checksum_len ctx \<le> length h"
    by (rule sr_code.code_cases [OF assms(1)])
  then have "sr_frame ctx p = sr_header p @ pkt_data p @ take (checksum_len ctx) h"
    by (simp add: sr_frame_def)
  then show ?thesis
    using h bytesToRastaPacket_eq [OF assms _ h(1)] by (simp add: sr_code_of_def)
qed

section \<open>The redundancy packet's frame\<close>

definition red_body :: "rasta_hashing_ctx \<Rightarrow> RastaRedundancyPacket \<Rightarrow> bytes" where
  "red_body ctx p = red_header p @ sr_frame ctx (red_data p)"

text \<open>The CRC bytes that follow a body.\<close>

definition crc_bytes :: "crc_options \<Rightarrow> bytes \<Rightarrow> bytes" where
  "crc_bytes opts body = take (crc_len opts) (hostLongToLe (ucast (fst (crc_calculate opts body))))"

definition red_frame :: "rasta_hashing_ctx \<Rightarrow> RastaRedundancyPacket \<Rightarrow> bytes" where
  "red_frame ctx p = red_body ctx p @ crc_bytes (checksum_type p) (red_body ctx p)"

lemma length_crc_bytes [simp]: "crc_len opts \<le> 4 \<Longrightarrow> length (crc_bytes opts b) = crc_len opts"
  by (simp add: crc_bytes_def)

lemma length_red_body:
  "hashing_ok ctx \<Longrightarrow> red_packet_wf ctx p \<Longrightarrow>
   length (red_body ctx p) = 8 + unat (pkt_length (red_data p))"
  by (simp add: red_body_def length_sr_frame red_packet_wf_def packet_wf_def)

lemma rastaRedundancyPacketToBytes_eq:
  assumes "hashing_ok ctx" and "red_packet_wf ctx p"
  shows "rastaRedundancyPacketToBytes RASTA_ERRORS_NONE p ctx =
    Some (red_frame ctx p,
      p\<lparr>checksum_type := snd (crc_calculate (checksum_type p) (red_body ctx p))\<rparr>, RASTA_ERRORS_NONE)"
proof -
  let ?m = "unat (pkt_length (red_data p))" and ?w = "crc_len (checksum_type p)"
  have wf: "packet_wf ctx (red_data p)" and w4: "?w \<le> 4" and len: "unat (red_length p) = 8 + ?m + ?w"
    using assms(2) by (simp_all add: red_packet_wf_def)
  have fl: "length (sr_frame ctx (red_data p)) = ?m"
    using wf by (simp add: length_sr_frame [OF assms(1)] packet_wf_def)
  have hdr: "rmemcpy (allocateRastaByteArray (8 + ?m + ?w)) 0 (hostShortTole (red_length p)) 0 2 \<bind>
      (\<lambda>r. rmemcpy r 2 (hostShortTole (red_reserve p)) 0 2 \<bind>
      (\<lambda>r. rmemcpy r 4 (hostLongToLe (red_sequence_number p)) 0 4)) =
      Some (red_header p @ replicate (?m + ?w) 0)"
    by (simp add: rmemcpy_def red_header_def allocateRastaByteArray_def replicate_add)
  have copy: "rmemcpy (red_header p @ replicate (?m + ?w) 0) 8 (sr_frame ctx (red_data p)) 0 ?m =
      Some (red_body ctx p @ replicate ?w 0)"
    using fl by (simp add: rmemcpy_def red_body_def)
  have sub: "usub (8 + ?m + ?w) ?w = 8 + ?m"
    using unat_u16_bound [of "red_length p"] by (simp add: usub_le len)
  have temp: "rmemcpy (allocateRastaByteArray (8 + ?m)) 0 (red_body ctx p @ replicate ?w 0) 0 (8 + ?m) =
      Some (red_body ctx p)"
    using length_red_body [OF assms] by (simp add: rmemcpy_alloc)
  have store: "rmemcpy (red_body ctx p @ replicate ?w 0) (8 + ?m) (hostLongToLe v) 0 ?w =
      Some (red_body ctx p @ take ?w (hostLongToLe v))" for v
    using length_red_body [OF assms] w4 by (simp add: rmemcpy_def)
  show ?thesis
    unfolding rastaRedundancyPacketToBytes_def len Let_def
    using hdr by (simp add: bind_assoc [symmetric] del: bind_assoc)
      (simp add: rastaModuleToBytes_eq [OF assms(1) wf] copy sub temp store red_frame_def
        crc_bytes_def case_prod_beta)
qed

lemma red_header_reads:
  "leShortToHost (red_header p @ r) 0 = Some (red_length p)"
  "leShortToHost (red_header p @ r) 2 = Some (red_reserve p)"
  "leLongToHost (red_header p @ r) 4 = Some (red_sequence_number p)"
  by (simp_all add: leShortToHost_def leLongToHost_def red_header_def)

text \<open>
  Parsing any header, inner bytes and stored CRC: the inner bytes go to \<open>bytesToRastaPacket\<close>, and
  the CRC flag says whether the stored bytes are the CRC of everything before them.
\<close>

lemma bytesToRastaRedundancyPacket_eq:
  assumes "length stored = crc_len opts" and "crc_len opts \<le> 4"
    and "8 + length inner + crc_len opts < 2 ^ 32"
    and "bytesToRastaPacket err inner ctx (red_data old) = Some (ip, err')"
  shows "bytesToRastaRedundancyPacket err (red_header p @ inner @ stored) opts ctx old =
    Some (\<lparr>red_length = red_length p, red_reserve = red_reserve p,
      red_sequence_number = red_sequence_number p, red_data = ip,
      red_checksum_correct = (stored = crc_bytes opts (red_header p @ inner)), checksum_type = opts\<rparr>, err')"
proof -
  let ?data = "red_header p @ inner @ stored" and ?w = "crc_len opts" and ?m = "length inner"
  have len: "length ?data = 8 + ?m + ?w" using assms(1) by simp
  have sub8: "usub (8 + ?m + ?w) 8 = ?m + ?w" and subw: "usub (?m + ?w) ?w = ?m"
    and subt: "usub (8 + ?m + ?w) ?w = 8 + ?m"
    using assms(3) by (simp_all add: usub_le)
  have c1: "rmemcpy (allocateRastaByteArray ?m) 0 ?data 8 ?m = Some inner"
    and c2: "rmemcpy (allocateRastaByteArray (8 + ?m)) 0 ?data 0 (8 + ?m) = Some (red_header p @ inner)"
    using assms(1) by (simp_all add: rmemcpy_alloc)
  let ?h = "hostLongToLe (ucast (fst (crc_calculate opts (red_header p @ inner))))"
  have cmp: "rmemcmp ?h 0 ?data (8 + ?m) ?w = Some (memcmp (take ?w ?h) stored)"
    using assms(1,2) by (simp add: rmemcmp_def)
  have acc: "memcmp (take ?w ?h) stored = 0 \<longleftrightarrow> stored = crc_bytes opts (red_header p @ inner)"
    using assms(1,2) by (auto simp: memcmp_eq_0_iff crc_bytes_def)
  have "?w = 0 \<Longrightarrow> stored = crc_bytes opts (red_header p @ inner)"
    using assms(1) by (simp add: crc_bytes_def)
  then show ?thesis
    unfolding bytesToRastaRedundancyPacket_def len
    by (simp add: red_header_reads sub8 subw subt c1 c2 assms(4) cmp acc Let_def del: length_append)
qed

section \<open>Every long enough byte string is a frame\<close>

lemma split_at: "i \<le> length xs \<Longrightarrow> \<exists>a b. xs = a @ b \<and> length a = i"
  by (metis append_take_drop_id length_take min.absorb2)

lemma sr_header_surj:
  assumes "length b = 28"
  obtains p where "sr_header p = b" and "pkt_data p = d"
proof -
  have split: "b = take 2 b @ take 2 (drop 2 b) @ take 4 (drop 4 b) @ take 4 (drop 8 b) @
      take 4 (drop 12 b) @ take 4 (drop 16 b) @ take 4 (drop 20 b) @ drop 24 b"
    by (simp flip: append_assoc take_add add: numeral_eq_Suc)
  let ?p = "\<lparr>pkt_length = le_short (take 2 b), pkt_type = le_short (take 2 (drop 2 b)),
    receiver_id = le_long (take 4 (drop 4 b)), sender_id = le_long (take 4 (drop 8 b)),
    sequence_number = le_long (take 4 (drop 12 b)),
    confirmed_sequence_number = le_long (take 4 (drop 16 b)),
    timestamp = le_long (take 4 (drop 20 b)), confirmed_timestamp = le_long (drop 24 b),
    pkt_data = d, checksum = [], checksum_correct = True\<rparr>"
  have "sr_header ?p = b"
    using assms by (subst (9) split) (simp add: sr_header_def hostShortTole_le_short hostLongToLe_le_long)
  then show thesis by (rule that) simp
qed

lemma red_header_surj:
  assumes "length b = 8"
  obtains p where "red_header p = b"
proof -
  have split: "b = take 2 b @ take 2 (drop 2 b) @ drop 4 b"
    by (simp flip: append_assoc take_add add: numeral_eq_Suc)
  let ?p = "\<lparr>red_length = le_short (take 2 b), red_reserve = le_short (take 2 (drop 2 b)),
    red_sequence_number = le_long (drop 4 b), red_data = undefined, red_checksum_correct = True,
    checksum_type = undefined\<rparr>"
  have "red_header ?p = b"
    using assms by (subst (4) split) (simp add: red_header_def hostShortTole_le_short hostLongToLe_le_long)
  then show thesis by (rule that)
qed

lemma bytesToRastaRedundancyPacket_inner_None:
  assumes "length stored = crc_len opts" and "8 + length inner + crc_len opts < 2 ^ 32"
    and "bytesToRastaPacket err inner ctx (red_data old) = None"
  shows "bytesToRastaRedundancyPacket err (red_header p @ inner @ stored) opts ctx old = None"
proof -
  let ?data = "red_header p @ inner @ stored"
  have len: "length ?data = 8 + length inner + crc_len opts" using assms(1) by simp
  have sub: "usub (usub (8 + length inner + crc_len opts) 8) (crc_len opts) = length inner"
    using assms(2) by (simp add: usub_le)
  have c1: "rmemcpy (allocateRastaByteArray (length inner)) 0 ?data 8 (length inner) = Some inner"
    using assms(1) by (simp add: rmemcpy_alloc)
  show ?thesis
    unfolding bytesToRastaRedundancyPacket_def len
    by (simp add: red_header_reads sub c1 assms(3) Let_def del: length_append)
qed

text \<open>The CRC flag of any received byte string that is long enough.\<close>

lemma red_checksum_flag:
  assumes "bytesToRastaRedundancyPacket err (body @ stored) opts ctx old = Some (q, err')"
    and "length stored = crc_len opts" and "crc_len opts \<le> 4" and "8 \<le> length body"
    and "length body + crc_len opts < 2 ^ 32"
  shows "red_checksum_correct q \<longleftrightarrow> stored = crc_bytes opts body"
proof -
  obtain hd inner where body: "body = hd @ inner" and "length hd = 8"
    using split_at [OF assms(4)] by blast
  then obtain p where hd: "red_header p = hd"
    by (rule_tac red_header_surj [of hd])
  have len: "8 + length inner + crc_len opts < 2 ^ 32"
    using assms(5) \<open>length hd = 8\<close> by (simp add: body)
  show ?thesis
  proof (cases "bytesToRastaPacket err inner ctx (red_data old)")
    case None
    with bytesToRastaRedundancyPacket_inner_None [OF assms(2) len this, of p] assms(1) show ?thesis
      by (simp add: body hd)
  next
    case (Some r)
    with bytesToRastaRedundancyPacket_eq [OF assms(2,3) len, of err ctx old "fst r" "snd r" p] assms(1)
    show ?thesis by (auto simp: body hd)
  qed
qed

lemma hostLongToLe_inject: "hostLongToLe x = hostLongToLe y \<longleftrightarrow> x = y"
  by (metis le_long_hostLongToLe)

lemma bit_hostLongToLe:
  assumes "q < 4" and "r < 8"
  shows "bit (hostLongToLe (ucast (z :: u64)) ! q) r = bit z (8 * q + r)"
proof -
  have "q = 0 \<or> q = 1 \<or> q = 2 \<or> q = 3" using assms(1) by auto
  then show ?thesis
    using assms(2) by (auto simp: hostLongToLe_def bit_ucast_iff bit_drop_bit_eq)
qed

lemma crc_bytes_inject:
  assumes "crc_wf opts" and "width opts = 16 \<or> width opts = 32"
    and "crc_bytes opts x = crc_bytes opts y"
  shows "fst (crc_calculate opts x) = fst (crc_calculate opts y)"
proof -
  let ?w = "unat (width opts)"
  have fit: "take_bit ?w (fst (crc_calculate opts z)) = fst (crc_calculate opts z)" for z
    using assms(1) by (simp add: crc_calculate_is_crc_spec crc_spec_def Let_def)
  have "bit (fst (crc_calculate opts x)) k = bit (fst (crc_calculate opts y)) k" if "k < ?w" for k
  proof -
    have byte: "bit (hostLongToLe (ucast z) ! (k div 8)) (k mod 8) = bit (z :: u64) k" if "k < 32" for z
      using bit_hostLongToLe [of "k div 8" "k mod 8" z] that by simp
    have "k div 8 < crc_len opts" "k < 32"
      using that assms(2) by (auto simp: crc_len_def)
    then have "hostLongToLe (ucast (fst (crc_calculate opts x))) ! (k div 8) =
        hostLongToLe (ucast (fst (crc_calculate opts y))) ! (k div 8)"
      using assms(3) by (metis crc_bytes_def nth_take)
    then show ?thesis using byte [OF \<open>k < 32\<close>] by metis
  qed
  then show ?thesis
    using fit by (intro bit_word_eqI) (metis bit_take_bit_iff)
qed

section \<open>Properties\<close>

text \<open>
  Serialising a packet whose length field matches its contents and parsing the bytes with the
  same hashing context gives the packet back, with the safety code recomputed and accepted, for
  every algorithm, key and code length with which the code is computed inside its buffers
  (\<open>hashing_ok\<close>); no access leaves a buffer and no error is recorded.
\<close>

theorem sr_packet_roundtrip:
  assumes "hashing_ok ctx" and "packet_wf ctx p"
  shows "\<exists>b code. rastaModuleToBytes RASTA_ERRORS_NONE p ctx = Some (b, RASTA_ERRORS_NONE) \<and>
    length b = unat (pkt_length p) \<and>
    bytesToRastaPacket RASTA_ERRORS_NONE b ctx old =
      Some (p\<lparr>checksum := code, checksum_correct := True\<rparr>, RASTA_ERRORS_NONE)"
  using rastaModuleToBytes_eq [OF assms] length_sr_frame [OF assms(1)] assms(2)
    bytesToRastaPacket_frame [OF assms] by (auto simp: packet_wf_def)

definition example_ctx :: rasta_hashing_ctx where
  "example_ctx = \<lparr>algorithm = RASTA_ALGO_BLAKE2B, hash_length = RASTA_CHECKSUM_8B, key = replicate 16 1\<rparr>"

definition example_packet :: RastaPacket where
  "example_packet =
     \<lparr>pkt_length = 39, pkt_type = RASTA_TYPE_DATA, receiver_id = 0x60, sender_id = 0x61,
      sequence_number = 7, confirmed_sequence_number = 6, timestamp = 100, confirmed_timestamp = 90,
      pkt_data = [1, 2, 3], checksum = [], checksum_correct = False\<rparr>"

lemma example_wf: "hashing_ok example_ctx" "packet_wf example_ctx example_packet"
  by (simp_all add: hashing_ok_def packet_wf_def example_ctx_def example_packet_def checksum_len_def)

theorem sr_packet_roundtrip_witness:
  "\<exists>b code. rastaModuleToBytes RASTA_ERRORS_NONE example_packet example_ctx =
     Some (b, RASTA_ERRORS_NONE) \<and> length b = 39 \<and>
   bytesToRastaPacket RASTA_ERRORS_NONE b example_ctx example_packet =
     Some (example_packet\<lparr>checksum := code, checksum_correct := True\<rparr>, RASTA_ERRORS_NONE)"
  using sr_packet_roundtrip [OF example_wf, of example_packet] by (simp add: example_packet_def)

text \<open>
  C24: The redundancy layer's packet survives serialisation and parsing with the same CRC options and
  the same safety code, one that is computed inside its buffers (\<open>hashing_ok\<close>): header and inner packet come back and both checksums are accepted.
\<close>

theorem red_packet_roundtrip:
  assumes "hashing_ok ctx" and "red_packet_wf ctx p"
  shows "\<exists>b opts code. rastaRedundancyPacketToBytes RASTA_ERRORS_NONE p ctx =
      Some (b, p\<lparr>checksum_type := opts\<rparr>, RASTA_ERRORS_NONE) \<and> length b = unat (red_length p) \<and>
    bytesToRastaRedundancyPacket RASTA_ERRORS_NONE b (checksum_type p) ctx old =
      Some (p\<lparr>red_data := (red_data p)\<lparr>checksum := code, checksum_correct := True\<rparr>,
              red_checksum_correct := True\<rparr>, RASTA_ERRORS_NONE)"
proof -
  have wf: "packet_wf ctx (red_data p)" and w4: "crc_len (checksum_type p) \<le> 4"
    using assms(2) by (simp_all add: red_packet_wf_def)
  have "8 + length (sr_frame ctx (red_data p)) + crc_len (checksum_type p) < 2 ^ 32"
    using assms(2) unat_u16_bound [of "red_length p"]
    by (simp add: length_sr_frame [OF assms(1)] red_packet_wf_def packet_wf_def)
  from bytesToRastaRedundancyPacket_eq [where stored = "crc_bytes (checksum_type p) (red_body ctx p)"
      and p = p and old = old and err = RASTA_ERRORS_NONE, OF _ w4 this bytesToRastaPacket_frame [OF assms(1) wf]]
  have "bytesToRastaRedundancyPacket RASTA_ERRORS_NONE (red_frame ctx p) (checksum_type p) ctx old =
      Some (p\<lparr>red_data := (red_data p)\<lparr>checksum := sr_code_of ctx (red_data p),
              checksum_correct := True\<rparr>, red_checksum_correct := True\<rparr>, RASTA_ERRORS_NONE)"
    using w4 by (simp add: red_frame_def red_body_def)
  then show ?thesis
    using rastaRedundancyPacketToBytes_eq [OF assms] length_red_body [OF assms] assms(2)
    by (simp add: red_frame_def red_packet_wf_def) blast
qed

definition example_red_packet :: RastaRedundancyPacket where
  "example_red_packet =
     \<lparr>red_length = 51, red_reserve = 0, red_sequence_number = 3, red_data = example_packet,
      red_checksum_correct = False, checksum_type = crc_init_opt_b []\<rparr>"

lemma example_red_wf: "red_packet_wf example_ctx example_red_packet"
  using example_wf by (simp add: red_packet_wf_def example_red_packet_def crc_len_def
      crc_init_opt_b_def) (simp add: example_packet_def)

theorem red_packet_roundtrip_witness:
  "\<exists>b opts code. rastaRedundancyPacketToBytes RASTA_ERRORS_NONE example_red_packet example_ctx =
      Some (b, example_red_packet\<lparr>checksum_type := opts\<rparr>, RASTA_ERRORS_NONE) \<and> length b = 51 \<and>
    bytesToRastaRedundancyPacket RASTA_ERRORS_NONE b (checksum_type example_red_packet) example_ctx
      example_red_packet =
      Some (example_red_packet\<lparr>red_data := example_packet\<lparr>checksum := code, checksum_correct := True\<rparr>,
              red_checksum_correct := True\<rparr>, RASTA_ERRORS_NONE)"
  using red_packet_roundtrip [OF example_wf(1) example_red_wf, of example_red_packet]
  by (simp add: example_red_packet_def)

text \<open>
  C25: A redundancy packet with a CRC of 16 or 32 bits in which some consecutive bytes, no more than
  its CRC has, are replaced by others, either all of them in header and inner packet or all of them in
  the CRC field, is never delivered as correct: parsing the damaged bytes either clears the CRC flag
  or has already left a buffer while parsing the damaged inner packet. Nothing is said of damage that
  reaches across the boundary in front of the CRC, whose bytes are sent least significant first, or into
  more bytes than the CRC has.
\<close>

theorem red_packet_burst_rejected:
  assumes "hashing_ok ctx" and "red_packet_wf ctx p" and "crc_wf (checksum_type p)"
    and "width (checksum_type p) = 16 \<or> width (checksum_type p) = 32" and "bit (polynom (checksum_type p)) 0"
    and "red_frame ctx p = xs @ bs @ ys" and "length bs = length cs" and "bs \<noteq> cs"
    and "length bs \<le> crc_len (checksum_type p)"
    and "length xs + length bs \<le> length (red_body ctx p) \<or> length (red_body ctx p) \<le> length xs"
    and "bytesToRastaRedundancyPacket err (xs @ cs @ ys) (checksum_type p) ctx old = Some (q, err')"
  shows "\<not> red_checksum_correct q"
proof -
  let ?opts = "checksum_type p" and ?b = "red_body ctx p"
  let ?crc = "crc_bytes ?opts ?b"
  have w4: "crc_len ?opts \<le> 4" using assms(2) by (simp add: red_packet_wf_def)
  have b8: "8 \<le> length ?b" and bl: "length ?b + crc_len ?opts < 2 ^ 32"
    using length_red_body [OF assms(1,2)] assms(2) unat_u16_bound [of "red_length p"]
    by (simp_all add: red_packet_wf_def)
  have frame: "?b @ ?crc = xs @ bs @ ys" using assms(6) by (simp add: red_frame_def)
  from assms(10) show ?thesis
  proof
    assume "length xs + length bs \<le> length ?b"
    then obtain zs where b: "?b = xs @ bs @ zs" and ys: "ys = zs @ ?crc"
      using frame append_eq_append_conv2 [of ?b ?crc "xs @ bs" ys]
      by (auto simp: append_eq_append_conv2)
    have "crc_bytes ?opts (xs @ cs @ zs) \<noteq> ?crc"
    proof
      assume "crc_bytes ?opts (xs @ cs @ zs) = ?crc"
      from crc_bytes_inject [OF assms(3,4) this]
      have "fst (crc_calculate ?opts (xs @ bs @ zs)) = fst (crc_calculate ?opts (xs @ cs @ zs))"
        by (simp add: b)
      with crc_burst_detected [OF assms(3,5,7) _ assms(8)] assms(9) show False
        by (simp add: crc_len_def)
    qed
    with red_checksum_flag [of err "xs @ cs @ zs" ?crc ?opts ctx old q err'] assms(7,11) w4 b8 bl
    show ?thesis by (simp add: b ys)
  next
    assume "length ?b \<le> length xs"
    then obtain zs where xs: "xs = ?b @ zs" and crc: "?crc = zs @ bs @ ys"
      using frame by (auto simp: append_eq_append_conv2)
    with assms(8) have "zs @ cs @ ys \<noteq> ?crc" by simp
    with red_checksum_flag [of err ?b "zs @ cs @ ys" ?opts ctx old q err'] assms(7,11) w4 b8 bl
      arg_cong [OF crc, of length]
    show ?thesis by (simp add: xs)
  qed
qed

theorem red_packet_burst_rejected_witness:
  "\<exists>q err'. bytesToRastaRedundancyPacket RASTA_ERRORS_NONE
      (red_body example_ctx example_red_packet @
       map (\<lambda>b. b XOR 1) (crc_bytes (crc_init_opt_b []) (red_body example_ctx example_red_packet)))
      (crc_init_opt_b []) example_ctx example_red_packet = Some (q, err') \<and>
    \<not> red_checksum_correct q"
proof -
  let ?p = example_red_packet and ?opts = "crc_init_opt_b []" and ?b = "red_body example_ctx example_red_packet"
  let ?crc = "crc_bytes (crc_init_opt_b []) ?b" and ?bad = "map (\<lambda>b. b XOR 1)"
  have ct: "checksum_type ?p = ?opts" and rd: "red_data ?p = example_packet"
    by (simp_all add: example_red_packet_def)
  have w: "width ?opts = 32" and cl: "crc_len ?opts = 4" and odd: "bit (polynom ?opts) 0"
    by (simp_all add: crc_len_def crc_init_opt_b_def bit_0)
  have len: "length ?crc = 4" by (simp add: cl)
  then have neq: "?crc \<noteq> ?bad ?crc"
    using xor_left_cancel [of _ 0 "1 :: u8"] by (cases ?crc) auto
  have small: "8 + length (sr_frame example_ctx example_packet) + crc_len ?opts < 2 ^ 32"
    by (simp add: length_sr_frame [OF example_wf(1)] cl)
      (simp add: example_packet_def example_ctx_def checksum_len_def)
  obtain q err' where parse: "bytesToRastaRedundancyPacket RASTA_ERRORS_NONE (?b @ ?bad ?crc) ?opts
      example_ctx ?p = Some (q, err')"
    using bytesToRastaRedundancyPacket_eq [where stored = "?bad ?crc" and p = ?p and old = ?p
        and err = RASTA_ERRORS_NONE, OF _ _ small bytesToRastaPacket_frame [OF example_wf]] len
    by (simp add: red_body_def rd cl)
  have "\<not> red_checksum_correct q"
    using red_packet_burst_rejected [of example_ctx ?p ?b ?crc "[]" "?bad ?crc" RASTA_ERRORS_NONE ?p q err']
      example_wf(1) example_red_wf crc_wf_init_opts(1) w odd len neq parse
    by (simp add: ct red_frame_def cl)
  with parse show ?thesis by blast
qed

text \<open>
  C33: Parsing returns without leaving a buffer exactly when the bytes are too few to be a packet
  (then the packet is marked incorrect) or the length field is at least the code length and at most
  the number of bytes present. A larger length field makes the code read past the buffer.
\<close>

theorem bytesToRastaPacket_defined_iff:
  assumes "hashing_ok ctx" and "length data < 2 ^ 31" and "leShortToHost data 0 = Some len"
  shows "bytesToRastaPacket err data ctx old \<noteq> None \<longleftrightarrow>
    length data < 28 + checksum_len ctx \<or> (checksum_len ctx \<le> unat len \<and> unat len \<le> length data)"
proof (cases "length data < 28 + checksum_len ctx")
  case True
  then show ?thesis by (simp add: bytesToRastaPacket_def)
next
  case False
  let ?k = "checksum_len ctx" and ?l = "getDataLength len ctx"
  have k: "?k \<le> 16" by (rule checksum_len_le)
  have reads: "leShortToHost data 2 = Some (le_short (take 2 (drop 2 data)))"
    "\<And>i. i \<le> 24 \<Longrightarrow> leLongToHost data i = Some (le_long (take 4 (drop i data)))"
    using False by (simp_all add: leShortToHost_def leLongToHost_def)
  have l: "?l = unat len - 28 - ?k"
    by (rule getDataLength_nat)
  have copies: "rmemcpy (allocateRastaByteArray n) 0 data i n =
      (if i + n \<le> length data then Some (take n (drop i data)) else None)" for i n
    by (simp add: rmemcpy_def)
  define h where "h = (\<lambda>d. the (rasta_calculate_hash d ctx))"
  have hash: "rasta_calculate_hash d ctx = Some (h d)" "?k \<le> length (h d)" for d
    using sr_code.code_defined [OF assms(1), of d] by (auto simp: h_def)
  have cmp: "rmemcmp (h d) 0 data i ?k =
      (if i + ?k \<le> length data then Some (memcmp (take ?k (h d)) (take ?k (drop i data))) else None)" for d i
    using hash(2) [of d] by (simp add: rmemcmp_def)
  have "bytesToRastaPacket err data ctx old \<noteq> None \<longleftrightarrow>
      28 + ?l \<le> length data \<and> usub (unat len) ?k \<le> length data \<and> 28 + ?l + ?k \<le> length data"
    using False by (simp add: bytesToRastaPacket_def assms(3) reads copies hash(1) cmp Let_def)
  also have "\<dots> \<longleftrightarrow> ?k \<le> unat len \<and> unat len \<le> length data"
  proof (cases "?k \<le> unat len")
    case True
    with False show ?thesis using unat_u16_bound [of len] by (simp add: usub_le l) linarith
  next
    case le: False
    then have "usub (unat len) ?k = unat len + 2 ^ 32 - ?k"
      using k by (intro usub_wrap) simp_all
    then have "\<not> usub (unat len) ?k \<le> length data" using assms(2) k by simp
    with le show ?thesis by blast
  qed
  finally show ?thesis using False by simp
qed

theorem bytesToRastaPacket_defined_iff_witness:
  "bytesToRastaPacket RASTA_ERRORS_NONE (0xFF # 0 # replicate 49 0) example_ctx example_packet = None \<and>
   bytesToRastaPacket RASTA_ERRORS_NONE (40 # 0 # replicate 49 0) example_ctx example_packet \<noteq> None"
proof -
  have len: "leShortToHost (0xFF # 0 # replicate 49 0) 0 = Some 0xFF" "leShortToHost (40 # 0 # replicate 49 0) 0 = Some 40"
    by (simp_all add: leShortToHost_def)
  show ?thesis
    using bytesToRastaPacket_defined_iff [OF example_wf(1) _ len(1), of RASTA_ERRORS_NONE example_packet]
      bytesToRastaPacket_defined_iff [OF example_wf(1) _ len(2), of RASTA_ERRORS_NONE example_packet]
    by (simp add: example_ctx_def checksum_len_def del: not_None_eq split_paired_Ex split_paired_All)
qed

text \<open>
  C34: The error variable is never cleared by the code that uses it: after one too short input every
  later call of \<open>rastaModuleToBytes\<close> returns a buffer of zeros, for well-formed packets too.
\<close>

theorem short_input_poisons_serialisation:
  assumes "length data < 28 + checksum_len ctx"
  shows "\<exists>q err'. bytesToRastaPacket err data ctx old = Some (q, err') \<and>
    \<not> checksum_correct q \<and> pkt_length q = 0 \<and>
    rastaModuleToBytes err' p ctx' = Some (replicate (unat (pkt_length p)) 0, err')"
  using assms by (simp add: bytesToRastaPacket_def rastaModuleToBytes_def allocateBytes_def
      allocateRastaByteArray_def)

theorem short_input_poisons_serialisation_witness:
  "\<exists>q err'. bytesToRastaPacket RASTA_ERRORS_NONE [1, 2, 3] example_ctx example_packet = Some (q, err') \<and>
    rastaModuleToBytes err' example_packet example_ctx = Some (replicate 39 0, err')"
  using short_input_poisons_serialisation [of "[1, 2, 3]" example_ctx RASTA_ERRORS_NONE example_packet
      example_packet example_ctx]
  by (auto simp: example_packet_def)

end
