(* ===== verification/Rasta_Factory.thy ===== *)
theory Rasta_Factory
  imports Rasta_Module
begin

text \<open>
  Creation of the protocol's messages and extraction of their contents, \<open>rastafactory.c\<close>. Message
  data is a list of byte strings, each carried with a 16-bit length prefix.

  The lemmas: every \<open>create\<close> function yields a packet whose length field matches its contents, every
  \<open>extract\<close> function inverts the corresponding \<open>create\<close> function, and the multi-message format is
  decoded exactly: \<open>extractMessageData\<close> succeeds on the encodings and on nothing else.

  The field \<open>checksum_correct\<close> of a created packet is left uninitialised by the code; nothing reads
  it before the packet is serialised, and it is \<open>False\<close> here.
\<close>

record RastaConnectionData =
  conn_send_max :: u16
  version :: bytes

record RastaDisconnectionData =
  details :: u16
  reason :: u16

type_synonym RastaMessageData = "bytes list"

text \<open>Reads the factory's last error and clears it.\<close>

definition getRastafactoryLastError :: "rasta_error_type \<Rightarrow> rasta_error_type \<times> rasta_error_type" where
  "getRastafactoryLastError err = (err, RASTA_ERRORS_NONE)"

definition initializePacket ::
  "rasta_conn_type \<Rightarrow> u32 \<Rightarrow> u32 \<Rightarrow> u32 \<Rightarrow> u32 \<Rightarrow> u32 \<Rightarrow> u32 \<Rightarrow> u16 \<Rightarrow> rasta_hashing_ctx \<Rightarrow> RastaPacket"
where
  "initializePacket typ receiver sender sn csn ts cts data_length hashing_context =
     \<lparr>pkt_length = of_nat (28 + checksum_len hashing_context + unat data_length), pkt_type = typ,
      receiver_id = receiver, sender_id = sender, sequence_number = sn,
      confirmed_sequence_number = csn, timestamp = ts, confirmed_timestamp = cts,
      pkt_data = (if data_length > 0 then allocateRastaByteArray (unat data_length) else []),
      checksum = (if checksum_len hashing_context > 0
                  then allocateRastaByteArray (checksum_len hashing_context) else []),
      checksum_correct = False\<rparr>"

text \<open>Version, \<open>send_max\<close> and eight reserved zero bytes. \<open>version\<close> has at least four characters.\<close>

definition connection_payload :: "RastaPacket \<Rightarrow> u16 \<Rightarrow> bytes \<Rightarrow> RastaPacket option" where
  "connection_payload p send_max v = do {
     d \<leftarrow> rmemcpy (pkt_data p) 0 v 0 4;
     d \<leftarrow> rmemcpy d 4 (hostShortTole send_max) 0 2;
     d \<leftarrow> rmemset d 6 0 8;
     Some (p\<lparr>pkt_data := d\<rparr>)
   }"

definition createConnectionRequest ::
  "u32 \<Rightarrow> u32 \<Rightarrow> u32 \<Rightarrow> u32 \<Rightarrow> u16 \<Rightarrow> bytes \<Rightarrow> rasta_hashing_ctx \<Rightarrow> RastaPacket option" where
  "createConnectionRequest receiver sender initial_sn ts send_max v hashing_context =
     connection_payload
       (initializePacket RASTA_TYPE_CONNREQ receiver sender initial_sn 0 ts 0 14 hashing_context) send_max v"

definition createConnectionResponse ::
  "u32 \<Rightarrow> u32 \<Rightarrow> u32 \<Rightarrow> u32 \<Rightarrow> u32 \<Rightarrow> u32 \<Rightarrow> u16 \<Rightarrow> bytes \<Rightarrow> rasta_hashing_ctx \<Rightarrow> RastaPacket option" where
  "createConnectionResponse receiver sender initial_sn csn ts cts send_max v hashing_context =
     connection_payload
       (initializePacket RASTA_TYPE_CONNRESP receiver sender initial_sn csn ts cts 14 hashing_context) send_max v"

text \<open>The second component is the new value of \<open>rastafactoryLastError\<close>.\<close>

definition extractRastaConnectionData ::
  "rasta_error_type \<Rightarrow> RastaPacket \<Rightarrow> (RastaConnectionData \<times> rasta_error_type) option" where
  "extractRastaConnectionData err p =
     (if length (pkt_data p) = 14 then do {
        send_max \<leftarrow> leShortToHost (pkt_data p) 4;
        Some (\<lparr>conn_send_max = send_max, version = take 4 (pkt_data p) @ [0]\<rparr>, err)
      }
      else Some (\<lparr>conn_send_max = 0, version = replicate 4 0 @ [0]\<rparr>, RASTA_ERRORS_WRONG_PACKAGE_FORMAT))"

definition createRetransmissionRequest ::
  "u32 \<Rightarrow> u32 \<Rightarrow> u32 \<Rightarrow> u32 \<Rightarrow> u32 \<Rightarrow> u32 \<Rightarrow> rasta_hashing_ctx \<Rightarrow> RastaPacket" where
  "createRetransmissionRequest receiver sender sn csn ts cts hashing_context =
     initializePacket RASTA_TYPE_RETRREQ receiver sender sn csn ts cts 0 hashing_context"

definition createRetransmissionResponse ::
  "u32 \<Rightarrow> u32 \<Rightarrow> u32 \<Rightarrow> u32 \<Rightarrow> u32 \<Rightarrow> u32 \<Rightarrow> rasta_hashing_ctx \<Rightarrow> RastaPacket" where
  "createRetransmissionResponse receiver sender sn csn ts cts hashing_context =
     initializePacket RASTA_TYPE_RETRRESP receiver sender sn csn ts cts 0 hashing_context"

definition createDisconnectionRequest ::
  "u32 \<Rightarrow> u32 \<Rightarrow> u32 \<Rightarrow> u32 \<Rightarrow> u32 \<Rightarrow> u32 \<Rightarrow> RastaDisconnectionData \<Rightarrow> rasta_hashing_ctx \<Rightarrow>
   RastaPacket option" where
  "createDisconnectionRequest receiver sender sn csn ts cts data hashing_context = do {
     let p = initializePacket RASTA_TYPE_DISCREQ receiver sender sn csn ts cts 4 hashing_context;
     d \<leftarrow> rmemcpy (pkt_data p) 0 (hostShortTole (details data)) 0 2;
     d \<leftarrow> rmemcpy d 2 (hostShortTole (reason data)) 0 2;
     Some (p\<lparr>pkt_data := d\<rparr>)
   }"

definition extractRastaDisconnectionData ::
  "rasta_error_type \<Rightarrow> RastaPacket \<Rightarrow> (RastaDisconnectionData \<times> rasta_error_type) option" where
  "extractRastaDisconnectionData err p =
     (if length (pkt_data p) = 4 then do {
        d \<leftarrow> leShortToHost (pkt_data p) 0;
        r \<leftarrow> leShortToHost (pkt_data p) 2;
        Some (\<lparr>details = d, reason = r\<rparr>, err)
      }
      else Some (\<lparr>details = 0, reason = 0\<rparr>, RASTA_ERRORS_WRONG_PACKAGE_FORMAT))"

definition createHeartbeat ::
  "u32 \<Rightarrow> u32 \<Rightarrow> u32 \<Rightarrow> u32 \<Rightarrow> u32 \<Rightarrow> u32 \<Rightarrow> rasta_hashing_ctx \<Rightarrow> RastaPacket" where
  "createHeartbeat receiver sender sn csn ts cts hashing_context =
     initializePacket RASTA_TYPE_HB receiver sender sn csn ts cts 0 hashing_context"

section \<open>Data messages\<close>

text \<open>The two loops of \<open>createDataMessage\<close>: the length sum in \<open>unsigned int\<close>, then the fill.\<close>

definition message_data_length :: "RastaMessageData \<Rightarrow> u32" where
  "message_data_length data =
     foldl (\<lambda>n m. n + of_nat (length m)) 0 data + 2 * of_nat (length data)"

fun fill_message_data :: "bytes \<Rightarrow> nat \<Rightarrow> RastaMessageData \<Rightarrow> bytes option" where
  "fill_message_data d message_length [] = Some d"
| "fill_message_data d message_length (m # ms) = do {
     d \<leftarrow> rmemcpy d message_length (hostShortTole (of_nat (length m))) 0 2;
     d \<leftarrow> rmemcpy d (2 + message_length) m 0 (length m);
     fill_message_data d (message_length + (length m + 2)) ms
   }"

definition createDataMessage ::
  "u32 \<Rightarrow> u32 \<Rightarrow> u32 \<Rightarrow> u32 \<Rightarrow> u32 \<Rightarrow> u32 \<Rightarrow> RastaMessageData \<Rightarrow> rasta_hashing_ctx \<Rightarrow>
   RastaPacket option" where
  "createDataMessage receiver sender sn csn ts cts data hashing_context = do {
     let p = initializePacket RASTA_TYPE_DATA receiver sender sn csn ts cts
               (ucast (message_data_length data)) hashing_context;
     d \<leftarrow> fill_message_data (pkt_data p) 0 data;
     Some (p\<lparr>pkt_data := d\<rparr>)
   }"

text \<open>The first loop of \<open>extractMessageData\<close> counts the records.\<close>

function count_messages :: "bytes \<Rightarrow> nat \<Rightarrow> nat \<Rightarrow> nat option" where
  "count_messages d current_length counter =
     (if current_length < length d then do {
        len \<leftarrow> leShortToHost d current_length;
        count_messages d (current_length + (unat len + 2)) (counter + 1)
      }
      else Some counter)"
  by pat_completeness auto
termination by (relation "measure (\<lambda>(d, cur, _). length d - cur)") auto

declare count_messages.simps [simp del]

fun copy_messages :: "bytes \<Rightarrow> nat \<Rightarrow> nat \<Rightarrow> bytes list option" where
  "copy_messages d current_length 0 = Some []"
| "copy_messages d current_length (Suc i) = do {
     len \<leftarrow> leShortToHost d current_length;
     m \<leftarrow> rmemcpy (allocateRastaByteArray (unat len)) 0 d (2 + current_length) (unat len);
     ms \<leftarrow> copy_messages d (current_length + (unat len + 2)) i;
     Some (m # ms)
   }"

definition extractMessageData :: "RastaPacket \<Rightarrow> RastaMessageData option" where
  "extractMessageData p = do {
     counter \<leftarrow> count_messages (pkt_data p) 0 0;
     copy_messages (pkt_data p) 0 counter
   }"

definition createRetransmittedDataMessage ::
  "u32 \<Rightarrow> u32 \<Rightarrow> u32 \<Rightarrow> u32 \<Rightarrow> u32 \<Rightarrow> u32 \<Rightarrow> RastaMessageData \<Rightarrow> rasta_hashing_ctx \<Rightarrow>
   RastaPacket option" where
  "createRetransmittedDataMessage receiver sender sn csn ts cts data hashing_context = do {
     result \<leftarrow> createDataMessage receiver sender sn csn ts cts data hashing_context;
     Some (result\<lparr>pkt_type := RASTA_TYPE_RETRDATA\<rparr>)
   }"

definition createRedundancyPacket :: "u32 \<Rightarrow> RastaPacket \<Rightarrow> crc_options \<Rightarrow> RastaRedundancyPacket" where
  "createRedundancyPacket sn inner_data opts =
     \<lparr>red_length = of_nat (8 + unat (pkt_length inner_data) + crc_len opts), red_reserve = 0,
      red_sequence_number = sn, red_data = inner_data, red_checksum_correct = True,
      checksum_type = opts\<rparr>"

section \<open>Created packets are well formed\<close>

lemma packet_wf_initializePacket:
  "unat data_length \<le> 65000 \<Longrightarrow> packet_wf ctx (initializePacket t r s sn csn ts cts data_length ctx)"
proof -
  assume le: "unat data_length \<le> 65000"
  have "unat (of_nat (28 + checksum_len ctx + unat data_length) :: u16) =
      28 + checksum_len ctx + unat data_length"
    using checksum_len_le [of ctx] le by (intro unat_of_nat_bounded) simp
  moreover have "\<not> 0 < data_length \<Longrightarrow> unat data_length = 0"
    by (simp add: word_less_nat_alt)
  ultimately show ?thesis
    by (simp add: packet_wf_def initializePacket_def)
qed

lemma pkt_data_initializePacket [simp]:
  "pkt_data (initializePacket t r s sn csn ts cts n ctx) = replicate (unat n) 0"
proof -
  have "\<not> 0 < n \<Longrightarrow> unat n = 0" by (simp add: word_less_nat_alt)
  then show ?thesis by (simp add: initializePacket_def allocateRastaByteArray_def)
qed

lemma packet_wf_data: "length d = length (pkt_data p) \<Longrightarrow> packet_wf ctx (p\<lparr>pkt_data := d\<rparr>) = packet_wf ctx p"
  by (simp add: packet_wf_def)

lemma connection_payload_eq:
  assumes "pkt_data p = replicate 14 0" and "4 \<le> length v"
  shows "connection_payload p send_max v =
    Some (p\<lparr>pkt_data := take 4 v @ hostShortTole send_max @ replicate 8 0\<rparr>)"
  using assms by (simp add: connection_payload_def rmemcpy_def rmemset_def)

section \<open>The record format of message data\<close>

definition encode_messages :: "RastaMessageData \<Rightarrow> bytes" where
  "encode_messages ms = concat (map (\<lambda>m. hostShortTole (of_nat (length m)) @ m) ms)"

lemma encode_messages_simps [simp]:
  "encode_messages [] = []"
  "encode_messages (m # ms) = hostShortTole (of_nat (length m)) @ m @ encode_messages ms"
  by (simp_all add: encode_messages_def)

lemma length_encode_messages: "length (encode_messages ms) = sum_list (map length ms) + 2 * length ms"
  by (induction ms) simp_all

lemma foldl_message_length:
  "foldl (\<lambda>n m. n + of_nat (length m)) (k :: u32) ms = k + of_nat (sum_list (map length ms))"
  by (induction ms arbitrary: k) (simp_all add: add.assoc)

lemma message_data_length_eq: "message_data_length ms = of_nat (length (encode_messages ms))"
  by (simp add: message_data_length_def foldl_message_length length_encode_messages)

lemma fill_message_data_eq:
  assumes "length junk = length (encode_messages ms)"
  shows "fill_message_data (pre @ junk) (length pre) ms = Some (pre @ encode_messages ms)"
  using assms
proof (induction ms arbitrary: pre junk)
  case (Cons m ms)
  let ?l = "hostShortTole (of_nat (length m))"
  have "rmemcpy (pre @ junk) (length pre) ?l 0 2 = Some (pre @ ?l @ drop 2 junk)"
    using Cons.prems by (intro rmemcpy_append) simp_all
  moreover have "rmemcpy ((pre @ ?l) @ drop 2 junk) (2 + length pre) m 0 (length m) =
      Some ((pre @ ?l) @ m @ drop (length m) (drop 2 junk))"
    using Cons.prems by (intro rmemcpy_append) simp_all
  moreover have "fill_message_data ((pre @ ?l @ m) @ drop (length m) (drop 2 junk))
      (length (pre @ ?l @ m)) ms = Some ((pre @ ?l @ m) @ encode_messages ms)"
    using Cons.prems by (intro Cons.IH) simp
  ultimately show ?case by (simp add: add.assoc add.commute add.left_commute)
qed simp

text \<open>A fill that returns has stayed inside the buffer.\<close>

lemma fill_message_data_bound:
  "fill_message_data d i ms = Some d' \<Longrightarrow> ms \<noteq> [] \<Longrightarrow> i + length (encode_messages ms) \<le> length d"
proof (induction ms arbitrary: d i)
  case (Cons m ms)
  from Cons.prems(1) obtain d1 d2 where 1: "rmemcpy d i (hostShortTole (of_nat (length m))) 0 2 = Some d1"
    and 2: "rmemcpy d1 (2 + i) m 0 (length m) = Some d2"
    and 3: "fill_message_data d2 (i + (length m + 2)) ms = Some d'"
    by (auto simp: Option.bind_eq_Some_conv)
  have len: "length d1 = length d" "length d2 = length d1"
    using 1 2 by (auto dest: length_rmemcpy)
  have "2 + i + length m \<le> length d1" using 2 by (simp add: rmemcpy_def split: if_splits)
  with Cons.IH [OF 3] len show ?case by (cases "ms = []") simp_all
qed simp

lemma leShortToHost_record:
  "length m < 2 ^ 16 \<Longrightarrow> leShortToHost (pre @ encode_messages (m # ms)) (length pre) = Some (of_nat (length m)) \<and>
   unat (of_nat (length m) :: u16) = length m"
  using leShortToHost_append [of pre "length pre"] unat_of_nat_bounded [of "length m", where 'a = 16] by simp

lemma count_messages_encoded:
  assumes "\<forall>m \<in> set ms. length m < 2 ^ 16"
  shows "count_messages (pre @ encode_messages ms) (length pre) c = Some (c + length ms)"
  using assms
proof (induction ms arbitrary: pre c)
  case Nil
  then show ?case by (subst count_messages.simps) simp
next
  case (Cons m ms)
  let ?l = "hostShortTole (of_nat (length m))"
  have "count_messages ((pre @ ?l @ m) @ encode_messages ms) (length (pre @ ?l @ m)) (c + 1) =
      Some (c + 1 + length ms)"
    by (rule Cons.IH) (use Cons.prems in simp)
  then show ?case
    using leShortToHost_record [of m pre ms] Cons.prems
    by (subst count_messages.simps) (simp add: ac_simps)
qed

lemma copy_messages_encoded:
  assumes "\<forall>m \<in> set ms. length m < 2 ^ 16"
  shows "copy_messages (pre @ encode_messages ms) (length pre) (length ms) = Some ms"
  using assms
proof (induction ms arbitrary: pre)
  case (Cons m ms)
  let ?l = "hostShortTole (of_nat (length m))"
  have "copy_messages ((pre @ ?l @ m) @ encode_messages ms) (length (pre @ ?l @ m)) (length ms) = Some ms"
    by (rule Cons.IH) (use Cons.prems in simp)
  moreover have "rmemcpy (allocateRastaByteArray (length m)) 0 (pre @ encode_messages (m # ms))
      (2 + length pre) (length m) = Some m"
    by (simp add: rmemcpy_alloc)
  ultimately show ?case
    using leShortToHost_record [of m pre ms] Cons.prems by (simp add: ac_simps)
qed simp

lemma count_messages_mono: "count_messages d cur c = Some n \<Longrightarrow> c \<le> n"
proof (induction d cur c rule: count_messages.induct)
  case (1 d cur c)
  then show ?case
    by (subst (asm) (2) count_messages.simps)
      (fastforce simp: Option.bind_eq_Some_conv split: if_splits)
qed

lemma extract_only_encoded:
  assumes "count_messages d cur c = Some n" and "copy_messages d cur (n - c) = Some ms" and "cur \<le> length d"
  shows "drop cur d = encode_messages ms \<and> (\<forall>m \<in> set ms. length m < 2 ^ 16)"
  using assms
proof (induction d cur c arbitrary: ms rule: count_messages.induct)
  case (1 d cur c)
  show ?case
  proof (cases "cur < length d")
    case False
    then show ?thesis using "1.prems" by (subst (asm) count_messages.simps) simp
  next
    case True
    from "1.prems"(1) True obtain len where l: "leShortToHost d cur = Some len"
      and cnt: "count_messages d (cur + (unat len + 2)) (c + 1) = Some n"
      by (subst (asm) count_messages.simps) (auto simp: Option.bind_eq_Some_conv)
    from count_messages_mono [OF cnt] have n: "n - c = Suc (n - (c + 1))" by simp
    from "1.prems"(2) l obtain m ms' where m: "rmemcpy (allocateRastaByteArray (unat len)) 0 d (2 + cur) (unat len) = Some m"
      and rest: "copy_messages d (cur + (unat len + 2)) (n - (c + 1)) = Some ms'" and ms: "ms = m # ms'"
      unfolding n by (auto simp: Option.bind_eq_Some_conv)
    have bound: "2 + cur + unat len \<le> length d" and m_eq: "m = take (unat len) (drop (2 + cur) d)"
      using m by (simp_all add: rmemcpy_def split: if_splits)
    then have m_len: "length m = unat len" by simp
    have IH: "drop (cur + (unat len + 2)) d = encode_messages ms' \<and> (\<forall>m \<in> set ms'. length m < 2 ^ 16)"
      using "1.IH" [OF True l cnt rest] bound by simp
    have "drop cur d = take 2 (drop cur d) @ drop (2 + cur) d"
      by (metis append_take_drop_id drop_drop)
    moreover have "drop (2 + cur) d = m @ drop (unat len + (2 + cur)) d"
      unfolding m_eq by (metis append_take_drop_id drop_drop)
    ultimately have "drop cur d = take 2 (drop cur d) @ m @ drop (cur + (unat len + 2)) d"
      by (simp only: ac_simps)
    moreover have "take 2 (drop cur d) = hostShortTole len"
      using l hostShortTole_le_short [of "take 2 (drop cur d)"]
      by (simp add: leShortToHost_def split: if_splits)
    ultimately show ?thesis
      using IH unat_lt [of len] by (simp add: ms m_len)
  qed
qed

lemma extractMessageData_iff:
  "extractMessageData p = Some ms \<longleftrightarrow>
   pkt_data p = encode_messages ms \<and> (\<forall>m \<in> set ms. length m < 2 ^ 16)"
proof
  assume "extractMessageData p = Some ms"
  then obtain n where "count_messages (pkt_data p) 0 0 = Some n" "copy_messages (pkt_data p) 0 (n - 0) = Some ms"
    by (auto simp: extractMessageData_def Option.bind_eq_Some_conv)
  from extract_only_encoded [OF this] show "pkt_data p = encode_messages ms \<and> (\<forall>m \<in> set ms. length m < 2 ^ 16)"
    by simp
next
  assume "pkt_data p = encode_messages ms \<and> (\<forall>m \<in> set ms. length m < 2 ^ 16)"
  then show "extractMessageData p = Some ms"
    using count_messages_encoded [of ms "[]" 0] copy_messages_encoded [of ms "[]"]
    by (simp add: extractMessageData_def)
qed

lemma ucast_of_nat_u16: "(ucast (of_nat n :: u32) :: u16) = of_nat n"
  using mod_mod_cancel [of "2 ^ 16" "2 ^ 32" n]
  by (simp add: word_unat_eq_iff unsigned_ucast_eq unat_of_nat) (simp add: take_bit_eq_mod)

lemma createDataMessage_eq:
  assumes "28 + checksum_len ctx + length (encode_messages ms) < 2 ^ 16"
  shows "\<exists>p. createDataMessage r s sn csn ts cts ms ctx = Some p \<and> packet_wf ctx p \<and>
    pkt_data p = encode_messages ms \<and> pkt_type p = RASTA_TYPE_DATA \<and> sequence_number p = sn \<and>
    confirmed_sequence_number p = csn \<and> timestamp p = ts \<and> confirmed_timestamp p = cts \<and>
    receiver_id p = r \<and> sender_id p = s"
proof -
  let ?n = "ucast (message_data_length ms) :: u16"
  have "?n = of_nat (length (encode_messages ms))"
    unfolding message_data_length_eq by (rule ucast_of_nat_u16)
  then have n: "unat ?n = length (encode_messages ms)"
    using assms by (simp only:) (rule unat_of_nat_bounded, simp)
  have len: "unat (of_nat (28 + checksum_len ctx + unat ?n) :: u16) =
      28 + checksum_len ctx + length (encode_messages ms)"
    using assms n by (simp only:) (rule unat_of_nat_bounded, simp)
  have fill: "fill_message_data (replicate (unat ?n) 0) 0 ms = Some (encode_messages ms)"
    using fill_message_data_eq [of "replicate (unat ?n) 0" ms "[]"] n by simp
  let ?p = "initializePacket RASTA_TYPE_DATA r s sn csn ts cts ?n ctx"
  have "packet_wf ctx (?p\<lparr>pkt_data := encode_messages ms\<rparr>)"
    using len by (simp add: packet_wf_def initializePacket_def)
  then show ?thesis
    using fill by (simp add: createDataMessage_def) (simp add: initializePacket_def)
qed

section \<open>Properties\<close>

text \<open>
  C26: Any list of messages that fits a packet is carried faithfully: the data message (or
  retransmitted data message) that \<open>createDataMessage\<close> builds has a matching length field, and
  \<open>extractMessageData\<close> returns exactly the messages, in order, after any serialisation that keeps the
  payload.
\<close>

theorem data_message_roundtrip:
  assumes "28 + checksum_len ctx + length (encode_messages ms) < 2 ^ 16"
  shows "\<exists>p. createDataMessage r s sn csn ts cts ms ctx = Some p \<and>
      createRetransmittedDataMessage r s sn csn ts cts ms ctx = Some (p\<lparr>pkt_type := RASTA_TYPE_RETRDATA\<rparr>) \<and>
      packet_wf ctx p \<and> pkt_type p = RASTA_TYPE_DATA \<and> sequence_number p = sn \<and>
      (\<forall>q. pkt_data q = pkt_data p \<longrightarrow> extractMessageData q = Some ms)"
proof -
  have "\<forall>m \<in> set ms. length m < 2 ^ 16"
  proof
    fix m assume "m \<in> set ms"
    then have "length m \<le> length (encode_messages ms)"
      by (induction ms) auto
    then show "length m < 2 ^ 16" using assms by simp
  qed
  then show ?thesis
    using createDataMessage_eq [OF assms, of r s sn csn ts cts]
    by (auto simp: createRetransmittedDataMessage_def extractMessageData_iff)
qed

theorem data_message_roundtrip_witness:
  "\<exists>p. createDataMessage 1 2 3 4 5 6 [[1, 2, 3], [], [4]] example_ctx = Some p \<and>
    extractMessageData p = Some [[1, 2, 3], [], [4]]"
  using data_message_roundtrip [of example_ctx "[[1, 2, 3], [], [4]]" 1 2 3 4 5 6]
  by (auto simp: example_ctx_def checksum_len_def)

text \<open>
  \<open>extractMessageData\<close> returns exactly on the well-formed encodings: it yields \<open>ms\<close> if and only
  if the payload is the concatenation of the length-prefixed messages \<open>ms\<close>. On every other payload
  it reads outside the buffer.
\<close>

theorem extractMessageData_exact:
  "extractMessageData p = Some ms \<longleftrightarrow>
   pkt_data p = encode_messages ms \<and> (\<forall>m \<in> set ms. length m < 2 ^ 16)"
  by (rule extractMessageData_iff)

theorem extractMessageData_exact_witness:
  "extractMessageData (example_packet\<lparr>pkt_data := [2, 0, 7, 8, 0, 0]\<rparr>) = Some [[7, 8], []] \<and>
   extractMessageData (example_packet\<lparr>pkt_data := [9]\<rparr>) = None"
proof
  show "extractMessageData (example_packet\<lparr>pkt_data := [2, 0, 7, 8, 0, 0]\<rparr>) = Some [[7, 8], []]"
    using extractMessageData_exact [of "example_packet\<lparr>pkt_data := [2, 0, 7, 8, 0, 0]\<rparr>" "[[7, 8], []]"]
    by (simp add: hostShortTole_def)
  show "extractMessageData (example_packet\<lparr>pkt_data := [9]\<rparr>) = None"
    by (subst extractMessageData_def, subst count_messages.simps) (simp add: leShortToHost_def)
qed

text \<open>
  A connection request and a connection response carry the version and \<open>send_max\<close> to the
  receiver, a disconnection request its reason and details; the extracting functions return them
  without touching the error variable, and the packets are well formed.
\<close>

theorem handshake_payload_roundtrip:
  assumes "length v = 4"
  shows "(\<exists>p. createConnectionRequest r s sn ts send_max v ctx = Some p \<and> packet_wf ctx p \<and>
       pkt_type p = RASTA_TYPE_CONNREQ \<and> sequence_number p = sn \<and>
       extractRastaConnectionData err p = Some (\<lparr>conn_send_max = send_max, version = v @ [0]\<rparr>, err)) \<and>
    (\<exists>p. createConnectionResponse r s sn csn ts cts send_max v ctx = Some p \<and> packet_wf ctx p \<and>
       pkt_type p = RASTA_TYPE_CONNRESP \<and> confirmed_sequence_number p = csn \<and>
       extractRastaConnectionData err p = Some (\<lparr>conn_send_max = send_max, version = v @ [0]\<rparr>, err)) \<and>
    (\<exists>p. createDisconnectionRequest r s sn csn ts cts dd ctx = Some p \<and> packet_wf ctx p \<and>
       pkt_type p = RASTA_TYPE_DISCREQ \<and> extractRastaDisconnectionData err p = Some (dd, err))"
proof (intro conjI)
  let ?d = "take 4 v @ hostShortTole send_max @ replicate 8 0"
  have ex: "extractRastaConnectionData err (p\<lparr>pkt_data := ?d\<rparr>) =
      Some (\<lparr>conn_send_max = send_max, version = v @ [0]\<rparr>, err)" for p
    using assms by (simp add: extractRastaConnectionData_def leShortToHost_def)
  have wf: "packet_wf ctx ((initializePacket t r s sn csn ts cts 14 ctx)\<lparr>pkt_data := ?d\<rparr>)" for t csn cts
    using assms by (simp add: packet_wf_data packet_wf_initializePacket)
  have pay: "connection_payload (initializePacket t r s sn csn ts cts 14 ctx) send_max v =
      Some ((initializePacket t r s sn csn ts cts 14 ctx)\<lparr>pkt_data := ?d\<rparr>)" for t csn cts
    using assms by (intro connection_payload_eq) simp_all
  show "\<exists>p. createConnectionRequest r s sn ts send_max v ctx = Some p \<and> packet_wf ctx p \<and>
       pkt_type p = RASTA_TYPE_CONNREQ \<and> sequence_number p = sn \<and>
       extractRastaConnectionData err p = Some (\<lparr>conn_send_max = send_max, version = v @ [0]\<rparr>, err)"
    using pay ex wf by (simp add: createConnectionRequest_def) (simp add: initializePacket_def)
  show "\<exists>p. createConnectionResponse r s sn csn ts cts send_max v ctx = Some p \<and> packet_wf ctx p \<and>
       pkt_type p = RASTA_TYPE_CONNRESP \<and> confirmed_sequence_number p = csn \<and>
       extractRastaConnectionData err p = Some (\<lparr>conn_send_max = send_max, version = v @ [0]\<rparr>, err)"
    using pay ex wf by (simp add: createConnectionResponse_def) (simp add: initializePacket_def)
next
  let ?p = "initializePacket RASTA_TYPE_DISCREQ r s sn csn ts cts 4 ctx"
  let ?d = "hostShortTole (details dd) @ hostShortTole (reason dd)"
  have "createDisconnectionRequest r s sn csn ts cts dd ctx = Some (?p\<lparr>pkt_data := ?d\<rparr>)"
    by (simp add: createDisconnectionRequest_def rmemcpy_def)
  moreover have "packet_wf ctx (?p\<lparr>pkt_data := ?d\<rparr>)"
    by (simp add: packet_wf_data packet_wf_initializePacket)
  moreover have "extractRastaDisconnectionData err (?p\<lparr>pkt_data := ?d\<rparr>) = Some (dd, err)"
    by (simp add: extractRastaDisconnectionData_def leShortToHost_def)
  ultimately show "\<exists>p. createDisconnectionRequest r s sn csn ts cts dd ctx = Some p \<and> packet_wf ctx p \<and>
       pkt_type p = RASTA_TYPE_DISCREQ \<and> extractRastaDisconnectionData err p = Some (dd, err)"
    by (simp add: initializePacket_def)
qed

theorem handshake_payload_roundtrip_witness:
  "\<exists>p. createConnectionRequest 1 2 3 4 20 [0x30, 0x33, 0x30, 0x33] example_ctx = Some p \<and>
    extractRastaConnectionData RASTA_ERRORS_NONE p =
      Some (\<lparr>conn_send_max = 20, version = RASTA_VERSION\<rparr>, RASTA_ERRORS_NONE)"
  using handshake_payload_roundtrip [of "[0x30, 0x33, 0x30, 0x33]" 1 2 3 4 20 example_ctx
      RASTA_ERRORS_NONE 0 0 "\<lparr>details = 0, reason = 0\<rparr>"]
  by (auto simp: RASTA_VERSION_def)

text \<open>
  A data message whose encoding needs 65536 bytes or more does not fit the 16-bit length:
  \<open>createDataMessage\<close> then allocates the truncated length and writes past the end of the buffer.
\<close>

theorem createDataMessage_overflow:
  assumes "2 ^ 16 \<le> length (encode_messages ms)"
  shows "createDataMessage r s sn csn ts cts ms ctx = None"
proof (rule ccontr)
  assume "createDataMessage r s sn csn ts cts ms ctx \<noteq> None"
  then obtain d where "fill_message_data (replicate (unat (ucast (message_data_length ms) :: u16)) 0) 0 ms = Some d"
    by (auto simp: createDataMessage_def Option.bind_eq_Some_conv)
  moreover have "ms \<noteq> []" using assms by auto
  ultimately have "length (encode_messages ms) \<le> unat (ucast (message_data_length ms) :: u16)"
    using fill_message_data_bound by fastforce
  with assms unat_lt [of "ucast (message_data_length ms) :: u16"] show False by simp
qed

theorem createDataMessage_overflow_witness:
  "createDataMessage 1 2 3 4 5 6 [replicate 65534 0] example_ctx = None"
  by (rule createDataMessage_overflow) (simp add: length_encode_messages)

end
