(* ===== verification/Rasta_DeferQueue.thy ===== *)
theory Rasta_DeferQueue
  imports Rasta_Module
begin

text \<open>
  The defer queue of the redundancy layer, \<open>util/rastadeferqueue.c\<close>: an array of packets with their
  receive times, of which the first \<open>count\<close> are live, kept in order of the receive time by \<open>qsort\<close>.
  The array keeps whatever was in the slots behind \<open>count\<close>; after \<open>rmalloc\<close> they are arbitrary.

  The locale \<open>packet_buffer\<close> states what the redundancy layer relies on, over the multiset of live
  entries; it is interpreted on the array. Sequence numbers need not be distinct: \<open>deferqueue_add\<close>
  does not check.
\<close>

record rasta_redundancy_packet_wrapper =
  packet :: RastaRedundancyPacket
  received_timestamp :: u64

record defer_queue =
  elements :: "rasta_redundancy_packet_wrapper list"
  dq_count :: nat
  dq_max_count :: nat

text \<open>The live entries.\<close>

definition live :: "defer_queue \<Rightarrow> rasta_redundancy_packet_wrapper list" where
  "live queue = take (dq_count queue) (elements queue)"

definition wrapper_seq :: "rasta_redundancy_packet_wrapper \<Rightarrow> u64" where
  "wrapper_seq e = ucast (red_sequence_number (packet e))"

text \<open>The \<open>while\<close> loop of \<open>find_index\<close>; \<open>None\<close> is the result -1.\<close>

fun find_index_from :: "nat \<Rightarrow> rasta_redundancy_packet_wrapper list \<Rightarrow> u64 \<Rightarrow> nat option" where
  "find_index_from index [] seq_nr = None"
| "find_index_from index (e # es) seq_nr =
     (if wrapper_seq e \<noteq> seq_nr then find_index_from (Suc index) es seq_nr else Some index)"

definition find_index :: "defer_queue \<Rightarrow> u64 \<Rightarrow> nat option" where
  "find_index queue seq_nr = find_index_from 0 (live queue) seq_nr"

text \<open>The difference of the times, cut to \<open>int\<close>.\<close>

definition cmpfkt :: "rasta_redundancy_packet_wrapper \<Rightarrow> rasta_redundancy_packet_wrapper \<Rightarrow> int" where
  "cmpfkt a b = sint (ucast (received_timestamp a - received_timestamp b) :: u32)"

text \<open>\<open>qsort\<close> as a stable insertion sort by the comparison function.\<close>

fun qsort_insert :: "('a \<Rightarrow> 'a \<Rightarrow> int) \<Rightarrow> 'a \<Rightarrow> 'a list \<Rightarrow> 'a list" where
  "qsort_insert cmp x [] = [x]"
| "qsort_insert cmp x (y # ys) = (if cmp x y \<le> 0 then x # y # ys else y # qsort_insert cmp x ys)"

definition qsort :: "('a \<Rightarrow> 'a \<Rightarrow> int) \<Rightarrow> 'a list \<Rightarrow> 'a list" where
  "qsort cmp xs = foldr (qsort_insert cmp) xs []"

definition dq_sort :: "defer_queue \<Rightarrow> defer_queue" where
  "dq_sort queue = queue\<lparr>elements := qsort cmpfkt (live queue) @ drop (dq_count queue) (elements queue)\<rparr>"

text \<open>\<open>junk\<close> is what \<open>rmalloc\<close> returned, \<open>n_max\<close> entries.\<close>

definition deferqueue_init :: "rasta_redundancy_packet_wrapper list \<Rightarrow> nat \<Rightarrow> defer_queue" where
  "deferqueue_init junk n_max = \<lparr>elements = take n_max junk, dq_count = 0, dq_max_count = n_max\<rparr>"

definition deferqueue_isfull :: "defer_queue \<Rightarrow> bool" where
  "deferqueue_isfull queue \<longleftrightarrow> dq_count queue = dq_max_count queue"

definition deferqueue_add :: "defer_queue \<Rightarrow> RastaRedundancyPacket \<Rightarrow> u64 \<Rightarrow> bool \<times> defer_queue" where
  "deferqueue_add queue p recv_ts =
     (if dq_count queue = dq_max_count queue then (False, queue)
      else
        let element = \<lparr>packet = p, received_timestamp = recv_ts\<rparr>;
            queue = queue\<lparr>elements := (elements queue)[dq_count queue := element]\<rparr>;
            queue = queue\<lparr>dq_count := dq_count queue + 1\<rparr>
        in (True, dq_sort queue))"

definition deferqueue_remove :: "defer_queue \<Rightarrow> u64 \<Rightarrow> defer_queue" where
  "deferqueue_remove queue seq_nr =
     (case find_index queue seq_nr of
        None \<Rightarrow> queue
      | Some index \<Rightarrow>
          let queue = (if index \<noteq> dq_count queue - 1
                       then queue\<lparr>elements := (elements queue)[index := elements queue ! (dq_count queue - 1)]\<rparr>
                       else queue);
              queue = queue\<lparr>dq_count := dq_count queue - 1\<rparr>
          in dq_sort queue)"

definition deferqueue_contains :: "defer_queue \<Rightarrow> u64 \<Rightarrow> bool" where
  "deferqueue_contains queue seq_nr \<longleftrightarrow> find_index queue seq_nr \<noteq> None"

definition deferqueue_destroy :: "defer_queue \<Rightarrow> defer_queue" where
  "deferqueue_destroy queue = queue\<lparr>elements := [], dq_count := 0, dq_max_count := 0\<rparr>"

text \<open>The loop over \<open>max_count\<close> slots, live or not; the result is an index, 0 if nothing is smaller.\<close>

definition deferqueue_smallest_seqnr :: "defer_queue \<Rightarrow> nat" where
  "deferqueue_smallest_seqnr queue =
     snd (foldl (\<lambda>(smallest, index) i.
            if wrapper_seq (elements queue ! i) < smallest
            then (wrapper_seq (elements queue ! i), i) else (smallest, index))
          (0xFFFFFFFF, 0) [0..<dq_max_count queue])"

definition zero_packet :: RastaPacket where
  "zero_packet =
     \<lparr>pkt_length = 0, pkt_type = 0, receiver_id = 0, sender_id = 0, sequence_number = 0,
      confirmed_sequence_number = 0, timestamp = 0, confirmed_timestamp = 0, pkt_data = [],
      checksum = [], checksum_correct = False\<rparr>"

definition zero_redundancy_packet :: RastaRedundancyPacket where
  "zero_redundancy_packet =
     \<lparr>red_length = 0, red_reserve = 0, red_sequence_number = 0, red_data = zero_packet,
      red_checksum_correct = False, checksum_type = crc_init_opt_a\<rparr>"

definition deferqueue_get :: "defer_queue \<Rightarrow> u64 \<Rightarrow> RastaRedundancyPacket" where
  "deferqueue_get queue seq_nr =
     (case find_index queue seq_nr of
        None \<Rightarrow> zero_redundancy_packet
      | Some index \<Rightarrow> packet (elements queue ! index))"

definition deferqueue_get_ts :: "defer_queue \<Rightarrow> u64 \<Rightarrow> u64" where
  "deferqueue_get_ts queue seq_nr =
     (case find_index queue seq_nr of
        None \<Rightarrow> 0
      | Some index \<Rightarrow> received_timestamp (elements queue ! index))"

definition deferqueue_clear :: "defer_queue \<Rightarrow> defer_queue" where
  "deferqueue_clear queue = queue\<lparr>dq_count := 0\<rparr>"

section \<open>The contract\<close>

locale packet_buffer =
  fixes invar :: "'q \<Rightarrow> bool"
    and bag :: "'q \<Rightarrow> ('p \<times> u64) multiset"
    and capacity :: "'q \<Rightarrow> nat"
    and key :: "'p \<Rightarrow> u64"
    and contains :: "'q \<Rightarrow> u64 \<Rightarrow> bool"
    and get :: "'q \<Rightarrow> u64 \<Rightarrow> 'p"
    and get_ts :: "'q \<Rightarrow> u64 \<Rightarrow> u64"
    and add :: "'q \<Rightarrow> 'p \<Rightarrow> u64 \<Rightarrow> bool \<times> 'q"
    and remove :: "'q \<Rightarrow> u64 \<Rightarrow> 'q"
  assumes size_le: "invar q \<Longrightarrow> size (bag q) \<le> capacity q"
    and contains_iff: "invar q \<Longrightarrow> contains q s \<longleftrightarrow> (\<exists>x \<in># bag q. key (fst x) = s)"
    and get_in: "invar q \<Longrightarrow> contains q s \<Longrightarrow> (get q s, get_ts q s) \<in># bag q \<and> key (get q s) = s"
    and add_full: "invar q \<Longrightarrow> size (bag q) = capacity q \<Longrightarrow> add q p t = (False, q)"
    and add_room: "invar q \<Longrightarrow> size (bag q) < capacity q \<Longrightarrow>
          \<exists>q'. add q p t = (True, q') \<and> invar q' \<and> capacity q' = capacity q \<and>
               bag q' = add_mset (p, t) (bag q)"
    and remove_present: "invar q \<Longrightarrow> contains q s \<Longrightarrow>
          invar (remove q s) \<and> capacity (remove q s) = capacity q \<and>
          bag (remove q s) = bag q - {#(get q s, get_ts q s)#}"
    and remove_absent: "invar q \<Longrightarrow> \<not> contains q s \<Longrightarrow> remove q s = q"
begin

lemma add_keeps: "invar q \<Longrightarrow> invar (snd (add q p t)) \<and> capacity (snd (add q p t)) = capacity q"
  using add_full [of q p t] add_room [of q p t] size_le [of q] by (cases "size (bag q) = capacity q") auto

lemma remove_keeps: "invar q \<Longrightarrow> invar (remove q s) \<and> capacity (remove q s) = capacity q"
  using remove_present [of q s] remove_absent [of q s] by (cases "contains q s") auto

lemma remove_size: "invar q \<Longrightarrow> contains q s \<Longrightarrow> size (bag q) = Suc (size (bag (remove q s)))"
  using remove_present [of q s] get_in [of q s] size_Suc_Diff1 [of "(get q s, get_ts q s)" "bag q"] by simp

lemma contains_after_add:
  "invar q \<Longrightarrow> contains (snd (add q p t)) s \<longleftrightarrow>
   contains q s \<or> (size (bag q) < capacity q \<and> key p = s)"
  using add_full [of q p t] add_room [of q p t] size_le [of q]
  by (cases "size (bag q) = capacity q") (force simp: contains_iff)+

text \<open>An entry that is added where no other carries its key can be fetched and removed again.\<close>

lemma add_then_remove:
  assumes "invar q" and "size (bag q) < capacity q" and "\<not> contains q (key p)"
  shows "get (snd (add q p t)) (key p) = p \<and> get_ts (snd (add q p t)) (key p) = t \<and>
    bag (remove (snd (add q p t)) (key p)) = bag q"
proof -
  obtain q' where q': "add q p t = (True, q')" "invar q'" "bag q' = add_mset (p, t) (bag q)"
    using add_room [OF assms(1,2), of p t] by blast
  then have c: "contains q' (key p)" by (auto simp: contains_iff)
  have "(get q' (key p), get_ts q' (key p)) \<in># add_mset (p, t) (bag q)" "key (get q' (key p)) = key p"
    using get_in [OF q'(2) c] q'(3) by auto
  then have "get q' (key p) = p \<and> get_ts q' (key p) = t"
    using assms(1,3) by (auto simp: contains_iff)
  with remove_present [OF q'(2) c] q' show ?thesis by simp
qed

end

section \<open>The array implements the contract\<close>

definition dq_invar :: "defer_queue \<Rightarrow> bool" where
  "dq_invar queue \<longleftrightarrow> dq_count queue \<le> dq_max_count queue \<and> length (elements queue) = dq_max_count queue"

definition wrapper_pair :: "rasta_redundancy_packet_wrapper \<Rightarrow> RastaRedundancyPacket \<times> u64" where
  "wrapper_pair e = (packet e, received_timestamp e)"

definition dq_bag :: "defer_queue \<Rightarrow> (RastaRedundancyPacket \<times> u64) multiset" where
  "dq_bag queue = image_mset wrapper_pair (mset (live queue))"

definition packet_key :: "RastaRedundancyPacket \<Rightarrow> u64" where
  "packet_key p = ucast (red_sequence_number p)"

lemma mset_qsort [simp]: "mset (qsort cmp xs) = mset xs"
proof -
  have ins: "mset (qsort_insert cmp x ys) = add_mset x (mset ys)" for x ys
    by (induction ys) auto
  show ?thesis by (induction xs) (simp_all add: qsort_def ins)
qed

lemma length_qsort [simp]: "length (qsort cmp xs) = length xs"
  by (metis mset_qsort size_mset)

lemma live_dq_sort: "dq_invar queue \<Longrightarrow> live (dq_sort queue) = qsort cmpfkt (live queue)"
  by (simp add: live_def dq_sort_def dq_invar_def)

lemma dq_invar_dq_sort: "dq_invar queue \<Longrightarrow> dq_invar (dq_sort queue)"
  by (simp add: live_def dq_sort_def dq_invar_def)

lemma find_index_from_Some:
  "find_index_from i es s = Some k \<Longrightarrow> i \<le> k \<and> k - i < length es \<and> wrapper_seq (es ! (k - i)) = s"
proof (induction es arbitrary: i)
  case (Cons e es)
  show ?case
  proof (cases "wrapper_seq e = s")
    case False
    with Cons have IH: "Suc i \<le> k \<and> k - Suc i < length es \<and> wrapper_seq (es ! (k - Suc i)) = s" by simp
    then have "k - i = Suc (k - Suc i)" by (simp add: Suc_diff_Suc Suc_le_eq)
    with IH show ?thesis by simp
  qed (use Cons.prems in simp)
qed simp

lemma find_index_from_None: "find_index_from i es s = None \<longleftrightarrow> (\<forall>e \<in> set es. wrapper_seq e \<noteq> s)"
  by (induction es arbitrary: i) auto

lemma find_index_Some:
  assumes "dq_invar queue" and "find_index queue s = Some k"
  shows "k < dq_count queue" and "live queue ! k = elements queue ! k"
    and "wrapper_seq (elements queue ! k) = s" and "elements queue ! k \<in> set (live queue)"
  using find_index_from_Some [of 0 "live queue" s k] assms
  by (auto simp: find_index_def live_def dq_invar_def in_set_conv_nth)

lemma wrapper_key [simp]: "packet_key (fst (wrapper_pair e)) = wrapper_seq e"
  by (simp add: packet_key_def wrapper_pair_def wrapper_seq_def)

text \<open>Moving the last live entry over the removed one.\<close>

lemma mset_swap_out:
  assumes "k < length xs"
  shows "mset (butlast (xs[k := last xs])) = mset xs - {#xs ! k#}"
proof -
  have ne: "xs \<noteq> []" using assms by auto
  then have "xs[k := last xs] \<noteq> []" by simp
  then have "mset (xs[k := last xs]) = add_mset (last (xs[k := last xs])) (mset (butlast (xs[k := last xs])))"
    by (metis append_butlast_last_id mset_append mset.simps union_mset_add_mset_right add.right_neutral)
  moreover have "last (xs[k := last xs]) = last xs"
    using ne by (simp add: last_list_update)
  moreover have "mset (xs[k := last xs]) = add_mset (last xs) (mset xs - {#xs ! k#})"
    using assms by (rule mset_update)
  ultimately show ?thesis by simp
qed

lemma live_remove:
  assumes "dq_invar queue" and "find_index queue s = Some k"
  shows "mset (live (deferqueue_remove queue s)) = mset (live queue) - {#elements queue ! k#}"
    and "dq_invar (deferqueue_remove queue s)"
    and "dq_max_count (deferqueue_remove queue s) = dq_max_count queue"
proof -
  note k = find_index_Some [OF assms]
  have inv: "dq_count queue \<le> length (elements queue)" "0 < dq_count queue"
    using assms(1) k(1) by (simp_all add: dq_invar_def)
  define es where "es = (if k \<noteq> dq_count queue - 1
    then (elements queue)[k := elements queue ! (dq_count queue - 1)] else elements queue)"
  define q where "q = queue\<lparr>elements := es, dq_count := dq_count queue - 1\<rparr>"
  have rem: "deferqueue_remove queue s = dq_sort q"
    by (simp add: deferqueue_remove_def assms(2) q_def es_def)
  have qi: "dq_invar q"
    using assms(1) by (auto simp: q_def es_def dq_invar_def)
  have last_live: "last (live queue) = elements queue ! (dq_count queue - 1)"
    using inv by (subst last_conv_nth) (auto simp: live_def min_def)
  have "live q = butlast ((live queue)[k := last (live queue)])"
  proof (rule nth_equalityI)
    show "length (live q) = length (butlast ((live queue)[k := last (live queue)]))"
      using qi inv by (simp add: live_def dq_invar_def q_def)
    fix i assume "i < length (live q)"
    then have i: "i < dq_count queue - 1" by (simp add: live_def q_def)
    show "live q ! i = butlast ((live queue)[k := last (live queue)]) ! i"
      using i inv k(1) unfolding last_live
      by (auto simp: live_def q_def es_def nth_butlast nth_list_update)
  qed
  then show "mset (live (deferqueue_remove queue s)) = mset (live queue) - {#elements queue ! k#}"
    using mset_swap_out [of k "live queue"] k(1,2) inv by (simp add: rem live_dq_sort [OF qi]) (simp add: live_def)
  show "dq_invar (deferqueue_remove queue s)" by (simp add: rem dq_invar_dq_sort [OF qi])
  show "dq_max_count (deferqueue_remove queue s) = dq_max_count queue"
    by (simp add: rem dq_sort_def q_def)
qed

lemma live_add:
  fixes p :: RastaRedundancyPacket and t :: u64
  assumes "dq_invar queue" and "\<not> deferqueue_isfull queue"
  defines "e \<equiv> \<lparr>packet = p, received_timestamp = t\<rparr>"
  shows "fst (deferqueue_add queue p t)"
    and "mset (live (snd (deferqueue_add queue p t))) = add_mset e (mset (live queue))"
    and "dq_invar (snd (deferqueue_add queue p t))"
    and "dq_max_count (snd (deferqueue_add queue p t)) = dq_max_count queue"
proof -
  define q where "q = queue\<lparr>elements := (elements queue)[dq_count queue := e], dq_count := dq_count queue + 1\<rparr>"
  have add: "deferqueue_add queue p t = (True, dq_sort q)"
    using assms(2) by (simp add: deferqueue_add_def deferqueue_isfull_def q_def e_def)
  have room: "dq_count queue < length (elements queue)"
    using assms(1,2) by (simp add: dq_invar_def deferqueue_isfull_def)
  have qi: "dq_invar q"
    using assms(1) room by (simp add: q_def dq_invar_def)
  have "live q = live queue @ [e]"
    using room by (simp add: live_def q_def take_Suc_conv_app_nth)
  then show "mset (live (snd (deferqueue_add queue p t))) = add_mset e (mset (live queue))"
    by (simp add: add live_dq_sort [OF qi])
  show "fst (deferqueue_add queue p t)" by (simp add: add)
  show "dq_invar (snd (deferqueue_add queue p t))" by (simp add: add dq_invar_dq_sort [OF qi])
  show "dq_max_count (snd (deferqueue_add queue p t)) = dq_max_count queue"
    by (simp add: add dq_sort_def q_def)
qed

lemma size_dq_bag: "dq_invar queue \<Longrightarrow> size (dq_bag queue) = dq_count queue"
  by (simp add: dq_bag_def live_def dq_invar_def)

interpretation defer_q: packet_buffer dq_invar dq_bag dq_max_count packet_key deferqueue_contains
  deferqueue_get deferqueue_get_ts deferqueue_add deferqueue_remove
proof (unfold_locales, goal_cases)
  case (1 q)
  then show ?case using size_dq_bag [of q] by (simp add: dq_invar_def)
next
  case (2 q s)
  then show ?case
    by (auto simp: deferqueue_contains_def find_index_def find_index_from_None dq_bag_def
        simp del: not_None_eq)
next
  case (3 q s)
  then obtain k where "find_index q s = Some k" by (auto simp: deferqueue_contains_def)
  with find_index_Some [OF 3(1) this] show ?case
    by (force simp: deferqueue_get_def deferqueue_get_ts_def dq_bag_def wrapper_pair_def
        packet_key_def wrapper_seq_def)
next
  case (4 q p t)
  then show ?case using size_dq_bag [of q] by (simp add: deferqueue_add_def)
next
  case (5 q p t)
  then have "\<not> deferqueue_isfull q" using size_dq_bag [of q] by (simp add: deferqueue_isfull_def)
  with live_add [OF 5(1) this, of p t] show ?case
    by (cases "deferqueue_add q p t") (simp add: dq_bag_def wrapper_pair_def)
next
  case (6 q s)
  then obtain k where k: "find_index q s = Some k" by (auto simp: deferqueue_contains_def)
  have "image_mset wrapper_pair (mset (live q) - {#elements q ! k#}) =
      dq_bag q - {#wrapper_pair (elements q ! k)#}"
    using find_index_Some(4) [OF 6(1) k] by (simp add: dq_bag_def image_mset_Diff)
  with live_remove [OF 6(1) k] k show ?case
    by (simp add: dq_bag_def deferqueue_get_def deferqueue_get_ts_def wrapper_pair_def)
next
  case (7 q s)
  then show ?case by (simp add: deferqueue_contains_def deferqueue_remove_def)
qed

section \<open>Order of the live entries\<close>

text \<open>The comparison is right while all times lie within \<open>2\<^sup>3\<^sup>1\<close> milliseconds.\<close>

definition times_close :: "rasta_redundancy_packet_wrapper set \<Rightarrow> bool" where
  "times_close es \<longleftrightarrow> (\<forall>a \<in> es. \<forall>b \<in> es.
     \<bar>int (unat (received_timestamp a)) - int (unat (received_timestamp b))\<bar> < 2 ^ 31)"

lemma sint_small_diff:
  fixes x y :: u64
  assumes "\<bar>int (unat x) - int (unat y)\<bar> < 2 ^ 31"
  shows "sint (ucast (x - y) :: u32) = int (unat x) - int (unat y)"
proof -
  let ?d = "int (unat x) - int (unat y)"
  have "uint (x - y) = ?d mod 2 ^ 64"
    by (simp add: uint_word_ariths)
  then have "uint (ucast (x - y) :: u32) = ?d mod 2 ^ 64 mod 2 ^ 32"
    by (simp add: unsigned_ucast_eq take_bit_eq_mod)
  also have "\<dots> = ?d mod 2 ^ 32"
    by (rule mod_mod_cancel) simp
  finally have "sint (ucast (x - y) :: u32) = signed_take_bit 31 (?d mod 2 ^ 32)"
    by (simp add: sint_uint)
  also have "\<dots> = signed_take_bit 31 ?d"
    by (simp only: take_bit_eq_mod [symmetric] signed_take_bit_take_bit) simp
  also have "\<dots> = ?d"
    using assms by (intro signed_take_bit_int_eq_self) auto
  finally show ?thesis .
qed

lemma cmpfkt_le:
  assumes "times_close es" and "a \<in> es" and "b \<in> es"
  shows "cmpfkt a b \<le> 0 \<longleftrightarrow> received_timestamp a \<le> received_timestamp b"
  using assms sint_small_diff [of "received_timestamp a" "received_timestamp b"]
  by (simp add: cmpfkt_def times_close_def word_le_def)

lemma set_qsort_insert [simp]: "set (qsort_insert cmp x ys) = insert x (set ys)"
  by (induction ys) auto

lemma qsort_insert_sorted:
  assumes "times_close es" and "x \<in> es" and "set ys \<subseteq> es"
    and "sorted_wrt (\<lambda>a b. received_timestamp a \<le> received_timestamp b) ys"
  shows "sorted_wrt (\<lambda>a b. received_timestamp a \<le> received_timestamp b) (qsort_insert cmpfkt x ys)"
  using assms(3,4)
proof (induction ys)
  case (Cons y ys)
  then show ?case
    using cmpfkt_le [OF assms(1,2), of y] by (auto intro: order_trans)
qed simp

lemma qsort_sorted:
  assumes "times_close (set xs)"
  shows "sorted_wrt (\<lambda>a b. received_timestamp a \<le> received_timestamp b) (qsort cmpfkt xs)"
proof -
  have set_eq: "set (qsort cmpfkt ys) = set ys" for ys
    by (metis mset_qsort set_mset_mset)
  have "sorted_wrt (\<lambda>a b. received_timestamp a \<le> received_timestamp b) (qsort cmpfkt ys)"
    if "set ys \<subseteq> set xs" for ys
    using that
  proof (induction ys)
    case (Cons y ys)
    then show ?case
      using set_eq [of ys] qsort_insert_sorted [OF assms, of y "qsort cmpfkt ys"]
      by (simp add: qsort_def)
  qed (simp add: qsort_def)
  then show ?thesis by simp
qed

section \<open>Properties\<close>

text \<open>
  C31: The array-based defer queue behaves as a bounded bag of packets: adding to a queue with room
  keeps every entry and adds the new one, adding to a full one changes nothing and says so; a
  contained sequence number is fetched from the bag, and removing it takes exactly the fetched entry
  out; capacity and the bounds of the array are kept.
\<close>

theorem deferqueue_is_bounded_bag:
  assumes "dq_invar q"
  shows "(deferqueue_isfull q \<longrightarrow> deferqueue_add q p t = (False, q)) \<and>
    (\<not> deferqueue_isfull q \<longrightarrow>
       (\<exists>q'. deferqueue_add q p t = (True, q') \<and> dq_invar q' \<and> dq_bag q' = add_mset (p, t) (dq_bag q))) \<and>
    (deferqueue_contains q s \<longleftrightarrow> (\<exists>x \<in># dq_bag q. packet_key (fst x) = s)) \<and>
    (deferqueue_contains q s \<longrightarrow>
       packet_key (deferqueue_get q s) = s \<and> (deferqueue_get q s, deferqueue_get_ts q s) \<in># dq_bag q \<and>
       dq_bag (deferqueue_remove q s) = dq_bag q - {#(deferqueue_get q s, deferqueue_get_ts q s)#}) \<and>
    dq_invar (deferqueue_remove q s)"
proof -
  have full: "deferqueue_isfull q \<longleftrightarrow> size (dq_bag q) = dq_max_count q"
    using size_dq_bag [OF assms] by (simp add: deferqueue_isfull_def)
  then have "\<not> deferqueue_isfull q \<Longrightarrow> size (dq_bag q) < dq_max_count q"
    using defer_q.size_le [OF assms] by simp
  with full show ?thesis
    using assms defer_q.add_full [of q p t] defer_q.add_room [of q p t] defer_q.contains_iff [of q s]
      defer_q.get_in [of q s] defer_q.remove_present [of q s] defer_q.remove_keeps [of q s]
    by blast
qed

definition example_queue :: defer_queue where
  "example_queue =
     \<lparr>elements = [\<lparr>packet = example_red_packet, received_timestamp = 50\<rparr>,
                  \<lparr>packet = zero_redundancy_packet, received_timestamp = 0\<rparr>],
      dq_count = 1, dq_max_count = 2\<rparr>"

lemma example_queue_invar: "dq_invar example_queue"
  by (simp add: example_queue_def dq_invar_def)

lemma example_queue_room: "\<not> deferqueue_isfull example_queue"
  by (simp add: example_queue_def deferqueue_isfull_def)

theorem deferqueue_is_bounded_bag_witness:
  "\<exists>q'. deferqueue_add example_queue zero_redundancy_packet 60 = (True, q') \<and>
     dq_bag q' = add_mset (zero_redundancy_packet, 60) (dq_bag example_queue)"
  using deferqueue_is_bounded_bag [OF example_queue_invar, of zero_redundancy_packet 60 0]
    example_queue_room by blast

text \<open>
  After an insertion the live entries are in the order of their receive times, as long as all
  times lie within \<open>2\<^sup>3\<^sup>1\<close> milliseconds of each other (the comparison function cuts the difference
  to 32 bits).
\<close>

theorem deferqueue_sorted_after_add:
  assumes "dq_invar q" and "\<not> deferqueue_isfull q"
    and "times_close (insert \<lparr>packet = p, received_timestamp = t\<rparr> (set (live q)))"
  shows "sorted_wrt (\<lambda>a b. received_timestamp a \<le> received_timestamp b)
    (live (snd (deferqueue_add q p t)))"
proof -
  define e where "e = \<lparr>packet = p, received_timestamp = t\<rparr>"
  define q1 where "q1 = q\<lparr>elements := (elements q)[dq_count q := e], dq_count := dq_count q + 1\<rparr>"
  have room: "dq_count q < length (elements q)"
    using assms(1,2) by (simp add: dq_invar_def deferqueue_isfull_def)
  then have live1: "live q1 = live q @ [e]" and inv1: "dq_invar q1"
    using assms(1) by (simp_all add: live_def q1_def take_Suc_conv_app_nth dq_invar_def)
  have "snd (deferqueue_add q p t) = dq_sort q1"
    using assms(2) by (simp add: deferqueue_add_def deferqueue_isfull_def q1_def e_def)
  moreover have "times_close (set (live q1))"
    using assms(3) by (simp add: live1 e_def)
  ultimately show ?thesis
    using qsort_sorted [of "live q1"] live_dq_sort [OF inv1] by simp
qed

theorem deferqueue_sorted_after_add_witness:
  "sorted_wrt (\<lambda>a b. received_timestamp a \<le> received_timestamp b)
    (live (snd (deferqueue_add example_queue zero_redundancy_packet 40)))"
proof (rule deferqueue_sorted_after_add [OF example_queue_invar example_queue_room])
  show "times_close (insert \<lparr>packet = zero_redundancy_packet, received_timestamp = 40\<rparr>
      (set (live example_queue)))"
    by (simp add: example_queue_def live_def times_close_def)
qed

end
