(* ===== verification/Rasta_Fifo.thy ===== *)
theory Rasta_Fifo
  imports Rasta_Util
begin

text \<open>
  The FIFO of \<open>util/fifo.c\<close>, twice. The first model follows the pointers: a heap of
  \<open>struct fifo_element\<close> cells, the head and tail pointers and the size counter of \<open>fifo_t\<close>; a
  dereference of a null or freed cell is \<open>None\<close>. The second is the abstract bounded queue the
  connection layer is written over. Both satisfy the contract \<open>bounded_queue\<close>, and the pointer
  model refines the abstract one: no operation dereferences a dangling pointer, and the elements
  come out in the order they went in.
\<close>

section \<open>The heap of cells\<close>

type_synonym addr = nat

record 'a fifo_element =
  elem_data :: 'a
  next_elem :: "addr option"

text \<open>\<open>brk\<close> is the next address \<open>rmalloc\<close> hands out; freed addresses are not reused.\<close>

record 'a heap =
  cells :: "addr \<rightharpoonup> 'a fifo_element"
  brk :: addr

definition heap_malloc :: "'a heap \<Rightarrow> 'a fifo_element \<Rightarrow> addr \<times> 'a heap" where
  "heap_malloc h e = (brk h, h\<lparr>cells := (cells h)(brk h \<mapsto> e), brk := Suc (brk h)\<rparr>)"

definition heap_free :: "'a heap \<Rightarrow> addr \<Rightarrow> 'a heap" where
  "heap_free h a = h\<lparr>cells := (cells h)(a := None)\<rparr>"

definition heap_set_next :: "'a heap \<Rightarrow> addr \<Rightarrow> addr option \<Rightarrow> 'a heap option" where
  "heap_set_next h a p =
     map_option (\<lambda>e. h\<lparr>cells := (cells h)(a \<mapsto> e\<lparr>next_elem := p\<rparr>)\<rparr>) (cells h a)"

section \<open>The operations of fifo.c\<close>

record fifo_t =
  fifo_size :: u32
  fifo_max_size :: u32
  fifo_head :: "addr option"
  fifo_tail :: "addr option"

definition fifo_init :: "u32 \<Rightarrow> fifo_t" where
  "fifo_init n = \<lparr>fifo_size = 0, fifo_max_size = n, fifo_head = None, fifo_tail = None\<rparr>"

definition fifo_pop :: "'a heap \<times> fifo_t \<Rightarrow> ('a option \<times> 'a heap \<times> fifo_t) option" where
  "fifo_pop hf = (case hf of (h, f) \<Rightarrow>
     (case (fifo_head f, fifo_tail f) of
        (Some a, Some _) \<Rightarrow>
          if fifo_size f > 0 then do {
            e \<leftarrow> cells h a;
            Some (Some (elem_data e), heap_free h a,
                  f\<lparr>fifo_head := next_elem e,
                    fifo_tail := (if fifo_size f = 1 then None else fifo_tail f),
                    fifo_size := fifo_size f - 1\<rparr>)
          } else Some (None, h, f)
      | _ \<Rightarrow> Some (None, h, f)))"

text \<open>The element is a pointer: \<open>None\<close> is \<open>NULL\<close>, which the operation refuses.\<close>

definition fifo_push :: "'a heap \<times> fifo_t \<Rightarrow> 'a option \<Rightarrow> (bool \<times> 'a heap \<times> fifo_t) option" where
  "fifo_push hf element = (case hf of (h, f) \<Rightarrow>
     (case element of
        None \<Rightarrow> Some (False, h, f)
      | Some d \<Rightarrow>
          if fifo_size f = fifo_max_size f then Some (False, h, f)
          else (let (a, h1) = heap_malloc h \<lparr>elem_data = d, next_elem = None\<rparr> in
            if fifo_size f = 0
            then Some (True, h1, f\<lparr>fifo_head := Some a, fifo_tail := Some a, fifo_size := fifo_size f + 1\<rparr>)
            else do {
              t \<leftarrow> fifo_tail f;
              h2 \<leftarrow> heap_set_next h1 t (Some a);
              Some (True, h2, f\<lparr>fifo_tail := Some a, fifo_size := fifo_size f + 1\<rparr>)
            })))"

definition fifo_get_size :: "fifo_t \<Rightarrow> u32" where
  "fifo_get_size f = fifo_size f"

definition fifo_full :: "fifo_t \<Rightarrow> bool" where
  "fifo_full f \<longleftrightarrow> fifo_size f = fifo_max_size f"

text \<open>
  The loop of \<open>fifo_destroy\<close>: \<open>for (i = 0; i < size; ++i) fifo_pop\<close>. Every pop
  may lower the bound the next test reads.
\<close>

lemma fifo_pop_size_le:
  assumes "fifo_pop hf = Some (r, hf')"
  shows "unat (fifo_size (snd hf')) \<le> unat (fifo_size (snd hf))"
proof -
  have "unat (s - 1) \<le> unat s" if "0 < s" for s :: u32
    using that by (simp add: unat_minus_one word_gt_0)
  with assms show ?thesis
    by (auto simp: fifo_pop_def split: prod.splits option.splits if_splits elim!: bind_SomeE)
qed

function fifo_destroy_loop :: "nat \<Rightarrow> 'a heap \<times> fifo_t \<Rightarrow> ('a heap \<times> fifo_t) option" where
  "fifo_destroy_loop i hf =
     (if i < unat (fifo_size (snd hf))
      then (case fifo_pop hf of
              None \<Rightarrow> None
            | Some (_, hf') \<Rightarrow> fifo_destroy_loop (Suc i) hf')
      else Some hf)"
  by pat_completeness auto
termination
  by (relation "measure (\<lambda>(i, hf). unat (fifo_size (snd hf)) - i)")
    (auto dest!: fifo_pop_size_le)

declare fifo_destroy_loop.simps [simp del]

definition fifo_destroy :: "'a heap \<times> fifo_t \<Rightarrow> 'a heap option" where
  "fifo_destroy hf = map_option fst (fifo_destroy_loop 0 hf)"

section \<open>The abstract queue\<close>

record 'a queue =
  items :: "'a list"
  capacity :: u32

definition queue_init :: "u32 \<Rightarrow> 'a queue" where
  "queue_init n = \<lparr>items = [], capacity = n\<rparr>"

definition queue_full :: "'a queue \<Rightarrow> bool" where
  "queue_full q \<longleftrightarrow> length (items q) = unat (capacity q)"

definition queue_size :: "'a queue \<Rightarrow> u32" where
  "queue_size q = of_nat (length (items q))"

definition queue_pop :: "'a queue \<Rightarrow> 'a option \<times> 'a queue" where
  "queue_pop q = (case items q of [] \<Rightarrow> (None, q) | x # xs \<Rightarrow> (Some x, q\<lparr>items := xs\<rparr>))"

definition queue_push :: "'a queue \<Rightarrow> 'a \<Rightarrow> bool \<times> 'a queue" where
  "queue_push q x =
     (if queue_full q then (False, q) else (True, q\<lparr>items := items q @ [x]\<rparr>))"

section \<open>The shape of a well-formed FIFO\<close>

text \<open>\<open>chain h p as xs\<close>: following \<open>next\<close> from \<open>p\<close> visits the cells \<open>as\<close>, which hold \<open>xs\<close>.\<close>

fun chain :: "'a heap \<Rightarrow> addr option \<Rightarrow> addr list \<Rightarrow> 'a list \<Rightarrow> bool" where
  "chain h p [] [] = (p = None)"
| "chain h p (a # as) (x # xs) =
     (p = Some a \<and> (\<exists>q. cells h a = Some \<lparr>elem_data = x, next_elem = q\<rparr> \<and> chain h q as xs))"
| "chain h p _ _ = False"

definition fifo_rep :: "'a heap \<Rightarrow> fifo_t \<Rightarrow> addr list \<Rightarrow> 'a list \<Rightarrow> bool" where
  "fifo_rep h f as xs \<longleftrightarrow>
     chain h (fifo_head f) as xs \<and> distinct as \<and> (\<forall>a \<in> set as. a < brk h) \<and>
     fifo_tail f = (if as = [] then None else Some (last as)) \<and>
     fifo_size f = of_nat (length xs) \<and> length xs \<le> unat (fifo_max_size f)"

text \<open>The contents, read off the heap.\<close>

fun walk :: "nat \<Rightarrow> 'a heap \<Rightarrow> addr option \<Rightarrow> 'a list" where
  "walk 0 h p = []"
| "walk (Suc n) h p =
     (case p of None \<Rightarrow> []
      | Some a \<Rightarrow> (case cells h a of None \<Rightarrow> []
                   | Some e \<Rightarrow> elem_data e # walk n h (next_elem e)))"

definition fifo_contents :: "'a heap \<times> fifo_t \<Rightarrow> 'a list" where
  "fifo_contents hf = walk (unat (fifo_size (snd hf))) (fst hf) (fifo_head (snd hf))"

definition fifo_invar :: "'a heap \<times> fifo_t \<Rightarrow> bool" where
  "fifo_invar hf \<longleftrightarrow> (\<exists>as xs. fifo_rep (fst hf) (snd hf) as xs)"

lemma chain_length: "chain h p as xs \<Longrightarrow> length as = length xs"
  by (induction h p as xs rule: chain.induct) auto

lemma chain_frame:
  assumes "chain h p as xs" and "\<forall>a \<in> set as. cells h' a = cells h a"
  shows "chain h' p as xs"
  using assms by (induction h p as xs rule: chain.induct) auto

lemma chain_snoc:
  assumes "chain h p as xs" and "as \<noteq> []"
    and "\<forall>b \<in> set (butlast as). cells h' b = cells h b"
    and "cells h' (last as) = map_option (next_elem_update (\<lambda>_. Some c)) (cells h (last as))"
    and "cells h' c = Some \<lparr>elem_data = d, next_elem = None\<rparr>"
  shows "chain h' p (as @ [c]) (xs @ [d])"
  using assms
proof (induction h p as xs rule: chain.induct)
  case (2 h p a as x xs)
  then obtain q where pa: "p = Some a"
    and cell: "cells h a = Some \<lparr>elem_data = x, next_elem = q\<rparr>" and rest: "chain h q as xs"
    by auto
  show ?case
  proof (cases "as = []")
    case True
    with rest have "xs = []"
      by (cases xs) auto
    with 2 True pa cell show ?thesis by simp
  next
    case False
    with 2 rest have "chain h' q (as @ [c]) (xs @ [d])"
      by simp
    with 2(4) False pa cell show ?thesis by simp
  qed
qed auto

lemma chain_last_cell:
  "chain h p as xs \<Longrightarrow> as \<noteq> [] \<Longrightarrow> cells h (last as) \<noteq> None"
  by (induction h p as xs rule: chain.induct) (auto split: if_splits)

lemma walk_chain: "chain h p as xs \<Longrightarrow> walk (length xs) h p = xs"
  by (induction h p as xs rule: chain.induct) auto

lemma fifo_rep_size:
  assumes "fifo_rep h f as xs"
  shows "unat (fifo_size f) = length xs"
proof -
  have "length xs < 2 ^ 32"
    using assms unat_lt [of "fifo_max_size f"] by (simp add: fifo_rep_def)
  with assms show ?thesis
    by (simp add: fifo_rep_def unat_of_nat_bounded)
qed

lemma fifo_rep_contents: "fifo_rep h f as xs \<Longrightarrow> fifo_contents (h, f) = xs"
  using fifo_rep_size [of h f as xs] by (auto simp: fifo_contents_def fifo_rep_def intro: walk_chain)

lemma fifo_invar_rep:
  assumes "fifo_invar (h, f)"
  obtains as where "fifo_rep h f as (fifo_contents (h, f))"
  using assms fifo_rep_contents by (fastforce simp: fifo_invar_def)

lemma fifo_rep_invar: "fifo_rep h f as xs \<Longrightarrow> fifo_invar (h, f)"
  by (auto simp: fifo_invar_def)

section \<open>Each operation on a well-formed FIFO\<close>

lemma fifo_rep_init: "fifo_rep h (fifo_init n) [] []"
  by (simp add: fifo_rep_def fifo_init_def)

lemma fifo_pop_empty: "fifo_rep h f as [] \<Longrightarrow> fifo_pop (h, f) = Some (None, h, f)"
  by (cases as) (auto simp: fifo_rep_def fifo_pop_def)

lemma fifo_pop_rep:
  assumes "fifo_rep h f as (x # xs)"
  shows "\<exists>as' h' f'. fifo_pop (h, f) = Some (Some x, h', f') \<and> fifo_rep h' f' as' xs \<and>
           fifo_max_size f' = fifo_max_size f \<and> as = hd as # as' \<and>
           cells h' = (cells h)(hd as := None) \<and> brk h' = brk h"
proof -
  from assms obtain a as' q where as: "as = a # as'"
    and cell: "cells h a = Some \<lparr>elem_data = x, next_elem = q\<rparr>" and rest: "chain h q as' xs"
    and dist: "a \<notin> set as'" "distinct as'" and hd: "fifo_head f = Some a"
    and tl: "fifo_tail f = Some (last as)" and sz: "fifo_size f = of_nat (length (x # xs))"
    by (cases as) (auto simp: fifo_rep_def)
  let ?h = "heap_free h a"
  let ?f = "f\<lparr>fifo_head := q, fifo_tail := (if fifo_size f = 1 then None else fifo_tail f),
              fifo_size := fifo_size f - 1\<rparr>"
  have n: "unat (fifo_size f) = Suc (length xs)"
    using fifo_rep_size [OF assms] by simp
  then have "0 < fifo_size f" and one: "fifo_size f = 1 \<longleftrightarrow> xs = []"
    by (auto simp: word_gt_0 word_unat_eq_iff)
  then have pop: "fifo_pop (h, f) = Some (Some x, ?h, ?f)"
    by (simp add: fifo_pop_def hd tl cell)
  have "chain ?h q as' xs"
    by (rule chain_frame [OF rest]) (use dist in \<open>auto simp: heap_free_def\<close>)
  moreover have "as' = [] \<longleftrightarrow> xs = []"
    using chain_length [OF rest] by auto
  ultimately have "fifo_rep ?h ?f as' xs"
    using assms dist one sz tl by (auto simp: fifo_rep_def as heap_free_def)
  with pop show ?thesis
    by (auto simp: as heap_free_def)
qed

lemma fifo_push_null: "fifo_push (h, f) None = Some (False, h, f)"
  by (simp add: fifo_push_def)

lemma fifo_push_full:
  assumes "fifo_rep h f as xs" and "length xs = unat (fifo_max_size f)"
  shows "fifo_push (h, f) (Some d) = Some (False, h, f)"
proof -
  have "fifo_size f = fifo_max_size f"
    using fifo_rep_size [OF assms(1)] assms(2) by (simp add: word_unat_eq_iff)
  then show ?thesis by (simp add: fifo_push_def)
qed

lemma fifo_push_rep:
  assumes rep: "fifo_rep h f as xs" and room: "length xs < unat (fifo_max_size f)"
  shows "\<exists>h' f'. fifo_push (h, f) (Some d) = Some (True, h', f') \<and>
           fifo_rep h' f' (as @ [brk h]) (xs @ [d]) \<and> fifo_max_size f' = fifo_max_size f"
proof -
  let ?a = "brk h" and ?new = "\<lparr>elem_data = d, next_elem = None\<rparr>"
  let ?h1 = "h\<lparr>cells := (cells h)(brk h \<mapsto> ?new), brk := Suc (brk h)\<rparr>"
  from rep have ch: "chain h (fifo_head f) as xs" and fresh: "?a \<notin> set as"
    and len: "length as = length xs"
    by (auto simp: fifo_rep_def dest: chain_length)
  have sz: "unat (fifo_size f) = length xs"
    by (rule fifo_rep_size [OF rep])
  have not_full: "fifo_size f \<noteq> fifo_max_size f"
    using sz room by auto
  show ?thesis
  proof (cases "as = []")
    case True
    with len sz have xs: "xs = []" and z: "fifo_size f = 0"
      by (auto simp: unat_eq_0)
    with True rep room not_full show ?thesis
      by (auto simp: fifo_push_def heap_malloc_def fifo_rep_def Suc_le_eq)
  next
    case False
    with len have "xs \<noteq> []" by auto
    with sz have nz: "fifo_size f \<noteq> 0" by auto
    from chain_last_cell [OF ch False] obtain e where e: "cells h (last as) = Some e" by auto
    from False fresh have ne: "last as \<noteq> ?a" by (metis last_in_set)
    let ?h2 = "?h1\<lparr>cells := (cells ?h1)(last as \<mapsto> e\<lparr>next_elem := Some ?a\<rparr>)\<rparr>"
    let ?f2 = "f\<lparr>fifo_tail := Some ?a, fifo_size := fifo_size f + 1\<rparr>"
    have push: "fifo_push (h, f) (Some d) = Some (True, ?h2, ?f2)"
      using rep False nz not_full e ne
      by (simp add: fifo_push_def heap_malloc_def heap_set_next_def fifo_rep_def)
    have "chain ?h2 (fifo_head f) (as @ [?a]) (xs @ [d])"
    proof (rule chain_snoc [OF ch False])
      show "\<forall>b \<in> set (butlast as). cells ?h2 b = cells h b"
        using rep fresh False
        by (auto simp: fifo_rep_def last_notin_butlast dest: in_set_butlastD)
    qed (use e ne in auto)
    then have "fifo_rep ?h2 ?f2 (as @ [?a]) (xs @ [d])"
      using rep fresh room by (auto simp: fifo_rep_def Suc_le_eq)
    with push show ?thesis by auto
  qed
qed

section \<open>The contract of a bounded queue\<close>

text \<open>Clients that push a list and pop a number of elements through any such interface.\<close>

fun push_all :: "('q \<Rightarrow> 'a \<Rightarrow> (bool \<times> 'q) option) \<Rightarrow> 'q \<Rightarrow> 'a list \<Rightarrow> 'q option" where
  "push_all push q [] = Some q"
| "push_all push q (x # xs) = do { (_, q') \<leftarrow> push q x; push_all push q' xs }"

fun pop_n :: "('q \<Rightarrow> ('a option \<times> 'q) option) \<Rightarrow> nat \<Rightarrow> 'q \<Rightarrow> ('a option list \<times> 'q) option" where
  "pop_n pop 0 q = Some ([], q)"
| "pop_n pop (Suc n) q = do { (x, q') \<leftarrow> pop q; (xs, q'') \<leftarrow> pop_n pop n q'; Some (x # xs, q'') }"

locale bounded_queue =
  fixes pop :: "'q \<Rightarrow> ('a option \<times> 'q) option"
    and push :: "'q \<Rightarrow> 'a \<Rightarrow> (bool \<times> 'q) option"
    and contents :: "'q \<Rightarrow> 'a list"
    and cap :: "'q \<Rightarrow> nat"
    and invar :: "'q \<Rightarrow> bool"
  assumes bounded: "invar q \<Longrightarrow> length (contents q) \<le> cap q"
    and pop_empty: "invar q \<Longrightarrow> contents q = [] \<Longrightarrow> pop q = Some (None, q)"
    and pop_first: "invar q \<Longrightarrow> contents q = x # xs \<Longrightarrow>
      \<exists>q'. pop q = Some (Some x, q') \<and> invar q' \<and> contents q' = xs \<and> cap q' = cap q"
    and push_refused: "invar q \<Longrightarrow> length (contents q) = cap q \<Longrightarrow> push q x = Some (False, q)"
    and push_last: "invar q \<Longrightarrow> length (contents q) < cap q \<Longrightarrow>
      \<exists>q'. push q x = Some (True, q') \<and> invar q' \<and> contents q' = contents q @ [x] \<and> cap q' = cap q"
begin

lemma push_all_contents:
  "invar q \<Longrightarrow> \<exists>q'. push_all push q xs = Some q' \<and> invar q' \<and> cap q' = cap q \<and>
     contents q' = take (cap q) (contents q @ xs)"
proof (induction xs arbitrary: q)
  case Nil
  then show ?case using bounded [of q] by simp
next
  case (Cons x xs)
  show ?case
  proof (cases "length (contents q) < cap q")
    case True
    from push_last [OF Cons.prems True] obtain q' where
      q': "push q x = Some (True, q')" "invar q'" "contents q' = contents q @ [x]" "cap q' = cap q"
      by blast
    with Cons.IH [of q'] show ?thesis by auto
  next
    case False
    then have "length (contents q) = cap q"
      using bounded [OF Cons.prems] by simp
    with Cons.IH [of q] Cons.prems push_refused [of q x] show ?thesis by auto
  qed
qed

lemma pop_n_contents:
  "invar q \<Longrightarrow> n \<le> length (contents q) \<Longrightarrow>
   \<exists>q'. pop_n pop n q = Some (map Some (take n (contents q)), q') \<and> invar q' \<and>
     contents q' = drop n (contents q)"
proof (induction n arbitrary: q)
  case 0
  then show ?case by simp
next
  case (Suc n)
  then obtain x xs where c: "contents q = x # xs"
    by (cases "contents q") auto
  from pop_first [OF Suc.prems(1) c] obtain q' where
    "pop q = Some (Some x, q')" "invar q'" "contents q' = xs" by blast
  with Suc c Suc.IH [of q'] show ?case by auto
qed

lemma first_in_first_out:
  assumes "invar q" and "contents q = []"
  shows "\<exists>q' q''. push_all push q xs = Some q' \<and>
     pop_n pop (min (cap q) (length xs)) q' = Some (map Some (take (cap q) xs), q'') \<and>
     contents q'' = []"
proof -
  from push_all_contents [OF assms(1)] assms(2) obtain q' where
    q': "push_all push q xs = Some q'" "invar q'" "contents q' = take (cap q) xs"
    by auto
  moreover have "min (cap q) (length xs) = length (contents q')"
    by (simp add: q')
  ultimately show ?thesis
    using pop_n_contents [of q' "length (contents q')"] by (auto simp: min_def)
qed

end

text \<open>The pointer implementation and the abstract queue both meet the contract.\<close>

interpretation ptr_fifo: bounded_queue fifo_pop "\<lambda>hf x. fifo_push hf (Some x)" fifo_contents
  "\<lambda>hf. unat (fifo_max_size (snd hf))" fifo_invar
proof (unfold_locales, goal_cases)
  case (1 q)
  then show ?case by (cases q) (auto simp: fifo_rep_def elim: fifo_invar_rep)
next
  case (2 q)
  then obtain h f as where "q = (h, f)" and "fifo_rep h f as []"
    by (cases q) (auto elim: fifo_invar_rep)
  then show ?case by (simp add: fifo_pop_empty)
next
  case (3 q x xs)
  then obtain h f as where q: "q = (h, f)" and rep: "fifo_rep h f as (x # xs)"
    by (cases q) (auto elim: fifo_invar_rep)
  from fifo_pop_rep [OF rep] show ?case
    by (auto simp: q intro: fifo_rep_invar fifo_rep_contents)
next
  case (4 q x)
  then show ?case by (cases q) (auto intro: fifo_push_full elim: fifo_invar_rep)
next
  case (5 q x)
  then obtain h f as where q: "q = (h, f)" and rep: "fifo_rep h f as (fifo_contents q)"
    and room: "length (fifo_contents q) < unat (fifo_max_size f)"
    by (cases q) (auto elim: fifo_invar_rep)
  from fifo_push_rep [OF rep room, of x] show ?case
    by (auto simp: q intro: fifo_rep_invar fifo_rep_contents)
qed

definition queue_invar :: "'a queue \<Rightarrow> bool" where
  "queue_invar q \<longleftrightarrow> length (items q) \<le> unat (capacity q)"

interpretation abs_queue: bounded_queue "\<lambda>q. Some (queue_pop q)" "\<lambda>q x. Some (queue_push q x)"
  items "\<lambda>q. unat (capacity q)" queue_invar
  by unfold_locales (auto simp: queue_pop_def queue_push_def queue_full_def queue_invar_def)

lemma queue_push_invar [intro]: "queue_invar q \<Longrightarrow> queue_invar (snd (queue_push q x))"
  by (auto simp: queue_push_def queue_full_def queue_invar_def)

lemma queue_pop_invar [intro]: "queue_invar q \<Longrightarrow> queue_invar (snd (queue_pop q))"
  by (auto simp: queue_pop_def queue_invar_def split: list.splits)

lemma queue_init_invar [intro, simp]: "queue_invar (queue_init n)"
  by (simp add: queue_invar_def queue_init_def)

lemma capacity_queue_push [simp]: "capacity (snd (queue_push q x)) = capacity q"
  by (simp add: queue_push_def)

lemma capacity_queue_pop [simp]: "capacity (snd (queue_pop q)) = capacity q"
  by (simp add: queue_pop_def split: list.splits)

section \<open>Refinement\<close>

definition fifo_abs :: "'a heap \<times> fifo_t \<Rightarrow> 'a queue" where
  "fifo_abs hf = \<lparr>items = fifo_contents hf, capacity = fifo_max_size (snd hf)\<rparr>"

lemma fifo_pop_refines:
  assumes "fifo_invar hf"
  shows "\<exists>hf'. fifo_pop hf = Some (fst (queue_pop (fifo_abs hf)), hf') \<and> fifo_invar hf' \<and>
           fifo_abs hf' = snd (queue_pop (fifo_abs hf))"
proof (cases "fifo_contents hf")
  case Nil
  with ptr_fifo.pop_empty [OF assms] assms show ?thesis
    by (simp add: queue_pop_def fifo_abs_def)
next
  case (Cons x xs)
  with ptr_fifo.pop_first [OF assms Cons] show ?thesis
    by (auto simp: queue_pop_def fifo_abs_def word_unat_eq_iff)
qed

lemma fifo_push_refines:
  assumes "fifo_invar hf"
  shows "\<exists>hf'. fifo_push hf (Some d) = Some (fst (queue_push (fifo_abs hf) d), hf') \<and>
           fifo_invar hf' \<and> fifo_abs hf' = snd (queue_push (fifo_abs hf) d)"
proof (cases "length (fifo_contents hf) < unat (fifo_max_size (snd hf))")
  case True
  with ptr_fifo.push_last [OF assms True, of d] show ?thesis
    by (auto simp: queue_push_def queue_full_def fifo_abs_def word_unat_eq_iff)
next
  case False
  then have "length (fifo_contents hf) = unat (fifo_max_size (snd hf))"
    using ptr_fifo.bounded [OF assms] by simp
  with ptr_fifo.push_refused [OF assms this, of d] assms show ?thesis
    by (simp add: queue_push_def queue_full_def fifo_abs_def)
qed

lemma fifo_size_refines:
  assumes "fifo_invar hf"
  shows "fifo_get_size (snd hf) = queue_size (fifo_abs hf)"
    and "fifo_full (snd hf) = queue_full (fifo_abs hf)"
proof -
  from assms obtain h f as where hf: "hf = (h, f)" and rep: "fifo_rep h f as (fifo_contents hf)"
    by (cases hf) (auto elim: fifo_invar_rep)
  then have "fifo_size f = of_nat (length (fifo_contents hf))"
    by (simp add: fifo_rep_def)
  moreover have "unat (fifo_size f) = length (fifo_contents hf)"
    using rep by (rule fifo_rep_size)
  ultimately show "fifo_get_size (snd hf) = queue_size (fifo_abs hf)"
    and "fifo_full (snd hf) = queue_full (fifo_abs hf)"
    by (simp_all add: hf fifo_get_size_def fifo_full_def queue_size_def queue_full_def fifo_abs_def
      word_unat_eq_iff)
qed

section \<open>Releasing a FIFO\<close>

lemma fifo_destroy_loop_rep:
  "fifo_rep h f as xs \<Longrightarrow>
   \<exists>h' f'. fifo_destroy_loop i (h, f) = Some (h', f') \<and>
     cells h' = (cells h) |` (- set (take ((length xs - i + 1) div 2) as))"
proof (induction xs arbitrary: h f as i)
  case Nil
  then have "unat (fifo_size f) = 0"
    using fifo_rep_size by force
  with Nil show ?case
    by (simp add: fifo_destroy_loop.simps)
next
  case (Cons x xs)
  have sz: "unat (fifo_size f) = Suc (length xs)"
    using fifo_rep_size [OF Cons.prems] by simp
  show ?case
  proof (cases "i < Suc (length xs)")
    case False
    with sz show ?thesis by (simp add: fifo_destroy_loop.simps)
  next
    case True
    from fifo_pop_rep [OF Cons.prems] obtain as' h1 f1 where
      pop: "fifo_pop (h, f) = Some (Some x, h1, f1)" and rep: "fifo_rep h1 f1 as' xs"
      and as: "as = hd as # as'" and c1: "cells h1 = (cells h)(hd as := None)"
      by blast
    from Cons.IH [OF rep, of "Suc i"] obtain h' f' where
      loop: "fifo_destroy_loop (Suc i) (h1, f1) = Some (h', f')" and
      c': "cells h' = (cells h1) |` (- set (take ((length xs - Suc i + 1) div 2) as'))"
      by blast
    have k: "(length (x # xs) - i + 1) div 2 = Suc ((length xs - Suc i + 1) div 2)"
      using True by (cases "i = length xs") auto
    have "cells h' = (cells h) |` (- set (take ((length (x # xs) - i + 1) div 2) as))"
      unfolding c' c1 k by (subst as) (auto simp: restrict_map_def fun_eq_iff)
    with True sz pop loop show ?thesis
      by (simp add: fifo_destroy_loop.simps [of i])
  qed
qed

section \<open>Properties\<close>

text \<open>
  On the pointer implementation, pushing any list into a fresh FIFO of capacity \<open>n\<close> and then
  popping as many elements as it holds returns the first \<open>n\<close> of them, in order, and leaves the FIFO
  empty; no step dereferences a null or freed cell.
\<close>

theorem fifo_push_pop_order:
  "\<exists>hf' hf''. push_all (\<lambda>hf x. fifo_push hf (Some x)) (h, fifo_init n) xs = Some hf' \<and>
     pop_n fifo_pop (min (unat n) (length xs)) hf' = Some (map Some (take (unat n) xs), hf'') \<and>
     fifo_contents hf'' = []"
proof -
  have "fifo_invar (h, fifo_init n)" and "fifo_contents (h, fifo_init n) = []"
    using fifo_rep_init by (auto intro: fifo_rep_invar fifo_rep_contents)
  from ptr_fifo.first_in_first_out [OF this] show ?thesis
    by (simp add: fifo_init_def)
qed

text \<open>
  C32: the pointer implementation refines the abstract bounded queue: on every well-formed FIFO,
  pop and push return without a memory fault, with the result of the abstract operation, into a
  well-formed FIFO whose abstraction is the abstract result; size and fullness agree.
\<close>

theorem fifo_refines_queue:
  assumes "fifo_invar hf"
  shows "(\<exists>hf'. fifo_pop hf = Some (fst (queue_pop (fifo_abs hf)), hf') \<and> fifo_invar hf' \<and>
            fifo_abs hf' = snd (queue_pop (fifo_abs hf))) \<and>
         (\<exists>hf'. fifo_push hf (Some d) = Some (fst (queue_push (fifo_abs hf) d), hf') \<and>
            fifo_invar hf' \<and> fifo_abs hf' = snd (queue_push (fifo_abs hf) d)) \<and>
         fifo_get_size (snd hf) = queue_size (fifo_abs hf) \<and>
         fifo_full (snd hf) = queue_full (fifo_abs hf)"
  using fifo_pop_refines [OF assms] fifo_push_refines [OF assms] fifo_size_refines [OF assms]
  by blast

definition two_cells :: "nat heap \<times> fifo_t" where
  "two_cells =
     (\<lparr>cells = [0 \<mapsto> \<lparr>elem_data = 7, next_elem = Some 1\<rparr>, 1 \<mapsto> \<lparr>elem_data = 8, next_elem = None\<rparr>],
       brk = 2\<rparr>,
      \<lparr>fifo_size = 2, fifo_max_size = 2, fifo_head = Some 0, fifo_tail = Some 1\<rparr>)"

lemma two_cells_rep: "fifo_rep (fst two_cells) (snd two_cells) [0, 1] [7, 8]"
  by (simp add: two_cells_def fifo_rep_def)

theorem fifo_refines_queue_witness:
  "fifo_invar two_cells \<and> (\<exists>hf'. fifo_push two_cells (Some 9) = Some (False, hf')) \<and>
   (\<exists>hf'. fifo_pop two_cells = Some (Some 7, hf') \<and> items (fifo_abs hf') = [8])"
proof -
  have inv: "fifo_invar two_cells" and c: "fifo_contents two_cells = [7, 8]"
    using fifo_rep_invar [OF two_cells_rep] fifo_rep_contents [OF two_cells_rep] by simp_all
  have abs: "fifo_abs two_cells = \<lparr>items = [7, 8], capacity = 2\<rparr>"
    using c by (simp add: fifo_abs_def two_cells_def)
  show ?thesis
    using inv fifo_refines_queue [OF inv, of 9]
    by (auto simp: abs queue_pop_def queue_push_def queue_full_def)
qed

text \<open>
  \<open>fifo_destroy\<close> does not release the whole FIFO. Its loop bound shrinks with every pop, so of
  \<open>n\<close> cells it frees the first \<open>(n + 1) div 2\<close> and leaves the rest allocated.
\<close>

theorem fifo_destroy_leaks:
  assumes "fifo_rep h f as xs"
  shows "\<exists>h'. fifo_destroy (h, f) = Some h' \<and>
     {a \<in> set as. cells h' a \<noteq> None} = set (drop ((length xs + 1) div 2) as)"
proof -
  let ?k = "(length xs + 1) div 2"
  from fifo_destroy_loop_rep [OF assms, of 0] obtain h' where
    d: "fifo_destroy (h, f) = Some h'" and c: "cells h' = (cells h) |` (- set (take ?k as))"
    by (auto simp: fifo_destroy_def)
  have alloc: "cells h a \<noteq> None" if "chain h p as xs" "a \<in> set as" for p a
    using that by (induction h p as xs rule: chain.induct) auto
  have "set as = set (take ?k as) \<union> set (drop ?k as)"
    by (metis append_take_drop_id set_append)
  moreover have "set (take ?k as) \<inter> set (drop ?k as) = {}"
    using assms by (auto simp: fifo_rep_def dest: set_take_disj_set_drop_if_distinct)
  ultimately show ?thesis
    using d c alloc assms by (auto simp: fifo_rep_def restrict_map_def)
qed

theorem fifo_destroy_leaks_witness:
  "\<exists>h'. fifo_destroy two_cells = Some h' \<and> {a \<in> {0, 1}. cells h' a \<noteq> None} = {1}"
  using fifo_destroy_leaks [OF two_cells_rep] by simp

end
