(* ===== verification/Rasta_State.thy ===== *)
theory Rasta_State
  imports Rasta_Factory Rasta_DeferQueue Rasta_Fifo
begin

text \<open>
  The state of one RaSTA endpoint: the configuration (\<open>rasta/config.h\<close>), the timed and file
  descriptor events (\<open>rasta/events.h\<close>), transport channels and sockets (\<open>transport/transport.h\<close>),
  the redundancy channel and multiplexer (\<open>redundancy/*.h\<close>), the connection
  (\<open>rasta_connection.h\<close>) and the environment the code talks to: the clock and the socket interface
  of the operating system. An endpoint has one connection and one redundancy channel, which the C
  structs share by pointer; here each is one component of \<open>rasta_st\<close>.

  The FIFOs of the connection are the abstract bounded queues of \<open>Rasta_Fifo\<close>. The notification
  callbacks, the logger, the TLS fields and the key exchange state are left out: in the default
  build the first do nothing and the others do not exist.
\<close>

section \<open>Configuration\<close>

record rasta_config_sending =
  t_max :: u32
  t_h :: u32
  md4_type :: rasta_checksum_type
  md4_a :: u32
  md4_b :: u32
  md4_c :: u32
  md4_d :: u32
  mwa :: u16
  send_max :: u16
  max_packet :: u32
  diag_window :: u32
  sr_hash_key :: u32
  sr_hash_algorithm :: rasta_hash_algorithm

record rasta_ip_data =
  ip :: string
  ip_port :: int

record rasta_config_redundancy =
  connections :: "rasta_ip_data list"
  crc_type :: crc_options
  t_seq :: u32
  n_diagnose :: int
  n_deferqueue_size :: u32

record rasta_config_general =
  rasta_network :: u64
  rasta_id :: u64
  rasta_id_remote :: u64

text \<open>The second constructor exists in builds with key exchange only; \<open>handle_hb\<close> tests for it.\<close>

datatype KEY_EXCHANGE_MODE = KEY_EXCHANGE_MODE_NONE | KEY_EXCHANGE_MODE_OPAQUE

record rasta_config_info =
  initial_sequence_number :: u32
  accepted_versions :: "bytes list"
  sending :: rasta_config_sending
  max_recvqueue_size :: u32
  max_retransmission_queue_size :: u32
  redundancy :: rasta_config_redundancy
  redundancy_remote :: rasta_config_redundancy
  general :: rasta_config_general
  kex_mode :: KEY_EXCHANGE_MODE

section \<open>Events\<close>

record timed_event =
  te_interval :: u64
  last_call :: u64
  te_enabled :: bool

record fd_event =
  ev_fd :: int
  ev_enabled :: bool

section \<open>Transport\<close>

text \<open>Which of the two transport libraries is linked.\<close>

datatype transport = TCP | UDP

record rasta_redundancy_diagnostics_data =
  start_time :: u64
  n_missed :: int
  t_drift :: u64
  t_drift2 :: u64
  received_packets :: int

text \<open>\<open>associated_socket\<close> is the index of the socket in the multiplexer, \<open>None\<close> the null pointer.\<close>

record rasta_transport_channel =
  tc_id :: nat
  connected :: bool
  tc_receive_event :: fd_event
  remote_ip_address :: string
  tc_fd :: int
  remote_port :: u16
  diagnostics_data :: rasta_redundancy_diagnostics_data
  associated_socket :: "nat option"

record rasta_transport_socket =
  ts_id :: nat
  ts_fd :: int
  accept_event :: fd_event
  ts_receive_event :: fd_event

section \<open>Redundancy layer\<close>

record rasta_redundancy_channel =
  associated_id :: u64
  seq_tx :: u64
  seq_rx :: u64
  defer_q :: defer_queue
  diagnostics_packet_buffer :: defer_queue
  transport_channels :: "rasta_transport_channel list"
  configuration_parameters :: rasta_config_redundancy
  hashing_context :: rasta_hashing_ctx

record redundancy_mux =
  port_count :: nat
  transport_sockets :: "rasta_transport_socket list"
  sr_hashing_context :: rasta_hashing_ctx

section \<open>Connection\<close>

datatype rasta_sr_state =
  RASTA_CONNECTION_CLOSED | RASTA_CONNECTION_DOWN | RASTA_CONNECTION_START |
  RASTA_CONNECTION_KEX_REQ | RASTA_CONNECTION_KEX_RESP | RASTA_CONNECTION_KEX_AUTH |
  RASTA_CONNECTION_UP | RASTA_CONNECTION_RETRREQ | RASTA_CONNECTION_RETRRUN

datatype rasta_role = RASTA_ROLE_CLIENT | RASTA_ROLE_SERVER

record rasta_error_counters =
  safety :: u32
  address :: u32
  type_errors :: u32
  sn_errors :: u32
  cs_errors :: u32

record diagnostic_interval =
  interval_start :: u32
  interval_end :: u32
  message_count :: u32
  t_alive_message_count :: u32

record rasta_connection =
  is_new :: bool
  handshake_timeout_event :: timed_event
  send_heartbeat_event :: timed_event
  timeout_event :: timed_event
  send_event :: timed_event
  hb_locked :: bool
  current_state :: rasta_sr_state
  fifo_send :: "bytes queue"
  fifo_receive :: "bytes queue"
  connected_recv_buffer_size :: int
  role :: rasta_role
  sn_t :: u32
  sn_r :: u32
  sn_i :: u32
  cs_t :: u32
  cs_r :: u32
  ts_r :: u32
  cts_r :: u32
  t_i :: u32
  my_id :: u32
  remote_id :: u32
  network_id :: u32
  received_diagnostic_message_count :: u32
  diagnostic_intervals :: "diagnostic_interval list"
  fifo_retransmission :: "bytes queue"
  errors :: rasta_error_counters

section \<open>Environment and endpoint\<close>

text \<open>
  \<open>answers k\<close> is the result of the \<open>k\<close>-th call to the socket interface, negative for a failure;
  \<open>valid_address\<close> is the success of \<open>inet_aton\<close>. When the \<open>k\<close>-th call is a \<open>recvfrom\<close>,
  \<open>received k\<close> are the bytes and \<open>peer k\<close> the address it returns (also for \<open>getpeername\<close>); when it is
  a \<open>select\<close>, \<open>readable k\<close> are the descriptors it leaves in the read set. \<open>wire\<close> lists what was handed to the network: the
  transport channel, its file descriptor and the bytes. A \<open>send\<close> that does not fail sends all bytes.
\<close>

record wire_message =
  wire_channel :: nat
  wire_fd :: int
  wire_bytes :: bytes

record network =
  answers :: "nat \<Rightarrow> int"
  n_calls :: nat
  valid_address :: "string \<Rightarrow> bool"
  received :: "nat \<Rightarrow> bytes"
  peer :: "nat \<Rightarrow> string \<times> u16"
  readable :: "nat \<Rightarrow> int list"
  wire :: "wire_message list"

record rasta_st =
  con :: rasta_connection
  chan :: rasta_redundancy_channel
  mux :: redundancy_mux
  cfg :: rasta_config_info
  transport_lib :: transport
  clk :: clock
  net :: network
  module_error :: rasta_error_type
  factory_error :: rasta_error_type
  uninit :: RastaRedundancyPacket
  uninit_address :: "string \<times> u16"

text \<open>
  \<open>uninit\<close> and \<open>uninit_address\<close> are what an uninitialised packet or address variable on the stack
  holds.
\<close>

text \<open>What of the environment no operation changes.\<close>

definition env_of :: "network \<Rightarrow> network" where
  "env_of n = n\<lparr>n_calls := 0, wire := []\<rparr>"

definition sys_call :: "network \<Rightarrow> int \<times> network" where
  "sys_call n = (answers n (n_calls n), n\<lparr>n_calls := Suc (n_calls n)\<rparr>)"

section \<open>Update functions\<close>

definition map_con :: "(rasta_connection \<Rightarrow> rasta_connection) \<Rightarrow> rasta_st \<Rightarrow> rasta_st" where
  "map_con f s = s\<lparr>con := f (con s)\<rparr>"

definition map_chan :: "(rasta_redundancy_channel \<Rightarrow> rasta_redundancy_channel) \<Rightarrow> rasta_st \<Rightarrow> rasta_st" where
  "map_chan f s = s\<lparr>chan := f (chan s)\<rparr>"

definition map_channel ::
  "nat \<Rightarrow> (rasta_transport_channel \<Rightarrow> rasta_transport_channel) \<Rightarrow> rasta_st \<Rightarrow> rasta_st" where
  "map_channel i f = map_chan (\<lambda>c. c\<lparr>transport_channels := (transport_channels c)
     [i := f (transport_channels c ! i)]\<rparr>)"

definition map_socket ::
  "nat \<Rightarrow> (rasta_transport_socket \<Rightarrow> rasta_transport_socket) \<Rightarrow> rasta_st \<Rightarrow> rasta_st" where
  "map_socket i f s = s\<lparr>mux := (mux s)\<lparr>transport_sockets := (transport_sockets (mux s))
     [i := f (transport_sockets (mux s) ! i)]\<rparr>\<rparr>"

text \<open>The clock calls of \<open>rastautil.c\<close> and \<open>event_system.c\<close> on the endpoint.\<close>

definition now_ms :: "rasta_st \<Rightarrow> u32 \<times> rasta_st" where
  "now_ms s = (let (t, c) = cur_timestamp (clk s) in (t, s\<lparr>clk := c\<rparr>))"

definition now_ns :: "rasta_st \<Rightarrow> u64 \<times> rasta_st" where
  "now_ns s = (let (t, c) = get_nanotime (clk s) in (t, s\<lparr>clk := c\<rparr>))"

definition call :: "rasta_st \<Rightarrow> int \<times> rasta_st" where
  "call s = (let (r, n) = sys_call (net s) in (r, s\<lparr>net := n\<rparr>))"

text \<open>\<open>event_system.c\<close>: rescheduling, enabling and disabling of single events.\<close>

definition reschedule_event :: "timed_event \<Rightarrow> u64 \<Rightarrow> timed_event" where
  "reschedule_event event nanotime = event\<lparr>last_call := nanotime\<rparr>"

definition enable_timed_event :: "timed_event \<Rightarrow> u64 \<Rightarrow> timed_event" where
  "enable_timed_event event nanotime = reschedule_event (event\<lparr>te_enabled := True\<rparr>) nanotime"

definition disable_timed_event :: "timed_event \<Rightarrow> timed_event" where
  "disable_timed_event event = event\<lparr>te_enabled := False\<rparr>"

definition enable_fd_event :: "fd_event \<Rightarrow> fd_event" where
  "enable_fd_event event = event\<lparr>ev_enabled := True\<rparr>"

definition disable_fd_event :: "fd_event \<Rightarrow> fd_event" where
  "disable_fd_event event = event\<lparr>ev_enabled := False\<rparr>"

end
