(* ===== verification/Rasta_Transport.thy ===== *)
theory Rasta_Transport
  imports Rasta_State
begin

text \<open>
  The transport layer: \<open>transport/bsd_utils.c\<close>, \<open>transport/tcp.c\<close> with \<open>tcp_base.c\<close>,
  \<open>transport/udp.c\<close> with \<open>udp_base.c\<close>, and \<open>transport/transport.c\<close>. The functions that both
  libraries define are one definition with a case for each library. Channels and sockets are
  addressed by their index; an index outside the array, a null pointer and \<open>abort\<close> are \<open>None\<close>.

  The lemmas say that the layer touches nothing but transport channels, sockets and the network
  (\<open>transport_frame\<close>), and that only \<open>send_callback\<close> puts bytes on the wire.
\<close>

section \<open>Socket calls (bsd_utils.c)\<close>

text \<open>\<open>socket\<close> and the two \<open>setsockopt\<close> calls.\<close>

definition bsd_create_socket :: "rasta_st \<Rightarrow> (int \<times> rasta_st) option" where
  "bsd_create_socket s =
     (let (fd, s) = call s
      in if fd < 0 then None
         else let (r, s) = call s
              in if r < 0 then None
                 else let (r, s) = call s
                      in if r < 0 then None else Some (fd, s))"

definition bsd_bind_device :: "rasta_st \<Rightarrow> bool \<times> rasta_st" where
  "bsd_bind_device s = (let (r, s) = call s in (\<not> r < 0, s))"

definition bsd_close :: "int \<Rightarrow> rasta_st \<Rightarrow> rasta_st option" where
  "bsd_close fd s =
     (if fd \<ge> 0 then let (r, s) = call s in if r < 0 then None else Some s
      else Some s)"

text \<open>\<open>send\<close> and \<open>sendto\<close>.\<close>

definition put_wire :: "nat \<Rightarrow> int \<Rightarrow> bytes \<Rightarrow> rasta_st \<Rightarrow> rasta_st option" where
  "put_wire i fd message s =
     (let (r, s) = call s
      in if r < 0 then None
         else Some (s\<lparr>net := (net s)\<lparr>wire := wire (net s) @
                [\<lparr>wire_channel = i, wire_fd = fd, wire_bytes = message\<rparr>]\<rparr>\<rparr>))"

definition bsd_send :: "nat \<Rightarrow> int \<Rightarrow> bytes \<Rightarrow> string \<Rightarrow> rasta_st \<Rightarrow> rasta_st option" where
  "bsd_send i fd message host s =
     (if valid_address (net s) host then put_wire i fd message s else None)"

section \<open>TCP and UDP\<close>

definition channel_at :: "nat \<Rightarrow> rasta_st \<Rightarrow> rasta_transport_channel option" where
  "channel_at i s =
     (if i < length (transport_channels (chan s)) then Some (transport_channels (chan s) ! i) else None)"

definition socket_at :: "nat \<Rightarrow> rasta_st \<Rightarrow> rasta_transport_socket option" where
  "socket_at i s =
     (if i < length (transport_sockets (mux s)) then Some (transport_sockets (mux s) ! i) else None)"

definition tcp_listen :: "rasta_st \<Rightarrow> rasta_st option" where
  "tcp_listen s = (let (r, s) = call s in if r < 0 then None else Some s)"

definition tcp_accept :: "rasta_st \<Rightarrow> (int \<times> rasta_st) option" where
  "tcp_accept s = (let (fd, s) = call s in if fd < 0 then None else Some (fd, s))"

definition tcp_connect :: "nat \<Rightarrow> rasta_st \<Rightarrow> (int \<times> rasta_st) option" where
  "tcp_connect i s = do {
     c \<leftarrow> channel_at i s;
     if \<not> valid_address (net s) (remote_ip_address c) then None
     else let (r, s) = call s
          in if r < 0 then Some (1, map_channel i (\<lambda>c. c\<lparr>connected := False\<rparr>) s)
             else Some (0, map_channel i (\<lambda>c. c\<lparr>connected := True\<rparr>) s)
   }"

text \<open>
  \<open>tcp_receive\<close> returns -1 on an error, \<open>udp_receive\<close> aborts. The buffer is an array of
  \<open>MAX_DEFER_QUEUE_MSG_SIZE\<close> zeros that \<open>recvfrom\<close> fills from the front; its third result is the
  address of the sender.
\<close>

definition MAX_DEFER_QUEUE_MSG_SIZE :: nat where
  "MAX_DEFER_QUEUE_MSG_SIZE = 1000"

definition recvfrom :: "bytes \<Rightarrow> rasta_st \<Rightarrow> (int \<times> bytes \<times> (string \<times> u16)) \<times> rasta_st" where
  "recvfrom buffer s =
     (let n = net s; k = n_calls n; data = take (length buffer) (received n k);
          (r, s) = call s
      in if r < 0 then ((r, buffer, peer n k), s)
         else ((int (length data), data @ drop (length data) buffer, peer n k), s))"

definition tcp_receive :: "bytes \<Rightarrow> rasta_st \<Rightarrow> (int \<times> bytes \<times> (string \<times> u16)) \<times> rasta_st" where
  "tcp_receive buffer s =
     (let ((len, buffer, sender), s) = recvfrom buffer s
      in ((if len < 0 then -1 else len, buffer, sender), s))"

definition udp_receive :: "bytes \<Rightarrow> rasta_st \<Rightarrow> ((int \<times> bytes \<times> (string \<times> u16)) \<times> rasta_st) option" where
  "udp_receive buffer s =
     (let ((len, buffer, sender), s) = recvfrom buffer s
      in if len = -1 then None else Some ((len, buffer, sender), s))"

definition tcp_send :: "nat \<Rightarrow> int \<Rightarrow> bytes \<Rightarrow> rasta_st \<Rightarrow> rasta_st option" where
  "tcp_send i fd message s = put_wire i fd message s"

definition udp_send :: "nat \<Rightarrow> int \<Rightarrow> bytes \<Rightarrow> string \<Rightarrow> rasta_st \<Rightarrow> rasta_st option" where
  "udp_send i fd message host s = bsd_send i fd message host s"

definition tcp_close :: "rasta_transport_channel \<Rightarrow> rasta_st \<Rightarrow> rasta_st option" where
  "tcp_close c s = bsd_close (tc_fd c) s"

definition udp_close :: "rasta_transport_socket \<Rightarrow> rasta_st \<Rightarrow> rasta_st option" where
  "udp_close socket s = bsd_close (ts_fd socket) s"

text \<open>The functions of \<open>tcp_base.c\<close> on a socket or channel that exists.\<close>

definition tcp_transport_create_socket :: "nat \<Rightarrow> nat \<Rightarrow> rasta_st \<Rightarrow> rasta_st option" where
  "tcp_transport_create_socket i new_id s = do {
     (fd, s) \<leftarrow> bsd_create_socket s;
     Some (map_socket i (\<lambda>k. k\<lparr>ts_id := new_id, ts_fd := fd,
       accept_event := \<lparr>ev_fd = fd, ev_enabled = False\<rparr>\<rparr>) s)
   }"

definition tcp_transport_listen :: "nat \<Rightarrow> rasta_st \<Rightarrow> rasta_st option" where
  "tcp_transport_listen i s = do {
     s \<leftarrow> tcp_listen s;
     Some (map_socket i (\<lambda>k. k\<lparr>accept_event := enable_fd_event (accept_event k)\<rparr>) s)
   }"

text \<open>\<open>accept\<close> and \<open>getpeername\<close>, which gives the address of the peer.\<close>

definition tcp_transport_accept :: "rasta_st \<Rightarrow> ((int \<times> (string \<times> u16)) \<times> rasta_st) option" where
  "tcp_transport_accept s = do {
     (fd, s) \<leftarrow> tcp_accept s;
     let addr = peer (net s) (n_calls (net s));
     let (r, s) = call s;
     if r \<noteq> 0 then None else Some ((fd, addr), s)
   }"

definition tcp_transport_connect :: "nat \<Rightarrow> nat \<Rightarrow> rasta_transport_socket \<Rightarrow> rasta_st \<Rightarrow> (int \<times> rasta_st) option" where
  "tcp_transport_connect sk i socket s = do {
     let s = map_channel i (\<lambda>c. c\<lparr>tc_fd := ts_fd socket, associated_socket := Some sk\<rparr>) s;
     (r, s) \<leftarrow> tcp_connect i s;
     if r \<noteq> 0 then Some (-1, s)
     else Some (0, map_channel i (\<lambda>c. c\<lparr>tc_receive_event :=
            enable_fd_event ((tc_receive_event c)\<lparr>ev_fd := tc_fd c\<rparr>)\<rparr>) s)
   }"

definition tcp_transport_close_channel :: "nat \<Rightarrow> rasta_transport_channel \<Rightarrow> rasta_st \<Rightarrow> rasta_st option" where
  "tcp_transport_close_channel i c s = do {
     s \<leftarrow> (if connected c
           then do {
             s \<leftarrow> tcp_close c s;
             Some (map_channel i (\<lambda>c. c\<lparr>tc_fd := -1, connected := False\<rparr>) s)
           }
           else Some s);
     Some (map_channel i (\<lambda>c. c\<lparr>tc_receive_event := disable_fd_event (tc_receive_event c)\<rparr>) s)
   }"

definition tcp_transport_close_socket :: "nat \<Rightarrow> rasta_transport_socket \<Rightarrow> rasta_st \<Rightarrow> rasta_st option" where
  "tcp_transport_close_socket i socket s = do {
     s \<leftarrow> (if ts_fd socket \<noteq> -1
           then do {
             s \<leftarrow> bsd_close (ts_fd socket) s;
             Some (map_socket i (\<lambda>k. k\<lparr>ts_fd := -1\<rparr>) s)
           }
           else Some s);
     Some (map_socket i (\<lambda>k. k\<lparr>accept_event := disable_fd_event (accept_event k)\<rparr>) s)
   }"

text \<open>The functions of \<open>udp_base.c\<close>.\<close>

definition udp_transport_create_socket :: "nat \<Rightarrow> nat \<Rightarrow> rasta_st \<Rightarrow> rasta_st option" where
  "udp_transport_create_socket i new_id s = do {
     (fd, s) \<leftarrow> bsd_create_socket s;
     Some (map_socket i (\<lambda>k. k\<lparr>ts_id := new_id, ts_fd := fd,
       ts_receive_event := \<lparr>ev_fd = fd, ev_enabled = False\<rparr>\<rparr>) s)
   }"

definition udp_transport_listen :: "nat \<Rightarrow> rasta_st \<Rightarrow> rasta_st option" where
  "udp_transport_listen i s =
     Some (map_socket i (\<lambda>k. k\<lparr>ts_receive_event := enable_fd_event (ts_receive_event k)\<rparr>) s)"

text \<open>The address stays uninitialised.\<close>

definition udp_transport_accept :: "rasta_st \<Rightarrow> ((int \<times> (string \<times> u16)) \<times> rasta_st) option" where
  "udp_transport_accept s = Some ((0, uninit_address s), s)"

definition udp_transport_connect :: "nat \<Rightarrow> nat \<Rightarrow> rasta_transport_socket \<Rightarrow> rasta_st \<Rightarrow> (int \<times> rasta_st) option" where
  "udp_transport_connect sk i socket s =
     (let s = map_socket sk (\<lambda>k. k\<lparr>ts_receive_event := enable_fd_event (ts_receive_event k)\<rparr>) s
      in Some (0, map_channel i (\<lambda>c. c\<lparr>tc_id := ts_id socket, tc_fd := ts_fd socket,
           associated_socket := Some sk, connected := True\<rparr>) s))"

definition udp_transport_redial :: "rasta_st \<Rightarrow> (int \<times> rasta_st) option" where
  "udp_transport_redial s = Some (-1, s)"

definition udp_transport_close_channel :: "rasta_st \<Rightarrow> rasta_st option" where
  "udp_transport_close_channel s = Some s"

definition udp_transport_close_socket :: "nat \<Rightarrow> rasta_transport_socket \<Rightarrow> rasta_st \<Rightarrow> rasta_st option" where
  "udp_transport_close_socket i socket s = do {
     s \<leftarrow> udp_close socket s;
     Some (map_socket i (\<lambda>k. k\<lparr>ts_fd := -1,
       ts_receive_event := disable_fd_event (ts_receive_event k)\<rparr>) s)
   }"

definition udp_send_callback :: "bytes \<Rightarrow> rasta_transport_channel \<Rightarrow> rasta_st \<Rightarrow> rasta_st option" where
  "udp_send_callback message c s = udp_send (tc_id c) (tc_fd c) message (remote_ip_address c) s"

section \<open>The transport interface\<close>

text \<open>What the layers above call: the function of the linked library.\<close>

definition transport_create_socket :: "nat \<Rightarrow> nat \<Rightarrow> rasta_st \<Rightarrow> rasta_st option" where
  "transport_create_socket i new_id s = do {
     _ \<leftarrow> socket_at i s;
     (case transport_lib s of
        TCP \<Rightarrow> tcp_transport_create_socket i new_id s
      | UDP \<Rightarrow> udp_transport_create_socket i new_id s)
   }"

text \<open>\<open>transport_init\<close> on a zeroed channel; \<open>strncpy\<close> copies at most 15 characters.\<close>

definition transport_init :: "nat \<Rightarrow> string \<Rightarrow> u16 \<Rightarrow> rasta_transport_channel \<Rightarrow> rasta_transport_channel" where
  "transport_init new_id host port c =
     c\<lparr>tc_id := new_id, remote_port := port, remote_ip_address := take 15 host,
       associated_socket := None, tc_receive_event := \<lparr>ev_fd = 0, ev_enabled = False\<rparr>\<rparr>"

text \<open>The local address passed to \<open>bind\<close> only reaches the operating system.\<close>

definition transport_bind :: "rasta_st \<Rightarrow> bool \<times> rasta_st" where
  "transport_bind s = bsd_bind_device s"

definition transport_listen :: "nat \<Rightarrow> rasta_st \<Rightarrow> rasta_st option" where
  "transport_listen i s = do {
     _ \<leftarrow> socket_at i s;
     (case transport_lib s of TCP \<Rightarrow> tcp_transport_listen i s | UDP \<Rightarrow> udp_transport_listen i s)
   }"

definition transport_accept :: "rasta_st \<Rightarrow> ((int \<times> (string \<times> u16)) \<times> rasta_st) option" where
  "transport_accept s =
     (case transport_lib s of TCP \<Rightarrow> tcp_transport_accept s | UDP \<Rightarrow> udp_transport_accept s)"

definition transport_connect :: "nat \<Rightarrow> nat \<Rightarrow> rasta_st \<Rightarrow> (int \<times> rasta_st) option" where
  "transport_connect sk i s = do {
     socket \<leftarrow> socket_at sk s;
     _ \<leftarrow> channel_at i s;
     (case transport_lib s of
        TCP \<Rightarrow> tcp_transport_connect sk i socket s
      | UDP \<Rightarrow> udp_transport_connect sk i socket s)
   }"

text \<open>\<open>transport_redial\<close> of \<open>tcp_base.c\<close>: a new socket, since a closed one cannot be reused.\<close>

definition tcp_transport_redial :: "nat \<Rightarrow> rasta_st \<Rightarrow> (int \<times> rasta_st) option" where
  "tcp_transport_redial i s = do {
     c \<leftarrow> channel_at i s;
     sk \<leftarrow> associated_socket c;
     socket \<leftarrow> socket_at sk s;
     (fd, s) \<leftarrow> bsd_create_socket s;
     let s = map_socket sk (\<lambda>k. k\<lparr>ts_fd := fd\<rparr>) s;
     if ts_id socket < length (connections (redundancy (cfg s))) then do {
       let (_, s) = transport_bind s;
       (r, s) \<leftarrow> transport_connect sk i s;
       if r \<noteq> 0 then Some (-1, s)
       else Some (0, map_socket sk (\<lambda>k. k\<lparr>
              ts_receive_event := (ts_receive_event k)\<lparr>ev_fd := ts_fd k\<rparr>,
              accept_event := (accept_event k)\<lparr>ev_fd := ts_fd k\<rparr>\<rparr>) s)
     }
     else None
   }"

definition transport_redial :: "nat \<Rightarrow> rasta_st \<Rightarrow> (int \<times> rasta_st) option" where
  "transport_redial i s =
     (case transport_lib s of TCP \<Rightarrow> tcp_transport_redial i s | UDP \<Rightarrow> udp_transport_redial s)"

definition transport_close_channel :: "nat \<Rightarrow> rasta_st \<Rightarrow> rasta_st option" where
  "transport_close_channel i s = do {
     c \<leftarrow> channel_at i s;
     (case transport_lib s of
        TCP \<Rightarrow> tcp_transport_close_channel i c s
      | UDP \<Rightarrow> udp_transport_close_channel s)
   }"

definition transport_close_socket :: "nat \<Rightarrow> rasta_st \<Rightarrow> rasta_st option" where
  "transport_close_socket i s = do {
     socket \<leftarrow> socket_at i s;
     (case transport_lib s of
        TCP \<Rightarrow> tcp_transport_close_socket i socket s
      | UDP \<Rightarrow> udp_transport_close_socket i socket s)
   }"

definition send_callback :: "bytes \<Rightarrow> nat \<Rightarrow> rasta_st \<Rightarrow> rasta_st option" where
  "send_callback message i s = do {
     c \<leftarrow> channel_at i s;
     (case transport_lib s of
        TCP \<Rightarrow> tcp_send (tc_id c) (tc_fd c) message s
      | UDP \<Rightarrow> udp_send_callback message c s)
   }"

definition receive_callback :: "bytes \<Rightarrow> rasta_st \<Rightarrow> ((int \<times> bytes \<times> (string \<times> u16)) \<times> rasta_st) option" where
  "receive_callback buffer s =
     (case transport_lib s of TCP \<Rightarrow> Some (tcp_receive buffer s) | UDP \<Rightarrow> udp_receive buffer s)"

lemmas send_defs = send_callback_def tcp_send_def udp_send_callback_def udp_send_def bsd_send_def

lemmas connect_defs = transport_connect_def tcp_transport_connect_def udp_transport_connect_def

lemmas redial_defs = transport_redial_def tcp_transport_redial_def udp_transport_redial_def

lemmas close_channel_defs = transport_close_channel_def tcp_transport_close_channel_def
  udp_transport_close_channel_def tcp_close_def

lemmas close_socket_defs = transport_close_socket_def tcp_transport_close_socket_def
  udp_transport_close_socket_def udp_close_def

text \<open>The loop over the channels of the peer; the result is the index, \<open>None\<close> the null pointer.\<close>

fun find_channel_from :: "nat \<Rightarrow> rasta_transport_channel list \<Rightarrow> string \<Rightarrow> u16 \<Rightarrow> nat option" where
  "find_channel_from i [] addr port = None"
| "find_channel_from i (c # cs) addr port =
     (if take 16 (remote_ip_address c) = take 16 addr \<and> remote_port c = port then Some i
      else find_channel_from (Suc i) cs addr port)"

definition find_channel_by_ip_address :: "rasta_st \<Rightarrow> string \<Rightarrow> u16 \<Rightarrow> nat option" where
  "find_channel_by_ip_address s addr port = find_channel_from 0 (transport_channels (chan s)) addr port"

section \<open>What the transport layer can change\<close>

text \<open>
  \<open>transport_view\<close> forgets the transport channels (except their number and diagnostics data), the
  sockets (except their number), the count of system calls and the wire.
\<close>

definition transport_view ::
  "rasta_st \<Rightarrow> rasta_st \<times> nat \<times> nat \<times> rasta_redundancy_diagnostics_data list" where
  "transport_view s =
     (s\<lparr>chan := (chan s)\<lparr>transport_channels := []\<rparr>, mux := (mux s)\<lparr>transport_sockets := []\<rparr>,
        net := (net s)\<lparr>n_calls := 0, wire := []\<rparr>\<rparr>,
      length (transport_channels (chan s)), length (transport_sockets (mux s)),
      map diagnostics_data (transport_channels (chan s)))"

definition transport_frame :: "rasta_st \<Rightarrow> rasta_st \<Rightarrow> bool" where
  "transport_frame s s' \<longleftrightarrow> transport_view s' = transport_view s"

definition quiet_frame :: "rasta_st \<Rightarrow> rasta_st \<Rightarrow> bool" where
  "quiet_frame s s' \<longleftrightarrow> transport_frame s s' \<and> wire (net s') = wire (net s)"

lemma transport_frame_refl [simp]: "transport_frame s s"
  by (simp add: transport_frame_def)

lemma transport_frame_trans: "transport_frame s t \<Longrightarrow> transport_frame t u \<Longrightarrow> transport_frame s u"
  by (simp add: transport_frame_def)

lemma quiet_frame_refl [simp]: "quiet_frame s s"
  by (simp add: quiet_frame_def)

lemma quiet_frame_trans: "quiet_frame s t \<Longrightarrow> quiet_frame t u \<Longrightarrow> quiet_frame s u"
  unfolding quiet_frame_def by (auto intro: transport_frame_trans)

lemma quiet_frameD: "quiet_frame s t \<Longrightarrow> transport_frame s t" "quiet_frame s t \<Longrightarrow> wire (net t) = wire (net s)"
  by (simp_all add: quiet_frame_def)

lemma transport_frameD:
  assumes "transport_frame s s'"
  shows "con s' = con s" and "cfg s' = cfg s" and "transport_lib s' = transport_lib s"
    and "clk s' = clk s" and "module_error s' = module_error s" and "factory_error s' = factory_error s"
    and "uninit s' = uninit s"
    and "associated_id (chan s') = associated_id (chan s)" and "seq_tx (chan s') = seq_tx (chan s)"
    and "seq_rx (chan s') = seq_rx (chan s)" and "defer_q (chan s') = defer_q (chan s)"
    and "diagnostics_packet_buffer (chan s') = diagnostics_packet_buffer (chan s)"
    and "configuration_parameters (chan s') = configuration_parameters (chan s)"
    and "hashing_context (chan s') = hashing_context (chan s)"
    and "port_count (mux s') = port_count (mux s)"
    and "sr_hashing_context (mux s') = sr_hashing_context (mux s)"
    and "valid_address (net s') = valid_address (net s)" and "answers (net s') = answers (net s)"
    and "length (transport_channels (chan s')) = length (transport_channels (chan s))"
    and "length (transport_sockets (mux s')) = length (transport_sockets (mux s))"
    and "map diagnostics_data (transport_channels (chan s')) = map diagnostics_data (transport_channels (chan s))"
    and "env_of (net s') = env_of (net s)" and "uninit_address s' = uninit_address s"
proof -
  let ?e = "\<lambda>s. s\<lparr>chan := (chan s)\<lparr>transport_channels := []\<rparr>, mux := (mux s)\<lparr>transport_sockets := []\<rparr>,
        net := (net s)\<lparr>n_calls := 0, wire := []\<rparr>\<rparr>"
  have e: "?e s' = ?e s" and rest:
    "length (transport_channels (chan s')) = length (transport_channels (chan s))"
    "length (transport_sockets (mux s')) = length (transport_sockets (mux s))"
    "map diagnostics_data (transport_channels (chan s')) = map diagnostics_data (transport_channels (chan s))"
    using assms unfolding transport_frame_def transport_view_def by (simp_all only: prod.inject)
  show "con s' = con s" using arg_cong [OF e, of con] by simp
  show "cfg s' = cfg s" using arg_cong [OF e, of cfg] by simp
  show "transport_lib s' = transport_lib s" using arg_cong [OF e, of transport_lib] by simp
  show "clk s' = clk s" using arg_cong [OF e, of clk] by simp
  show "module_error s' = module_error s" using arg_cong [OF e, of module_error] by simp
  show "factory_error s' = factory_error s" using arg_cong [OF e, of factory_error] by simp
  show "uninit s' = uninit s" using arg_cong [OF e, of uninit] by simp
  have c: "(chan s')\<lparr>transport_channels := []\<rparr> = (chan s)\<lparr>transport_channels := []\<rparr>"
    using arg_cong [OF e, of chan] by simp
  show "associated_id (chan s') = associated_id (chan s)" using arg_cong [OF c, of associated_id] by simp
  show "seq_tx (chan s') = seq_tx (chan s)" using arg_cong [OF c, of seq_tx] by simp
  show "seq_rx (chan s') = seq_rx (chan s)" using arg_cong [OF c, of seq_rx] by simp
  show "defer_q (chan s') = defer_q (chan s)" using arg_cong [OF c, of defer_q] by simp
  show "diagnostics_packet_buffer (chan s') = diagnostics_packet_buffer (chan s)"
    using arg_cong [OF c, of diagnostics_packet_buffer] by simp
  show "configuration_parameters (chan s') = configuration_parameters (chan s)"
    using arg_cong [OF c, of configuration_parameters] by simp
  show "hashing_context (chan s') = hashing_context (chan s)" using arg_cong [OF c, of hashing_context] by simp
  have m: "(mux s')\<lparr>transport_sockets := []\<rparr> = (mux s)\<lparr>transport_sockets := []\<rparr>"
    using arg_cong [OF e, of mux] by simp
  show "port_count (mux s') = port_count (mux s)" using arg_cong [OF m, of port_count] by simp
  show "sr_hashing_context (mux s') = sr_hashing_context (mux s)"
    using arg_cong [OF m, of sr_hashing_context] by simp
  have n: "(net s')\<lparr>n_calls := 0, wire := []\<rparr> = (net s)\<lparr>n_calls := 0, wire := []\<rparr>"
    using arg_cong [OF e, of net] by simp
  then show "env_of (net s') = env_of (net s)" by (simp add: env_of_def)
  show "uninit_address s' = uninit_address s" using arg_cong [OF e, of uninit_address] by simp
  show "valid_address (net s') = valid_address (net s)" using arg_cong [OF n, of valid_address] by simp
  show "answers (net s') = answers (net s)" using arg_cong [OF n, of answers] by simp
qed (use assms in \<open>simp_all add: transport_frame_def transport_view_def\<close>)

lemma call_frame: "call s = (r, s') \<Longrightarrow> quiet_frame s s'"
  by (auto simp: call_def sys_call_def quiet_frame_def transport_frame_def transport_view_def)

lemma map_socket_frame: "quiet_frame s (map_socket i f s)"
  by (simp add: map_socket_def quiet_frame_def transport_frame_def transport_view_def)

lemma map_channel_frame:
  assumes "\<And>c. diagnostics_data (f c) = diagnostics_data c"
  shows "quiet_frame s (map_channel i f s)"
  using assms
  by (cases "i < length (transport_channels (chan s))")
    (simp_all add: map_channel_def map_chan_def quiet_frame_def transport_frame_def transport_view_def
      map_update list_update_same_conv list_update_beyond)

text \<open>Both relations are equivalences, so updates the frame allows rewrite away on either side.\<close>

lemma quiet_frame_sym: "quiet_frame s t \<Longrightarrow> quiet_frame t s"
  by (simp add: quiet_frame_def transport_frame_def)

lemma quiet_map_channel:
  assumes "\<And>c. diagnostics_data (f c) = diagnostics_data c"
  shows "quiet_frame s (map_channel i f t) \<longleftrightarrow> quiet_frame s t"
    and "quiet_frame (map_channel i f s) t \<longleftrightarrow> quiet_frame s t"
  using map_channel_frame [OF assms] by (blast intro: quiet_frame_trans quiet_frame_sym)+

lemma quiet_map_socket:
  "quiet_frame s (map_socket i f t) \<longleftrightarrow> quiet_frame s t"
  "quiet_frame (map_socket i f s) t \<longleftrightarrow> quiet_frame s t"
  using map_socket_frame by (blast intro: quiet_frame_trans quiet_frame_sym)+

lemmas frame_simps = quiet_map_channel quiet_map_socket Option.bind_eq_Some_conv Let_def

lemma bsd_create_socket_frame: "bsd_create_socket s = Some (fd, s') \<Longrightarrow> quiet_frame s s'"
  by (auto simp: bsd_create_socket_def split: prod.splits if_splits dest!: call_frame
      intro: quiet_frame_trans)

lemma bsd_bind_device_frame: "bsd_bind_device s = (b, s') \<Longrightarrow> quiet_frame s s'"
  by (auto simp: bsd_bind_device_def split: prod.splits dest!: call_frame)

lemma bsd_close_frame: "bsd_close fd s = Some s' \<Longrightarrow> quiet_frame s s'"
  by (auto simp: bsd_close_def split: prod.splits if_splits dest!: call_frame)

lemma tcp_connect_frame: "tcp_connect i s = Some (r, s') \<Longrightarrow> quiet_frame s s'"
  by (auto simp: tcp_connect_def frame_simps split: prod.splits if_splits dest!: call_frame)

lemma transport_connect_frame: "transport_connect sk i s = Some (r, s') \<Longrightarrow> quiet_frame s s'"
  by (cases "transport_lib s") (auto simp: connect_defs frame_simps split: if_splits
      dest!: tcp_connect_frame)

lemma transport_redial_frame: "transport_redial i s = Some (r, s') \<Longrightarrow> quiet_frame s s'"
  by (cases "transport_lib s";
      auto simp: redial_defs transport_bind_def frame_simps
        split: if_splits prod.splits
        dest!: bsd_create_socket_frame bsd_bind_device_frame transport_connect_frame;
      blast intro: quiet_frame_trans)

lemma transport_close_channel_frame: "transport_close_channel i s = Some s' \<Longrightarrow> quiet_frame s s'"
  by (cases "transport_lib s") (auto simp: close_channel_defs frame_simps split: if_splits
      dest!: bsd_close_frame)

lemma transport_close_socket_frame: "transport_close_socket i s = Some s' \<Longrightarrow> quiet_frame s s'"
  by (cases "transport_lib s") (auto simp: close_socket_defs frame_simps split: if_splits
      dest!: bsd_close_frame)

text \<open>Sending on a channel adds one message to the wire.\<close>

lemma put_wire_frame:
  assumes "put_wire i fd message s = Some s'"
  shows "transport_frame s s'"
    and "wire (net s') = wire (net s) @ [\<lparr>wire_channel = i, wire_fd = fd, wire_bytes = message\<rparr>]"
  using assms
  by (auto simp: put_wire_def call_def sys_call_def transport_frame_def transport_view_def
      split: if_splits)

lemma send_callback_frame:
  assumes "send_callback message i s = Some s'"
  shows "transport_frame s s'"
    and "transport_channels (chan s') = transport_channels (chan s)"
    and "wire (net s') = wire (net s) @
      [\<lparr>wire_channel = tc_id (transport_channels (chan s) ! i),
        wire_fd = tc_fd (transport_channels (chan s) ! i), wire_bytes = message\<rparr>]"
proof -
  from assms obtain fd k where p: "put_wire k fd message s = Some s'"
    "k = tc_id (transport_channels (chan s) ! i)" "fd = tc_fd (transport_channels (chan s) ! i)"
    by (cases "transport_lib s")
      (auto simp: send_defs channel_at_def frame_simps split: if_splits)
  then show "transport_frame s s'" and "wire (net s') = wire (net s) @
      [\<lparr>wire_channel = tc_id (transport_channels (chan s) ! i),
        wire_fd = tc_fd (transport_channels (chan s) ! i), wire_bytes = message\<rparr>]"
    using put_wire_frame by blast+
  show "transport_channels (chan s') = transport_channels (chan s)"
    using p(1) by (auto simp: put_wire_def call_def sys_call_def split: if_splits)
qed

text \<open>A lookup by address finds the first channel with that address.\<close>

lemma find_channel_from_Some:
  "find_channel_from i cs addr port = Some k \<Longrightarrow>
   i \<le> k \<and> k - i < length cs \<and> take 16 (remote_ip_address (cs ! (k - i))) = take 16 addr \<and>
   remote_port (cs ! (k - i)) = port"
proof (induction cs arbitrary: i)
  case (Cons c cs)
  show ?case
  proof (cases "take 16 (remote_ip_address c) = take 16 addr \<and> remote_port c = port")
    case False
    with Cons.prems have "find_channel_from (Suc i) cs addr port = Some k" by auto
    from Cons.IH [OF this] have IH: "Suc i \<le> k \<and> k - Suc i < length cs \<and>
      take 16 (remote_ip_address (cs ! (k - Suc i))) = take 16 addr \<and> remote_port (cs ! (k - Suc i)) = port" .
    then have "k - i = Suc (k - Suc i)" by arith
    with IH show ?thesis by simp
  qed (use Cons.prems in auto)
qed simp

end
