(* ===== verification/Rasta_Redundancy.thy ===== *)
theory Rasta_Redundancy
  imports Rasta_Transport
begin

text \<open>
  The redundancy layer: \<open>redundancy/rasta_red_multiplexer.c\<close> (sending on all transport channels,
  splitting received bytes into packets), \<open>redundancy/rasta_redundancy_channel.c\<close> (allocation,
  connecting and closing), \<open>redundancy/rastaredundancy.c\<close> (accepting, deferring and delivering
  packets by sequence number) and \<open>transport/diagnostics.c\<close>.

  \<open>red_f_deliverDeferQueue\<close> calls the safety and retransmission layer above; here that call is the
  parameter \<open>deliver\<close>, and the locale \<open>upper_layer\<close> states what this layer needs of it.
\<close>

section \<open>Multiplexer: sending\<close>

definition mux_send_channel :: "rasta_role \<Rightarrow> bytes \<Rightarrow> nat \<Rightarrow> rasta_st \<Rightarrow> rasta_st option" where
  "mux_send_channel r data_to_send i s = do {
     c \<leftarrow> channel_at i s;
     if \<not> connected c then
       if r = RASTA_ROLE_CLIENT then do {
         (res, s) \<leftarrow> transport_redial i s;
         if res \<noteq> 0 then Some s else send_callback data_to_send i s
       }
       else Some s
     else send_callback data_to_send i s
   }"

fun mux_send_loop :: "rasta_role \<Rightarrow> bytes \<Rightarrow> nat list \<Rightarrow> rasta_st \<Rightarrow> rasta_st option" where
  "mux_send_loop r data_to_send [] s = Some s"
| "mux_send_loop r data_to_send (i # is) s = do {
     s \<leftarrow> mux_send_channel r data_to_send i s;
     mux_send_loop r data_to_send is s
   }"

text \<open>The 64-bit \<open>seq_tx\<close> is cut to the 32-bit argument of \<open>createRedundancyPacket\<close>.\<close>

definition redundancy_mux_send :: "RastaPacket \<Rightarrow> rasta_role \<Rightarrow> rasta_st \<Rightarrow> rasta_st option" where
  "redundancy_mux_send data r s = do {
     let pkt = createRedundancyPacket (ucast (seq_tx (chan s))) data (crc_type (redundancy (cfg s)));
     (data_to_send, _, err) \<leftarrow> rastaRedundancyPacketToBytes (module_error s) pkt (hashing_context (chan s));
     let s = s\<lparr>module_error := err\<rparr>;
     let s = map_chan (\<lambda>c. c\<lparr>seq_tx := seq_tx c + 1\<rparr>) s;
     mux_send_loop r data_to_send [0..<length (transport_channels (chan s))] s
   }"

section \<open>Redundancy channel: allocation, connecting, closing\<close>

definition rasta_red_connect_transport_channel :: "nat \<Rightarrow> rasta_st \<Rightarrow> (bool \<times> rasta_st) option" where
  "rasta_red_connect_transport_channel sk s = do {
     socket \<leftarrow> socket_at sk s;
     (_, s) \<leftarrow> transport_connect sk (ts_id socket) s;
     c \<leftarrow> channel_at (ts_id socket) s;
     Some (connected c, s)
   }"

definition redundancy_channel_init :: "rasta_redundancy_channel \<Rightarrow> rasta_redundancy_channel" where
  "redundancy_channel_init c =
     c\<lparr>seq_rx := 0, seq_tx := 0, defer_q := deferqueue_clear (defer_q c),
       diagnostics_packet_buffer := deferqueue_clear (diagnostics_packet_buffer c)\<rparr>"

fun connect_loop :: "nat list \<Rightarrow> bool \<Rightarrow> rasta_st \<Rightarrow> (bool \<times> rasta_st) option" where
  "connect_loop [] success s = Some (success, s)"
| "connect_loop (i # is) success s = do {
     (r, s) \<leftarrow> rasta_red_connect_transport_channel i s;
     connect_loop is (success \<or> r) s
   }"

definition redundancy_channel_connect :: "rasta_st \<Rightarrow> (int \<times> rasta_st) option" where
  "redundancy_channel_connect s = do {
     let s = map_chan redundancy_channel_init s;
     (success, s) \<leftarrow> connect_loop [0..<length (transport_channels (chan s))] False s;
     Some (if \<not> success then 1 else 0, s)
   }"

fun close_loop :: "nat list \<Rightarrow> rasta_st \<Rightarrow> rasta_st option" where
  "close_loop [] s = Some s"
| "close_loop (i # is) s = do {
     s \<leftarrow> transport_close_channel i s;
     c \<leftarrow> channel_at i s;
     s \<leftarrow> (if \<not> connected c \<and> role (con s) = RASTA_ROLE_CLIENT then do {
            sk \<leftarrow> associated_socket c;
            _ \<leftarrow> socket_at sk s;
            Some (map_socket sk (\<lambda>k. k\<lparr>ts_fd := -1\<rparr>) s)
          }
          else Some s);
     close_loop is s
   }"

definition redundancy_channel_close :: "rasta_st \<Rightarrow> rasta_st option" where
  "redundancy_channel_close s = close_loop [0..<length (transport_channels (chan s))] s"

text \<open>The safety code of the endpoint from its configuration, in both the channel and the multiplexer.\<close>

definition configured_hashing :: "rasta_config_sending \<Rightarrow> rasta_hashing_ctx \<Rightarrow> rasta_hashing_ctx option" where
  "configured_hashing snd_cfg old =
     (let ctx = old\<lparr>hash_length := md4_type snd_cfg, algorithm := sr_hash_algorithm snd_cfg\<rparr>
      in if algorithm ctx = RASTA_ALGO_MD4
         then rasta_md4_set_key ctx (md4_a snd_cfg) (md4_b snd_cfg) (md4_c snd_cfg) (md4_d snd_cfg)
         else Some (ctx\<lparr>key := [ucast (drop_bit 24 (sr_hash_key snd_cfg) AND 0xFF),
                          ucast (drop_bit 16 (sr_hash_key snd_cfg) AND 0xFF),
                          ucast (drop_bit 8 (sr_hash_key snd_cfg) AND 0xFF),
                          ucast (sr_hash_key snd_cfg AND 0xFF)]\<rparr>))"

definition zero_transport_channel :: rasta_transport_channel where
  "zero_transport_channel =
     \<lparr>tc_id = 0, connected = False, tc_receive_event = \<lparr>ev_fd = 0, ev_enabled = False\<rparr>,
      remote_ip_address = [], tc_fd = 0, remote_port = 0,
      diagnostics_data = \<lparr>start_time = 0, n_missed = 0, t_drift = 0, t_drift2 = 0, received_packets = 0\<rparr>,
      associated_socket = None\<rparr>"

text \<open>\<open>junk\<close> is the contents of fresh memory; \<open>c\<close> the unset struct.\<close>

definition redundancy_channel_alloc ::
  "(nat \<Rightarrow> rasta_redundancy_packet_wrapper list) \<Rightarrow> rasta_config_info \<Rightarrow> rasta_redundancy_channel \<Rightarrow>
   rasta_redundancy_channel option" where
  "redundancy_channel_alloc junk config c = do {
     let n = n_deferqueue_size (redundancy config);
     let remote = connections (redundancy_remote config);
     ctx \<leftarrow> configured_hashing (sending config) (hashing_context c);
     Some (c\<lparr>associated_id := rasta_id_remote (general config),
           configuration_parameters := redundancy config, seq_rx := 0, seq_tx := 0,
           defer_q := deferqueue_init (junk 0) (unat n),
           diagnostics_packet_buffer := deferqueue_init (junk 1) (unat (10 * n)),
           hashing_context := ctx,
           transport_channels := map (\<lambda>i. transport_init i (ip (remote ! i))
             (word_of_int (ip_port (remote ! i))) zero_transport_channel) [0..<length remote]\<rparr>)
   }"

definition redundancy_channel_free :: "rasta_redundancy_channel \<Rightarrow> rasta_redundancy_channel" where
  "redundancy_channel_free c =
     c\<lparr>diagnostics_packet_buffer := deferqueue_destroy (diagnostics_packet_buffer c),
       defer_q := deferqueue_destroy (defer_q c), transport_channels := [],
       hashing_context := (hashing_context c)\<lparr>key := []\<rparr>\<rparr>"

fun bind_loop :: "nat list \<Rightarrow> bool \<Rightarrow> rasta_st \<Rightarrow> (bool \<times> rasta_st) option" where
  "bind_loop [] success s = Some (success, s)"
| "bind_loop (i # is) success s = do {
     _ \<leftarrow> socket_at i s;
     (if i < length (connections (redundancy (cfg s)))
      then let (b, s) = transport_bind s in bind_loop is (success \<or> b) s
      else None)
   }"

definition redundancy_mux_bind :: "rasta_st \<Rightarrow> (bool \<times> rasta_st) option" where
  "redundancy_mux_bind s = bind_loop [0..<port_count (mux s)] False s"

fun listen_loop :: "nat list \<Rightarrow> rasta_st \<Rightarrow> rasta_st option" where
  "listen_loop [] s = Some s"
| "listen_loop (i # is) s = do { s \<leftarrow> transport_listen i s; listen_loop is s }"

definition redundancy_mux_listen_channels :: "rasta_st \<Rightarrow> rasta_st option" where
  "redundancy_mux_listen_channels s = listen_loop [0..<port_count (mux s)] s"

definition redundancy_mux_init :: "rasta_st \<Rightarrow> rasta_st" where
  "redundancy_mux_init = map_chan redundancy_channel_init"

fun close_sockets_loop :: "nat list \<Rightarrow> rasta_st \<Rightarrow> rasta_st option" where
  "close_sockets_loop [] s = Some s"
| "close_sockets_loop (i # is) s = do { s \<leftarrow> transport_close_socket i s; close_sockets_loop is s }"

definition redundancy_mux_close :: "rasta_st \<Rightarrow> rasta_st option" where
  "redundancy_mux_close s = do {
     s \<leftarrow> close_sockets_loop [0..<port_count (mux s)] s;
     let s = s\<lparr>mux := (mux s)\<lparr>port_count := 0, transport_sockets := []\<rparr>\<rparr>;
     let s = map_chan redundancy_channel_free s;
     Some (s\<lparr>mux := (mux s)\<lparr>sr_hashing_context := (sr_hashing_context (mux s))\<lparr>key := []\<rparr>\<rparr>\<rparr>)
   }"

section \<open>Receiving: accepting and deferring packets\<close>

definition map_diagnostics ::
  "nat \<Rightarrow> (rasta_redundancy_diagnostics_data \<Rightarrow> rasta_redundancy_diagnostics_data) \<Rightarrow> rasta_st \<Rightarrow> rasta_st" where
  "map_diagnostics i f = map_channel i (\<lambda>c. c\<lparr>diagnostics_data := f (diagnostics_data c)\<rparr>)"

text \<open>The statistics for a packet that another transport channel delivered before.\<close>

definition late_packet_diagnostics :: "RastaRedundancyPacket \<Rightarrow> nat \<Rightarrow> rasta_st \<Rightarrow> rasta_st" where
  "late_packet_diagnostics p channel_id s =
     (let ts = deferqueue_get_ts (diagnostics_packet_buffer (chan s)) (ucast (red_sequence_number p))
      in if ts \<noteq> 0 then
           let (t, s) = now_ms s;
               delay = ucast t - ts
           in if delay > ucast (t_seq (configuration_parameters (chan s)))
              then map_diagnostics channel_id (\<lambda>d. d\<lparr>n_missed := n_missed d + 1\<rparr>) s
              else map_diagnostics channel_id
                     (\<lambda>d. d\<lparr>t_drift := t_drift d + delay, t_drift2 := t_drift2 d + delay * delay\<rparr>) s
         else s)"

definition add_diagnostics_packet :: "RastaRedundancyPacket \<Rightarrow> rasta_st \<Rightarrow> rasta_st" where
  "add_diagnostics_packet p s =
     (let (t, s) = now_ms s
      in map_chan (\<lambda>c. c\<lparr>diagnostics_packet_buffer :=
           snd (deferqueue_add (diagnostics_packet_buffer c) p (ucast t))\<rparr>) s)"

definition add_deferred_packet :: "RastaRedundancyPacket \<Rightarrow> rasta_st \<Rightarrow> rasta_st" where
  "add_deferred_packet p s =
     (let (t, s) = now_ms s
      in map_chan (\<lambda>c. c\<lparr>defer_q := snd (deferqueue_add (defer_q c) p (ucast t))\<rparr>) s)"

text \<open>\<open>n_deferqueue_size * 10\<close> is computed in \<open>unsigned int\<close>.\<close>

definition defer_window :: "rasta_redundancy_channel \<Rightarrow> u64" where
  "defer_window c = seq_rx c + ucast (n_deferqueue_size (configuration_parameters c) * 10)"

definition red_f_receiveData ::
  "RastaRedundancyPacket \<Rightarrow> nat \<Rightarrow> rasta_st \<Rightarrow> (bool \<times> rasta_st) option" where
  "red_f_receiveData p channel_id s =
     (if \<not> red_checksum_correct p then Some (False, s)
      else do {
        _ \<leftarrow> channel_at channel_id s;
        let s = map_diagnostics channel_id (\<lambda>d. d\<lparr>received_packets := received_packets d + 1\<rparr>) s;
        let seq_pdu = (ucast (red_sequence_number p) :: u64);
        if seq_rx (chan s) = 0 \<and> seq_tx (chan s) = 0 \<and> red_sequence_number p \<noteq> 0
        then Some (False, s)
        else if seq_pdu < seq_rx (chan s) then Some (False, late_packet_diagnostics p channel_id s)
        else if seq_pdu = seq_rx (chan s) then
          Some (True, add_deferred_packet p (add_diagnostics_packet p s))
        else if seq_rx (chan s) < seq_pdu \<and> seq_pdu \<le> defer_window (chan s) then
          if deferqueue_contains (defer_q (chan s)) seq_pdu then Some (False, s)
          else if deferqueue_isfull (defer_q (chan s)) then Some (False, s)
          else Some (False, add_deferred_packet p s)
        else Some (False, s)
      })"

section \<open>Receiving: splitting the bytes of a transport channel\<close>

definition handle_received_data ::
  "bytes \<Rightarrow> nat \<Rightarrow> nat \<Rightarrow> rasta_st \<Rightarrow> (RastaRedundancyPacket \<times> rasta_st) option" where
  "handle_received_data buffer offset len s =
     (if offset + len \<le> length buffer then do {
        (p, err) \<leftarrow> bytesToRastaRedundancyPacket (module_error s) (take len (drop offset buffer))
                     (crc_type (redundancy (cfg s))) (sr_hashing_context (mux s)) (uninit s);
        Some (p, s\<lparr>module_error := err\<rparr>)
      }
      else None)"

lemma handle_received_data_progress:
  assumes "handle_received_data buffer offset len s = Some r"
  shows "0 < len \<and> offset + len \<le> length buffer"
  using assms
  by (auto simp: handle_received_data_def bytesToRastaRedundancyPacket_def leShortToHost_def
      Option.bind_eq_Some_conv split: if_splits)

text \<open>One packet of the loop of \<open>receive_packet\<close>.\<close>

definition receive_one :: "nat \<Rightarrow> RastaRedundancyPacket \<Rightarrow> rasta_st \<Rightarrow> (bool \<times> rasta_st) option" where
  "receive_one channel_id p s =
     (if associated_id (chan s) \<noteq> ucast (sender_id (red_data p)) then Some (False, s)
      else if deferqueue_isfull (defer_q (chan s)) then Some (False, s)
      else red_f_receiveData p channel_id s)"

text \<open>\<open>len_remaining\<close> is a \<open>size_t\<close> and wraps when the last packet is longer than what is left.\<close>

function receive_packet_loop ::
  "nat \<Rightarrow> bytes \<Rightarrow> u64 \<Rightarrow> nat \<Rightarrow> bool \<Rightarrow> rasta_st \<Rightarrow> (bool \<times> rasta_st) option" where
  "receive_packet_loop channel_id buffer len_remaining read_offset result s =
     (if len_remaining > 0 then do {
        current_size \<leftarrow> leShortToHost buffer read_offset;
        (p, s) \<leftarrow> handle_received_data buffer read_offset (unat current_size) s;
        (r, s) \<leftarrow> receive_one channel_id p s;
        receive_packet_loop channel_id buffer (len_remaining - ucast current_size)
          (read_offset + unat current_size) (result \<or> r) s
      }
      else Some (result, s))"
  by pat_completeness auto
termination
  by (relation "measure (\<lambda>(_, buffer, _, read_offset, _, _). length buffer - read_offset)")
    (auto dest!: handle_received_data_progress)

declare receive_packet_loop.simps [simp del]

definition receive_packet :: "nat \<Rightarrow> bytes \<Rightarrow> u64 \<Rightarrow> rasta_st \<Rightarrow> (bool \<times> rasta_st) option" where
  "receive_packet channel_id buffer len s = receive_packet_loop channel_id buffer len 0 False s"

section \<open>Delivering to the upper layer\<close>

definition deliver_message_to_upper_layer ::
  "(RastaPacket \<Rightarrow> rasta_st \<Rightarrow> (bool \<times> rasta_st) option) \<Rightarrow> bytes \<Rightarrow> rasta_st \<Rightarrow> (bool \<times> rasta_st) option" where
  "deliver_message_to_upper_layer deliver message s = do {
     (p, err) \<leftarrow> bytesToRastaPacket (module_error s) message (hashing_context (chan s)) (red_data (uninit s));
     deliver p (s\<lparr>module_error := err\<rparr>)
   }"

text \<open>The body of the loop: fetch, serialise, hand over, remove, count.\<close>

definition deliver_next ::
  "(RastaPacket \<Rightarrow> rasta_st \<Rightarrow> (bool \<times> rasta_st) option) \<Rightarrow> rasta_st \<Rightarrow> (bool \<times> rasta_st) option" where
  "deliver_next deliver s = do {
     let queue_packet = deferqueue_get (defer_q (chan s)) (seq_rx (chan s));
     (inner_bytes, err) \<leftarrow> rastaModuleToBytes (module_error s) (red_data queue_packet) (hashing_context (chan s));
     (r, s) \<leftarrow> deliver_message_to_upper_layer deliver inner_bytes (s\<lparr>module_error := err\<rparr>);
     Some (r, map_chan (\<lambda>c. c\<lparr>defer_q := deferqueue_remove (defer_q c) (seq_rx c), seq_rx := seq_rx c + 1\<rparr>) s)
   }"

partial_function (option) deliver_loop ::
  "(RastaPacket \<Rightarrow> rasta_st \<Rightarrow> (bool \<times> rasta_st) option) \<Rightarrow> bool \<Rightarrow> rasta_st \<Rightarrow> (bool \<times> rasta_st) option" where
  "deliver_loop deliver result s =
     (if deferqueue_contains (defer_q (chan s)) (seq_rx (chan s)) then do {
        (r, s) \<leftarrow> deliver_next deliver s;
        deliver_loop deliver (result \<or> r) s
      }
      else Some (result, s))"

section \<open>Diagnostics\<close>

definition run_channel_diagnostics :: "nat \<Rightarrow> rasta_st \<Rightarrow> rasta_st option" where
  "run_channel_diagnostics i s = do {
     c \<leftarrow> channel_at i s;
     let (t, s) = now_ms s;
     if ucast t - start_time (diagnostics_data c) \<ge> word_of_int (n_diagnose (redundancy (cfg s))) then
       let (t, s) = now_ms s;
           s = map_diagnostics i (\<lambda>d. d\<lparr>n_missed := 0, received_packets := 0, t_drift := 0,
                 t_drift2 := 0, start_time := ucast t\<rparr>) s
       in Some (map_chan (\<lambda>c. c\<lparr>diagnostics_packet_buffer :=
                  deferqueue_clear (diagnostics_packet_buffer c)\<rparr>) s)
     else Some s
   }"

section \<open>What sending changes\<close>

lemma mux_send_channel_frame: "mux_send_channel r b i s = Some s' \<Longrightarrow> transport_frame s s'"
  by (auto simp: mux_send_channel_def frame_simps split: if_splits
      dest!: transport_redial_frame quiet_frameD(1) send_callback_frame(1) intro: transport_frame_trans)

lemma mux_send_loop_frame: "mux_send_loop r b is s = Some s' \<Longrightarrow> transport_frame s s'"
proof (induction "is" arbitrary: s)
  case (Cons i "is")
  then obtain t where "mux_send_channel r b i s = Some t" "mux_send_loop r b is t = Some s'"
    by (auto simp: Option.bind_eq_Some_conv)
  with Cons.IH mux_send_channel_frame show ?case by (blast intro: transport_frame_trans)
qed simp

text \<open>Only the frame that is sent reaches the wire.\<close>

lemma mux_send_channel_wire:
  assumes "mux_send_channel r b i s = Some s'"
  shows "\<forall>w \<in> set (wire (net s')). w \<in> set (wire (net s)) \<or> wire_bytes w = b"
  using assms
  by (auto simp: mux_send_channel_def Option.bind_eq_Some_conv split: if_splits
      dest!: transport_redial_frame quiet_frameD(2) send_callback_frame(3))

lemma mux_send_loop_wire:
  assumes "mux_send_loop r b is s = Some s'"
  shows "\<forall>w \<in> set (wire (net s')). w \<in> set (wire (net s)) \<or> wire_bytes w = b"
  using assms
proof (induction "is" arbitrary: s)
  case (Cons i "is")
  then obtain t where "mux_send_channel r b i s = Some t" "mux_send_loop r b is t = Some s'"
    by (auto simp: Option.bind_eq_Some_conv)
  with Cons.IH mux_send_channel_wire show ?case by blast
qed simp

lemma redundancy_mux_send_frame:
  assumes "redundancy_mux_send p r s = Some s'"
  shows "transport_frame (map_chan (\<lambda>c. c\<lparr>seq_tx := seq_tx c + 1\<rparr>) (s\<lparr>module_error := module_error s'\<rparr>)) s'"
proof -
  from assms obtain b err where
    loop: "mux_send_loop r b [0..<length (transport_channels (chan s))]
       (map_chan (\<lambda>c. c\<lparr>seq_tx := seq_tx c + 1\<rparr>) (s\<lparr>module_error := err\<rparr>)) = Some s'"
    by (auto simp: redundancy_mux_send_def Option.bind_eq_Some_conv map_chan_def)
  note frame = mux_send_loop_frame [OF loop]
  then have "module_error s' = err" using transport_frameD(5) by (fastforce simp: map_chan_def)
  with frame show ?thesis by simp
qed

text \<open>
  Sending leaves the connection, the configuration, the clock and the receive side of the channel
  alone and advances \<open>seq_tx\<close> by one.
\<close>

lemma redundancy_mux_send_keeps:
  assumes "redundancy_mux_send p r s = Some s'"
  shows "con s' = con s" and "cfg s' = cfg s" and "transport_lib s' = transport_lib s" and "clk s' = clk s"
    and "factory_error s' = factory_error s" and "uninit s' = uninit s"
    and "associated_id (chan s') = associated_id (chan s)" and "seq_tx (chan s') = seq_tx (chan s) + 1"
    and "seq_rx (chan s') = seq_rx (chan s)" and "defer_q (chan s') = defer_q (chan s)"
    and "diagnostics_packet_buffer (chan s') = diagnostics_packet_buffer (chan s)"
    and "configuration_parameters (chan s') = configuration_parameters (chan s)"
    and "hashing_context (chan s') = hashing_context (chan s)"
    and "sr_hashing_context (mux s') = sr_hashing_context (mux s)"
    and "valid_address (net s') = valid_address (net s)" and "answers (net s') = answers (net s)"
    and "length (transport_channels (chan s')) = length (transport_channels (chan s))"
    and "length (transport_sockets (mux s')) = length (transport_sockets (mux s))"
    and "env_of (net s') = env_of (net s)"
  using transport_frameD [OF redundancy_mux_send_frame [OF assms]] by (simp_all add: map_chan_def)

section \<open>The same frame on every channel\<close>

text \<open>An operating system on which no call fails.\<close>

definition net_ok :: "network \<Rightarrow> bool" where
  "net_ok n \<longleftrightarrow> (\<forall>k. 0 \<le> answers n k) \<and> (\<forall>a. valid_address n a)"

lemma net_ok_frame: "transport_frame s s' \<Longrightarrow> net_ok (net s') = net_ok (net s)"
  by (simp add: net_ok_def transport_frameD)

definition wire_on :: "bytes \<Rightarrow> rasta_transport_channel \<Rightarrow> wire_message" where
  "wire_on b c = \<lparr>wire_channel = tc_id c, wire_fd = tc_fd c, wire_bytes = b\<rparr>"

lemma put_wire_ok: "net_ok (net s) \<Longrightarrow> \<exists>s'. put_wire i fd b s = Some s'"
  by (simp add: put_wire_def call_def sys_call_def net_ok_def not_less [symmetric])

lemma send_callback_ok:
  assumes "net_ok (net s)" and "i < length (transport_channels (chan s))"
  shows "\<exists>s'. send_callback b i s = Some s'"
  using assms put_wire_ok
  by (cases "transport_lib s") (auto simp: send_defs channel_at_def net_ok_def)

text \<open>A channel that is not connected is not redialled by a server or over UDP.\<close>

lemma mux_send_channel_ok:
  assumes "net_ok (net s)" and "i < length (transport_channels (chan s))"
    and "connected (transport_channels (chan s) ! i) \<or> r = RASTA_ROLE_SERVER \<or> transport_lib s = UDP"
  shows "\<exists>s'. mux_send_channel r b i s = Some s' \<and> transport_frame s s' \<and>
    transport_channels (chan s') = transport_channels (chan s) \<and>
    wire (net s') = wire (net s) @ map (wire_on b) (filter connected [transport_channels (chan s) ! i])"
proof (cases "connected (transport_channels (chan s) ! i)")
  case True
  with send_callback_ok [OF assms(1,2), of b] assms(2) send_callback_frame [of b i s] show ?thesis
    by (auto simp: mux_send_channel_def channel_at_def wire_on_def)
next
  case False
  with assms show ?thesis
    by (cases r) (auto simp: mux_send_channel_def channel_at_def redial_defs)
qed

lemma mux_send_loop_ok:
  assumes "net_ok (net s)" and "set is \<subseteq> {..<length (transport_channels (chan s))}"
    and "\<forall>c \<in> set (transport_channels (chan s)). connected c \<or> r = RASTA_ROLE_SERVER \<or> transport_lib s = UDP"
  shows "\<exists>s'. mux_send_loop r b is s = Some s' \<and> transport_frame s s' \<and>
    transport_channels (chan s') = transport_channels (chan s) \<and>
    wire (net s') = wire (net s) @
      map (wire_on b) (filter connected (map ((!) (transport_channels (chan s))) is))"
  using assms
proof (induction "is" arbitrary: s)
  case (Cons i "is")
  have i: "i < length (transport_channels (chan s))" using Cons.prems(2) by simp
  then have "connected (transport_channels (chan s) ! i) \<or> r = RASTA_ROLE_SERVER \<or> transport_lib s = UDP"
    using Cons.prems(3) nth_mem by blast
  from mux_send_channel_ok [OF Cons.prems(1) i this, of b] obtain t where
    t: "mux_send_channel r b i s = Some t" "transport_frame s t"
      "transport_channels (chan t) = transport_channels (chan s)"
      "wire (net t) = wire (net s) @ map (wire_on b) (filter connected [transport_channels (chan s) ! i])"
    by blast
  have "\<exists>s'. mux_send_loop r b is t = Some s' \<and> transport_frame t s' \<and>
    transport_channels (chan s') = transport_channels (chan t) \<and>
    wire (net s') = wire (net t) @ map (wire_on b) (filter connected (map ((!) (transport_channels (chan t))) is))"
    using Cons.prems t(3) net_ok_frame [OF t(2)] transport_frameD(3) [OF t(2)]
    by (intro Cons.IH) auto
  with t show ?case by (auto intro: transport_frame_trans)
qed simp

lemma createRedundancyPacket_wf:
  assumes "packet_wf ctx p" and "crc_len opts \<le> 4" and "8 + unat (pkt_length p) + crc_len opts < 2 ^ 16"
  shows "red_packet_wf ctx (createRedundancyPacket sn p opts)"
proof -
  have "unat (of_nat (8 + unat (pkt_length p) + crc_len opts) :: u16) = 8 + unat (pkt_length p) + crc_len opts"
    using assms(3) by (intro unat_of_nat_bounded) simp
  with assms show ?thesis by (simp add: red_packet_wf_def createRedundancyPacket_def)
qed

text \<open>The conditions under which a packet of the upper layer goes out.\<close>

definition sendable :: "rasta_st \<Rightarrow> RastaPacket \<Rightarrow> bool" where
  "sendable s p \<longleftrightarrow> hashing_ok (hashing_context (chan s)) \<and> packet_wf (hashing_context (chan s)) p \<and>
     crc_len (crc_type (redundancy (cfg s))) \<le> 4 \<and>
     8 + unat (pkt_length p) + crc_len (crc_type (redundancy (cfg s))) < 2 ^ 16 \<and>
     module_error s = RASTA_ERRORS_NONE"

lemma redundancy_mux_send_ok:
  assumes "sendable s p" and "net_ok (net s)"
    and "\<forall>c \<in> set (transport_channels (chan s)). connected c \<or> r = RASTA_ROLE_SERVER \<or> transport_lib s = UDP"
  shows "\<exists>s'. redundancy_mux_send p r s = Some s' \<and> module_error s' = RASTA_ERRORS_NONE \<and>
    transport_channels (chan s') = transport_channels (chan s) \<and>
    wire (net s') = wire (net s) @
      map (wire_on (red_frame (hashing_context (chan s))
        (createRedundancyPacket (ucast (seq_tx (chan s))) p (crc_type (redundancy (cfg s))))))
        (filter connected (transport_channels (chan s)))"
proof -
  let ?q = "createRedundancyPacket (ucast (seq_tx (chan s))) p (crc_type (redundancy (cfg s)))"
  let ?b = "red_frame (hashing_context (chan s)) ?q"
  let ?t = "map_chan (\<lambda>c. c\<lparr>seq_tx := seq_tx c + 1\<rparr>) s"
  have "red_packet_wf (hashing_context (chan s)) ?q"
    using assms(1) by (auto simp: sendable_def intro: createRedundancyPacket_wf)
  then have bytes: "\<exists>q'. rastaRedundancyPacketToBytes (module_error s) ?q (hashing_context (chan s)) =
      Some (?b, q', RASTA_ERRORS_NONE)"
    using assms(1) rastaRedundancyPacketToBytes_eq by (auto simp: sendable_def)
  have t: "transport_channels (chan ?t) = transport_channels (chan s)" "net ?t = net s"
    "module_error ?t = RASTA_ERRORS_NONE" "transport_lib ?t = transport_lib s"
    using assms(1) by (simp_all add: map_chan_def sendable_def)
  have "\<exists>s'. mux_send_loop r ?b [0..<length (transport_channels (chan s))] ?t = Some s' \<and>
      transport_frame ?t s' \<and> transport_channels (chan s') = transport_channels (chan ?t) \<and>
      wire (net s') = wire (net ?t) @ map (wire_on ?b) (filter connected
        (map ((!) (transport_channels (chan ?t))) [0..<length (transport_channels (chan s))]))"
    using assms(2,3) by (intro mux_send_loop_ok) (auto simp: t)
  then obtain s' where s': "mux_send_loop r ?b [0..<length (transport_channels (chan s))] ?t = Some s'"
    "transport_frame ?t s'" "transport_channels (chan s') = transport_channels (chan s)"
    "wire (net s') = wire (net s) @ map (wire_on ?b) (filter connected (transport_channels (chan s)))"
    by (auto simp: t map_nth)
  have same: "s\<lparr>module_error := RASTA_ERRORS_NONE\<rparr> = s"
    using assms(1) by (simp add: sendable_def)
  have "redundancy_mux_send p r s = Some s'"
    using bytes s'(1) by (auto simp: redundancy_mux_send_def same t(1))
  moreover have "module_error s' = RASTA_ERRORS_NONE"
    using transport_frameD(5) [OF s'(2)] t(3) by simp
  ultimately show ?thesis using s'(3,4) by blast
qed

end
