(* ===== verification/Rasta_Connection.thy ===== *)
theory Rasta_Connection
  imports Rasta_Redundancy
begin

text \<open>
  The safety and retransmission layer: \<open>retransmission/messages.c\<close> (sending control packets),
  \<open>data_send_event\<close> of \<open>transport/events.c\<close> (sending queued application messages) and
  \<open>retransmission/safety_retransmission.c\<close> (packet checks, receive buffer, retransmission buffer,
  resetting, closing and opening a connection). The handlers of received packets are in
  \<open>Rasta_Handlers\<close>.

  Functions take and return the endpoint; the C pointer arguments for connection, configuration and
  redundancy channel are its components.
\<close>

section \<open>Timers and diagnostics\<close>

definition reschedule_heartbeat :: "rasta_st \<Rightarrow> rasta_st" where
  "reschedule_heartbeat s =
     (let (t, s) = now_ns s
      in map_con (\<lambda>c. c\<lparr>send_heartbeat_event := reschedule_event (send_heartbeat_event c) t\<rparr>) s)"

definition enable_heartbeat :: "rasta_st \<Rightarrow> rasta_st" where
  "enable_heartbeat s =
     (let (t, s) = now_ns s
      in map_con (\<lambda>c. c\<lparr>send_heartbeat_event := enable_timed_event (send_heartbeat_event c) t\<rparr>) s)"

definition enable_timeout :: "rasta_st \<Rightarrow> rasta_st" where
  "enable_timeout s =
     (let (t, s) = now_ns s
      in map_con (\<lambda>c. c\<lparr>timeout_event := enable_timed_event (timeout_event c) t\<rparr>) s)"

text \<open>\<open>sysconf(_SC_CLK_TCK)\<close> is positive; all operands are 64 bits wide.\<close>

definition round_trip_delay :: "u64 \<Rightarrow> u64 \<Rightarrow> u32 \<Rightarrow> u64" where
  "round_trip_delay t_local tck cts = t_local + 1000 div tck - ucast cts"

definition sr_update_timeout_interval :: "u32 \<Rightarrow> rasta_st \<Rightarrow> rasta_st" where
  "sr_update_timeout_interval cts s =
     (let (t_local, s) = now_ms s;
          t_rtd = round_trip_delay (ucast t_local) (clk_tck (clk s)) cts;
          s = map_con (\<lambda>c. c\<lparr>t_i := ucast (ucast (t_max (sending (cfg s))) - t_rtd)\<rparr>) s;
          (t, s) = now_ns s
      in map_con (\<lambda>c. c\<lparr>timeout_event := reschedule_event (timeout_event c) t\<rparr>) s)"

definition reset_diagnostic :: "rasta_connection \<Rightarrow> rasta_connection" where
  "reset_diagnostic c = c\<lparr>diagnostic_intervals :=
     map (\<lambda>i. i\<lparr>message_count := 0, t_alive_message_count := 0\<rparr>) (diagnostic_intervals c)\<rparr>"

text \<open>The loop with its \<open>break\<close>: only the first matching interval counts.\<close>

fun count_interval :: "u64 \<Rightarrow> u64 \<Rightarrow> diagnostic_interval list \<Rightarrow> diagnostic_interval list" where
  "count_interval t_rtd t_alive [] = []"
| "count_interval t_rtd t_alive (i # is) =
     (if ucast (interval_start i) \<ge> t_rtd \<and> ucast (interval_end i) \<le> t_rtd
      then i\<lparr>message_count := message_count i + 1,
             t_alive_message_count := t_alive_message_count i +
               (if ucast (interval_start i) \<ge> t_alive \<and> ucast (interval_end i) \<le> t_alive then 1 else 0)\<rparr> # is
      else i # count_interval t_rtd t_alive is)"

definition sr_diagnostic_update :: "RastaPacket \<Rightarrow> rasta_st \<Rightarrow> rasta_st" where
  "sr_diagnostic_update p s =
     (let (t_local, s) = now_ms s;
          t_rtd = round_trip_delay (ucast t_local) (clk_tck (clk s)) (confirmed_timestamp p);
          t_alive = ucast t_local - ucast (cts_r (con s))
      in map_con (\<lambda>c.
           let c = c\<lparr>diagnostic_intervals := count_interval t_rtd t_alive (diagnostic_intervals c),
                     received_diagnostic_message_count := received_diagnostic_message_count c + 1\<rparr>
           in if received_diagnostic_message_count c \<ge> diag_window (sending (cfg s))
              then reset_diagnostic c else c) s)"

section \<open>Control packets (messages.c)\<close>

datatype rasta_disconnect_reason =
  RASTA_DISC_REASON_USERREQUEST | RASTA_DISC_REASON_UNEXPECTEDTYPE | RASTA_DISC_REASON_SEQNERROR |
  RASTA_DISC_REASON_TIMEOUT | RASTA_DISC_REASON_SERVICENOTALLOWED |
  RASTA_DISC_REASON_INCOMPATIBLEVERSION | RASTA_DISC_REASON_RETRFAILED | RASTA_DISC_REASON_PROTOCOLERROR

fun reason_value :: "rasta_disconnect_reason \<Rightarrow> u16" where
  "reason_value RASTA_DISC_REASON_USERREQUEST = 0"
| "reason_value RASTA_DISC_REASON_UNEXPECTEDTYPE = 2"
| "reason_value RASTA_DISC_REASON_SEQNERROR = 3"
| "reason_value RASTA_DISC_REASON_TIMEOUT = 4"
| "reason_value RASTA_DISC_REASON_SERVICENOTALLOWED = 5"
| "reason_value RASTA_DISC_REASON_INCOMPATIBLEVERSION = 6"
| "reason_value RASTA_DISC_REASON_RETRFAILED = 7"
| "reason_value RASTA_DISC_REASON_PROTOCOLERROR = 8"

definition sendDisconnectionRequest :: "rasta_disconnect_reason \<Rightarrow> u16 \<Rightarrow> rasta_st \<Rightarrow> rasta_st option" where
  "sendDisconnectionRequest rsn dts s = do {
     let (t, s) = now_ms s;
     discReq \<leftarrow> createDisconnectionRequest (remote_id (con s)) (my_id (con s)) (sn_t (con s))
       (cs_t (con s)) t (ts_r (con s)) \<lparr>details = dts, reason = reason_value rsn\<rparr>
       (sr_hashing_context (mux s));
     redundancy_mux_send discReq (role (con s)) s
   }"

definition sendHeartbeat :: "bool \<Rightarrow> rasta_st \<Rightarrow> rasta_st option" where
  "sendHeartbeat reschedule_manually s = do {
     let (t, s) = now_ms s;
     let hb = createHeartbeat (remote_id (con s)) (my_id (con s)) (sn_t (con s)) (cs_t (con s)) t
       (ts_r (con s)) (sr_hashing_context (mux s));
     s \<leftarrow> redundancy_mux_send hb (role (con s)) s;
     let s = map_con (\<lambda>c. c\<lparr>sn_t := sn_t c + 1\<rparr>) s;
     Some (if reschedule_manually then reschedule_heartbeat s else s)
   }"

definition sendRetransmissionRequest :: "rasta_st \<Rightarrow> rasta_st option" where
  "sendRetransmissionRequest s = do {
     let (t, s) = now_ms s;
     let retrreq = createRetransmissionRequest (remote_id (con s)) (my_id (con s)) (sn_t (con s))
       (cs_t (con s)) t (ts_r (con s)) (sr_hashing_context (mux s));
     s \<leftarrow> redundancy_mux_send retrreq (role (con s)) s;
     Some (map_con (\<lambda>c. c\<lparr>sn_t := sn_t c + 1\<rparr>) s)
   }"

definition sendRetransmissionResponse :: "rasta_st \<Rightarrow> rasta_st option" where
  "sendRetransmissionResponse s = do {
     let (t, s) = now_ms s;
     let retrresp = createRetransmissionResponse (remote_id (con s)) (my_id (con s)) (sn_t (con s))
       (cs_t (con s)) t (ts_r (con s)) (sr_hashing_context (mux s));
     s \<leftarrow> redundancy_mux_send retrresp (role (con s)) s;
     Some (map_con (\<lambda>c. c\<lparr>sn_t := sn_t c + 1\<rparr>) s)
   }"

section \<open>Sending application messages\<close>

definition sr_retransmission_queue_item_count :: "rasta_connection \<Rightarrow> u32" where
  "sr_retransmission_queue_item_count c = queue_size (fifo_retransmission c)"

definition sr_send_queue_item_count :: "rasta_connection \<Rightarrow> u32" where
  "sr_send_queue_item_count c = queue_size (fifo_send c)"

definition sr_recv_queue_item_count :: "rasta_connection \<Rightarrow> u32" where
  "sr_recv_queue_item_count c = queue_size (fifo_receive c)"

text \<open>Pops \<open>n\<close> messages; popping from an empty queue gives a null pointer, which the caller reads.\<close>

fun pop_messages :: "nat \<Rightarrow> bytes queue \<Rightarrow> (bytes list \<times> bytes queue) option" where
  "pop_messages 0 q = Some ([], q)"
| "pop_messages (Suc n) q =
     (case queue_pop q of
        (None, _) \<Rightarrow> None
      | (Some m, q) \<Rightarrow> do {
          (ms, q) \<leftarrow> pop_messages n q;
          Some (m # ms, q)
        })"

text \<open>One data packet with the given number of queued messages.\<close>

definition send_data_packet :: "u32 \<Rightarrow> rasta_st \<Rightarrow> rasta_st option" where
  "send_data_packet n s = do {
     (app_messages, q) \<leftarrow> pop_messages (unat n) (fifo_send (con s));
     let s = map_con (\<lambda>c. c\<lparr>fifo_send := q\<rparr>) s;
     let (t, s) = now_ms s;
     data \<leftarrow> createDataMessage (remote_id (con s)) (my_id (con s)) (sn_t (con s)) (cs_t (con s)) t
       (ts_r (con s)) app_messages (sr_hashing_context (mux s));
     (pkt, err) \<leftarrow> rastaModuleToBytes (module_error s) data (sr_hashing_context (mux s));
     let s = s\<lparr>module_error := err\<rparr>;
     let s = map_con (\<lambda>c. c\<lparr>fifo_retransmission := snd (queue_push (fifo_retransmission c) pkt)\<rparr>) s;
     s \<leftarrow> redundancy_mux_send data (role (con s)) s;
     let s = map_con (\<lambda>c. c\<lparr>sn_t := sequence_number data + 1\<rparr>) s;
     Some (reschedule_heartbeat s)
   }"

text \<open>How many messages the next packet takes: limited by the retransmission queue and \<open>max_packet\<close>.\<close>

definition send_backlog :: "rasta_connection \<Rightarrow> rasta_config_info \<Rightarrow> u32" where
  "send_backlog c config =
     (let available = max_retransmission_queue_size config - sr_retransmission_queue_item_count c;
          n = sr_send_queue_item_count c
      in if available < n then available else n)"

definition data_send_event :: "rasta_st \<Rightarrow> (bool \<times> rasta_st) option" where
  "data_send_event s = do {
     s \<leftarrow> (if sr_retransmission_queue_item_count (con s) < max_retransmission_queue_size (cfg s) then
            let n = send_backlog (con s) (cfg s)
            in if n > 0
               then send_data_packet (if n \<ge> max_packet (sending (cfg s)) then max_packet (sending (cfg s)) else n) s
               else Some s
          else Some s);
     Some (False,
       if sr_send_queue_item_count (con s) = 0
       then map_con (\<lambda>c. c\<lparr>send_event := disable_timed_event (send_event c)\<rparr>) s else s)
   }"

section \<open>Checks of received packets\<close>

definition sr_cts_in_seq :: "rasta_connection \<Rightarrow> rasta_config_sending \<Rightarrow> RastaPacket \<Rightarrow> bool" where
  "sr_cts_in_seq c config p =
     (if pkt_type p = RASTA_TYPE_HB \<or> pkt_type p = RASTA_TYPE_DATA \<or> pkt_type p = RASTA_TYPE_RETRDATA then
        if cts_r c = 0 then True
        else if confirmed_timestamp p < cts_r c then False
        else confirmed_timestamp p - cts_r c < t_max config
      else True)"

definition sr_sn_in_seq :: "rasta_connection \<Rightarrow> RastaPacket \<Rightarrow> bool" where
  "sr_sn_in_seq c p =
     (if pkt_type p = RASTA_TYPE_CONNREQ \<or> pkt_type p = RASTA_TYPE_CONNRESP \<or>
         pkt_type p = RASTA_TYPE_RETRRESP \<or> pkt_type p = RASTA_TYPE_DISCREQ
      then True else sn_r c = sequence_number p)"

definition sr_sn_range_valid :: "rasta_connection \<Rightarrow> rasta_config_sending \<Rightarrow> RastaPacket \<Rightarrow> bool" where
  "sr_sn_range_valid c config p =
     (if pkt_type p = RASTA_TYPE_CONNREQ \<or> pkt_type p = RASTA_TYPE_CONNRESP \<or> pkt_type p = RASTA_TYPE_RETRRESP
      then True
      else sequence_number p \<ge> sn_r c \<and> sequence_number p - sn_r c \<le> ucast (send_max config) * 10)"

definition sr_cs_valid :: "rasta_connection \<Rightarrow> RastaPacket \<Rightarrow> bool" where
  "sr_cs_valid c p =
     (if pkt_type p = RASTA_TYPE_CONNREQ then confirmed_sequence_number p = 0
      else if pkt_type p = RASTA_TYPE_CONNRESP then confirmed_sequence_number p = sn_t c - 1
      else confirmed_sequence_number p \<ge> cs_r c \<and> confirmed_sequence_number p - cs_r c < sn_t c - cs_r c)"

definition sr_message_authentic :: "rasta_connection \<Rightarrow> RastaPacket \<Rightarrow> bool" where
  "sr_message_authentic c p \<longleftrightarrow> sender_id p = remote_id c \<and> receiver_id p = my_id c"

definition sr_check_packet :: "rasta_connection \<Rightarrow> rasta_config_sending \<Rightarrow> RastaPacket \<Rightarrow> bool" where
  "sr_check_packet c config p \<longleftrightarrow>
     checksum_correct p \<and> sr_message_authentic c p \<and> sr_sn_range_valid c config p \<and>
     sr_cs_valid c p \<and> sr_sn_in_seq c p \<and> sr_cts_in_seq c config p"

lemmas check_defs = sr_check_packet_def sr_message_authentic_def sr_sn_range_valid_def sr_cs_valid_def sr_sn_in_seq_def
  sr_cts_in_seq_def rasta_type_defs

section \<open>Receive buffer\<close>

fun add_app_messages :: "RastaPacket \<Rightarrow> bytes list \<Rightarrow> rasta_st \<Rightarrow> rasta_st" where
  "add_app_messages p [] s = s"
| "add_app_messages p (m # ms) s =
     (if queue_full (fifo_receive (con s)) then s
      else
        let s = map_con (\<lambda>c. c\<lparr>fifo_receive := snd (queue_push (fifo_receive c) m)\<rparr>) s;
            s = sr_update_timeout_interval (confirmed_timestamp p) s;
            s = sr_diagnostic_update p s
        in add_app_messages p ms s)"

definition sr_add_app_messages_to_buffer :: "RastaPacket \<Rightarrow> rasta_st \<Rightarrow> rasta_st option" where
  "sr_add_app_messages_to_buffer p s = do {
     received_data \<leftarrow> extractMessageData p;
     Some (add_app_messages p received_data s)
   }"

section \<open>Retransmission buffer\<close>

text \<open>
  The \<open>while\<close> loop of \<open>sr_remove_confirmed_messages\<close> over the queue's elements: it stops behind the
  first packet whose number equals \<open>cs_r\<close>.
\<close>

fun remove_confirmed_loop :: "bytes list \<Rightarrow> rasta_st \<Rightarrow> rasta_st option" where
  "remove_confirmed_loop [] s = Some (map_con (\<lambda>c. c\<lparr>fifo_retransmission := (fifo_retransmission c)\<lparr>items := []\<rparr>\<rparr>) s)"
| "remove_confirmed_loop (e # es) s = do {
     (p, err) \<leftarrow> bytesToRastaPacket (module_error s) e (hashing_context (chan s)) (red_data (uninit s));
     let s = s\<lparr>module_error := err\<rparr>;
     if sequence_number p = cs_r (con s)
     then Some (map_con (\<lambda>c. c\<lparr>fifo_retransmission := (fifo_retransmission c)\<lparr>items := es\<rparr>\<rparr>) s)
     else remove_confirmed_loop es s
   }"

definition sr_remove_confirmed_messages :: "rasta_st \<Rightarrow> rasta_st option" where
  "sr_remove_confirmed_messages s = do {
     s \<leftarrow> remove_confirmed_loop (items (fifo_retransmission (con s))) s;
     if queue_full (fifo_send (con s)) then do {
       (_, s) \<leftarrow> data_send_event s;
       Some s
     }
     else Some s
   }"

text \<open>One packet of the second loop of \<open>sr_retransmit_data\<close>.\<close>

definition retransmit_packet :: "bytes \<Rightarrow> rasta_st \<Rightarrow> rasta_st option" where
  "retransmit_packet b s = do {
     (old_p, err) \<leftarrow> bytesToRastaPacket (module_error s) b (hashing_context (chan s)) (red_data (uninit s));
     let s = s\<lparr>module_error := err\<rparr>;
     app_messages \<leftarrow> extractMessageData old_p;
     let (t, s) = now_ms s;
     data \<leftarrow> createRetransmittedDataMessage (remote_id (con s)) (my_id (con s)) (sn_t (con s))
       (cs_t (con s)) t (ts_r (con s)) app_messages (hashing_context (chan s));
     (new_p, err) \<leftarrow> rastaModuleToBytes (module_error s) data (hashing_context (chan s));
     let s = s\<lparr>module_error := err\<rparr>;
     let s = map_con (\<lambda>c. c\<lparr>fifo_retransmission := snd (queue_push (fifo_retransmission c) new_p)\<rparr>) s;
     s \<leftarrow> redundancy_mux_send data (role (con s)) s;
     let s = map_con (\<lambda>c. c\<lparr>sn_t := sn_t c + 1\<rparr>) s;
     Some (reschedule_heartbeat s)
   }"

fun retransmit_loop :: "bytes list \<Rightarrow> rasta_st \<Rightarrow> rasta_st option" where
  "retransmit_loop [] s = Some s"
| "retransmit_loop (b # bs) s = do { s \<leftarrow> retransmit_packet b s; retransmit_loop bs s }"

text \<open>The array on the stack has \<open>max_retransmission_queue_size\<close> elements.\<close>

definition sr_retransmit_data :: "rasta_st \<Rightarrow> rasta_st option" where
  "sr_retransmit_data s = do {
     let packets = items (fifo_retransmission (con s));
     if length packets > unat (max_retransmission_queue_size (cfg s)) then None
     else do {
       let s = map_con (\<lambda>c. c\<lparr>fifo_retransmission := (fifo_retransmission c)\<lparr>items := []\<rparr>\<rparr>) s;
       s \<leftarrow> retransmit_loop packets s;
       sendHeartbeat True s
     }
   }"

section \<open>Resetting, closing and opening\<close>

definition sr_reset_connection :: "rasta_connection \<Rightarrow> rasta_connection" where
  "sr_reset_connection c =
     c\<lparr>current_state := RASTA_CONNECTION_CLOSED, connected_recv_buffer_size := -1, hb_locked := True,
       send_heartbeat_event := disable_timed_event (send_heartbeat_event c),
       timeout_event := disable_timed_event (timeout_event c),
       errors := \<lparr>safety = 0, address = 0, type_errors = 0, sn_errors = 0, cs_errors = 0\<rparr>\<rparr>"

definition sr_close_connection :: "rasta_disconnect_reason \<Rightarrow> u16 \<Rightarrow> rasta_st \<Rightarrow> rasta_st option" where
  "sr_close_connection rsn dts s =
     (if current_state (con s) = RASTA_CONNECTION_DOWN \<or> current_state (con s) = RASTA_CONNECTION_CLOSED
      then redundancy_channel_close (map_con sr_reset_connection s)
      else do {
        let s = map_con sr_reset_connection s;
        s \<leftarrow> sendDisconnectionRequest rsn dts s;
        let s = map_con (\<lambda>c. c\<lparr>current_state := RASTA_CONNECTION_CLOSED\<rparr>) s;
        redundancy_channel_close s
      })"

definition sr_diagnostic_interval_init :: "rasta_config_sending \<Rightarrow> rasta_connection \<Rightarrow> rasta_connection" where
  "sr_diagnostic_interval_init config c =
     (let n = unat (t_max config) div 500 + (if unat (t_max config) mod 500 > 0 then 1 else 0)
      in c\<lparr>received_diagnostic_message_count := 0,
           diagnostic_intervals := map (\<lambda>i. \<lparr>interval_start = 500 * of_nat i,
             interval_end = 500 * of_nat i + 500, message_count = 0, t_alive_message_count = 0\<rparr>) [0..<n]\<rparr>)"

definition sr_init_connection :: "rasta_role \<Rightarrow> rasta_connection \<Rightarrow> rasta_connection" where
  "sr_init_connection r c = (sr_reset_connection c)\<lparr>role := r\<rparr>"

definition sr_closed_connection :: "rasta_st \<Rightarrow> rasta_st option" where
  "sr_closed_connection s =
     redundancy_channel_close (map_con (\<lambda>c. sr_reset_connection (c\<lparr>current_state := RASTA_CONNECTION_CLOSED\<rparr>)) s)"

definition sr_listen :: "rasta_st \<Rightarrow> rasta_st option" where
  "sr_listen s = redundancy_mux_listen_channels s"

text \<open>The loop of \<open>sr_send\<close>; the result is its return value.\<close>

fun send_loop :: "bytes list \<Rightarrow> rasta_st \<Rightarrow> (int \<times> rasta_st) option" where
  "send_loop [] s = Some (0, s)"
| "send_loop (m # ms) s = do {
     s \<leftarrow> (if queue_full (fifo_send (con s)) then map_option snd (data_send_event s) else Some s);
     let (pushed, q) = queue_push (fifo_send (con s)) m;
     let s = map_con (\<lambda>c. c\<lparr>fifo_send := q\<rparr>) s;
     if \<not> pushed then Some (-1, s)
     else
       let (t, s) = now_ns s
       in send_loop ms (map_con (\<lambda>c. c\<lparr>send_event := enable_timed_event (send_event c) t\<rparr>) s)
   }"

definition sr_send :: "bytes list \<Rightarrow> rasta_st \<Rightarrow> (int \<times> rasta_st) option" where
  "sr_send app_messages s =
     (if current_state (con s) = RASTA_CONNECTION_UP then
        if of_nat (length app_messages) > max_packet (sending (cfg s)) then Some (-1, s)
        else send_loop app_messages s
      else if current_state (con s) = RASTA_CONNECTION_CLOSED \<or> current_state (con s) = RASTA_CONNECTION_DOWN then
        Some (0, map_con (\<lambda>c. c\<lparr>current_state := RASTA_CONNECTION_CLOSED\<rparr>) s)
      else do {
        s \<leftarrow> sendDisconnectionRequest RASTA_DISC_REASON_SERVICENOTALLOWED 0 s;
        Some (-1, map_con (\<lambda>c. c\<lparr>current_state := RASTA_CONNECTION_CLOSED\<rparr>) s)
      })"

text \<open>
  \<open>sr_connect\<close> up to the event loop it runs while it waits for the answer. The Boolean is false when
  the function has returned \<open>NULL\<close>.
\<close>

definition sr_connect_start :: "rasta_st \<Rightarrow> (bool \<times> rasta_st) option" where
  "sr_connect_start s =
     (if ucast (remote_id (con s)) \<noteq> rasta_id_remote (general (cfg s)) then Some (False, s)
      else do {
        (r, s) \<leftarrow> redundancy_channel_connect s;
        if r \<noteq> 0 then Some (False, s)
        else do {
          let s = map_con (sr_init_connection RASTA_ROLE_CLIENT) s;
          let (t, s) = now_ms (map_con (\<lambda>c. c\<lparr>sn_t := initial_sequence_number (cfg s), cs_t := 0\<rparr>) s);
          let s = map_con (\<lambda>c. c\<lparr>cts_r := t, t_i := t_max (sending (cfg s))\<rparr>) s;
          let (t, s) = now_ms s;
          conreq \<leftarrow> createConnectionRequest (remote_id (con s)) (my_id (con s)) (sn_t (con s)) t
            (send_max (sending (cfg s))) RASTA_VERSION (hashing_context (chan s));
          let s = map_con (\<lambda>c. c\<lparr>sn_i := sn_t c\<rparr>) s;
          s \<leftarrow> redundancy_mux_send conreq (role (con s)) s;
          let s = map_con (\<lambda>c. c\<lparr>sn_t := sn_t c + 1, current_state := RASTA_CONNECTION_START\<rparr>) s;
          let (t, s) = now_ns s;
          Some (True, map_con (\<lambda>c. c\<lparr>handshake_timeout_event :=
            enable_timed_event (handshake_timeout_event c) t\<rparr>) s)
        }
      })"

text \<open>The rest of \<open>sr_connect\<close>, after the event loop.\<close>

definition sr_connect_finish :: "rasta_st \<Rightarrow> (bool \<times> rasta_st) option" where
  "sr_connect_finish s = do {
     let s = map_con (\<lambda>c. c\<lparr>handshake_timeout_event := disable_timed_event (handshake_timeout_event c)\<rparr>) s;
     if current_state (con s) \<noteq> RASTA_CONNECTION_UP then do {
       s \<leftarrow> redundancy_channel_close s;
       Some (False, s)
     }
     else Some (True, s)
   }"

definition sr_disconnect :: "rasta_st \<Rightarrow> rasta_st option" where
  "sr_disconnect s = do {
     s \<leftarrow> sr_close_connection RASTA_DISC_REASON_USERREQUEST 0 s;
     Some (map_con (\<lambda>c. c\<lparr>timeout_event := disable_timed_event (timeout_event c),
       send_heartbeat_event := disable_timed_event (send_heartbeat_event c)\<rparr>) s)
   }"

definition sr_cleanup :: "rasta_st \<Rightarrow> rasta_st option" where
  "sr_cleanup s = redundancy_mux_close s"

end
