(* ===== verification/Rasta_Reorder.thy ===== *)
theory Rasta_Reorder
  imports Rasta_Redundancy
begin

text \<open>
  Correctness of the receive side of the redundancy layer. The loop of \<open>red_f_deliverDeferQueue\<close>
  ends and hands the upper layer exactly the deferred packets with the sequence numbers \<open>seq_rx\<close>,
  \<open>seq_rx + 1\<close>, \dots{} up to the first one that is missing (\<open>deliver_loop_run\<close>). Over any history of
  received packets, in any order and with any repetitions and losses, the upper layer sees a gapless
  prefix of what the peer sent (\<open>run_delivers_prefix\<close>), and everything the peer sent once it all
  arrived and fits the queue (\<open>run_delivers_all\<close>).

  The results are proved in the locale \<open>upper_layer\<close>, over an arbitrary layer above that leaves the
  receive side alone; \<open>Rasta_Invariant\<close> interprets it with \<open>sr_receive\<close>.
\<close>

section \<open>The deferred packets in order\<close>

definition advance :: "rasta_st \<Rightarrow> rasta_st" where
  "advance = map_chan (\<lambda>c. c\<lparr>defer_q := deferqueue_remove (defer_q c) (seq_rx c), seq_rx := seq_rx c + 1\<rparr>)"

text \<open>Delivery serialises the stored packet and parses it again: the safety code is a fresh one.\<close>

definition redelivered :: "rasta_hashing_ctx \<Rightarrow> RastaPacket \<Rightarrow> RastaPacket" where
  "redelivered ctx p = p\<lparr>checksum := sr_code_of ctx p, checksum_correct := True\<rparr>"

lemma dq_count_remove: "deferqueue_contains q n \<Longrightarrow> dq_count (deferqueue_remove q n) < dq_count q"
proof -
  assume "deferqueue_contains q n"
  then obtain k where k: "find_index q n = Some k" by (auto simp: deferqueue_contains_def)
  then have "0 < dq_count q"
    using find_index_from_Some [of 0 "live q" n k] by (auto simp: find_index_def live_def)
  with k show ?thesis by (simp add: deferqueue_remove_def dq_sort_def)
qed

function in_order :: "defer_queue \<Rightarrow> u64 \<Rightarrow> RastaRedundancyPacket list" where
  "in_order q n =
     (if deferqueue_contains q n then deferqueue_get q n # in_order (deferqueue_remove q n) (n + 1) else [])"
  by pat_completeness auto
termination by (relation "measure (\<lambda>(q, n). dq_count q)") (auto dest: dq_count_remove)

declare in_order.simps [simp del]

text \<open>The queue that is left when they are gone.\<close>

function rest_of :: "defer_queue \<Rightarrow> u64 \<Rightarrow> defer_queue" where
  "rest_of q n = (if deferqueue_contains q n then rest_of (deferqueue_remove q n) (n + 1) else q)"
  by pat_completeness auto
termination by (relation "measure (\<lambda>(q, n). dq_count q)") (auto dest: dq_count_remove)

declare rest_of.simps [simp del]

text \<open>Every ordered packet was deferred, their keys count up from \<open>n\<close>, and the next key is missing.\<close>

definition in_order_spec :: "defer_queue \<Rightarrow> u64 \<Rightarrow> bool" where
  "in_order_spec q n \<longleftrightarrow> set (in_order q n) \<subseteq> fst ` set_mset (dq_bag q) \<and> dq_invar (rest_of q n) \<and>
     dq_max_count (rest_of q n) = dq_max_count q \<and> dq_bag (rest_of q n) \<subseteq># dq_bag q \<and>
     image_mset fst (dq_bag q) = mset (in_order q n) + image_mset fst (dq_bag (rest_of q n)) \<and>
     \<not> deferqueue_contains (rest_of q n) (n + of_nat (length (in_order q n))) \<and>
     map packet_key (in_order q n) = map (\<lambda>k. n + of_nat k) [0..<length (in_order q n)]"

lemma in_order_spec_step:
  assumes "dq_invar q" and c: "deferqueue_contains q n"
    and IH: "in_order_spec (deferqueue_remove q n) (n + 1)"
  shows "in_order_spec q n"
proof -
  let ?q = "deferqueue_remove q n"
  have sub: "dq_bag ?q \<subseteq># dq_bag q" and inv: "dq_invar ?q" "dq_max_count ?q = dq_max_count q"
    using defer_q.remove_present [OF assms(1) c] by simp_all
  have get: "deferqueue_get q n \<in> fst ` set_mset (dq_bag q)" "packet_key (deferqueue_get q n) = n"
    using defer_q.get_in [OF assms(1) c] by force+
  have keys: "map (\<lambda>k. n + of_nat k) [0..<Suc m] = n # map (\<lambda>k. n + 1 + of_nat k) [0..<m]" for m
    by (simp add: upt_conv_Cons map_Suc_upt [symmetric] del: upt_Suc)
  have "set (in_order ?q (n + 1)) \<subseteq> fst ` set_mset (dq_bag q)"
    using IH set_mset_mono [OF sub] unfolding in_order_spec_def by fastforce
  moreover have "dq_bag (rest_of ?q (n + 1)) \<subseteq># dq_bag q"
    using IH sub unfolding in_order_spec_def by (blast intro: subset_mset.order_trans)
  moreover have "image_mset fst (dq_bag q) = add_mset (deferqueue_get q n) (image_mset fst (dq_bag ?q))"
    using defer_q.remove_present [OF assms(1) c] defer_q.get_in [OF assms(1) c]
    by (metis fst_conv image_mset_add_mset insert_DiffM)
  ultimately show ?thesis
    using IH get inv keys [of "length (in_order ?q (n + 1))"] c
    unfolding in_order_spec_def in_order.simps [of q n] rest_of.simps [of q n]
    by (simp add: add.assoc del: upt_Suc)
qed

lemma in_order_spec: "dq_invar q \<Longrightarrow> in_order_spec q n"
proof (induction q n rule: in_order.induct)
  case (1 q n)
  show ?case
  proof (cases "deferqueue_contains q n")
    case True
    with 1 defer_q.remove_keeps show ?thesis by (blast intro: in_order_spec_step)
  next
    case False
    with 1 show ?thesis
      by (simp add: in_order_spec_def in_order.simps [of q n] rest_of.simps [of q n])
  qed
qed

lemmas in_order_facts = in_order_spec [unfolded in_order_spec_def]

section \<open>What a received packet does\<close>

text \<open>The packet is put into the defer queue.\<close>

definition accepted :: "RastaRedundancyPacket \<Rightarrow> rasta_redundancy_channel \<Rightarrow> bool" where
  "accepted p c \<longleftrightarrow> red_checksum_correct p \<and>
     \<not> (seq_rx c = 0 \<and> seq_tx c = 0 \<and> red_sequence_number p \<noteq> 0) \<and>
     (packet_key p = seq_rx c \<or>
      seq_rx c < packet_key p \<and> packet_key p \<le> defer_window c \<and>
      \<not> deferqueue_contains (defer_q c) (packet_key p) \<and> \<not> deferqueue_isfull (defer_q c))"

text \<open>All of the state but transport statistics, the clock and the two packet queues.\<close>

definition no_queue :: defer_queue where
  "no_queue = \<lparr>elements = [], dq_count = 0, dq_max_count = 0\<rparr>"

definition receive_view :: "rasta_st \<Rightarrow> rasta_st" where
  "receive_view s = s\<lparr>clk := (clk s)\<lparr>n_reads := 0\<rparr>, chan := (chan s)\<lparr>transport_channels := [],
     defer_q := no_queue, diagnostics_packet_buffer := no_queue\<rparr>\<rparr>"

lemma receive_view_now: "receive_view (snd (now_ms s)) = receive_view s"
  by (simp add: receive_view_def now_ms_def cur_timestamp_def clock_gettime_def Let_def)

lemma receive_view_diag [simp]: "receive_view (map_diagnostics i f s) = receive_view s"
  by (simp add: receive_view_def map_diagnostics_def map_channel_def map_chan_def)

lemma defer_q_diag [simp]: "defer_q (chan (map_diagnostics i f s)) = defer_q (chan s)"
  by (simp add: map_diagnostics_def map_channel_def map_chan_def)

lemma now_ms_simps [simp]:
  "chan (snd (now_ms s)) = chan s" "con (snd (now_ms s)) = con s"
  by (simp_all add: now_ms_def cur_timestamp_def clock_gettime_def Let_def)

lemma late_packet_view:
  "receive_view (late_packet_diagnostics p i s) = receive_view s \<and>
   defer_q (chan (late_packet_diagnostics p i s)) = defer_q (chan s)"
  using receive_view_now [of s] by (simp add: late_packet_diagnostics_def Let_def split_beta)

lemma add_diagnostics_view:
  "receive_view (add_diagnostics_packet p s) = receive_view s \<and>
   defer_q (chan (add_diagnostics_packet p s)) = defer_q (chan s)"
  using receive_view_now [of s]
  by (simp add: add_diagnostics_packet_def Let_def split_beta map_chan_def) (simp add: receive_view_def)

lemma add_deferred_view:
  "receive_view (add_deferred_packet p s) = receive_view s \<and>
   (\<exists>t. defer_q (chan (add_deferred_packet p s)) = snd (deferqueue_add (defer_q (chan s)) p t))"
  using receive_view_now [of s]
  by (auto simp: add_deferred_packet_def Let_def split_beta map_chan_def) (simp add: receive_view_def)

lemma receive_viewD:
  assumes "receive_view s' = receive_view s"
  shows "con s' = con s" and "cfg s' = cfg s" and "mux s' = mux s" and "module_error s' = module_error s"
    and "uninit s' = uninit s" and "net s' = net s" and "transport_lib s' = transport_lib s"
    and "seq_rx (chan s') = seq_rx (chan s)" and "seq_tx (chan s') = seq_tx (chan s)"
    and "hashing_context (chan s') = hashing_context (chan s)"
    and "configuration_parameters (chan s') = configuration_parameters (chan s)"
    and "associated_id (chan s') = associated_id (chan s)"
proof -
  note e = assms
  show "con s' = con s" using arg_cong [OF e, of con] by (simp add: receive_view_def)
  show "cfg s' = cfg s" using arg_cong [OF e, of cfg] by (simp add: receive_view_def)
  show "mux s' = mux s" using arg_cong [OF e, of mux] by (simp add: receive_view_def)
  show "module_error s' = module_error s" using arg_cong [OF e, of module_error] by (simp add: receive_view_def)
  show "uninit s' = uninit s" using arg_cong [OF e, of uninit] by (simp add: receive_view_def)
  show "net s' = net s" using arg_cong [OF e, of net] by (simp add: receive_view_def)
  show "transport_lib s' = transport_lib s" using arg_cong [OF e, of transport_lib] by (simp add: receive_view_def)
  show "seq_rx (chan s') = seq_rx (chan s)" using arg_cong [OF e, of "\<lambda>s. seq_rx (chan s)"] by (simp add: receive_view_def)
  show "seq_tx (chan s') = seq_tx (chan s)" using arg_cong [OF e, of "\<lambda>s. seq_tx (chan s)"] by (simp add: receive_view_def)
  show "hashing_context (chan s') = hashing_context (chan s)"
    using arg_cong [OF e, of "\<lambda>s. hashing_context (chan s)"] by (simp add: receive_view_def)
  show "configuration_parameters (chan s') = configuration_parameters (chan s)"
    using arg_cong [OF e, of "\<lambda>s. configuration_parameters (chan s)"] by (simp add: receive_view_def)
  show "associated_id (chan s') = associated_id (chan s)"
    using arg_cong [OF e, of "\<lambda>s. associated_id (chan s)"] by (simp add: receive_view_def)
qed

lemma red_f_receiveData_effect:
  assumes "red_f_receiveData p i s = Some (r, s')"
  shows "receive_view s' = receive_view s"
    and "r \<longleftrightarrow> accepted p (chan s) \<and> packet_key p = seq_rx (chan s)"
    and "\<exists>t. defer_q (chan s') =
      (if accepted p (chan s) then snd (deferqueue_add (defer_q (chan s)) p t) else defer_q (chan s))"
proof -
  define u where "u = map_diagnostics i (\<lambda>d. d\<lparr>received_packets := received_packets d + 1\<rparr>) s"
  have u: "seq_rx (chan u) = seq_rx (chan s)" "seq_tx (chan u) = seq_tx (chan s)" "defer_q (chan u) = defer_q (chan s)"
    "defer_window (chan u) = defer_window (chan s)" "receive_view u = receive_view s"
    by (simp_all add: u_def map_diagnostics_def map_channel_def map_chan_def defer_window_def)
      (simp add: receive_view_def)
  have add: "receive_view (add_deferred_packet p (add_diagnostics_packet p u)) = receive_view s \<and>
     (\<exists>t. defer_q (chan (add_deferred_packet p (add_diagnostics_packet p u))) = snd (deferqueue_add (defer_q (chan s)) p t))"
    using add_deferred_view [of p "add_diagnostics_packet p u"] add_diagnostics_view [of p u] u by auto
  note facts = late_packet_view [of p i u] add_deferred_view [of p u] add u(3,5)
  have "receive_view s' = receive_view s \<and> (r \<longleftrightarrow> accepted p (chan s) \<and> packet_key p = seq_rx (chan s)) \<and>
    (\<exists>t. defer_q (chan s') =
      (if accepted p (chan s) then snd (deferqueue_add (defer_q (chan s)) p t) else defer_q (chan s)))"
    using assms
    unfolding red_f_receiveData_def accepted_def u_def [symmetric] packet_key_def Let_def u(1-4)
    by - (insert facts, auto simp: Option.bind_eq_Some_conv split: if_splits)
  then show "receive_view s' = receive_view s"
    and "r \<longleftrightarrow> accepted p (chan s) \<and> packet_key p = seq_rx (chan s)"
    and "\<exists>t. defer_q (chan s') =
      (if accepted p (chan s) then snd (deferqueue_add (defer_q (chan s)) p t) else defer_q (chan s))"
    by blast+
qed

section \<open>The loop\<close>

text \<open>What the layer above must leave alone, and the invariant it maintains.\<close>

definition receive_side :: "rasta_st \<Rightarrow> u64 \<times> defer_queue \<times> rasta_hashing_ctx \<times> rasta_config_redundancy \<times> u64" where
  "receive_side s = (seq_rx (chan s), defer_q (chan s), hashing_context (chan s),
     configuration_parameters (chan s), associated_id (chan s))"

lemma receive_sideD:
  assumes "receive_side s' = receive_side s"
  shows "seq_rx (chan s') = seq_rx (chan s)" and "defer_q (chan s') = defer_q (chan s)"
    and "hashing_context (chan s') = hashing_context (chan s)"
    and "configuration_parameters (chan s') = configuration_parameters (chan s)"
    and "associated_id (chan s') = associated_id (chan s)"
  using assms by (simp_all add: receive_side_def)

text \<open>The check of \<open>receive_packet\<close> in front of \<open>red_f_receiveData\<close>.\<close>

definition admitted :: "RastaRedundancyPacket \<Rightarrow> rasta_redundancy_channel \<Rightarrow> bool" where
  "admitted p c \<longleftrightarrow> associated_id c = ucast (sender_id (red_data p)) \<and> \<not> deferqueue_isfull (defer_q c) \<and>
     accepted p c"

lemma receive_one_effect:
  assumes "receive_one i p s = Some (r, s')"
  shows "receive_view s' = receive_view s"
    and "r \<longleftrightarrow> admitted p (chan s) \<and> packet_key p = seq_rx (chan s)"
    and "\<exists>t. defer_q (chan s') =
      (if admitted p (chan s) then snd (deferqueue_add (defer_q (chan s)) p t) else defer_q (chan s))"
proof -
  have "receive_view s' = receive_view s \<and> (r \<longleftrightarrow> admitted p (chan s) \<and> packet_key p = seq_rx (chan s)) \<and>
    (\<exists>t. defer_q (chan s') =
      (if admitted p (chan s) then snd (deferqueue_add (defer_q (chan s)) p t) else defer_q (chan s)))"
    using assms red_f_receiveData_effect [of p i s r s']
    by (auto simp: receive_one_def admitted_def split: if_splits)
  then show "receive_view s' = receive_view s"
    and "r \<longleftrightarrow> admitted p (chan s) \<and> packet_key p = seq_rx (chan s)"
    and "\<exists>t. defer_q (chan s') =
      (if admitted p (chan s) then snd (deferqueue_add (defer_q (chan s)) p t) else defer_q (chan s))"
    by blast+
qed

text \<open>The bag after one packet.\<close>

lemma receive_one_bag:
  assumes "receive_one i p s = Some (r, s')" and "dq_invar (defer_q (chan s))"
  shows "dq_invar (defer_q (chan s'))" and "dq_max_count (defer_q (chan s')) = dq_max_count (defer_q (chan s))"
    and "\<exists>t. dq_bag (defer_q (chan s')) =
      (if admitted p (chan s) then add_mset (p, t) (dq_bag (defer_q (chan s))) else dq_bag (defer_q (chan s)))"
proof -
  let ?q = "defer_q (chan s)"
  obtain t where q: "defer_q (chan s') = (if admitted p (chan s) then snd (deferqueue_add ?q p t) else ?q)"
    using receive_one_effect(3) [OF assms(1)] by blast
  have "admitted p (chan s) \<Longrightarrow> size (dq_bag ?q) < dq_max_count ?q"
    using defer_q.size_le [OF assms(2)] size_dq_bag [OF assms(2)]
    by (auto simp: admitted_def deferqueue_isfull_def)
  then have "admitted p (chan s) \<Longrightarrow> \<exists>q'. deferqueue_add ?q p t = (True, q') \<and> dq_invar q' \<and>
      dq_max_count q' = dq_max_count ?q \<and> dq_bag q' = add_mset (p, t) (dq_bag ?q)"
    using defer_q.add_room [OF assms(2)] by blast
  then show "dq_invar (defer_q (chan s'))" and "dq_max_count (defer_q (chan s')) = dq_max_count ?q"
    and "\<exists>t. dq_bag (defer_q (chan s')) =
      (if admitted p (chan s) then add_mset (p, t) (dq_bag ?q) else dq_bag ?q)"
    using q assms(2) by (auto split: if_splits)
qed

text \<open>The packets of one buffer, as \<open>receive_packet\<close> takes them.\<close>

fun receive_all :: "nat \<Rightarrow> RastaRedundancyPacket list \<Rightarrow> rasta_st \<Rightarrow> (bool \<times> rasta_st) option" where
  "receive_all i [] s = Some (False, s)"
| "receive_all i (p # ps) s = do {
     (r, s) \<leftarrow> receive_one i p s;
     (r', s) \<leftarrow> receive_all i ps s;
     Some (r \<or> r', s)
   }"

lemma receive_all_effect:
  assumes "receive_all i ps s = Some (r, s')" and "dq_invar (defer_q (chan s))"
  shows "receive_view s' = receive_view s \<and> dq_invar (defer_q (chan s')) \<and>
    dq_max_count (defer_q (chan s')) = dq_max_count (defer_q (chan s)) \<and>
    (\<forall>x \<in># dq_bag (defer_q (chan s')). x \<in># dq_bag (defer_q (chan s)) \<or>
      fst x \<in> set ps \<and> red_checksum_correct (fst x)) \<and>
    (\<not> r \<longrightarrow> \<not> deferqueue_contains (defer_q (chan s)) (seq_rx (chan s)) \<longrightarrow>
      \<not> deferqueue_contains (defer_q (chan s')) (seq_rx (chan s)))"
  using assms
proof (induction ps arbitrary: s r)
  case (Cons p ps)
  obtain r1 u r2 where u: "receive_one i p s = Some (r1, u)" and run: "receive_all i ps u = Some (r2, s')"
    and r: "r = (r1 \<or> r2)"
    using Cons.prems by (auto simp: Option.bind_eq_Some_conv)
  note one = receive_one_effect [OF u] receive_one_bag [OF u Cons.prems(2)]
  note IH = Cons.IH [OF run one(4)]
  obtain t where bag: "dq_bag (defer_q (chan u)) =
      (if admitted p (chan s) then add_mset (p, t) (dq_bag (defer_q (chan s))) else dq_bag (defer_q (chan s)))"
    using one(6) by blast
  have "\<not> deferqueue_contains (defer_q (chan u)) (seq_rx (chan s))"
    if "\<not> r1" "\<not> deferqueue_contains (defer_q (chan s)) (seq_rx (chan s))"
    using that one(2) bag defer_q.contains_iff [OF one(4)] defer_q.contains_iff [OF Cons.prems(2)] by auto
  moreover have "seq_rx (chan u) = seq_rx (chan s)" using one(1) by (rule receive_viewD)
  moreover have "\<forall>x \<in># dq_bag (defer_q (chan u)). x \<in># dq_bag (defer_q (chan s)) \<or>
      fst x \<in> set (p # ps) \<and> red_checksum_correct (fst x)"
    using bag by (auto simp: admitted_def accepted_def)
  ultimately show ?case using IH one(1,5) r by auto
qed simp

lemma map_upt_extend:
  assumes "ds = map f [n..<n + length ds]" and "es = map f [n + length ds..<n + length ds + k]"
  shows "ds @ es = map f [n..<n + length (ds @ es)]"
proof -
  have "length es = k" using arg_cong [OF assms(2), of length] by simp
  then have "map f [n..<n + length (ds @ es)] = map f [n..<n + length ds] @ map f [n + length ds..<n + length ds + k]"
    using upt_add_eq_append [of n "n + length ds" k] by (simp add: add.assoc)
  with assms show ?thesis by simp
qed

section \<open>Histories\<close>

text \<open>
  A history of the receive side: the packets that came in, buffer by buffer, and the packets the
  upper layer was handed. Between two buffers the endpoint can do anything that leaves the receive
  side alone and keeps the invariant of the upper layer.
\<close>

inductive red_history ::
  "(RastaPacket \<Rightarrow> rasta_st \<Rightarrow> (bool \<times> rasta_st) option) \<Rightarrow> (rasta_st \<Rightarrow> bool) \<Rightarrow>
   rasta_st \<Rightarrow> RastaRedundancyPacket list list \<Rightarrow> RastaPacket list \<Rightarrow> rasta_st \<Rightarrow> bool"
  for deliver inv s
where
  start: "red_history deliver inv s [] [] s"
| discard: "red_history deliver inv s bs ds t \<Longrightarrow> receive_all i ps t = Some (False, u) \<Longrightarrow>
    red_history deliver inv s (bs @ [ps]) ds u"
| handover: "red_history deliver inv s bs ds t \<Longrightarrow> receive_all i ps t = Some (True, u) \<Longrightarrow>
    deliver_loop deliver False u = Some (b, v) \<Longrightarrow>
    red_history deliver inv s (bs @ [ps])
      (ds @ map (redelivered (hashing_context (chan u)) \<circ> red_data)
        (in_order (defer_q (chan u)) (seq_rx (chan u)))) v"
| other: "red_history deliver inv s bs ds t \<Longrightarrow> receive_side u = receive_side t \<Longrightarrow> inv u \<Longrightarrow>
    red_history deliver inv s bs ds u"

text \<open>The packet carries the message with its number in the stream of the peer.\<close>

definition genuine :: "rasta_hashing_ctx \<Rightarrow> (nat \<Rightarrow> RastaPacket) \<Rightarrow> RastaRedundancyPacket \<Rightarrow> bool" where
  "genuine ctx msgs p \<longleftrightarrow> red_data p = msgs (unat (red_sequence_number p)) \<and> packet_wf ctx (red_data p)"

text \<open>The invariant of the receive side: \<open>n\<close> messages were handed over before.\<close>

definition reorder_inv ::
  "rasta_hashing_ctx \<Rightarrow> (nat \<Rightarrow> RastaPacket) \<Rightarrow> nat \<Rightarrow> nat \<Rightarrow> RastaPacket list \<Rightarrow> rasta_st \<Rightarrow> bool" where
  "reorder_inv ctx msgs cap n ds s \<longleftrightarrow> dq_invar (defer_q (chan s)) \<and> hashing_context (chan s) = ctx \<and>
     dq_max_count (defer_q (chan s)) = cap \<and>
     (\<forall>x \<in># dq_bag (defer_q (chan s)). genuine ctx msgs (fst x)) \<and>
     unat (seq_rx (chan s)) = n + length ds \<and> n + length ds \<le> 2 ^ 32 \<and>
     \<not> deferqueue_contains (defer_q (chan s)) (seq_rx (chan s)) \<and>
     ds = map (redelivered ctx \<circ> msgs) [n..<n + length ds]"

section \<open>Nothing is lost while the queue has room\<close>

definition dq_keys :: "defer_queue \<Rightarrow> u64 multiset" where
  "dq_keys q = image_mset (packet_key \<circ> fst) (dq_bag q)"

text \<open>
  The channel has received \<open>seen\<close>, all numbers lie below \<open>m\<close>: each packet of \<open>seen\<close> is handed over
  or deferred, and no number is deferred twice. \<open>batch\<close> are the packets of the current buffer.
\<close>

definition arrival_inv ::
  "nat \<Rightarrow> RastaRedundancyPacket set \<Rightarrow> RastaRedundancyPacket set \<Rightarrow> rasta_redundancy_channel \<Rightarrow> bool" where
  "arrival_inv m seen batch c \<longleftrightarrow> dq_invar (defer_q c) \<and> unat (seq_rx c) \<le> m \<and>
     (\<forall>k. count (dq_keys (defer_q c)) k \<le> 1) \<and>
     (\<forall>k \<in># dq_keys (defer_q c). seq_rx c \<le> k \<and> unat k < m) \<and>
     (\<forall>p \<in> seen. packet_key p < seq_rx c \<or> packet_key p \<in># dq_keys (defer_q c)) \<and>
     (seq_rx c \<in># dq_keys (defer_q c) \<longrightarrow> seq_rx c \<in> packet_key ` batch)"

lemma contains_keys: "dq_invar q \<Longrightarrow> deferqueue_contains q k \<longleftrightarrow> k \<in># dq_keys q"
  by (auto simp: defer_q.contains_iff dq_keys_def)

lemma size_keys: "dq_invar q \<Longrightarrow> size (dq_keys q) = dq_count q"
  by (simp add: dq_keys_def size_dq_bag)

text \<open>Distinct keys in an interval that misses one number leave room for it.\<close>

lemma room_for_missing:
  assumes "\<forall>k. count K k \<le> 1" and "\<forall>k \<in># K. n \<le> k \<and> unat k < m"
    and "x \<notin># K" and "n \<le> x" and "unat x < m" and "m \<le> unat n + cap"
  shows "size (K :: u64 multiset) < cap"
proof -
  have "size K = (\<Sum>k\<in>set_mset K. count K k)" by (simp add: size_multiset_overloaded_eq)
  also have "\<dots> \<le> (\<Sum>k\<in>set_mset K. 1)" using assms(1) by (intro sum_mono) simp
  also have "\<dots> = card (unat ` set_mset K)"
    using card_image [of unat "set_mset K"] by (simp add: inj_on_def word_unat_eq_iff)
  also have "\<dots> < card {unat n..<m}"
  proof (rule psubset_card_mono)
    have "unat ` set_mset K \<subseteq> {unat n..<m}" using assms(2) by (auto simp: word_le_nat_alt)
    moreover have "unat x \<in> {unat n..<m}" using assms(4,5) by (simp add: word_le_nat_alt)
    moreover have "unat x \<notin> unat ` set_mset K" using assms(3) by (auto simp: word_unat_eq_iff [symmetric])
    ultimately show "unat ` set_mset K \<subset> {unat n..<m}" by blast
  qed simp
  also have "\<dots> \<le> cap" using assms(6) by simp
  finally show ?thesis .
qed

text \<open>A packet the peer sent that is in the window of the channel.\<close>

definition in_window :: "nat \<Rightarrow> nat \<Rightarrow> rasta_redundancy_channel \<Rightarrow> RastaRedundancyPacket \<Rightarrow> bool" where
  "in_window n m c p \<longleftrightarrow> red_checksum_correct p \<and> associated_id c = ucast (sender_id (red_data p)) \<and>
     n \<le> unat (red_sequence_number p) \<and> unat (red_sequence_number p) < m"

definition window_fits :: "nat \<Rightarrow> nat \<Rightarrow> rasta_redundancy_channel \<Rightarrow> bool" where
  "window_fits n m c \<longleftrightarrow> 0 < n \<and> n \<le> unat (seq_rx c) \<and> m \<le> n + dq_max_count (defer_q c) \<and>
     m \<le> n + unat (n_deferqueue_size (configuration_parameters c) * 10) \<and> unat (seq_rx c) \<le> 2 ^ 32"

lemma in_window_admitted:
  assumes "window_fits n m c" and "in_window n m c p" and "arrival_inv m seen batch c"
    and "seq_rx c \<le> packet_key p" and "packet_key p \<notin># dq_keys (defer_q c)"
  shows "admitted p c"
proof -
  have q: "dq_invar (defer_q c)" using assms(3) by (simp add: arrival_inv_def)
  have key: "unat (packet_key p) = unat (red_sequence_number p)" by (simp add: packet_key_def unat_u32_u64)
  have "size (dq_keys (defer_q c)) < dq_max_count (defer_q c)"
    using assms by (intro room_for_missing [where n = "seq_rx c" and m = m and x = "packet_key p"])
      (auto simp: arrival_inv_def window_fits_def in_window_def key)
  then have room: "\<not> deferqueue_isfull (defer_q c)" by (simp add: size_keys [OF q] deferqueue_isfull_def)
  let ?w = "n_deferqueue_size (configuration_parameters c) * 10"
  have "unat (defer_window c) = unat (seq_rx c) + unat ?w"
    using assms(1) unat_lt [of ?w] unat_add_lem [of "seq_rx c" "ucast ?w :: u64"]
    by (simp add: defer_window_def window_fits_def unat_u32_u64)
  then have "packet_key p \<le> defer_window c"
    using assms(1,2) by (simp add: word_le_nat_alt key in_window_def window_fits_def)
  moreover have "seq_rx c \<noteq> 0" using assms(1) by (auto simp: window_fits_def)
  ultimately show ?thesis
    using assms(2,4,5) room q
    by (auto simp: admitted_def accepted_def in_window_def contains_keys)
qed

lemma arrival_inv_one:
  assumes "receive_one i p s = Some (r, s')" and "window_fits n m (chan s)" and "in_window n m (chan s) p"
    and "arrival_inv m seen batch (chan s)" and "packet_key p \<notin> packet_key ` batch"
  shows "arrival_inv m (insert p seen) (insert p batch) (chan s')"
proof -
  let ?K = "dq_keys (defer_q (chan s))" and ?K' = "dq_keys (defer_q (chan s'))"
  have q: "dq_invar (defer_q (chan s))" using assms(4) by (simp add: arrival_inv_def)
  have q': "dq_invar (defer_q (chan s'))" and rx: "seq_rx (chan s') = seq_rx (chan s)"
    using receive_one_bag(1) [OF assms(1) q] receive_viewD(8) [OF receive_one_effect(1) [OF assms(1)]] .
  have K': "?K' = (if admitted p (chan s) then add_mset (packet_key p) ?K else ?K)"
    using receive_one_bag(3) [OF assms(1) q] by (auto simp: dq_keys_def)
  have fresh: "packet_key p \<notin># ?K" if "admitted p (chan s)"
    using that assms(4,5) q by (auto simp: admitted_def accepted_def contains_keys arrival_inv_def)
  have below: "seq_rx (chan s) \<le> packet_key p" if "admitted p (chan s)"
    using that by (auto simp: admitted_def accepted_def)
  have m: "unat (packet_key p) < m" using assms(3) by (simp add: in_window_def packet_key_def unat_u32_u64)
  have covered: "packet_key p < seq_rx (chan s) \<or> packet_key p \<in># ?K'"
    using in_window_admitted [OF assms(2,3,4)] K'
    by (cases "packet_key p \<in># ?K"; cases "packet_key p < seq_rx (chan s)") auto
  have count: "count ?K' k \<le> 1" for k
    using assms(4) fresh K' by (auto simp: arrival_inv_def not_in_iff)
  show ?thesis
    using assms(4) q' covered count m below K' unfolding arrival_inv_def rx by (auto split: if_splits)
qed

lemma arrival_inv_all:
  assumes "receive_all i ps s = Some (r, s')" and "window_fits n m (chan s)"
    and "\<forall>p \<in> set ps. in_window n m (chan s) p" and "arrival_inv m seen batch (chan s)"
    and "distinct (map packet_key ps)" and "packet_key ` set ps \<inter> packet_key ` batch = {}"
  shows "arrival_inv m (set ps \<union> seen) (set ps \<union> batch) (chan s')"
  using assms
proof (induction ps arbitrary: s r seen batch)
  case (Cons p ps)
  obtain r1 u r2 where u: "receive_one i p s = Some (r1, u)" and run: "receive_all i ps u = Some (r2, s')"
    using Cons.prems(1) by (auto simp: Option.bind_eq_Some_conv)
  have q: "dq_invar (defer_q (chan s))" using Cons.prems(4) by (simp add: arrival_inv_def)
  note v = receive_viewD [OF receive_one_effect(1) [OF u]] receive_one_bag(2) [OF u q]
  have a: "arrival_inv m (insert p seen) (insert p batch) (chan u)"
    using Cons.prems by (intro arrival_inv_one [OF u, of n]) auto
  have "window_fits n m (chan u)" "\<forall>p \<in> set ps. in_window n m (chan u) p"
    using Cons.prems(2,3) v unfolding window_fits_def in_window_def by auto
  moreover have "distinct (map packet_key ps)" "packet_key ` set ps \<inter> packet_key ` insert p batch = {}"
    using Cons.prems(5,6) by auto
  ultimately show ?case using Cons.IH [OF run _ _ a] by simp
qed simp

lemma arrival_inv_handover:
  assumes "arrival_inv m seen batch c" and l: "l = in_order (defer_q c) (seq_rx c)"
    and "l \<noteq> [] \<Longrightarrow> unat (seq_rx c + of_nat (length l)) = unat (seq_rx c) + length l"
    and "seq_rx c' = seq_rx c + of_nat (length l)" and "defer_q c' = rest_of (defer_q c) (seq_rx c)"
  shows "arrival_inv m seen {} c'"
proof -
  let ?n = "seq_rx c" and ?R = "dq_keys (defer_q c')"
  have q: "dq_invar (defer_q c)" using assms(1) by (simp add: arrival_inv_def)
  note facts = in_order_facts [OF q, of ?n, folded l assms(5)]
  have "dq_keys (defer_q c) = image_mset packet_key (image_mset fst (dq_bag (defer_q c)))"
    by (simp add: dq_keys_def multiset.map_comp)
  also have "\<dots> = image_mset packet_key (mset l + image_mset fst (dq_bag (defer_q c')))"
    using facts by (simp only:)
  also have "\<dots> = mset (map packet_key l) + ?R"
    by (simp add: dq_keys_def multiset.map_comp)
  also have "map packet_key l = map (\<lambda>k. ?n + of_nat k) [0..<length l]" using facts by blast
  finally have K: "dq_keys (defer_q c) = mset (map (\<lambda>k. ?n + of_nat k) [0..<length l]) + ?R" .
  have unat: "unat (seq_rx c') = unat ?n + length l" using assms(3,4) by (cases "l = []") auto
  have gone: "k \<in> (\<lambda>k. ?n + of_nat k) ` {0..<length l} \<longleftrightarrow> ?n \<le> k \<and> k < seq_rx c'" for k
  proof
    assume "k \<in> (\<lambda>k. ?n + of_nat k) ` {0..<length l}"
    then obtain j where j: "j < length l" "k = ?n + of_nat j" by auto
    have "unat ?n + j < 2 ^ 64" using unat j(1) unat_lt [of "seq_rx c'"] by simp
    then have "unat k = unat ?n + j" using j(2) by (simp add: unat_word_ariths unat_of_nat)
    with j(1) unat show "?n \<le> k \<and> k < seq_rx c'" by (simp add: word_le_nat_alt word_less_nat_alt)
  next
    assume k: "?n \<le> k \<and> k < seq_rx c'"
    then have "unat k - unat ?n < length l" using unat by (simp add: word_le_nat_alt word_less_nat_alt) arith
    moreover have "k = ?n + of_nat (unat k - unat ?n)"
      using k by (simp add: word_le_nat_alt of_nat_diff)
    ultimately show "k \<in> (\<lambda>k. ?n + of_nat k) ` {0..<length l}" by force
  qed
  have once: "k \<in># ?R \<Longrightarrow> \<not> k < seq_rx c'" for k
  proof
    assume k: "k \<in># ?R" "k < seq_rx c'"
    then have "?n \<le> k" using assms(1) K by (auto simp: arrival_inv_def)
    with k(2) gone [of k] have "k \<in># mset (map (\<lambda>k. ?n + of_nat k) [0..<length l])" by (simp add: image_iff)
    then have "2 \<le> count (dq_keys (defer_q c)) k"
      using k(1) unfolding K count_union count_greater_zero_iff [symmetric] by linarith
    moreover have "count (dq_keys (defer_q c)) k \<le> 1" using assms(1) by (simp add: arrival_inv_def)
    ultimately show False by simp
  qed
  have "unat (seq_rx c') \<le> m"
  proof (cases "l = []")
    case False
    then have "seq_rx c + of_nat (length l - 1) \<in># dq_keys (defer_q c)" unfolding K by simp
    moreover have "unat (seq_rx c + of_nat (length l - 1)) = unat ?n + (length l - 1)"
      using unat unat_lt [of "seq_rx c'"] by (subst unat_word_ariths) (simp add: unat_of_nat)
    ultimately show ?thesis using assms(1) unat False by (cases l) (auto simp: arrival_inv_def)
  qed (use assms(1,4) in \<open>simp add: arrival_inv_def\<close>)
  moreover have "seq_rx c' \<notin># ?R"
    using facts contains_keys [of "defer_q c'"] unfolding assms(4) by blast
  moreover have "packet_key p < seq_rx c' \<or> packet_key p \<in># ?R" if "p \<in> seen" for p
  proof -
    have "packet_key p < ?n \<or> packet_key p \<in># dq_keys (defer_q c)" using assms(1) that by (simp add: arrival_inv_def)
    moreover have "?n \<le> seq_rx c'" using unat by (simp add: word_le_nat_alt)
    ultimately show ?thesis using gone [of "packet_key p"] unfolding K by (auto simp: image_iff)
  qed
  moreover have "count ?R k \<le> 1" for k
  proof -
    have "count (dq_keys (defer_q c)) k \<le> 1" using assms(1) by (simp add: arrival_inv_def)
    then show ?thesis unfolding K count_union by simp
  qed
  moreover have "k \<in># ?R \<Longrightarrow> unat k < m" for k
    using assms(1) K by (auto simp: arrival_inv_def)
  ultimately show ?thesis
    using facts once unfolding arrival_inv_def by (simp add: not_less)
qed

text \<open>What a buffer of packets the peer sent must satisfy for the progress result.\<close>

definition fair_buffer :: "rasta_hashing_ctx \<Rightarrow> (nat \<Rightarrow> RastaPacket) \<Rightarrow> nat \<Rightarrow> nat \<Rightarrow> rasta_redundancy_channel \<Rightarrow>
    RastaRedundancyPacket list \<Rightarrow> bool" where
  "fair_buffer ctx msgs n m c ps \<longleftrightarrow> distinct (map packet_key ps) \<and>
     (\<forall>p \<in> set ps. genuine ctx msgs p \<and> in_window n m c p)"

text \<open>The packets of \<open>ps\<close> handed over one after the other.\<close>

fun deliver_run :: "(RastaPacket \<Rightarrow> rasta_st \<Rightarrow> (bool \<times> rasta_st) option) \<Rightarrow> RastaPacket list \<Rightarrow>
    rasta_st \<Rightarrow> (bool \<times> rasta_st) option" where
  "deliver_run deliver [] s = Some (False, s)"
| "deliver_run deliver (p # ps) s = do {
     (r, s) \<leftarrow> deliver p s;
     (r', s) \<leftarrow> deliver_run deliver ps (advance s);
     Some (r \<or> r', s)
   }"

locale upper_layer =
  fixes deliver :: "RastaPacket \<Rightarrow> rasta_st \<Rightarrow> (bool \<times> rasta_st) option"
    and inv :: "rasta_st \<Rightarrow> bool"
  assumes deliver_keeps: "inv s \<Longrightarrow> deliver p s = Some (r, s') \<Longrightarrow> receive_side s' = receive_side s"
    and deliver_inv: "inv s \<Longrightarrow> deliver p s = Some (r, s') \<Longrightarrow> inv s'"
    and inv_error: "inv s \<Longrightarrow> module_error s = RASTA_ERRORS_NONE"
    and inv_hashing: "inv s \<Longrightarrow> hashing_ok (hashing_context (chan s))"
    and inv_cong: "con s' = con s \<Longrightarrow> cfg s' = cfg s \<Longrightarrow> mux s' = mux s \<Longrightarrow>
      module_error s' = module_error s \<Longrightarrow> hashing_context (chan s') = hashing_context (chan s) \<Longrightarrow>
      net s' = net s \<Longrightarrow> transport_lib s' = transport_lib s \<Longrightarrow> inv s \<Longrightarrow> inv s'"
begin

lemma inv_advance: "inv s \<Longrightarrow> inv (advance s)"
  by (rule inv_cong) (simp_all add: advance_def map_chan_def)

lemma deliver_next_eq:
  assumes "inv s" and "packet_wf (hashing_context (chan s)) (red_data (deferqueue_get (defer_q (chan s)) (seq_rx (chan s))))"
  shows "deliver_next deliver s = do {
     (r, s') \<leftarrow> deliver (redelivered (hashing_context (chan s))
        (red_data (deferqueue_get (defer_q (chan s)) (seq_rx (chan s))))) s;
     Some (r, advance s')
   }"
proof -
  have e: "module_error s = RASTA_ERRORS_NONE" and h: "hashing_ok (hashing_context (chan s))"
    using assms(1) inv_error inv_hashing by blast+
  then have same: "s\<lparr>module_error := RASTA_ERRORS_NONE\<rparr> = s" by simp
  show ?thesis
    using rastaModuleToBytes_eq [OF h assms(2)] bytesToRastaPacket_frame [OF h assms(2)] e
    by (simp add: deliver_next_def deliver_message_to_upper_layer_def redelivered_def advance_def same)
qed

lemma advance_receive_side:
  "receive_side s' = receive_side s \<Longrightarrow> receive_side (advance s') =
   (seq_rx (chan s) + 1, deferqueue_remove (defer_q (chan s)) (seq_rx (chan s)), hashing_context (chan s),
    configuration_parameters (chan s), associated_id (chan s))"
  by (simp add: receive_side_def advance_def map_chan_def)

text \<open>
  The loop, which the source leaves to run as long as the queue holds the next packet, is the
  bounded run over the packets \<open>in_order\<close>.
\<close>

lemma deliver_loop_run:
  assumes "inv s" and "dq_invar (defer_q (chan s))"
    and "\<forall>x \<in># dq_bag (defer_q (chan s)). packet_wf (hashing_context (chan s)) (red_data (fst x))"
  shows "deliver_loop deliver b s = do {
     (r, s') \<leftarrow> deliver_run deliver (map (redelivered (hashing_context (chan s)) \<circ> red_data)
        (in_order (defer_q (chan s)) (seq_rx (chan s)))) s;
     Some (b \<or> r, s')
   }"
  using assms
proof (induction "dq_count (defer_q (chan s))" arbitrary: s b rule: less_induct)
  case less
  let ?q = "defer_q (chan s)" and ?n = "seq_rx (chan s)" and ?ctx = "hashing_context (chan s)"
  show ?case
  proof (cases "deferqueue_contains ?q ?n")
    case False
    then show ?thesis by (simp add: deliver_loop.simps [of _ b s] in_order.simps [of ?q ?n])
  next
    case True
    note get = defer_q.get_in [OF less.prems(2) True]
    note rem = defer_q.remove_present [OF less.prems(2) True]
    have wf: "packet_wf ?ctx (red_data (deferqueue_get ?q ?n))"
      using less.prems(3) get by force
    have step: "deliver_loop deliver (b \<or> r) (advance s') = do {
       (r', s') \<leftarrow> deliver_run deliver (map (redelivered ?ctx \<circ> red_data) (in_order (deferqueue_remove ?q ?n) (?n + 1))) (advance s');
       Some ((b \<or> r) \<or> r', s')
     }" if d: "deliver (redelivered ?ctx (red_data (deferqueue_get ?q ?n))) s = Some (r, s')" for r s'
    proof -
      note side = advance_receive_side [OF deliver_keeps [OF less.prems(1) d], unfolded receive_side_def prod.inject]
      have "inv (advance s')" using less.prems(1) d deliver_inv inv_advance by blast
      moreover have "dq_count (deferqueue_remove ?q ?n) < dq_count ?q" using True by (rule dq_count_remove)
      moreover have "\<forall>x \<in># dq_bag (deferqueue_remove ?q ?n). packet_wf ?ctx (red_data (fst x))"
        using less.prems(3) rem by (auto dest: in_diffD)
      ultimately show ?thesis
        using less.hyps [of "advance s'" "b \<or> r"] rem side by simp
    qed
    have unfold: "deliver_loop deliver b s = do {
       (r, s) \<leftarrow> deliver_next deliver s;
       deliver_loop deliver (b \<or> r) s
     }" using True by (simp add: deliver_loop.simps [of deliver b s])
    show ?thesis
    proof (cases "deliver (redelivered ?ctx (red_data (deferqueue_get ?q ?n))) s")
      case None
      then show ?thesis
        unfolding unfold in_order.simps [of ?q ?n] deliver_next_eq [OF less.prems(1) wf]
        using True by simp
    next
      case (Some a)
      obtain r s' where a: "a = (r, s')" by fastforce
      have "deliver_loop deliver b s = deliver_loop deliver (b \<or> r) (advance s')"
        unfolding unfold deliver_next_eq [OF less.prems(1) wf] by (simp add: Some a)
      then show ?thesis
        unfolding in_order.simps [of ?q ?n] using step [of r s'] Some True
        by (cases "deliver_run deliver (map (redelivered ?ctx \<circ> red_data)
              (in_order (deferqueue_remove ?q ?n) (?n + 1))) (advance s')") (auto simp: a)
    qed
  qed
qed

lemma deliver_run_side:
  assumes "inv s" and "deliver_run deliver (map f (in_order (defer_q (chan s)) (seq_rx (chan s)))) s = Some (r, s')"
  shows "inv s'" and "receive_side s' =
     (seq_rx (chan s) + of_nat (length (in_order (defer_q (chan s)) (seq_rx (chan s)))),
      rest_of (defer_q (chan s)) (seq_rx (chan s)), hashing_context (chan s),
      configuration_parameters (chan s), associated_id (chan s))"
proof -
  have "inv s' \<and> receive_side s' = (n + of_nat (length (in_order q n)), rest_of q n, snd (snd (receive_side s)))"
    if "inv s" "receive_side s = (n, q, rst)" "deliver_run deliver (map f (in_order q n)) s = Some (r, s')" for n q rst s r
    using that
  proof (induction q n arbitrary: s r rst rule: in_order.induct)
    case (1 q n)
    show ?case
    proof (cases "deferqueue_contains q n")
      case False
      with 1 show ?thesis by (simp add: in_order.simps [of q n] rest_of.simps [of q n])
    next
      case True
      with 1(4) obtain r1 s1 r2 where d: "deliver (f (deferqueue_get q n)) s = Some (r1, s1)"
        and run: "deliver_run deliver (map f (in_order (deferqueue_remove q n) (n + 1))) (advance s1) = Some (r2, s')"
        by (auto simp: in_order.simps [of q n] Option.bind_eq_Some_conv)
      have i: "inv (advance s1)" using 1(2) d deliver_inv inv_advance by blast
      have side: "receive_side (advance s1) = (n + 1, deferqueue_remove q n, rst)"
        using advance_receive_side [OF deliver_keeps [OF 1(2) d]] 1(3) by (simp add: receive_side_def)
      from 1(1) [OF True i side run] show ?thesis
        using True side 1(3) by (simp add: in_order.simps [of q n] rest_of.simps [of q n] add.assoc)
    qed
  qed
  from this [OF assms(1) _ assms(2)] show "inv s'" and "receive_side s' =
     (seq_rx (chan s) + of_nat (length (in_order (defer_q (chan s)) (seq_rx (chan s)))),
      rest_of (defer_q (chan s)) (seq_rx (chan s)), hashing_context (chan s),
      configuration_parameters (chan s), associated_id (chan s))"
    by (simp_all add: receive_side_def)
qed

text \<open>One buffer keeps the invariant; a hand-over extends the delivered list by the next messages.\<close>

lemma reorder_inv_receive:
  assumes "reorder_inv ctx msgs cap n ds t" and "receive_all i ps t = Some (r, u)"
    and "\<forall>p \<in> set ps. red_checksum_correct p \<longrightarrow> genuine ctx msgs p"
  shows "\<not> r \<Longrightarrow> reorder_inv ctx msgs cap n ds u"
    and "dq_invar (defer_q (chan u))" and "hashing_context (chan u) = ctx"
    and "dq_max_count (defer_q (chan u)) = cap"
    and "\<forall>x \<in># dq_bag (defer_q (chan u)). genuine ctx msgs (fst x)"
    and "seq_rx (chan u) = seq_rx (chan t)" and "inv t \<Longrightarrow> inv u"
proof -
  note e = receive_all_effect [OF assms(2)]
  have q: "dq_invar (defer_q (chan t))" using assms(1) by (simp add: reorder_inv_def)
  note v = receive_viewD [of u t]
  show "dq_invar (defer_q (chan u))" and "hashing_context (chan u) = ctx"
    and "dq_max_count (defer_q (chan u)) = cap" and "seq_rx (chan u) = seq_rx (chan t)"
    using e q v assms(1) by (auto simp: reorder_inv_def)
  show g: "\<forall>x \<in># dq_bag (defer_q (chan u)). genuine ctx msgs (fst x)"
    using e q assms(1,3) by (auto simp: reorder_inv_def)
  show "\<not> r \<Longrightarrow> reorder_inv ctx msgs cap n ds u"
    using e q v g assms(1) by (auto simp: reorder_inv_def)
  show "inv t \<Longrightarrow> inv u"
    using e q v by (intro inv_cong [of u t]) auto
qed

lemma in_order_messages:
  assumes "dq_invar q" and "\<forall>x \<in># dq_bag q. genuine ctx msgs (fst x)" and "unat n = m"
  shows "m + length (in_order q n) \<le> 2 ^ 32 \<or> in_order q n = []"
    and "map (f \<circ> red_data) (in_order q n) = map (f \<circ> msgs) [m..<m + length (in_order q n)]"
    and "in_order q n \<noteq> [] \<Longrightarrow> unat (n + of_nat (length (in_order q n))) = m + length (in_order q n)"
proof -
  let ?l = "in_order q n"
  note facts = in_order_facts [OF assms(1), of n]
  have key: "ucast (red_sequence_number (?l ! k)) = n + of_nat k" if "k < length ?l" for k
    using facts that by (metis (no_types, lifting) packet_key_def nth_map length_upt minus_nat.diff_0 nth_upt add_0)
  have small: "unat (n + of_nat k) < 2 ^ 32" if "k < length ?l" for k
    unfolding key [OF that, symmetric] unat_u32_u64 using unat_lt [of "red_sequence_number (?l ! k)"] by simp
  have succ: "unat (x + 1) = Suc (unat x)" if "unat x < 2 ^ 32" for x :: u64
    using that unat_add_lem [of x 1] by simp
  have step: "n + of_nat (Suc k) = (n + of_nat k) + 1" for k by simp
  have add: "unat (n + of_nat k) = m + k" if "k < length ?l" for k
    using that
  proof (induction k)
    case (Suc k)
    then show ?case using small [of k] unfolding step by (simp add: succ)
  qed (simp add: assms(3))
  have last: "m + (length ?l - 1) < 2 ^ 32" if "?l \<noteq> []"
    using small [of "length ?l - 1"] add [of "length ?l - 1"] that by simp
  then show "m + length ?l \<le> 2 ^ 32 \<or> ?l = []"
    by (cases ?l) auto
  show "unat (n + of_nat (length ?l)) = m + length ?l" if ne: "?l \<noteq> []"
  proof -
    obtain k where k: "length ?l = Suc k" using ne by (cases ?l) auto
    then show ?thesis using add [of k] small [of k] unfolding k step by (simp add: succ)
  qed
  have "red_data (?l ! k) = msgs (m + k)" if "k < length ?l" for k
  proof -
    have "?l ! k \<in> fst ` set_mset (dq_bag q)" using facts that nth_mem by blast
    then have "red_data (?l ! k) = msgs (unat (red_sequence_number (?l ! k)))"
      using assms(2) by (auto simp: genuine_def)
    moreover have "unat (red_sequence_number (?l ! k)) = m + k"
      using key [OF that] add [OF that] by (metis unat_u32_u64)
    ultimately show ?thesis by simp
  qed
  then show "map (f \<circ> red_data) ?l = map (f \<circ> msgs) [m..<m + length ?l]"
    by (intro nth_equalityI) auto
qed

lemma reorder_inv_handover:
  assumes "reorder_inv ctx msgs cap n ds t" and "inv t" and "receive_all i ps t = Some (r, u)"
    and "\<forall>p \<in> set ps. red_checksum_correct p \<longrightarrow> genuine ctx msgs p"
    and "deliver_loop deliver False u = Some (b, v)"
  shows "reorder_inv ctx msgs cap n (ds @ map (redelivered (hashing_context (chan u)) \<circ> red_data)
      (in_order (defer_q (chan u)) (seq_rx (chan u)))) v"
    and "inv v" and "seq_rx (chan v) = seq_rx (chan u) + of_nat (length (in_order (defer_q (chan u)) (seq_rx (chan u))))"
    and "defer_q (chan v) = rest_of (defer_q (chan u)) (seq_rx (chan u))"
proof -
  let ?l = "in_order (defer_q (chan u)) (seq_rx (chan u))"
  note u = reorder_inv_receive [OF assms(1,3,4)]
  have "\<forall>x \<in># dq_bag (defer_q (chan u)). packet_wf (hashing_context (chan u)) (red_data (fst x))"
    using u(3,5) by (auto simp: genuine_def)
  from deliver_loop_run [OF u(7) [OF assms(2)] u(2) this, of False] assms(5)
  have run: "deliver_run deliver (map (redelivered ctx \<circ> red_data) ?l) u = Some (b, v)"
    by (simp add: u(3))
  note side = deliver_run_side [OF u(7) [OF assms(2)] run, unfolded receive_side_def prod.inject]
  show "inv v" and "seq_rx (chan v) = seq_rx (chan u) + of_nat (length ?l)"
    and "defer_q (chan v) = rest_of (defer_q (chan u)) (seq_rx (chan u))"
    using side by simp_all
  have m: "unat (seq_rx (chan u)) = n + length ds" and le: "n + length ds \<le> 2 ^ 32"
    and ds: "ds = map (redelivered ctx \<circ> msgs) [n..<n + length ds]"
    using assms(1) u(6) by (simp_all add: reorder_inv_def)
  note msgs = in_order_messages [OF u(2,5) m]
  have app: "ds @ map (redelivered ctx \<circ> red_data) ?l =
      map (redelivered ctx \<circ> msgs) [n..<n + length (ds @ map (redelivered ctx \<circ> red_data) ?l)]"
    using ds msgs(2) by (rule map_upt_extend)
  have "unat (seq_rx (chan v)) = n + length ds + length ?l"
    using side m msgs(3) by (cases "?l = []") auto
  moreover have "n + length ds + length ?l \<le> 2 ^ 32"
    using msgs(1) le by auto
  moreover note in_order_facts [OF u(2), of "seq_rx (chan u)"]
  ultimately show "reorder_inv ctx msgs cap n (ds @ map (redelivered (hashing_context (chan u)) \<circ> red_data) ?l) v"
    using app side u(3-5) unfolding reorder_inv_def
    by (auto simp: add.assoc dest: mset_subset_eqD)
qed

text \<open>Safety: whatever arrives, the upper layer sees a gapless prefix of the peer's stream.\<close>

lemma run_delivers_prefix:
  assumes "red_history deliver inv s bs ds t" and "inv s" and "reorder_inv ctx msgs cap n [] s"
    and "\<forall>ps \<in> set bs. \<forall>p \<in> set ps. red_checksum_correct p \<longrightarrow> genuine ctx msgs p"
  shows "reorder_inv ctx msgs cap n ds t \<and> inv t"
  using assms
proof (induction rule: red_history.induct)
  case (discard bs ds t i ps u)
  then show ?case using reorder_inv_receive(1,7) [of ctx msgs cap n ds t i ps False u] by simp
next
  case (handover bs ds t i ps u b v)
  then show ?case using reorder_inv_handover(1,2) [of ctx msgs cap n ds t i ps True u b v] by simp
next
  case (other bs ds t u)
  then have "reorder_inv ctx msgs cap n ds t" by blast
  moreover note receive_sideD [OF other.hyps(2)]
  ultimately show ?case using other.hyps(3) unfolding reorder_inv_def by (simp only:) simp
qed simp

lemma receive_all_params:
  assumes "receive_all i ps t = Some (r, u)" and "dq_invar (defer_q (chan t))"
  shows "configuration_parameters (chan u) = configuration_parameters (chan t)"
    and "associated_id (chan u) = associated_id (chan t)"
  using receive_all_effect [OF assms] receive_viewD [of u t] by simp_all

lemma deliver_loop_params:
  assumes "reorder_inv ctx msgs cap n ds t" and "inv t" and "receive_all i ps t = Some (r, u)"
    and "\<forall>p \<in> set ps. red_checksum_correct p \<longrightarrow> genuine ctx msgs p"
    and "deliver_loop deliver False u = Some (b, v)"
  shows "configuration_parameters (chan v) = configuration_parameters (chan u)"
    and "associated_id (chan v) = associated_id (chan u)"
proof -
  note u = reorder_inv_receive [OF assms(1,3,4)]
  have "\<forall>x \<in># dq_bag (defer_q (chan u)). packet_wf (hashing_context (chan u)) (red_data (fst x))"
    using u(3,5) by (auto simp: genuine_def)
  from deliver_loop_run [OF u(7) [OF assms(2)] u(2) this, of False] assms(5)
  have run: "deliver_run deliver (map (redelivered ctx \<circ> red_data) (in_order (defer_q (chan u)) (seq_rx (chan u)))) u = Some (b, v)"
    by (simp add: u(3))
  show "configuration_parameters (chan v) = configuration_parameters (chan u)"
    and "associated_id (chan v) = associated_id (chan u)"
    using deliver_run_side(2) [OF u(7) [OF assms(2)] run, unfolded receive_side_def prod.inject] by simp_all
qed

lemma run_arrival_inv:
  assumes "red_history deliver inv s bs ds t" and "inv s" and "reorder_inv ctx msgs cap n [] s"
    and "0 < n" and "n \<le> m" and "m \<le> n + cap"
    and "m \<le> n + unat (n_deferqueue_size (configuration_parameters (chan s)) * 10)"
    and "dq_bag (defer_q (chan s)) = {#}"
    and "\<forall>ps \<in> set bs. fair_buffer ctx msgs n m (chan s) ps"
  shows "arrival_inv m (\<Union> (set ` set bs)) {} (chan t) \<and>
    configuration_parameters (chan t) = configuration_parameters (chan s) \<and>
    associated_id (chan t) = associated_id (chan s)"
  using assms
proof (induction rule: red_history.induct)
  case start
  then show ?case by (simp add: arrival_inv_def reorder_inv_def dq_keys_def)
next
  case (discard bs ds t i ps u)
  have t: "reorder_inv ctx msgs cap n ds t" "inv t"
    using run_delivers_prefix [OF discard.hyps(1) discard.prems(1,2)] discard.prems(8)
    by (auto simp: fair_buffer_def)
  note IH = discard.IH [OF discard.prems(1-7)] discard.prems(8)
  have q: "dq_invar (defer_q (chan t))" using t(1) by (simp add: reorder_inv_def)
  note params = receive_all_params [OF discard.hyps(2) q]
  have "window_fits n m (chan t)" using t(1) IH discard.prems(3-6) by (auto simp: window_fits_def reorder_inv_def)
  from arrival_inv_all [OF discard.hyps(2) this _, of "\<Union> (set ` set bs)" "{}"] IH
  have a: "arrival_inv m (set ps \<union> \<Union> (set ` set bs)) (set ps) (chan u)"
    by (simp add: fair_buffer_def in_window_def)
  have "\<not> deferqueue_contains (defer_q (chan u)) (seq_rx (chan u))"
    using reorder_inv_receive(1) [OF t(1) discard.hyps(2)] discard.prems(8)
    by (simp add: fair_buffer_def reorder_inv_def)
  with a have "arrival_inv m (set ps \<union> \<Union> (set ` set bs)) {} (chan u)"
    unfolding arrival_inv_def using contains_keys by blast
  with params IH show ?case by (simp add: Un_commute)
next
  case (handover bs ds t i ps u b v)
  have t: "reorder_inv ctx msgs cap n ds t" "inv t"
    using run_delivers_prefix [OF handover.hyps(1) handover.prems(1,2)] handover.prems(8)
    by (auto simp: fair_buffer_def)
  note IH = handover.IH [OF handover.prems(1-7)] handover.prems(8)
  have g: "\<forall>p \<in> set ps. red_checksum_correct p \<longrightarrow> genuine ctx msgs p"
    using handover.prems(8) by (simp add: fair_buffer_def)
  have q: "dq_invar (defer_q (chan t))" using t(1) by (simp add: reorder_inv_def)
  note u = reorder_inv_receive [OF t(1) handover.hyps(2) g]
  note v = reorder_inv_handover [OF t handover.hyps(2) g handover.hyps(3)]
  note params = receive_all_params [OF handover.hyps(2) q]
    deliver_loop_params [OF t handover.hyps(2) g handover.hyps(3)]
  have "window_fits n m (chan t)" using t(1) IH handover.prems(3-6) by (auto simp: window_fits_def reorder_inv_def)
  from arrival_inv_all [OF handover.hyps(2) this _, of "\<Union> (set ` set bs)" "{}"] IH
  have "arrival_inv m (set ps \<union> \<Union> (set ` set bs)) (set ps) (chan u)"
    by (simp add: fair_buffer_def in_window_def)
  moreover have "in_order (defer_q (chan u)) (seq_rx (chan u)) \<noteq> [] \<Longrightarrow>
      unat (seq_rx (chan u) + of_nat (length (in_order (defer_q (chan u)) (seq_rx (chan u))))) =
      unat (seq_rx (chan u)) + length (in_order (defer_q (chan u)) (seq_rx (chan u)))"
    using in_order_messages(3) [OF u(2,5) refl] .
  ultimately have "arrival_inv m (set ps \<union> \<Union> (set ` set bs)) {} (chan v)"
    using v(3,4) by (intro arrival_inv_handover [OF _ refl])
  with params IH show ?case by (simp add: Un_commute)
next
  case (other bs ds t u)
  note IH = other.IH [OF other.prems]
  then show ?case using receive_sideD [OF other.hyps(2)] unfolding arrival_inv_def by (simp only:) simp
qed

text \<open>Progress: once every message below \<open>m\<close> has arrived, all of them have been handed over.\<close>

lemma run_delivers_all:
  assumes "red_history deliver inv s bs ds t" and "inv s" and "reorder_inv ctx msgs cap n [] s"
    and "0 < n" and "n \<le> m" and "m \<le> n + cap"
    and "m \<le> n + unat (n_deferqueue_size (configuration_parameters (chan s)) * 10)"
    and "dq_bag (defer_q (chan s)) = {#}"
    and "\<forall>ps \<in> set bs. fair_buffer ctx msgs n m (chan s) ps"
    and "\<forall>k \<in> {n..<m}. \<exists>ps \<in> set bs. \<exists>p \<in> set ps. unat (red_sequence_number p) = k"
  shows "ds = map (redelivered ctx \<circ> msgs) [n..<m]"
proof -
  have t: "reorder_inv ctx msgs cap n ds t"
    using run_delivers_prefix [OF assms(1-3)] assms(9) by (auto simp: fair_buffer_def)
  have a: "arrival_inv m (\<Union> (set ` set bs)) {} (chan t)"
    using run_arrival_inv [OF assms(1-9)] by blast
  have "m \<le> unat (seq_rx (chan t))"
  proof (rule ccontr)
    assume less: "\<not> m \<le> unat (seq_rx (chan t))"
    then have "unat (seq_rx (chan t)) \<in> {n..<m}" using t by (simp add: reorder_inv_def)
    then obtain ps p where p: "ps \<in> set bs" "p \<in> set ps" "unat (red_sequence_number p) = unat (seq_rx (chan t))"
      using assms(10) by blast
    then have "packet_key p = seq_rx (chan t)"
      by (simp add: packet_key_def word_unat_eq_iff unat_u32_u64)
    moreover have "packet_key p < seq_rx (chan t) \<or> packet_key p \<in># dq_keys (defer_q (chan t))"
      using a p by (auto simp: arrival_inv_def)
    ultimately show False using a by (auto simp: arrival_inv_def)
  qed
  then have "n + length ds = m" using a t by (simp add: arrival_inv_def reorder_inv_def)
  with t show ?thesis unfolding reorder_inv_def by metis
qed

end

end
