(* ===== verification/Rasta_Handlers.thy ===== *)
theory Rasta_Handlers
  imports Rasta_Connection Rasta_Reorder
begin

text \<open>
  The handlers of received packets, \<open>retransmission/handlers.c\<close>, and \<open>sr_receive\<close> of
  \<open>retransmission/safety_retransmission.c\<close>, which checks a packet and dispatches it. The Boolean
  result is the C function's return value: true makes the event loop return to its caller.
\<close>

section \<open>Shared updates\<close>

definition update_connection_attrs :: "RastaPacket \<Rightarrow> rasta_connection \<Rightarrow> rasta_connection" where
  "update_connection_attrs p c =
     c\<lparr>sn_r := sequence_number p + 1, cs_t := sequence_number p, ts_r := timestamp p\<rparr>"

definition update_confirmed_attrs :: "RastaPacket \<Rightarrow> rasta_connection \<Rightarrow> rasta_connection" where
  "update_confirmed_attrs p c =
     c\<lparr>cts_r := confirmed_timestamp p, cs_r := confirmed_sequence_number p\<rparr>"

definition set_state :: "rasta_sr_state \<Rightarrow> rasta_st \<Rightarrow> rasta_st" where
  "set_state st = map_con (\<lambda>c. c\<lparr>current_state := st\<rparr>)"

definition map_errors :: "(rasta_error_counters \<Rightarrow> rasta_error_counters) \<Rightarrow> rasta_st \<Rightarrow> rasta_st" where
  "map_errors f = map_con (\<lambda>c. c\<lparr>errors := f (errors c)\<rparr>)"

section \<open>Handlers\<close>

definition handle_discreq :: "RastaPacket \<Rightarrow> rasta_st \<Rightarrow> (bool \<times> rasta_st) option" where
  "handle_discreq p s = do {
     let s = map_con sr_reset_connection (set_state RASTA_CONNECTION_CLOSED s);
     s \<leftarrow> redundancy_channel_close s;
     (_, err) \<leftarrow> extractRastaDisconnectionData (factory_error s) p;
     Some (True, s\<lparr>factory_error := err\<rparr>)
   }"

definition handle_data :: "RastaPacket \<Rightarrow> rasta_st \<Rightarrow> (bool \<times> rasta_st) option" where
  "handle_data p s =
     (if sr_sn_in_seq (con s) p then
        if current_state (con s) \<in> {RASTA_CONNECTION_START, RASTA_CONNECTION_KEX_REQ,
             RASTA_CONNECTION_KEX_RESP, RASTA_CONNECTION_KEX_AUTH} then do {
          s \<leftarrow> sr_close_connection RASTA_DISC_REASON_UNEXPECTEDTYPE 0 s;
          Some (False, s)
        }
        else if current_state (con s) = RASTA_CONNECTION_UP then
          if sr_cts_in_seq (con s) (sending (cfg s)) p then do {
            s \<leftarrow> sr_add_app_messages_to_buffer p s;
            let s = map_con (update_connection_attrs p) s;
            let s = map_con (update_confirmed_attrs p) s;
            s \<leftarrow> sr_remove_confirmed_messages s;
            Some (True, s)
          }
          else do {
            let s = map_errors (\<lambda>e. e\<lparr>cs_errors := cs_errors e + 1\<rparr>) s;
            s \<leftarrow> sr_close_connection RASTA_DISC_REASON_PROTOCOLERROR 0 s;
            Some (False, s)
          }
        else if current_state (con s) = RASTA_CONNECTION_RETRRUN then
          if sr_cts_in_seq (con s) (sending (cfg s)) p
          then Some (False, map_con (update_connection_attrs p) s)
          else do {
            s \<leftarrow> sr_close_connection RASTA_DISC_REASON_PROTOCOLERROR 0 s;
            Some (False, s)
          }
        else Some (False, s)
      else
        if current_state (con s) = RASTA_CONNECTION_START then do {
          s \<leftarrow> sr_close_connection RASTA_DISC_REASON_UNEXPECTEDTYPE 0 s;
          Some (False, s)
        }
        else if current_state (con s) = RASTA_CONNECTION_RETRRUN \<or> current_state (con s) = RASTA_CONNECTION_UP
        then do {
          let s = map_errors (\<lambda>e. e\<lparr>sn_errors := sn_errors e + 1\<rparr>) s;
          s \<leftarrow> sendRetransmissionRequest s;
          Some (False, set_state RASTA_CONNECTION_RETRREQ s)
        }
        else Some (False, s))"

definition handle_retrreq :: "RastaPacket \<Rightarrow> rasta_st \<Rightarrow> (bool \<times> rasta_st) option" where
  "handle_retrreq p s =
     (if sr_sn_in_seq (con s) p then do {
        s \<leftarrow> (if current_state (con s) = RASTA_CONNECTION_RETRRUN
              then sr_close_connection RASTA_DISC_REASON_RETRFAILED 0 s else Some s);
        let s = map_con (update_connection_attrs p) s;
        let s = map_con (\<lambda>c. c\<lparr>cs_r := confirmed_sequence_number p\<rparr>) s;
        s \<leftarrow> sr_remove_confirmed_messages s;
        s \<leftarrow> sendRetransmissionResponse s;
        s \<leftarrow> sr_retransmit_data s;
        let s = (if current_state (con s) = RASTA_CONNECTION_UP then set_state RASTA_CONNECTION_UP s
                 else if current_state (con s) = RASTA_CONNECTION_RETRREQ
                 then set_state RASTA_CONNECTION_RETRREQ s else s);
        Some (False, s)
      }
      else do {
        let s = map_con (\<lambda>c. c\<lparr>cs_r := confirmed_sequence_number p\<rparr>) s;
        s \<leftarrow> sr_remove_confirmed_messages s;
        s \<leftarrow> sendRetransmissionResponse s;
        s \<leftarrow> sr_retransmit_data s;
        Some (False, set_state RASTA_CONNECTION_RETRREQ s)
      })"

definition handle_retrresp :: "RastaPacket \<Rightarrow> rasta_st \<Rightarrow> (bool \<times> rasta_st) option" where
  "handle_retrresp p s =
     (if current_state (con s) = RASTA_CONNECTION_RETRREQ then
        let s = set_state RASTA_CONNECTION_RETRRUN s;
            s = map_con (update_connection_attrs p) s;
            s = map_con (update_confirmed_attrs p) s
        in Some (False, s)
      else do {
        s \<leftarrow> sr_close_connection RASTA_DISC_REASON_UNEXPECTEDTYPE 0 s;
        Some (False, s)
      })"

definition handle_retrdata :: "RastaPacket \<Rightarrow> rasta_st \<Rightarrow> (bool \<times> rasta_st) option" where
  "handle_retrdata p s =
     (if sr_sn_in_seq (con s) p then
        if current_state (con s) = RASTA_CONNECTION_UP then do {
          s \<leftarrow> sr_close_connection RASTA_DISC_REASON_UNEXPECTEDTYPE 0 s;
          Some (False, s)
        }
        else if current_state (con s) = RASTA_CONNECTION_RETRRUN then
          if \<not> sr_cts_in_seq (con s) (sending (cfg s)) p then do {
            s \<leftarrow> sr_close_connection RASTA_DISC_REASON_PROTOCOLERROR 0 s;
            Some (False, s)
          }
          else do {
            s \<leftarrow> sr_add_app_messages_to_buffer p s;
            let s = map_con (update_connection_attrs p) s;
            Some (True, map_con (\<lambda>c. c\<lparr>cs_r := confirmed_sequence_number p\<rparr>) s)
          }
        else Some (False, s)
      else
        if current_state (con s) = RASTA_CONNECTION_UP then do {
          s \<leftarrow> sr_close_connection RASTA_DISC_REASON_UNEXPECTEDTYPE 0 s;
          Some (False, s)
        }
        else if current_state (con s) = RASTA_CONNECTION_RETRRUN then do {
          s \<leftarrow> sendRetransmissionRequest s;
          Some (False, set_state RASTA_CONNECTION_RETRREQ s)
        }
        else Some (False, s))"

text \<open>
  The branch of \<open>handle_hb\<close> for a connection in \<open>START\<close>. The two closing branches do not return: the
  code goes on with the check of the confirmed timestamp.
\<close>

definition handle_hb_start :: "RastaPacket \<Rightarrow> rasta_st \<Rightarrow> (bool \<times> rasta_st) option" where
  "handle_hb_start p s = do {
     s \<leftarrow> (if \<not> sr_sn_in_seq (con s) p then
            if role (con s) = RASTA_ROLE_SERVER then sr_close_connection RASTA_DISC_REASON_SEQNERROR 0 s
            else sr_close_connection RASTA_DISC_REASON_UNEXPECTEDTYPE 0 s
          else Some s);
     s \<leftarrow> (if role (con s) = RASTA_ROLE_CLIENT then sr_close_connection RASTA_DISC_REASON_UNEXPECTEDTYPE 0 s
          else Some s);
     if sr_cts_in_seq (con s) (sending (cfg s)) p then do {
       let s = map_con (update_connection_attrs p) s;
       let s = map_con (\<lambda>c. c\<lparr>cs_r := confirmed_sequence_number p\<rparr>) s;
       let s = set_state (if kex_mode (cfg s) = KEY_EXCHANGE_MODE_NONE then RASTA_CONNECTION_UP
                          else RASTA_CONNECTION_KEX_REQ) s;
       let s = map_con (\<lambda>c. c\<lparr>hb_locked := False\<rparr>) s;
       let s = enable_heartbeat s;
       let s = enable_timeout s;
       Some (True, map_con (\<lambda>c. c\<lparr>is_new := True\<rparr>) s)
     }
     else do {
       s \<leftarrow> sr_close_connection RASTA_DISC_REASON_PROTOCOLERROR 0 s;
       Some (False, s)
     }
   }"

definition handle_hb :: "RastaPacket \<Rightarrow> rasta_st \<Rightarrow> (bool \<times> rasta_st) option" where
  "handle_hb p s =
     (if current_state (con s) = RASTA_CONNECTION_START then handle_hb_start p s
      else if sr_sn_in_seq (con s) p then
        if current_state (con s) \<in> {RASTA_CONNECTION_UP, RASTA_CONNECTION_RETRRUN, RASTA_CONNECTION_KEX_REQ,
             RASTA_CONNECTION_KEX_RESP, RASTA_CONNECTION_KEX_AUTH} then
          if sr_cts_in_seq (con s) (sending (cfg s)) p then do {
            let s = sr_update_timeout_interval (confirmed_timestamp p) s;
            let s = sr_diagnostic_update p s;
            let s = map_con (update_connection_attrs p) s;
            let s = map_con (update_confirmed_attrs p) s;
            s \<leftarrow> sr_remove_confirmed_messages s;
            Some (False, if current_state (con s) = RASTA_CONNECTION_RETRRUN
                         then set_state RASTA_CONNECTION_UP s else s)
          }
          else do {
            s \<leftarrow> sr_close_connection RASTA_DISC_REASON_TIMEOUT 0 s;
            Some (False, s)
          }
        else Some (False, s)
      else
        if current_state (con s) = RASTA_CONNECTION_UP \<or> current_state (con s) = RASTA_CONNECTION_RETRRUN
        then Some (False, set_state RASTA_CONNECTION_RETRREQ s)
        else Some (False, s))"

definition handle_conreq :: "RastaPacket \<Rightarrow> rasta_st \<Rightarrow> rasta_st option" where
  "handle_conreq p s =
     (if current_state (con s) = RASTA_CONNECTION_CLOSED \<or> current_state (con s) = RASTA_CONNECTION_DOWN then do {
        let s = map_con (sr_init_connection RASTA_ROLE_SERVER) s;
        let s = map_con (\<lambda>c. c\<lparr>sn_t := initial_sequence_number (cfg s),
          sn_i := initial_sequence_number (cfg s)\<rparr>) s;
        let s = set_state RASTA_CONNECTION_DOWN s;
        if \<not> sr_check_packet (con s) (sending (cfg s)) p
        then sr_close_connection RASTA_DISC_REASON_PROTOCOLERROR 0 s
        else do {
          (cd, err) \<leftarrow> extractRastaConnectionData (factory_error s) p;
          let s = s\<lparr>factory_error := err\<rparr>;
          if compare_version RASTA_VERSION (version cd) = 0 \<or>
             compare_version RASTA_VERSION (version cd) = -1 \<or>
             version_accepted (accepted_versions (cfg s)) (version cd)
          then do {
            let s = map_con (update_connection_attrs p) s;
            let s = map_con (update_confirmed_attrs p) s;
            let s = map_con (\<lambda>c. c\<lparr>connected_recv_buffer_size := uint (conn_send_max cd),
              t_i := t_max (sending (cfg s))\<rparr>) s;
            let (t, s) = now_ms s;
            conresp \<leftarrow> createConnectionResponse (remote_id (con s)) (my_id (con s)) (sn_t (con s))
              (cs_t (con s)) t (cts_r (con s)) (send_max (sending (cfg s))) RASTA_VERSION
              (hashing_context (chan s));
            let s = map_con (\<lambda>c. c\<lparr>sn_t := sn_t c + 1\<rparr>) s;
            let s = set_state RASTA_CONNECTION_START s;
            redundancy_mux_send conresp (role (con s)) s
          }
          else sr_close_connection RASTA_DISC_REASON_INCOMPATIBLEVERSION 0 s
        }
      }
      else sr_close_connection RASTA_DISC_REASON_UNEXPECTEDTYPE 0 s)"

definition handle_conresp :: "RastaPacket \<Rightarrow> rasta_st \<Rightarrow> rasta_st option" where
  "handle_conresp p s =
     (if \<not> sr_check_packet (con s) (sending (cfg s)) p
      then sr_close_connection RASTA_DISC_REASON_PROTOCOLERROR 0 s
      else if current_state (con s) = RASTA_CONNECTION_START then
        if role (con s) = RASTA_ROLE_CLIENT then do {
          (cd, err) \<leftarrow> extractRastaConnectionData (factory_error s) p;
          let s = s\<lparr>factory_error := err\<rparr>;
          if version_accepted (accepted_versions (cfg s)) (version cd) then do {
            let s = map_con (update_connection_attrs p) s;
            let s = map_con (\<lambda>c. c\<lparr>cs_r := confirmed_sequence_number p\<rparr>) s;
            let s = set_state RASTA_CONNECTION_UP s;
            s \<leftarrow> sendHeartbeat True s;
            let s = enable_heartbeat s;
            let s = map_con (\<lambda>c. c\<lparr>hb_locked := False,
              connected_recv_buffer_size := uint (conn_send_max cd)\<rparr>) s;
            Some (enable_timeout s)
          }
          else sr_close_connection RASTA_DISC_REASON_INCOMPATIBLEVERSION 0 s
        }
        else sr_close_connection RASTA_DISC_REASON_UNEXPECTEDTYPE 0 s
      else if current_state (con s) \<in> {RASTA_CONNECTION_RETRREQ, RASTA_CONNECTION_RETRRUN, RASTA_CONNECTION_UP}
      then sr_close_connection RASTA_DISC_REASON_UNEXPECTEDTYPE 0 s
      else Some s)"

section \<open>Dispatch\<close>

definition handle_received_packet :: "RastaPacket \<Rightarrow> rasta_st \<Rightarrow> (bool \<times> rasta_st) option" where
  "handle_received_packet p s =
     (if pkt_type p = RASTA_TYPE_RETRDATA then handle_retrdata p s
      else if pkt_type p = RASTA_TYPE_DATA then handle_data p s
      else if pkt_type p = RASTA_TYPE_RETRREQ then handle_retrreq p s
      else if pkt_type p = RASTA_TYPE_RETRRESP then handle_retrresp p s
      else if pkt_type p = RASTA_TYPE_DISCREQ then handle_discreq p s
      else if pkt_type p = RASTA_TYPE_HB then handle_hb p s
      else Some (False, map_errors (\<lambda>e. e\<lparr>type_errors := type_errors e + 1\<rparr>) s))"

text \<open>Without key exchange no rekeying can be overdue.\<close>

definition sr_rekeying_skipped :: "rasta_st \<Rightarrow> bool" where
  "sr_rekeying_skipped s = False"

definition sr_receive :: "RastaPacket \<Rightarrow> rasta_st \<Rightarrow> (bool \<times> rasta_st) option" where
  "sr_receive p s =
     (if pkt_type p = RASTA_TYPE_CONNREQ then map_option (\<lambda>s. (False, s)) (handle_conreq p s)
      else if pkt_type p = RASTA_TYPE_CONNRESP then map_option (\<lambda>s. (True, s)) (handle_conresp p s)
      else if \<not> checksum_correct p then
        Some (False, map_errors (\<lambda>e. e\<lparr>safety := safety e + 1\<rparr>) s)
      else if \<not> sr_message_authentic (con s) p then
        Some (False, map_errors (\<lambda>e. e\<lparr>address := address e + 1\<rparr>) s)
      else if \<not> sr_sn_range_valid (con s) (sending (cfg s)) p then
        Some (False, map_errors (\<lambda>e. e\<lparr>sn_errors := sn_errors e + 1\<rparr>) s)
      else if \<not> sr_cs_valid (con s) p then
        Some (False, map_errors (\<lambda>e. e\<lparr>cs_errors := cs_errors e + 1\<rparr>) s)
      else if sr_rekeying_skipped s then do {
        s \<leftarrow> sr_close_connection RASTA_DISC_REASON_TIMEOUT 0 s;
        Some (False, s)
      }
      else handle_received_packet p s)"

section \<open>Delivery from the redundancy layer\<close>

definition red_f_deliverDeferQueue :: "rasta_st \<Rightarrow> (bool \<times> rasta_st) option" where
  "red_f_deliverDeferQueue s = deliver_loop sr_receive False s"

text \<open>The smallest index is one of the array's, live or not.\<close>

definition red_f_deferTmo :: "rasta_st \<Rightarrow> rasta_st option" where
  "red_f_deferTmo s = do {
     let smallest_index = deferqueue_smallest_seqnr (defer_q (chan s));
     if smallest_index < length (elements (defer_q (chan s))) then do {
       let s = map_chan (\<lambda>c. c\<lparr>seq_rx := wrapper_seq (elements (defer_q c) ! smallest_index)\<rparr>) s;
       (_, s) \<leftarrow> red_f_deliverDeferQueue s;
       Some s
     }
     else None
   }"

definition handle_closed_transport :: "rasta_st \<Rightarrow> (bool \<times> rasta_st) option" where
  "handle_closed_transport s =
     (if \<exists>c \<in> set (transport_channels (chan s)). connected c then Some (False, s)
      else do {
        s \<leftarrow> sr_closed_connection s;
        Some (True, s)
      })"

end
