(* ===== verification/Rasta_Opaque.thy ===== *)
theory Rasta_Opaque
  imports Rasta_Handlers
begin

text \<open>
  Key exchange in the build with \<open>ENABLE_OPAQUE\<close>: the wrappers of libopaque
  (\<open>experimental/key_exchange.c\<close>) and the key exchange packets (\<open>rastafactory.c\<close>). libopaque is not part
  of the repository. It is the parameter \<open>lib\<close> of the definitions: its functions, its buffer sizes, and
  the results of \<open>malloc\<close> and \<open>mlock\<close>. Functions that draw random numbers have the number of the call as
  their first argument. The state \<open>kex_st\<close> adds to an endpoint what the build adds to it.
\<close>

section \<open>The library\<close>

record Opaque_Ids =
  idS :: bytes
  idU :: bytes

record libopaque =
  USER_RECORD_LEN :: nat
  USER_SESSION_SECRET_LEN :: nat
  USER_SESSION_PUBLIC_LEN :: nat
  SERVER_SESSION_LEN :: nat
  SHARED_SECRETBYTES :: nat
  HMACSHA512_BYTES :: nat
  opaque_Register :: "nat \<Rightarrow> bytes \<Rightarrow> Opaque_Ids \<Rightarrow> int \<times> bytes"
  opaque_CreateCredentialRequest :: "nat \<Rightarrow> bytes \<Rightarrow> int \<times> bytes \<times> bytes"
  opaque_CreateCredentialResponse :: "nat \<Rightarrow> bytes \<Rightarrow> bytes \<Rightarrow> Opaque_Ids \<Rightarrow> bytes \<Rightarrow> int \<times> bytes \<times> bytes \<times> bytes"
  opaque_RecoverCredentials :: "bytes \<Rightarrow> bytes \<Rightarrow> bytes \<Rightarrow> Opaque_Ids \<Rightarrow> int \<times> bytes \<times> bytes"
  opaque_UserAuth :: "bytes \<Rightarrow> bytes \<Rightarrow> int"
  malloc_succeeds :: "nat \<Rightarrow> bool"
  mlock :: "nat \<Rightarrow> int"

section \<open>State\<close>

text \<open>The field \<open>active_mode\<close>, which nothing uses, is left out.\<close>

record key_exchange_state =
  user_record :: bytes
  client_secret :: "bytes option"
  client_public :: bytes
  certificate_response :: bytes
  session_key :: bytes
  user_auth_server :: bytes
  password_length :: nat
  last_key_exchanged_millis :: u64

text \<open>The field \<open>mode\<close> of \<open>struct RastaConfigKex\<close> is \<open>kex_mode\<close> of the endpoint's configuration.\<close>

record RastaConfigKex =
  psk :: bytes
  rekeying_interval_ms :: u64
  has_psk_record :: bool
  psk_record :: bytes

text \<open>\<open>lib_calls\<close> counts the calls of \<open>lib\<close>, \<open>freed\<close> lists the heap blocks handed back, with what was in them.\<close>

record kex_st =
  base :: rasta_st
  kex_state :: key_exchange_state
  kex :: RastaConfigKex
  rekeying_event :: timed_event
  lib_calls :: nat
  freed :: "bytes list"

definition map_base :: "(rasta_st \<Rightarrow> rasta_st) \<Rightarrow> kex_st \<Rightarrow> kex_st" where
  "map_base f k = k\<lparr>base := f (base k)\<rparr>"

definition map_kex :: "(key_exchange_state \<Rightarrow> key_exchange_state) \<Rightarrow> kex_st \<Rightarrow> kex_st" where
  "map_kex f k = k\<lparr>kex_state := f (kex_state k)\<rparr>"

text \<open>An operation of the endpoint that the build option does not touch.\<close>

definition on_base :: "(rasta_st \<Rightarrow> rasta_st option) \<Rightarrow> kex_st \<Rightarrow> kex_st option" where
  "on_base f k = map_option (\<lambda>s. k\<lparr>base := s\<rparr>) (f (base k))"

definition on_base2 :: "(rasta_st \<Rightarrow> ('a \<times> rasta_st) option) \<Rightarrow> kex_st \<Rightarrow> ('a \<times> kex_st) option" where
  "on_base2 f k = map_option (\<lambda>(r, s). (r, k\<lparr>base := s\<rparr>)) (f (base k))"

definition current_time :: "kex_st \<Rightarrow> u64 \<times> kex_st" where
  "current_time k = (let (t, c) = get_current_time_ms (clk (base k)) in (t, map_base (\<lambda>s. s\<lparr>clk := c\<rparr>) k))"

definition timestamp_of :: "kex_st \<Rightarrow> u32 \<times> kex_st" where
  "timestamp_of k = (let (t, s) = now_ms (base k) in (t, k\<lparr>base := s\<rparr>))"

section \<open>Wrappers of the library (key_exchange.c)\<close>

text \<open>The zero byte is searched inside the array; without one the search leaves it.\<close>

definition strlen :: "bytes \<Rightarrow> nat option" where
  "strlen b = (if 0 \<in> set b then Some (length (takeWhile (\<lambda>x. x \<noteq> 0) b)) else None)"

definition htobe32 :: "u32 \<Rightarrow> bytes" where
  "htobe32 v = [ucast (drop_bit 24 v), ucast (drop_bit 16 v), ucast (drop_bit 8 v), ucast v]"

definition rasta_ids_to_opaque_ids :: "bytes \<Rightarrow> bytes \<Rightarrow> Opaque_Ids" where
  "rasta_ids_to_opaque_ids me remote = \<lparr>idS = me, idU = remote\<rparr>"

definition key_exchange_prepare_from_psk ::
  "libopaque \<Rightarrow> bytes \<Rightarrow> u32 \<Rightarrow> u32 \<Rightarrow> kex_st \<Rightarrow> (int \<times> kex_st) option" where
  "key_exchange_prepare_from_psk lib password me remote k = do {
     pl \<leftarrow> strlen password;
     let ids = rasta_ids_to_opaque_ids (htobe32 me) (htobe32 remote);
     let (ret, rec) = opaque_Register lib (lib_calls k) (take pl password) ids;
     Some (ret, (map_kex (\<lambda>x. x\<lparr>user_record := rec\<rparr>) k)\<lparr>lib_calls := Suc (lib_calls k)\<rparr>)
   }"

definition key_exchange_prepare_credential_request ::
  "libopaque \<Rightarrow> bytes \<Rightarrow> kex_st \<Rightarrow> (int \<times> kex_st) option" where
  "key_exchange_prepare_credential_request lib password k = do {
     pl \<leftarrow> strlen password;
     if \<not> malloc_succeeds lib (lib_calls k) then Some (1, k)
     else if mlock lib (lib_calls k) \<noteq> 0 then Some (mlock lib (lib_calls k), k)
     else
       let (ret, sec, pub) = opaque_CreateCredentialRequest lib (lib_calls k) (take pl password)
       in Some (ret, (map_kex (\<lambda>x. x\<lparr>client_secret := Some sec, password_length := pl, client_public := pub\<rparr>) k)
            \<lparr>lib_calls := Suc (lib_calls k)\<rparr>)
   }"

definition kex_prepare_credential_response ::
  "libopaque \<Rightarrow> bytes \<Rightarrow> u32 \<Rightarrow> u32 \<Rightarrow> u32 \<Rightarrow> kex_st \<Rightarrow> int \<times> kex_st" where
  "kex_prepare_credential_response lib received_client_public me remote isn k =
     (if length received_client_public \<noteq> USER_SESSION_PUBLIC_LEN lib then (-1, k)
      else
        let ids = rasta_ids_to_opaque_ids (htobe32 me) (htobe32 remote);
            (ret, resp, sk, auth) = opaque_CreateCredentialResponse lib (lib_calls k) received_client_public
              (user_record (kex_state k)) ids (htobe32 isn)
        in (ret, (map_kex (\<lambda>x. x\<lparr>certificate_response := resp, session_key := sk, user_auth_server := auth\<rparr>) k)
             \<lparr>lib_calls := Suc (lib_calls k)\<rparr>))"

text \<open>
  The secret is a null pointer when no request is under way. \<open>memset\<close> clears as many bytes as the
  password has, of a block that is longer; the identities are swapped, seen from the client.
\<close>

definition kex_recover_credential ::
  "libopaque \<Rightarrow> bytes \<Rightarrow> u32 \<Rightarrow> u32 \<Rightarrow> u32 \<Rightarrow> kex_st \<Rightarrow> (int \<times> kex_st) option" where
  "kex_recover_credential lib received_server_response me remote isn k =
     (if length received_server_response \<noteq> SERVER_SESSION_LEN lib then Some (-1, k)
      else do {
        secret \<leftarrow> client_secret (kex_state k);
        let ids = rasta_ids_to_opaque_ids (htobe32 remote) (htobe32 me);
        let (ret, sk, auth) = opaque_RecoverCredentials lib received_server_response secret (htobe32 isn) ids;
        wiped \<leftarrow> rmemset secret 0 0 (password_length (kex_state k));
        Some (ret, (map_kex (\<lambda>x. x\<lparr>session_key := sk, user_auth_server := auth, client_secret := None\<rparr>) k)
          \<lparr>freed := wiped # freed k\<rparr>)
      })"

definition kex_authenticate_user :: "libopaque \<Rightarrow> key_exchange_state \<Rightarrow> bytes \<Rightarrow> int" where
  "kex_authenticate_user lib ks received_user_auth =
     (if length received_user_auth \<noteq> HMACSHA512_BYTES lib then 1
      else opaque_UserAuth lib (user_auth_server ks) received_user_auth)"

section \<open>Packets (rastafactory.c)\<close>

definition RASTA_TYPE_KEX_REQUEST :: rasta_conn_type where "RASTA_TYPE_KEX_REQUEST = 6250"
definition RASTA_TYPE_KEX_RESPONSE :: rasta_conn_type where "RASTA_TYPE_KEX_RESPONSE = 6251"
definition RASTA_TYPE_KEX_AUTHENTICATION :: rasta_conn_type where "RASTA_TYPE_KEX_AUTHENTICATION = 6252"

lemmas kex_type_defs = RASTA_TYPE_KEX_REQUEST_def RASTA_TYPE_KEX_RESPONSE_def RASTA_TYPE_KEX_AUTHENTICATION_def

text \<open>An error of the library aborts the program.\<close>

definition createKexRequest ::
  "libopaque \<Rightarrow> u32 \<Rightarrow> u32 \<Rightarrow> u32 \<Rightarrow> u32 \<Rightarrow> u32 \<Rightarrow> u32 \<Rightarrow> rasta_hashing_ctx \<Rightarrow> bytes \<Rightarrow> kex_st \<Rightarrow> (RastaPacket \<times> kex_st) option"
where
  "createKexRequest lib receiver sender sn csn ts cts ctx password k = do {
     let p = initializePacket RASTA_TYPE_KEX_REQUEST receiver sender sn csn ts cts
               (of_nat (USER_SESSION_PUBLIC_LEN lib)) ctx;
     (ret, k) \<leftarrow> key_exchange_prepare_credential_request lib password k;
     if ret \<noteq> 0 then None
     else do {
       d \<leftarrow> rmemcpy (pkt_data p) 0 (client_public (kex_state k)) 0 (USER_SESSION_PUBLIC_LEN lib);
       Some (p\<lparr>pkt_data := d\<rparr>, k)
     }
   }"

text \<open>The record comes from the configuration, or is made from the password.\<close>

definition prepare_user_record :: "libopaque \<Rightarrow> bytes \<Rightarrow> u32 \<Rightarrow> u32 \<Rightarrow> kex_st \<Rightarrow> kex_st option" where
  "prepare_user_record lib password receiver sender k =
     (if has_psk_record (kex k) then do {
        r \<leftarrow> rmemcpy (user_record (kex_state k)) 0 (psk_record (kex k)) 0 (USER_RECORD_LEN lib);
        Some (map_kex (\<lambda>x. x\<lparr>user_record := r\<rparr>) k)
      }
      else do {
        (ret, k) \<leftarrow> key_exchange_prepare_from_psk lib password sender receiver k;
        if ret \<noteq> 0 then None else Some k
      })"

definition createKexResponse ::
  "libopaque \<Rightarrow> u32 \<Rightarrow> u32 \<Rightarrow> u32 \<Rightarrow> u32 \<Rightarrow> u32 \<Rightarrow> u32 \<Rightarrow> rasta_hashing_ctx \<Rightarrow> bytes \<Rightarrow> bytes \<Rightarrow> u32 \<Rightarrow> kex_st \<Rightarrow>
   (RastaPacket \<times> kex_st) option"
where
  "createKexResponse lib receiver sender sn csn ts cts ctx password received_request isn k = do {
     let p = initializePacket RASTA_TYPE_KEX_RESPONSE receiver sender sn csn ts cts
               (of_nat (SERVER_SESSION_LEN lib)) ctx;
     k \<leftarrow> prepare_user_record lib password receiver sender k;
     if length received_request \<noteq> USER_SESSION_PUBLIC_LEN lib then None
     else
       let (ret, k) = kex_prepare_credential_response lib received_request sender receiver isn k
       in if ret \<noteq> 0 then None
          else do {
            d \<leftarrow> rmemcpy (pkt_data p) 0 (certificate_response (kex_state k)) 0 (SERVER_SESSION_LEN lib);
            Some (p\<lparr>pkt_data := d\<rparr>, k)
          }
   }"

definition createKexAuthentication ::
  "u32 \<Rightarrow> u32 \<Rightarrow> u32 \<Rightarrow> u32 \<Rightarrow> u32 \<Rightarrow> u32 \<Rightarrow> rasta_hashing_ctx \<Rightarrow> bytes \<Rightarrow> nat \<Rightarrow> RastaPacket option" where
  "createKexAuthentication receiver sender sn csn ts cts ctx user_authentication user_authentication_length = do {
     let p = initializePacket RASTA_TYPE_KEX_AUTHENTICATION receiver sender sn csn ts cts
               (of_nat user_authentication_length) ctx;
     d \<leftarrow> rmemcpy (pkt_data p) 0 user_authentication 0 user_authentication_length;
     Some (p\<lparr>pkt_data := d\<rparr>)
   }"

section \<open>Handlers (experimental/handlers.c)\<close>

definition kex_close :: "rasta_disconnect_reason \<Rightarrow> bool \<Rightarrow> kex_st \<Rightarrow> (bool \<times> kex_st) option" where
  "kex_close rsn r k = do {
     k \<leftarrow> on_base (sr_close_connection rsn 0) k;
     Some (r, k)
   }"

text \<open>The values that all three handlers take from a packet: \<open>sn_r\<close>, \<open>cs_t\<close>, \<open>cs_r\<close>, \<open>ts_r\<close> and \<open>cts_r\<close>.\<close>

definition kex_update_attrs :: "RastaPacket \<Rightarrow> rasta_connection \<Rightarrow> rasta_connection" where
  "kex_update_attrs p c = c\<lparr>sn_r := sequence_number p + 1, cs_t := sequence_number p,
     cs_r := confirmed_sequence_number p, ts_r := timestamp p, cts_r := confirmed_timestamp p\<rparr>"

definition install_session_key :: "libopaque \<Rightarrow> kex_st \<Rightarrow> kex_st option" where
  "install_session_key lib k = do {
     ctx \<leftarrow> rasta_set_hash_key_variable (sr_hashing_context (mux (base k))) (session_key (kex_state k)) (SHARED_SECRETBYTES lib);
     Some (map_base (\<lambda>s. s\<lparr>mux := (mux s)\<lparr>sr_hashing_context := ctx\<rparr>\<rparr>) k)
   }"

definition handle_kex_request :: "libopaque \<Rightarrow> RastaPacket \<Rightarrow> kex_st \<Rightarrow> (bool \<times> kex_st) option" where
  "handle_kex_request lib p k =
     (if sr_sn_in_seq (con (base k)) p then
        if current_state (con (base k)) \<noteq> RASTA_CONNECTION_KEX_REQ \<and>
           (rekeying_interval_ms (kex k) = 0 \<or> current_state (con (base k)) \<noteq> RASTA_CONNECTION_UP)
        then kex_close RASTA_DISC_REASON_UNEXPECTEDTYPE False k
        else if sr_cts_in_seq (con (base k)) (sending (cfg (base k))) p then
          if kex_mode (cfg (base k)) = KEY_EXCHANGE_MODE_NONE
          then kex_close RASTA_DISC_REASON_UNEXPECTEDTYPE False k
          else do {
            let (t, k) = current_time k;
            let k = map_kex (\<lambda>x. x\<lparr>last_key_exchanged_millis := t\<rparr>) k;
            let (ts, k) = timestamp_of k;
            (response, k) \<leftarrow> createKexResponse lib (remote_id (con (base k))) (my_id (con (base k))) (sn_t (con (base k)))
              (sequence_number p) ts (timestamp p) (sr_hashing_context (mux (base k))) (psk (kex k)) (pkt_data p)
              (sn_i (con (base k))) k;
            k \<leftarrow> on_base (redundancy_mux_send response (role (con (base k)))) k;
            let k = map_base (map_con (\<lambda>c. kex_update_attrs p (c\<lparr>sn_t := sn_t c + 1\<rparr>))) k;
            k \<leftarrow> on_base sr_remove_confirmed_messages k;
            let k = map_base (set_state RASTA_CONNECTION_KEX_AUTH) k;
            k \<leftarrow> install_session_key lib k;
            Some (False, k)
          }
        else kex_close RASTA_DISC_REASON_PROTOCOLERROR False
               (map_base (map_errors (\<lambda>e. e\<lparr>cs_errors := cs_errors e + 1\<rparr>)) k)
      else kex_close RASTA_DISC_REASON_UNEXPECTEDTYPE False k)"

definition handle_kex_response :: "libopaque \<Rightarrow> RastaPacket \<Rightarrow> kex_st \<Rightarrow> (bool \<times> kex_st) option" where
  "handle_kex_response lib p k =
     (if sr_sn_in_seq (con (base k)) p then
        if current_state (con (base k)) \<noteq> RASTA_CONNECTION_KEX_RESP
        then kex_close RASTA_DISC_REASON_UNEXPECTEDTYPE False k
        else if sr_cts_in_seq (con (base k)) (sending (cfg (base k))) p then
          if kex_mode (cfg (base k)) = KEY_EXCHANGE_MODE_NONE
          then kex_close RASTA_DISC_REASON_UNEXPECTEDTYPE False k
          else do {
            (ret, k) \<leftarrow> kex_recover_credential lib (pkt_data p) (my_id (con (base k))) (remote_id (con (base k)))
              (sn_i (con (base k))) k;
            if ret \<noteq> 0 then kex_close RASTA_DISC_REASON_UNEXPECTEDTYPE True k
            else do {
              let (ts, k) = timestamp_of k;
              response \<leftarrow> createKexAuthentication (remote_id (con (base k))) (my_id (con (base k))) (sn_t (con (base k)))
                (sequence_number p) ts (timestamp p) (sr_hashing_context (mux (base k)))
                (user_auth_server (kex_state k)) (HMACSHA512_BYTES lib);
              k \<leftarrow> on_base (redundancy_mux_send response (role (con (base k)))) k;
              let k = map_base (map_con (\<lambda>c. kex_update_attrs p (c\<lparr>sn_t := sn_t c + 1\<rparr>))) k;
              k \<leftarrow> on_base sr_remove_confirmed_messages k;
              let k = map_base (set_state RASTA_CONNECTION_UP) k;
              k \<leftarrow> install_session_key lib k;
              Some (True, k)
            }
          }
        else kex_close RASTA_DISC_REASON_PROTOCOLERROR False
               (map_base (map_errors (\<lambda>e. e\<lparr>cs_errors := cs_errors e + 1\<rparr>)) k)
      else kex_close RASTA_DISC_REASON_UNEXPECTEDTYPE False k)"

definition handle_kex_auth :: "libopaque \<Rightarrow> RastaPacket \<Rightarrow> kex_st \<Rightarrow> (bool \<times> kex_st) option" where
  "handle_kex_auth lib p k =
     (if sr_sn_in_seq (con (base k)) p then
        if current_state (con (base k)) \<noteq> RASTA_CONNECTION_KEX_AUTH
        then kex_close RASTA_DISC_REASON_UNEXPECTEDTYPE False k
        else if sr_cts_in_seq (con (base k)) (sending (cfg (base k))) p then
          if kex_mode (cfg (base k)) = KEY_EXCHANGE_MODE_NONE
          then kex_close RASTA_DISC_REASON_UNEXPECTEDTYPE False k
          else if kex_authenticate_user lib (kex_state k) (pkt_data p) \<noteq> 0
          then kex_close RASTA_DISC_REASON_UNEXPECTEDTYPE True k
          else do {
            let k = map_base (map_con (kex_update_attrs p)) k;
            k \<leftarrow> on_base sr_remove_confirmed_messages k;
            Some (True, map_base (set_state RASTA_CONNECTION_UP) k)
          }
        else kex_close RASTA_DISC_REASON_PROTOCOLERROR False
               (map_base (map_errors (\<lambda>e. e\<lparr>cs_errors := cs_errors e + 1\<rparr>)) k)
      else kex_close RASTA_DISC_REASON_UNEXPECTEDTYPE False k)"

text \<open>The event keeps its time and its flag; the interval is half of the configured one.\<close>

definition init_send_key_exchange_event :: "u64 \<Rightarrow> timed_event \<Rightarrow> timed_event" where
  "init_send_key_exchange_event rekeying_ms ev = ev\<lparr>te_interval := rekeying_ms * NS_PER_MS div 2\<rparr>"

text \<open>The part of \<open>init_connection_events\<close> that the build adds.\<close>

definition init_rekeying_event :: "kex_st \<Rightarrow> kex_st" where
  "init_rekeying_event k =
     (if role (con (base k)) = RASTA_ROLE_CLIENT \<and> rekeying_interval_ms (kex k) \<noteq> 0
      then k\<lparr>rekeying_event := init_send_key_exchange_event (rekeying_interval_ms (kex k)) (rekeying_event k)\<rparr>
      else k)"

text \<open>The first exchange starts the rekeying timer; later ones only log the time.\<close>

definition start_rekeying :: "kex_st \<Rightarrow> kex_st" where
  "start_rekeying k =
     (if last_key_exchanged_millis (kex_state k) = 0 \<and> rekeying_interval_ms (kex k) \<noteq> 0 then
        let (t, s) = now_ns (base k)
        in k\<lparr>base := s, rekeying_event := enable_timed_event
             (init_send_key_exchange_event (rekeying_interval_ms (kex k)) (rekeying_event k)) t\<rparr>
      else snd (current_time k))"

definition send_KexRequest :: "libopaque \<Rightarrow> kex_st \<Rightarrow> kex_st option" where
  "send_KexRequest lib k = do {
     let (ts, k) = timestamp_of k;
     (hb, k) \<leftarrow> createKexRequest lib (remote_id (con (base k))) (my_id (con (base k))) (sn_t (con (base k)))
       (cs_t (con (base k))) ts (ts_r (con (base k))) (sr_hashing_context (mux (base k))) (psk (kex k)) k;
     let k = start_rekeying k;
     k \<leftarrow> on_base (redundancy_mux_send hb (role (con (base k)))) k;
     let k = map_base (map_con (\<lambda>c. c\<lparr>sn_t := sn_t c + 1\<rparr>)) k;
     let (t, k) = current_time k;
     let k = map_kex (\<lambda>x. x\<lparr>last_key_exchanged_millis := t\<rparr>) k;
     Some (map_base (set_state RASTA_CONNECTION_KEX_RESP) k)
   }"

definition send_timed_key_exchange :: "libopaque \<Rightarrow> kex_st \<Rightarrow> (bool \<times> kex_st) option" where
  "send_timed_key_exchange lib k = do {
     k \<leftarrow> send_KexRequest lib k;
     let (t, s) = now_ns (base k);
     Some (False, k\<lparr>base := s, rekeying_event := reschedule_event (rekeying_event k) t\<rparr>)
   }"

section \<open>The safety layer with key exchange (safety_retransmission.c, handlers.c)\<close>

definition REKEYING_ALLOWED_DELAY_MS :: u64 where "REKEYING_ALLOWED_DELAY_MS = 500"

definition sr_rekeying_skipped_kex :: "kex_st \<Rightarrow> bool \<times> kex_st" where
  "sr_rekeying_skipped_kex k =
     (if current_state (con (base k)) = RASTA_CONNECTION_KEX_REQ then (False, k)
      else if role (con (base k)) \<noteq> RASTA_ROLE_SERVER then (False, k)
      else if rekeying_interval_ms (kex k) = 0 \<or> last_key_exchanged_millis (kex_state k) = 0 then (False, k)
      else
        let (now, k) = current_time k
        in (now - last_key_exchanged_millis (kex_state k) > REKEYING_ALLOWED_DELAY_MS + rekeying_interval_ms (kex k), k))"

text \<open>
  \<open>sr_init_connection\<close> also forgets the last key exchange. Of its two callers, \<open>handle_conreq\<close> calls it
  when the connection is closed or down, and \<open>sr_connect\<close> unless it has returned \<open>NULL\<close> before; nothing
  in them reads the time of the last exchange afterwards.
\<close>

definition forget_key_exchange :: "kex_st \<Rightarrow> kex_st" where
  "forget_key_exchange = map_kex (\<lambda>x. x\<lparr>last_key_exchanged_millis := 0\<rparr>)"

definition handle_conreq_kex :: "RastaPacket \<Rightarrow> kex_st \<Rightarrow> kex_st option" where
  "handle_conreq_kex p k =
     (if current_state (con (base k)) = RASTA_CONNECTION_CLOSED \<or> current_state (con (base k)) = RASTA_CONNECTION_DOWN
      then on_base (handle_conreq p) (forget_key_exchange k)
      else on_base (handle_conreq p) k)"

definition sr_connect_start_kex :: "kex_st \<Rightarrow> (bool \<times> kex_st) option" where
  "sr_connect_start_kex k = do {
     (r, k) \<leftarrow> on_base2 sr_connect_start k;
     Some (r, if r then forget_key_exchange k else k)
   }"

definition handle_conresp_kex :: "libopaque \<Rightarrow> RastaPacket \<Rightarrow> kex_st \<Rightarrow> kex_st option" where
  "handle_conresp_kex lib p k =
     (if \<not> sr_check_packet (con (base k)) (sending (cfg (base k))) p
      then on_base (sr_close_connection RASTA_DISC_REASON_PROTOCOLERROR 0) k
      else if current_state (con (base k)) = RASTA_CONNECTION_START then
        if role (con (base k)) = RASTA_ROLE_CLIENT then do {
          (cd, err) \<leftarrow> extractRastaConnectionData (factory_error (base k)) p;
          let k = map_base (\<lambda>s. s\<lparr>factory_error := err\<rparr>) k;
          if version_accepted (accepted_versions (cfg (base k))) (version cd) then do {
            let k = map_base (map_con (update_connection_attrs p)) k;
            let k = map_base (map_con (\<lambda>c. c\<lparr>cs_r := confirmed_sequence_number p\<rparr>)) k;
            let k = map_base (set_state RASTA_CONNECTION_UP) k;
            k \<leftarrow> on_base (sendHeartbeat True) k;
            k \<leftarrow> (if kex_mode (cfg (base k)) = KEY_EXCHANGE_MODE_OPAQUE then send_KexRequest lib k else Some k);
            let k = map_base enable_heartbeat k;
            let k = map_base (map_con (\<lambda>c. c\<lparr>hb_locked := False,
              connected_recv_buffer_size := uint (conn_send_max cd)\<rparr>)) k;
            Some (map_base enable_timeout k)
          }
          else on_base (sr_close_connection RASTA_DISC_REASON_INCOMPATIBLEVERSION 0) k
        }
        else on_base (sr_close_connection RASTA_DISC_REASON_UNEXPECTEDTYPE 0) k
      else if current_state (con (base k)) \<in> {RASTA_CONNECTION_RETRREQ, RASTA_CONNECTION_RETRRUN, RASTA_CONNECTION_UP}
      then on_base (sr_close_connection RASTA_DISC_REASON_UNEXPECTEDTYPE 0) k
      else Some k)"

definition handle_received_packet_kex :: "libopaque \<Rightarrow> RastaPacket \<Rightarrow> kex_st \<Rightarrow> (bool \<times> kex_st) option" where
  "handle_received_packet_kex lib p k =
     (if pkt_type p = RASTA_TYPE_KEX_REQUEST then handle_kex_request lib p k
      else if pkt_type p = RASTA_TYPE_KEX_RESPONSE then handle_kex_response lib p k
      else if pkt_type p = RASTA_TYPE_KEX_AUTHENTICATION then handle_kex_auth lib p k
      else on_base2 (handle_received_packet p) k)"

definition sr_receive_kex :: "libopaque \<Rightarrow> RastaPacket \<Rightarrow> kex_st \<Rightarrow> (bool \<times> kex_st) option" where
  "sr_receive_kex lib p k =
     (if pkt_type p = RASTA_TYPE_CONNREQ then map_option (\<lambda>k. (False, k)) (handle_conreq_kex p k)
      else if pkt_type p = RASTA_TYPE_CONNRESP then map_option (\<lambda>k. (True, k)) (handle_conresp_kex lib p k)
      else if \<not> checksum_correct p then
        Some (False, map_base (map_errors (\<lambda>e. e\<lparr>safety := safety e + 1\<rparr>)) k)
      else if \<not> sr_message_authentic (con (base k)) p then
        Some (False, map_base (map_errors (\<lambda>e. e\<lparr>address := address e + 1\<rparr>)) k)
      else if \<not> sr_sn_range_valid (con (base k)) (sending (cfg (base k))) p then
        Some (False, map_base (map_errors (\<lambda>e. e\<lparr>sn_errors := sn_errors e + 1\<rparr>)) k)
      else if \<not> sr_cs_valid (con (base k)) p then
        Some (False, map_base (map_errors (\<lambda>e. e\<lparr>cs_errors := cs_errors e + 1\<rparr>)) k)
      else
        let (skipped, k) = sr_rekeying_skipped_kex k
        in if skipped then kex_close RASTA_DISC_REASON_TIMEOUT False (snd (current_time k))
           else handle_received_packet_kex lib p k)"

definition sr_disconnect_kex :: "kex_st \<Rightarrow> kex_st option" where
  "sr_disconnect_kex k = do {
     k \<leftarrow> on_base sr_disconnect k;
     Some (if rekeying_interval_ms (kex k) \<noteq> 0 then k\<lparr>rekeying_event := disable_timed_event (rekeying_event k)\<rparr> else k)
   }"

end
