(* ===== verification/Rasta_Example.thy ===== *)
theory Rasta_Example
  imports Rasta_Redundancy
begin

text \<open>
  A concrete endpoint on which the properties of the following theories are exercised: TCP with two
  transport channels, a CRC of 32 bits, no safety code, a network whose calls all succeed and a
  clock that stands still.
\<close>

definition example_config :: rasta_config_info where
  "example_config =
     \<lparr>initial_sequence_number = 5, accepted_versions = [[0x30, 0x33, 0x30, 0x33]],
      sending = \<lparr>t_max = 1800, t_h = 300, md4_type = RASTA_CHECKSUM_NONE, md4_a = 1, md4_b = 2, md4_c = 3,
        md4_d = 4, mwa = 10, send_max = 20, max_packet = 3, diag_window = 5000, sr_hash_key = 0,
        sr_hash_algorithm = RASTA_ALGO_BLAKE2B\<rparr>,
      max_recvqueue_size = 10, max_retransmission_queue_size = 4,
      redundancy = \<lparr>connections = [\<lparr>ip = ''10.0.0.1'', ip_port = 8888\<rparr>, \<lparr>ip = ''10.0.1.1'', ip_port = 8889\<rparr>],
        crc_type = crc_init_opt_b [], t_seq = 100, n_diagnose = 200, n_deferqueue_size = 4\<rparr>,
      redundancy_remote = \<lparr>connections = [\<lparr>ip = ''10.0.0.2'', ip_port = 8888\<rparr>, \<lparr>ip = ''10.0.1.2'', ip_port = 8889\<rparr>],
        crc_type = crc_init_opt_b [], t_seq = 100, n_diagnose = 200, n_deferqueue_size = 4\<rparr>,
      general = \<lparr>rasta_network = 1, rasta_id = 0x60, rasta_id_remote = 0x61\<rparr>,
      kex_mode = KEY_EXCHANGE_MODE_NONE\<rparr>"

definition plain_ctx :: rasta_hashing_ctx where
  "plain_ctx = \<lparr>algorithm = RASTA_ALGO_BLAKE2B, hash_length = RASTA_CHECKSUM_NONE, key = replicate 16 1\<rparr>"

lemma plain_ctx_simps [simp]: "hashing_ok plain_ctx" "checksum_len plain_ctx = 0"
  by (simp_all add: hashing_ok_def plain_ctx_def checksum_len_def)

text \<open>A data packet of the peer with one application message, for a connection that expects number 7.\<close>

definition example_data :: RastaPacket where
  "example_data =
     \<lparr>pkt_length = 31, pkt_type = RASTA_TYPE_DATA, receiver_id = 0x60, sender_id = 0x61,
      sequence_number = 7, confirmed_sequence_number = 4, timestamp = 100, confirmed_timestamp = 90,
      pkt_data = [1, 0, 65], checksum = [], checksum_correct = True\<rparr>"

lemma example_data_wf [simp]: "packet_wf plain_ctx example_data"
  by (simp add: packet_wf_def example_data_def)

definition example_red :: "u32 \<Rightarrow> RastaRedundancyPacket" where
  "example_red n =
     \<lparr>red_length = 43, red_reserve = 0, red_sequence_number = n, red_data = example_data,
      red_checksum_correct = True, checksum_type = crc_init_opt_b []\<rparr>"

lemma example_red_packet_wf [simp]: "red_packet_wf plain_ctx (example_red n)"
  by (simp add: red_packet_wf_def example_red_def crc_len_def crc_init_opt_b_def)
    (simp add: example_data_def)

definition example_timer :: timed_event where
  "example_timer = \<lparr>te_interval = 1000000, last_call = 0, te_enabled = True\<rparr>"

text \<open>The connection is up, with one unconfirmed packet (number 4) and one queued message.\<close>

definition example_connection :: rasta_connection where
  "example_connection =
     \<lparr>is_new = False, handshake_timeout_event = example_timer\<lparr>te_enabled := False\<rparr>,
      send_heartbeat_event = example_timer, timeout_event = example_timer, send_event = example_timer,
      hb_locked = False, current_state = RASTA_CONNECTION_UP,
      fifo_send = \<lparr>items = [[66]], capacity = 6\<rparr>, fifo_receive = \<lparr>items = [], capacity = 10\<rparr>,
      connected_recv_buffer_size = 20, role = RASTA_ROLE_CLIENT, sn_t = 5, sn_r = 7, sn_i = 3, cs_t = 6,
      cs_r = 3, ts_r = 80, cts_r = 80, t_i = 1800, my_id = 0x60, remote_id = 0x61, network_id = 1,
      received_diagnostic_message_count = 0, diagnostic_intervals = [],
      fifo_retransmission = \<lparr>items = [sr_frame plain_ctx (example_data\<lparr>sequence_number := 4\<rparr>)], capacity = 4\<rparr>,
      errors = \<lparr>safety = 0, address = 0, type_errors = 0, sn_errors = 0, cs_errors = 0\<rparr>\<rparr>"

definition example_channel :: "nat \<Rightarrow> rasta_transport_channel" where
  "example_channel i = zero_transport_channel\<lparr>tc_id := i, connected := True, tc_fd := 7 + int i,
     tc_receive_event := \<lparr>ev_fd = 7 + int i, ev_enabled = True\<rparr>, associated_socket := Some i\<rparr>"

definition example_net :: network where
  "example_net = \<lparr>answers = (\<lambda>_. 0), n_calls = 0, valid_address = (\<lambda>_. True), received = (\<lambda>_. []),
     peer = (\<lambda>_. (''10.0.0.2'', 8888)), readable = (\<lambda>_. []), wire = []\<rparr>"

definition example_st :: rasta_st where
  "example_st =
     \<lparr>con = example_connection,
      chan = \<lparr>associated_id = 0x61, seq_tx = 2, seq_rx = 3,
        defer_q = \<lparr>elements = replicate 4 \<lparr>packet = example_red 0, received_timestamp = 0\<rparr>, dq_count = 0, dq_max_count = 4\<rparr>,
        diagnostics_packet_buffer = \<lparr>elements = replicate 40 \<lparr>packet = example_red 0, received_timestamp = 0\<rparr>,
          dq_count = 0, dq_max_count = 40\<rparr>,
        transport_channels = [example_channel 0, example_channel 1],
        configuration_parameters = redundancy example_config, hashing_context = plain_ctx\<rparr>,
      mux = \<lparr>port_count = 2, transport_sockets = map (\<lambda>i. \<lparr>ts_id = i, ts_fd = 5 + int i,
        accept_event = \<lparr>ev_fd = 5 + int i, ev_enabled = False\<rparr>,
        ts_receive_event = \<lparr>ev_fd = 0, ev_enabled = False\<rparr>\<rparr>) [0, 1], sr_hashing_context = plain_ctx\<rparr>,
      cfg = example_config, transport_lib = TCP,
      clk = \<lparr>readings = (\<lambda>_. \<lparr>tv_sec = 1, tv_nsec = 0\<rparr>), n_reads = 0, clk_tck = 100\<rparr>,
      net = example_net, module_error = RASTA_ERRORS_NONE, factory_error = RASTA_ERRORS_NONE,
      uninit = example_red 0, uninit_address = (''0.0.0.0'', 0)\<rparr>"

lemmas example_defs = example_st_def example_config_def example_connection_def example_net_def example_channel_def

end
