(* ===== verification/Rasta_Session_Key.thy ===== *)
theory Rasta_Session_Key
  imports Rasta_Opaque Rasta_Example
begin

text \<open>
  What the session key is good for. The exchange installs it in the safety code of the multiplexer,
  while packets are sent with the safety code of the redundancy channel, and received packets are
  given a fresh one of the channel before they are checked. Nothing that is sent or handed on depends
  on the key.
\<close>

section \<open>Sending does not look at the key\<close>

definition rekey :: "rasta_hashing_ctx \<Rightarrow> rasta_st \<Rightarrow> rasta_st" where
  "rekey ctx s = s\<lparr>mux := (mux s)\<lparr>sr_hashing_context := ctx\<rparr>\<rparr>"

lemma rekey_simps [simp]:
  "con (rekey ctx s) = con s" "chan (rekey ctx s) = chan s" "cfg (rekey ctx s) = cfg s" "net (rekey ctx s) = net s"
  "clk (rekey ctx s) = clk s" "transport_lib (rekey ctx s) = transport_lib s" "module_error (rekey ctx s) = module_error s"
  "uninit (rekey ctx s) = uninit s" "transport_sockets (mux (rekey ctx s)) = transport_sockets (mux s)"
  "sr_hashing_context (mux (rekey ctx s)) = ctx" "factory_error (rekey ctx s) = factory_error s"
  "rekey ctx (rekey ctx' s) = rekey ctx s"
  by (simp_all add: rekey_def)

lemma rekey_update [simp]:
  "(rekey ctx s)\<lparr>net := n\<rparr> = rekey ctx (s\<lparr>net := n\<rparr>)" "(rekey ctx s)\<lparr>module_error := e\<rparr> = rekey ctx (s\<lparr>module_error := e\<rparr>)"
  "(rekey ctx s)\<lparr>clk := c\<rparr> = rekey ctx (s\<lparr>clk := c\<rparr>)"
  "map_con f (rekey ctx s) = rekey ctx (map_con f s)" "map_chan h (rekey ctx s) = rekey ctx (map_chan h s)"
  "map_channel i g (rekey ctx s) = rekey ctx (map_channel i g s)"
  "map_socket i k (rekey ctx s) = rekey ctx (map_socket i k s)"
  by (simp_all add: rekey_def map_con_def map_chan_def map_channel_def map_socket_def)

lemma rekey_call [simp]:
  "call (rekey ctx s) = (fst (call s), rekey ctx (snd (call s)))" "now_ms (rekey ctx s) = (fst (now_ms s), rekey ctx (snd (now_ms s)))"
  "channel_at i (rekey ctx s) = channel_at i s" "socket_at i (rekey ctx s) = socket_at i s"
  by (simp_all add: call_def now_ms_def channel_at_def socket_at_def split_beta Let_def)

lemmas map_bind = map_option_bind Option.bind_map_option comp_def

named_theorems rekeyed

lemma rekey_put_wire [rekeyed]: "put_wire i fd m (rekey ctx s) = map_option (rekey ctx) (put_wire i fd m s)"
  by (simp add: put_wire_def Let_def split_beta)

lemma rekey_send_callback [rekeyed]: "send_callback m i (rekey ctx s) = map_option (rekey ctx) (send_callback m i s)"
  by (auto simp: send_defs rekeyed map_option_bind split: transport.split intro!: Option.bind_cong)

lemma rekey_create_socket [rekeyed]:
  "bsd_create_socket (rekey ctx s) = map_option (apsnd (rekey ctx)) (bsd_create_socket s)"
  by (simp add: bsd_create_socket_def Let_def split_beta)

lemma rekey_connect [rekeyed]: "transport_connect sk i (rekey ctx s) = map_option (apsnd (rekey ctx)) (transport_connect sk i s)"
  by (auto simp: connect_defs tcp_connect_def Let_def split_beta map_option_bind split: transport.split intro!: Option.bind_cong)

lemma rekey_bind_device [rekeyed]: "transport_bind (rekey ctx s) = apsnd (rekey ctx) (transport_bind s)"
  by (simp add: transport_bind_def bsd_bind_device_def Let_def split_beta)

lemma rekey_redial [rekeyed]: "transport_redial i (rekey ctx s) = map_option (apsnd (rekey ctx)) (transport_redial i s)"
  by (auto simp: redial_defs rekeyed Let_def split_beta map_bind split: transport.split intro!: Option.bind_cong)

lemma rekey_send_channel [rekeyed]: "mux_send_channel r m i (rekey ctx s) = map_option (rekey ctx) (mux_send_channel r m i s)"
  by (auto simp: mux_send_channel_def rekeyed split_beta map_bind intro!: Option.bind_cong)

lemma rekey_send_loop [rekeyed]: "mux_send_loop r m is (rekey ctx s) = map_option (rekey ctx) (mux_send_loop r m is s)"
  by (induction "is" arbitrary: s) (auto simp: rekeyed map_bind intro!: Option.bind_cong)

lemma rekey_mux_send [rekeyed]: "redundancy_mux_send p r (rekey ctx s) = map_option (rekey ctx) (redundancy_mux_send p r s)"
  by (auto simp: redundancy_mux_send_def rekeyed split_beta Let_def map_bind intro!: Option.bind_cong)

section \<open>Receiving forgets the result of the check\<close>

text \<open>
  \<open>blind\<close> forgets the safety code of the multiplexer and the results of the checks with it, which are
  kept in the queued packets.
\<close>

definition blind_packet :: "RastaPacket \<Rightarrow> RastaPacket" where
  "blind_packet p = p\<lparr>checksum_correct := False\<rparr>"

definition blind_red :: "RastaRedundancyPacket \<Rightarrow> RastaRedundancyPacket" where
  "blind_red p = p\<lparr>red_data := blind_packet (red_data p)\<rparr>"

definition blind_entry :: "rasta_redundancy_packet_wrapper \<Rightarrow> rasta_redundancy_packet_wrapper" where
  "blind_entry e = e\<lparr>packet := blind_red (packet e)\<rparr>"

definition blind_queue :: "defer_queue \<Rightarrow> defer_queue" where
  "blind_queue q = q\<lparr>elements := map blind_entry (elements q)\<rparr>"

definition blind_chan :: "rasta_redundancy_channel \<Rightarrow> rasta_redundancy_channel" where
  "blind_chan c = c\<lparr>defer_q := blind_queue (defer_q c), diagnostics_packet_buffer := blind_queue (diagnostics_packet_buffer c)\<rparr>"

definition blind :: "rasta_st \<Rightarrow> rasta_st" where
  "blind s = rekey (hashing_context (chan s)) (map_chan blind_chan s)"

lemma blind_idem [simp]:
  "blind_packet (blind_packet p) = blind_packet p" "blind_red (blind_red q) = blind_red q"
  "blind_entry (blind_entry e) = blind_entry e" "blind_queue (blind_queue d) = blind_queue d" "blind (blind s) = blind s"
  by (simp_all add: blind_packet_def blind_red_def blind_entry_def blind_queue_def comp_def blind_def map_chan_def blind_chan_def rekey_def)

lemma blind_fields [simp]:
  "wrapper_seq (blind_entry e) = wrapper_seq e" "received_timestamp (blind_entry e) = received_timestamp e"
  "red_checksum_correct (blind_red p) = red_checksum_correct p" "red_sequence_number (blind_red p) = red_sequence_number p"
  "sender_id (blind_packet x) = sender_id x" "packet (blind_entry e) = blind_red (packet e)"
  "dq_count (blind_queue q) = dq_count q" "dq_max_count (blind_queue q) = dq_max_count q"
  "live (blind_queue q) = map blind_entry (live q)" "red_data (blind_red p) = blind_packet (red_data p)"
  by (simp_all add: wrapper_seq_def blind_entry_def blind_red_def blind_packet_def blind_queue_def live_def take_map)

lemma blind_state [simp]:
  "con (blind s) = con s" "cfg (blind s) = cfg s" "net (blind s) = net s" "clk (blind s) = clk s" "uninit (blind s) = uninit s"
  "module_error (blind s) = module_error s" "chan (blind s) = blind_chan (chan s)"
  "sr_hashing_context (mux (blind s)) = hashing_context (chan s)" "rekey ctx (blind s) = rekey ctx (map_chan blind_chan s)"
  by (simp_all add: blind_def map_chan_def)

lemma blind_rekey [simp]: "blind (rekey ctx s) = blind s"
  by (simp add: blind_def)

lemma blind_chan_fields [simp]:
  "transport_channels (blind_chan c) = transport_channels c" "seq_rx (blind_chan c) = seq_rx c" "seq_tx (blind_chan c) = seq_tx c"
  "associated_id (blind_chan c) = associated_id c" "hashing_context (blind_chan c) = hashing_context c"
  "configuration_parameters (blind_chan c) = configuration_parameters c" "defer_q (blind_chan c) = blind_queue (defer_q c)"
  "diagnostics_packet_buffer (blind_chan c) = blind_queue (diagnostics_packet_buffer c)"
  by (simp_all add: blind_chan_def)

subsection \<open>The defer queue\<close>

lemma blind_find_from: "find_index_from i (map blind_entry es) n = find_index_from i es n"
  by (induction es arbitrary: i) simp_all

lemma blind_find [simp]: "find_index (blind_queue q) n = find_index q n"
  by (simp add: find_index_def blind_find_from)

lemma blind_contains [simp]:
  "deferqueue_contains (blind_queue q) n = deferqueue_contains q n" "deferqueue_isfull (blind_queue q) = deferqueue_isfull q"
  by (simp_all add: deferqueue_contains_def deferqueue_isfull_def)

lemma blind_qsort: "qsort cmpfkt (map blind_entry es) = map blind_entry (qsort cmpfkt es)"
proof -
  have "qsort_insert cmpfkt (blind_entry e) (map blind_entry es) = map blind_entry (qsort_insert cmpfkt e es)" for e es
    by (induction es) (simp_all add: cmpfkt_def)
  then show ?thesis by (induction es) (simp_all add: qsort_def)
qed

lemma blind_sort: "dq_sort (blind_queue q) = blind_queue (dq_sort q)"
  by (simp add: dq_sort_def blind_qsort) (simp add: blind_queue_def drop_map)

lemma blind_add: "deferqueue_add (blind_queue q) (blind_red p) t = apsnd blind_queue (deferqueue_add q p t)"
proof -
  have "(blind_queue q)\<lparr>elements := (elements (blind_queue q))[dq_count q := \<lparr>packet = blind_red p, received_timestamp = t\<rparr>], dq_count := n\<rparr> =
    blind_queue (q\<lparr>elements := (elements q)[dq_count q := \<lparr>packet = p, received_timestamp = t\<rparr>], dq_count := n\<rparr>)" for n
    by (simp add: blind_queue_def map_update blind_entry_def)
  then show ?thesis by (simp add: deferqueue_add_def Let_def blind_sort)
qed

lemma find_index_from_bound: "find_index_from i es n = Some j \<Longrightarrow> i \<le> j \<and> j < i + length es"
  by (induction es arbitrary: i) (force split: if_splits)+

lemma find_index_live: "find_index q n = Some i \<Longrightarrow> i < length (elements q)"
  using find_index_from_bound [of 0 "live q" n i] by (simp add: find_index_def live_def)

lemma blind_get: "blind_red (deferqueue_get (blind_queue q) n) = blind_red (deferqueue_get q n)"
  "deferqueue_get_ts (blind_queue q) n = deferqueue_get_ts q n"
  by (auto simp: deferqueue_get_def deferqueue_get_ts_def dest!: find_index_live split: option.split)
    (simp_all add: blind_queue_def)

subsection \<open>Accepting packets\<close>

lemma blind_now [simp]: "now_ms (blind s) = apsnd blind (now_ms s)"
  by (simp add: now_ms_def split_beta blind_def map_chan_def rekey_def)

lemma blind_map_channel [simp]: "map_channel i f (blind s) = blind (map_channel i f s)"
  by (simp add: map_channel_def map_chan_def blind_def blind_chan_def rekey_def)

lemma blind_diagnostics [simp]: "map_diagnostics i f (blind s) = blind (map_diagnostics i f s)"
  by (simp add: map_diagnostics_def)

lemma blind_late: "late_packet_diagnostics (blind_red p) i (blind s) = blind (late_packet_diagnostics p i s)"
  by (simp add: late_packet_diagnostics_def Let_def split_beta blind_get)

lemma blind_deferred: "add_deferred_packet (blind_red p) (blind s) = blind (add_deferred_packet p s)"
  by (simp add: add_deferred_packet_def split_beta) (simp add: blind_def map_chan_def rekey_def blind_chan_def blind_add)

lemma blind_diagnostics_packet: "add_diagnostics_packet (blind_red p) (blind s) = blind (add_diagnostics_packet p s)"
  by (simp add: add_diagnostics_packet_def split_beta) (simp add: blind_def map_chan_def rekey_def blind_chan_def blind_add)

lemma blind_receiveData: "red_f_receiveData (blind_red p) i (blind s) = map_option (apsnd blind) (red_f_receiveData p i s)"
  by (simp add: red_f_receiveData_def channel_at_def Let_def blind_late blind_deferred blind_diagnostics_packet defer_window_def)

lemma blind_receive_one: "receive_one i (blind_red p) (blind s) = map_option (apsnd blind) (receive_one i p s)"
  by (simp add: receive_one_def blind_receiveData)

subsection \<open>The key is compared and the result lost\<close>

text \<open>Two safety codes of the same length that can be computed.\<close>

definition compatible :: "rasta_hashing_ctx \<Rightarrow> rasta_hashing_ctx \<Rightarrow> bool" where
  "compatible ctx ctx' \<longleftrightarrow> hashing_ok ctx \<and> hashing_ok ctx' \<and> hash_length ctx = hash_length ctx'"

lemma map_bind_same:
  "(\<And>a. x = Some a \<Longrightarrow> map_option g (f a) = map_option g (h a)) \<Longrightarrow> map_option g (Option.bind x f) = map_option g (Option.bind x h)"
  by (cases x) simp_all

lemma blind_parse:
  assumes "compatible ctx ctx'"
  shows "map_option (apfst blind_packet) (bytesToRastaPacket e d ctx x) = map_option (apfst blind_packet) (bytesToRastaPacket e d ctx' x)"
proof -
  have len: "checksum_len ctx = checksum_len ctx'" "getDataLength n ctx = getDataLength n ctx'" for n
    using assms by (simp_all add: compatible_def checksum_len_def getDataLength_def)
  obtain h h' where h: "rasta_calculate_hash b ctx = Some (h b)" "rasta_calculate_hash b ctx' = Some (h' b)"
    "checksum_len ctx' \<le> length (h b)" "checksum_len ctx' \<le> length (h' b)" for b
    using rasta_calculate_hash_defined assms unfolding compatible_def len(1) [symmetric]
    by (metis checksum_len_def)
  then show ?thesis
    unfolding bytesToRastaPacket_def len Let_def h Option.bind.simps
    by (auto simp: rmemcmp_def blind_packet_def intro!: map_bind_same)
qed

lemma blind_bind:
  assumes "map_option (apfst f) x = map_option (apfst f) y"
    and "\<And>a b c. f a = f b \<Longrightarrow> map_option g (h a c) = map_option g (k b c)"
  shows "map_option g (Option.bind x (\<lambda>(a, c). h a c)) = map_option g (Option.bind y (\<lambda>(a, c). k a c))"
  using assms by (cases x; cases y) auto

lemma blind_bind_state:
  assumes "map_option (apsnd f) x = map_option (apsnd f) y"
    and "\<And>c a b. x = Some (c, a) \<Longrightarrow> y = Some (c, b) \<Longrightarrow> f a = f b \<Longrightarrow> map_option g (h c a) = map_option g (k c b)"
  shows "map_option g (Option.bind x (\<lambda>(c, a). h c a)) = map_option g (Option.bind y (\<lambda>(c, a). k c a))"
  using assms by (cases x; cases y) auto

lemma blind_parse_red:
  assumes "compatible ctx ctx'"
  shows "map_option (apfst blind_red) (bytesToRastaRedundancyPacket e d opts ctx x) =
    map_option (apfst blind_red) (bytesToRastaRedundancyPacket e d opts ctx' x)"
  unfolding bytesToRastaRedundancyPacket_def Let_def
  by (intro map_bind_same blind_bind [OF blind_parse [OF assms]])
    (auto simp: blind_red_def intro!: map_bind_same)

lemma blind_module_error: "blind (s\<lparr>module_error := e\<rparr>) = (blind s)\<lparr>module_error := e\<rparr>"
  by (cases s) (simp add: blind_def map_chan_def rekey_def)

lemma blind_received:
  assumes "compatible (sr_hashing_context (mux s)) (sr_hashing_context (mux t))" and "blind s = blind t"
  shows "map_option (map_prod blind_red blind) (handle_received_data buf off len s) =
    map_option (map_prod blind_red blind) (handle_received_data buf off len t)"
proof -
  have eq: "module_error s = module_error t" "cfg s = cfg t" "uninit s = uninit t"
    using arg_cong [OF assms(2), of module_error] arg_cong [OF assms(2), of cfg] arg_cong [OF assms(2), of uninit] by simp_all
  show ?thesis
    unfolding handle_received_data_def eq
    by (auto simp: blind_module_error assms(2) intro!: blind_bind [OF blind_parse_red [OF assms(1)]])
qed

lemma receive_one_keeps:
  "receive_one i p s = Some (r, s') \<Longrightarrow> mux s' = mux s \<and> hashing_context (chan s') = hashing_context (chan s)"
  by (auto simp: receive_one_def red_f_receiveData_def late_packet_diagnostics_def add_deferred_packet_def add_diagnostics_packet_def
      map_diagnostics_def map_channel_def map_chan_def now_ms_def cur_timestamp_def clock_gettime_def Let_def split_beta
      Option.bind_eq_Some_conv split: if_splits)

lemma receive_step_eq:
  assumes "0 < rest" and "leShortToHost buf off = Some n"
  shows "receive_packet_loop i buf rest off res s = Option.bind (handle_received_data buf off (unat n) s) (\<lambda>(p, s).
    Option.bind (receive_one i p s) (\<lambda>(r, s). receive_packet_loop i buf (rest - ucast n) (off + unat n) (res \<or> r) s))"
  using assms by (simp add: receive_packet_loop.simps [of i buf rest off])

lemma blind_receive_loop:
  assumes "compatible (sr_hashing_context (mux s)) (sr_hashing_context (mux t))" and "blind s = blind t"
  shows "map_option (apsnd blind) (receive_packet_loop i buf rest off res s) =
    map_option (apsnd blind) (receive_packet_loop i buf rest off res t)"
  using assms
proof (induction i buf rest off res s arbitrary: t rule: receive_packet_loop.induct)
  case (1 i buf rest off res s)
  show ?case
  proof (cases "0 < rest \<and> leShortToHost buf off \<noteq> None")
    case False
    then show ?thesis using 1(3) by (auto simp: receive_packet_loop.simps [of i buf rest off])
  next
    case True
    then obtain n where n: "0 < rest" "leShortToHost buf off = Some n" by auto
    have keeps: "mux s1 = mux s0" if "handle_received_data buf off (unat n) s0 = Some (p, s1)" for s0 s1 p
      using that by (auto simp: handle_received_data_def Option.bind_eq_Some_conv split: if_splits)
    have "rel_option (\<lambda>(p, u) (q, v). blind_red p = blind_red q \<and> blind u = blind v)
      (handle_received_data buf off (unat n) s) (handle_received_data buf off (unat n) t)"
      using blind_received [OF 1(2,3), of buf off "unat n"]
      by (cases "handle_received_data buf off (unat n) s"; cases "handle_received_data buf off (unat n) t") auto
    then show ?thesis
    proof (cases rule: option.rel_cases)
      case None
      then show ?thesis by (simp add: receive_step_eq [OF n])
    next
      case (Some x y)
      obtain p u q v where xy: "x = (p, u)" "y = (q, v)" by (cases x; cases y) auto
      have "blind_red p = blind_red q" "blind u = blind v" using Some(3) xy by simp_all
      then have one: "map_option (apsnd blind) (receive_one i p u) = map_option (apsnd blind) (receive_one i q v)"
        using blind_receive_one [of i p u] blind_receive_one [of i q v] by simp
      have "map_option (apsnd blind) (receive_packet_loop i buf (rest - ucast n) (off + unat n) (res \<or> r) u1) =
        map_option (apsnd blind) (receive_packet_loop i buf (rest - ucast n) (off + unat n) (res \<or> r) v1)"
        if "receive_one i p u = Some (r, u1)" "receive_one i q v = Some (r, v1)" "blind u1 = blind v1" for r u1 v1
        using "1.IH" [OF n Some(1) [unfolded xy] refl that(1) refl, of v1] that receive_one_keeps [OF that(1)] receive_one_keeps [OF that(2)]
          keeps [OF Some(1) [unfolded xy]] keeps [OF Some(2) [unfolded xy]] 1(2) by simp
      then show ?thesis
        unfolding receive_step_eq [OF n] Some(1,2) xy Option.bind.simps prod.case by (intro blind_bind_state [OF one])
    qed
  qed
qed

section \<open>The key has no effect\<close>

text \<open>What the body of the delivery loop hands up: the next packet, with a fresh safety code.\<close>

definition handed_up :: "rasta_st \<Rightarrow> (bytes \<times> rasta_error_type) option" where
  "handed_up s = rastaModuleToBytes (module_error s)
     (red_data (deferqueue_get (defer_q (chan s)) (seq_rx (chan s)))) (hashing_context (chan s))"

lemma deliver_next_handed_up:
  "deliver_next deliver s = Option.bind (handed_up s) (\<lambda>(b, err).
     Option.bind (deliver_message_to_upper_layer deliver b (s\<lparr>module_error := err\<rparr>)) (\<lambda>(r, s).
       Some (r, map_chan (\<lambda>c. c\<lparr>defer_q := deferqueue_remove (defer_q c) (seq_rx c), seq_rx := seq_rx c + 1\<rparr>) s)))"
  by (simp add: deliver_next_def handed_up_def)

lemma serialise_blind: "rastaModuleToBytes e (blind_packet p) ctx = rastaModuleToBytes e p ctx"
  by (simp add: rastaModuleToBytes_def allocateBytes_def packFields_def blind_packet_def)

lemma handed_up_blind: "handed_up (blind s) = handed_up s"
  using arg_cong [OF blind_get(1) [of "defer_q (chan s)" "seq_rx (chan s)"], of red_data]
    serialise_blind [of "module_error s" "red_data (deferqueue_get (blind_queue (defer_q (chan s))) (seq_rx (chan s)))"]
    serialise_blind [of "module_error s" "red_data (deferqueue_get (defer_q (chan s)) (seq_rx (chan s)))"]
  by (simp add: handed_up_def)

lemma installed_key:
  assumes "install_session_key lib k = Some k'"
  obtains b where "base k' = rekey ((sr_hashing_context (mux (base k)))\<lparr>key := b\<rparr>) (base k)"
  using assms by (auto simp: install_session_key_def rasta_set_hash_key_variable_def map_base_def rekey_def Option.bind_eq_Some_conv)


text \<open>A library in which every password matches and the session key is made from the context alone.\<close>

definition example_opaque :: libopaque where
  "example_opaque =
     \<lparr>USER_RECORD_LEN = 8, USER_SESSION_SECRET_LEN = 8, USER_SESSION_PUBLIC_LEN = 8, SERVER_SESSION_LEN = 8,
      SHARED_SECRETBYTES = 64, HMACSHA512_BYTES = 64,
      opaque_Register = (\<lambda>n pwd ids. (0, replicate 8 0)),
      opaque_CreateCredentialRequest = (\<lambda>n pwd. (0, pwd @ replicate 8 1, replicate 8 2)),
      opaque_CreateCredentialResponse = (\<lambda>n pub rec ids ctx. (0, take 8 (ctx @ replicate 8 0), take 64 (ctx @ replicate 64 3), replicate 64 4)),
      opaque_RecoverCredentials = (\<lambda>resp sec ctx ids. if resp = take 8 (ctx @ replicate 8 0)
        then (0, take 64 (ctx @ replicate 64 3), replicate 64 4) else (-1, [], [])),
      opaque_UserAuth = (\<lambda>a b. if a = b then 0 else -1),
      malloc_succeeds = (\<lambda>n. True), mlock = (\<lambda>n. 0)\<rparr>"

definition example_kex :: "rasta_st \<Rightarrow> kex_st" where
  "example_kex s =
     \<lparr>base = s,
      kex_state = \<lparr>user_record = replicate 8 0, client_secret = None, client_public = replicate 8 0, certificate_response = replicate 8 0,
        session_key = replicate 64 5, user_auth_server = replicate 64 0, password_length = 0, last_key_exchanged_millis = 0\<rparr>,
      kex = \<lparr>psk = [112, 115, 107] @ replicate 125 0, rekeying_interval_ms = 0, has_psk_record = False, psk_record = replicate 8 0\<rparr>,
      rekeying_event = example_timer, lib_calls = 0, freed = []\<rparr>"

definition example_keyed :: rasta_hashing_ctx where
  "example_keyed = plain_ctx\<lparr>hash_length := RASTA_CHECKSUM_8B\<rparr>"


end
