(* ===== verification/Rasta_Invariant.thy ===== *)
theory Rasta_Invariant
  imports Rasta_Handlers
begin

text \<open>
  The invariant of the safety and retransmission layer and its preservation by every operation: no
  stale parse error, agreeing safety codes of channel and multiplexer, queued messages that fit a
  packet, and a retransmission buffer that holds nothing but well-formed data packets and no more of
  them than it was configured for. With it comes
  a frame: the layer never touches the receive side of the redundancy channel below. Together they
  make \<open>sr_receive\<close> an instance of \<open>upper_layer\<close>.
\<close>

lemma bind_eq_SomeE: "Option.bind x f = Some y \<Longrightarrow> (\<And>z. x = Some z \<Longrightarrow> f z = Some y \<Longrightarrow> P) \<Longrightarrow> P"
  by (cases x) auto

section \<open>The invariant\<close>

text \<open>What the layer is configured with; no operation changes it.\<close>

definition static_ok :: "rasta_st \<Rightarrow> bool" where
  "static_ok s \<longleftrightarrow> hashing_ok (hashing_context (chan s)) \<and>
     sr_hashing_context (mux s) = hashing_context (chan s) \<and> crc_len (crc_type (redundancy (cfg s))) \<le> 4"

text \<open>Any \<open>max_packet\<close> queued messages fit one packet.\<close>

definition message_fits :: "rasta_config_info \<Rightarrow> bytes \<Rightarrow> bool" where
  "message_fits config m \<longleftrightarrow> (length m + 2) * unat (max_packet (sending config)) \<le> 65000"

definition data_frame :: "rasta_hashing_ctx \<Rightarrow> bytes \<Rightarrow> RastaPacket \<Rightarrow> bytes list \<Rightarrow> bool" where
  "data_frame ctx b p ms \<longleftrightarrow> b = sr_frame ctx p \<and> packet_wf ctx p \<and> pkt_data p = encode_messages ms \<and>
     length (encode_messages ms) \<le> 65000"

text \<open>What went out is a sequence of well-formed frames.\<close>

definition wire_ok :: "rasta_st \<Rightarrow> bool" where
  "wire_ok s \<longleftrightarrow> (\<forall>w \<in> set (wire (net s)). \<exists>p. red_packet_wf (hashing_context (chan s)) p \<and>
     checksum_type p = crc_type (redundancy (cfg s)) \<and> wire_bytes w = red_frame (hashing_context (chan s)) p)"

definition sr_inv :: "rasta_st \<Rightarrow> bool" where
  "sr_inv s \<longleftrightarrow> static_ok s \<and> module_error s = RASTA_ERRORS_NONE \<and>
     (\<forall>m \<in> set (items (fifo_send (con s))). message_fits (cfg s) m) \<and>
     (\<forall>b \<in> set (items (fifo_retransmission (con s))). \<exists>p ms. data_frame (hashing_context (chan s)) b p ms) \<and>
     queue_invar (fifo_retransmission (con s)) \<and>
     capacity (fifo_retransmission (con s)) = max_retransmission_queue_size (cfg s) \<and> wire_ok s"

definition sr_frame_rel :: "rasta_st \<Rightarrow> rasta_st \<Rightarrow> bool" where
  "sr_frame_rel s s' \<longleftrightarrow> receive_side s' = receive_side s \<and> cfg s' = cfg s \<and>
     sr_hashing_context (mux s') = sr_hashing_context (mux s) \<and> uninit s' = uninit s \<and>
     transport_lib s' = transport_lib s \<and> env_of (net s') = env_of (net s) \<and>
     length (transport_channels (chan s')) = length (transport_channels (chan s)) \<and>
     length (transport_sockets (mux s')) = length (transport_sockets (mux s))"

text \<open>An operation may take \<open>s\<close> to \<open>s'\<close>.\<close>

definition sr_ok :: "rasta_st \<Rightarrow> rasta_st \<Rightarrow> bool" where
  "sr_ok s s' \<longleftrightarrow> (sr_inv s \<longrightarrow> sr_inv s' \<and> sr_frame_rel s s')"

lemma sr_ok_refl [simp]: "sr_ok s s"
  by (simp add: sr_ok_def sr_frame_rel_def)

lemma sr_ok_trans [trans]: "sr_ok s t \<Longrightarrow> sr_ok t u \<Longrightarrow> sr_ok s u"
  by (simp add: sr_ok_def sr_frame_rel_def)

lemma sr_ok_assume: "(sr_inv s \<Longrightarrow> sr_ok s s') \<Longrightarrow> sr_ok s s'"
  by (auto simp: sr_ok_def)

text \<open>
  Updates that neither the invariant nor the frame sees; they rewrite away on both sides of
  \<open>sr_ok\<close>.
\<close>

definition sr_neutral :: "(rasta_st \<Rightarrow> rasta_st) \<Rightarrow> bool" where
  "sr_neutral f \<longleftrightarrow> (\<forall>s. sr_inv (f s) = sr_inv s \<and> sr_frame_rel s (f s))"

lemma sr_neutral_iff:
  assumes "sr_neutral f"
  shows "sr_ok s (f t) \<longleftrightarrow> sr_ok s t" and "sr_ok (f s) t \<longleftrightarrow> sr_ok s t"
  using assms by (auto simp: sr_neutral_def sr_ok_def sr_frame_rel_def)

lemma sr_neutral_comp: "sr_neutral f \<Longrightarrow> sr_neutral g \<Longrightarrow> sr_neutral (\<lambda>s. f (g s))"
  by (auto simp: sr_neutral_def sr_frame_rel_def)

text \<open>Changes of the connection that leave the two send-side queues alone.\<close>

lemma sr_neutral_map_con:
  assumes "\<And>c. fifo_send (f c) = fifo_send c" and "\<And>c. fifo_retransmission (f c) = fifo_retransmission c"
  shows "sr_neutral (map_con f)"
  using assms
  by (simp add: sr_neutral_def sr_inv_def sr_frame_rel_def map_con_def static_ok_def wire_ok_def receive_side_def)

lemma sr_neutral_now: "sr_neutral (\<lambda>s. snd (now_ms s))" "sr_neutral (\<lambda>s. snd (now_ns s))"
  by (simp_all add: sr_neutral_def sr_inv_def sr_frame_rel_def now_ms_def now_ns_def static_ok_def wire_ok_def
      receive_side_def split_beta Let_def)

lemmas sr_map_con = sr_neutral_map_con [THEN sr_neutral_iff(1)] sr_neutral_map_con [THEN sr_neutral_iff(2)]

lemma sr_ok_now: "now_ms s = (t, s') \<Longrightarrow> sr_ok s s'" "now_ns s = (t', s') \<Longrightarrow> sr_ok s s'"
  using sr_neutral_iff(1) [OF sr_neutral_now(1), of s s] sr_neutral_iff(1) [OF sr_neutral_now(2), of s s] by simp_all

lemma sr_ok_factory: "sr_ok s (t\<lparr>factory_error := e\<rparr>) \<longleftrightarrow> sr_ok s t" "sr_ok (s\<lparr>factory_error := e\<rparr>) t \<longleftrightarrow> sr_ok s t"
  by (simp_all add: sr_ok_def sr_inv_def sr_frame_rel_def static_ok_def wire_ok_def receive_side_def)

lemma sr_ok_quiet: "quiet_frame s s' \<Longrightarrow> sr_ok s s'"
  using transport_frameD [of s s'] quiet_frameD [of s s']
  by (simp add: sr_ok_def sr_inv_def sr_frame_rel_def static_ok_def wire_ok_def receive_side_def)

section \<open>Sending\<close>

definition fits_wire :: "rasta_st \<Rightarrow> RastaPacket \<Rightarrow> bool" where
  "fits_wire s p \<longleftrightarrow> packet_wf (hashing_context (chan s)) p \<and> unat (pkt_length p) \<le> 65100"

lemma sendable_fits: "sr_inv s \<Longrightarrow> fits_wire s p \<Longrightarrow> sendable s p"
  by (simp add: sendable_def sr_inv_def static_ok_def wire_ok_def fits_wire_def)

lemma sr_ok_mux_send:
  assumes "redundancy_mux_send p r s = Some s'" and "sr_inv s \<Longrightarrow> fits_wire s p"
  shows "sr_ok s s'"
proof (rule sr_ok_assume)
  assume inv: "sr_inv s"
  let ?q = "createRedundancyPacket (ucast (seq_tx (chan s))) p (crc_type (redundancy (cfg s)))"
  have wf: "red_packet_wf (hashing_context (chan s)) ?q"
    using sendable_fits [OF inv assms(2) [OF inv]] by (auto simp: sendable_def intro: createRedundancyPacket_wf)
  from wf obtain q' where "rastaRedundancyPacketToBytes (module_error s) ?q (hashing_context (chan s)) =
      Some (red_frame (hashing_context (chan s)) ?q, q', RASTA_ERRORS_NONE)"
    using inv rastaRedundancyPacketToBytes_eq by (fastforce simp: sr_inv_def static_ok_def)
  then have loop: "mux_send_loop r (red_frame (hashing_context (chan s)) ?q) [0..<length (transport_channels (chan s))]
      (map_chan (\<lambda>c. c\<lparr>seq_tx := seq_tx c + 1\<rparr>) (s\<lparr>module_error := RASTA_ERRORS_NONE\<rparr>)) = Some s'"
    using assms(1) by (simp add: redundancy_mux_send_def map_chan_def)
  then have "module_error s' = RASTA_ERRORS_NONE"
    by (auto simp: map_chan_def dest!: mux_send_loop_frame transport_frameD(5))
  moreover have "wire_ok s'"
    unfolding wire_ok_def redundancy_mux_send_keeps [OF assms(1)]
  proof
    fix w assume "w \<in> set (wire (net s'))"
    then consider "w \<in> set (wire (net s))" | "wire_bytes w = red_frame (hashing_context (chan s)) ?q"
      using mux_send_loop_wire [OF loop] by (auto simp: map_chan_def)
    then show "\<exists>p. red_packet_wf (hashing_context (chan s)) p \<and> checksum_type p = crc_type (redundancy (cfg s)) \<and>
        wire_bytes w = red_frame (hashing_context (chan s)) p"
    proof cases
      case 2
      with wf show ?thesis by (intro exI [of _ ?q]) (simp add: createRedundancyPacket_def)
    qed (use inv in \<open>simp add: sr_inv_def wire_ok_def\<close>)
  qed
  ultimately show "sr_ok s s'"
    using inv redundancy_mux_send_keeps [OF assms(1)]
    by (simp add: sr_ok_def sr_inv_def sr_frame_rel_def static_ok_def receive_side_def)
qed

lemma fits_wire_initializePacket:
  assumes "sr_inv s" and "unat n \<le> 1000"
  shows "fits_wire s (initializePacket t r sd sn csn ts cts n (sr_hashing_context (mux s)))"
proof -
  have "packet_wf (hashing_context (chan s)) (initializePacket t r sd sn csn ts cts n (hashing_context (chan s)))"
    using assms(2) by (intro packet_wf_initializePacket) simp
  moreover have "unat (of_nat (28 + checksum_len ctx + unat n) :: u16) = 28 + checksum_len ctx + unat n" for ctx
    using checksum_len_le [of ctx] assms(2) by (intro unat_of_nat_bounded) simp
  ultimately show ?thesis
    using assms checksum_len_le [of "hashing_context (chan s)"]
    by (simp add: fits_wire_def sr_inv_def static_ok_def wire_ok_def) (simp add: initializePacket_def)
qed

lemma sr_neutral_timers:
  "sr_neutral reschedule_heartbeat" "sr_neutral enable_heartbeat" "sr_neutral enable_timeout"
  by (simp_all add: sr_neutral_def sr_inv_def sr_frame_rel_def now_ns_def static_ok_def wire_ok_def receive_side_def
      map_con_def reschedule_heartbeat_def enable_heartbeat_def enable_timeout_def split_beta Let_def)

lemma sr_neutral_update_timeout: "sr_neutral (sr_update_timeout_interval cts)"
  by (simp add: sr_neutral_def sr_inv_def sr_frame_rel_def now_ns_def now_ms_def static_ok_def wire_ok_def receive_side_def
      map_con_def sr_update_timeout_interval_def split_beta Let_def)

lemma sr_neutral_diagnostic: "sr_neutral (sr_diagnostic_update p)"
  by (simp add: sr_neutral_def sr_inv_def sr_frame_rel_def now_ms_def static_ok_def wire_ok_def receive_side_def
      map_con_def sr_diagnostic_update_def reset_diagnostic_def split_beta Let_def)

lemmas sr_timers = sr_neutral_timers [THEN sr_neutral_iff(1)] sr_neutral_timers [THEN sr_neutral_iff(2)]
  sr_neutral_update_timeout [THEN sr_neutral_iff(1)] sr_neutral_diagnostic [THEN sr_neutral_iff(1)]
  sr_neutral_update_timeout [THEN sr_neutral_iff(2)] sr_neutral_diagnostic [THEN sr_neutral_iff(2)]

lemmas sr_ok_simps = sr_map_con sr_timers sr_ok_factory

lemma createDisconnectionRequest_fits:
  assumes "createDisconnectionRequest r sd sn csn ts cts d (sr_hashing_context (mux s)) = Some p" and "sr_inv s"
  shows "fits_wire s p"
proof -
  let ?q = "initializePacket RASTA_TYPE_DISCREQ r sd sn csn ts cts 4 (sr_hashing_context (mux s))"
  obtain b where p: "p = ?q\<lparr>pkt_data := b\<rparr>" and "length b = length (pkt_data ?q)"
    using assms(1) by (auto simp: createDisconnectionRequest_def Option.bind_eq_Some_conv dest!: length_rmemcpy)
  then show ?thesis
    using fits_wire_initializePacket [OF assms(2), of 4 RASTA_TYPE_DISCREQ r sd sn csn ts cts]
    by (simp add: fits_wire_def packet_wf_data)
qed

lemma connection_payload_fits:
  assumes "connection_payload (initializePacket ty r sd sn csn ts cts 14 (hashing_context (chan s))) sm v = Some p"
    and "sr_inv s"
  shows "fits_wire s p"
proof -
  let ?q = "initializePacket ty r sd sn csn ts cts 14 (hashing_context (chan s))"
  obtain b where p: "p = ?q\<lparr>pkt_data := b\<rparr>" and "length b = length (pkt_data ?q)"
    using assms(1) by (auto simp: connection_payload_def rmemset_def Option.bind_eq_Some_conv
        split: if_splits dest!: length_rmemcpy)
  then show ?thesis
    using fits_wire_initializePacket [OF assms(2), of 14 ty r sd sn csn ts cts] assms(2)
    by (simp add: fits_wire_def packet_wf_data sr_inv_def static_ok_def wire_ok_def)
qed

text \<open>Sending one packet after reading the clock.\<close>

lemma sr_ok_send_at:
  assumes "now_ms s = (t, u)" and "redundancy_mux_send p r u = Some v" and "sr_inv u \<Longrightarrow> fits_wire u p"
  shows "sr_ok s v"
  using sr_ok_now(1) [OF assms(1)] sr_ok_mux_send [OF assms(2,3)] by (rule sr_ok_trans)

lemma sr_ok_sendDisconnectionRequest: "sendDisconnectionRequest rsn dts s = Some s' \<Longrightarrow> sr_ok s s'"
  by (auto simp: sendDisconnectionRequest_def Option.bind_eq_Some_conv split: prod.splits
      elim!: sr_ok_send_at createDisconnectionRequest_fits)

lemma sr_ok_control:
  "sendHeartbeat b s = Some s' \<Longrightarrow> sr_ok s s'"
  "sendRetransmissionRequest s = Some s' \<Longrightarrow> sr_ok s s'"
  "sendRetransmissionResponse s = Some s' \<Longrightarrow> sr_ok s s'"
proof -
  have fit: "fits_wire u (initializePacket ty r sd sn csn ts cts 0 (sr_hashing_context (mux u)))"
    if "sr_inv u" for u ty r sd sn csn ts cts
    using that by (intro fits_wire_initializePacket) simp_all
  show "sendHeartbeat b s = Some s' \<Longrightarrow> sr_ok s s'"
    by (auto simp: sendHeartbeat_def createHeartbeat_def Option.bind_eq_Some_conv Let_def sr_ok_simps
        split: prod.splits if_splits intro: sr_ok_send_at [OF _ _ fit])
  show "sendRetransmissionRequest s = Some s' \<Longrightarrow> sr_ok s s'"
    by (auto simp: sendRetransmissionRequest_def createRetransmissionRequest_def Option.bind_eq_Some_conv
        Let_def sr_ok_simps split: prod.splits intro: sr_ok_send_at [OF _ _ fit])
  show "sendRetransmissionResponse s = Some s' \<Longrightarrow> sr_ok s s'"
    by (auto simp: sendRetransmissionResponse_def createRetransmissionResponse_def Option.bind_eq_Some_conv
        Let_def sr_ok_simps split: prod.splits intro: sr_ok_send_at [OF _ _ fit])
qed

section \<open>Data packets and the retransmission buffer\<close>

lemma pop_messages_eq:
  "pop_messages n q = Some (ms, q') \<longleftrightarrow>
   n \<le> length (items q) \<and> ms = take n (items q) \<and> q' = q\<lparr>items := drop n (items q)\<rparr>"
proof (induction n arbitrary: q ms)
  case (Suc n)
  show ?case
  proof (cases "items q")
    case (Cons x xs)
    then show ?thesis
      using Suc.IH [of "q\<lparr>items := xs\<rparr>"]
      by (auto simp: queue_pop_def Option.bind_eq_Some_conv)
  qed (simp add: queue_pop_def)
qed auto

lemma messages_fit:
  assumes "\<forall>m \<in> set ms. message_fits config m" and "length ms \<le> unat (max_packet (sending config))"
  shows "length (encode_messages ms) \<le> 65000"
proof (cases "ms = []")
  case False
  let ?k = "unat (max_packet (sending config))"
  have "length (encode_messages ms) * ?k \<le> length ms * 65000"
    using assms(1) by (induction ms) (auto simp: message_fits_def algebra_simps)
  also have "\<dots> \<le> 65000 * ?k" using assms(2) by simp
  finally show ?thesis using False assms(2) by (cases "?k = 0") auto
qed simp

lemma data_packet_frame:
  assumes "hashing_ok ctx" and "length (encode_messages ms) \<le> 65000"
    and "createDataMessage r sd sn csn ts cts ms ctx = Some p \<or>
         createRetransmittedDataMessage r sd sn csn ts cts ms ctx = Some p"
  shows "packet_wf ctx p" and "pkt_data p = encode_messages ms" and "unat (pkt_length p) \<le> 65100"
    and "rastaModuleToBytes RASTA_ERRORS_NONE p ctx = Some (sr_frame ctx p, RASTA_ERRORS_NONE)"
    and "data_frame ctx (sr_frame ctx p) p ms" and "sequence_number p = sn"
proof -
  have small: "28 + checksum_len ctx + length (encode_messages ms) < 2 ^ 16"
    using assms(2) checksum_len_le [of ctx] by simp
  then have p: "packet_wf ctx p \<and> pkt_data p = encode_messages ms \<and> sequence_number p = sn"
    using createDataMessage_eq [OF small, of r sd sn csn ts cts] assms(3)
    by (auto simp: createRetransmittedDataMessage_def packet_wf_def)
  then show "packet_wf ctx p" and "pkt_data p = encode_messages ms" and "sequence_number p = sn"
    by simp_all
  then show "unat (pkt_length p) \<le> 65100" "data_frame ctx (sr_frame ctx p) p ms"
    "rastaModuleToBytes RASTA_ERRORS_NONE p ctx = Some (sr_frame ctx p, RASTA_ERRORS_NONE)"
    using assms(1,2) checksum_len_le [of ctx] rastaModuleToBytes_eq [OF assms(1)]
    by (auto simp: packet_wf_def data_frame_def)
qed

lemma sr_ok_push_retransmission:
  assumes "\<exists>p ms. data_frame (hashing_context (chan s)) b p ms"
  shows "sr_ok s (map_con (\<lambda>c. c\<lparr>fifo_retransmission := snd (queue_push (fifo_retransmission c) b)\<rparr>) s)"
  using assms
  by (auto simp: sr_ok_def sr_inv_def sr_frame_rel_def map_con_def static_ok_def wire_ok_def receive_side_def queue_push_def
      queue_invar_def queue_full_def)

lemma sr_ok_pop_send:
  assumes "set (items q) \<subseteq> set (items (fifo_send (con s)))"
  shows "sr_ok s (map_con (\<lambda>c. c\<lparr>fifo_send := q\<rparr>) s)"
  using assms
  by (auto simp: sr_ok_def sr_inv_def sr_frame_rel_def map_con_def static_ok_def wire_ok_def receive_side_def)

lemma sr_inv_map_con_send:
  "sr_ok s t \<Longrightarrow> sr_inv s \<Longrightarrow> sr_inv t"
  by (simp add: sr_ok_def)

lemma sr_ok_send_data_packet:
  assumes "send_data_packet n s = Some s'" and "unat n \<le> unat (max_packet (sending (cfg s)))"
  shows "sr_ok s s'"
proof (rule sr_ok_assume)
  assume inv: "sr_inv s"
  let ?ctx = "hashing_context (chan s)"
  define ms where "ms = take (unat n) (items (fifo_send (con s)))"
  define u where "u = map_con (\<lambda>c. c\<lparr>fifo_send := (fifo_send c)\<lparr>items := drop (unat n) (items (fifo_send (con s)))\<rparr>\<rparr>) s"
  obtain t v p pkt err w x where now: "now_ms u = (t, v)"
    and p: "createDataMessage (remote_id (con v)) (my_id (con v)) (sn_t (con v)) (cs_t (con v)) t
       (ts_r (con v)) ms (sr_hashing_context (mux v)) = Some p"
    and pkt: "rastaModuleToBytes (module_error v) p (sr_hashing_context (mux v)) = Some (pkt, err)"
    and w: "w = map_con (\<lambda>c. c\<lparr>fifo_retransmission := snd (queue_push (fifo_retransmission c) pkt)\<rparr>) (v\<lparr>module_error := err\<rparr>)"
    and x: "redundancy_mux_send p (role (con w)) w = Some x"
    and s': "s' = reschedule_heartbeat (map_con (\<lambda>c. c\<lparr>sn_t := sequence_number p + 1\<rparr>) x)"
    using assms(1) unfolding send_data_packet_def ms_def u_def
    by (auto simp: Option.bind_eq_Some_conv Let_def pop_messages_eq map_con_def split: prod.splits)
  have su: "sr_ok s u"
    unfolding u_def using sr_ok_pop_send [of "(fifo_send (con s))\<lparr>items := drop (unat n) (items (fifo_send (con s)))\<rparr>" s]
    by (simp add: set_drop_subset map_con_def)
  then have sv: "sr_ok s v" using sr_ok_now(1) [OF now] by (rule sr_ok_trans)
  then have v: "sr_inv v" "hashing_context (chan v) = ?ctx" "sr_hashing_context (mux v) = ?ctx"
    "hashing_ok ?ctx" "module_error v = RASTA_ERRORS_NONE"
    using inv by (auto simp: sr_ok_def sr_frame_rel_def sr_inv_def static_ok_def wire_ok_def receive_side_def)
  have "length (encode_messages ms) \<le> 65000"
    using inv assms(2) unfolding ms_def sr_inv_def
    by (intro messages_fit [where config = "cfg s"]) (auto dest: in_set_takeD)
  note facts = data_packet_frame [OF v(4) this disjI1 [OF p [unfolded v(3)]]]
  have w': "err = RASTA_ERRORS_NONE" "pkt = sr_frame ?ctx p"
    using pkt facts(4) by (simp_all add: v)
  have "v\<lparr>module_error := err\<rparr> = v" by (simp add: w' v(5)[symmetric])
  then have "sr_ok v w"
    using facts(5) sr_ok_push_retransmission [of v pkt] unfolding w w'(2) v(2) by auto
  then have sw: "sr_ok s w" using sv by (blast intro: sr_ok_trans)
  then have "hashing_context (chan w) = ?ctx" using inv by (auto simp: sr_ok_def sr_frame_rel_def receive_side_def)
  then have "sr_ok w x"
    using facts(1,3) by (intro sr_ok_mux_send [OF x]) (simp add: fits_wire_def)
  with sw show "sr_ok s s'" unfolding s' by (simp add: sr_ok_simps) (blast intro: sr_ok_trans)
qed

lemma sr_ok_data_send_event:
  assumes "data_send_event s = Some (r, s')"
  shows "sr_ok s s'"
proof -
  let ?k = "max_packet (sending (cfg s))" and ?n = "send_backlog (con s) (cfg s)"
  from assms obtain t where
    "(if sr_retransmission_queue_item_count (con s) < max_retransmission_queue_size (cfg s)
      then if ?n > 0 then send_data_packet (if ?n \<ge> ?k then ?k else ?n) s else Some s else Some s) = Some t"
    and s': "s' = (if sr_send_queue_item_count (con t) = 0
       then map_con (\<lambda>c. c\<lparr>send_event := disable_timed_event (send_event c)\<rparr>) t else t)"
    unfolding data_send_event_def Let_def by (elim bind_eq_SomeE) simp
  then have "t = s \<or> (\<exists>n. send_data_packet (if n \<ge> ?k then ?k else n) s = Some t)"
    by (metis option.inject)
  then have "sr_ok s t"
  proof
    assume "\<exists>n. send_data_packet (if n \<ge> ?k then ?k else n) s = Some t"
    then obtain n where n: "send_data_packet (if n \<ge> ?k then ?k else n) s = Some t" by blast
    show ?thesis by (rule sr_ok_send_data_packet [OF n]) (simp add: word_le_nat_alt)
  qed simp
  then show ?thesis by (simp add: s' sr_ok_simps)
qed

lemma sr_ok_add_app_messages: "sr_ok s t \<Longrightarrow> sr_ok s (add_app_messages p ms t)"
  by (induction ms arbitrary: t) (simp_all add: sr_ok_simps Let_def)

lemma sr_ok_add_to_buffer: "sr_add_app_messages_to_buffer p s = Some s' \<Longrightarrow> sr_ok s s'"
  by (auto simp: sr_add_app_messages_to_buffer_def Option.bind_eq_Some_conv sr_ok_add_app_messages)

text \<open>Parsing a buffered data packet.\<close>

lemma data_frame_parse:
  assumes "hashing_ok ctx" and "data_frame ctx b p ms"
  shows "bytesToRastaPacket err b ctx old =
    Some (p\<lparr>checksum := sr_code_of ctx p, checksum_correct := True\<rparr>, err)"
  using assms bytesToRastaPacket_frame by (auto simp: data_frame_def)

lemma sr_ok_drop_retransmission:
  assumes "set es \<subseteq> set (items (fifo_retransmission (con s)))"
    and "length es \<le> length (items (fifo_retransmission (con s)))"
  shows "sr_ok s (map_con (\<lambda>c. c\<lparr>fifo_retransmission := (fifo_retransmission c)\<lparr>items := es\<rparr>\<rparr>) s)"
  using assms
  by (auto simp: sr_ok_def sr_inv_def sr_frame_rel_def map_con_def static_ok_def wire_ok_def receive_side_def queue_invar_def)

lemma remove_confirmed_loop_suffix:
  assumes "remove_confirmed_loop es s = Some s'" and "sr_inv s"
    and "\<forall>b \<in> set es. \<exists>p ms. data_frame (hashing_context (chan s)) b p ms"
  shows "\<exists>fs. set fs \<subseteq> set es \<and> length fs \<le> length es \<and>
    s' = map_con (\<lambda>c. c\<lparr>fifo_retransmission := (fifo_retransmission c)\<lparr>items := fs\<rparr>\<rparr>) s"
  using assms
proof (induction es)
  case (Cons e es)
  obtain p ms where e: "data_frame (hashing_context (chan s)) e p ms" using Cons.prems(3) by auto
  have same: "s\<lparr>module_error := module_error s\<rparr> = s" by simp
  have "bytesToRastaPacket (module_error s) e (hashing_context (chan s)) (red_data (uninit s)) =
      Some (p\<lparr>checksum := sr_code_of (hashing_context (chan s)) p, checksum_correct := True\<rparr>, module_error s)"
    using Cons.prems(2) e by (intro data_frame_parse) (auto simp: sr_inv_def static_ok_def wire_ok_def)
  with Cons show ?case by (auto simp: same split: if_splits)
qed auto

lemma sr_ok_remove_confirmed:
  assumes "sr_remove_confirmed_messages s = Some s'"
  shows "sr_ok s s'"
proof (rule sr_ok_assume)
  assume inv: "sr_inv s"
  obtain t where t: "remove_confirmed_loop (items (fifo_retransmission (con s))) s = Some t"
    and s': "s' = t \<or> (\<exists>r. data_send_event t = Some (r, s'))"
    using assms by (auto simp: sr_remove_confirmed_messages_def Option.bind_eq_Some_conv split: if_splits)
  have "sr_ok s t"
    using remove_confirmed_loop_suffix [OF t inv] inv sr_ok_drop_retransmission [of _ s]
    by (auto simp: sr_inv_def)
  with s' sr_ok_data_send_event show "sr_ok s s'" by (blast intro: sr_ok_trans)
qed

lemma sr_ok_retransmit_packet:
  assumes "retransmit_packet b s = Some s'" and "\<exists>p ms. data_frame (hashing_context (chan s)) b p ms"
  shows "sr_ok s s'"
proof (rule sr_ok_assume)
  assume inv: "sr_inv s"
  let ?ctx = "hashing_context (chan s)"
  obtain q ms where b: "data_frame ?ctx b q ms" using assms(2) by blast
  have ctx: "hashing_ok ?ctx" and err: "module_error s = RASTA_ERRORS_NONE"
    using inv by (auto simp: sr_inv_def static_ok_def wire_ok_def)
  have same: "s\<lparr>module_error := RASTA_ERRORS_NONE\<rparr> = s" by (simp add: err [symmetric])
  note parse = data_frame_parse [OF ctx b]
  obtain t v where now: "now_ms s = (t, v)" by fastforce
  obtain ms' p pkt err w x where ms': "extractMessageData (q\<lparr>checksum := sr_code_of ?ctx q, checksum_correct := True\<rparr>) = Some ms'"
    and p: "createRetransmittedDataMessage (remote_id (con v)) (my_id (con v)) (sn_t (con v)) (cs_t (con v)) t
       (ts_r (con v)) ms' (hashing_context (chan v)) = Some p"
    and pkt: "rastaModuleToBytes (module_error v) p (hashing_context (chan v)) = Some (pkt, err)"
    and w: "w = map_con (\<lambda>c. c\<lparr>fifo_retransmission := snd (queue_push (fifo_retransmission c) pkt)\<rparr>) (v\<lparr>module_error := err\<rparr>)"
    and x: "redundancy_mux_send p (role (con w)) w = Some x"
    and s': "s' = reschedule_heartbeat (map_con (\<lambda>c. c\<lparr>sn_t := sn_t c + 1\<rparr>) x)"
    using assms(1) unfolding retransmit_packet_def
    by (auto simp: Option.bind_eq_Some_conv Let_def parse err same now)
  have sv: "sr_ok s v" using now by (rule sr_ok_now)
  then have v: "sr_inv v" "hashing_context (chan v) = ?ctx" "module_error v = RASTA_ERRORS_NONE"
    using inv by (auto simp: sr_ok_def sr_frame_rel_def sr_inv_def receive_side_def)
  have "encode_messages ms' = encode_messages ms"
    using ms' b by (simp add: extractMessageData_iff data_frame_def)
  then have "length (encode_messages ms') \<le> 65000" using b by (simp add: data_frame_def)
  note facts = data_packet_frame [OF ctx this disjI2 [OF p [unfolded v(2)]]]
  have w': "err = RASTA_ERRORS_NONE" "pkt = sr_frame ?ctx p"
    using pkt facts(4) by (simp_all add: v)
  have "v\<lparr>module_error := err\<rparr> = v" by (simp add: w' v(3) [symmetric])
  then have "sr_ok v w"
    using facts(5) sr_ok_push_retransmission [of v pkt] unfolding w w'(2) v(2) by auto
  then have sw: "sr_ok s w" using sv by (blast intro: sr_ok_trans)
  then have "hashing_context (chan w) = ?ctx" using inv by (auto simp: sr_ok_def sr_frame_rel_def receive_side_def)
  then have "sr_ok w x"
    using facts(1,3) by (intro sr_ok_mux_send [OF x]) (simp add: fits_wire_def)
  with sw show "sr_ok s s'" unfolding s' by (simp add: sr_ok_simps) (blast intro: sr_ok_trans)
qed

lemma sr_ok_retransmit_loop:
  assumes "retransmit_loop bs s = Some s'" and "\<forall>b \<in> set bs. \<exists>p ms. data_frame (hashing_context (chan s)) b p ms"
  shows "sr_ok s s'"
proof (rule sr_ok_assume)
  assume "sr_inv s"
  with assms show "sr_ok s s'"
  proof (induction bs arbitrary: s)
    case (Cons b bs)
    then obtain t where t: "retransmit_packet b s = Some t" and rest: "retransmit_loop bs t = Some s'"
      by (auto simp: Option.bind_eq_Some_conv)
    have st: "sr_ok s t" using t Cons.prems(2) by (intro sr_ok_retransmit_packet) auto
    then have "sr_inv t" "hashing_context (chan t) = hashing_context (chan s)"
      using Cons.prems(3) by (auto simp: sr_ok_def sr_frame_rel_def receive_side_def)
    then have "sr_ok t s'" using Cons.IH [OF rest] Cons.prems(2) by simp
    with st show ?case by (rule sr_ok_trans)
  qed simp
qed

lemma sr_ok_retransmit_data:
  assumes "sr_retransmit_data s = Some s'"
  shows "sr_ok s s'"
proof (rule sr_ok_assume)
  assume inv: "sr_inv s"
  define u where "u = map_con (\<lambda>c. c\<lparr>fifo_retransmission := (fifo_retransmission c)\<lparr>items := []\<rparr>\<rparr>) s"
  obtain t where t: "retransmit_loop (items (fifo_retransmission (con s))) u = Some t"
    and s': "sendHeartbeat True t = Some s'"
    using assms by (auto simp: sr_retransmit_data_def u_def Option.bind_eq_Some_conv Let_def split: if_splits)
  have su: "sr_ok s u" unfolding u_def by (rule sr_ok_drop_retransmission) simp_all
  have "sr_ok u t"
    using t inv by (intro sr_ok_retransmit_loop) (auto simp: u_def map_con_def sr_inv_def)
  with su s' sr_ok_control(1) show "sr_ok s s'" by (blast intro: sr_ok_trans)
qed

section \<open>Closing\<close>

lemma close_loop_frame: "close_loop is s = Some s' \<Longrightarrow> quiet_frame s s'"
proof (induction "is" arbitrary: s)
  case (Cons i "is")
  then obtain t where t: "transport_close_channel i s = Some t"
    and rest: "close_loop is t = Some s' \<or> (\<exists>k f. close_loop is (map_socket k f t) = Some s')"
    by (auto simp: Option.bind_eq_Some_conv split: if_splits)
  have "quiet_frame s t" using t by (rule transport_close_channel_frame)
  moreover have "quiet_frame t (map_socket k f t)" for k f by (rule map_socket_frame)
  ultimately show ?case using rest Cons.IH by (blast intro: quiet_frame_trans)
qed simp

lemma sr_ok_channel_close: "redundancy_channel_close s = Some s' \<Longrightarrow> sr_ok s s'"
  by (auto simp: redundancy_channel_close_def intro: sr_ok_quiet close_loop_frame)

lemma reset_queues [simp]:
  "fifo_send (sr_reset_connection c) = fifo_send c"
  "fifo_retransmission (sr_reset_connection c) = fifo_retransmission c"
  "fifo_receive (sr_reset_connection c) = fifo_receive c"
  by (simp_all add: sr_reset_connection_def)

lemma sr_ok_close:
  assumes "sr_close_connection rsn dts s = Some s'"
  shows "sr_ok s s'"
proof (cases "current_state (con s) = RASTA_CONNECTION_DOWN \<or> current_state (con s) = RASTA_CONNECTION_CLOSED")
  case True
  with assms show ?thesis by (auto simp: sr_close_connection_def dest: sr_ok_channel_close simp: sr_ok_simps)
next
  case False
  with assms obtain t where t: "sendDisconnectionRequest rsn dts (map_con sr_reset_connection s) = Some t"
    and "redundancy_channel_close (map_con (\<lambda>c. c\<lparr>current_state := RASTA_CONNECTION_CLOSED\<rparr>) t) = Some s'"
    by (auto simp: sr_close_connection_def Option.bind_eq_Some_conv Let_def)
  then have "sr_ok t s'" using sr_ok_channel_close by (fastforce simp: sr_ok_simps)
  moreover have "sr_ok s t" using sr_ok_sendDisconnectionRequest [OF t] by (simp add: sr_ok_simps)
  ultimately show ?thesis by (blast intro: sr_ok_trans)
qed

section \<open>Handlers\<close>

lemma attrs_queues [simp]:
  "fifo_send (update_connection_attrs p c) = fifo_send c"
  "fifo_retransmission (update_connection_attrs p c) = fifo_retransmission c"
  "fifo_receive (update_connection_attrs p c) = fifo_receive c"
  "fifo_send (update_confirmed_attrs p c) = fifo_send c"
  "fifo_retransmission (update_confirmed_attrs p c) = fifo_retransmission c"
  "fifo_receive (update_confirmed_attrs p c) = fifo_receive c"
  by (simp_all add: update_connection_attrs_def update_confirmed_attrs_def)

lemma sr_neutral_set: "sr_neutral (set_state x)" "sr_neutral (map_errors f)"
  unfolding set_state_def map_errors_def by (rule sr_neutral_map_con; simp)+

lemmas sr_set = sr_neutral_set [THEN sr_neutral_iff(1)] sr_neutral_set [THEN sr_neutral_iff(2)]

lemmas handler_simps = sr_ok_simps sr_set Option.bind_eq_Some_conv Let_def

lemmas handler_dests = sr_ok_close sr_ok_add_to_buffer sr_ok_remove_confirmed sr_ok_control
  sr_ok_retransmit_data sr_ok_channel_close

lemma sr_ok_handle_discreq: "handle_discreq p s = Some (r, s') \<Longrightarrow> sr_ok s s'"
  by (auto simp: handle_discreq_def handler_simps dest!: handler_dests)

lemma sr_ok_handle_data: "handle_data p s = Some (r, s') \<Longrightarrow> sr_ok s s'"
  by (auto simp: handle_data_def handler_simps split: if_splits dest!: handler_dests intro: sr_ok_trans)

lemma sr_ok_handle_retrreq: "handle_retrreq p s = Some (r, s') \<Longrightarrow> sr_ok s s'"
  by (auto simp: handle_retrreq_def handler_simps split: if_splits dest!: handler_dests;
      blast intro: sr_ok_trans)

lemma sr_ok_handle_retrresp: "handle_retrresp p s = Some (r, s') \<Longrightarrow> sr_ok s s'"
  by (auto simp: handle_retrresp_def handler_simps split: if_splits dest!: handler_dests)

lemma sr_ok_handle_retrdata: "handle_retrdata p s = Some (r, s') \<Longrightarrow> sr_ok s s'"
  by (auto simp: handle_retrdata_def handler_simps split: if_splits dest!: handler_dests)

lemma sr_ok_handle_hb_start: "handle_hb_start p s = Some (r, s') \<Longrightarrow> sr_ok s s'"
  unfolding handle_hb_start_def Let_def
  by (elim bind_eq_SomeE) (auto simp: handler_simps split: if_splits dest!: handler_dests intro: sr_ok_trans)

lemma sr_ok_handle_hb:
  assumes "handle_hb p s = Some (r, s')"
  shows "sr_ok s s'"
proof (cases "current_state (con s) = RASTA_CONNECTION_START")
  case True
  with assms show ?thesis by (simp add: handle_hb_def sr_ok_handle_hb_start)
next
  case False
  with assms show ?thesis
    by (auto simp: handle_hb_def handler_simps split: if_splits dest!: handler_dests)
qed

lemma sr_ok_handle_conreq:
  assumes "handle_conreq p s = Some s'"
  shows "sr_ok s s'"
proof -
  have send: "sr_ok u v" if "now_ms u = (t, w)"
    "createConnectionResponse r sd sn csn t cts sm vs (hashing_context (chan w)) = Some q"
    "redundancy_mux_send q ro (set_state x (map_con (\<lambda>c. c\<lparr>sn_t := y c\<rparr>) w)) = Some v" for u v t w r sd sn csn cts sm vs q ro x y
  proof -
    let ?w = "set_state x (map_con (\<lambda>c. c\<lparr>sn_t := y c\<rparr>) w)"
    have "sr_ok w ?w" by (simp add: handler_simps)
    moreover have "sr_ok ?w v"
    proof (rule sr_ok_mux_send [OF that(3)])
      assume "sr_inv ?w"
      moreover have "hashing_context (chan ?w) = hashing_context (chan w)"
        by (simp add: set_state_def map_con_def)
      ultimately show "fits_wire ?w q"
        using that(2) by (intro connection_payload_fits) (auto simp: createConnectionResponse_def)
    qed
    ultimately show ?thesis using sr_ok_now(1) [OF that(1)] by (blast intro: sr_ok_trans)
  qed
  show ?thesis
    using assms
    by (auto simp: handle_conreq_def handler_simps sr_init_connection_def split: if_splits prod.splits
        dest!: handler_dests send)
qed

lemma sr_ok_handle_conresp: "handle_conresp p s = Some s' \<Longrightarrow> sr_ok s s'"
  by (auto simp: handle_conresp_def handler_simps split: if_splits dest!: handler_dests)

lemma sr_ok_handle_received_packet: "handle_received_packet p s = Some (r, s') \<Longrightarrow> sr_ok s s'"
  by (auto simp: handle_received_packet_def handler_simps split: if_splits
      dest!: sr_ok_handle_retrdata sr_ok_handle_data sr_ok_handle_retrreq sr_ok_handle_retrresp
        sr_ok_handle_discreq sr_ok_handle_hb)

lemma sr_ok_receive: "sr_receive p s = Some (r, s') \<Longrightarrow> sr_ok s s'"
  by (auto simp: sr_receive_def handler_simps split: if_splits
      dest!: sr_ok_handle_conreq sr_ok_handle_conresp sr_ok_handle_received_packet sr_ok_close)

section \<open>The layer above the redundancy layer\<close>

text \<open>The parts of the endpoint that stay as they were configured.\<close>

definition pinned :: "rasta_st \<Rightarrow> rasta_config_info \<times> rasta_hashing_ctx \<times> transport \<times> network" where
  "pinned s = (cfg s, sr_hashing_context (mux s), transport_lib s, env_of (net s))"

lemma sr_ok_pinned: "sr_ok s s' \<Longrightarrow> sr_inv s \<Longrightarrow> pinned s' = pinned s"
  by (simp add: sr_ok_def sr_frame_rel_def pinned_def)

interpretation sr_upper: upper_layer sr_receive sr_inv
proof (unfold_locales, goal_cases)
  case (1 s p r s')
  then show ?case using sr_ok_receive by (auto simp: sr_ok_def sr_frame_rel_def)
next
  case (2 s p r s')
  then show ?case using sr_ok_receive by (auto simp: sr_ok_def)
next
  case (5 s' s)
  then show ?case by (simp add: sr_inv_def static_ok_def wire_ok_def)
qed (simp_all add: sr_inv_def static_ok_def wire_ok_def)

interpretation sr_pinned: upper_layer sr_receive "\<lambda>s. sr_inv s \<and> pinned s = x" for x
proof (unfold_locales, goal_cases)
  case (1 s p r s')
  then show ?case using sr_upper.deliver_keeps by blast
next
  case (2 s p r s')
  then show ?case using sr_ok_receive sr_ok_pinned sr_upper.deliver_inv by auto
next
  case (5 s' s)
  then show ?case using sr_upper.inv_cong [of s' s] by (simp add: pinned_def)
qed (simp_all add: sr_upper.inv_error sr_upper.inv_hashing)

end
