(* ===== verification/Rasta_Framing.thy ===== *)
theory Rasta_Framing
  imports Rasta_Reorder Rasta_Example
begin

text \<open>
  Splitting the bytes of a transport channel: on a concatenation of frames the loop of
  \<open>receive_packet\<close> hands \<open>red_f_receiveData\<close> one packet after the other (\<open>receive_packet_frames\<close>).
  A frame here is any byte string whose length field is its length and that parses into a packet
  with a consistent inner length; its checksums may be wrong. The frames this library sends are of
  that kind, and come back as the packets they were made of.
\<close>

definition frame_ok :: "rasta_hashing_ctx \<Rightarrow> crc_options \<Rightarrow> bytes \<Rightarrow> RastaRedundancyPacket \<Rightarrow> bool" where
  "frame_ok ctx opts b q \<longleftrightarrow> 2 \<le> length b \<and> length b < 2 ^ 16 \<and>
     leShortToHost b 0 = Some (of_nat (length b)) \<and> packet_wf ctx (red_data q) \<and>
     (\<forall>err old. bytesToRastaRedundancyPacket err b opts ctx old = Some (q, err))"

lemma leShortToHost_shift:
  assumes "2 \<le> length b"
  shows "leShortToHost (xs @ b @ ys) (length xs) = leShortToHost b 0"
  using assms by (simp add: leShortToHost_def)

lemma receive_one_result:
  assumes "receive_one i p s = Some (r, s')"
  shows "mux s' = mux s" and "cfg s' = cfg s" and "module_error s' = module_error s"
  using receive_viewD [OF receive_one_effect(1) [OF assms]] by simp_all

lemma receive_packet_loop_frames:
  assumes "list_all2 (frame_ok ctx opts) bs qs" and "length (concat bs) < 2 ^ 64"
    and "sr_hashing_context (mux s) = ctx" and "crc_type (redundancy (cfg s)) = opts"
  shows "receive_packet_loop i (xs @ concat bs @ ys) (of_nat (length (concat bs))) (length xs) r s = do {
     (r', s') \<leftarrow> receive_all i qs s;
     Some (r \<or> r', s')
   }"
  using assms
proof (induction bs qs arbitrary: xs r s rule: list_all2_induct)
  case Nil
  then show ?case by (simp add: receive_packet_loop.simps)
next
  case (Cons b bs q qs)
  let ?n = "of_nat (length b) :: u16" and ?buffer = "xs @ b @ concat bs @ ys"
  have f: "2 \<le> length b" "leShortToHost b 0 = Some ?n" "length b < 2 ^ 16"
    "\<And>err old. bytesToRastaRedundancyPacket err b opts ctx old = Some (q, err)"
    using Cons.hyps(1) by (auto simp: frame_ok_def)
  have n: "unat ?n = length b" using f(3) by (intro unat_of_nat_bounded) simp
  have "unat (of_nat (length (concat (b # bs))) :: u64) = length (concat (b # bs))"
    using Cons.prems(1) by (intro unat_of_nat_bounded) simp
  then have pos: "(0 :: u64) < of_nat (length (concat (b # bs)))"
    using f(1) by (simp add: word_less_nat_alt del: length_greater_0_conv)
  have cast: "(ucast ?n :: u64) = of_nat (length b)" 
    using n f(3) unat_ucast_up [of ?n, where ?'b = 64] by (simp add: word_unat_eq_iff unat_of_nat_bounded)
  have step: "receive_packet_loop i (xs @ concat (b # bs) @ ys) (of_nat (length (concat (b # bs)))) (length xs) r s = do {
     (r1, s) \<leftarrow> receive_one i q s;
     receive_packet_loop i ?buffer (of_nat (length (concat bs))) (length (xs @ b)) (r \<or> r1) s
   }"
    using pos f(1) leShortToHost_shift [OF f(1), of xs "concat bs @ ys"]
    by (simp add: receive_packet_loop.simps [of i ?buffer "of_nat (length (concat (b # bs)))" "length xs" r s, simplified]
        f(2,4) n cast handle_received_data_def Cons.prems)
  have IH: "receive_packet_loop i ((xs @ b) @ concat bs @ ys) (of_nat (length (concat bs))) (length (xs @ b)) r' t = do {
     (r2, s') \<leftarrow> receive_all i qs t;
     Some (r' \<or> r2, s')
   }" if "receive_one i q s = Some (r1, t)" for r' r1 t
    using Cons.prems receive_one_result [OF that] by (intro Cons.IH) simp_all
  show ?case
    unfolding step using IH by (cases "receive_one i q s") (auto simp: Option.bind_assoc split_beta split_def)
qed

lemma receive_packet_frames:
  assumes "list_all2 (frame_ok (sr_hashing_context (mux s)) (crc_type (redundancy (cfg s)))) bs qs"
    and "length (concat bs) < 2 ^ 64"
  shows "receive_packet i (concat bs @ ys) (of_nat (length (concat bs))) s = receive_all i qs s"
  using receive_packet_loop_frames [OF assms refl refl, of i "[]" ys False]
  by (simp add: receive_packet_def bind_split)

text \<open>The frames of this library, with the CRC they were sent with or any other.\<close>

lemma frame_ok_body:
  assumes "hashing_ok ctx" and "red_packet_wf ctx p" and "length stored = crc_len (checksum_type p)"
  shows "frame_ok ctx (checksum_type p) (red_body ctx p @ stored)
    (p\<lparr>red_data := (red_data p)\<lparr>checksum := sr_code_of ctx (red_data p), checksum_correct := True\<rparr>,
       red_checksum_correct := (stored = crc_bytes (checksum_type p) (red_body ctx p))\<rparr>)"
proof -
  let ?opts = "checksum_type p" and ?inner = "sr_frame ctx (red_data p)"
  have wf: "packet_wf ctx (red_data p)" and w4: "crc_len ?opts \<le> 4"
    using assms(2) by (simp_all add: red_packet_wf_def)
  have inner: "8 + length ?inner + crc_len ?opts = unat (red_length p)"
    using assms(2) by (simp add: length_sr_frame [OF assms(1)] red_packet_wf_def packet_wf_def)
  then have len: "length (red_body ctx p @ stored) = unat (red_length p)"
    using assms(3) by (simp add: red_body_def)
  have small: "8 + length ?inner + crc_len ?opts < 2 ^ 32" using inner unat_u16_bound [of "red_length p"] by simp
  have "bytesToRastaRedundancyPacket err (red_body ctx p @ stored) ?opts ctx old =
      Some (p\<lparr>red_data := (red_data p)\<lparr>checksum := sr_code_of ctx (red_data p), checksum_correct := True\<rparr>,
        red_checksum_correct := (stored = crc_bytes ?opts (red_body ctx p))\<rparr>, err)" for err old
    using bytesToRastaRedundancyPacket_eq [OF assms(3) w4 small bytesToRastaPacket_frame [OF assms(1) wf], where p = p]
    by (simp add: red_body_def)
  moreover have "leShortToHost (red_body ctx p @ stored) 0 = Some (red_length p)"
    by (simp add: red_body_def red_header_reads)
  moreover have "unat (red_length p) < 2 ^ 16" using unsigned_less [of "red_length p"] by simp
  ultimately show ?thesis
    using wf inner unfolding frame_ok_def len by (simp add: packet_wf_def)
qed

lemma frame_ok_red_frame:
  assumes "hashing_ok ctx" and "red_packet_wf ctx p"
  shows "frame_ok ctx (checksum_type p) (red_frame ctx p)
    (p\<lparr>red_data := (red_data p)\<lparr>checksum := sr_code_of ctx (red_data p), checksum_correct := True\<rparr>,
       red_checksum_correct := True\<rparr>)"
proof -
  have "length (crc_bytes (checksum_type p) (red_body ctx p)) = crc_len (checksum_type p)"
    using assms(2) by (simp add: red_packet_wf_def)
  from frame_ok_body [OF assms this] show ?thesis by (simp add: red_frame_def)
qed

text \<open>What parsing makes of a packet.\<close>

definition parsed :: "rasta_hashing_ctx \<Rightarrow> RastaRedundancyPacket \<Rightarrow> RastaRedundancyPacket" where
  "parsed ctx p = p\<lparr>red_data := (red_data p)\<lparr>checksum := sr_code_of ctx (red_data p), checksum_correct := True\<rparr>,
     red_checksum_correct := True\<rparr>"

text \<open>
  C36: Frames that arrive in one buffer are taken apart into the packets they were made of, in order,
  whatever follows them in the buffer: the loop of \<open>receive_packet\<close> returns and does the same as
  handing each packet to the redundancy channel in turn.
\<close>

theorem receive_packet_splits_frames:
  assumes "hashing_ok ctx" and "\<forall>p \<in> set ps. red_packet_wf ctx p \<and> checksum_type p = opts"
    and "sr_hashing_context (mux s) = ctx" and "crc_type (redundancy (cfg s)) = opts"
    and "length (concat (map (red_frame ctx) ps)) < 2 ^ 64"
  shows "receive_packet i (concat (map (red_frame ctx) ps) @ rest)
      (of_nat (length (concat (map (red_frame ctx) ps)))) s = receive_all i (map (parsed ctx) ps) s"
proof -
  have "frame_ok ctx opts (red_frame ctx p) (parsed ctx p)" if "p \<in> set ps" for p
    using frame_ok_red_frame [OF assms(1), of p] assms(2) that by (simp add: parsed_def)
  then have "list_all2 (frame_ok ctx opts) (map (red_frame ctx) ps) (map (parsed ctx) ps)"
    by (simp add: list_all2_conv_all_nth)
  then show ?thesis using assms(3-5) by (intro receive_packet_frames) simp_all
qed

text \<open>Two frames and some stale bytes behind them.\<close>

theorem receive_packet_splits_frames_witness:
  "receive_packet 0 (concat (map (red_frame plain_ctx) [example_red 3, example_red 5]) @ [1, 2])
      (of_nat (length (concat (map (red_frame plain_ctx) [example_red 3, example_red 5])))) example_st =
    receive_all 0 (map (parsed plain_ctx) [example_red 3, example_red 5]) example_st"
proof (rule receive_packet_splits_frames)
  have "crc_len (crc_init_opt_b []) = 4" by (simp add: crc_len_def crc_init_opt_b_def)
  then have "length (red_frame plain_ctx (example_red n)) = 43" for n
    using length_red_body [of plain_ctx "example_red n"]
    by (simp add: red_frame_def) (simp add: example_red_def example_data_def)
  then show "length (concat (map (red_frame plain_ctx) [example_red 3, example_red 5])) < 2 ^ 64" by simp
qed (simp_all add: example_defs, simp_all add: example_red_def)

end
