(* ===== verification/Rasta_Error_Flag.thy ===== *)
theory Rasta_Error_Flag
  imports Rasta_Invariant Rasta_Framing
begin

text \<open>
  What every operation of an endpoint keeps, whatever bytes the network returned: the configuration,
  the two safety codes, the bounds of the retransmission buffer and of the defer queue, and the error
  flag of \<open>rastamodule.c\<close>, which is never cleared once an input that is too short has set it
  (\<open>getRastamoduleLastError\<close>, which would clear it, is not called). The invariant \<open>sr_inv\<close> of the
  layer above the redundancy layer speaks of the endpoints whose flag is not set; the relation
  \<open>loose\<close> here covers all of them.
\<close>

section \<open>The relation\<close>

definition bounded :: "rasta_st \<Rightarrow> bool" where
  "bounded s \<longleftrightarrow> queue_invar (fifo_retransmission (con s)) \<and>
     capacity (fifo_retransmission (con s)) = max_retransmission_queue_size (cfg s) \<and>
     dq_invar (defer_q (chan s)) \<and> dq_max_count (defer_q (chan s)) = unat (n_deferqueue_size (redundancy (cfg s)))"

definition loose :: "rasta_st \<Rightarrow> rasta_st \<Rightarrow> bool" where
  "loose s s' \<longleftrightarrow> (module_error s \<noteq> RASTA_ERRORS_NONE \<longrightarrow> module_error s' \<noteq> RASTA_ERRORS_NONE) \<and>
     cfg s' = cfg s \<and> sr_hashing_context (mux s') = sr_hashing_context (mux s) \<and>
     hashing_context (chan s') = hashing_context (chan s) \<and> (bounded s \<longrightarrow> bounded s')"

lemma loose_refl [simp]: "loose s s"
  by (simp add: loose_def)

lemma loose_trans [trans]: "loose s t \<Longrightarrow> loose t u \<Longrightarrow> loose s u"
  by (simp add: loose_def)

text \<open>All the relation sees of a state; updates outside of it rewrite away on both sides.\<close>

definition seen :: "rasta_st \<Rightarrow> _" where
  "seen s = (module_error s, cfg s, sr_hashing_context (mux s), hashing_context (chan s),
     fifo_retransmission (con s), defer_q (chan s))"

lemma loose_seen: "seen t = seen t' \<Longrightarrow> loose s t = loose s t'" "seen t = seen t' \<Longrightarrow> loose t s = loose t' s"
  by (simp_all add: seen_def loose_def bounded_def)

definition unseen :: "(rasta_st \<Rightarrow> rasta_st) \<Rightarrow> bool" where
  "unseen f \<longleftrightarrow> (\<forall>s. seen (f s) = seen s)"

lemma unseen_iff:
  assumes "unseen f"
  shows "loose s (f t) \<longleftrightarrow> loose s t" and "loose (f s) t \<longleftrightarrow> loose s t"
  using assms loose_seen unfolding unseen_def by blast+

lemma unseen_map_con: "(\<And>c. fifo_retransmission (f c) = fifo_retransmission c) \<Longrightarrow> unseen (map_con f)"
  by (simp add: unseen_def seen_def map_con_def)

lemma unseen_ops:
  "unseen (\<lambda>s. snd (now_ms s))" "unseen (\<lambda>s. snd (now_ns s))" "unseen (\<lambda>s. snd (call s))"
  "unseen (\<lambda>s. s\<lparr>factory_error := e\<rparr>)" "unseen reschedule_heartbeat" "unseen enable_heartbeat"
  "unseen enable_timeout" "unseen (sr_update_timeout_interval cts)" "unseen (sr_diagnostic_update p)"
  "unseen (set_state x)" "unseen (map_errors g)" "unseen (map_channel i h)" "unseen (map_socket i k)"
  "unseen (map_chan (\<lambda>c. c\<lparr>diagnostics_packet_buffer := d c\<rparr>))" "unseen (map_chan (\<lambda>c. c\<lparr>seq_tx := e' c\<rparr>))"
  by (simp_all add: unseen_def seen_def now_ms_def now_ns_def call_def sys_call_def reschedule_heartbeat_def
      enable_heartbeat_def enable_timeout_def sr_update_timeout_interval_def sr_diagnostic_update_def
      reset_diagnostic_def set_state_def map_errors_def map_con_def map_channel_def map_socket_def map_chan_def
      Let_def split_beta)

lemmas loose_simps = unseen_ops [THEN unseen_iff(1)] unseen_ops [THEN unseen_iff(2)]
  unseen_map_con [THEN unseen_iff(1)] unseen_map_con [THEN unseen_iff(2)]

lemma loose_now: "now_ms s = (t, s') \<Longrightarrow> loose s s'" "now_ns s = (t', s') \<Longrightarrow> loose s s'" "call s = (r, s') \<Longrightarrow> loose s s'"
  using unseen_ops(1,2,3) [THEN unseen_iff(1), of s s] by simp_all

lemma loose_transport: "transport_frame s s' \<Longrightarrow> loose s s'"
  using loose_seen(1) [of s' s s] by (simp add: seen_def transport_frameD)

lemma loose_quiet: "quiet_frame s s' \<Longrightarrow> loose s s'"
  by (intro loose_transport quiet_frameD(1))

text \<open>Parsing and serialising can only set the flag.\<close>

lemma loose_error: "(module_error s \<noteq> RASTA_ERRORS_NONE \<Longrightarrow> e \<noteq> RASTA_ERRORS_NONE) \<Longrightarrow> loose s (s\<lparr>module_error := e\<rparr>)"
  by (simp add: loose_def bounded_def)

lemma error_flag_stays:
  "rastaModuleToBytes err p ctx = Some (b, e) \<Longrightarrow> err \<noteq> RASTA_ERRORS_NONE \<Longrightarrow> e \<noteq> RASTA_ERRORS_NONE"
  "rastaRedundancyPacketToBytes err q ctx = Some (b', q', e') \<Longrightarrow> err \<noteq> RASTA_ERRORS_NONE \<Longrightarrow> e' \<noteq> RASTA_ERRORS_NONE"
  "bytesToRastaPacket err b'' ctx old = Some (p', e'') \<Longrightarrow> err \<noteq> RASTA_ERRORS_NONE \<Longrightarrow> e'' \<noteq> RASTA_ERRORS_NONE"
  "bytesToRastaRedundancyPacket err c opts ctx old' = Some (q'', e3) \<Longrightarrow> err \<noteq> RASTA_ERRORS_NONE \<Longrightarrow> e3 \<noteq> RASTA_ERRORS_NONE"
proof -
  show module: "rastaModuleToBytes err p ctx = Some (b, e) \<Longrightarrow> err \<noteq> RASTA_ERRORS_NONE \<Longrightarrow> e \<noteq> RASTA_ERRORS_NONE" for err p ctx b e
    by (auto simp: rastaModuleToBytes_def allocateBytes_def Option.bind_eq_Some_conv split: if_splits)
  show parse: "bytesToRastaPacket err b ctx old = Some (p, e) \<Longrightarrow> err \<noteq> RASTA_ERRORS_NONE \<Longrightarrow> e \<noteq> RASTA_ERRORS_NONE" for err b ctx old p e
    by (auto simp: bytesToRastaPacket_def Option.bind_eq_Some_conv Let_def split: if_splits)
  assume err: "err \<noteq> RASTA_ERRORS_NONE"
  show "e' \<noteq> RASTA_ERRORS_NONE" if "rastaRedundancyPacketToBytes err q ctx = Some (b', q', e')"
    using that unfolding rastaRedundancyPacketToBytes_def Let_def
    by (elim bind_eq_SomeE) (auto simp: split_beta dest: module [OF _ err] elim!: bind_eq_SomeE)
  show "e3 \<noteq> RASTA_ERRORS_NONE" if "bytesToRastaRedundancyPacket err c opts ctx old' = Some (q'', e3)"
    using that unfolding bytesToRastaRedundancyPacket_def Let_def
    by (elim bind_eq_SomeE) (auto split: if_splits dest: parse [OF _ err] elim!: bind_eq_SomeE)
qed

lemma loose_serialised: "rastaModuleToBytes (module_error s) p ctx = Some (b, e) \<Longrightarrow> loose s (s\<lparr>module_error := e\<rparr>)"
  using error_flag_stays(1) by (rule loose_error)

lemma loose_parsed: "bytesToRastaPacket (module_error s) b ctx old = Some (p, e) \<Longrightarrow> loose s (s\<lparr>module_error := e\<rparr>)"
  using error_flag_stays(3) by (rule loose_error)

text \<open>Changes of the retransmission buffer.\<close>

lemma loose_push: "loose s (map_con (\<lambda>c. c\<lparr>fifo_retransmission := snd (queue_push (fifo_retransmission c) b)\<rparr>) s)"
  by (auto simp: loose_def bounded_def map_con_def queue_push_def queue_invar_def queue_full_def)

lemma loose_items:
  assumes "bounded s \<Longrightarrow> length es \<le> unat (max_retransmission_queue_size (cfg s))"
  shows "loose s (map_con (\<lambda>c. c\<lparr>fifo_retransmission := (fifo_retransmission c)\<lparr>items := es\<rparr>\<rparr>) s)"
  using assms by (auto simp: loose_def bounded_def map_con_def queue_invar_def)

section \<open>Sending\<close>

lemma loose_mux_send:
  assumes "redundancy_mux_send p r s = Some s'"
  shows "loose s s'"
proof -
  from assms obtain b q err where
    bytes: "rastaRedundancyPacketToBytes (module_error s)
      (createRedundancyPacket (ucast (seq_tx (chan s))) p (crc_type (redundancy (cfg s)))) (hashing_context (chan s)) = Some (b, q, err)"
    and loop: "mux_send_loop r b [0..<length (transport_channels (chan s))]
       (map_chan (\<lambda>c. c\<lparr>seq_tx := seq_tx c + 1\<rparr>) (s\<lparr>module_error := err\<rparr>)) = Some s'"
    by (auto simp: redundancy_mux_send_def Option.bind_eq_Some_conv map_chan_def)
  have "loose s (s\<lparr>module_error := err\<rparr>)" using error_flag_stays(2) [OF bytes] by (rule loose_error)
  moreover have "loose (s\<lparr>module_error := err\<rparr>) s'"
    using loose_transport [OF mux_send_loop_frame [OF loop]] by (simp add: loose_simps)
  ultimately show ?thesis by (rule loose_trans)
qed

lemma loose_control:
  "sendDisconnectionRequest rsn dts s = Some s' \<Longrightarrow> loose s s'"
  "sendHeartbeat b s = Some s' \<Longrightarrow> loose s s'"
  "sendRetransmissionRequest s = Some s' \<Longrightarrow> loose s s'"
  "sendRetransmissionResponse s = Some s' \<Longrightarrow> loose s s'"
  by (auto simp: sendDisconnectionRequest_def sendHeartbeat_def sendRetransmissionRequest_def
      sendRetransmissionResponse_def Option.bind_eq_Some_conv Let_def split_beta loose_simps split: if_splits
      dest!: loose_mux_send)

lemma loose_send_data_packet:
  assumes "send_data_packet n s = Some s'"
  shows "loose s s'"
proof -
  obtain u p pkt err w where u: "loose s u"
    and pkt: "rastaModuleToBytes (module_error u) p (sr_hashing_context (mux u)) = Some (pkt, err)"
    and w: "redundancy_mux_send p (role (con u))
      (map_con (\<lambda>c. c\<lparr>fifo_retransmission := snd (queue_push (fifo_retransmission c) pkt)\<rparr>) (u\<lparr>module_error := err\<rparr>)) = Some w"
    and s': "s' = reschedule_heartbeat (map_con (\<lambda>c. c\<lparr>sn_t := sequence_number p + 1\<rparr>) w)"
    using assms unfolding send_data_packet_def
    by (force simp: Option.bind_eq_Some_conv Let_def split_beta loose_simps map_con_def [of _ "_\<lparr>module_error := _\<rparr>"])
  show ?thesis
    using loose_trans [OF u loose_trans [OF loose_serialised [OF pkt] loose_trans [OF loose_push loose_mux_send [OF w]]]]
    by (simp add: s' loose_simps)
qed

lemma loose_data_send_event: "data_send_event s = Some (r, s') \<Longrightarrow> loose s s'"
  by (auto simp: data_send_event_def Option.bind_eq_Some_conv Let_def loose_simps split: if_splits
      dest!: loose_send_data_packet)

lemma loose_remove_confirmed_loop:
  "remove_confirmed_loop es s = Some s' \<Longrightarrow> (bounded s \<Longrightarrow> length es \<le> unat (max_retransmission_queue_size (cfg s))) \<Longrightarrow>
   loose s s'"
proof (induction es arbitrary: s)
  case Nil
  then show ?case using loose_items [of s "[]"] by simp
next
  case (Cons e es)
  obtain p err where e: "bytesToRastaPacket (module_error s) e (hashing_context (chan s)) (red_data (uninit s)) = Some (p, err)"
    using Cons.prems(1) by (auto simp: Option.bind_eq_Some_conv)
  let ?t = "s\<lparr>module_error := err\<rparr>"
  note st = loose_parsed [OF e]
  have small: "bounded ?t \<Longrightarrow> length es \<le> unat (max_retransmission_queue_size (cfg ?t))"
    using Cons.prems(2) by (simp add: bounded_def)
  have "loose ?t s'"
  proof (cases "sequence_number p = cs_r (con s)")
    case True
    with Cons.prems(1) e loose_items [OF small] show ?thesis by auto
  next
    case False
    with Cons.prems(1) e have "remove_confirmed_loop es ?t = Some s'" by simp
    with small show ?thesis by (intro Cons.IH)
  qed
  with st show ?case by (rule loose_trans)
qed

lemma loose_remove_confirmed: "sr_remove_confirmed_messages s = Some s' \<Longrightarrow> loose s s'"
proof -
  assume "sr_remove_confirmed_messages s = Some s'"
  then obtain t where t: "remove_confirmed_loop (items (fifo_retransmission (con s))) s = Some t"
    and s': "s' = t \<or> (\<exists>r. data_send_event t = Some (r, s'))"
    by (auto simp: sr_remove_confirmed_messages_def Option.bind_eq_Some_conv split: if_splits)
  have "loose s t" using t by (rule loose_remove_confirmed_loop) (auto simp: bounded_def queue_invar_def)
  with s' loose_data_send_event show ?thesis by (blast intro: loose_trans)
qed

lemma loose_retransmit_packet:
  assumes "retransmit_packet b s = Some s'"
  shows "loose s s'"
proof -
  obtain q err where b: "bytesToRastaPacket (module_error s) b (hashing_context (chan s)) (red_data (uninit s)) = Some (q, err)"
    using assms by (auto simp: retransmit_packet_def Option.bind_eq_Some_conv)
  obtain u p pkt e w where u: "loose (s\<lparr>module_error := err\<rparr>) u"
    and pkt: "rastaModuleToBytes (module_error u) p (hashing_context (chan u)) = Some (pkt, e)"
    and w: "redundancy_mux_send p (role (con u))
      (map_con (\<lambda>c. c\<lparr>fifo_retransmission := snd (queue_push (fifo_retransmission c) pkt)\<rparr>) (u\<lparr>module_error := e\<rparr>)) = Some w"
    and s': "s' = reschedule_heartbeat (map_con (\<lambda>c. c\<lparr>sn_t := sn_t c + 1\<rparr>) w)"
  proof -
    define u where "u = snd (now_ms (s\<lparr>module_error := err\<rparr>))"
    have "loose (s\<lparr>module_error := err\<rparr>) u" by (simp add: u_def loose_simps)
    moreover have "con u = con s" "chan u = chan s" by (simp_all add: u_def now_ms_def split_beta)
    ultimately show thesis
      using assms b that [of u]
      unfolding retransmit_packet_def
      by (auto simp: Option.bind_eq_Some_conv Let_def split_beta map_con_def u_def [symmetric])
  qed
  show ?thesis
    using loose_trans [OF loose_trans [OF loose_parsed [OF b] u]
        loose_trans [OF loose_serialised [OF pkt] loose_trans [OF loose_push loose_mux_send [OF w]]]]
    by (simp add: s' loose_simps)
qed

lemma loose_retransmit_loop: "retransmit_loop bs s = Some s' \<Longrightarrow> loose s s'"
  by (induction bs arbitrary: s) (auto simp: Option.bind_eq_Some_conv dest!: loose_retransmit_packet intro: loose_trans)

lemma loose_retransmit_data: "sr_retransmit_data s = Some s' \<Longrightarrow> loose s s'"
  using loose_items [of s "[]"]
  by (auto simp: sr_retransmit_data_def Option.bind_eq_Some_conv Let_def split: if_splits
      dest!: loose_retransmit_loop loose_control(2) intro: loose_trans)

section \<open>Closing and the handlers\<close>

lemma loose_channel_close: "redundancy_channel_close s = Some s' \<Longrightarrow> loose s s'"
  by (auto simp: redundancy_channel_close_def intro: loose_quiet close_loop_frame)

lemma loose_close: "sr_close_connection rsn dts s = Some s' \<Longrightarrow> loose s s'"
  by (auto simp: sr_close_connection_def Option.bind_eq_Some_conv Let_def loose_simps split: if_splits
      dest!: loose_channel_close loose_control(1) intro: loose_trans)

lemma loose_add_app_messages: "loose s t \<Longrightarrow> loose s (add_app_messages p ms t)"
  by (induction ms arbitrary: t) (simp_all add: loose_simps Let_def)

lemma loose_add_to_buffer: "sr_add_app_messages_to_buffer p s = Some s' \<Longrightarrow> loose s s'"
  by (auto simp: sr_add_app_messages_to_buffer_def Option.bind_eq_Some_conv loose_add_app_messages)

lemmas loose_handler_simps = loose_simps Option.bind_eq_Some_conv Let_def sr_init_connection_def split_beta

lemmas loose_dests = loose_close loose_add_to_buffer loose_remove_confirmed loose_control loose_retransmit_data
  loose_channel_close loose_mux_send

lemma loose_handle_discreq: "handle_discreq p s = Some (r, s') \<Longrightarrow> loose s s'"
  by (auto simp: handle_discreq_def loose_handler_simps dest!: loose_dests)

lemma loose_handle_data: "handle_data p s = Some (r, s') \<Longrightarrow> loose s s'"
  by (auto simp: handle_data_def loose_handler_simps split: if_splits dest!: loose_dests intro: loose_trans)

lemma loose_handle_retrreq: "handle_retrreq p s = Some (r, s') \<Longrightarrow> loose s s'"
  by (auto simp: handle_retrreq_def loose_handler_simps split: if_splits dest!: loose_dests; blast intro: loose_trans)

lemma loose_handle_retrresp: "handle_retrresp p s = Some (r, s') \<Longrightarrow> loose s s'"
  by (auto simp: handle_retrresp_def loose_handler_simps split: if_splits dest!: loose_dests)

lemma loose_handle_retrdata: "handle_retrdata p s = Some (r, s') \<Longrightarrow> loose s s'"
  by (auto simp: handle_retrdata_def loose_handler_simps split: if_splits dest!: loose_dests)

lemma loose_handle_hb_start: "handle_hb_start p s = Some (r, s') \<Longrightarrow> loose s s'"
  unfolding handle_hb_start_def Let_def
  by (elim bind_eq_SomeE) (auto simp: loose_handler_simps split: if_splits dest!: loose_dests intro: loose_trans)

lemma loose_handle_hb: "handle_hb p s = Some (r, s') \<Longrightarrow> loose s s'"
  by (cases "current_state (con s) = RASTA_CONNECTION_START")
    (auto simp: handle_hb_def loose_handler_simps split: if_splits dest!: loose_dests loose_handle_hb_start)

lemma loose_handle_conreq: "handle_conreq p s = Some s' \<Longrightarrow> loose s s'"
  by (auto simp: handle_conreq_def loose_handler_simps split: if_splits dest!: loose_dests)

lemma loose_handle_conresp: "handle_conresp p s = Some s' \<Longrightarrow> loose s s'"
  by (auto simp: handle_conresp_def loose_handler_simps split: if_splits dest!: loose_dests)

lemma loose_handle_received_packet: "handle_received_packet p s = Some (r, s') \<Longrightarrow> loose s s'"
  by (auto simp: handle_received_packet_def loose_handler_simps split: if_splits
      dest!: loose_handle_retrdata loose_handle_data loose_handle_retrreq loose_handle_retrresp
        loose_handle_discreq loose_handle_hb)

lemma loose_receive: "sr_receive p s = Some (r, s') \<Longrightarrow> loose s s'"
  by (auto simp: sr_receive_def loose_handler_simps split: if_splits
      dest!: loose_handle_conreq loose_handle_conresp loose_handle_received_packet loose_close)

end
