(* ===== verification/Rasta_Events.thy ===== *)
theory Rasta_Events
  imports Rasta_Error_Flag
begin

text \<open>
  The callbacks of \<open>transport/events.c\<close> that the event loop runs: a socket is ready to accept, bytes
  have arrived, the peer has been silent too long, a heartbeat is due. (\<open>data_send_event\<close> is in
  \<open>Rasta_Connection\<close>, next to the code that also calls it directly.) The Boolean result is the
  return value of the callback: true ends the event loop. The second half shows what the callbacks
  keep, whatever bytes arrive.
\<close>

section \<open>Callbacks\<close>

text \<open>A connection from an address that is not configured is closed; the result of \<open>close\<close> is ignored.\<close>

definition channel_accept_event :: "nat \<Rightarrow> rasta_st \<Rightarrow> (bool \<times> rasta_st) option" where
  "channel_accept_event sk s = do {
     ((fd, (addr, port)), s) \<leftarrow> transport_accept s;
     (case find_channel_by_ip_address s addr port of
        Some i \<Rightarrow> Some (False, map_channel i (\<lambda>c. c\<lparr>tc_fd := fd,
          tc_receive_event := enable_fd_event ((tc_receive_event c)\<lparr>ev_fd := fd\<rparr>),
          connected := True, associated_socket := Some sk\<rparr>) s)
      | None \<Rightarrow> let (_, s) = call s in Some (False, s))
   }"

text \<open>
  \<open>receive_event_data\<close>: events of a TCP channel know their channel and no socket, events of a UDP
  socket know their socket and no channel.
\<close>

datatype receive_event_data = From_Socket nat | From_Channel nat

text \<open>Disabling the event of the broken connection.\<close>

definition disable_source :: "receive_event_data \<Rightarrow> rasta_st \<Rightarrow> rasta_st" where
  "disable_source data s =
     (case data of
        From_Socket sk \<Rightarrow> map_socket sk (\<lambda>k. k\<lparr>ts_receive_event := disable_fd_event (ts_receive_event k)\<rparr>) s
      | From_Channel i \<Rightarrow> map_channel i (\<lambda>c. c\<lparr>tc_receive_event := disable_fd_event (tc_receive_event c)\<rparr>) s)"

text \<open>The common part, once the transport channel \<open>i\<close> is known.\<close>

definition receive_on_channel ::
  "receive_event_data \<Rightarrow> nat \<Rightarrow> int \<Rightarrow> bytes \<Rightarrow> rasta_st \<Rightarrow> (bool \<times> rasta_st) option" where
  "receive_on_channel data i len buffer s = do {
     c \<leftarrow> channel_at i s;
     s \<leftarrow> run_channel_diagnostics (tc_id c) s;
     if len \<le> 0 then
       handle_closed_transport (disable_source data (map_channel i (\<lambda>c. c\<lparr>connected := False\<rparr>) s))
     else do {
       (r, s) \<leftarrow> receive_packet (tc_id c) buffer (word_of_int len) s;
       if r then red_f_deliverDeferQueue s else Some (False, s)
     }
   }"

definition channel_receive_event :: "receive_event_data \<Rightarrow> rasta_st \<Rightarrow> (bool \<times> rasta_st) option" where
  "channel_receive_event data s = do {
     ((len, buffer, (addr, port)), s) \<leftarrow> receive_callback (replicate MAX_DEFER_QUEUE_MSG_SIZE 0) s;
     (case data of
        From_Channel i \<Rightarrow> receive_on_channel data i len buffer s
      | From_Socket sk \<Rightarrow>
          (case find_channel_by_ip_address s addr port of
             None \<Rightarrow> Some (False, s)
           | Some i \<Rightarrow> do {
               socket \<leftarrow> socket_at sk s;
               receive_on_channel data i len buffer
                 (map_channel i (\<lambda>c. c\<lparr>tc_fd := ts_fd socket, connected := True\<rparr>) s)
             }))
   }"

definition event_connection_expired :: "rasta_st \<Rightarrow> (bool \<times> rasta_st) option" where
  "event_connection_expired s =
     (if hb_locked (con s) then Some (False, s)
      else do {
        s \<leftarrow> (if current_state (con s) \<in> {RASTA_CONNECTION_UP, RASTA_CONNECTION_RETRREQ, RASTA_CONNECTION_RETRRUN}
              then sr_close_connection RASTA_DISC_REASON_TIMEOUT 0 s else Some s);
        Some (True, map_con (\<lambda>c. c\<lparr>send_heartbeat_event := disable_timed_event (send_heartbeat_event c),
          timeout_event := disable_timed_event (timeout_event c)\<rparr>) s)
      })"

definition heartbeat_send_event :: "rasta_st \<Rightarrow> (bool \<times> rasta_st) option" where
  "heartbeat_send_event s =
     (if hb_locked (con s) then Some (False, s)
      else do {
        s \<leftarrow> (if current_state (con s) \<in> {RASTA_CONNECTION_UP, RASTA_CONNECTION_RETRREQ, RASTA_CONNECTION_RETRRUN}
              then sendHeartbeat False s else Some s);
        Some (False, s)
      })"

text \<open>The handshake timeout only ends the event loop.\<close>

definition channel_timeout_event :: "rasta_st \<Rightarrow> (bool \<times> rasta_st) option" where
  "channel_timeout_event s = Some (True, s)"

section \<open>The invariant of the endpoint\<close>

text \<open>
  Nothing is assumed of the bytes that arrive. They can set the error flag of the parser (an input
  that is too short does), and then serialisation is disabled for good; so what the packets of the
  endpoint look like is part of the invariant only while the flag is not set. (Bytes that take the
  parser out of its buffer end the run: the operation has no result.)
\<close>

definition endpoint_inv :: "rasta_st \<Rightarrow> bool" where
  "endpoint_inv s \<longleftrightarrow> static_ok s \<and> bounded s \<and> (module_error s = RASTA_ERRORS_NONE \<longrightarrow> sr_inv s)"

definition endpoint_ok :: "rasta_st \<Rightarrow> rasta_st \<Rightarrow> bool" where
  "endpoint_ok s s' \<longleftrightarrow> loose s s' \<and> (sr_inv s \<longrightarrow> module_error s' = RASTA_ERRORS_NONE \<longrightarrow> sr_inv s')"

lemma endpoint_ok_refl [simp]: "endpoint_ok s s"
  by (simp add: endpoint_ok_def)

lemma endpoint_ok_trans: "endpoint_ok s t \<Longrightarrow> endpoint_ok t u \<Longrightarrow> endpoint_ok s u"
  by (auto simp: endpoint_ok_def loose_def)

lemma endpoint_ok_inv: "endpoint_ok s s' \<Longrightarrow> endpoint_inv s \<Longrightarrow> endpoint_inv s' \<and> cfg s' = cfg s"
  by (auto simp: endpoint_ok_def endpoint_inv_def loose_def static_ok_def)

text \<open>What the safety and retransmission layer does keeps it.\<close>

lemma endpoint_ok_sr: "sr_ok s s' \<Longrightarrow> loose s s' \<Longrightarrow> endpoint_ok s s'"
  by (simp add: endpoint_ok_def sr_ok_def)

lemma sr_neutral_map_channel: "sr_neutral (map_channel i f)"
  by (simp add: sr_neutral_def sr_inv_def sr_frame_rel_def map_channel_def map_chan_def static_ok_def wire_ok_def receive_side_def)

lemma sr_neutral_map_socket: "sr_neutral (map_socket i f)"
  by (simp add: sr_neutral_def sr_inv_def sr_frame_rel_def map_socket_def static_ok_def wire_ok_def receive_side_def)

lemmas sr_maps = sr_neutral_map_channel [THEN sr_neutral_iff(1)] sr_neutral_map_channel [THEN sr_neutral_iff(2)]
  sr_neutral_map_socket [THEN sr_neutral_iff(1)] sr_neutral_map_socket [THEN sr_neutral_iff(2)]

lemma sr_ok_call: "call s = (r, s') \<Longrightarrow> sr_ok s s'"
  using call_frame sr_ok_quiet by blast

lemma sr_neutral_call: "sr_neutral (\<lambda>s. snd (call s))"
  by (simp add: sr_neutral_def sr_inv_def sr_frame_rel_def call_def sys_call_def static_ok_def wire_ok_def receive_side_def
      env_of_def Let_def split_beta)

lemma sr_neutral_diag_buffer: "sr_neutral (map_chan (\<lambda>c. c\<lparr>diagnostics_packet_buffer := f c\<rparr>))"
  by (simp add: sr_neutral_def sr_inv_def sr_frame_rel_def map_chan_def static_ok_def wire_ok_def receive_side_def)

lemmas sr_env = sr_neutral_call [THEN sr_neutral_iff(1)] sr_neutral_now [THEN sr_neutral_iff(1)]
  sr_neutral_diag_buffer [THEN sr_neutral_iff(1)]

lemma sr_ok_accept: "transport_accept s = Some (x, s') \<Longrightarrow> sr_ok s s'"
  by (cases "transport_lib s")
    (auto simp: transport_accept_def tcp_transport_accept_def udp_transport_accept_def tcp_accept_def
      Option.bind_eq_Some_conv Let_def split_beta sr_env split: if_splits dest: sr_ok_call)

lemma sr_ok_diagnostics: "run_channel_diagnostics i s = Some s' \<Longrightarrow> sr_ok s s'"
  by (auto simp: run_channel_diagnostics_def map_diagnostics_def Option.bind_eq_Some_conv Let_def split_beta
      sr_maps sr_env split: if_splits)

lemma sr_ok_receive_callback: "receive_callback b s = Some (x, s') \<Longrightarrow> sr_ok s s'"
  by (cases "transport_lib s")
    (auto simp: receive_callback_def tcp_receive_def udp_receive_def recvfrom_def Let_def
      split_beta sr_env split: if_splits)

lemma sr_ok_closed_transport: "handle_closed_transport s = Some (r, s') \<Longrightarrow> sr_ok s s'"
proof -
  assume "handle_closed_transport s = Some (r, s')"
  moreover have "sr_neutral (map_con (\<lambda>c. sr_reset_connection (c\<lparr>current_state := RASTA_CONNECTION_CLOSED\<rparr>)))"
    by (rule sr_neutral_map_con) simp_all
  ultimately show ?thesis
    by (auto simp: handle_closed_transport_def sr_closed_connection_def Option.bind_eq_Some_conv
        sr_neutral_iff split: if_splits dest!: sr_ok_channel_close)
qed

lemma sr_ok_disable_source: "sr_ok s (disable_source data t) \<longleftrightarrow> sr_ok s t" "sr_ok (disable_source data s) t \<longleftrightarrow> sr_ok s t"
  by (cases data; simp add: disable_source_def sr_maps)+

text \<open>None of this touches what \<open>loose\<close> sees.\<close>

lemma loose_accept: "transport_accept s = Some (x, s') \<Longrightarrow> loose s s'"
  by (cases "transport_lib s")
    (auto simp: transport_accept_def tcp_transport_accept_def udp_transport_accept_def tcp_accept_def
      Option.bind_eq_Some_conv Let_def split_beta loose_simps split: if_splits dest: loose_now)

lemma loose_diagnostics: "run_channel_diagnostics i s = Some s' \<Longrightarrow> loose s s'"
  by (auto simp: run_channel_diagnostics_def map_diagnostics_def Option.bind_eq_Some_conv Let_def split_beta
      loose_simps split: if_splits)

lemma loose_receive_callback: "receive_callback b s = Some (x, s') \<Longrightarrow> loose s s'"
  by (cases "transport_lib s")
    (auto simp: receive_callback_def tcp_receive_def udp_receive_def recvfrom_def Let_def
      split_beta loose_simps split: if_splits)

lemma loose_closed_transport: "handle_closed_transport s = Some (r, s') \<Longrightarrow> loose s s'"
  by (auto simp: handle_closed_transport_def sr_closed_connection_def Option.bind_eq_Some_conv loose_simps
      split: if_splits dest!: loose_channel_close)

lemma loose_disable_source: "loose s (disable_source data t) \<longleftrightarrow> loose s t" "loose (disable_source data s) t \<longleftrightarrow> loose s t"
  by (cases data; simp add: disable_source_def loose_simps)+

section \<open>The callbacks keep the invariant\<close>

lemma endpoint_ok_error:
  assumes "module_error s \<noteq> RASTA_ERRORS_NONE \<Longrightarrow> e \<noteq> RASTA_ERRORS_NONE"
  shows "endpoint_ok s (s\<lparr>module_error := e\<rparr>)"
  using loose_error [OF assms] by (simp add: endpoint_ok_def sr_inv_def static_ok_def wire_ok_def)

lemma endpoint_ok_receive_one:
  assumes "receive_one i p s = Some (r, s')"
  shows "endpoint_ok s s'"
proof -
  note v = receive_viewD [OF receive_one_effect(1) [OF assms]]
  have "loose s s'" using v receive_one_bag(1,2) [OF assms] by (simp add: loose_def bounded_def)
  moreover have "sr_inv s \<longrightarrow> sr_inv s'" using v sr_upper.inv_cong [of s' s] by simp
  ultimately show ?thesis by (simp add: endpoint_ok_def)
qed

lemma endpoint_ok_handle_received_data: "handle_received_data b i n s = Some (p, s') \<Longrightarrow> endpoint_ok s s'"
  by (auto simp: handle_received_data_def Option.bind_eq_Some_conv split: if_splits
      dest: error_flag_stays(4) intro: endpoint_ok_error)

text \<open>The loop over the bytes that arrived, which may be any.\<close>

lemma endpoint_ok_receive_packet_loop:
  "receive_packet_loop i buffer len pos result s = Some (r, s') \<Longrightarrow> endpoint_ok s s'"
proof (induction i buffer len pos result s rule: receive_packet_loop.induct)
  case (1 i buffer len pos result s)
  show ?case
  proof (cases "len > 0")
    case True
    with 1(2) obtain n p t r1 u where n: "leShortToHost buffer pos = Some n"
      and t: "handle_received_data buffer pos (unat n) s = Some (p, t)" and u: "receive_one i p t = Some (r1, u)"
      and rest: "receive_packet_loop i buffer (len - ucast n) (pos + unat n) (result \<or> r1) u = Some (r, s')"
      by (subst (asm) receive_packet_loop.simps) (auto simp: Option.bind_eq_Some_conv)
    have "endpoint_ok u s'" using 1(1) [OF True n t _ u _ rest] by simp
    with endpoint_ok_handle_received_data [OF t] endpoint_ok_receive_one [OF u] show ?thesis
      by (blast intro: endpoint_ok_trans)
  next
    case False
    with 1(2) show ?thesis by (subst (asm) receive_packet_loop.simps) simp
  qed
qed

lemma endpoint_ok_receive_packet: "receive_packet i buffer len s = Some (r, s') \<Longrightarrow> endpoint_ok s s'"
  by (auto simp: receive_packet_def intro: endpoint_ok_receive_packet_loop)

lemma endpoint_ok_advance: "endpoint_ok s (advance s)"
proof -
  have "loose s (advance s)"
    using defer_q.remove_keeps by (auto simp: loose_def bounded_def advance_def map_chan_def)
  then show ?thesis using sr_upper.inv_advance by (auto simp: endpoint_ok_def)
qed

lemma endpoint_ok_receive: "sr_receive p s = Some (r, s') \<Longrightarrow> endpoint_ok s s'"
  by (intro endpoint_ok_sr sr_ok_receive loose_receive)

lemma endpoint_ok_deliver_next:
  assumes "deliver_next sr_receive s = Some (r, s')"
  shows "endpoint_ok s s'"
proof -
  obtain p b err where b: "rastaModuleToBytes (module_error s) p (hashing_context (chan s)) = Some (b, err)"
    and rest: "deliver_message_to_upper_layer sr_receive b (s\<lparr>module_error := err\<rparr>) \<bind> (\<lambda>(r, s). Some (r, advance s)) = Some (r, s')"
    using assms unfolding deliver_next_def advance_def Let_def by (elim bind_eq_SomeE) auto
  obtain q e t where q: "bytesToRastaPacket err b (hashing_context (chan s)) (red_data (uninit s)) = Some (q, e)"
    and t: "sr_receive q (s\<lparr>module_error := e\<rparr>) = Some (r, t)" and s': "s' = advance t"
    using rest by (auto simp: deliver_message_to_upper_layer_def Option.bind_eq_Some_conv)
  have "endpoint_ok s (s\<lparr>module_error := e\<rparr>)"
    using error_flag_stays(1) [OF b] error_flag_stays(3) [OF q] by (blast intro: endpoint_ok_error)
  with endpoint_ok_receive [OF t] endpoint_ok_advance [of t] show ?thesis
    unfolding s' by (blast intro: endpoint_ok_trans)
qed

lemma endpoint_ok_deliver_loop:
  assumes "deliver_loop sr_receive result s = Some (r, s')"
  shows "endpoint_ok s s'"
proof -
  have "deliver = sr_receive \<longrightarrow> endpoint_ok s (snd x)" if "deliver_loop deliver result s = Some x" for deliver result s x
    using that
  proof (rule deliver_loop.raw_induct [rotated])
    fix loop deliver result s x
    assume IH: "\<And>deliver result s x. loop deliver result s = Some x \<Longrightarrow> deliver = sr_receive \<longrightarrow> endpoint_ok s (snd x)"
      and step: "(if deferqueue_contains (defer_q (chan s)) (seq_rx (chan s)) then
        deliver_next deliver s \<bind> (\<lambda>(r, s). loop deliver (result \<or> r) s) else Some (result, s)) = Some x"
    show "deliver = sr_receive \<longrightarrow> endpoint_ok s (snd x)"
    proof
      assume d: "deliver = sr_receive"
      show "endpoint_ok s (snd x)"
        using step IH [of sr_receive _ _ x] by (auto simp: d Option.bind_eq_Some_conv split: if_splits
            dest!: endpoint_ok_deliver_next intro: endpoint_ok_trans)
    qed
  qed
  from this [OF assms] show ?thesis by simp
qed

lemma endpoint_ok_deliver: "red_f_deliverDeferQueue s = Some (r, s') \<Longrightarrow> endpoint_ok s s'"
  by (auto simp: red_f_deliverDeferQueue_def intro: endpoint_ok_deliver_loop)

lemma endpoint_ok_receive_on_channel:
  assumes "receive_on_channel data i len buffer s = Some (r, s')"
  shows "endpoint_ok s s'"
proof -
  obtain c t where c: "channel_at i s = Some c" and t: "run_channel_diagnostics (tc_id c) s = Some t"
    using assms by (auto simp: receive_on_channel_def Option.bind_eq_Some_conv)
  have st: "endpoint_ok s t" using t by (intro endpoint_ok_sr sr_ok_diagnostics loose_diagnostics)
  have "endpoint_ok t s'"
  proof (cases "len \<le> 0")
    case True
    with assms c t have "handle_closed_transport (disable_source data (map_channel i (\<lambda>c. c\<lparr>connected := False\<rparr>) t)) = Some (r, s')"
      by (simp add: receive_on_channel_def)
    from sr_ok_closed_transport [OF this] loose_closed_transport [OF this] show ?thesis
      by (intro endpoint_ok_sr) (simp_all add: sr_ok_disable_source sr_maps loose_disable_source loose_simps)
  next
    case False
    with assms c t show ?thesis
      by (auto simp: receive_on_channel_def Option.bind_eq_Some_conv split: if_splits
          dest!: endpoint_ok_receive_packet endpoint_ok_deliver intro: endpoint_ok_trans)
  qed
  with st show ?thesis by (rule endpoint_ok_trans)
qed

lemma endpoint_ok_channel_receive_event:
  assumes "channel_receive_event data s = Some (r, s')"
  shows "endpoint_ok s s'"
proof -
  obtain len buffer addr port t where
    t: "receive_callback (replicate MAX_DEFER_QUEUE_MSG_SIZE 0) s = Some ((len, buffer, (addr, port)), t)"
    and rest: "(case data of
        From_Channel i \<Rightarrow> receive_on_channel data i len buffer t
      | From_Socket sk \<Rightarrow>
          (case find_channel_by_ip_address t addr port of
             None \<Rightarrow> Some (False, t)
           | Some i \<Rightarrow> do {
               socket \<leftarrow> socket_at sk t;
               receive_on_channel data i len buffer
                 (map_channel i (\<lambda>c. c\<lparr>tc_fd := ts_fd socket, connected := True\<rparr>) t)
             })) = Some (r, s')"
    using assms unfolding channel_receive_event_def by (elim bind_eq_SomeE) auto
  have moved: "endpoint_ok t s'" if "receive_on_channel data i len buffer (map_channel i f t) = Some (r, s')" for i f
    using endpoint_ok_receive_on_channel [OF that] endpoint_ok_sr [of t "map_channel i f t"]
    by (auto simp: sr_maps loose_simps intro: endpoint_ok_trans)
  have "endpoint_ok t s'"
  proof (cases data)
    case (From_Socket sk)
    with rest moved show ?thesis by (auto simp: Option.bind_eq_Some_conv split: option.splits)
  qed (use rest endpoint_ok_receive_on_channel in auto)
  moreover have "endpoint_ok s t" using t by (intro endpoint_ok_sr sr_ok_receive_callback loose_receive_callback)
  ultimately show ?thesis by (blast intro: endpoint_ok_trans)
qed

lemma sr_ok_channel_accept_event: "channel_accept_event sk s = Some (r, s') \<Longrightarrow> sr_ok s s'"
  by (auto simp: channel_accept_event_def Option.bind_eq_Some_conv Let_def split_beta sr_maps sr_env
      split: option.splits dest!: sr_ok_accept)

lemma sr_ok_timers:
  "event_connection_expired s = Some (r, s') \<Longrightarrow> sr_ok s s'"
  "heartbeat_send_event s = Some (r, s') \<Longrightarrow> sr_ok s s'"
  "channel_timeout_event s = Some (r, s') \<Longrightarrow> sr_ok s s'"
  by (auto simp: event_connection_expired_def heartbeat_send_event_def channel_timeout_event_def handler_simps
      split: if_splits dest!: handler_dests)

lemma loose_channel_accept_event: "channel_accept_event sk s = Some (r, s') \<Longrightarrow> loose s s'"
  by (auto simp: channel_accept_event_def Option.bind_eq_Some_conv Let_def split_beta loose_simps
      split: option.splits dest!: loose_accept)

lemma loose_timers:
  "event_connection_expired s = Some (r, s') \<Longrightarrow> loose s s'"
  "heartbeat_send_event s = Some (r, s') \<Longrightarrow> loose s s'"
  "channel_timeout_event s = Some (r, s') \<Longrightarrow> loose s s'"
  by (auto simp: event_connection_expired_def heartbeat_send_event_def channel_timeout_event_def loose_handler_simps
      split: if_splits dest!: loose_dests)

end
