(* ===== verification/Rasta_Event_System.thy ===== *)
theory Rasta_Event_System
  imports Rasta_State
begin

text \<open>
  The event system, \<open>util/event_system.c\<close>: the doubly linked lists of timed and file descriptor
  events, and the choice of the next timer. The lists are linked cells in an explicit heap; adding
  and removing implement appending to and removing from a list of events (\<open>dll\<close>). The loop itself
  calls the endpoint's callbacks and is in \<open>Rasta_Loop\<close>.
\<close>

section \<open>Linked lists of events\<close>

text \<open>The \<open>prev\<close> and \<open>next\<close> fields of an event, and its \<open>options\<close> (file descriptor events only).\<close>

record event_links =
  ev_prev :: "nat option"
  ev_next :: "nat option"
  ev_options :: int

record event_list =
  first_event :: "nat option"
  last_event :: "nat option"

type_synonym event_heap = "nat \<rightharpoonup> event_links"

definition set_next :: "nat \<Rightarrow> nat option \<Rightarrow> event_heap \<Rightarrow> event_heap option" where
  "set_next e n h = map_option (\<lambda>l. h(e \<mapsto> l\<lparr>ev_next := n\<rparr>)) (h e)"

definition set_prev :: "nat \<Rightarrow> nat option \<Rightarrow> event_heap \<Rightarrow> event_heap option" where
  "set_prev e n h = map_option (\<lambda>l. h(e \<mapsto> l\<lparr>ev_prev := n\<rparr>)) (h e)"

text \<open>\<open>assert\<close> aborts: \<open>None\<close>.\<close>

definition add_timed_event :: "event_heap \<times> event_list \<Rightarrow> nat \<Rightarrow> (event_heap \<times> event_list) option" where
  "add_timed_event sys event = do {
     let (h, ev_sys) = sys;
     links \<leftarrow> h event;
     if ev_prev links \<noteq> None \<or> ev_next links \<noteq> None then None
     else case last_event ev_sys of
       Some l \<Rightarrow> do {
         let h = h(event \<mapsto> links\<lparr>ev_prev := Some l, ev_next := None\<rparr>);
         h \<leftarrow> set_next l (Some event) h;
         Some (h, ev_sys\<lparr>last_event := Some event\<rparr>)
       }
     | None \<Rightarrow> Some (h(event \<mapsto> links\<lparr>ev_next := None, ev_prev := None\<rparr>),
         ev_sys\<lparr>first_event := Some event, last_event := Some event\<rparr>)
   }"

definition remove_timed_event :: "event_heap \<times> event_list \<Rightarrow> nat \<Rightarrow> (event_heap \<times> event_list) option" where
  "remove_timed_event sys event = do {
     let (h, ev_sys) = sys;
     links \<leftarrow> h event;
     let ev_sys = (if first_event ev_sys = Some event then ev_sys\<lparr>first_event := ev_next links\<rparr> else ev_sys);
     let ev_sys = (if last_event ev_sys = Some event then ev_sys\<lparr>last_event := ev_prev links\<rparr> else ev_sys);
     h \<leftarrow> (case ev_prev links of Some p \<Rightarrow> set_next p (ev_next links) h | None \<Rightarrow> Some h);
     h \<leftarrow> (case ev_next links of Some n \<Rightarrow> set_prev n (ev_prev links) h | None \<Rightarrow> Some h);
     Some (h, ev_sys)
   }"

text \<open>The file descriptor list has the same code, with the options of the event.\<close>

definition add_fd_event :: "event_heap \<times> event_list \<Rightarrow> nat \<Rightarrow> int \<Rightarrow> (event_heap \<times> event_list) option" where
  "add_fd_event sys event options = do {
     (h, ev_sys) \<leftarrow> add_timed_event sys event;
     links \<leftarrow> h event;
     Some (h(event \<mapsto> links\<lparr>ev_options := options\<rparr>), ev_sys)
   }"

definition remove_fd_event :: "event_heap \<times> event_list \<Rightarrow> nat \<Rightarrow> (event_heap \<times> event_list) option" where
  "remove_fd_event sys event = do {
     links \<leftarrow> fst sys event;
     if ev_prev links \<noteq> None \<or> ev_next links \<noteq> None then remove_timed_event sys event else None
   }"

section \<open>The lists they implement\<close>

text \<open>The cells \<open>xs\<close> are linked to each other, with \<open>p\<close> before the first and \<open>n\<close> behind the last.\<close>

fun segment :: "event_heap \<Rightarrow> nat option \<Rightarrow> nat list \<Rightarrow> nat option \<Rightarrow> bool" where
  "segment h p [] n = True"
| "segment h p (x # xs) n =
     ((\<exists>o'. h x = Some \<lparr>ev_prev = p, ev_next = (case xs of [] \<Rightarrow> n | y # _ \<Rightarrow> Some y), ev_options = o'\<rparr>) \<and>
      segment h (Some x) xs n)"

definition head_or :: "'a list \<Rightarrow> 'a option \<Rightarrow> 'a option" where
  "head_or xs n = (case xs of [] \<Rightarrow> n | x # _ \<Rightarrow> Some x)"

definition last_or :: "'a list \<Rightarrow> 'a option \<Rightarrow> 'a option" where
  "last_or xs p = (if xs = [] then p else Some (last xs))"

definition dll :: "event_heap \<times> event_list \<Rightarrow> nat list \<Rightarrow> bool" where
  "dll sys xs \<longleftrightarrow> distinct xs \<and> segment (fst sys) None xs None \<and>
     first_event (snd sys) = head_or xs None \<and> last_event (snd sys) = last_or xs None"

lemma segment_append:
  "segment h p (xs @ ys) n \<longleftrightarrow> segment h p xs (head_or ys n) \<and> segment h (last_or xs p) ys n"
  by (induction xs arbitrary: p) (auto simp: head_or_def last_or_def split: list.splits)

lemma segment_cong:
  "\<forall>x \<in> set xs. h' x = h x \<Longrightarrow> segment h' p xs n = segment h p xs n"
  by (induction xs arbitrary: p) auto

text \<open>Changing the link behind the last cell or in front of the first.\<close>

lemma segment_set_next:
  assumes "segment h p xs n" and "distinct xs" and "xs \<noteq> []"
  shows "\<exists>h'. set_next (last xs) m h = Some h' \<and> segment h' p xs m \<and> (\<forall>x. x \<noteq> last xs \<longrightarrow> h' x = h x)"
proof -
  obtain ys y where xs: "xs = ys @ [y]" using assms(3) rev_exhaust by blast
  then obtain o' where y: "h y = Some \<lparr>ev_prev = last_or ys p, ev_next = n, ev_options = o'\<rparr>"
    and ys: "segment h p ys (Some y)" "y \<notin> set ys"
    using assms(1,2) by (auto simp: segment_append head_or_def)
  let ?h = "h(y \<mapsto> \<lparr>ev_prev = last_or ys p, ev_next = m, ev_options = o'\<rparr>)"
  have "segment ?h p ys (Some y)" using ys segment_cong [of ys ?h h] by auto
  then show ?thesis using y by (auto simp: set_next_def xs segment_append head_or_def)
qed

lemma segment_set_prev:
  assumes "segment h p xs n" and "distinct xs" and "xs \<noteq> []"
  shows "\<exists>h'. set_prev (hd xs) m h = Some h' \<and> segment h' m xs n \<and> (\<forall>x. x \<noteq> hd xs \<longrightarrow> h' x = h x)"
proof (cases xs)
  case (Cons y ys)
  then obtain o' where y: "h y = Some \<lparr>ev_prev = p, ev_next = head_or ys n, ev_options = o'\<rparr>"
    and ys: "segment h (Some y) ys n" "y \<notin> set ys"
    using assms(1,2) by (auto simp: head_or_def)
  let ?h = "h(y \<mapsto> \<lparr>ev_prev = m, ev_next = head_or ys n, ev_options = o'\<rparr>)"
  have "segment ?h (Some y) ys n" using ys segment_cong [of ys ?h h] by auto
  then show ?thesis using y Cons by (auto simp: set_prev_def head_or_def)
qed (use assms(3) in simp)

lemma add_timed_event_appends:
  assumes "dll (h, l) xs" and "e \<notin> set xs" and "h e = Some \<lparr>ev_prev = None, ev_next = None, ev_options = o'\<rparr>"
  shows "\<exists>sys. add_timed_event (h, l) e = Some sys \<and> dll sys (xs @ [e])"
proof (cases "xs = []")
  case True
  with assms show ?thesis by (simp add: add_timed_event_def dll_def head_or_def last_or_def)
next
  case False
  let ?h = "h(e \<mapsto> \<lparr>ev_prev = Some (last xs), ev_next = None, ev_options = o'\<rparr>)"
  have "segment ?h None xs None"
    using assms(1,2) segment_cong [of xs ?h h] by (auto simp: dll_def)
  from segment_set_next [OF this _ False, of "Some e"] assms(1) obtain h' where
    h': "set_next (last xs) (Some e) ?h = Some h'" "segment h' None xs (Some e)"
      "\<forall>x. x \<noteq> last xs \<longrightarrow> h' x = ?h x"
    by (auto simp: dll_def)
  have "h' e = ?h e" using h'(3) False assms(2) last_in_set [of xs] by metis
  then have "segment h' (Some (last xs)) [e] None" by simp
  with h' False assms show ?thesis
    by (auto simp: add_timed_event_def dll_def head_or_def last_or_def segment_append split: list.splits)
qed

lemma segment_hd:
  "segment h p xs n \<Longrightarrow> xs \<noteq> [] \<Longrightarrow> \<exists>o'. h (hd xs) = Some \<lparr>ev_prev = p, ev_next = head_or (tl xs) n, ev_options = o'\<rparr>"
  by (cases xs) (auto simp: head_or_def)

lemma remove_timed_event_removes:
  assumes "dll (h, l) (xs @ e # ys)"
  shows "\<exists>sys. remove_timed_event (h, l) e = Some sys \<and> dll sys (xs @ ys)"
proof -
  have seg: "segment h None xs (Some e)" "segment h (Some e) ys None" and d: "distinct (xs @ e # ys)"
    and fl: "first_event l = head_or xs (Some e)" "last_event l = last_or ys (Some e)"
    using assms by (auto simp: dll_def segment_append head_or_def last_or_def split: list.splits)
  have "\<exists>o'. h e = Some \<lparr>ev_prev = last_or xs None, ev_next = head_or ys None, ev_options = o'\<rparr>"
    using assms by (auto simp: dll_def segment_append head_or_def)
  then obtain o' where e: "h e = Some \<lparr>ev_prev = last_or xs None, ev_next = head_or ys None, ev_options = o'\<rparr>" ..
  obtain h1 where h1: "(case last_or xs None of Some p \<Rightarrow> set_next p (head_or ys None) h | None \<Rightarrow> Some h) = Some h1"
    "segment h1 None xs (head_or ys None)" "\<forall>x. x \<notin> set xs \<longrightarrow> h1 x = h x"
  proof (cases "xs = []")
    case True
    then show ?thesis using that by (simp add: last_or_def)
  next
    case False
    from segment_set_next [OF seg(1) _ False, of "head_or ys None"] d obtain h' where
      "set_next (last xs) (head_or ys None) h = Some h'" "segment h' None xs (head_or ys None)"
      "\<forall>x. x \<noteq> last xs \<longrightarrow> h' x = h x"
      by auto
    with False show ?thesis by (intro that [of h']) (simp_all add: last_or_def, metis last_in_set)
  qed
  have "\<forall>x \<in> set ys. h1 x = h x" using h1(3) d by auto
  from segment_cong [OF this] have seg1: "segment h1 (Some e) ys None" using seg(2) by simp
  obtain h2 where h2: "(case head_or ys None of Some n \<Rightarrow> set_prev n (last_or xs None) h1 | None \<Rightarrow> Some h1) = Some h2"
    "segment h2 (last_or xs None) ys None" "\<forall>x. x \<notin> set ys \<longrightarrow> h2 x = h1 x"
  proof (cases ys)
    case Nil
    then show ?thesis using that by (simp add: head_or_def)
  next
    case (Cons y zs)
    with segment_set_prev [OF seg1, of "last_or xs None"] d obtain h' where
      "set_prev y (last_or xs None) h1 = Some h'" "segment h' (last_or xs None) ys None"
      "\<forall>x. x \<noteq> y \<longrightarrow> h' x = h1 x"
      by auto
    with Cons show ?thesis by (intro that [of h']) (auto simp: head_or_def)
  qed
  have "\<forall>x \<in> set xs. h2 x = h1 x" using h2(3) d by auto
  from segment_cong [OF this] have "segment h2 None xs (head_or ys None)" using h1(2) by simp
  then have "segment h2 None (xs @ ys) None" using h2(2) by (simp add: segment_append)
  moreover have "(if first_event l = Some e then head_or ys None else first_event l) = head_or (xs @ ys) None"
    using d by (cases xs) (auto simp: fl head_or_def)
  moreover have "(if last_event l = Some e then last_or xs None else last_event l) = last_or (xs @ ys) None"
    using d by (cases ys rule: rev_cases) (auto simp: fl last_or_def)
  moreover have "remove_timed_event (h, l) e = Some (h2,
      l\<lparr>first_event := (if first_event l = Some e then head_or ys None else first_event l),
        last_event := (if last_event l = Some e then last_or xs None else last_event l)\<rparr>)"
    by (simp add: remove_timed_event_def e h1(1) h2(1) cong: option.case_cong)
  ultimately show ?thesis using d by (simp add: dll_def)
qed

section \<open>The next timer\<close>

text \<open>
  The loop over the timed events: the time to wait and the index of the event so far. The comparison
  of the deadline is on 64-bit words and wraps.
\<close>

fun calc_next_loop :: "nat \<Rightarrow> timed_event list \<Rightarrow> u64 \<Rightarrow> u64 \<times> nat option \<Rightarrow> u64 \<times> nat option" where
  "calc_next_loop i [] cur_time acc = acc"
| "calc_next_loop i (current # rest) cur_time (time_to_wait, next_event) =
     (if te_enabled current then
        let continue_at = last_call current + te_interval current
        in if continue_at \<le> cur_time then (0, Some i)
           else
             let new_time_to_wait = continue_at - cur_time
             in calc_next_loop (Suc i) rest cur_time
                  (if new_time_to_wait < time_to_wait then (new_time_to_wait, Some i)
                   else (time_to_wait, next_event))
      else calc_next_loop (Suc i) rest cur_time (time_to_wait, next_event))"

definition calc_next_timed_event :: "timed_event list \<Rightarrow> u64 \<Rightarrow> u64 \<times> nat option" where
  "calc_next_timed_event timed_events cur_time = calc_next_loop 0 timed_events cur_time (-1, None)"

text \<open>The highest descriptor plus one.\<close>

definition get_max_nfds :: "int list \<Rightarrow> int" where
  "get_max_nfds fds = fold (\<lambda>fd nfds. if nfds < fd then fd else nfds) fds 0 + 1"

definition FD_SETSIZE :: int where
  "FD_SETSIZE = 1024"

text \<open>How long an enabled event still has to wait, \<open>0\<close> when it is due.\<close>

definition remaining :: "u64 \<Rightarrow> timed_event \<Rightarrow> u64" where
  "remaining t e = (let d = last_call e + te_interval e in if d \<le> t then 0 else d - t)"

lemma calc_next_loop_spec:
  "calc_next_loop i es t (w, k) = (w', k') \<Longrightarrow>
   w' \<le> w \<and> (\<forall>e \<in> set es. te_enabled e \<longrightarrow> w' \<le> remaining t e) \<and>
   ((w', k') = (w, k) \<or> (\<exists>j < length es. k' = Some (i + j) \<and> te_enabled (es ! j) \<and> w' = remaining t (es ! j)))"
proof (induction es arbitrary: i w k)
  case (Cons e es)
  show ?case
  proof (cases "te_enabled e \<and> remaining t e = 0")
    case True
    then have "last_call e + te_interval e \<le> t" by (auto simp: remaining_def Let_def split: if_splits)
    with True Cons.prems have w': "w' = 0" "k' = Some i" by (auto simp: Let_def)
    then show ?thesis using True by (auto intro!: exI [of _ 0])
  next
    case False
    define acc where "acc = (if te_enabled e \<and> remaining t e < w then (remaining t e, Some i) else (w, k))"
    have rec: "calc_next_loop (Suc i) es t acc = (w', k')"
      using False Cons.prems by (auto simp: acc_def remaining_def Let_def split: if_splits)
    from Cons.IH [of "Suc i" "fst acc" "snd acc"] rec
    have IH: "w' \<le> fst acc" "\<forall>e \<in> set es. te_enabled e \<longrightarrow> w' \<le> remaining t e"
      "(w', k') = acc \<or> (\<exists>j < length es. k' = Some (Suc i + j) \<and> te_enabled (es ! j) \<and> w' = remaining t (es ! j))"
      by auto
    have w: "w' \<le> w" using IH(1) by (auto simp: acc_def split: if_splits)
    have e: "te_enabled e \<longrightarrow> w' \<le> remaining t e" using IH(1) by (auto simp: acc_def split: if_splits)
    have "(w', k') = (w, k) \<or>
      (\<exists>j < length (e # es). k' = Some (i + j) \<and> te_enabled ((e # es) ! j) \<and> w' = remaining t ((e # es) ! j))"
      using IH(3)
    proof
      assume "(w', k') = acc"
      then show ?thesis by (auto simp: acc_def intro!: exI [of _ 0] split: if_splits)
    next
      assume "\<exists>j < length es. k' = Some (Suc i + j) \<and> te_enabled (es ! j) \<and> w' = remaining t (es ! j)"
      then obtain j where "j < length es" "k' = Some (Suc i + j)" "te_enabled (es ! j)" "w' = remaining t (es ! j)"
        by blast
      then show ?thesis by (intro disjI2 exI [of _ "Suc j"]) simp
    qed
    with w e IH(2) show ?thesis by simp
  qed
qed simp

lemma remove_fd_event_alone:
  assumes "dll (h, l) xs" and "e \<in> set xs"
  shows "remove_fd_event (h, l) e = None \<longleftrightarrow> xs = [e]"
proof -
  obtain ys zs where xs: "xs = ys @ e # zs" using assms(2) split_list by metis
  then obtain o' where e: "h e = Some \<lparr>ev_prev = last_or ys None, ev_next = head_or zs None, ev_options = o'\<rparr>"
    using assms(1) by (auto simp: dll_def segment_append head_or_def)
  obtain sys where "remove_timed_event (h, l) e = Some sys"
    using remove_timed_event_removes assms(1) xs by blast
  with e xs show ?thesis
    by (auto simp: remove_fd_event_def last_or_def head_or_def Cons_eq_append_conv split: list.splits)
qed


definition example_links :: event_heap where
  "example_links = [1 \<mapsto> \<lparr>ev_prev = None, ev_next = Some 2, ev_options = 1\<rparr>,
     2 \<mapsto> \<lparr>ev_prev = Some 1, ev_next = None, ev_options = 1\<rparr>]"


text \<open>
  The timer the loop chooses is an enabled one with the least time left, \<open>0\<close> when one is due; when
  it chooses none, no enabled timer is closer than the largest 64-bit time.
\<close>

theorem next_timer_is_earliest:
  assumes "calc_next_timed_event es t = (w, k)"
  shows "(\<forall>e \<in> set es. te_enabled e \<longrightarrow> w \<le> remaining t e) \<and>
    (case k of
       None \<Rightarrow> w = -1
     | Some j \<Rightarrow> j < length es \<and> te_enabled (es ! j) \<and> w = remaining t (es ! j))"
  using calc_next_loop_spec [of 0 es t "-1" None w k] assms
  by (auto simp: calc_next_timed_event_def split: option.splits)

definition example_timers :: "timed_event list" where
  "example_timers = [\<lparr>te_interval = 100, last_call = 1000, te_enabled = True\<rparr>,
     \<lparr>te_interval = 10, last_call = 1000, te_enabled = False\<rparr>,
     \<lparr>te_interval = 50, last_call = 1000, te_enabled = True\<rparr>]"

theorem next_timer_is_earliest_witness:
  "calc_next_timed_event example_timers 1020 = (30, Some 2) \<and> remaining 1020 (example_timers ! 2) = 30 \<and>
   30 \<le> remaining 1020 (example_timers ! 0)"
proof -
  have c: "calc_next_timed_event example_timers 1020 = (30, Some 2)" by code_simp
  have "example_timers ! 0 \<in> set example_timers" "te_enabled (example_timers ! 0)"
    by (simp_all add: example_timers_def)
  with c next_timer_is_earliest [OF c] show ?thesis by simp
qed

end
