(* ===== verification/Rasta_Loop.thy ===== *)
theory Rasta_Loop
  imports Rasta_Events Rasta_Event_System
begin

text \<open>
  The event loop of \<open>util/event_system.c\<close> on one endpoint and the library interface: \<open>rasta_init.c\<close>
  (allocation and initialisation) and \<open>rasta.c\<close>. The events are those the library registers itself,
  in the order it registers them. The loop runs until a callback asks it to stop, and may run
  forever: it is a \<open>partial_function\<close>.
\<close>

section \<open>The registered events\<close>

datatype timer = Send_Timer | Handshake_Timer | Timeout_Timer | Heartbeat_Timer

definition timers :: "timer list" where
  "timers = [Send_Timer, Handshake_Timer, Timeout_Timer, Heartbeat_Timer]"

fun timer_event :: "timer \<Rightarrow> rasta_connection \<Rightarrow> timed_event" where
  "timer_event Send_Timer c = send_event c"
| "timer_event Handshake_Timer c = handshake_timeout_event c"
| "timer_event Timeout_Timer c = timeout_event c"
| "timer_event Heartbeat_Timer c = send_heartbeat_event c"

fun map_timer :: "timer \<Rightarrow> (timed_event \<Rightarrow> timed_event) \<Rightarrow> rasta_connection \<Rightarrow> rasta_connection" where
  "map_timer Send_Timer f c = c\<lparr>send_event := f (send_event c)\<rparr>"
| "map_timer Handshake_Timer f c = c\<lparr>handshake_timeout_event := f (handshake_timeout_event c)\<rparr>"
| "map_timer Timeout_Timer f c = c\<lparr>timeout_event := f (timeout_event c)\<rparr>"
| "map_timer Heartbeat_Timer f c = c\<lparr>send_heartbeat_event := f (send_heartbeat_event c)\<rparr>"

text \<open>The callback of a timer.\<close>

fun fire_timer :: "timer \<Rightarrow> rasta_st \<Rightarrow> (bool \<times> rasta_st) option" where
  "fire_timer Send_Timer s = data_send_event s"
| "fire_timer Handshake_Timer s = channel_timeout_event s"
| "fire_timer Timeout_Timer s = event_connection_expired s"
| "fire_timer Heartbeat_Timer s = heartbeat_send_event s"

text \<open>Sockets register an accept (TCP) or a receive event (UDP), then each channel a receive event.\<close>

datatype fd_source = Accept nat | Receive receive_event_data

definition fd_sources :: "rasta_st \<Rightarrow> fd_source list" where
  "fd_sources s =
     map (case transport_lib s of TCP \<Rightarrow> Accept | UDP \<Rightarrow> Receive \<circ> From_Socket)
       [0..<length (transport_sockets (mux s))] @
     map (Receive \<circ> From_Channel) [0..<length (transport_channels (chan s))]"

fun source_event :: "fd_source \<Rightarrow> rasta_st \<Rightarrow> fd_event option" where
  "source_event (Accept k) s = map_option accept_event (socket_at k s)"
| "source_event (Receive (From_Socket k)) s = map_option ts_receive_event (socket_at k s)"
| "source_event (Receive (From_Channel i)) s = map_option tc_receive_event (channel_at i s)"

fun fire_source :: "fd_source \<Rightarrow> rasta_st \<Rightarrow> (bool \<times> rasta_st) option" where
  "fire_source (Accept k) s = channel_accept_event k s"
| "fire_source (Receive d) s = channel_receive_event d s"

section \<open>The loop\<close>

text \<open>
  The loop of \<open>event_system_sleep\<close> over the events: \<open>ready\<close> is the set \<open>on_readable\<close>; the library's
  events are never put into the other two sets. A negative descriptor in \<open>FD_SET\<close> or \<open>FD_ISSET\<close> is
  out of bounds.
\<close>

fun fire_sources :: "fd_source list \<Rightarrow> int list \<Rightarrow> int \<Rightarrow> rasta_st \<Rightarrow> (int \<times> rasta_st) option" where
  "fire_sources [] ready result s = Some (result, s)"
| "fire_sources (src # srcs) ready result s = do {
     current \<leftarrow> source_event src s;
     if ev_enabled current \<and> ev_fd current < 0 then None
     else if ev_enabled current \<and> ev_fd current \<in> set ready then do {
       (r, s) \<leftarrow> fire_source src s;
       if r then Some (-1, s) else fire_sources srcs ready result s
     }
     else fire_sources srcs ready result s
   }"

text \<open>The time to wait only reaches \<open>select\<close>.\<close>

definition event_system_sleep :: "rasta_st \<Rightarrow> (int \<times> rasta_st) option" where
  "event_system_sleep s = do {
     let events = List.map_filter (\<lambda>src. source_event src s) (fd_sources s);
     if get_max_nfds (map ev_fd events) \<ge> FD_SETSIZE then Some (-1, s)
     else do {
       let watched = map ev_fd (filter ev_enabled events);
       if list_ex (\<lambda>fd. fd < 0) watched then None
       else do {
         let ready = filter (\<lambda>fd. fd \<in> set watched) (readable (net s) (n_calls (net s)));
         let (result, s) = call s;
         if result = -1 then Some (-1, s) else fire_sources (fd_sources s) ready result s
       }
     }
   }"

text \<open>The end of the loop body: fire the timer and note when.\<close>

definition fire_next :: "nat option \<Rightarrow> u64 \<Rightarrow> rasta_st \<Rightarrow> (bool \<times> rasta_st) option" where
  "fire_next next_event t s = do {
     k \<leftarrow> next_event;
     (r, s) \<leftarrow> fire_timer (timers ! k) s;
     if r then Some (True, s)
     else Some (False, map_con (map_timer (timers ! k) (\<lambda>e. e\<lparr>last_call := t\<rparr>)) s)
   }"

text \<open>One iteration; true when the loop ends. The largest 64-bit time stands for no timer.\<close>

definition event_loop_body :: "rasta_st \<Rightarrow> (bool \<times> rasta_st) option" where
  "event_loop_body s = do {
     let (cur_time, s) = now_ns s;
     let (time_to_wait, next_event) = calc_next_timed_event (map (\<lambda>t. timer_event t (con s)) timers) cur_time;
     if time_to_wait = -1 then do {
       (result, s) \<leftarrow> event_system_sleep s;
       Some (result = -1, s)
     }
     else if time_to_wait \<noteq> 0 then do {
       (result, s) \<leftarrow> event_system_sleep s;
       if result = -1 then Some (True, s)
       else if result \<ge> 0 then Some (False, s)
       else fire_next next_event (cur_time + time_to_wait) s
     }
     else fire_next next_event (cur_time + time_to_wait) s
   }"

partial_function (option) event_loop :: "rasta_st \<Rightarrow> rasta_st option" where
  "event_loop s = do {
     (stop, s) \<leftarrow> event_loop_body s;
     if stop then Some s else event_loop s
   }"

definition event_system_start :: "rasta_st \<Rightarrow> rasta_st option" where
  "event_system_start s =
     (let (cur_time, s) = now_ns s
      in event_loop (map_con (\<lambda>c. fold (\<lambda>t. map_timer t (\<lambda>e. e\<lparr>last_call := cur_time\<rparr>)) timers c) s))"

section \<open>Initialisation\<close>

definition zero_timed_event :: timed_event where
  "zero_timed_event = \<lparr>te_interval = 0, last_call = 0, te_enabled = False\<rparr>"

text \<open>The zeroed connection; zero is \<open>RASTA_CONNECTION_CLOSED\<close> and \<open>RASTA_ROLE_CLIENT\<close>.\<close>

definition zero_connection :: rasta_connection where
  "zero_connection =
     \<lparr>is_new = False, handshake_timeout_event = zero_timed_event, send_heartbeat_event = zero_timed_event,
      timeout_event = zero_timed_event, send_event = zero_timed_event, hb_locked = False,
      current_state = RASTA_CONNECTION_CLOSED, fifo_send = queue_init 0, fifo_receive = queue_init 0,
      connected_recv_buffer_size = 0, role = RASTA_ROLE_CLIENT, sn_t = 0, sn_r = 0, sn_i = 0, cs_t = 0,
      cs_r = 0, ts_r = 0, cts_r = 0, t_i = 0, my_id = 0, remote_id = 0, network_id = 0,
      received_diagnostic_message_count = 0, diagnostic_intervals = [], fifo_retransmission = queue_init 0,
      errors = \<lparr>safety = 0, address = 0, type_errors = 0, sn_errors = 0, cs_errors = 0\<rparr>\<rparr>"

definition zero_transport_socket :: rasta_transport_socket where
  "zero_transport_socket = \<lparr>ts_id = 0, ts_fd = 0, accept_event = \<lparr>ev_fd = 0, ev_enabled = False\<rparr>,
     ts_receive_event = \<lparr>ev_fd = 0, ev_enabled = False\<rparr>\<rparr>"

fun create_sockets_loop :: "nat list \<Rightarrow> rasta_st \<Rightarrow> rasta_st option" where
  "create_sockets_loop [] s = Some s"
| "create_sockets_loop (i # is) s = do { s \<leftarrow> transport_create_socket i i s; create_sockets_loop is s }"

definition redundancy_mux_allocate_channels ::
  "(nat \<Rightarrow> rasta_redundancy_packet_wrapper list) \<Rightarrow> rasta_st \<Rightarrow> rasta_st option" where
  "redundancy_mux_allocate_channels junk s = do {
     s \<leftarrow> (if length (connections (redundancy (cfg s))) > 0 then
            create_sockets_loop [0..<port_count (mux s)] (s\<lparr>mux := (mux s)\<lparr>transport_sockets :=
              replicate (port_count (mux s)) zero_transport_socket\<rparr>\<rparr>)
          else Some s);
     if length (connections (redundancy_remote (cfg s))) = port_count (mux s) then do {
       channel \<leftarrow> redundancy_channel_alloc junk (cfg s) (chan s);
       Some (s\<lparr>chan := channel\<rparr>)
     }
     else None
   }"

definition redundancy_mux_alloc ::
  "(nat \<Rightarrow> rasta_redundancy_packet_wrapper list) \<Rightarrow> rasta_st \<Rightarrow> rasta_st option" where
  "redundancy_mux_alloc junk s = do {
     let s = s\<lparr>mux := (mux s)\<lparr>port_count := length (connections (redundancy (cfg s)))\<rparr>\<rparr>;
     ctx \<leftarrow> configured_hashing (sending (cfg s)) (sr_hashing_context (mux s));
     redundancy_mux_allocate_channels junk (s\<lparr>mux := (mux s)\<lparr>sr_hashing_context := ctx\<rparr>\<rparr>)
   }"

text \<open>The handshake timeout is passed as an \<open>int\<close>, which is extended with its sign.\<close>

definition init_handshake_timeout_event :: "u32 \<Rightarrow> timed_event" where
  "init_handshake_timeout_event channel_timeout_ms =
     zero_timed_event\<lparr>te_interval := scast channel_timeout_ms * NS_PER_MS\<rparr>"

definition init_connection_timeout_event :: "rasta_config_info \<Rightarrow> timed_event" where
  "init_connection_timeout_event config =
     zero_timed_event\<lparr>te_interval := ucast (t_max (sending config)) * NS_PER_MS\<rparr>"

definition init_send_heartbeat_event :: "rasta_config_info \<Rightarrow> timed_event" where
  "init_send_heartbeat_event config =
     zero_timed_event\<lparr>te_interval := ucast (t_h (sending config)) * NS_PER_MS\<rparr>"

definition init_connection_events :: "rasta_config_info \<Rightarrow> rasta_connection \<Rightarrow> rasta_connection" where
  "init_connection_events config c =
     c\<lparr>handshake_timeout_event := init_handshake_timeout_event (t_max (sending config)),
       timeout_event := init_connection_timeout_event config,
       send_heartbeat_event := init_send_heartbeat_event config\<rparr>"

definition IO_INTERVAL :: u64 where
  "IO_INTERVAL = 10"

text \<open>The connection that \<open>rasta_lib_init_configuration\<close> sets up.\<close>

definition initial_connection :: "rasta_config_info \<Rightarrow> rasta_connection" where
  "initial_connection config =
     init_connection_events config ((sr_reset_connection zero_connection)\<lparr>
       remote_id := ucast (rasta_id_remote (general config)), my_id := ucast (rasta_id (general config)),
       network_id := ucast (rasta_network (general config)),
       send_event := zero_timed_event\<lparr>te_interval := IO_INTERVAL * NS_PER_MS\<rparr>,
       fifo_retransmission := queue_init (max_retransmission_queue_size config),
       fifo_send := queue_init (2 * max_packet (sending config)),
       fifo_receive := queue_init (max_recvqueue_size config)\<rparr>)"

text \<open>
  \<open>blank\<close> holds what is there before: the environment, the linked library, the contents of fresh
  memory and the library's error variables.
\<close>

definition rasta_lib_init_configuration ::
  "(nat \<Rightarrow> rasta_redundancy_packet_wrapper list) \<Rightarrow> rasta_config_info \<Rightarrow> rasta_st \<Rightarrow> rasta_st option" where
  "rasta_lib_init_configuration junk config blank = do {
     let s = blank\<lparr>cfg := config, con := zero_connection,
       mux := (mux blank)\<lparr>port_count := 0, transport_sockets := []\<rparr>\<rparr>;
     s \<leftarrow> redundancy_mux_alloc junk s;
     Some (s\<lparr>con := initial_connection config\<rparr>)
   }"

section \<open>The library interface\<close>

definition rasta_bind :: "rasta_st \<Rightarrow> (bool \<times> rasta_st) option" where
  "rasta_bind s = redundancy_mux_bind s"

definition rasta_listen :: "rasta_st \<Rightarrow> rasta_st option" where
  "rasta_listen s = sr_listen s"

text \<open>The Boolean says whether a connection is returned.\<close>

definition rasta_accept :: "rasta_st \<Rightarrow> (bool \<times> rasta_st) option" where
  "rasta_accept s = do {
     s \<leftarrow> event_system_start (redundancy_mux_init s);
     Some (if is_new (con s) then (True, map_con (\<lambda>c. c\<lparr>is_new := False\<rparr>) s) else (False, s))
   }"

definition sr_connect :: "rasta_st \<Rightarrow> (bool \<times> rasta_st) option" where
  "sr_connect s = do {
     (started, s) \<leftarrow> sr_connect_start s;
     if started then do {
       s \<leftarrow> event_system_start s;
       sr_connect_finish s
     }
     else Some (False, s)
   }"

definition rasta_connect :: "rasta_st \<Rightarrow> (bool \<times> rasta_st) option" where
  "rasta_connect s = sr_connect s"

partial_function (option) recv_wait :: "rasta_st \<Rightarrow> rasta_st option" where
  "recv_wait s =
     (if current_state (con s) = RASTA_CONNECTION_UP \<and> sr_recv_queue_item_count (con s) = 0
      then do { s \<leftarrow> event_system_start s; recv_wait s }
      else Some s)"

text \<open>The result is -1 or the number of bytes, with the bytes written to the caller's buffer.\<close>

definition rasta_recv :: "nat \<Rightarrow> rasta_st \<Rightarrow> ((int \<times> bytes) \<times> rasta_st) option" where
  "rasta_recv len s = do {
     s \<leftarrow> recv_wait s;
     if current_state (con s) \<noteq> RASTA_CONNECTION_UP then Some ((-1, []), s)
     else case queue_pop (fifo_receive (con s)) of
       (None, _) \<Rightarrow> None
     | (Some elem, q) \<Rightarrow>
         let received_len = (if len < length elem then len else length elem)
         in Some ((int received_len, take received_len elem), map_con (\<lambda>c. c\<lparr>fifo_receive := q\<rparr>) s)
   }"

definition rasta_send :: "bytes \<Rightarrow> rasta_st \<Rightarrow> (int \<times> rasta_st) option" where
  "rasta_send buf s = sr_send [buf] s"

definition rasta_disconnect :: "rasta_st \<Rightarrow> rasta_st option" where
  "rasta_disconnect s = sr_disconnect s"

text \<open>The queues are emptied and freed, with the rest of the endpoint.\<close>

definition rasta_cleanup :: "rasta_st \<Rightarrow> rasta_st option" where
  "rasta_cleanup s = do {
     s \<leftarrow> sr_cleanup s;
     Some (map_con (\<lambda>c. c\<lparr>fifo_retransmission := queue_init 0, fifo_send := queue_init 0,
       fifo_receive := queue_init 0\<rparr>) s)
   }"

end
