(* ===== verification/Rasta_Delivery.thy ===== *)
theory Rasta_Delivery
  imports Rasta_Invariant Rasta_Framing
begin

text \<open>
  What the redundancy layer promises, on the endpoint's own safety and retransmission layer
  (the interpretation \<open>sr_upper\<close>): the delivery loop ends, what it hands over is a gapless prefix of
  the peer's stream and in the end all of it, a packet goes out once on every connected channel and
  arrives as the packet it was, and the limits of the 32-bit numbers on the wire.
\<close>

section \<open>The example endpoint satisfies the invariant\<close>

lemma example_sr_inv: "sr_inv example_st"
proof -
  have "data_frame plain_ctx (sr_frame plain_ctx (example_data\<lparr>sequence_number := 4\<rparr>))
      (example_data\<lparr>sequence_number := 4\<rparr>) [[65]]"
    using example_data_wf by (simp add: data_frame_def packet_wf_def)
      (simp add: example_data_def hostShortTole_def)
  then have "\<exists>p ms. data_frame plain_ctx (sr_frame plain_ctx (example_data\<lparr>sequence_number := 4\<rparr>)) p ms"
    by blast
  then show ?thesis
    by (simp add: sr_inv_def static_ok_def wire_ok_def example_defs message_fits_def queue_invar_def crc_len_def
        crc_init_opt_b_def)
qed

lemma example_st_queue: "dq_invar (defer_q (chan example_st))" "dq_bag (defer_q (chan example_st)) = {#}"
  by (simp_all add: example_defs dq_invar_def dq_bag_def live_def)

text \<open>Packets on which the layer above only counts an address error.\<close>

definition stray :: "u32 \<Rightarrow> RastaRedundancyPacket" where
  "stray n = (example_red n)\<lparr>red_data := example_data\<lparr>receiver_id := 0x99\<rparr>\<rparr>"

lemma receive_one_returns:
  assumes "i < length (transport_channels (chan s))"
  shows "\<exists>r s'. receive_one i p s = Some (r, s') \<and>
    length (transport_channels (chan s')) = length (transport_channels (chan s))"
  using assms
  by (auto simp: receive_one_def red_f_receiveData_def channel_at_def Let_def late_packet_diagnostics_def
      add_deferred_packet_def add_diagnostics_packet_def map_diagnostics_def map_channel_def map_chan_def split_beta)

lemma receive_all_returns:
  assumes "i < length (transport_channels (chan s))"
  shows "\<exists>r s'. receive_all i ps s = Some (r, s')"
  using assms
proof (induction ps arbitrary: s)
  case (Cons p ps)
  obtain r t where t: "receive_one i p s = Some (r, t)" "i < length (transport_channels (chan t))"
    using receive_one_returns [OF Cons.prems, of p] Cons.prems by auto
  with Cons.IH [OF t(2)] show ?case by auto
qed auto

lemma deliver_run_stray:
  assumes "\<forall>p \<in> set ps. p = redelivered plain_ctx (example_data\<lparr>receiver_id := 0x99\<rparr>)" and "my_id (con s) = 0x60"
  shows "\<exists>r s'. deliver_run sr_receive ps s = Some (r, s')"
  using assms
proof (induction ps arbitrary: s)
  case (Cons p ps)
  define t where "t = advance (map_errors (\<lambda>e. e\<lparr>address := address e + 1\<rparr>) s)"
  have "sr_receive p s = Some (False, map_errors (\<lambda>e. e\<lparr>address := address e + 1\<rparr>) s)"
    using Cons.prems by (simp add: sr_receive_def redelivered_def example_data_def sr_message_authentic_def
        RASTA_TYPE_DATA_def RASTA_TYPE_CONNREQ_def RASTA_TYPE_CONNRESP_def)
  moreover have "my_id (con t) = 0x60"
    using Cons.prems by (simp add: t_def advance_def map_errors_def map_con_def map_chan_def)
  with Cons.IH [of t] Cons.prems(1) have "\<exists>r s'. deliver_run sr_receive ps t = Some (r, s')" by simp
  ultimately show ?case by (auto simp: t_def)
qed auto

section \<open>Properties\<close>

text \<open>
  C11: The loop of \<open>red_f_deliverDeferQueue\<close>, which runs as long as the queue holds the next packet,
  ends after at most as many rounds as the queue has packets: it is the finite run over the packets
  numbered \<open>seq_rx\<close>, \<open>seq_rx + 1\<close>, \dots{} without a gap, each handed to \<open>sr_receive\<close> once and in this
  order.
\<close>

theorem deliverDeferQueue_terminates:
  assumes "sr_inv s" and "dq_invar (defer_q (chan s))"
    and "\<forall>x \<in># dq_bag (defer_q (chan s)). packet_wf (hashing_context (chan s)) (red_data (fst x))"
  shows "red_f_deliverDeferQueue s =
      deliver_run sr_receive (map (redelivered (hashing_context (chan s)) \<circ> red_data)
        (in_order (defer_q (chan s)) (seq_rx (chan s)))) s \<and>
    length (in_order (defer_q (chan s)) (seq_rx (chan s))) \<le> dq_count (defer_q (chan s)) \<and>
    map packet_key (in_order (defer_q (chan s)) (seq_rx (chan s))) =
      map (\<lambda>k. seq_rx (chan s) + of_nat k) [0..<length (in_order (defer_q (chan s)) (seq_rx (chan s)))]"
proof -
  let ?q = "defer_q (chan s)" and ?n = "seq_rx (chan s)"
  note facts = in_order_facts [OF assms(2), of ?n]
  have "dq_count ?q = size (mset (in_order ?q ?n) + image_mset fst (dq_bag (rest_of ?q ?n)))"
    using facts size_dq_bag [OF assms(2)] by (metis size_image_mset)
  then show ?thesis
    using sr_upper.deliver_loop_run [OF assms, of False] facts
    by (simp add: red_f_deliverDeferQueue_def bind_split)
qed

theorem deliverDeferQueue_terminates_witness:
  "red_f_deliverDeferQueue example_st = deliver_run sr_receive [] example_st"
proof -
  have "in_order (defer_q (chan example_st)) (seq_rx (chan example_st)) = []"
    by (simp add: in_order.simps [of "defer_q (chan example_st)"] defer_q.contains_iff example_st_queue)
  with deliverDeferQueue_terminates [OF example_sr_inv example_st_queue(1)] show ?thesis
    by (simp add: example_st_queue)
qed

text \<open>
  C3: Whatever packets arrive on the transport channels, in any order, repeated or lost, with or
  without wrong checksums, the safety and retransmission layer is handed a prefix of the stream the
  peer sent: the messages \<open>n\<close>, \<open>n + 1\<close>, \dots{} without gap, repetition or change of order, as long as
  every packet with a correct CRC carries the message of its number.
\<close>

theorem redundancy_delivers_in_order:
  assumes "red_history sr_receive sr_inv s bs ds t" and "sr_inv s" and "reorder_inv ctx msgs cap n [] s"
    and "\<forall>ps \<in> set bs. \<forall>p \<in> set ps. red_checksum_correct p \<longrightarrow> genuine ctx msgs p"
  shows "ds = map (redelivered ctx \<circ> msgs) [n..<n + length ds] \<and>
    unat (seq_rx (chan t)) = n + length ds \<and> sr_inv t"
  using sr_upper.run_delivers_prefix [OF assms] by (simp add: reorder_inv_def)

text \<open>
  C4: Nothing within the window is lost for good. Let the channel wait for packet \<open>n > 0\<close> with an empty
  defer queue, and let \<open>m\<close> be at most the capacity and the window of the defer queue ahead of \<open>n\<close>. If the
  buffers that arrive hold only genuine packets of the peer whose numbers lie in the window, no buffer
  holds a number twice, and each number from \<open>n\<close> up to \<open>m\<close> is in some buffer, then the packets with
  these numbers have been handed over, in order, in whatever order they came within the buffers and
  over the channels. (\<open>n > 0\<close> is needed: a channel that has neither sent nor received anything drops
  every packet but number 0.)
\<close>

theorem redundancy_delivers_all:
  assumes "red_history sr_receive sr_inv s bs ds t" and "sr_inv s" and "reorder_inv ctx msgs cap n [] s"
    and "0 < n" and "n \<le> m" and "m \<le> n + cap"
    and "m \<le> n + unat (n_deferqueue_size (configuration_parameters (chan s)) * 10)"
    and "dq_bag (defer_q (chan s)) = {#}"
    and "\<forall>ps \<in> set bs. fair_buffer ctx msgs n m (chan s) ps"
    and "\<forall>k \<in> {n..<m}. \<exists>ps \<in> set bs. \<exists>p \<in> set ps. unat (red_sequence_number p) = k"
  shows "ds = map (redelivered ctx \<circ> msgs) [n..<m]"
  using sr_upper.run_delivers_all [OF assms] .

text \<open>Packets 4 and 3 arrive in one buffer, in this order.\<close>

definition example_msgs :: "nat \<Rightarrow> RastaPacket" where
  "example_msgs k = example_data\<lparr>receiver_id := 0x99\<rparr>"

lemma example_reorder: "reorder_inv plain_ctx example_msgs 4 3 [] example_st"
  by (simp add: reorder_inv_def example_st_queue defer_q.contains_iff) (simp add: example_defs)

lemma example_genuine: "genuine plain_ctx example_msgs (stray k)"
  using example_data_wf by (simp add: genuine_def example_msgs_def stray_def packet_wf_def)

lemma example_history:
  "\<exists>ds t. red_history sr_receive sr_inv example_st [[stray 4, stray 3]] ds t"
proof -
  obtain r u where u: "receive_all 0 [stray 4, stray 3] example_st = Some (r, u)"
    using receive_all_returns [of 0 example_st "[stray 4, stray 3]"] by (auto simp: example_defs)
  note e = receive_all_effect [OF u example_st_queue(1)]
  note d = receive_viewD [OF conjunct1 [OF e]]
  have "\<forall>p \<in> set [stray 4, stray 3]. red_checksum_correct p \<longrightarrow> genuine plain_ctx example_msgs p"
    using example_genuine by simp
  note inv = sr_upper.reorder_inv_receive [OF example_reorder u this]
  let ?l = "in_order (defer_q (chan u)) (seq_rx (chan u))"
  have "\<forall>x \<in># dq_bag (defer_q (chan u)). fst x \<in> {stray 4, stray 3}"
    using e by (auto simp: example_st_queue)
  then have "set ?l \<subseteq> {stray 4, stray 3}" using in_order_facts [OF inv(2), of "seq_rx (chan u)"] by auto
  then have l: "\<forall>p \<in> set (map (redelivered (hashing_context (chan u)) \<circ> red_data) ?l).
      p = redelivered plain_ctx (example_data\<lparr>receiver_id := 0x99\<rparr>)"
    by (auto simp: inv(3) stray_def)
  have "my_id (con u) = 0x60" by (simp add: d) (simp add: example_defs)
  with deliver_run_stray [OF l] obtain r' v where
    "deliver_run sr_receive (map (redelivered (hashing_context (chan u)) \<circ> red_data) ?l) u = Some (r', v)" by blast
  moreover have "\<forall>x \<in># dq_bag (defer_q (chan u)). packet_wf (hashing_context (chan u)) (red_data (fst x))"
    using inv(3,5) by (auto simp: genuine_def)
  ultimately have v: "deliver_loop sr_receive False u = Some (r', v)"
    using sr_upper.deliver_loop_run [OF inv(7) [OF example_sr_inv] inv(2), of False] by simp
  show ?thesis
    using red_history.discard [OF red_history.start, of 0 "[stray 4, stray 3]" example_st u sr_receive sr_inv]
      red_history.handover [OF red_history.start, of 0 "[stray 4, stray 3]" example_st u sr_receive r' v sr_inv] u v
    by (cases r) auto
qed

theorem redundancy_delivers_in_order_witness:
  "\<exists>ds t. red_history sr_receive sr_inv example_st [[stray 4, stray 3]] ds t \<and>
     ds = map (redelivered plain_ctx \<circ> example_msgs) [3..<3 + length ds]"
proof -
  obtain ds t where h: "red_history sr_receive sr_inv example_st [[stray 4, stray 3]] ds t"
    using example_history by blast
  have "\<forall>ps \<in> set [[stray 4, stray 3]]. \<forall>p \<in> set ps. red_checksum_correct p \<longrightarrow> genuine plain_ctx example_msgs p"
    using example_genuine by simp
  from h redundancy_delivers_in_order [OF h example_sr_inv example_reorder this] show ?thesis by blast
qed

theorem redundancy_delivers_all_witness:
  "\<exists>ds t. red_history sr_receive sr_inv example_st [[stray 4, stray 3]] ds t \<and>
     ds = map (redelivered plain_ctx \<circ> example_msgs) [3, 4]"
proof -
  obtain ds t where h: "red_history sr_receive sr_inv example_st [[stray 4, stray 3]] ds t"
    using example_history by blast
  have "fair_buffer plain_ctx example_msgs 3 5 (chan example_st) [stray 4, stray 3]"
    using example_genuine
    by (simp add: fair_buffer_def in_window_def packet_key_def stray_def example_red_def example_data_def example_defs)
  moreover have "\<exists>p \<in> set [stray 4, stray 3]. unat (red_sequence_number p) = k" if "k \<in> {3..<5}" for k
    using that by (auto simp: stray_def example_red_def)
  moreover have "n_deferqueue_size (configuration_parameters (chan example_st)) * 10 = 40"
    by (simp add: example_defs)
  ultimately have "ds = map (redelivered plain_ctx \<circ> example_msgs) [3..<5]"
    by (intro redundancy_delivers_all [OF h example_sr_inv example_reorder]) (simp_all add: example_st_queue)
  with h show ?thesis by (auto simp: upt_conv_Cons)
qed

text \<open>
  C12: Sending puts the same frame once on every connected transport channel, in the order of the
  channels and nothing else, uses the number \<open>seq_tx\<close> and counts it up; and at a peer with the same
  safety code and CRC the frame arrives as one packet with this number, the sent packet inside and
  both checksums correct.
\<close>

theorem mux_send_reaches_every_channel:
  assumes "sendable s p" and "net_ok (net s)"
    and "\<forall>c \<in> set (transport_channels (chan s)). connected c \<or> r = RASTA_ROLE_SERVER \<or> transport_lib s = UDP"
    and "sr_hashing_context (mux w) = hashing_context (chan s)"
    and "crc_type (redundancy (cfg w)) = crc_type (redundancy (cfg s))"
  shows "\<exists>s' b. redundancy_mux_send p r s = Some s' \<and> seq_tx (chan s') = seq_tx (chan s) + 1 \<and>
    wire (net s') = wire (net s) @ map (wire_on b) (filter connected (transport_channels (chan s))) \<and>
    (\<forall>i rest. receive_packet i (b @ rest) (of_nat (length b)) w =
      receive_one i (parsed (hashing_context (chan s))
        (createRedundancyPacket (ucast (seq_tx (chan s))) p (crc_type (redundancy (cfg s))))) w)"
proof -
  let ?q = "createRedundancyPacket (ucast (seq_tx (chan s))) p (crc_type (redundancy (cfg s)))"
  let ?ctx = "hashing_context (chan s)" and ?opts = "crc_type (redundancy (cfg s))"
  obtain s' where s': "redundancy_mux_send p r s = Some s'"
    "wire (net s') = wire (net s) @ map (wire_on (red_frame ?ctx ?q)) (filter connected (transport_channels (chan s)))"
    using redundancy_mux_send_ok [OF assms(1-3)] by blast
  have wf: "hashing_ok ?ctx" "red_packet_wf ?ctx ?q"
    using assms(1) by (auto simp: sendable_def intro: createRedundancyPacket_wf)
  have "checksum_type ?q = ?opts" by (simp add: createRedundancyPacket_def)
  then have f: "frame_ok ?ctx ?opts (red_frame ?ctx ?q) (parsed ?ctx ?q)"
    using frame_ok_red_frame [OF wf(1,2)] by (simp add: parsed_def)
  then have "length (red_frame ?ctx ?q) < 2 ^ 64" by (simp add: frame_ok_def)
  then have "receive_packet i (red_frame ?ctx ?q @ rest) (of_nat (length (red_frame ?ctx ?q))) w =
      receive_one i (parsed ?ctx ?q) w" for i rest
    using receive_packet_frames [of w "[red_frame ?ctx ?q]" "[parsed ?ctx ?q]" i rest] f assms(4,5)
    by (simp add: bind_split)
  with s' redundancy_mux_send_keeps(8) [OF s'(1)] show ?thesis by blast
qed

lemma example_sendable: "sendable example_st example_data"
  by (simp add: sendable_def example_defs crc_len_def crc_init_opt_b_def) (simp add: example_data_def)

lemma example_net_ok: "net_ok (net example_st)"
  by (simp add: net_ok_def example_defs)

lemma example_connected: "\<forall>c \<in> set (transport_channels (chan example_st)). connected c"
  by (simp add: example_defs)

theorem mux_send_reaches_every_channel_witness:
  "\<exists>s' b. redundancy_mux_send example_data RASTA_ROLE_CLIENT example_st = Some s' \<and>
     wire (net s') = [wire_on b (example_channel 0), wire_on b (example_channel 1)] \<and>
     seq_tx (chan s') = 3"
proof -
  obtain s' b where "redundancy_mux_send example_data RASTA_ROLE_CLIENT example_st = Some s'"
    "seq_tx (chan s') = seq_tx (chan example_st) + 1"
    "wire (net s') = wire (net example_st) @ map (wire_on b) (filter connected (transport_channels (chan example_st)))"
    using mux_send_reaches_every_channel [OF example_sendable example_net_ok, of RASTA_ROLE_CLIENT example_st]
      example_connected by (auto simp: example_st_def)
  then show ?thesis by (auto simp: example_defs)
qed

text \<open>
  C37: The receive number has 64 bits, the number in a packet 32: after \<open>2 ^ 32\<close> packets the channel
  accepts nothing any more. Every packet is dropped, the defer queue and the number stay as they are
  and the upper layer is not called.
\<close>

theorem seq_rx_exhausted:
  assumes "2 ^ 32 \<le> unat (seq_rx (chan s))" and "i < length (transport_channels (chan s))"
  shows "\<exists>s'. receive_one i p s = Some (False, s') \<and> defer_q (chan s') = defer_q (chan s) \<and>
    seq_rx (chan s') = seq_rx (chan s) \<and> con s' = con s"
proof -
  obtain r s' where s': "receive_one i p s = Some (r, s')" using receive_one_returns [OF assms(2)] by blast
  have "unat (packet_key p) < 2 ^ 32"
    using unat_lt [of "red_sequence_number p"] by (simp add: packet_key_def unat_u32_u64)
  then have "packet_key p < seq_rx (chan s)" using assms(1) by (simp add: word_less_nat_alt)
  then have "\<not> admitted p (chan s)" by (auto simp: admitted_def accepted_def)
  then show ?thesis
    using s' receive_one_effect [OF s'] receive_viewD [OF receive_one_effect(1) [OF s']] by auto
qed

theorem seq_rx_exhausted_witness:
  "\<exists>s'. receive_one 0 (example_red 0) (map_chan (\<lambda>c. c\<lparr>seq_rx := 2 ^ 32\<rparr>) example_st) = Some (False, s') \<and>
     seq_rx (chan s') = 2 ^ 32"
  using seq_rx_exhausted [of "map_chan (\<lambda>c. c\<lparr>seq_rx := 2 ^ 32\<rparr>) example_st" 0 "example_red 0"]
  by (auto simp: map_chan_def example_defs)

end
