(* ===== verification/Rasta_Reachable.thy ===== *)
theory Rasta_Reachable
  imports Rasta_Loop Rasta_Delivery
begin

text \<open>
  The states an endpoint can reach: initialisation, then calls of the library interface in any order,
  each running the event loop as long as it takes. \<open>endpoint_inv\<close> holds in all of them, provided the
  configuration is one the code supports; nothing is assumed of the network.
\<close>

section \<open>The loop keeps the invariant\<close>

lemma sr_ok_map_timer: "sr_ok s (map_con (map_timer k f) t) \<longleftrightarrow> sr_ok s t" "sr_ok (map_con (map_timer k f) s) t \<longleftrightarrow> sr_ok s t"
  using sr_neutral_map_con [of "map_timer k f"] by (cases k; simp add: sr_neutral_iff)+

lemma loose_map_timer: "loose s (map_con (map_timer k f) t) \<longleftrightarrow> loose s t"
  using unseen_map_con [of "map_timer k f"] by (cases k; simp add: unseen_iff)

lemma endpoint_ok_fire_timer: "fire_timer k s = Some (r, s') \<Longrightarrow> endpoint_ok s s'"
  by (cases k) (auto intro: endpoint_ok_sr sr_ok_data_send_event sr_ok_timers loose_data_send_event loose_timers)

lemma endpoint_ok_fire_source: "fire_source src s = Some (r, s') \<Longrightarrow> endpoint_ok s s'"
  by (cases src)
    (auto intro: endpoint_ok_sr endpoint_ok_channel_receive_event sr_ok_channel_accept_event loose_channel_accept_event)

lemma endpoint_ok_fire_sources: "fire_sources srcs ready r s = Some (r', s') \<Longrightarrow> endpoint_ok s s'"
proof (induction srcs arbitrary: s)
  case (Cons src srcs)
  then show ?case
    by (auto simp: Option.bind_eq_Some_conv split: if_splits dest: endpoint_ok_fire_source
        intro: endpoint_ok_trans)
qed simp

lemma endpoint_ok_call: "call s = (r, s') \<Longrightarrow> endpoint_ok s s'"
  by (intro endpoint_ok_sr sr_ok_call loose_now(3))

lemma endpoint_ok_now: "now_ns s = (t, s') \<Longrightarrow> endpoint_ok s s'"
  by (intro endpoint_ok_sr sr_ok_now(2) loose_now(2))

lemma endpoint_ok_sleep: "event_system_sleep s = Some (r, s') \<Longrightarrow> endpoint_ok s s'"
  unfolding event_system_sleep_def Let_def
  by (auto split: if_splits prod.splits dest!: endpoint_ok_fire_sources endpoint_ok_call
      intro: endpoint_ok_trans)

lemma endpoint_ok_then_sr: "endpoint_ok s t \<Longrightarrow> sr_ok t u \<Longrightarrow> loose t u \<Longrightarrow> endpoint_ok s u"
  by (blast intro: endpoint_ok_trans endpoint_ok_sr)

lemma endpoint_ok_fire_next: "fire_next k t s = Some (r, s') \<Longrightarrow> endpoint_ok s s'"
  by (auto simp: fire_next_def Option.bind_eq_Some_conv sr_ok_map_timer loose_map_timer split: if_splits
      dest!: endpoint_ok_fire_timer elim!: endpoint_ok_then_sr)

lemma endpoint_ok_loop_body: "event_loop_body s = Some (b, s') \<Longrightarrow> endpoint_ok s s'"
  unfolding event_loop_body_def Let_def
  by (auto simp: Option.bind_eq_Some_conv split: if_splits prod.splits
      dest!: endpoint_ok_now endpoint_ok_sleep endpoint_ok_fire_next intro: endpoint_ok_trans)

lemma endpoint_ok_event_loop:
  assumes "event_loop s = Some s'"
  shows "endpoint_ok s s'"
  using assms
proof (rule event_loop.raw_induct [rotated])
  fix loop :: "rasta_st \<Rightarrow> rasta_st option" and s s'
  assume IH: "\<And>x y. loop x = Some y \<Longrightarrow> endpoint_ok x y"
    and step: "event_loop_body s \<bind> (\<lambda>(stop, s). if stop then Some s else loop s) = Some s'"
  then obtain stop t where t: "event_loop_body s = Some (stop, t)" "(if stop then Some t else loop t) = Some s'"
    by (auto simp: Option.bind_eq_Some_conv)
  then have "endpoint_ok t s'" using IH by (auto split: if_splits)
  with endpoint_ok_loop_body [OF t(1)] show "endpoint_ok s s'" by (rule endpoint_ok_trans)
qed

lemma endpoint_ok_start: "event_system_start s = Some s' \<Longrightarrow> endpoint_ok s s'"
proof -
  assume "event_system_start s = Some s'"
  then obtain t u where "now_ns s = (t, u)" and
    "event_loop (map_con (\<lambda>c. fold (\<lambda>k. map_timer k (\<lambda>e. e\<lparr>last_call := t\<rparr>)) timers c) u) = Some s'"
    by (auto simp: event_system_start_def split: prod.splits)
  moreover have "sr_neutral (map_con (\<lambda>c. fold (\<lambda>k. map_timer k (\<lambda>e. e\<lparr>last_call := t\<rparr>)) timers c))"
    by (rule sr_neutral_map_con) (simp_all add: timers_def)
  then have "sr_ok u (map_con (\<lambda>c. fold (\<lambda>k. map_timer k (\<lambda>e. e\<lparr>last_call := t\<rparr>)) timers c) u)"
    by (simp add: sr_neutral_iff)
  moreover have "unseen (map_con (\<lambda>c. fold (\<lambda>k. map_timer k (\<lambda>e. e\<lparr>last_call := t\<rparr>)) timers c))"
    by (rule unseen_map_con) (simp add: timers_def)
  then have "loose u (map_con (\<lambda>c. fold (\<lambda>k. map_timer k (\<lambda>e. e\<lparr>last_call := t\<rparr>)) timers c) u)"
    by (simp add: unseen_iff)
  ultimately show ?thesis
    using endpoint_ok_now endpoint_ok_event_loop by (blast intro: endpoint_ok_trans endpoint_ok_sr)
qed

section \<open>The library interface keeps the invariant\<close>

lemma endpoint_ok_mux_init: "endpoint_ok s (redundancy_mux_init s)"
proof -
  have "sr_inv (redundancy_mux_init s) = sr_inv s"
    by (simp add: redundancy_mux_init_def map_chan_def redundancy_channel_init_def sr_inv_def static_ok_def wire_ok_def)
  moreover have "loose s (redundancy_mux_init s)"
    by (simp add: redundancy_mux_init_def map_chan_def redundancy_channel_init_def loose_def bounded_def
        deferqueue_clear_def dq_invar_def)
  ultimately show ?thesis by (simp add: endpoint_ok_def)
qed

lemma endpoint_ok_accept: "rasta_accept s = Some (r, s') \<Longrightarrow> endpoint_ok s s'"
proof -
  assume "rasta_accept s = Some (r, s')"
  then obtain t where t: "event_system_start (redundancy_mux_init s) = Some t"
    and "s' = t \<or> s' = map_con (\<lambda>c. c\<lparr>is_new := False\<rparr>) t"
    by (auto simp: rasta_accept_def Option.bind_eq_Some_conv split: if_splits)
  then have "sr_ok t s'" "loose t s'" by (auto simp: sr_ok_simps loose_simps)
  with endpoint_ok_start [OF t] endpoint_ok_mux_init show ?thesis
    by (blast intro: endpoint_ok_trans endpoint_ok_sr)
qed

lemma connect_loop_frame: "connect_loop is b s = Some (r, s') \<Longrightarrow> quiet_frame s s'"
  by (induction "is" arbitrary: b s)
    (auto simp: Option.bind_eq_Some_conv rasta_red_connect_transport_channel_def
      dest!: transport_connect_frame intro: quiet_frame_trans)

lemma endpoint_ok_channel_connect:
  assumes "redundancy_channel_connect s = Some (r, s')"
  shows "endpoint_ok s s'"
proof -
  have "\<exists>b. connect_loop [0..<length (transport_channels (chan (redundancy_mux_init s)))] False (redundancy_mux_init s) = Some (b, s')"
    using assms by (auto simp: redundancy_channel_connect_def redundancy_mux_init_def Option.bind_eq_Some_conv Let_def)
  then have "sr_ok (redundancy_mux_init s) s'" "loose (redundancy_mux_init s) s'"
    using connect_loop_frame sr_ok_quiet loose_quiet by blast+
  with endpoint_ok_mux_init show ?thesis by (rule endpoint_ok_then_sr)
qed

lemma sr_ok_connect_send:
  assumes "redundancy_mux_send q ro (map_con (\<lambda>c. c\<lparr>sn_i := y c\<rparr>) s) = Some v"
    and "createConnectionRequest rc sd sn t sm vs ctx = Some q" and "hashing_context (chan s) = ctx"
  shows "sr_ok s v"
proof -
  let ?w = "map_con (\<lambda>c. c\<lparr>sn_i := y c\<rparr>) s"
  have "sr_ok ?w v"
  proof (rule sr_ok_mux_send [OF assms(1)])
    assume "sr_inv ?w"
    then show "fits_wire ?w q"
      using assms(2,3) by (intro connection_payload_fits [of RASTA_TYPE_CONNREQ rc sd sn 0 t 0])
        (auto simp: createConnectionRequest_def map_con_def)
  qed
  then show ?thesis by (simp add: sr_ok_simps)
qed

lemma endpoint_ok_connect_start:
  assumes "sr_connect_start s = Some (r, s')"
  shows "endpoint_ok s s'"
proof (cases "ucast (remote_id (con s)) \<noteq> rasta_id_remote (general (cfg s))")
  case True
  with assms show ?thesis by (simp add: sr_connect_start_def)
next
  case False
  then obtain x u where u: "redundancy_channel_connect s = Some (x, u)"
    using assms by (auto simp: sr_connect_start_def Option.bind_eq_Some_conv)
  have "sr_ok u s'"
    using assms False u
    by (auto simp: sr_connect_start_def Option.bind_eq_Some_conv Let_def split_beta sr_ok_simps sr_init_connection_def
        sr_neutral_now [THEN sr_neutral_iff(1)] sr_neutral_now [THEN sr_neutral_iff(2)] split: if_splits dest!: sr_ok_connect_send)
  moreover have "loose u s'"
    using assms False u
    by (auto simp: sr_connect_start_def loose_handler_simps split: if_splits dest!: loose_mux_send)
  ultimately show ?thesis using endpoint_ok_channel_connect [OF u] by (blast intro: endpoint_ok_then_sr)
qed

lemma sr_ok_connect_finish: "sr_connect_finish s = Some (r, s') \<Longrightarrow> sr_ok s s'"
  by (auto simp: sr_connect_finish_def handler_simps split: if_splits dest!: handler_dests)

lemma loose_connect_finish: "sr_connect_finish s = Some (r, s') \<Longrightarrow> loose s s'"
  by (auto simp: sr_connect_finish_def loose_handler_simps split: if_splits dest!: loose_dests)

lemma endpoint_ok_connect_finish: "sr_connect_finish s = Some (r, s') \<Longrightarrow> endpoint_ok s s'"
  by (intro endpoint_ok_sr sr_ok_connect_finish loose_connect_finish)

lemma endpoint_ok_connect: "rasta_connect s = Some (r, s') \<Longrightarrow> endpoint_ok s s'"
  by (auto simp: rasta_connect_def sr_connect_def Option.bind_eq_Some_conv split: if_splits
      dest!: endpoint_ok_connect_start endpoint_ok_start endpoint_ok_connect_finish intro: endpoint_ok_trans)

lemma sr_ok_push_send:
  assumes "message_fits (cfg s) m"
  shows "sr_ok s (map_con (\<lambda>c. c\<lparr>fifo_send := snd (queue_push (fifo_send (con s)) m)\<rparr>) s)"
  using assms
  by (auto simp: sr_ok_def sr_inv_def sr_frame_rel_def map_con_def static_ok_def wire_ok_def receive_side_def queue_push_def)

lemma sr_ok_send_loop:
  assumes "send_loop ms s = Some (r, s')" and "\<forall>m \<in> set ms. message_fits (cfg s) m"
  shows "sr_ok s s'"
proof (rule sr_ok_assume)
  assume "sr_inv s"
  with assms show "sr_ok s s'"
  proof (induction ms arbitrary: s)
    case (Cons m ms)
    obtain t where t: "(if queue_full (fifo_send (con s)) then map_option snd (data_send_event s) else Some s) = Some t"
      using Cons.prems(1) by (cases "if queue_full (fifo_send (con s)) then map_option snd (data_send_event s) else Some s") auto
    then have st: "sr_ok s t" by (auto split: if_splits dest: sr_ok_data_send_event)
    then have inv: "sr_inv t" "cfg t = cfg s" using Cons.prems(3) by (auto simp: sr_ok_def sr_frame_rel_def)
    define u where "u = map_con (\<lambda>c. c\<lparr>fifo_send := snd (queue_push (fifo_send (con t)) m)\<rparr>) t"
    have tu: "sr_ok t u" unfolding u_def using Cons.prems(2) inv(2) by (intro sr_ok_push_send) simp
    define v where "v = map_con (\<lambda>c. c\<lparr>send_event := enable_timed_event (send_event c) (fst (now_ns u))\<rparr>) (snd (now_ns u))"
    have uv: "sr_ok u v" by (simp add: v_def sr_ok_simps sr_neutral_now [THEN sr_neutral_iff(1)])
    have v: "sr_inv v" "cfg v = cfg s" using tu uv inv by (auto simp: sr_ok_def sr_frame_rel_def)
    have "s' = u \<or> send_loop ms v = Some (r, s')"
      using Cons.prems(1) t by (auto simp: u_def v_def Let_def split_beta split: if_splits)
    then have "sr_ok u s'" using Cons.IH [of v] Cons.prems(2) v uv by (auto intro: sr_ok_trans)
    with st tu show ?case by (blast intro: sr_ok_trans)
  qed simp
qed

lemma sr_ok_send:
  assumes "rasta_send m s = Some (r, s')" and "message_fits (cfg s) m"
  shows "sr_ok s s'"
proof (cases "current_state (con s) = RASTA_CONNECTION_UP")
  case True
  with assms show ?thesis
    using sr_ok_send_loop [of "[m]" s] by (auto simp: rasta_send_def sr_send_def simp del: send_loop.simps split: if_splits)
next
  case False
  with assms(1) show ?thesis
    by (auto simp: rasta_send_def sr_send_def handler_simps split: if_splits dest!: sr_ok_sendDisconnectionRequest)
qed

lemma loose_send_loop: "send_loop ms s = Some (r, s') \<Longrightarrow> loose s s'"
proof (induction ms arbitrary: s)
  case (Cons m ms)
  obtain t where t: "(if queue_full (fifo_send (con s)) then map_option snd (data_send_event s) else Some s) = Some t"
    using Cons.prems by (cases "if queue_full (fifo_send (con s)) then map_option snd (data_send_event s) else Some s") auto
  then have "loose s t" by (auto split: if_splits dest: loose_data_send_event)
  moreover have "loose t s'"
    using Cons.prems t Cons.IH by (fastforce simp: Let_def split_beta loose_simps split: if_splits)
  ultimately show ?case by (rule loose_trans)
qed simp

lemma loose_send: "rasta_send m s = Some (r, s') \<Longrightarrow> loose s s'"
  by (auto simp: rasta_send_def sr_send_def loose_handler_simps simp del: send_loop.simps split: if_splits
      dest!: loose_control(1) loose_send_loop)

lemma loose_disconnect: "rasta_disconnect s = Some s' \<Longrightarrow> loose s s'"
  by (auto simp: rasta_disconnect_def sr_disconnect_def loose_handler_simps dest!: loose_close)

lemma sr_ok_disconnect: "rasta_disconnect s = Some s' \<Longrightarrow> sr_ok s s'"
  by (auto simp: rasta_disconnect_def sr_disconnect_def handler_simps dest!: sr_ok_close)

lemma bind_loop_frame: "bind_loop is b s = Some (r, s') \<Longrightarrow> quiet_frame s s'"
  by (induction "is" arbitrary: b s)
    (auto simp: Option.bind_eq_Some_conv transport_bind_def split: if_splits prod.splits
      dest!: bsd_bind_device_frame intro: quiet_frame_trans)

lemma listen_loop_frame: "listen_loop is s = Some s' \<Longrightarrow> quiet_frame s s'"
proof (induction "is" arbitrary: s)
  case (Cons i "is")
  then obtain t where t: "transport_listen i s = Some t" "listen_loop is t = Some s'"
    by (auto simp: Option.bind_eq_Some_conv)
  then have "quiet_frame s t"
    by (cases "transport_lib s") (auto simp: transport_listen_def tcp_transport_listen_def udp_transport_listen_def
        tcp_listen_def frame_simps split: prod.splits if_splits dest!: call_frame)
  with t(2) Cons.IH show ?case by (blast intro: quiet_frame_trans)
qed simp

lemma endpoint_ok_recv_wait:
  assumes "recv_wait s = Some s'"
  shows "endpoint_ok s s'"
  using assms
proof (rule recv_wait.raw_induct [rotated])
  fix wait :: "rasta_st \<Rightarrow> rasta_st option" and s s'
  assume IH: "\<And>x y. wait x = Some y \<Longrightarrow> endpoint_ok x y"
    and step: "(if current_state (con s) = RASTA_CONNECTION_UP \<and> sr_recv_queue_item_count (con s) = 0
      then event_system_start s \<bind> wait else Some s) = Some s'"
  then show "endpoint_ok s s'"
    by (auto simp: Option.bind_eq_Some_conv split: if_splits dest!: endpoint_ok_start IH intro: endpoint_ok_trans)
qed

lemma endpoint_ok_recv: "rasta_recv n s = Some (r, s') \<Longrightarrow> endpoint_ok s s'"
  unfolding rasta_recv_def Let_def
  by (elim bind_eq_SomeE) (auto split: if_splits prod.splits option.splits simp: sr_ok_simps loose_simps
      dest!: endpoint_ok_recv_wait elim!: endpoint_ok_then_sr)

section \<open>Initialisation establishes it\<close>

text \<open>
  Configurations with which the code stays inside its buffers: a CRC of at most 32 bits, MD4 only with
  the safety code of 16 bytes (\<open>generateMD4WithVector\<close> writes past its array with any shorter one), and
  SipHash only without a safety code (its key of 8 or 16 bytes is read from the 4 bytes the configuration
  provides).
\<close>

definition safety_code_ok :: "rasta_config_sending \<Rightarrow> bool" where
  "safety_code_ok c \<longleftrightarrow>
     (case sr_hash_algorithm c of
        RASTA_ALGO_MD4 \<Rightarrow> md4_type c = RASTA_CHECKSUM_16B
      | RASTA_ALGO_BLAKE2B \<Rightarrow> True
      | RASTA_ALGO_SIPHASH_2_4 \<Rightarrow> md4_type c = RASTA_CHECKSUM_NONE)"

definition config_ok :: "rasta_config_info \<Rightarrow> bool" where
  "config_ok config \<longleftrightarrow> crc_len (crc_type (redundancy config)) \<le> 4 \<and>
     safety_code_ok (sending config)"

text \<open>Before initialisation: memory for the defer queue, an error flag that is not set, nothing sent.\<close>

definition blank_ok :: "(nat \<Rightarrow> rasta_redundancy_packet_wrapper list) \<Rightarrow> rasta_config_info \<Rightarrow> rasta_st \<Rightarrow> bool" where
  "blank_ok junk config blank \<longleftrightarrow> length (junk 0) = unat (n_deferqueue_size (redundancy config)) \<and>
     module_error blank = RASTA_ERRORS_NONE \<and> wire (net blank) = []"

lemma configured_hashing_ok:
  assumes "configured_hashing c old = Some ctx"
    and "safety_code_ok c"
  shows "hashing_ok ctx" and "configured_hashing c old' = Some ctx"
proof -
  have "hashing_ok ctx \<and> configured_hashing c old' = Some ctx"
  proof (cases "sr_hash_algorithm c")
    case RASTA_ALGO_MD4
    with assms show ?thesis
      by (auto simp: safety_code_ok_def configured_hashing_def rasta_md4_set_key_def rmemcpy_def allocateRastaByteArray_def hashing_ok_def Let_def)
  qed (use assms in \<open>auto simp: safety_code_ok_def configured_hashing_def hashing_ok_def\<close>)
  then show "hashing_ok ctx" and "configured_hashing c old' = Some ctx" by blast+
qed

lemma create_sockets_loop_frame: "create_sockets_loop is s = Some s' \<Longrightarrow> quiet_frame s s'"
proof (induction "is" arbitrary: s)
  case (Cons i "is")
  then obtain t where t: "transport_create_socket i i s = Some t" "create_sockets_loop is t = Some s'"
    by (auto simp: Option.bind_eq_Some_conv)
  then have "quiet_frame s t"
    by (cases "transport_lib s") (auto simp: transport_create_socket_def tcp_transport_create_socket_def
        udp_transport_create_socket_def frame_simps dest!: bsd_create_socket_frame)
  with t(2) Cons.IH show ?case by (blast intro: quiet_frame_trans)
qed simp

lemma init_establishes_inv:
  assumes "rasta_lib_init_configuration junk config blank = Some s" and "config_ok config" and "blank_ok junk config blank"
  shows "endpoint_inv s" and "sr_inv s" and "cfg s = config"
    and "configured_hashing (sending config) old = Some (hashing_context (chan s))"
proof -
  let ?s0 = "blank\<lparr>cfg := config, con := zero_connection, mux := (mux blank)\<lparr>port_count := 0, transport_sockets := []\<rparr>\<rparr>"
  obtain t where t: "redundancy_mux_alloc junk ?s0 = Some t" and s: "s = t\<lparr>con := initial_connection config\<rparr>"
    using assms(1) by (auto simp: rasta_lib_init_configuration_def Option.bind_eq_Some_conv Let_def)
  obtain ctx where ctx: "configured_hashing (sending config) (sr_hashing_context (mux blank)) = Some ctx"
    and alloc: "redundancy_mux_allocate_channels junk (?s0\<lparr>mux := (mux blank)\<lparr>transport_sockets := [],
        port_count := length (connections (redundancy config)), sr_hashing_context := ctx\<rparr>\<rparr>) = Some t"
    using t by (auto simp: redundancy_mux_alloc_def Option.bind_eq_Some_conv)
  have c: "config_ok config \<Longrightarrow> safety_code_ok (sending config)"
    by (simp add: config_ok_def)
  note h = configured_hashing_ok [OF ctx c [OF assms(2)]]
  obtain w u ch where w: "cfg w = config" "sr_hashing_context (mux w) = ctx" "module_error w = module_error blank"
      "net w = net blank" "quiet_frame w u"
    and ch: "redundancy_channel_alloc junk (cfg u) (chan u) = Some ch" "t = u\<lparr>chan := ch\<rparr>"
  proof (cases "connections (redundancy config) = []")
    case True
    with alloc show ?thesis
      by (intro that [of "?s0\<lparr>mux := (mux blank)\<lparr>transport_sockets := [],
        port_count := length (connections (redundancy config)), sr_hashing_context := ctx\<rparr>\<rparr>"
            "?s0\<lparr>mux := (mux blank)\<lparr>transport_sockets := [],
        port_count := length (connections (redundancy config)), sr_hashing_context := ctx\<rparr>\<rparr>" "chan t"])
        (auto simp: redundancy_mux_allocate_channels_def Option.bind_eq_Some_conv split: if_splits)
  next
    case False
    let ?w = "?s0\<lparr>mux := (mux blank)\<lparr>port_count := length (connections (redundancy config)), sr_hashing_context := ctx,
        transport_sockets := replicate (length (connections (redundancy config))) zero_transport_socket\<rparr>\<rparr>"
    from False alloc obtain u where
      "create_sockets_loop [0..<length (connections (redundancy config))] ?w = Some u"
      "redundancy_channel_alloc junk (cfg u) (chan u) = Some (chan t)" "t = u\<lparr>chan := chan t\<rparr>"
      by (auto simp: redundancy_mux_allocate_channels_def Option.bind_eq_Some_conv split: if_splits)
    then show ?thesis by (intro that [of ?w u "chan t"]) (auto dest: create_sockets_loop_frame)
  qed
  note u = transport_frameD [OF quiet_frameD(1) [OF w(5)]] quiet_frameD(2) [OF w(5)]
  have q: "hashing_context ch = ctx"
    "defer_q ch = deferqueue_init (junk 0) (unat (n_deferqueue_size (redundancy config)))"
    using ch(1) h(2) by (auto simp: redundancy_channel_alloc_def Option.bind_eq_Some_conv Let_def u w)
  show sr: "sr_inv s"
    using q h(1) assms(2,3) by (simp add: s ch(2) sr_inv_def static_ok_def wire_ok_def u w initial_connection_def
        init_connection_events_def config_ok_def blank_ok_def queue_init_def queue_invar_def)
  have "bounded s"
    using q assms(3) by (simp add: s ch(2) bounded_def deferqueue_init_def dq_invar_def blank_ok_def u w
        initial_connection_def init_connection_events_def queue_init_def queue_invar_def)
  with sr show "endpoint_inv s" by (simp add: endpoint_inv_def sr_inv_def)
  show "cfg s = config" by (simp add: s ch(2) u w)
  show "configured_hashing (sending config) old = Some (hashing_context (chan s))"
    using h(2) by (simp add: s ch(2) q)
qed

section \<open>Reachable states\<close>

text \<open>Calls of the library interface that return; messages handed to \<open>rasta_send\<close> must fit a packet.\<close>

inductive endpoint_call :: "rasta_st \<Rightarrow> rasta_st \<Rightarrow> bool" where
  bind: "rasta_bind s = Some (b, s') \<Longrightarrow> endpoint_call s s'"
| listen: "rasta_listen s = Some s' \<Longrightarrow> endpoint_call s s'"
| accept: "rasta_accept s = Some (b, s') \<Longrightarrow> endpoint_call s s'"
| connect: "rasta_connect s = Some (b, s') \<Longrightarrow> endpoint_call s s'"
| send: "message_fits (cfg s) m \<Longrightarrow> rasta_send m s = Some (r, s') \<Longrightarrow> endpoint_call s s'"
| recv: "rasta_recv n s = Some (x, s') \<Longrightarrow> endpoint_call s s'"
| disconnect: "rasta_disconnect s = Some s' \<Longrightarrow> endpoint_call s s'"

text \<open>
  The states an endpoint can get into: initialised, between two calls, and while a call runs the
  event loop.
\<close>

inductive reachable :: "(nat \<Rightarrow> rasta_redundancy_packet_wrapper list) \<Rightarrow> rasta_config_info \<Rightarrow> rasta_st \<Rightarrow> rasta_st \<Rightarrow> bool"
  for junk config blank
where
  initial: "rasta_lib_init_configuration junk config blank = Some s \<Longrightarrow> reachable junk config blank s"
| step: "reachable junk config blank s \<Longrightarrow> endpoint_call s s' \<Longrightarrow> reachable junk config blank s'"
| connecting: "reachable junk config blank s \<Longrightarrow> sr_connect_start s = Some (b, s') \<Longrightarrow> reachable junk config blank s'"
| accepting: "reachable junk config blank s \<Longrightarrow> reachable junk config blank (redundancy_mux_init s)"
| interrupted: "reachable junk config blank s \<Longrightarrow> event_loop_body s = Some (b, s') \<Longrightarrow> reachable junk config blank s'"

inductive_cases endpoint_callE: "endpoint_call s s'"

lemma endpoint_ok_interface: "endpoint_call s s' \<Longrightarrow> endpoint_ok s s'"
proof (induction rule: endpoint_call.induct)
  case (bind s b s')
  then show ?case
    by (auto simp: rasta_bind_def redundancy_mux_bind_def intro: endpoint_ok_sr sr_ok_quiet loose_quiet bind_loop_frame)
next
  case (listen s s')
  then show ?case
    by (auto simp: rasta_listen_def sr_listen_def redundancy_mux_listen_channels_def
        intro: endpoint_ok_sr sr_ok_quiet loose_quiet listen_loop_frame)
qed (auto intro: endpoint_ok_accept endpoint_ok_connect endpoint_ok_recv endpoint_ok_sr sr_ok_send sr_ok_disconnect
    loose_send loose_disconnect)

lemma endpoint_ok_keeps:
  assumes "endpoint_ok s s'" and "endpoint_inv s \<and> cfg s = config \<and> hashing_context (chan s) = ctx"
  shows "endpoint_inv s' \<and> cfg s' = config \<and> hashing_context (chan s') = ctx"
  using assms endpoint_ok_inv [OF assms(1)] by (auto simp: endpoint_ok_def loose_def)

lemma reachable_inv:
  assumes "reachable junk config blank s" and "config_ok config" and "blank_ok junk config blank"
  shows "endpoint_inv s" and "cfg s = config" and "configured_hashing (sending config) old = Some (hashing_context (chan s))"
proof -
  have "endpoint_inv s \<and> cfg s = config \<and>
    (\<forall>ctx. configured_hashing (sending config) old = Some ctx \<longrightarrow> hashing_context (chan s) = ctx) \<and>
    configured_hashing (sending config) old \<noteq> None"
    using assms
  proof (induction rule: reachable.induct)
    case (initial s)
    then show ?case using init_establishes_inv(1,3) init_establishes_inv(4) [of junk config blank s old] by auto
  next
    case (step s s')
    then show ?case using endpoint_ok_keeps [OF endpoint_ok_interface] by blast
  next
    case (connecting s b s')
    then show ?case using endpoint_ok_keeps [OF endpoint_ok_connect_start] by blast
  next
    case (accepting s)
    then show ?case using endpoint_ok_keeps [OF endpoint_ok_mux_init] by blast
  next
    case (interrupted s b s')
    then show ?case using endpoint_ok_keeps [OF endpoint_ok_loop_body] by blast
  qed
  then show "endpoint_inv s" and "cfg s = config" and "configured_hashing (sending config) old = Some (hashing_context (chan s))"
    by auto
qed

section \<open>Properties\<close>

text \<open>
  C1: With a configuration whose CRC and safety code the code can compute inside its buffers
  (\<open>config_ok\<close>), in every state an endpoint can get into, through any sequence of library calls (messages handed
  to \<open>rasta_send\<close> fit a packet) and of timer and socket events, whatever bytes the network returns
  (a run ends where the parser leaves its buffer): the configuration is the one it was initialised
  with and both layers use the safety code configured there, the retransmission buffer never holds
  more packets than configured and the defer queue no more than its configured size; and as long as
  no input has set the parser's error flag, the retransmission buffer holds nothing but serialised
  well-formed packets of application messages.
\<close>

theorem reachable_invariant:
  assumes "reachable junk config blank s" and "config_ok config" and "blank_ok junk config blank"
  shows "cfg s = config \<and> configured_hashing (sending config) old = Some (hashing_context (chan s)) \<and>
    sr_hashing_context (mux s) = hashing_context (chan s) \<and>
    length (items (fifo_retransmission (con s))) \<le> unat (max_retransmission_queue_size config) \<and>
    dq_count (defer_q (chan s)) \<le> unat (n_deferqueue_size (redundancy config)) \<and>
    (module_error s = RASTA_ERRORS_NONE \<longrightarrow>
      (\<forall>b \<in> set (items (fifo_retransmission (con s))). \<exists>p ms. b = sr_frame (hashing_context (chan s)) p \<and>
        packet_wf (hashing_context (chan s)) p \<and> pkt_data p = encode_messages ms))"
proof -
  note i = reachable_inv [OF assms]
  have b: "bounded s" "static_ok s" "module_error s = RASTA_ERRORS_NONE \<Longrightarrow> sr_inv s"
    using i(1) by (simp_all add: endpoint_inv_def)
  have "length (items (fifo_retransmission (con s))) \<le> unat (max_retransmission_queue_size config)"
    "dq_count (defer_q (chan s)) \<le> unat (n_deferqueue_size (redundancy config))"
    using b(1) i(2) by (auto simp: bounded_def queue_invar_def dq_invar_def)
  moreover have "\<exists>p ms. x = sr_frame (hashing_context (chan s)) p \<and>
      packet_wf (hashing_context (chan s)) p \<and> pkt_data p = encode_messages ms"
    if "module_error s = RASTA_ERRORS_NONE" "x \<in> set (items (fifo_retransmission (con s)))" for x
    using b(3) [OF that(1)] that(2) unfolding sr_inv_def data_frame_def by blast
  ultimately show ?thesis using i b(2) by (simp add: static_ok_def)
qed

text \<open>
  C16: With such a configuration, and as long as no input has set the parser's error flag, everything a reachable endpoint has put on
  a transport channel is the frame of a well-formed packet, of the length its length field says, and
  any receiver with the same configuration parses it back to this packet with both checksums correct;
  nothing is assumed of the bytes the network returned. (After an input that sets the flag the
  endpoint sends zeros.)
\<close>

theorem wire_messages_well_formed:
  assumes "reachable junk config blank s" and "config_ok config" and "blank_ok junk config blank"
    and "module_error s = RASTA_ERRORS_NONE" and "w \<in> set (wire (net s))"
  shows "\<exists>p. red_packet_wf (hashing_context (chan s)) p \<and> length (wire_bytes w) = unat (red_length p) \<and>
    (\<forall>err old. bytesToRastaRedundancyPacket err (wire_bytes w) (crc_type (redundancy config))
      (hashing_context (chan s)) old = Some (parsed (hashing_context (chan s)) p, err))"
proof -
  have i: "sr_inv s" "cfg s = config" using reachable_inv [OF assms(1-3)] assms(4) by (simp_all add: endpoint_inv_def)
  then have h: "hashing_ok (hashing_context (chan s))" by (simp add: sr_inv_def static_ok_def)
  obtain p where p: "red_packet_wf (hashing_context (chan s)) p" "checksum_type p = crc_type (redundancy config)"
    "wire_bytes w = red_frame (hashing_context (chan s)) p"
    using i assms(5) by (auto simp: sr_inv_def wire_ok_def)
  then have "length (wire_bytes w) = unat (red_length p)"
    using length_red_body [OF h p(1)] by (simp add: red_frame_def red_packet_wf_def)
  moreover have "bytesToRastaRedundancyPacket err (wire_bytes w) (crc_type (redundancy config))
      (hashing_context (chan s)) old = Some (parsed (hashing_context (chan s)) p, err)" for err old
    using frame_ok_red_frame [OF h p(1)] p by (simp add: frame_ok_def parsed_def)
  ultimately show ?thesis using p(1) by blast
qed

text \<open>The example endpoint, initialised and on its way to connect: two connection requests are out.\<close>

definition example_junk :: "nat \<Rightarrow> rasta_redundancy_packet_wrapper list" where
  "example_junk k = replicate 4 \<lparr>packet = example_red 0, received_timestamp = 0\<rparr>"

lemma example_init:
  obtains s where "rasta_lib_init_configuration example_junk example_config example_st = Some s"
    "con s = initial_connection example_config" "cfg s = example_config" "net_ok (net s)" "wire (net s) = []"
    "transport_lib s = TCP" "length (transport_channels (chan s)) = 2" "map ts_id (transport_sockets (mux s)) = [0, 1]"
  by (simp add: rasta_lib_init_configuration_def redundancy_mux_alloc_def Let_def
     configured_hashing_def redundancy_mux_allocate_channels_def redundancy_channel_alloc_def
     rasta_md4_set_key_def rmemcpy_def allocateRastaByteArray_def hostLongToLe_def upt_rec
     transport_create_socket_def socket_at_def tcp_transport_create_socket_def bsd_create_socket_def call_def sys_call_def
     map_socket_def net_ok_def example_defs)

lemma connect_two_channels:
  assumes "net_ok (net s)" "transport_lib s = TCP" "length (transport_channels (chan s)) = 2"
    "map ts_id (transport_sockets (mux s)) = [0, 1]"
  shows "\<exists>t. redundancy_channel_connect s = Some (0, t) \<and> quiet_frame (redundancy_mux_init s) t \<and>
    list_all connected (transport_channels (chan t)) \<and> length (transport_channels (chan t)) = 2"
proof -
  obtain c0 c1 where c: "transport_channels (chan s) = [c0, c1]" using assms(3) by (rule list_length_2_cases)
  obtain k0 k1 where k: "transport_sockets (mux s) = [k0, k1]" "ts_id k0 = 0" "ts_id k1 = 1"
    using assms(4) by auto
  have a: "\<And>n. \<not> answers (net s) n < 0" "\<And>a. valid_address (net s) a" using assms(1) by (simp_all add: net_ok_def not_less)
  obtain t where t: "connect_loop [0..<2] False (redundancy_mux_init s) = Some (True, t)"
    "list_all connected (transport_channels (chan t))" "length (transport_channels (chan t)) = 2"
    by (simp add: upt_rec rasta_red_connect_transport_channel_def socket_at_def channel_at_def transport_connect_def
        tcp_transport_connect_def tcp_connect_def Let_def map_channel_def map_chan_def redundancy_mux_init_def
        redundancy_channel_init_def call_def sys_call_def c k a assms(2))
  have "redundancy_channel_connect s = Some (0, t)"
    using t(1) assms(3) by (simp add: redundancy_channel_connect_def redundancy_mux_init_def map_chan_def redundancy_channel_init_def)
  with t connect_loop_frame [OF t(1)] show ?thesis by blast
qed

text \<open>The two halves of \<open>sr_connect_start\<close> around the sending of the request.\<close>

definition client_ready :: "rasta_st \<Rightarrow> u32 \<times> rasta_st" where
  "client_ready t =
     (let t = map_con (sr_init_connection RASTA_ROLE_CLIENT) t;
          t = map_con (\<lambda>c. c\<lparr>sn_t := initial_sequence_number (cfg t), cs_t := 0\<rparr>) t;
          (now, t) = now_ms t;
          t = map_con (\<lambda>c. c\<lparr>cts_r := now, t_i := t_max (sending (cfg t))\<rparr>) t;
          (now, t) = now_ms t
      in (now, map_con (\<lambda>c. c\<lparr>sn_i := sn_t c\<rparr>) t))"

definition request_sent :: "rasta_st \<Rightarrow> rasta_st" where
  "request_sent v =
     (let v = map_con (\<lambda>c. c\<lparr>sn_t := sn_t c + 1, current_state := RASTA_CONNECTION_START\<rparr>) v;
          (now, v) = now_ns v
      in map_con (\<lambda>c. c\<lparr>handshake_timeout_event := enable_timed_event (handshake_timeout_event c) now\<rparr>) v)"

lemma client_ready_fields:
  assumes "client_ready t = (ts, w)"
  shows "sr_ok t w" "net w = net t" "chan w = chan t" "cfg w = cfg t" "my_id (con w) = my_id (con t)"
    "remote_id (con w) = remote_id (con t)" "sn_t (con w) = initial_sequence_number (cfg t)" "role (con w) = RASTA_ROLE_CLIENT"
  using assms
  by (auto simp: client_ready_def Let_def split_beta sr_ok_simps sr_init_connection_def sr_neutral_now [THEN sr_neutral_iff(1)])
    (simp_all add: map_con_def now_ms_def cur_timestamp_def clock_gettime_def Let_def sr_init_connection_def sr_reset_connection_def)

lemma request_sent_fields:
  "sr_ok v (request_sent v)" "net (request_sent v) = net v" "chan (request_sent v) = chan v"
  "current_state (con (request_sent v)) = RASTA_CONNECTION_START" "role (con (request_sent v)) = role (con v)"
  "sn_t (con (request_sent v)) = sn_t (con v) + 1" "my_id (con (request_sent v)) = my_id (con v)"
  "remote_id (con (request_sent v)) = remote_id (con v)"
  by (simp add: request_sent_def Let_def split_beta sr_ok_simps sr_neutral_now [THEN sr_neutral_iff(1)])
    (simp_all add: request_sent_def map_con_def now_ns_def get_nanotime_def clock_gettime_def Let_def split_beta)

lemma connect_start_eq:
  assumes "redundancy_channel_connect s = Some (0, t)" and "ucast (remote_id (con s)) = rasta_id_remote (general (cfg s))"
    and "client_ready t = (ts, w)"
    and "createConnectionRequest (remote_id (con t)) (my_id (con t)) (initial_sequence_number (cfg t)) ts
      (send_max (sending (cfg t))) RASTA_VERSION (hashing_context (chan t)) = Some q"
    and "redundancy_mux_send q (role (con w)) w = Some v"
  shows "sr_connect_start s = Some (True, request_sent v)"
proof -
  define t1 where "t1 = map_con (sr_init_connection RASTA_ROLE_CLIENT) t"
  define t2 where "t2 = map_con (\<lambda>c. c\<lparr>sn_t := initial_sequence_number (cfg t1), cs_t := 0\<rparr>) t1"
  define t3 where "t3 = snd (now_ms t2)"
  define t4 where "t4 = map_con (\<lambda>c. c\<lparr>cts_r := fst (now_ms t2), t_i := t_max (sending (cfg t3))\<rparr>) t3"
  define t5 where "t5 = snd (now_ms t4)"
  have w: "ts = fst (now_ms t4)" "w = map_con (\<lambda>c. c\<lparr>sn_i := sn_t c\<rparr>) t5"
    using assms(3) by (simp_all add: client_ready_def Let_def split_beta t1_def t2_def t3_def t4_def t5_def)
  have t5: "chan t5 = chan t" "cfg t5 = cfg t" "remote_id (con t5) = remote_id (con t)" "my_id (con t5) = my_id (con t)"
    "sn_t (con t5) = initial_sequence_number (cfg t)" "con t5 = con t4" "chan t4 = chan t"
    by (simp_all add: t1_def t2_def t3_def t4_def t5_def map_con_def now_ms_def cur_timestamp_def clock_gettime_def Let_def
        sr_init_connection_def sr_reset_connection_def)
  show ?thesis
    using assms(1,2,4,5) client_ready_fields [OF assms(3)] t5
    by (simp add: sr_connect_start_def split_beta Let_def t1_def [symmetric] t2_def [symmetric] t3_def [symmetric]
        t4_def [symmetric] t5_def [symmetric] w [symmetric] request_sent_def)
qed

lemma connect_start_sends:
  assumes "redundancy_channel_connect s = Some (0, t)" and "sr_inv t" and "net_ok (net t)"
    and "list_all connected (transport_channels (chan t))"
    and "ucast (remote_id (con s)) = rasta_id_remote (general (cfg s))"
  shows "\<exists>s' q ts. sr_connect_start s = Some (True, s') \<and>
    createConnectionRequest (remote_id (con t)) (my_id (con t)) (initial_sequence_number (cfg t)) ts
      (send_max (sending (cfg t))) RASTA_VERSION (hashing_context (chan t)) = Some q \<and>
    wire (net s') = wire (net t) @ map (wire_on (red_frame (hashing_context (chan t))
      (createRedundancyPacket (ucast (seq_tx (chan t))) q (crc_type (redundancy (cfg t)))))) (transport_channels (chan t)) \<and>
    sr_ok t s' \<and> net_ok (net s') \<and> transport_channels (chan s') = transport_channels (chan t) \<and>
    current_state (con s') = RASTA_CONNECTION_START \<and> role (con s') = RASTA_ROLE_CLIENT \<and>
    sn_t (con s') = initial_sequence_number (cfg t) + 1 \<and> my_id (con s') = my_id (con t) \<and>
    remote_id (con s') = remote_id (con t)"
proof -
  obtain ts w where ready: "client_ready t = (ts, w)" by (cases "client_ready t") auto
  note w = client_ready_fields [OF ready]
  have inv: "sr_inv w" using w(1) assms(2) by (simp add: sr_ok_def)
  obtain q where q: "createConnectionRequest (remote_id (con t)) (my_id (con t)) (initial_sequence_number (cfg t)) ts
      (send_max (sending (cfg t))) RASTA_VERSION (hashing_context (chan t)) = Some q"
    by (simp add: createConnectionRequest_def connection_payload_eq RASTA_VERSION_def)
  have fit: "fits_wire w q"
    using q inv by (intro connection_payload_fits [of RASTA_TYPE_CONNREQ]) (auto simp: createConnectionRequest_def w(3))
  have "filter connected (transport_channels (chan t)) = transport_channels (chan t)"
    using assms(4) by (simp add: list_all_iff)
  with redundancy_mux_send_ok [OF sendable_fits [OF inv fit], of "role (con w)"] assms(3,4) obtain v where
    v: "redundancy_mux_send q (role (con w)) w = Some v" "transport_channels (chan v) = transport_channels (chan t)"
      "wire (net v) = wire (net t) @ map (wire_on (red_frame (hashing_context (chan t))
        (createRedundancyPacket (ucast (seq_tx (chan t))) q (crc_type (redundancy (cfg t)))))) (transport_channels (chan t))"
    by (auto simp: list_all_iff w)
  note k = redundancy_mux_send_keeps [OF v(1)]
  have "sr_ok t (request_sent v)"
    using w(1) sr_ok_mux_send [OF v(1) fit] request_sent_fields(1) by (blast intro: sr_ok_trans)
  with connect_start_eq [OF assms(1,5) ready q v(1)] show ?thesis
    using v(2,3) q k w assms(3)
    by (intro exI [of _ "request_sent v"] exI [of _ q] exI [of _ ts]) (simp add: request_sent_fields net_ok_def)
qed

lemma example_config_ok: "config_ok example_config" "blank_ok example_junk example_config example_st"
proof -
  show "config_ok example_config"
    by (simp add: config_ok_def safety_code_ok_def example_config_def crc_len_def crc_init_opt_b_def)
  show "blank_ok example_junk example_config example_st"
    by (simp add: blank_ok_def example_junk_def example_defs)
qed

lemma example_dialled:
  obtains s t where "rasta_lib_init_configuration example_junk example_config example_st = Some s"
    "redundancy_channel_connect s = Some (0, t)" "sr_inv t" "net_ok (net t)" "list_all connected (transport_channels (chan t))"
    "length (transport_channels (chan t)) = 2" "wire (net t) = []" "cfg t = example_config"
    "con t = initial_connection example_config" "ucast (remote_id (con s)) = rasta_id_remote (general (cfg s))"
proof (rule example_init)
  fix s assume s: "rasta_lib_init_configuration example_junk example_config example_st = Some s"
    "con s = initial_connection example_config" "cfg s = example_config" "net_ok (net s)" "wire (net s) = []"
    "transport_lib s = TCP" "length (transport_channels (chan s)) = 2" "map ts_id (transport_sockets (mux s)) = [0, 1]"
  obtain t where t: "redundancy_channel_connect s = Some (0, t)" "quiet_frame (redundancy_mux_init s) t"
    "list_all connected (transport_channels (chan t))" "length (transport_channels (chan t)) = 2"
    using connect_two_channels [OF s(4,6-8)] by blast
  have sr: "sr_inv s" using init_establishes_inv(2) [OF s(1) example_config_ok] .
  have "module_error t = module_error s"
    using transport_frameD(5) [OF quiet_frameD(1) [OF t(2)]] by (simp add: redundancy_mux_init_def map_chan_def)
  then have "sr_inv t" using sr endpoint_ok_channel_connect [OF t(1)] by (simp add: endpoint_ok_def sr_inv_def)
  moreover have "net_ok (net t)" "wire (net t) = []"
    using net_ok_frame [OF quiet_frameD(1) [OF t(2)]] quiet_frameD(2) [OF t(2)] s(4,5)
    by (simp_all add: redundancy_mux_init_def map_chan_def)
  moreover have "con t = con s" "cfg t = cfg s"
    using transport_frameD [OF quiet_frameD(1) [OF t(2)]] by (simp_all add: redundancy_mux_init_def map_chan_def)
  moreover have "ucast (remote_id (con s)) = rasta_id_remote (general (cfg s))"
    by (simp add: s(2,3) initial_connection_def init_connection_events_def example_config_def)
  ultimately show thesis using that s(1-3) t(1,3,4) by simp
qed

lemma example_connecting:
  obtains s where "reachable example_junk example_config example_st s" "length (wire (net s)) = 2"
    "module_error s = RASTA_ERRORS_NONE"
proof (rule example_dialled)
  fix s t assume s: "rasta_lib_init_configuration example_junk example_config example_st = Some s"
    and t: "redundancy_channel_connect s = Some (0, t)" "sr_inv t" "net_ok (net t)" "list_all connected (transport_channels (chan t))"
    "length (transport_channels (chan t)) = 2" "wire (net t) = []" "cfg t = example_config"
    "con t = initial_connection example_config" "ucast (remote_id (con s)) = rasta_id_remote (general (cfg s))"
  from connect_start_sends [OF t(1-4,9)] t(2,5,6) obtain s' where "sr_connect_start s = Some (True, s')"
    "length (wire (net s')) = 2" "sr_inv s'"
    by (fastforce simp: sr_ok_def)
  with that [of s'] reachable.connecting [OF reachable.initial [OF s]] show thesis by (auto simp: sr_inv_def)
qed

theorem reachable_invariant_witness:
  "\<exists>s. reachable example_junk example_config example_st s \<and> length (wire (net s)) = 2 \<and>
     module_error s = RASTA_ERRORS_NONE \<and> length (items (fifo_retransmission (con s))) \<le> 4 \<and>
     dq_count (defer_q (chan s)) \<le> 4"
proof (rule example_connecting)
  fix s assume s: "reachable example_junk example_config example_st s" "length (wire (net s)) = 2"
    "module_error s = RASTA_ERRORS_NONE"
  with reachable_invariant [OF s(1) example_config_ok] show ?thesis
    by (auto simp: example_config_def intro!: exI [of _ s])
qed

theorem wire_messages_well_formed_witness:
  "\<exists>s w. reachable example_junk example_config example_st s \<and> w \<in> set (wire (net s)) \<and>
     (\<exists>p. red_packet_wf (hashing_context (chan s)) p \<and> length (wire_bytes w) = unat (red_length p))"
proof (rule example_connecting)
  fix s assume s: "reachable example_junk example_config example_st s" "length (wire (net s)) = 2"
    "module_error s = RASTA_ERRORS_NONE"
  then have w: "hd (wire (net s)) \<in> set (wire (net s))" by (cases "wire (net s)") auto
  from s(1) w wire_messages_well_formed [OF s(1) example_config_ok s(3) w] show ?thesis by blast
qed

end
