(* ===== verification/Rasta_Transitions.thy ===== *)
theory Rasta_Transitions
  imports Rasta_Reachable
begin

text \<open>
  The state machine of the safety and retransmission layer: the table of states that a received
  packet leads to, by role, state, type and the outcome of the checks, and that \<open>sr_receive\<close>
  implements it, with two exceptions where the code does not do what its table says.
\<close>

section \<open>What sending keeps of the connection\<close>

text \<open>Everything but the send-side queues and counter and the timers.\<close>

definition kept :: "rasta_connection \<Rightarrow> _" where
  "kept c = (current_state c, role c, hb_locked c, is_new c, sn_r c, sn_i c, cs_t c, cs_r c, ts_r c, cts_r c,
     fifo_receive c, my_id c, remote_id c, errors c, connected_recv_buffer_size c)"

definition keeps :: "rasta_st \<Rightarrow> rasta_st \<Rightarrow> bool" where
  "keeps s s' \<longleftrightarrow> kept (con s') = kept (con s) \<and> cfg s' = cfg s"

lemma keeps_refl [simp]: "keeps s s"
  by (simp add: keeps_def)

lemma keeps_trans: "keeps s t \<Longrightarrow> keeps t u \<Longrightarrow> keeps s u"
  by (simp add: keeps_def)

lemma keepsD:
  assumes "keeps s s'"
  shows "current_state (con s') = current_state (con s)" and "role (con s') = role (con s)"
    and "sn_r (con s') = sn_r (con s)" and "cs_t (con s') = cs_t (con s)" and "cs_r (con s') = cs_r (con s)"
    and "ts_r (con s') = ts_r (con s)" and "cts_r (con s') = cts_r (con s)"
    and "fifo_receive (con s') = fifo_receive (con s)" and "errors (con s') = errors (con s)"
    and "hb_locked (con s') = hb_locked (con s)" and "cfg s' = cfg s"
  using assms by (simp_all add: keeps_def kept_def)

lemma now_ns_simps [simp]: "con (snd (now_ns s)) = con s" "cfg (snd (now_ns s)) = cfg s" "cfg (snd (now_ms s)) = cfg s"
  by (simp_all add: now_ns_def now_ms_def get_nanotime_def cur_timestamp_def clock_gettime_def Let_def)

lemma keeps_neutral [simp]:
  "keeps s (snd (now_ms t)) = keeps s t" "keeps s (snd (now_ns t)) = keeps s t"
  "keeps s (reschedule_heartbeat t) = keeps s t"
  "keeps (snd (now_ms s)) t = keeps s t" "keeps (snd (now_ns s)) t = keeps s t"
  "keeps (s\<lparr>module_error := e\<rparr>) t = keeps s t" "keeps s (t\<lparr>module_error := e\<rparr>) = keeps s t"
  by (simp_all add: keeps_def reschedule_heartbeat_def Let_def split_beta map_con_def kept_def)

lemma keeps_map_con [simp]:
  assumes "\<And>c. kept (f c) = kept c"
  shows "keeps s (map_con f t) = keeps s t" and "keeps (map_con f s) t = keeps s t"
  using assms by (simp_all add: keeps_def map_con_def)

lemma kept_update [simp]:
  "kept (c\<lparr>sn_t := a\<rparr>) = kept c" "kept (c\<lparr>fifo_send := q\<rparr>) = kept c" "kept (c\<lparr>fifo_retransmission := q\<rparr>) = kept c"
  "kept (c\<lparr>send_event := e\<rparr>) = kept c" "kept (c\<lparr>send_heartbeat_event := e\<rparr>) = kept c" "kept (c\<lparr>timeout_event := e\<rparr>) = kept c"
  by (simp_all add: kept_def)

lemma keeps_mux_send: "redundancy_mux_send p r s = Some s' \<Longrightarrow> keeps s s'"
  using redundancy_mux_send_keeps(1,2) [of p r s s'] by (simp add: keeps_def)

lemma keeps_control:
  "sendDisconnectionRequest rsn dts s = Some s' \<Longrightarrow> keeps s s'"
  "sendHeartbeat b s = Some s' \<Longrightarrow> keeps s s'"
  "sendRetransmissionRequest s = Some s' \<Longrightarrow> keeps s s'"
  "sendRetransmissionResponse s = Some s' \<Longrightarrow> keeps s s'"
  by (auto simp: sendDisconnectionRequest_def sendHeartbeat_def sendRetransmissionRequest_def
      sendRetransmissionResponse_def Option.bind_eq_Some_conv Let_def split_beta split: if_splits dest!: keeps_mux_send)

lemma keeps_send_data_packet: "send_data_packet n s = Some s' \<Longrightarrow> keeps s s'"
  by (auto simp: send_data_packet_def Option.bind_eq_Some_conv Let_def split_beta dest!: keeps_mux_send)

lemma keeps_data_send_event: "data_send_event s = Some (r, s') \<Longrightarrow> keeps s s'"
  by (auto simp: data_send_event_def Option.bind_eq_Some_conv Let_def split: if_splits dest!: keeps_send_data_packet)

lemma keeps_remove_confirmed_loop: "remove_confirmed_loop es s = Some s' \<Longrightarrow> keeps s s'"
  by (induction es arbitrary: s) (fastforce simp: Option.bind_eq_Some_conv Let_def split: if_splits)+

lemma keeps_remove_confirmed: "sr_remove_confirmed_messages s = Some s' \<Longrightarrow> keeps s s'"
  by (auto simp: sr_remove_confirmed_messages_def Option.bind_eq_Some_conv split: if_splits
      dest!: keeps_remove_confirmed_loop keeps_data_send_event intro: keeps_trans)

lemma keeps_retransmit_packet: "retransmit_packet b s = Some s' \<Longrightarrow> keeps s s'"
  by (auto simp: retransmit_packet_def Option.bind_eq_Some_conv Let_def split_beta dest!: keeps_mux_send)

lemma keeps_retransmit_loop: "retransmit_loop bs s = Some s' \<Longrightarrow> keeps s s'"
  by (induction bs arbitrary: s) (auto simp: Option.bind_eq_Some_conv dest!: keeps_retransmit_packet intro: keeps_trans)

lemma keeps_retransmit_data: "sr_retransmit_data s = Some s' \<Longrightarrow> keeps s s'"
  by (auto simp: sr_retransmit_data_def Option.bind_eq_Some_conv Let_def split: if_splits
      dest!: keeps_retransmit_loop keeps_control(2) intro: keeps_trans)

section \<open>State changes\<close>

lemma state_add_app_messages: "current_state (con (add_app_messages p ms s)) = current_state (con s)"
  by (induction ms arbitrary: s)
    (auto simp: sr_update_timeout_interval_def sr_diagnostic_update_def reset_diagnostic_def Let_def split_beta map_con_def)

lemma state_add_to_buffer: "sr_add_app_messages_to_buffer p s = Some s' \<Longrightarrow> current_state (con s') = current_state (con s)"
  by (auto simp: sr_add_app_messages_to_buffer_def Option.bind_eq_Some_conv state_add_app_messages)

lemma channel_close_con: "redundancy_channel_close s = Some s' \<Longrightarrow> con s' = con s \<and> cfg s' = cfg s"
  using transport_frameD [OF quiet_frameD(1) [OF close_loop_frame]]
  by (fastforce simp: redundancy_channel_close_def)

lemma state_close: "sr_close_connection rsn dts s = Some s' \<Longrightarrow> current_state (con s') = RASTA_CONNECTION_CLOSED"
  by (auto simp: sr_close_connection_def Option.bind_eq_Some_conv Let_def map_con_def sr_reset_connection_def
      split: if_splits dest!: channel_close_con)

lemma close_keeps:
  assumes "sr_close_connection rsn dts s = Some s'"
  shows "current_state (con s') = RASTA_CONNECTION_CLOSED" and "role (con s') = role (con s)"
    and "cts_r (con s') = cts_r (con s)" and "cfg s' = cfg s"
proof -
  have reset: "keeps s t \<Longrightarrow> role (con t) = role (con s) \<and> cts_r (con t) = cts_r (con s) \<and> cfg t = cfg s" for s t
    by (simp add: keepsD)
  have "role (con s') = role (con s) \<and> cts_r (con s') = cts_r (con s) \<and> cfg s' = cfg s"
  proof (cases "current_state (con s) = RASTA_CONNECTION_DOWN \<or> current_state (con s) = RASTA_CONNECTION_CLOSED")
    case True
    with assms show ?thesis
      by (auto simp: sr_close_connection_def map_con_def sr_reset_connection_def dest!: channel_close_con)
  next
    case False
    then obtain t where t: "sendDisconnectionRequest rsn dts (map_con sr_reset_connection s) = Some t"
      and "redundancy_channel_close (map_con (\<lambda>c. c\<lparr>current_state := RASTA_CONNECTION_CLOSED\<rparr>) t) = Some s'"
      using assms by (auto simp: sr_close_connection_def Option.bind_eq_Some_conv Let_def)
    with reset [OF keeps_control(1) [OF t]] show ?thesis
      by (auto simp: map_con_def sr_reset_connection_def dest!: channel_close_con)
  qed
  then show "role (con s') = role (con s)" and "cts_r (con s') = cts_r (con s)" and "cfg s' = cfg s" by simp_all
qed (use assms state_close in blast)

section \<open>The state table\<close>

text \<open>
  What the checks of a packet say: safety code, addresses, number range and confirmed number
  (\<open>v_valid\<close>), the expected sequence number, a timely confirmed timestamp, a protocol version that
  can be accepted; and whether the configuration asks for a key exchange.
\<close>

record verdict =
  v_valid :: bool
  v_in_seq :: bool
  v_in_time :: bool
  v_version :: bool
  v_keyed :: bool

definition acceptable_version :: "rasta_st \<Rightarrow> RastaPacket \<Rightarrow> bool" where
  "acceptable_version s p =
     (case extractRastaConnectionData (factory_error s) p of
        None \<Rightarrow> False
      | Some (cd, _) \<Rightarrow>
          pkt_type p = RASTA_TYPE_CONNREQ \<and>
            (compare_version RASTA_VERSION (version cd) = 0 \<or> compare_version RASTA_VERSION (version cd) = -1) \<or>
          version_accepted (accepted_versions (cfg s)) (version cd))"

definition verdict_of :: "rasta_st \<Rightarrow> RastaPacket \<Rightarrow> verdict" where
  "verdict_of s p =
     \<lparr>v_valid = (checksum_correct p \<and> sr_message_authentic (con s) p \<and>
        sr_sn_range_valid (con s) (sending (cfg s)) p \<and> sr_cs_valid (con s) p),
      v_in_seq = sr_sn_in_seq (con s) p, v_in_time = sr_cts_in_seq (con s) (sending (cfg s)) p,
      v_version = acceptable_version s p, v_keyed = (kex_mode (cfg s) \<noteq> KEY_EXCHANGE_MODE_NONE)\<rparr>"

text \<open>A connection is opened from the closed states; any other request closes it.\<close>

definition next_connreq :: "verdict \<Rightarrow> rasta_sr_state \<Rightarrow> rasta_sr_state" where
  "next_connreq v st =
     (if st \<in> {RASTA_CONNECTION_CLOSED, RASTA_CONNECTION_DOWN} \<and> v_valid v \<and> v_version v
      then RASTA_CONNECTION_START else RASTA_CONNECTION_CLOSED)"

text \<open>Only a client that has asked for it takes a response.\<close>

definition next_connresp :: "rasta_role \<Rightarrow> verdict \<Rightarrow> rasta_sr_state \<Rightarrow> rasta_sr_state" where
  "next_connresp r v st =
     (if \<not> v_valid v then RASTA_CONNECTION_CLOSED
      else if st = RASTA_CONNECTION_START \<and> r = RASTA_ROLE_CLIENT \<and> v_version v then RASTA_CONNECTION_UP
      else if st \<in> {RASTA_CONNECTION_START, RASTA_CONNECTION_UP, RASTA_CONNECTION_RETRREQ, RASTA_CONNECTION_RETRRUN}
      then RASTA_CONNECTION_CLOSED else st)"

text \<open>
  The packets of an established connection, once they are valid. A gap in the numbers leads to
  \<open>RETRREQ\<close>, a late confirmation or a packet out of place closes the connection.
\<close>

definition next_data :: "verdict \<Rightarrow> rasta_sr_state \<Rightarrow> rasta_sr_state" where
  "next_data v st =
     (if st = RASTA_CONNECTION_START then RASTA_CONNECTION_CLOSED
      else if st \<in> {RASTA_CONNECTION_KEX_REQ, RASTA_CONNECTION_KEX_RESP, RASTA_CONNECTION_KEX_AUTH}
      then if v_in_seq v then RASTA_CONNECTION_CLOSED else st
      else if st \<in> {RASTA_CONNECTION_UP, RASTA_CONNECTION_RETRRUN}
      then if \<not> v_in_seq v then RASTA_CONNECTION_RETRREQ
           else if v_in_time v then st else RASTA_CONNECTION_CLOSED
      else st)"

definition next_retrdata :: "verdict \<Rightarrow> rasta_sr_state \<Rightarrow> rasta_sr_state" where
  "next_retrdata v st =
     (if st = RASTA_CONNECTION_UP then RASTA_CONNECTION_CLOSED
      else if st = RASTA_CONNECTION_RETRRUN
      then if \<not> v_in_seq v then RASTA_CONNECTION_RETRREQ
           else if v_in_time v then st else RASTA_CONNECTION_CLOSED
      else st)"

definition next_retrreq :: "verdict \<Rightarrow> rasta_sr_state \<Rightarrow> rasta_sr_state" where
  "next_retrreq v st =
     (if v_in_seq v then if st = RASTA_CONNECTION_RETRRUN then RASTA_CONNECTION_CLOSED else st
      else if st \<in> {RASTA_CONNECTION_UP, RASTA_CONNECTION_RETRREQ, RASTA_CONNECTION_RETRRUN}
      then RASTA_CONNECTION_RETRREQ else st)"

definition next_retrresp :: "rasta_sr_state \<Rightarrow> rasta_sr_state" where
  "next_retrresp st = (if st = RASTA_CONNECTION_RETRREQ then RASTA_CONNECTION_RETRRUN else RASTA_CONNECTION_CLOSED)"

text \<open>The first heartbeat of the client completes the handshake of the server; a client in \<open>START\<close> closes.\<close>

definition next_hb :: "rasta_role \<Rightarrow> verdict \<Rightarrow> rasta_sr_state \<Rightarrow> rasta_sr_state" where
  "next_hb r v st =
     (if st = RASTA_CONNECTION_START
      then if r = RASTA_ROLE_SERVER \<and> v_in_seq v \<and> v_in_time v
           then if v_keyed v then RASTA_CONNECTION_KEX_REQ else RASTA_CONNECTION_UP
           else RASTA_CONNECTION_CLOSED
      else if \<not> v_in_seq v
      then if st \<in> {RASTA_CONNECTION_UP, RASTA_CONNECTION_RETRRUN} then RASTA_CONNECTION_RETRREQ else st
      else if st \<in> {RASTA_CONNECTION_UP, RASTA_CONNECTION_RETRRUN, RASTA_CONNECTION_KEX_REQ,
             RASTA_CONNECTION_KEX_RESP, RASTA_CONNECTION_KEX_AUTH}
      then if \<not> v_in_time v then RASTA_CONNECTION_CLOSED
           else if st = RASTA_CONNECTION_RETRRUN then RASTA_CONNECTION_UP else st
      else st)"

definition sr_next :: "rasta_role \<Rightarrow> verdict \<Rightarrow> rasta_conn_type \<Rightarrow> rasta_sr_state \<Rightarrow> rasta_sr_state" where
  "sr_next r v ty st =
     (if ty = RASTA_TYPE_CONNREQ then next_connreq v st
      else if ty = RASTA_TYPE_CONNRESP then next_connresp r v st
      else if \<not> v_valid v then st
      else if ty = RASTA_TYPE_DATA then next_data v st
      else if ty = RASTA_TYPE_RETRDATA then next_retrdata v st
      else if ty = RASTA_TYPE_RETRREQ then next_retrreq v st
      else if ty = RASTA_TYPE_RETRRESP then next_retrresp st
      else if ty = RASTA_TYPE_HB then next_hb r v st
      else if ty = RASTA_TYPE_DISCREQ then RASTA_CONNECTION_CLOSED
      else st)"

text \<open>
  Where the code leaves the table. \<open>handle_hb\<close> says "disconnect and close" for a heartbeat in \<open>START\<close>
  that is out of sequence or reaches a client, closes the connection, does not return, and opens it.
  \<open>handle_retrreq\<close> does not look at the state when the number is out of sequence: a connection that is
  closed or still being opened moves to \<open>RETRREQ\<close> as well.
\<close>

definition reopened :: "rasta_role \<Rightarrow> verdict \<Rightarrow> rasta_conn_type \<Rightarrow> rasta_sr_state \<Rightarrow> bool" where
  "reopened r v ty st \<longleftrightarrow> v_valid v \<and> ty = RASTA_TYPE_HB \<and> st = RASTA_CONNECTION_START \<and>
     (r = RASTA_ROLE_CLIENT \<or> \<not> v_in_seq v) \<and> v_in_time v"

definition asked_too_early :: "verdict \<Rightarrow> rasta_conn_type \<Rightarrow> rasta_sr_state \<Rightarrow> bool" where
  "asked_too_early v ty st \<longleftrightarrow> v_valid v \<and> ty = RASTA_TYPE_RETRREQ \<and> \<not> v_in_seq v \<and>
     st \<notin> {RASTA_CONNECTION_UP, RASTA_CONNECTION_RETRREQ, RASTA_CONNECTION_RETRRUN}"

lemma state_updates [simp]:
  "current_state (update_connection_attrs p c) = current_state c"
  "current_state (update_confirmed_attrs p c) = current_state c"
  "current_state (con (set_state st s)) = st"
  "current_state (con (map_errors f s)) = current_state (con s)"
  "current_state (con (enable_heartbeat s)) = current_state (con s)"
  "current_state (con (enable_timeout s)) = current_state (con s)"
  "current_state (con (sr_update_timeout_interval t s)) = current_state (con s)"
  "current_state (con (sr_diagnostic_update p s)) = current_state (con s)"
  by (simp_all add: update_connection_attrs_def update_confirmed_attrs_def set_state_def map_errors_def map_con_def
      enable_heartbeat_def enable_timeout_def sr_update_timeout_interval_def sr_diagnostic_update_def
      reset_diagnostic_def Let_def split_beta)

lemma state_map_con: "(\<And>c. current_state (f c) = current_state c) \<Longrightarrow> current_state (con (map_con f s)) = current_state (con s)"
  by (simp add: map_con_def)

lemmas state_dests = state_close state_add_to_buffer keeps_control [THEN keepsD(1)]
  keeps_remove_confirmed [THEN keepsD(1)] keeps_retransmit_data [THEN keepsD(1)] channel_close_con

lemma verdict_checks:
  "v_in_seq (verdict_of s p) = sr_sn_in_seq (con s) p" "v_in_time (verdict_of s p) = sr_cts_in_seq (con s) (sending (cfg s)) p"
  "v_version (verdict_of s p) = acceptable_version s p" "v_keyed (verdict_of s p) = (kex_mode (cfg s) \<noteq> KEY_EXCHANGE_MODE_NONE)"
  by (simp_all add: verdict_of_def)

lemmas handler_states = Option.bind_eq_Some_conv Let_def state_map_con verdict_checks

lemma state_handle_data:
  "handle_data p s = Some (b, s') \<Longrightarrow> current_state (con s') = next_data (verdict_of s p) (current_state (con s))"
  by (cases "current_state (con s)")
    (auto simp: handle_data_def next_data_def handler_states split: if_splits dest!: state_dests)

lemma state_handle_retrdata:
  "handle_retrdata p s = Some (b, s') \<Longrightarrow> current_state (con s') = next_retrdata (verdict_of s p) (current_state (con s))"
  by (auto simp: handle_retrdata_def next_retrdata_def handler_states split: if_splits dest!: state_dests)

lemma state_handle_retrreq:
  "handle_retrreq p s = Some (b, s') \<Longrightarrow> current_state (con s') =
    (if sr_sn_in_seq (con s) p then next_retrreq (verdict_of s p) (current_state (con s)) else RASTA_CONNECTION_RETRREQ)"
  by (auto simp: handle_retrreq_def next_retrreq_def handler_states split: if_splits dest!: state_dests)

lemma state_handle_retrresp:
  "handle_retrresp p s = Some (b, s') \<Longrightarrow> current_state (con s') = next_retrresp (current_state (con s))"
  by (auto simp: handle_retrresp_def next_retrresp_def handler_states split: if_splits dest!: state_dests)

lemma cfg_map_con: "cfg (map_con f s) = cfg s"
  by (simp add: map_con_def)

lemma state_handle_hb_start:
  "handle_hb_start p s = Some (b, s') \<Longrightarrow> current_state (con s') =
    (if sr_cts_in_seq (con s) (sending (cfg s)) p
     then if kex_mode (cfg s) = KEY_EXCHANGE_MODE_NONE then RASTA_CONNECTION_UP else RASTA_CONNECTION_KEX_REQ
     else RASTA_CONNECTION_CLOSED)"
proof -
  assume "handle_hb_start p s = Some (b, s')"
  then obtain u t where u: "(if \<not> sr_sn_in_seq (con s) p
      then if role (con s) = RASTA_ROLE_SERVER then sr_close_connection RASTA_DISC_REASON_SEQNERROR 0 s
           else sr_close_connection RASTA_DISC_REASON_UNEXPECTEDTYPE 0 s
      else Some s) = Some u"
    and t: "(if role (con u) = RASTA_ROLE_CLIENT then sr_close_connection RASTA_DISC_REASON_UNEXPECTEDTYPE 0 u else Some u) = Some t"
    and s': "current_state (con s') = (if sr_cts_in_seq (con t) (sending (cfg t)) p
      then if kex_mode (cfg t) = KEY_EXCHANGE_MODE_NONE then RASTA_CONNECTION_UP else RASTA_CONNECTION_KEX_REQ
      else RASTA_CONNECTION_CLOSED)"
    unfolding handle_hb_start_def Let_def
    by (elim bind_eq_SomeE)
      (rule that, assumption, assumption, auto simp: state_map_con cfg_map_con Option.bind_eq_Some_conv split: if_splits dest!: state_close)
  have "cts_r (con u) = cts_r (con s) \<and> cfg u = cfg s" using u close_keeps(3,4) by (metis option.inject)
  moreover have "cts_r (con t) = cts_r (con u) \<and> cfg t = cfg u" using t close_keeps(3,4) by (metis option.inject)
  ultimately have "sr_cts_in_seq (con t) (sending (cfg t)) p = sr_cts_in_seq (con s) (sending (cfg s)) p" "cfg t = cfg s"
    by (simp_all add: sr_cts_in_seq_def)
  with s' show ?thesis by simp
qed

lemma set_state_fixed: "set_state x s = s \<Longrightarrow> current_state (con s) = x"
  by (metis state_updates(3))

lemma state_handle_hb:
  "handle_hb p s = Some (b, s') \<Longrightarrow> current_state (con s) \<noteq> RASTA_CONNECTION_START \<Longrightarrow>
    current_state (con s') = next_hb (role (con s)) (verdict_of s p) (current_state (con s))"
  by (auto simp: handle_hb_def next_hb_def handler_states split: if_splits dest!: state_dests dest: set_state_fixed)

lemma state_handle_discreq:
  "handle_discreq p s = Some (b, s') \<Longrightarrow> current_state (con s') = RASTA_CONNECTION_CLOSED"
  by (auto simp: handle_discreq_def Option.bind_eq_Some_conv Let_def map_con_def sr_reset_connection_def dest!: state_dests)

lemma packet_types_distinct [simp]:
  "RASTA_TYPE_CONNREQ \<noteq> RASTA_TYPE_CONNRESP" "RASTA_TYPE_CONNRESP \<noteq> RASTA_TYPE_CONNREQ"
  "RASTA_TYPE_HB \<noteq> RASTA_TYPE_CONNREQ" "RASTA_TYPE_HB \<noteq> RASTA_TYPE_CONNRESP"
  by (simp_all add: RASTA_TYPE_CONNREQ_def RASTA_TYPE_CONNRESP_def RASTA_TYPE_HB_def)

text \<open>The checks of the two opening packets, on the connection as it was or freshly initialised.\<close>

lemma check_packet_opening:
  assumes "pkt_type p = RASTA_TYPE_CONNREQ \<or> pkt_type p = RASTA_TYPE_CONNRESP"
    and "my_id c = my_id (con s)" and "remote_id c = remote_id (con s)"
    and "pkt_type p = RASTA_TYPE_CONNRESP \<longrightarrow> sn_t c = sn_t (con s)"
  shows "sr_check_packet c (sending (cfg s)) p = v_valid (verdict_of s p)"
  using assms by (elim disjE) (simp_all add: check_defs verdict_of_def)

lemma state_handle_conreq:
  assumes "handle_conreq p s = Some s'" and "pkt_type p = RASTA_TYPE_CONNREQ"
  shows "current_state (con s') = next_connreq (verdict_of s p) (current_state (con s))"
proof -
  have chk: "sr_check_packet (con (set_state x (map_con f (map_con (sr_init_connection r) s)))) (sending (cfg s)) p =
      v_valid (verdict_of s p)" if "\<And>c. my_id (f c) = my_id c" "\<And>c. remote_id (f c) = remote_id c" for x f r
    using that assms(2) by (intro check_packet_opening)
      (simp_all add: set_state_def map_con_def sr_init_connection_def sr_reset_connection_def)
  have cfgs: "cfg (set_state x t) = cfg t" "cfg (map_con f t) = cfg t" "factory_error (set_state x t) = factory_error t"
    "factory_error (map_con f t) = factory_error t" for x f t by (simp_all add: set_state_def map_con_def)
  show ?thesis
    using assms
    by (auto simp: handle_conreq_def next_connreq_def chk cfgs acceptable_version_def verdict_checks
        Option.bind_eq_Some_conv Let_def split_beta state_map_con split: if_splits option.splits
        dest!: state_close keeps_mux_send keepsD(1))
qed

lemma state_handle_conresp:
  assumes "handle_conresp p s = Some s'" and "pkt_type p = RASTA_TYPE_CONNRESP"
  shows "current_state (con s') = next_connresp (role (con s)) (verdict_of s p) (current_state (con s))"
proof -
  have chk: "sr_check_packet (con s) (sending (cfg s)) p = v_valid (verdict_of s p)"
    using assms(2) by (intro check_packet_opening) simp_all
  show ?thesis
    using assms
    by (auto simp: handle_conresp_def next_connresp_def chk acceptable_version_def verdict_checks
        Option.bind_eq_Some_conv Let_def split_beta state_map_con split: if_splits option.splits dest!: state_dests)
qed

section \<open>Properties\<close>

lemma state_handle_received:
  assumes "handle_received_packet p s = Some (b, s')"
    and "pkt_type p \<noteq> RASTA_TYPE_CONNREQ" and "pkt_type p \<noteq> RASTA_TYPE_CONNRESP" and "v_valid (verdict_of s p)"
  shows "current_state (con s') =
    (if reopened (role (con s)) (verdict_of s p) (pkt_type p) (current_state (con s))
     then if v_keyed (verdict_of s p) then RASTA_CONNECTION_KEX_REQ else RASTA_CONNECTION_UP
     else if asked_too_early (verdict_of s p) (pkt_type p) (current_state (con s)) then RASTA_CONNECTION_RETRREQ
     else sr_next (role (con s)) (verdict_of s p) (pkt_type p) (current_state (con s)))"
proof -
  note defs = handle_received_packet_def sr_next_def reopened_def asked_too_early_def assms(4)
  consider "pkt_type p = RASTA_TYPE_DATA" | "pkt_type p = RASTA_TYPE_RETRDATA" | "pkt_type p = RASTA_TYPE_RETRREQ"
    | "pkt_type p = RASTA_TYPE_RETRRESP" | "pkt_type p = RASTA_TYPE_HB" | "pkt_type p = RASTA_TYPE_DISCREQ"
    | "pkt_type p \<notin> {RASTA_TYPE_DATA, RASTA_TYPE_RETRDATA, RASTA_TYPE_RETRREQ, RASTA_TYPE_RETRRESP, RASTA_TYPE_HB, RASTA_TYPE_DISCREQ}"
    by blast
  then show ?thesis
  proof cases
    case 1
    with assms(1) state_handle_data show ?thesis by (simp add: defs rasta_type_defs)
  next
    case 2
    with assms(1) state_handle_retrdata show ?thesis by (simp add: defs rasta_type_defs)
  next
    case 3
    with assms(1) have "handle_retrreq p s = Some (b, s')" by (simp add: handle_received_packet_def rasta_type_defs)
    from state_handle_retrreq [OF this] show ?thesis
      by (auto simp: 3 defs rasta_type_defs next_retrreq_def verdict_checks)
  next
    case 4
    with assms(1) state_handle_retrresp show ?thesis by (simp add: defs rasta_type_defs)
  next
    case 5
    with assms(1) have hb: "handle_hb p s = Some (b, s')" by (simp add: handle_received_packet_def rasta_type_defs)
    show ?thesis
    proof (cases "current_state (con s) = RASTA_CONNECTION_START")
      case True
      with hb have "handle_hb_start p s = Some (b, s')" by (simp add: handle_hb_def)
      from state_handle_hb_start [OF this] True show ?thesis
        by (cases "role (con s)") (auto simp: 5 defs rasta_type_defs next_hb_def verdict_checks)
    next
      case False
      with state_handle_hb [OF hb] show ?thesis by (simp add: 5 defs rasta_type_defs)
    qed
  next
    case 6
    with assms(1) state_handle_discreq show ?thesis by (simp add: defs rasta_type_defs)
  next
    case 7
    with assms(1-3) show ?thesis by (auto simp: defs)
  qed
qed

lemma sr_receive_next:
  assumes "sr_receive p s = Some (b, s')"
  shows "current_state (con s') =
    (if reopened (role (con s)) (verdict_of s p) (pkt_type p) (current_state (con s))
     then if v_keyed (verdict_of s p) then RASTA_CONNECTION_KEX_REQ else RASTA_CONNECTION_UP
     else if asked_too_early (verdict_of s p) (pkt_type p) (current_state (con s)) then RASTA_CONNECTION_RETRREQ
     else sr_next (role (con s)) (verdict_of s p) (pkt_type p) (current_state (con s)))"
proof -
  consider "pkt_type p = RASTA_TYPE_CONNREQ" | "pkt_type p = RASTA_TYPE_CONNRESP"
    | "pkt_type p \<noteq> RASTA_TYPE_CONNREQ" "pkt_type p \<noteq> RASTA_TYPE_CONNRESP" "\<not> v_valid (verdict_of s p)"
    | "pkt_type p \<noteq> RASTA_TYPE_CONNREQ" "pkt_type p \<noteq> RASTA_TYPE_CONNRESP" "v_valid (verdict_of s p)"
    by blast
  then show ?thesis
  proof cases
    case 1
    with assms have "handle_conreq p s = Some s'" by (auto simp: sr_receive_def)
    from state_handle_conreq [OF this 1] show ?thesis
      by (simp add: 1 reopened_def asked_too_early_def sr_next_def rasta_type_defs)
  next
    case 2
    with assms have "handle_conresp p s = Some s'" by (auto simp: sr_receive_def)
    from state_handle_conresp [OF this 2] show ?thesis
      by (simp add: 2 reopened_def asked_too_early_def sr_next_def rasta_type_defs)
  next
    case 3
    with assms show ?thesis
      by (auto simp: sr_receive_def sr_next_def reopened_def asked_too_early_def verdict_of_def split: if_splits)
  next
    case 4
    then have "handle_received_packet p s = Some (b, s')"
      using assms by (auto simp: sr_receive_def sr_rekeying_skipped_def verdict_of_def split: if_splits)
    from state_handle_received [OF this 4(1,2)] 4(3) show ?thesis
      by (simp add: sr_next_def 4(1,2))
  qed
qed

lemma sr_next_up:
  "sr_next r v ty st = RASTA_CONNECTION_UP \<Longrightarrow> st \<noteq> RASTA_CONNECTION_UP \<Longrightarrow> v_valid v"
  by (auto simp: sr_next_def next_connreq_def next_connresp_def split: if_splits)

lemma sr_receive_up:
  assumes "sr_receive p s = Some (b, s')" and "current_state (con s') = RASTA_CONNECTION_UP"
    and "current_state (con s) \<noteq> RASTA_CONNECTION_UP"
  shows "v_valid (verdict_of s p)"
  using sr_receive_next [OF assms(1)] assms(2,3) sr_next_up [of "role (con s)" "verdict_of s p" "pkt_type p" "current_state (con s)"]
  by (auto simp: reopened_def split: if_splits)

text \<open>
  C5: The state of the connection after a received packet is the one of the table \<open>sr_next\<close>, for every
  role, state, packet type and outcome of the checks, with two exceptions, which are exact: a
  heartbeat in \<open>START\<close> that reaches a client or is out of sequence, and is in time, ends in the open
  state although the code closes the connection first and its comments say that it is closed; and a
  retransmission request out of sequence moves a connection that is not established to \<open>RETRREQ\<close>. A
  connection that was not up comes up only by a packet with a correct safety code, from the
  configured peer and with a valid confirmed number.
\<close>

theorem sr_receive_follows_state_machine:
  assumes "sr_receive p s = Some (b, s')"
  shows "current_state (con s') =
    (if reopened (role (con s)) (verdict_of s p) (pkt_type p) (current_state (con s))
     then if v_keyed (verdict_of s p) then RASTA_CONNECTION_KEX_REQ else RASTA_CONNECTION_UP
     else if asked_too_early (verdict_of s p) (pkt_type p) (current_state (con s)) then RASTA_CONNECTION_RETRREQ
     else sr_next (role (con s)) (verdict_of s p) (pkt_type p) (current_state (con s))) \<and>
    (current_state (con s') = RASTA_CONNECTION_UP \<and> current_state (con s) \<noteq> RASTA_CONNECTION_UP \<longrightarrow>
      checksum_correct p \<and> sender_id p = remote_id (con s) \<and> receiver_id p = my_id (con s) \<and> sr_cs_valid (con s) p)"
proof
  show "current_state (con s') = RASTA_CONNECTION_UP \<and> current_state (con s) \<noteq> RASTA_CONNECTION_UP \<longrightarrow>
      checksum_correct p \<and> sender_id p = remote_id (con s) \<and> receiver_id p = my_id (con s) \<and> sr_cs_valid (con s) p"
    using sr_receive_up [OF assms] by (auto simp: verdict_of_def sr_message_authentic_def)
qed (rule sr_receive_next [OF assms])

text \<open>A server in \<open>START\<close> gets its first heartbeat.\<close>

definition starting_server :: rasta_st where
  "starting_server = map_con (\<lambda>c. c\<lparr>current_state := RASTA_CONNECTION_START, role := RASTA_ROLE_SERVER\<rparr>) example_st"

definition example_hb :: RastaPacket where
  "example_hb = example_data\<lparr>pkt_length := 28, pkt_type := RASTA_TYPE_HB, pkt_data := []\<rparr>"

lemma first_heartbeat:
  "\<exists>s'. sr_receive example_hb starting_server = Some (True, s') \<and> current_state (con s') = RASTA_CONNECTION_UP \<and> is_new (con s')"
  by (simp add: sr_receive_def example_hb_def starting_server_def map_con_def check_defs sr_rekeying_skipped_def
      handle_received_packet_def handle_hb_def handle_hb_start_def update_connection_attrs_def set_state_def enable_heartbeat_def
      enable_timeout_def Let_def split_beta example_defs example_data_def)

theorem sr_receive_follows_state_machine_witness:
  "\<exists>s'. sr_receive example_hb starting_server = Some (True, s') \<and> current_state (con s') = RASTA_CONNECTION_UP \<and>
     \<not> reopened RASTA_ROLE_SERVER (verdict_of starting_server example_hb) RASTA_TYPE_HB RASTA_CONNECTION_START \<and>
     sr_next RASTA_ROLE_SERVER (verdict_of starting_server example_hb) RASTA_TYPE_HB RASTA_CONNECTION_START = RASTA_CONNECTION_UP \<and>
     sender_id example_hb = remote_id (con starting_server)"
proof -
  obtain s' where s': "sr_receive example_hb starting_server = Some (True, s')" "current_state (con s') = RASTA_CONNECTION_UP"
    using first_heartbeat by blast
  have st: "role (con starting_server) = RASTA_ROLE_SERVER" "current_state (con starting_server) = RASTA_CONNECTION_START"
    "pkt_type example_hb = RASTA_TYPE_HB" by (simp_all add: starting_server_def map_con_def example_hb_def)
  have "\<not> reopened RASTA_ROLE_SERVER (verdict_of starting_server example_hb) RASTA_TYPE_HB RASTA_CONNECTION_START"
    "\<not> asked_too_early (verdict_of starting_server example_hb) RASTA_TYPE_HB RASTA_CONNECTION_START"
    by (simp_all add: reopened_def asked_too_early_def verdict_checks starting_server_def example_hb_def map_con_def check_defs
        example_defs example_data_def)
  with s' st sr_receive_follows_state_machine [OF s'(1)] show ?thesis by simp
qed

end
