(* ===== verification/Rasta_Buffers.thy ===== *)
theory Rasta_Buffers
  imports Rasta_Transitions
begin

text \<open>
  The buffers of the safety and retransmission layer on a working network: what the send event moves,
  which packets a confirmation removes, what a retransmission sends again and where received data
  goes. Each operation returns, and the lemmas say with which result.
\<close>

section \<open>Sending succeeds on a working network\<close>

text \<open>No call fails, and no channel has to be redialled.\<close>

definition link_ok :: "rasta_st \<Rightarrow> bool" where
  "link_ok s \<longleftrightarrow> net_ok (net s) \<and> (\<forall>c \<in> set (transport_channels (chan s)).
     connected c \<or> role (con s) = RASTA_ROLE_SERVER \<or> transport_lib s = UDP)"

lemma link_ok_simps [simp]:
  "link_ok (snd (now_ms s)) = link_ok s" "link_ok (snd (now_ns s)) = link_ok s"
  "link_ok (s\<lparr>module_error := e\<rparr>) = link_ok s" "link_ok (reschedule_heartbeat s) = link_ok s"
  by (simp_all add: link_ok_def now_ms_def now_ns_def get_nanotime_def cur_timestamp_def clock_gettime_def Let_def
      reschedule_heartbeat_def map_con_def)

lemma link_ok_map_con [simp]: "(\<And>c. role (f c) = role c) \<Longrightarrow> link_ok (map_con f s) = link_ok s"
  by (simp add: link_ok_def map_con_def)

lemma mux_send_returns:
  assumes "sr_inv s" and "link_ok s" and "fits_wire s p"
  shows "\<exists>s'. redundancy_mux_send p (role (con s)) s = Some s' \<and> link_ok s' \<and> sr_ok s s' \<and> con s' = con s \<and>
    transport_channels (chan s') = transport_channels (chan s) \<and>
    wire (net s') = wire (net s) @ map (wire_on (red_frame (hashing_context (chan s))
      (createRedundancyPacket (ucast (seq_tx (chan s))) p (crc_type (redundancy (cfg s))))))
      (filter connected (transport_channels (chan s)))"
proof -
  obtain s' where s': "redundancy_mux_send p (role (con s)) s = Some s'"
    "transport_channels (chan s') = transport_channels (chan s)"
    "wire (net s') = wire (net s) @ map (wire_on (red_frame (hashing_context (chan s))
      (createRedundancyPacket (ucast (seq_tx (chan s))) p (crc_type (redundancy (cfg s))))))
      (filter connected (transport_channels (chan s)))"
    using redundancy_mux_send_ok [OF sendable_fits [OF assms(1,3)], of "role (con s)"] assms(2)
    by (auto simp: link_ok_def)
  note k = redundancy_mux_send_keeps [OF s'(1)]
  have "link_ok s'" using assms(2) s'(2) k by (simp add: link_ok_def net_ok_def)
  with s' k(1) sr_ok_mux_send [OF s'(1) assms(3)] show ?thesis by blast
qed

text \<open>
  What sending the packets \<open>ps\<close> one after the other puts on the wire: each of them on every connected
  channel, with consecutive redundancy numbers from \<open>n\<close>.
\<close>

fun frames_sent :: "rasta_st \<Rightarrow> u64 \<Rightarrow> RastaPacket list \<Rightarrow> wire_message list" where
  "frames_sent s n [] = []"
| "frames_sent s n (p # ps) =
     map (wire_on (red_frame (hashing_context (chan s)) (createRedundancyPacket (ucast n) p (crc_type (redundancy (cfg s))))))
       (filter connected (transport_channels (chan s))) @ frames_sent s (n + 1) ps"

definition links :: "rasta_st \<Rightarrow> _" where
  "links s = (hashing_context (chan s), cfg s, transport_channels (chan s))"

lemma frames_sent_links: "links s = links t \<Longrightarrow> frames_sent s n ps = frames_sent t n ps"
  by (induction ps arbitrary: n) (simp_all add: links_def)

lemma frames_sent_append: "frames_sent s n (ps @ qs) = frames_sent s n ps @ frames_sent s (n + of_nat (length ps)) qs"
  by (induction ps arbitrary: n) (simp_all add: add.assoc)

definition sends :: "RastaPacket list \<Rightarrow> rasta_st \<Rightarrow> rasta_st \<Rightarrow> bool" where
  "sends ps s s' \<longleftrightarrow> links s' = links s \<and> seq_tx (chan s') = seq_tx (chan s) + of_nat (length ps) \<and>
     wire (net s') = wire (net s) @ frames_sent s (seq_tx (chan s)) ps"

lemma sends_Nil [simp]: "sends [] s s"
  by (simp add: sends_def)

lemma sends_trans: "sends ps s t \<Longrightarrow> sends qs t u \<Longrightarrow> sends (ps @ qs) s u"
  using frames_sent_links [of t s] by (simp add: sends_def frames_sent_append add.assoc)

lemma sends_simps [simp]:
  "sends ps s (snd (now_ms t)) = sends ps s t" "sends ps (snd (now_ms s)) t = sends ps s t"
  "sends ps s (reschedule_heartbeat t) = sends ps s t" "sends ps s (map_con f t) = sends ps s t"
  "sends ps (map_con f s) t = sends ps s t"
proof -
  have "sends ps s t' = sends ps s t" "sends ps t' s = sends ps t s"
    if "links t' = links t" "chan t' = chan t" "net t' = net t" for t' t s
    using that frames_sent_links [of t' t] by (simp_all add: sends_def)
  note same = this
  show "sends ps s (snd (now_ms t)) = sends ps s t" "sends ps (snd (now_ms s)) t = sends ps s t"
    "sends ps s (reschedule_heartbeat t) = sends ps s t" "sends ps s (map_con f t) = sends ps s t"
    "sends ps (map_con f s) t = sends ps s t"
    by (rule same; simp add: links_def now_ms_def now_ns_def reschedule_heartbeat_def map_con_def Let_def split_beta)+
qed

lemma sends_mux_send:
  assumes "redundancy_mux_send p r s = Some s'"
    and "transport_channels (chan s') = transport_channels (chan s)"
    and "wire (net s') = wire (net s) @ map (wire_on (red_frame (hashing_context (chan s))
      (createRedundancyPacket (ucast (seq_tx (chan s))) p (crc_type (redundancy (cfg s))))))
      (filter connected (transport_channels (chan s)))"
  shows "sends [p] s s'"
  using redundancy_mux_send_keeps [OF assms(1)] assms(2,3) by (simp add: sends_def links_def)

text \<open>A data packet is put into the retransmission buffer and sent.\<close>

definition buffered :: "bytes \<Rightarrow> rasta_st \<Rightarrow> rasta_st" where
  "buffered b = map_con (\<lambda>c. c\<lparr>fifo_retransmission := snd (queue_push (fifo_retransmission c) b)\<rparr>)"

lemma buffer_and_send:
  assumes "sr_inv s" and "link_ok s" and "data_frame (hashing_context (chan s)) (sr_frame (hashing_context (chan s)) p) p ms"
    and "unat (pkt_length p) \<le> 65100"
  shows "\<exists>s'. redundancy_mux_send p (role (con (buffered (sr_frame (hashing_context (chan s)) p) s)))
      (buffered (sr_frame (hashing_context (chan s)) p) s) = Some s' \<and> link_ok s' \<and> sr_ok s s' \<and> sends [p] s s' \<and>
    con s' = con (buffered (sr_frame (hashing_context (chan s)) p) s)"
proof -
  define w where "w = buffered (sr_frame (hashing_context (chan s)) p) s"
  have sw: "sr_ok s w" unfolding w_def buffered_def using assms(3) by (intro sr_ok_push_retransmission) auto
  then have w: "sr_inv w" "hashing_context (chan w) = hashing_context (chan s)" "link_ok w"
    using assms(1,2) by (auto simp: sr_ok_def sr_frame_rel_def receive_side_def w_def buffered_def)
  have "fits_wire w p" using assms(3,4) by (simp add: fits_wire_def w(2) data_frame_def)
  from mux_send_returns [OF w(1,3) this] obtain x where x: "redundancy_mux_send p (role (con w)) w = Some x" "link_ok x"
    "sr_ok w x" "con x = con w" "sends [p] w x" using sends_mux_send by blast
  have "sends [p] s x" using x(5) by (simp add: w_def buffered_def)
  with x sw show ?thesis unfolding w_def by (blast intro: sr_ok_trans)
qed

text \<open>One data packet: the first messages of the send queue move to the retransmission buffer.\<close>

lemma send_data_packet_returns:
  assumes "sr_inv s" and "link_ok s" and "unat n \<le> length (items (fifo_send (con s)))"
    and "unat n \<le> unat (max_packet (sending (cfg s)))"
  shows "\<exists>s' p. send_data_packet n s = Some s' \<and> link_ok s' \<and> sends [p] s s' \<and>
    items (fifo_send (con s')) = drop (unat n) (items (fifo_send (con s))) \<and>
    fifo_retransmission (con s') = snd (queue_push (fifo_retransmission (con s)) (sr_frame (hashing_context (chan s)) p)) \<and>
    data_frame (hashing_context (chan s)) (sr_frame (hashing_context (chan s)) p) p
      (take (unat n) (items (fifo_send (con s)))) \<and>
    sequence_number p = sn_t (con s) \<and> sn_t (con s') = sn_t (con s) + 1"
proof -
  let ?ctx = "hashing_context (chan s)"
  define ms where "ms = take (unat n) (items (fifo_send (con s)))"
  define q where "q = (fifo_send (con s))\<lparr>items := drop (unat n) (items (fifo_send (con s)))\<rparr>"
  define u where "u = map_con (\<lambda>c. c\<lparr>fifo_send := q\<rparr>) s"
  define v where "v = snd (now_ms u)"
  have "sr_ok s v"
    using sr_ok_pop_send [of q s] by (simp add: v_def u_def q_def set_drop_subset sr_neutral_now [THEN sr_neutral_iff(1)])
  then have v: "sr_inv v" "hashing_context (chan v) = ?ctx" "sr_hashing_context (mux v) = ?ctx"
    "hashing_ok ?ctx" "module_error v = RASTA_ERRORS_NONE"
    using assms(1) by (auto simp: sr_ok_def sr_frame_rel_def sr_inv_def static_ok_def receive_side_def)
  have con_v: "con v = con u" "con u = (con s)\<lparr>fifo_send := q\<rparr>" by (simp_all add: v_def u_def map_con_def)
  have link_v: "link_ok v" using assms(2) by (simp add: v_def u_def)
  have len: "length (encode_messages ms) \<le> 65000"
    using assms(1,4) unfolding ms_def sr_inv_def
    by (intro messages_fit [where config = "cfg s"]) (auto dest: in_set_takeD)
  then have "28 + checksum_len ?ctx + length (encode_messages ms) < 2 ^ 16" using checksum_len_le [of ?ctx] by simp
  from createDataMessage_eq [OF this] obtain p where
    p: "createDataMessage (remote_id (con u)) (my_id (con u)) (sn_t (con u)) (cs_t (con u)) (fst (now_ms u))
       (ts_r (con u)) ms ?ctx = Some p" by blast
  note facts = data_packet_frame [OF v(4) len disjI1 [OF p]]
  have same: "v\<lparr>module_error := RASTA_ERRORS_NONE\<rparr> = v" by (simp add: v(5) [symmetric])
  obtain x where x: "redundancy_mux_send p (role (con (buffered (sr_frame ?ctx p) v))) (buffered (sr_frame ?ctx p) v) = Some x"
      "link_ok x" "con x = con (buffered (sr_frame ?ctx p) v)" "sends [p] v x"
    using buffer_and_send [OF v(1) link_v, of p ms] facts(3,5) unfolding v(2) by blast
  have s': "send_data_packet n s = Some (reschedule_heartbeat (map_con (\<lambda>c. c\<lparr>sn_t := sequence_number p + 1\<rparr>) x))"
    using assms(3) x(1) p facts(4) v(3,5)
    by (simp add: send_data_packet_def pop_messages_eq [THEN iffD2, OF conjI, OF _ conjI, OF _ refl refl]
        ms_def [symmetric] q_def [symmetric] u_def [symmetric] v_def [symmetric] split_beta Let_def same buffered_def)
  have "sends [p] s x" using x(4) by (simp add: v_def u_def)
  then show ?thesis
    using x(1-3) con_v facts(5,6) unfolding s'
    by (intro exI [of _ "reschedule_heartbeat (map_con (\<lambda>c. c\<lparr>sn_t := sequence_number p + 1\<rparr>) x)"] exI [of _ p])
      (simp add: ms_def [symmetric], simp add: reschedule_heartbeat_def Let_def split_beta map_con_def buffered_def q_def)
qed

text \<open>The number of messages the send event takes.\<close>

definition batch :: "rasta_connection \<Rightarrow> rasta_config_info \<Rightarrow> nat" where
  "batch c config = min (unat (max_packet (sending config))) (min (length (items (fifo_send c)))
     (unat (max_retransmission_queue_size config) - length (items (fifo_retransmission c))))"

lemma queue_size_unat: "queue_invar q \<Longrightarrow> unat (queue_size q) = length (items q)"
  using unat_lt [of "capacity q"] by (simp add: queue_invar_def queue_size_def unat_of_nat_bounded)

lemma send_count:
  assumes "sr_inv s" and "queue_invar (fifo_send (con s))"
    and "sr_retransmission_queue_item_count (con s) < max_retransmission_queue_size (cfg s)"
  shows "unat (send_backlog (con s) (cfg s)) = min (length (items (fifo_send (con s))))
      (unat (max_retransmission_queue_size (cfg s)) - length (items (fifo_retransmission (con s))))"
proof -
  let ?m = "max_retransmission_queue_size (cfg s)" and ?r = "queue_size (fifo_retransmission (con s))"
  have r: "unat ?r = length (items (fifo_retransmission (con s)))"
    using assms(1) by (intro queue_size_unat) (simp add: sr_inv_def)
  have "unat (?m - ?r) = unat ?m - unat ?r"
    using assms(3) by (intro unat_sub_le) (simp add: sr_retransmission_queue_item_count_def)
  then show ?thesis
    using r queue_size_unat [OF assms(2)]
    by (auto simp: send_backlog_def sr_retransmission_queue_item_count_def sr_send_queue_item_count_def Let_def
        word_less_nat_alt min_def)
qed

lemma batch_pos:
  assumes "sr_inv s" and "queue_invar (fifo_send (con s))" and "0 < max_packet (sending (cfg s))"
  shows "0 < batch (con s) (cfg s) \<longleftrightarrow>
    sr_retransmission_queue_item_count (con s) < max_retransmission_queue_size (cfg s) \<and> 0 < send_backlog (con s) (cfg s)"
proof (cases "sr_retransmission_queue_item_count (con s) < max_retransmission_queue_size (cfg s)")
  case True
  then show ?thesis using send_count [OF assms(1,2) True] assms(3) by (auto simp: batch_def word_less_nat_alt)
next
  case no_room: False
  have "unat (queue_size (fifo_retransmission (con s))) = length (items (fifo_retransmission (con s)))"
    using assms(1) by (intro queue_size_unat) (simp add: sr_inv_def)
  with no_room show ?thesis
    by (simp add: batch_def sr_retransmission_queue_item_count_def word_less_nat_alt)
qed

lemma data_send_event_returns:
  assumes "sr_inv s" and "link_ok s" and "queue_invar (fifo_send (con s))" and "0 < max_packet (sending (cfg s))"
  shows "\<exists>s'. data_send_event s = Some (False, s') \<and> link_ok s' \<and>
    items (fifo_send (con s)) = take (batch (con s) (cfg s)) (items (fifo_send (con s))) @ items (fifo_send (con s')) \<and>
    (batch (con s) (cfg s) = 0 \<longrightarrow> fifo_retransmission (con s') = fifo_retransmission (con s) \<and>
      sn_t (con s') = sn_t (con s) \<and> sends [] s s') \<and>
    (0 < batch (con s) (cfg s) \<longrightarrow> sn_t (con s') = sn_t (con s) + 1 \<and>
      (\<exists>p. sequence_number p = sn_t (con s) \<and> sends [p] s s' \<and>
        data_frame (hashing_context (chan s)) (sr_frame (hashing_context (chan s)) p) p
          (take (batch (con s) (cfg s)) (items (fifo_send (con s)))) \<and>
        items (fifo_retransmission (con s')) =
          items (fifo_retransmission (con s)) @ [sr_frame (hashing_context (chan s)) p]))"
proof (cases "sr_retransmission_queue_item_count (con s) < max_retransmission_queue_size (cfg s) \<and>
    0 < send_backlog (con s) (cfg s)")
  case True
  let ?n = "send_backlog (con s) (cfg s)" and ?k = "max_packet (sending (cfg s))"
  define n where "n = (if ?n \<ge> ?k then ?k else ?n)"
  have b: "unat n = batch (con s) (cfg s)"
    using send_count [OF assms(1,3)] True by (auto simp: n_def batch_def word_le_nat_alt)
  have pos: "0 < batch (con s) (cfg s)"
    using True batch_pos [OF assms(1,3,4)] by simp
  have "unat n \<le> length (items (fifo_send (con s)))" "unat n \<le> unat ?k"
    unfolding b by (simp_all add: batch_def)
  from send_data_packet_returns [OF assms(1,2) this] obtain t p where
    t: "send_data_packet n s = Some t" "link_ok t"
      "items (fifo_send (con t)) = drop (unat n) (items (fifo_send (con s)))"
      "fifo_retransmission (con t) = snd (queue_push (fifo_retransmission (con s)) (sr_frame (hashing_context (chan s)) p))"
      "data_frame (hashing_context (chan s)) (sr_frame (hashing_context (chan s)) p) p
        (take (unat n) (items (fifo_send (con s))))"
      "sequence_number p = sn_t (con s)" "sn_t (con t) = sn_t (con s) + 1" "sends [p] s t" by blast
  have "\<not> queue_full (fifo_retransmission (con s))"
    using assms(1) pos by (auto simp: sr_inv_def queue_full_def batch_def)
  then have push: "items (fifo_retransmission (con t)) =
      items (fifo_retransmission (con s)) @ [sr_frame (hashing_context (chan s)) p]"
    by (simp add: t(4) queue_push_def)
  define s' where "s' = (if sr_send_queue_item_count (con t) = 0
     then map_con (\<lambda>c. c\<lparr>send_event := disable_timed_event (send_event c)\<rparr>) t else t)"
  have "data_send_event s = Some (False, s')"
    using t(1) True by (simp add: data_send_event_def n_def Let_def s'_def)
  moreover have "link_ok s'" "fifo_send (con s') = fifo_send (con t)" "sn_t (con s') = sn_t (con t)"
    "fifo_retransmission (con s') = fifo_retransmission (con t)"
    using t(2) by (simp_all add: s'_def map_con_def link_ok_def)
  moreover have "sends [p] s s'" using t(8) by (simp add: s'_def)
  ultimately show ?thesis using t(3,5-7) push pos unfolding b by (intro exI [of _ s']) auto
next
  case False
  then have b: "batch (con s) (cfg s) = 0" using batch_pos [OF assms(1,3,4)] by auto
  define s' where "s' = (if sr_send_queue_item_count (con s) = 0
     then map_con (\<lambda>c. c\<lparr>send_event := disable_timed_event (send_event c)\<rparr>) s else s)"
  have "data_send_event s = Some (False, s')" using False by (auto simp: data_send_event_def Let_def s'_def)
  moreover have "link_ok s'" "fifo_send (con s') = fifo_send (con s)" "sn_t (con s') = sn_t (con s)"
    "fifo_retransmission (con s') = fifo_retransmission (con s)"
    using assms(2) by (simp_all add: s'_def map_con_def link_ok_def)
  moreover have "sends [] s s'" by (simp add: s'_def)
  ultimately show ?thesis using b by (intro exI [of _ s']) simp
qed

section \<open>Confirming packets\<close>

lemma map_witness: "\<forall>b \<in> set bs. \<exists>p. b = f p \<and> P p \<Longrightarrow> \<exists>ps. bs = map f ps \<and> (\<forall>p \<in> set ps. P p)"
proof (induction bs)
  case (Cons b bs)
  then obtain p ps where "b = f p" "P p" "bs = map f ps" "\<forall>p \<in> set ps. P p" by auto
  then show ?case by (intro exI [of _ "p # ps"]) simp
qed simp

lemma buffer_packets:
  assumes "sr_inv s"
  shows "\<exists>ps. items (fifo_retransmission (con s)) = map (sr_frame (hashing_context (chan s))) ps \<and>
    (\<forall>p \<in> set ps. \<exists>ms. data_frame (hashing_context (chan s)) (sr_frame (hashing_context (chan s)) p) p ms)"
proof (rule map_witness, rule)
  fix b assume "b \<in> set (items (fifo_retransmission (con s)))"
  with assms obtain p ms where "data_frame (hashing_context (chan s)) b p ms" by (auto simp: sr_inv_def)
  moreover from this have "b = sr_frame (hashing_context (chan s)) p" by (simp add: data_frame_def)
  ultimately show "\<exists>p. b = sr_frame (hashing_context (chan s)) p \<and>
      (\<exists>ms. data_frame (hashing_context (chan s)) (sr_frame (hashing_context (chan s)) p) p ms)" by blast
qed

lemma remove_confirmed_loop_eq:
  assumes "hashing_ok (hashing_context (chan s))" and "\<forall>p \<in> set ps. packet_wf (hashing_context (chan s)) p"
  shows "remove_confirmed_loop (map (sr_frame (hashing_context (chan s))) ps) s =
    Some (map_con (\<lambda>c. c\<lparr>fifo_retransmission := (fifo_retransmission c)\<lparr>items :=
      map (sr_frame (hashing_context (chan s))) (tl (dropWhile (\<lambda>p. sequence_number p \<noteq> cs_r (con s)) ps))\<rparr>\<rparr>) s)"
  using assms(2)
proof (induction ps)
  case (Cons p ps)
  have "bytesToRastaPacket (module_error s) (sr_frame (hashing_context (chan s)) p) (hashing_context (chan s))
      (red_data (uninit s)) = Some (p\<lparr>checksum := sr_code_of (hashing_context (chan s)) p, checksum_correct := True\<rparr>, module_error s)"
    using Cons.prems assms(1) by (intro bytesToRastaPacket_frame) auto
  with Cons show ?case by simp
qed simp

section \<open>Retransmission\<close>

lemma retransmit_packet_returns:
  assumes "sr_inv s" and "link_ok s" and "data_frame (hashing_context (chan s)) b p ms"
  shows "\<exists>s' q. retransmit_packet b s = Some s' \<and> sr_inv s' \<and> link_ok s' \<and> sends [q] s s' \<and>
    hashing_context (chan s') = hashing_context (chan s) \<and>
    fifo_retransmission (con s') = snd (queue_push (fifo_retransmission (con s)) (sr_frame (hashing_context (chan s)) q)) \<and>
    packet_wf (hashing_context (chan s)) q \<and> pkt_data q = pkt_data p \<and> sequence_number q = sn_t (con s) \<and>
    pkt_type q = RASTA_TYPE_RETRDATA \<and> sn_t (con s') = sn_t (con s) + 1"
proof -
  let ?ctx = "hashing_context (chan s)"
  have ctx: "hashing_ok ?ctx" and err: "module_error s = RASTA_ERRORS_NONE"
    using assms(1) by (auto simp: sr_inv_def static_ok_def)
  have same: "s\<lparr>module_error := RASTA_ERRORS_NONE\<rparr> = s" by (simp add: err [symmetric])
  have len: "length (encode_messages ms) \<le> 65000" and enc: "pkt_data p = encode_messages ms"
    using assms(3) by (simp_all add: data_frame_def)
  have "\<forall>m \<in> set ms. length m < 2 ^ 16"
    using len member_le_sum_list [of _ "map length ms"] by (fastforce simp: length_encode_messages)
  then have ms: "extractMessageData (p\<lparr>checksum := sr_code_of ?ctx p, checksum_correct := True\<rparr>) = Some ms"
    using enc by (simp add: extractMessageData_iff)
  have "28 + checksum_len ?ctx + length (encode_messages ms) < 2 ^ 16" using len checksum_len_le [of ?ctx] by simp
  from createDataMessage_eq [OF this, of "remote_id (con s)" "my_id (con s)" "sn_t (con s)" "cs_t (con s)"
      "fst (now_ms s)" "ts_r (con s)"] obtain q where
    q: "createRetransmittedDataMessage (remote_id (con s)) (my_id (con s)) (sn_t (con s)) (cs_t (con s)) (fst (now_ms s))
       (ts_r (con s)) ms ?ctx = Some q" "pkt_type q = RASTA_TYPE_RETRDATA"
    by (auto simp: createRetransmittedDataMessage_def)
  note facts = data_packet_frame [OF ctx len disjI2 [OF q(1)]]
  define v where "v = snd (now_ms s)"
  have v: "sr_inv v" "hashing_context (chan v) = ?ctx" "module_error v = RASTA_ERRORS_NONE" "con v = con s" "link_ok v"
    using sr_ok_now(1) [of s "fst (now_ms s)" v] assms(1,2) err by (auto simp: v_def sr_ok_def sr_inv_def)
  have same_v: "v\<lparr>module_error := RASTA_ERRORS_NONE\<rparr> = v" by (simp add: v(3) [symmetric])
  obtain x where x: "redundancy_mux_send q (role (con (buffered (sr_frame ?ctx q) v))) (buffered (sr_frame ?ctx q) v) = Some x"
      "link_ok x" "con x = con (buffered (sr_frame ?ctx q) v)" "sr_ok v x" "sends [q] v x"
    using buffer_and_send [OF v(1,5), of q ms] facts(3,5) unfolding v(2) by blast
  let ?s' = "reschedule_heartbeat (map_con (\<lambda>c. c\<lparr>sn_t := sn_t c + 1\<rparr>) x)"
  have "retransmit_packet b s = Some ?s'"
    using data_frame_parse [OF ctx assms(3), of "module_error s" "red_data (uninit s)"] ms q(1) facts(4) x(1)
    by (simp add: retransmit_packet_def err same v_def [symmetric] v split_beta Let_def same_v buffered_def)
  moreover have "sr_ok v ?s'" using x(4) by (simp add: sr_ok_simps)
  then have "sr_inv ?s'" "hashing_context (chan ?s') = ?ctx"
    using v(1,2) by (auto simp: sr_ok_def sr_frame_rel_def receive_side_def)
  moreover have "fifo_retransmission (con ?s') = snd (queue_push (fifo_retransmission (con s)) (sr_frame ?ctx q))"
    "sn_t (con ?s') = sn_t (con s) + 1"
    by (simp_all add: x(3) reschedule_heartbeat_def Let_def split_beta map_con_def buffered_def v(4))
  moreover have "sends [q] s ?s'" using x(5) by (simp add: v_def)
  ultimately show ?thesis using facts(1,2,6) q(2) x(2) enc by (intro exI [of _ ?s'] exI [of _ q]) simp
qed

definition retransmitted :: "rasta_hashing_ctx \<Rightarrow> u32 \<Rightarrow> RastaPacket list \<Rightarrow> RastaPacket list \<Rightarrow> bool" where
  "retransmitted ctx sn ps qs \<longleftrightarrow> map pkt_data qs = map pkt_data ps \<and>
     map sequence_number qs = map (\<lambda>i. sn + of_nat i) [0..<length ps] \<and>
     (\<forall>q \<in> set qs. packet_wf ctx q \<and> pkt_type q = RASTA_TYPE_RETRDATA)"

lemma retransmitted_Cons:
  assumes "retransmitted ctx (sn + 1) ps qs" and "pkt_data q = pkt_data p" and "sequence_number q = sn"
    and "packet_wf ctx q" and "pkt_type q = RASTA_TYPE_RETRDATA"
  shows "retransmitted ctx sn (p # ps) (q # qs)"
proof -
  have "map (\<lambda>i. sn + of_nat i) [0..<Suc m] = sn # map (\<lambda>i. sn + 1 + of_nat i) [0..<m]" for m
    by (simp add: upt_conv_Cons map_Suc_upt [symmetric] del: upt_Suc)
  with assms show ?thesis by (simp add: retransmitted_def del: upt_Suc)
qed

lemma retransmit_loop_returns:
  assumes "sr_inv s" and "link_ok s" and "ctx = hashing_context (chan s)"
    and "\<forall>p \<in> set ps. \<exists>ms. data_frame ctx (sr_frame ctx p) p ms"
    and "length (items (fifo_retransmission (con s))) + length ps \<le> unat (capacity (fifo_retransmission (con s)))"
  shows "\<exists>s' qs. retransmit_loop (map (sr_frame ctx) ps) s = Some s' \<and> sr_inv s' \<and> link_ok s' \<and> sends qs s s' \<and>
    hashing_context (chan s') = ctx \<and> retransmitted ctx (sn_t (con s)) ps qs \<and>
    items (fifo_retransmission (con s')) = items (fifo_retransmission (con s)) @ map (sr_frame ctx) qs \<and>
    sn_t (con s') = sn_t (con s) + of_nat (length ps)"
  using assms
proof (induction ps arbitrary: s)
  case Nil
  then show ?case by (auto simp: retransmitted_def)
next
  case (Cons p ps)
  obtain ms where "data_frame (hashing_context (chan s)) (sr_frame ctx p) p ms" using Cons.prems(3,4) by auto
  from retransmit_packet_returns [OF Cons.prems(1,2) this, folded Cons.prems(3)] obtain t q where
    t: "retransmit_packet (sr_frame ctx p) s = Some t" "sr_inv t" "link_ok t" "ctx = hashing_context (chan t)"
      "fifo_retransmission (con t) = snd (queue_push (fifo_retransmission (con s)) (sr_frame ctx q))" "sends [q] s t"
    and q: "packet_wf ctx q" "pkt_data q = pkt_data p" "sequence_number q = sn_t (con s)"
      "pkt_type q = RASTA_TYPE_RETRDATA" "sn_t (con t) = sn_t (con s) + 1" by metis
  have "\<not> queue_full (fifo_retransmission (con s))" using Cons.prems(5) by (simp add: queue_full_def)
  then have push: "items (fifo_retransmission (con t)) = items (fifo_retransmission (con s)) @ [sr_frame ctx q]"
    "capacity (fifo_retransmission (con t)) = capacity (fifo_retransmission (con s))"
    by (simp_all add: t(5) queue_push_def)
  have "\<exists>s' qs. retransmit_loop (map (sr_frame ctx) ps) t = Some s' \<and> sr_inv s' \<and> link_ok s' \<and> sends qs t s' \<and>
    hashing_context (chan s') = ctx \<and> retransmitted ctx (sn_t (con t)) ps qs \<and>
    items (fifo_retransmission (con s')) = items (fifo_retransmission (con t)) @ map (sr_frame ctx) qs \<and>
    sn_t (con s') = sn_t (con t) + of_nat (length ps)"
    using Cons.prems(4,5) push t by (intro Cons.IH) auto
  then obtain s' qs where s': "retransmit_loop (map (sr_frame ctx) ps) t = Some s'" "sr_inv s'" "link_ok s'"
    "hashing_context (chan s') = ctx" "retransmitted ctx (sn_t (con s) + 1) ps qs"
    "items (fifo_retransmission (con s')) = items (fifo_retransmission (con t)) @ map (sr_frame ctx) qs"
    "sn_t (con s') = sn_t (con t) + of_nat (length ps)" "sends qs t s'" by (auto simp: q(5))
  then show ?case
    using t(1) push(1) q retransmitted_Cons [OF s'(5)] sends_trans [OF t(6) s'(8)]
    by (intro exI [of _ s'] exI [of _ "q # qs"]) (simp add: add.assoc)
qed

lemma sendHeartbeat_returns:
  assumes "sr_inv s" and "link_ok s"
  shows "\<exists>s' hb. sendHeartbeat b s = Some s' \<and> link_ok s' \<and> fifo_retransmission (con s') = fifo_retransmission (con s) \<and>
    sn_t (con s') = sn_t (con s) + 1 \<and> sends [hb] s s' \<and> pkt_type hb = RASTA_TYPE_HB \<and> sequence_number hb = sn_t (con s)"
proof -
  define v where "v = snd (now_ms s)"
  have v: "sr_inv v" "link_ok v" "con v = con s"
    using sr_ok_now(1) [of s "fst (now_ms s)" v] assms by (auto simp: v_def sr_ok_def)
  define hb where "hb = createHeartbeat (remote_id (con v)) (my_id (con v)) (sn_t (con v)) (cs_t (con v)) (fst (now_ms s))
       (ts_r (con v)) (sr_hashing_context (mux v))"
  have "fits_wire v hb" unfolding hb_def createHeartbeat_def using v(1) by (intro fits_wire_initializePacket) simp_all
  from mux_send_returns [OF v(1,2) this] obtain x where x: "redundancy_mux_send hb (role (con v)) v = Some x"
    "link_ok x" "con x = con v" "sends [hb] v x" using sends_mux_send by blast
  let ?x = "map_con (\<lambda>c. c\<lparr>sn_t := sn_t c + 1\<rparr>) x"
  have "sendHeartbeat b s = Some (if b then reschedule_heartbeat ?x else ?x)"
    using x(1) by (simp add: sendHeartbeat_def hb_def v_def [symmetric] v(3) split_beta Let_def)
  moreover have "fifo_retransmission (con (reschedule_heartbeat ?x)) = fifo_retransmission (con s)"
    "sn_t (con (reschedule_heartbeat ?x)) = sn_t (con s) + 1"
    "fifo_retransmission (con ?x) = fifo_retransmission (con s)" "sn_t (con ?x) = sn_t (con s) + 1"
    by (simp_all add: reschedule_heartbeat_def Let_def split_beta map_con_def x(3) v(3))
  moreover have "link_ok ?x" "link_ok (reschedule_heartbeat ?x)" using x(2) by simp_all
  moreover have "sends [hb] s ?x" using x(4) by (simp add: v_def)
  moreover have "pkt_type hb = RASTA_TYPE_HB" "sequence_number hb = sn_t (con s)"
    by (simp_all add: hb_def createHeartbeat_def initializePacket_def v(3))
  ultimately show ?thesis by (intro exI [of _ "if b then reschedule_heartbeat ?x else ?x"] exI [of _ hb]) simp
qed

section \<open>Accepting data\<close>

lemma timeout_diagnostic_keep [simp]:
  "fifo_receive (con (sr_update_timeout_interval t s)) = fifo_receive (con s)"
  "fifo_receive (con (sr_diagnostic_update p s)) = fifo_receive (con s)"
  "fifo_send (con (sr_update_timeout_interval t s)) = fifo_send (con s)"
  "fifo_send (con (sr_diagnostic_update p s)) = fifo_send (con s)"
  "link_ok (sr_update_timeout_interval t s) = link_ok s"
  "link_ok (sr_diagnostic_update p s) = link_ok s"
  "cfg (sr_update_timeout_interval t s) = cfg s"
  "cfg (sr_diagnostic_update p s) = cfg s"
  by (simp_all add: sr_update_timeout_interval_def sr_diagnostic_update_def reset_diagnostic_def Let_def split_beta
      map_con_def) (simp_all add: link_ok_def now_ms_def now_ns_def cur_timestamp_def get_nanotime_def clock_gettime_def Let_def)

lemma add_app_messages_keeps [simp]:
  "fifo_send (con (add_app_messages p ms s)) = fifo_send (con s)"
  "link_ok (add_app_messages p ms s) = link_ok s" "cfg (add_app_messages p ms s) = cfg s"
  by (induction ms arbitrary: s) (simp_all add: Let_def, simp_all add: map_con_def)

text \<open>The messages that find room are appended; the loop stops at the first that does not.\<close>

lemma add_app_messages_appends:
  assumes "queue_invar (fifo_receive (con s))"
  shows "items (fifo_receive (con (add_app_messages p ms s))) = items (fifo_receive (con s)) @
    take (unat (capacity (fifo_receive (con s))) - length (items (fifo_receive (con s)))) ms"
  using assms
proof (induction ms arbitrary: s)
  case (Cons m ms)
  let ?q = "fifo_receive (con s)"
  let ?t = "sr_diagnostic_update p (sr_update_timeout_interval (confirmed_timestamp p)
    (map_con (\<lambda>c. c\<lparr>fifo_receive := snd (queue_push (fifo_receive c) m)\<rparr>) s))"
  show ?case
  proof (cases "queue_full ?q")
    case True
    then show ?thesis by (simp add: queue_full_def)
  next
    case False
    then have t: "fifo_receive (con ?t) = ?q\<lparr>items := items ?q @ [m]\<rparr>"
      by (simp add: map_con_def queue_push_def)
    have room: "length (items ?q) < unat (capacity ?q)"
      using Cons.prems False by (auto simp: queue_invar_def queue_full_def)
    then have "items (fifo_receive (con (add_app_messages p ms ?t))) = items (fifo_receive (con ?t)) @
        take (unat (capacity (fifo_receive (con ?t))) - length (items (fifo_receive (con ?t)))) ms"
      by (intro Cons.IH) (simp only: t, simp add: queue_invar_def)
    then show ?thesis using False room unfolding t by (simp add: Let_def take_Cons')
  qed
qed simp

lemma remove_confirmed_returns:
  assumes "sr_inv s" and "link_ok s" and "queue_invar (fifo_send (con s))" and "0 < max_packet (sending (cfg s))"
  shows "\<exists>s'. sr_remove_confirmed_messages s = Some s'"
proof -
  let ?ctx = "hashing_context (chan s)"
  obtain ps where ps: "items (fifo_retransmission (con s)) = map (sr_frame ?ctx) ps"
    "\<forall>p \<in> set ps. \<exists>ms. data_frame ?ctx (sr_frame ?ctx p) p ms" using buffer_packets [OF assms(1)] by blast
  then have "\<forall>p \<in> set ps. packet_wf ?ctx p" by (auto simp: data_frame_def)
  then obtain t where t: "remove_confirmed_loop (items (fifo_retransmission (con s))) s = Some t"
    "t = map_con (\<lambda>c. c\<lparr>fifo_retransmission := (fifo_retransmission c)\<lparr>items :=
      map (sr_frame ?ctx) (tl (dropWhile (\<lambda>p. sequence_number p \<noteq> cs_r (con s)) ps))\<rparr>\<rparr>) s"
    using remove_confirmed_loop_eq [of s ps] assms(1) unfolding ps(1) by (auto simp: sr_inv_def static_ok_def)
  have "set (tl (dropWhile P ps)) \<subseteq> set ps" "length (tl (dropWhile P ps)) \<le> length ps" for P
    by (metis list.set_sel(2) set_dropWhileD subsetI tl_Nil) (metis diff_le_self le_trans length_dropWhile_le length_tl)
  then have "sr_ok s t"
    unfolding t(2) using ps(1) by (intro sr_ok_drop_retransmission) auto
  then have "sr_inv t" using assms(1) by (simp add: sr_ok_def)
  moreover have "link_ok t" "fifo_send (con t) = fifo_send (con s)" "cfg t = cfg s"
    using assms(2) by (simp_all add: t(2)) (simp_all add: map_con_def)
  ultimately have "\<exists>s'. data_send_event t = Some (False, s')"
    using data_send_event_returns [of t] assms(3,4) by auto
  with t(1) show ?thesis by (auto simp: sr_remove_confirmed_messages_def)
qed

section \<open>Properties\<close>

text \<open>
  C6: Data in sequence is delivered as far as the receive buffer has room: a connection that is up
  accepts a data packet with the expected number that passes the checks, appends its application
  messages to the receive buffer in order until the buffer is full, confirms the packet and expects
  the next number; the call returns and asks the event loop to stop. All messages arrive when there is
  room for them; those that find none are lost although their packet is confirmed.
\<close>

theorem data_in_sequence_delivered:
  assumes "sr_inv s" and "link_ok s" and "queue_invar (fifo_send (con s))" and "0 < max_packet (sending (cfg s))"
    and "current_state (con s) = RASTA_CONNECTION_UP" and "pkt_type p = RASTA_TYPE_DATA"
    and "sr_check_packet (con s) (sending (cfg s)) p"
    and "pkt_data p = encode_messages ms" and "\<forall>m \<in> set ms. length m < 2 ^ 16"
    and "queue_invar (fifo_receive (con s))"
  shows "\<exists>s'. sr_receive p s = Some (True, s') \<and>
    items (fifo_receive (con s')) = items (fifo_receive (con s)) @
      take (unat (capacity (fifo_receive (con s))) - length (items (fifo_receive (con s)))) ms \<and>
    sn_r (con s') = sequence_number p + 1 \<and> cs_t (con s') = sequence_number p \<and>
    cs_r (con s') = confirmed_sequence_number p \<and> current_state (con s') = RASTA_CONNECTION_UP"
proof -
  have chk: "checksum_correct p" "sr_message_authentic (con s) p" "sr_sn_range_valid (con s) (sending (cfg s)) p"
    "sr_cs_valid (con s) p" "sr_sn_in_seq (con s) p" "sr_cts_in_seq (con s) (sending (cfg s)) p"
    using assms(7) by (simp_all add: sr_check_packet_def)
  define t where "t = add_app_messages p ms s"
  define u where "u = map_con (update_confirmed_attrs p) (map_con (update_connection_attrs p) t)"
  have "sr_ok s u"
    using sr_ok_add_app_messages [of s s p ms]
    by (simp add: u_def t_def sr_map_con update_confirmed_attrs_def update_connection_attrs_def)
  then have "sr_inv u" using assms(1) by (simp add: sr_ok_def)
  moreover have "link_ok u" "fifo_send (con u) = fifo_send (con s)" "cfg u = cfg s"
    using assms(2) by (simp_all add: u_def t_def update_confirmed_attrs_def update_connection_attrs_def)
      (simp_all add: map_con_def)
  ultimately obtain v where v: "sr_remove_confirmed_messages u = Some v"
    using remove_confirmed_returns [of u] assms(3,4) by auto
  have "sr_add_app_messages_to_buffer p s = Some t"
    using assms(8,9) by (simp add: sr_add_app_messages_to_buffer_def extractMessageData_iff [THEN iffD2] t_def)
  then have "sr_receive p s = Some (True, v)"
    using chk assms(5,6) v by (simp add: sr_receive_def sr_rekeying_skipped_def handle_received_packet_def
        handle_data_def u_def rasta_type_defs)
  moreover note keepsD [OF keeps_remove_confirmed [OF v]]
  moreover have "current_state (con t) = RASTA_CONNECTION_UP"
    using assms(5) by (simp add: t_def state_add_app_messages)
  ultimately show ?thesis
    using add_app_messages_appends [OF assms(10), of p]
    by (simp add: u_def t_def map_con_def update_confirmed_attrs_def update_connection_attrs_def)
qed

text \<open>
  C7: The send event loses and reorders nothing: it takes the first messages of the send queue, as
  many as \<open>max_packet\<close> and the free retransmission slots allow, into one data packet with the next
  sequence number, which is put at the end of the retransmission buffer and on the wire, once on every
  connected channel; the other messages stay queued. With nothing to take, nothing is sent.
\<close>

theorem send_event_moves_messages:
  assumes "sr_inv s" and "link_ok s" and "queue_invar (fifo_send (con s))" and "0 < max_packet (sending (cfg s))"
  shows "\<exists>s' ms. data_send_event s = Some (False, s') \<and>
    items (fifo_send (con s)) = ms @ items (fifo_send (con s')) \<and>
    length ms = min (unat (max_packet (sending (cfg s)))) (min (length (items (fifo_send (con s))))
      (unat (max_retransmission_queue_size (cfg s)) - length (items (fifo_retransmission (con s))))) \<and>
    (if ms = [] then items (fifo_retransmission (con s')) = items (fifo_retransmission (con s)) \<and>
       sn_t (con s') = sn_t (con s) \<and> wire (net s') = wire (net s)
     else sn_t (con s') = sn_t (con s) + 1 \<and>
       (\<exists>p. packet_wf (hashing_context (chan s)) p \<and> pkt_data p = encode_messages ms \<and> sequence_number p = sn_t (con s) \<and>
         items (fifo_retransmission (con s')) = items (fifo_retransmission (con s)) @ [sr_frame (hashing_context (chan s)) p] \<and>
         wire (net s') = wire (net s) @ map (wire_on (red_frame (hashing_context (chan s))
           (createRedundancyPacket (ucast (seq_tx (chan s))) p (crc_type (redundancy (cfg s))))))
           (filter connected (transport_channels (chan s)))))"
proof -
  let ?b = "batch (con s) (cfg s)"
  define ms where "ms = take ?b (items (fifo_send (con s)))"
  have ms: "length ms = ?b" "(ms = []) = (?b = 0)" by (auto simp: ms_def batch_def)
  from data_send_event_returns [OF assms, folded ms_def] obtain s' where s': "data_send_event s = Some (False, s')"
    "items (fifo_send (con s)) = ms @ items (fifo_send (con s'))"
    "?b = 0 \<longrightarrow> fifo_retransmission (con s') = fifo_retransmission (con s) \<and> sn_t (con s') = sn_t (con s) \<and> sends [] s s'"
    "0 < ?b \<longrightarrow> sn_t (con s') = sn_t (con s) + 1 \<and> (\<exists>p. sequence_number p = sn_t (con s) \<and> sends [p] s s' \<and>
        data_frame (hashing_context (chan s)) (sr_frame (hashing_context (chan s)) p) p ms \<and>
        items (fifo_retransmission (con s')) =
          items (fifo_retransmission (con s)) @ [sr_frame (hashing_context (chan s)) p])"
    by (elim exE conjE) (rule that)
  show ?thesis
    by (intro exI [of _ s'] exI [of _ ms] conjI s'(1,2))
      (simp add: ms(1) batch_def, use s'(3,4) ms(2) in \<open>auto simp: data_frame_def sends_def\<close>)
qed

text \<open>
  C8: A retransmission sends every packet of the retransmission buffer again, in order, with the same
  application messages, as retransmitted data with consecutive new numbers, and a heartbeat with the
  next number behind them: exactly these frames go out, each on every connected channel. The buffer
  afterwards holds exactly the renumbered packets.
\<close>

theorem retransmission_preserves_messages:
  assumes "sr_inv s" and "link_ok s"
  shows "\<exists>s' ps qs hb. sr_retransmit_data s = Some s' \<and>
    items (fifo_retransmission (con s)) = map (sr_frame (hashing_context (chan s))) ps \<and>
    items (fifo_retransmission (con s')) = map (sr_frame (hashing_context (chan s))) qs \<and>
    map pkt_data qs = map pkt_data ps \<and>
    map sequence_number qs = map (\<lambda>i. sn_t (con s) + of_nat i) [0..<length ps] \<and>
    (\<forall>p \<in> set ps. packet_wf (hashing_context (chan s)) p) \<and>
    (\<forall>q \<in> set qs. packet_wf (hashing_context (chan s)) q \<and> pkt_type q = RASTA_TYPE_RETRDATA) \<and>
    pkt_type hb = RASTA_TYPE_HB \<and> sequence_number hb = sn_t (con s) + of_nat (length ps) \<and>
    wire (net s') = wire (net s) @ frames_sent s (seq_tx (chan s)) (qs @ [hb]) \<and>
    sn_t (con s') = sn_t (con s) + of_nat (length ps) + 1"
proof -
  let ?ctx = "hashing_context (chan s)"
  obtain ps where ps: "items (fifo_retransmission (con s)) = map (sr_frame ?ctx) ps"
    "\<forall>p \<in> set ps. \<exists>ms. data_frame ?ctx (sr_frame ?ctx p) p ms" using buffer_packets [OF assms(1)] by blast
  define t where "t = map_con (\<lambda>c. c\<lparr>fifo_retransmission := (fifo_retransmission c)\<lparr>items := []\<rparr>\<rparr>) s"
  have "sr_ok s t" unfolding t_def by (rule sr_ok_drop_retransmission) simp_all
  then have t: "sr_inv t" "?ctx = hashing_context (chan t)" "link_ok t"
    using assms by (auto simp: sr_ok_def sr_frame_rel_def receive_side_def t_def)
  have cap: "length ps \<le> unat (capacity (fifo_retransmission (con s)))"
    "length ps \<le> unat (max_retransmission_queue_size (cfg s))"
    using assms(1) arg_cong [OF ps(1), of length] by (auto simp: sr_inv_def queue_invar_def)
  then have "length (items (fifo_retransmission (con t))) + length ps \<le> unat (capacity (fifo_retransmission (con t)))"
    by (simp add: t_def map_con_def)
  from retransmit_loop_returns [OF t(1,3,2) ps(2) this] obtain u qs where
    u: "retransmit_loop (map (sr_frame ?ctx) ps) t = Some u" "sr_inv u" "link_ok u"
      "retransmitted ?ctx (sn_t (con t)) ps qs"
      "items (fifo_retransmission (con u)) = items (fifo_retransmission (con t)) @ map (sr_frame ?ctx) qs"
      "sn_t (con u) = sn_t (con t) + of_nat (length ps)" "sends qs t u" by blast
  from sendHeartbeat_returns [OF u(2,3), of True] obtain s' hb where
    s': "sendHeartbeat True u = Some s'" "fifo_retransmission (con s') = fifo_retransmission (con u)"
      "sn_t (con s') = sn_t (con u) + 1" "pkt_type hb = RASTA_TYPE_HB" "sequence_number hb = sn_t (con u)"
      "sends [hb] u s'" by blast
  have "sr_retransmit_data s = Some s'"
    using cap(2) u(1) s'(1) by (simp add: sr_retransmit_data_def ps(1) t_def)
  moreover have "sends (qs @ [hb]) s s'" using sends_trans [OF u(7) s'(6)] by (simp add: t_def)
  moreover have "sn_t (con t) = sn_t (con s)" "items (fifo_retransmission (con t)) = []"
    by (simp_all add: t_def map_con_def)
  ultimately show ?thesis
    using ps u(4-6) s'(2-5)
    by (intro exI [of _ s'] exI [of _ ps] exI [of _ qs] exI [of _ hb]) (auto simp: retransmitted_def data_frame_def sends_def)
qed

text \<open>
  C10: When the peer confirms the packet at position \<open>k\<close> of the retransmission buffer and the send
  queue is not full (else a send event follows), exactly this packet and those in front of it are
  removed.
\<close>

theorem confirmed_packets_removed:
  assumes "hashing_ok (hashing_context (chan s))" and "\<not> queue_full (fifo_send (con s))"
    and "items (fifo_retransmission (con s)) = map (sr_frame (hashing_context (chan s))) ps"
    and "\<forall>p \<in> set ps. packet_wf (hashing_context (chan s)) p"
    and "distinct (map sequence_number ps)" and "k < length ps" and "cs_r (con s) = sequence_number (ps ! k)"
  shows "\<exists>s'. sr_remove_confirmed_messages s = Some s' \<and>
    items (fifo_retransmission (con s')) = map (sr_frame (hashing_context (chan s))) (drop (Suc k) ps)"
proof -
  let ?P = "\<lambda>p. sequence_number p \<noteq> cs_r (con s)"
  have "takeWhile ?P ps = take k ps"
  proof (rule takeWhile_eq_take_P_nth)
    fix i assume "i < k" "i < length ps"
    then show "?P (ps ! i)" using assms(5-7) nth_eq_iff_index_eq [of "map sequence_number ps" i k] by auto
  qed (use assms(7) in simp)
  then have "length (takeWhile ?P ps) = k" using assms(6) by simp
  then have "tl (dropWhile ?P ps) = drop (Suc k) ps" by (simp add: dropWhile_eq_drop drop_Suc tl_drop)
  with remove_confirmed_loop_eq [OF assms(1,4)] assms(2,3) show ?thesis
    by (simp add: sr_remove_confirmed_messages_def map_con_def)
qed

text \<open>
  C40: When the confirmed number is not the number of a buffered packet, for instance that of a
  heartbeat sent in between, the loop runs to the end: every packet is dropped, the ones that were
  never confirmed included, and can not be retransmitted any more.
\<close>

theorem unconfirmed_packets_lost:
  assumes "hashing_ok (hashing_context (chan s))" and "\<not> queue_full (fifo_send (con s))"
    and "items (fifo_retransmission (con s)) = map (sr_frame (hashing_context (chan s))) ps"
    and "\<forall>p \<in> set ps. packet_wf (hashing_context (chan s)) p \<and> sequence_number p \<noteq> cs_r (con s)"
  shows "\<exists>s'. sr_remove_confirmed_messages s = Some s' \<and> items (fifo_retransmission (con s')) = []"
proof -
  have "dropWhile (\<lambda>p. sequence_number p \<noteq> cs_r (con s)) ps = []" using assms(4) by simp
  with remove_confirmed_loop_eq [of s ps] assms show ?thesis
    by (simp add: sr_remove_confirmed_messages_def map_con_def)
qed

text \<open>The example endpoint; with the packets 4 and 6 in its buffer, when 5 was a heartbeat.\<close>

lemma example_link_ok: "link_ok example_st"
  using example_net_ok example_connected by (simp add: link_ok_def)

lemma example_send_queue: "queue_invar (fifo_send (con example_st))" "0 < max_packet (sending (cfg example_st))"
  by (simp_all add: example_defs queue_invar_def)

theorem data_in_sequence_delivered_witness:
  "\<exists>s'. sr_receive example_data example_st = Some (True, s') \<and> items (fifo_receive (con s')) = [[65]] \<and> sn_r (con s') = 8"
proof -
  have "\<exists>s'. sr_receive example_data example_st = Some (True, s') \<and>
    items (fifo_receive (con s')) = items (fifo_receive (con example_st)) @
      take (unat (capacity (fifo_receive (con example_st))) - length (items (fifo_receive (con example_st)))) [[65]] \<and>
    sn_r (con s') = sequence_number example_data + 1 \<and> cs_t (con s') = sequence_number example_data \<and>
    cs_r (con s') = confirmed_sequence_number example_data \<and> current_state (con s') = RASTA_CONNECTION_UP"
  proof (rule data_in_sequence_delivered [OF example_sr_inv example_link_ok example_send_queue])
    show "sr_check_packet (con example_st) (sending (cfg example_st)) example_data"
      by (simp add: check_defs example_defs example_data_def)
  qed (simp_all add: example_defs example_data_def hostShortTole_def queue_invar_def)
  then show ?thesis by (auto simp: example_data_def) (simp add: example_defs)
qed

theorem send_event_moves_messages_witness:
  "\<exists>s'. data_send_event example_st = Some (False, s') \<and> items (fifo_send (con s')) = [] \<and>
     length (items (fifo_retransmission (con s'))) = 2 \<and> sn_t (con s') = 6 \<and> length (wire (net s')) = 2"
proof -
  obtain s' ms where s': "data_send_event example_st = Some (False, s')"
    "items (fifo_send (con example_st)) = ms @ items (fifo_send (con s'))"
    "length ms = min (unat (max_packet (sending (cfg example_st)))) (min (length (items (fifo_send (con example_st))))
      (unat (max_retransmission_queue_size (cfg example_st)) - length (items (fifo_retransmission (con example_st)))))"
    "if ms = [] then items (fifo_retransmission (con s')) = items (fifo_retransmission (con example_st)) \<and>
       sn_t (con s') = sn_t (con example_st) \<and> wire (net s') = wire (net example_st)
     else sn_t (con s') = sn_t (con example_st) + 1 \<and>
       (\<exists>p. packet_wf (hashing_context (chan example_st)) p \<and> pkt_data p = encode_messages ms \<and>
         sequence_number p = sn_t (con example_st) \<and> items (fifo_retransmission (con s')) =
           items (fifo_retransmission (con example_st)) @ [sr_frame (hashing_context (chan example_st)) p] \<and>
         wire (net s') = wire (net example_st) @ map (wire_on (red_frame (hashing_context (chan example_st))
           (createRedundancyPacket (ucast (seq_tx (chan example_st))) p (crc_type (redundancy (cfg example_st))))))
           (filter connected (transport_channels (chan example_st))))"
    using send_event_moves_messages [OF example_sr_inv example_link_ok example_send_queue]
    by (elim exE conjE) (rule that)
  have "length ms = 1" using s'(3) by (simp add: example_defs)
  with s'(1,2,4) show ?thesis by (auto simp: length_Suc_conv) (auto simp: example_defs)
qed

theorem retransmission_preserves_messages_witness:
  "\<exists>s' q. sr_retransmit_data example_st = Some s' \<and> items (fifo_retransmission (con s')) = [sr_frame plain_ctx q] \<and>
     sequence_number q = 5 \<and> pkt_type q = RASTA_TYPE_RETRDATA \<and> sn_t (con s') = 7 \<and> length (wire (net s')) = 4"
proof -
  obtain s' ps qs hb where s': "sr_retransmit_data example_st = Some s'"
    "items (fifo_retransmission (con example_st)) = map (sr_frame (hashing_context (chan example_st))) ps"
    "items (fifo_retransmission (con s')) = map (sr_frame (hashing_context (chan example_st))) qs"
    "map pkt_data qs = map pkt_data ps"
    "map sequence_number qs = map (\<lambda>i. sn_t (con example_st) + of_nat i) [0..<length ps]"
    "\<forall>q \<in> set qs. packet_wf (hashing_context (chan example_st)) q \<and> pkt_type q = RASTA_TYPE_RETRDATA"
    "wire (net s') = wire (net example_st) @ frames_sent example_st (seq_tx (chan example_st)) (qs @ [hb])"
    "sn_t (con s') = sn_t (con example_st) + of_nat (length ps) + 1"
    using retransmission_preserves_messages [OF example_sr_inv example_link_ok] by (elim exE conjE) (rule that)
  have n: "length ps = 1" using arg_cong [OF s'(2), of length] by (simp add: example_defs)
  then obtain q where "qs = [q]" using arg_cong [OF s'(5), of length] by (auto simp: length_Suc_conv)
  with s' n show ?thesis by (auto simp: example_defs)
qed

definition two_unconfirmed :: "u32 \<Rightarrow> rasta_st" where
  "two_unconfirmed n = map_con (\<lambda>c. c\<lparr>cs_r := n, fifo_retransmission := (fifo_retransmission c)\<lparr>items :=
     map (sr_frame plain_ctx) [example_data\<lparr>sequence_number := 4\<rparr>, example_data\<lparr>sequence_number := 6\<rparr>]\<rparr>\<rparr>) example_st"

lemma two_unconfirmed:
  "hashing_context (chan (two_unconfirmed n)) = plain_ctx" "\<not> queue_full (fifo_send (con (two_unconfirmed n)))"
  "items (fifo_retransmission (con (two_unconfirmed n))) =
    map (sr_frame plain_ctx) [example_data\<lparr>sequence_number := 4\<rparr>, example_data\<lparr>sequence_number := 6\<rparr>]"
  "cs_r (con (two_unconfirmed n)) = n" "packet_wf plain_ctx (example_data\<lparr>sequence_number := k\<rparr>)"
  using example_data_wf by (simp_all add: two_unconfirmed_def map_con_def packet_wf_def) (simp_all add: example_defs queue_full_def)

theorem confirmed_packets_removed_witness:
  "\<exists>s'. sr_remove_confirmed_messages (two_unconfirmed 4) = Some s' \<and>
     items (fifo_retransmission (con s')) = [sr_frame plain_ctx (example_data\<lparr>sequence_number := 6\<rparr>)]"
  using confirmed_packets_removed [of "two_unconfirmed 4" "[example_data\<lparr>sequence_number := 4\<rparr>, example_data\<lparr>sequence_number := 6\<rparr>]" 0]
  by (simp add: two_unconfirmed)

theorem unconfirmed_packets_lost_witness:
  "\<exists>s'. sr_remove_confirmed_messages (two_unconfirmed 5) = Some s' \<and> items (fifo_retransmission (con s')) = []"
  using unconfirmed_packets_lost [of "two_unconfirmed 5" "[example_data\<lparr>sequence_number := 4\<rparr>, example_data\<lparr>sequence_number := 6\<rparr>]"]
  by (simp add: two_unconfirmed)

end
