(* ===== verification/Rasta_Protocol.thy ===== *)
theory Rasta_Protocol
  imports Rasta_Buffers
begin

text \<open>
  Opening and closing: the timeout of a connection, closing its transport channels, what a heartbeat
  does to a connection that is not open yet, and the diagnostic counters.
\<close>

section \<open>Closing\<close>

text \<open>Every transport channel knows its socket.\<close>

definition sockets_ok :: "rasta_st \<Rightarrow> bool" where
  "sockets_ok s \<longleftrightarrow> (\<forall>c \<in> set (transport_channels (chan s)).
     \<exists>k < length (transport_sockets (mux s)). associated_socket c = Some k)"

lemma sockets_ok_image:
  "sockets_ok s \<longleftrightarrow> (\<forall>a \<in> associated_socket ` set (transport_channels (chan s)).
     \<exists>k < length (transport_sockets (mux s)). a = Some k)"
  by (auto simp: sockets_ok_def)

lemma bsd_close_returns: "net_ok (net s) \<Longrightarrow> \<exists>s'. bsd_close fd s = Some s' \<and> net_ok (net s') \<and> chan s' = chan s \<and>
    mux s' = mux s \<and> con s' = con s \<and> transport_lib s' = transport_lib s"
  by (auto simp: bsd_close_def call_def sys_call_def net_ok_def not_less [symmetric])

lemma close_channel_returns:
  assumes "net_ok (net s)" and "i < length (transport_channels (chan s))"
  shows "\<exists>s'. transport_close_channel i s = Some s' \<and> net_ok (net s') \<and> con s' = con s \<and> mux s' = mux s \<and>
    transport_lib s' = transport_lib s \<and>
    map associated_socket (transport_channels (chan s')) = map associated_socket (transport_channels (chan s)) \<and>
    (transport_lib s = TCP \<longrightarrow> map connected (transport_channels (chan s')) = (map connected (transport_channels (chan s)))[i := False])"
proof (cases "transport_lib s")
  case TCP
  let ?c = "transport_channels (chan s) ! i"
  obtain t where t: "bsd_close (tc_fd ?c) s = Some t" "net_ok (net t)" "chan t = chan s" "mux t = mux s" "con t = con s"
    "transport_lib t = transport_lib s" using bsd_close_returns [OF assms(1)] by blast
  have same: "xs[i := xs ! i] = xs" for xs :: "'a list" by simp
  show ?thesis
    using TCP assms t
    by (cases "connected ?c")
      (auto simp: transport_close_channel_def channel_at_def tcp_transport_close_channel_def tcp_close_def
        map_channel_def map_chan_def map_update same list_update_same_conv)
next
  case UDP
  with assms show ?thesis by (simp add: transport_close_channel_def channel_at_def udp_transport_close_channel_def)
qed

lemma close_loop_returns:
  assumes "net_ok (net s)" and "set is \<subseteq> {..<length (transport_channels (chan s))}" and "sockets_ok s"
  shows "\<exists>s'. close_loop is s = Some s' \<and> con s' = con s \<and> net_ok (net s') \<and>
    length (transport_channels (chan s')) = length (transport_channels (chan s)) \<and>
    (transport_lib s = TCP \<longrightarrow> (\<forall>j < length (transport_channels (chan s)).
      connected (transport_channels (chan s') ! j) \<longleftrightarrow> connected (transport_channels (chan s) ! j) \<and> j \<notin> set is))"
  using assms
proof (induction "is" arbitrary: s)
  case (Cons i "is")
  have i: "i < length (transport_channels (chan s))" using Cons.prems(2) by simp
  from close_channel_returns [OF Cons.prems(1) i] obtain t where
    t: "transport_close_channel i s = Some t" "net_ok (net t)" "con t = con s" "mux t = mux s" "transport_lib t = transport_lib s"
      "map associated_socket (transport_channels (chan t)) = map associated_socket (transport_channels (chan s))"
      "transport_lib s = TCP \<longrightarrow> map connected (transport_channels (chan t)) = (map connected (transport_channels (chan s)))[i := False]"
    by blast
  have len: "length (transport_channels (chan t)) = length (transport_channels (chan s))"
    using arg_cong [OF t(6), of length] by simp
  have "associated_socket ` set (transport_channels (chan t)) = associated_socket ` set (transport_channels (chan s))"
    using arg_cong [OF t(6), of set] by simp
  then have ok: "sockets_ok t" using Cons.prems(3) by (simp add: sockets_ok_image t(4))
  have "transport_channels (chan t) ! i \<in> set (transport_channels (chan t))" using i len by simp
  with ok obtain k where k: "associated_socket (transport_channels (chan t) ! i) = Some k" "k < length (transport_sockets (mux t))"
    unfolding sockets_ok_def by blast
  define u where "u = (if \<not> connected (transport_channels (chan t) ! i) \<and> role (con t) = RASTA_ROLE_CLIENT
    then map_socket k (\<lambda>k. k\<lparr>ts_fd := -1\<rparr>) t else t)"
  have u: "chan u = chan t" "net u = net t" "con u = con s" "transport_lib u = transport_lib s" "sockets_ok u"
    using ok t(3,5) by (simp_all add: u_def map_socket_def sockets_ok_def)
  have step: "close_loop (i # is) s = close_loop is u"
    using t(1) i len k by (simp add: channel_at_def socket_at_def u_def)
  have con_j: "transport_lib s = TCP \<Longrightarrow> j < length (transport_channels (chan s)) \<Longrightarrow>
      connected (transport_channels (chan t) ! j) \<longleftrightarrow> connected (transport_channels (chan s) ! j) \<and> j \<noteq> i" for j
  proof -
    assume "transport_lib s = TCP" and j: "j < length (transport_channels (chan s))"
    then have "map connected (transport_channels (chan t)) ! j = (map connected (transport_channels (chan s)))[i := False] ! j"
      using t(7) by simp
    with i j len show ?thesis by (auto simp: nth_list_update split: if_splits)
  qed
  have "\<exists>s'. close_loop is u = Some s' \<and> con s' = con u \<and> net_ok (net s') \<and>
    length (transport_channels (chan s')) = length (transport_channels (chan u)) \<and>
    (transport_lib u = TCP \<longrightarrow> (\<forall>j < length (transport_channels (chan u)).
      connected (transport_channels (chan s') ! j) \<longleftrightarrow> connected (transport_channels (chan u) ! j) \<and> j \<notin> set is))"
    using Cons.prems(2) t(2) u len by (intro Cons.IH) auto
  then show ?case unfolding step using u(1,3,4) len con_j by fastforce
qed simp

lemma channel_close_returns:
  assumes "net_ok (net s)" and "sockets_ok s"
  shows "\<exists>s'. redundancy_channel_close s = Some s' \<and> con s' = con s \<and>
    (transport_lib s = TCP \<longrightarrow> (\<forall>c \<in> set (transport_channels (chan s')). \<not> connected c))"
proof -
  have "set [0..<length (transport_channels (chan s))] \<subseteq> {..<length (transport_channels (chan s))}" by auto
  from close_loop_returns [OF assms(1) this assms(2)] show ?thesis
    by (fastforce simp: redundancy_channel_close_def in_set_conv_nth)
qed

lemma discreq_returns:
  assumes "sr_inv s" and "link_ok s"
  shows "\<exists>s' p. sendDisconnectionRequest rsn dts s = Some s' \<and> link_ok s' \<and> con s' = con s \<and>
    transport_lib s' = transport_lib s \<and> (sockets_ok s \<longrightarrow> sockets_ok s') \<and> pkt_type p = RASTA_TYPE_DISCREQ \<and>
    extractRastaDisconnectionData RASTA_ERRORS_NONE p = Some (\<lparr>details = dts, reason = reason_value rsn\<rparr>, RASTA_ERRORS_NONE) \<and>
    wire (net s') = wire (net s) @ map (wire_on (red_frame (hashing_context (chan s))
      (createRedundancyPacket (ucast (seq_tx (chan s))) p (crc_type (redundancy (cfg s))))))
      (filter connected (transport_channels (chan s)))"
proof -
  define v where "v = snd (now_ms s)"
  have v: "sr_inv v" "link_ok v" "con v = con s" "chan v = chan s" "net v = net s" "cfg v = cfg s" "transport_lib v = transport_lib s" "mux v = mux s"
    using sr_ok_now(1) [of s "fst (now_ms s)" v] assms
    by (auto simp: v_def sr_ok_def) (simp_all add: now_ms_def cur_timestamp_def clock_gettime_def Let_def)
  let ?d = "\<lparr>details = dts, reason = reason_value rsn\<rparr>"
  define q where "q = initializePacket RASTA_TYPE_DISCREQ (remote_id (con s)) (my_id (con s)) (sn_t (con s)) (cs_t (con s))
    (fst (now_ms s)) (ts_r (con s)) 4 (sr_hashing_context (mux v))"
  define p where "p = q\<lparr>pkt_data := hostShortTole dts @ hostShortTole (reason_value rsn)\<rparr>"
  have p: "createDisconnectionRequest (remote_id (con s)) (my_id (con s)) (sn_t (con s)) (cs_t (con s)) (fst (now_ms s))
      (ts_r (con s)) ?d (sr_hashing_context (mux v)) = Some p"
    by (simp add: createDisconnectionRequest_def rmemcpy_def p_def q_def)
  from mux_send_returns [OF v(1,2) createDisconnectionRequest_fits [OF p v(1)]] obtain x where
    x: "redundancy_mux_send p (role (con v)) v = Some x" "link_ok x" "con x = con v" "sr_ok v x"
      "transport_channels (chan x) = transport_channels (chan v)"
      "wire (net x) = wire (net v) @ map (wire_on (red_frame (hashing_context (chan v))
        (createRedundancyPacket (ucast (seq_tx (chan v))) p (crc_type (redundancy (cfg v))))))
        (filter connected (transport_channels (chan v)))" by blast
  have "sendDisconnectionRequest rsn dts s = Some x"
    using x(1) p by (simp add: sendDisconnectionRequest_def v_def [symmetric] v(3) split_beta)
  moreover have "pkt_type p = RASTA_TYPE_DISCREQ" by (simp add: p_def q_def initializePacket_def)
  moreover have "extractRastaDisconnectionData RASTA_ERRORS_NONE p = Some (?d, RASTA_ERRORS_NONE)"
    by (simp add: extractRastaDisconnectionData_def p_def leShortToHost_def)
  moreover have "transport_lib x = transport_lib s" "sockets_ok s \<longrightarrow> sockets_ok x"
    using redundancy_mux_send_keeps [OF x(1)] x(5) v by (simp_all add: sockets_ok_def)
  ultimately show ?thesis using x(2,3,6) v by (intro exI [of _ x] exI [of _ p]) simp
qed

text \<open>The frame of a disconnection request with this reason, on every connected channel.\<close>

definition disconnect_sent :: "rasta_disconnect_reason \<Rightarrow> rasta_st \<Rightarrow> rasta_st \<Rightarrow> bool" where
  "disconnect_sent rsn s s' \<longleftrightarrow> (\<exists>p. pkt_type p = RASTA_TYPE_DISCREQ \<and>
     extractRastaDisconnectionData RASTA_ERRORS_NONE p = Some (\<lparr>details = 0, reason = reason_value rsn\<rparr>, RASTA_ERRORS_NONE) \<and>
     wire (net s') = wire (net s) @ map (wire_on (red_frame (hashing_context (chan s))
       (createRedundancyPacket (ucast (seq_tx (chan s))) p (crc_type (redundancy (cfg s))))))
       (filter connected (transport_channels (chan s))))"

lemma sr_close_returns:
  assumes "sr_inv s" and "link_ok s" and "sockets_ok s"
    and "current_state (con s) \<noteq> RASTA_CONNECTION_DOWN" and "current_state (con s) \<noteq> RASTA_CONNECTION_CLOSED"
  shows "\<exists>s'. sr_close_connection rsn 0 s = Some s' \<and> con s' = sr_reset_connection (con s) \<and> cfg s' = cfg s \<and>
    disconnect_sent rsn s s' \<and>
    (transport_lib s = TCP \<longrightarrow> (\<forall>c \<in> set (transport_channels (chan s')). \<not> connected c))"
proof -
  let ?t = "map_con sr_reset_connection s"
  have "sr_ok s ?t" by (simp add: sr_ok_simps)
  then have "sr_inv ?t" "link_ok ?t" "sockets_ok ?t" and t: "chan ?t = chan s" "net ?t = net s" "cfg ?t = cfg s"
    "con ?t = sr_reset_connection (con s)" "transport_lib ?t = transport_lib s"
    using assms(1-3) by (auto simp: sr_ok_def sockets_ok_def map_con_def sr_reset_connection_def link_ok_def)
  from discreq_returns [OF this(1,2), of rsn 0] this(3) obtain u p where
    u: "sendDisconnectionRequest rsn 0 ?t = Some u" "link_ok u" "con u = con ?t" "transport_lib u = transport_lib s" "sockets_ok u"
      "pkt_type p = RASTA_TYPE_DISCREQ"
      "extractRastaDisconnectionData RASTA_ERRORS_NONE p = Some (\<lparr>details = 0, reason = reason_value rsn\<rparr>, RASTA_ERRORS_NONE)"
      "wire (net u) = wire (net s) @ map (wire_on (red_frame (hashing_context (chan s))
        (createRedundancyPacket (ucast (seq_tx (chan s))) p (crc_type (redundancy (cfg s))))))
        (filter connected (transport_channels (chan s)))"
    unfolding t by blast
  let ?v = "map_con (\<lambda>c. c\<lparr>current_state := RASTA_CONNECTION_CLOSED\<rparr>) u"
  have v: "con ?v = sr_reset_connection (con s)" "net ?v = net u" "transport_lib ?v = transport_lib s"
    using u(3,4) t(4) by (simp_all add: map_con_def sr_reset_connection_def)
  have "net_ok (net ?v)" "sockets_ok ?v" using u(2,5) by (simp_all add: map_con_def link_ok_def sockets_ok_def)
  from channel_close_returns [OF this] obtain s' where s': "redundancy_channel_close ?v = Some s'" "con s' = con ?v"
    "transport_lib ?v = TCP \<longrightarrow> (\<forall>c \<in> set (transport_channels (chan s')). \<not> connected c)" by blast
  have "quiet_frame ?v s'" using s'(1) by (auto simp: redundancy_channel_close_def dest: close_loop_frame)
  then have wire: "wire (net s') = wire (net u)" using v(2) quiet_frameD(2) by fastforce
  have "sr_close_connection rsn 0 s = Some s'"
    using assms(4,5) u(1) s'(1) by (simp add: sr_close_connection_def)
  moreover have "disconnect_sent rsn s s'" unfolding disconnect_sent_def wire using u(6-8) by blast
  moreover have "cfg s' = cfg s"
    using channel_close_con [OF s'(1)] keepsD(11) [OF keeps_control(1) [OF u(1)]] t(3) by (simp add: map_con_def)
  ultimately show ?thesis using s'(2,3) v by (intro exI [of _ s']) simp
qed

section \<open>Properties\<close>

text \<open>
  C9: A connection on which nothing arrives in time is closed: when its timer expires while it is open,
  a disconnection request with the reason \<open>TIMEOUT\<close> goes out on every connected channel, the
  connection is closed and locked, both timers are off, over TCP all transport channels are closed, and the event
  loop stops.
\<close>

theorem expired_timer_closes:
  assumes "sr_inv s" and "link_ok s" and "sockets_ok s" and "\<not> hb_locked (con s)"
    and "current_state (con s) \<in> {RASTA_CONNECTION_UP, RASTA_CONNECTION_RETRREQ, RASTA_CONNECTION_RETRRUN}"
  shows "\<exists>s'. event_connection_expired s = Some (True, s') \<and> current_state (con s') = RASTA_CONNECTION_CLOSED \<and>
    hb_locked (con s') \<and> \<not> te_enabled (timeout_event (con s')) \<and> \<not> te_enabled (send_heartbeat_event (con s')) \<and>
    disconnect_sent RASTA_DISC_REASON_TIMEOUT s s' \<and>
    (transport_lib s = TCP \<longrightarrow> (\<forall>c \<in> set (transport_channels (chan s')). \<not> connected c))"
proof -
  obtain t where t: "sr_close_connection RASTA_DISC_REASON_TIMEOUT 0 s = Some t" "con t = sr_reset_connection (con s)"
    "disconnect_sent RASTA_DISC_REASON_TIMEOUT s t"
    "transport_lib s = TCP \<longrightarrow> (\<forall>c \<in> set (transport_channels (chan t)). \<not> connected c)"
    using sr_close_returns [OF assms(1-3), of RASTA_DISC_REASON_TIMEOUT] assms(5) by auto
  then show ?thesis
    using assms(4,5) by (auto simp: event_connection_expired_def map_con_def sr_reset_connection_def disable_timed_event_def
        disconnect_sent_def)
qed

text \<open>
  A heartbeat that reaches a client before the connection response closes the connection and then
  opens it all the same: the disconnection request is out and over TCP every transport channel is closed, yet
  the connection is \<open>UP\<close> with its timers running and is reported as new.
\<close>

theorem early_heartbeat_reopens:
  assumes "sr_inv s" and "link_ok s" and "sockets_ok s" and "role (con s) = RASTA_ROLE_CLIENT"
    and "current_state (con s) = RASTA_CONNECTION_START" and "pkt_type p = RASTA_TYPE_HB"
    and "sr_check_packet (con s) (sending (cfg s)) p" and "kex_mode (cfg s) = KEY_EXCHANGE_MODE_NONE"
  shows "\<exists>t s'. sr_receive p s = Some (True, s') \<and> current_state (con s') = RASTA_CONNECTION_UP \<and> is_new (con s') \<and>
    disconnect_sent RASTA_DISC_REASON_UNEXPECTEDTYPE s t \<and> wire (net s') = wire (net t) \<and>
    (transport_lib s = TCP \<longrightarrow> (\<forall>c \<in> set (transport_channels (chan s')). \<not> connected c))"
proof -
  have chk: "checksum_correct p" "sr_message_authentic (con s) p" "sr_sn_range_valid (con s) (sending (cfg s)) p"
    "sr_cs_valid (con s) p" "sr_sn_in_seq (con s) p" "sr_cts_in_seq (con s) (sending (cfg s)) p"
    using assms(7) by (simp_all add: sr_check_packet_def)
  obtain t where t: "sr_close_connection RASTA_DISC_REASON_UNEXPECTEDTYPE 0 s = Some t" "con t = sr_reset_connection (con s)"
    "cfg t = cfg s" "disconnect_sent RASTA_DISC_REASON_UNEXPECTEDTYPE s t"
    "transport_lib s = TCP \<longrightarrow> (\<forall>c \<in> set (transport_channels (chan t)). \<not> connected c)"
    using sr_close_returns [OF assms(1-3), of RASTA_DISC_REASON_UNEXPECTEDTYPE] assms(5) by auto
  define u where "u = set_state RASTA_CONNECTION_UP (map_con (\<lambda>c. c\<lparr>cs_r := confirmed_sequence_number p\<rparr>)
    (map_con (update_connection_attrs p) t))"
  define s' where "s' = map_con (\<lambda>c. c\<lparr>is_new := True\<rparr>) (enable_timeout (enable_heartbeat (map_con (\<lambda>c. c\<lparr>hb_locked := False\<rparr>) u)))"
  have "sr_cts_in_seq (con t) (sending (cfg t)) p"
    using chk(6) by (auto simp: t(2,3) sr_cts_in_seq_def sr_reset_connection_def split: if_splits)
  then have "sr_receive p s = Some (True, s')"
    using assms(4-6,8) chk t(1-3)
    by (simp add: sr_receive_def sr_rekeying_skipped_def handle_received_packet_def handle_hb_def handle_hb_start_def
        u_def s'_def rasta_type_defs Let_def map_con_def)
  moreover have "chan s' = chan t" "net s' = net t"
    by (simp_all add: s'_def u_def enable_timeout_def enable_heartbeat_def map_con_def set_state_def now_ns_def
        get_nanotime_def clock_gettime_def Let_def split_beta)
  moreover have "current_state (con s') = RASTA_CONNECTION_UP" "is_new (con s')"
    by (simp_all add: s'_def state_map_con u_def) (simp add: map_con_def)
  ultimately show ?thesis using t(4,5) by (intro exI [of _ t] exI [of _ s']) simp
qed

lemma example_sockets_ok: "sockets_ok example_st"
  by (simp add: sockets_ok_def example_defs)

theorem expired_timer_closes_witness:
  "\<exists>s'. event_connection_expired example_st = Some (True, s') \<and> current_state (con s') = RASTA_CONNECTION_CLOSED \<and>
     length (wire (net s')) = 2"
proof -
  have "\<not> hb_locked (con example_st)"
    "current_state (con example_st) \<in> {RASTA_CONNECTION_UP, RASTA_CONNECTION_RETRREQ, RASTA_CONNECTION_RETRRUN}"
    by (simp_all add: example_defs)
  moreover have "length (wire (net example_st)) + length (filter connected (transport_channels (chan example_st))) = 2"
    by (simp add: example_defs)
  ultimately show ?thesis
    using expired_timer_closes [OF example_sr_inv example_link_ok example_sockets_ok] by (auto simp: disconnect_sent_def)
qed

definition starting_client :: rasta_st where
  "starting_client = map_con (\<lambda>c. c\<lparr>current_state := RASTA_CONNECTION_START\<rparr>) example_st"

theorem early_heartbeat_reopens_witness:
  "\<exists>s'. sr_receive example_hb starting_client = Some (True, s') \<and> current_state (con s') = RASTA_CONNECTION_UP \<and>
     (\<exists>t. disconnect_sent RASTA_DISC_REASON_UNEXPECTEDTYPE starting_client t \<and> wire (net s') = wire (net t))"
proof -
  have "sr_ok example_st starting_client" by (simp add: starting_client_def sr_ok_simps)
  then have "sr_inv starting_client" using example_sr_inv by (simp add: sr_ok_def)
  moreover have "link_ok starting_client" "sockets_ok starting_client"
    using example_link_ok example_sockets_ok by (simp_all add: starting_client_def) (simp add: sockets_ok_def map_con_def)
  moreover have "role (con starting_client) = RASTA_ROLE_CLIENT" "kex_mode (cfg starting_client) = KEY_EXCHANGE_MODE_NONE"
    "current_state (con starting_client) = RASTA_CONNECTION_START" "pkt_type example_hb = RASTA_TYPE_HB"
    by (simp_all add: starting_client_def map_con_def example_hb_def example_defs)
  moreover have "sr_check_packet (con starting_client) (sending (cfg starting_client)) example_hb"
    by (simp add: check_defs starting_client_def map_con_def example_hb_def example_data_def example_defs)
  ultimately show ?thesis using early_heartbeat_reopens [of starting_client example_hb] by blast
qed

text \<open>Intervals in which no time lies, and that have not counted anything.\<close>

definition silent :: "diagnostic_interval \<Rightarrow> bool" where
  "silent i \<longleftrightarrow> interval_start i < interval_end i \<and> message_count i = 0 \<and> t_alive_message_count i = 0"

lemma count_interval_silent: "\<forall>i \<in> set is. silent i \<Longrightarrow> count_interval t_rtd t_alive is = is"
proof (induction "is")
  case (Cons i "is")
  have "(ucast (interval_start i) :: u64) < ucast (interval_end i)"
    using Cons.prems by (simp add: silent_def word_less_nat_alt unat_u32_u64)
  then have "\<not> (ucast (interval_start i) \<ge> t_rtd \<and> ucast (interval_end i) \<le> t_rtd)" by auto
  with Cons show ?case by auto
qed simp

lemma diagnostic_update_silent:
  assumes "\<forall>i \<in> set (diagnostic_intervals (con s)). silent i"
  shows "\<forall>i \<in> set (diagnostic_intervals (con (sr_diagnostic_update p s))). silent i"
  using assms count_interval_silent [OF assms]
  by (auto simp: sr_diagnostic_update_def reset_diagnostic_def map_con_def Let_def split_beta) (simp_all add: silent_def)

lemma init_silent:
  assumes "unat (t_max config) \<le> 2 ^ 31"
  shows "\<forall>i \<in> set (diagnostic_intervals (sr_diagnostic_interval_init config c)). silent i"
proof -
  have "500 * of_nat k < (500 * of_nat k + 500 :: u32)"
    if "k < unat (t_max config) div 500 + (if unat (t_max config) mod 500 > 0 then 1 else 0)" for k
  proof -
    have "500 * k + 500 < 2 ^ 32" using that assms by (auto split: if_splits)
    then have "unat (of_nat (500 * k) :: u32) = 500 * k" "unat (of_nat (500 * k + 500) :: u32) = 500 * k + 500"
      by (intro unat_of_nat_bounded; simp)+
    then show ?thesis by (simp add: word_less_nat_alt)
  qed
  then show ?thesis by (simp add: sr_diagnostic_interval_init_def Let_def silent_def)
qed

text \<open>
  The diagnostic counters of the connection never count: whatever packets are evaluated, every
  message counter of the intervals that \<open>sr_diagnostic_interval_init\<close> sets up stays zero, because the
  test for the interval asks for a time that is not above its start and not below its end.
\<close>

theorem diagnostics_never_count:
  assumes "con s = sr_diagnostic_interval_init config c" and "unat (t_max config) \<le> 2 ^ 31"
  shows "\<forall>i \<in> set (diagnostic_intervals (con (fold sr_diagnostic_update ps s))).
    message_count i = 0 \<and> t_alive_message_count i = 0"
proof -
  have run: "\<forall>i \<in> set (diagnostic_intervals (con (fold sr_diagnostic_update ps s))). silent i"
    if "\<forall>i \<in> set (diagnostic_intervals (con s)). silent i" for s
    using that
  proof (induction ps arbitrary: s)
    case (Cons p ps)
    from Cons.IH [OF diagnostic_update_silent [OF Cons.prems]] show ?case by simp
  qed simp
  have "\<forall>i \<in> set (diagnostic_intervals (con s)). silent i"
    unfolding assms(1) using assms(2) by (rule init_silent)
  from run [OF this] show ?thesis by (simp add: silent_def)
qed

lemma length_count_interval [simp]: "length (count_interval t_rtd t_alive is) = length is"
  by (induction "is") auto

theorem diagnostics_never_count_witness:
  "length (diagnostic_intervals (sr_diagnostic_interval_init (sending example_config) example_connection)) = 4 \<and>
   message_count (hd (diagnostic_intervals (con (fold sr_diagnostic_update [example_data, example_hb]
     (example_st\<lparr>con := sr_diagnostic_interval_init (sending example_config) example_connection\<rparr>))))) = 0"
proof -
  let ?s = "example_st\<lparr>con := sr_diagnostic_interval_init (sending example_config) example_connection\<rparr>"
  have len: "length (diagnostic_intervals (sr_diagnostic_interval_init (sending example_config) example_connection)) = 4"
    by (simp add: sr_diagnostic_interval_init_def example_config_def Let_def)
  have "length (diagnostic_intervals (con (sr_diagnostic_update p s))) = length (diagnostic_intervals (con s))" for p s
    by (simp add: sr_diagnostic_update_def reset_diagnostic_def map_con_def Let_def split_beta)
  then have "length (diagnostic_intervals (con (fold sr_diagnostic_update [example_data, example_hb] ?s))) = 4"
    using len by simp
  then have "hd (diagnostic_intervals (con (fold sr_diagnostic_update [example_data, example_hb] ?s))) \<in>
      set (diagnostic_intervals (con (fold sr_diagnostic_update [example_data, example_hb] ?s)))"
    by (intro hd_in_set) auto
  with diagnostics_never_count [of ?s "sending example_config" example_connection "[example_data, example_hb]"] len
  show ?thesis by (simp add: example_config_def)
qed

end
