(* ===== verification/Rasta_Handshake.thy ===== *)
theory Rasta_Handshake
  imports Rasta_Protocol
begin

text \<open>
  The handshake between two endpoints: what the client sends is what the server gets, and the other
  way round. The connection request, the response and the first heartbeat take both connections up
  with matching sequence numbers.
\<close>

section \<open>Connection requests and responses\<close>

text \<open>The packet that \<open>createConnectionRequest\<close> and \<open>createConnectionResponse\<close> build.\<close>

definition greeting :: "rasta_conn_type \<Rightarrow> u32 \<Rightarrow> u32 \<Rightarrow> u32 \<Rightarrow> u32 \<Rightarrow> u32 \<Rightarrow> u32 \<Rightarrow> u16 \<Rightarrow> rasta_hashing_ctx \<Rightarrow> RastaPacket" where
  "greeting ty r sd sn csn ts cts sm ctx = (initializePacket ty r sd sn csn ts cts 14 ctx)\<lparr>pkt_data :=
     [0x30, 0x33, 0x30, 0x33] @ hostShortTole sm @ replicate 8 0\<rparr>"

lemma create_greeting:
  "createConnectionRequest r sd sn ts sm RASTA_VERSION ctx = Some (greeting RASTA_TYPE_CONNREQ r sd sn 0 ts 0 sm ctx)"
  "createConnectionResponse r sd sn csn ts cts sm RASTA_VERSION ctx = Some (greeting RASTA_TYPE_CONNRESP r sd sn csn ts cts sm ctx)"
  by (simp_all add: createConnectionRequest_def createConnectionResponse_def connection_payload_eq RASTA_VERSION_def greeting_def)

lemma extract_greeting:
  "extractRastaConnectionData err (redelivered ctx' (greeting ty r sd sn csn ts cts sm ctx)) =
   Some (\<lparr>conn_send_max = sm, version = RASTA_VERSION\<rparr>, err)"
  by (simp add: extractRastaConnectionData_def greeting_def redelivered_def leShortToHost_def RASTA_VERSION_def)

lemma greeting_fields [simp]:
  "pkt_type (greeting ty r sd sn csn ts cts sm ctx) = ty" "receiver_id (greeting ty r sd sn csn ts cts sm ctx) = r"
  "sender_id (greeting ty r sd sn csn ts cts sm ctx) = sd" "sequence_number (greeting ty r sd sn csn ts cts sm ctx) = sn"
  "confirmed_sequence_number (greeting ty r sd sn csn ts cts sm ctx) = csn" "timestamp (greeting ty r sd sn csn ts cts sm ctx) = ts"
  "confirmed_timestamp (greeting ty r sd sn csn ts cts sm ctx) = cts"
  by (simp_all add: greeting_def initializePacket_def)

lemma redelivered_fields [simp]:
  "pkt_type (redelivered ctx p) = pkt_type p" "receiver_id (redelivered ctx p) = receiver_id p"
  "sender_id (redelivered ctx p) = sender_id p" "sequence_number (redelivered ctx p) = sequence_number p"
  "confirmed_sequence_number (redelivered ctx p) = confirmed_sequence_number p" "timestamp (redelivered ctx p) = timestamp p"
  "confirmed_timestamp (redelivered ctx p) = confirmed_timestamp p" "checksum_correct (redelivered ctx p)"
  by (simp_all add: redelivered_def)

text \<open>The packet went out on every connected channel, once, and nothing else did.\<close>

definition sent :: "RastaPacket \<Rightarrow> rasta_st \<Rightarrow> rasta_st \<Rightarrow> bool" where
  "sent p s s' \<longleftrightarrow> (\<exists>sn. wire (net s') = wire (net s) @ map (wire_on (red_frame (hashing_context (chan s'))
     (createRedundancyPacket sn p (crc_type (redundancy (cfg s')))))) (filter connected (transport_channels (chan s'))))"

lemma mux_send_sent:
  assumes "sr_inv s" and "link_ok s" and "fits_wire s p"
  shows "\<exists>s'. redundancy_mux_send p (role (con s)) s = Some s' \<and> sent p s s' \<and> link_ok s' \<and> sr_inv s' \<and> con s' = con s \<and> cfg s' = cfg s"
proof -
  obtain s' where s': "redundancy_mux_send p (role (con s)) s = Some s'" "link_ok s'" "sr_ok s s'" "con s' = con s"
    "transport_channels (chan s') = transport_channels (chan s)"
    "wire (net s') = wire (net s) @ map (wire_on (red_frame (hashing_context (chan s))
      (createRedundancyPacket (ucast (seq_tx (chan s))) p (crc_type (redundancy (cfg s))))))
      (filter connected (transport_channels (chan s)))"
    using mux_send_returns [OF assms] by blast
  moreover have "cfg s' = cfg s" "hashing_context (chan s') = hashing_context (chan s)"
    using redundancy_mux_send_keeps [OF s'(1)] by simp_all
  ultimately show ?thesis using assms(1) by (auto simp: sent_def sr_ok_def)
qed

lemma sent_cong:
  assumes "sent p s s'" and "net t = net s" and "net t' = net s'" and "chan t' = chan s'" and "cfg t' = cfg s'"
  shows "sent p t t'"
  using assms by (simp add: sent_def)

section \<open>The three steps\<close>

text \<open>A server that waits for a connection answers a request.\<close>

lemma server_answers:
  assumes "sr_inv s" and "net_ok (net s)"
    and "current_state (con s) = RASTA_CONNECTION_CLOSED \<or> current_state (con s) = RASTA_CONNECTION_DOWN"
    and p: "p = redelivered ctx' (greeting RASTA_TYPE_CONNREQ (my_id (con s)) (remote_id (con s)) n 0 ts 0 sm ctx)"
  shows "\<exists>s' t. sr_receive p s = Some (False, s') \<and>
    sent (greeting RASTA_TYPE_CONNRESP (remote_id (con s)) (my_id (con s)) (initial_sequence_number (cfg s)) n t 0
      (send_max (sending (cfg s))) (hashing_context (chan s))) s s' \<and> sr_inv s' \<and> link_ok s' \<and> cfg s' = cfg s \<and>
    current_state (con s') = RASTA_CONNECTION_START \<and> role (con s') = RASTA_ROLE_SERVER \<and>
    sn_t (con s') = initial_sequence_number (cfg s) + 1 \<and> sn_r (con s') = n + 1 \<and> cs_r (con s') = 0 \<and> cts_r (con s') = 0 \<and>
    my_id (con s') = my_id (con s) \<and> remote_id (con s') = remote_id (con s)"
proof -
  define u where "u = set_state RASTA_CONNECTION_DOWN (map_con (\<lambda>c. c\<lparr>sn_t := initial_sequence_number (cfg s),
    sn_i := initial_sequence_number (cfg s)\<rparr>) (map_con (sr_init_connection RASTA_ROLE_SERVER) s))"
  define v where "v = map_con (\<lambda>c. c\<lparr>connected_recv_buffer_size := uint sm, t_i := t_max (sending (cfg s))\<rparr>)
    (map_con (update_confirmed_attrs p) (map_con (update_connection_attrs p) u))"
  define q where "q = greeting RASTA_TYPE_CONNRESP (remote_id (con s)) (my_id (con s)) (initial_sequence_number (cfg s)) n
    (fst (now_ms v)) 0 (send_max (sending (cfg s))) (hashing_context (chan s))"
  define w where "w = set_state RASTA_CONNECTION_START (map_con (\<lambda>c. c\<lparr>sn_t := sn_t c + 1\<rparr>) (snd (now_ms v)))"
  have w_eq: "net w = net s" "chan w = chan s" "cfg w = cfg s" "role (con w) = RASTA_ROLE_SERVER"
    "current_state (con w) = RASTA_CONNECTION_START" "sn_t (con w) = initial_sequence_number (cfg s) + 1"
    "sn_r (con w) = n + 1" "cs_r (con w) = 0" "cts_r (con w) = 0" "my_id (con w) = my_id (con s)" "remote_id (con w) = remote_id (con s)"
    by (simp_all add: w_def v_def u_def p set_state_def map_con_def now_ms_def cur_timestamp_def clock_gettime_def Let_def
        sr_init_connection_def sr_reset_connection_def update_connection_attrs_def update_confirmed_attrs_def)
  have "sr_ok s w"
    by (simp add: w_def v_def u_def handler_simps sr_init_connection_def sr_neutral_now [THEN sr_neutral_iff(1)])
  then have inv: "sr_inv w" using assms(1) by (simp add: sr_ok_def)
  have "link_ok w" using assms(2) by (simp add: link_ok_def w_eq)
  moreover have "fits_wire w q"
    using inv create_greeting(2) [of "remote_id (con s)" "my_id (con s)"] by (intro connection_payload_fits [of RASTA_TYPE_CONNRESP])
      (auto simp: q_def w_eq(2) createConnectionResponse_def)
  ultimately obtain s' where s': "redundancy_mux_send q (role (con w)) w = Some s'" "sent q w s'" "link_ok s'" "sr_inv s'"
    "con s' = con w" "cfg s' = cfg w" using mux_send_sent [OF inv] by blast
  have chk: "sr_check_packet (con u) (sending (cfg s)) p"
    by (simp add: u_def set_state_def map_con_def sr_init_connection_def sr_reset_connection_def p check_defs)
  have ver: "compare_version RASTA_VERSION RASTA_VERSION = 0" by (simp add: compare_version_def RASTA_VERSION_def numeral_eq_Suc)
  have keep: "cfg (map_con g x) = cfg x" "x\<lparr>factory_error := factory_error x\<rparr> = x" for g and x :: rasta_st by (simp_all add: map_con_def)
  have u_cfg: "cfg u = cfg s" by (simp add: u_def set_state_def map_con_def)
  have v_con: "remote_id (con v) = remote_id (con s)" "my_id (con v) = my_id (con s)" "sn_t (con v) = initial_sequence_number (cfg s)"
    "cs_t (con v) = n" "cts_r (con v) = 0" "chan v = chan s" "cfg v = cfg s"
    by (simp_all add: v_def u_def p set_state_def map_con_def sr_init_connection_def sr_reset_connection_def
        update_connection_attrs_def update_confirmed_attrs_def)
  have now: "con (snd (now_ms v)) = con v" "chan (snd (now_ms v)) = chan v" "cfg (snd (now_ms v)) = cfg v"
    by (simp_all add: now_ms_def cur_timestamp_def clock_gettime_def Let_def)
  note greet = extract_greeting [of _ ctx' RASTA_TYPE_CONNREQ "my_id (con s)" "remote_id (con s)" n 0 ts 0 sm ctx, folded p]
  have "handle_conreq p s = Some s'"
    using assms(3) s'(1) chk ver
    by (simp add: handle_conreq_def Let_def keep u_def [symmetric] u_cfg greet v_def [symmetric] split_beta now v_con
       create_greeting q_def [symmetric] w_def [symmetric])
  then have "sr_receive p s = Some (False, s')" by (simp add: sr_receive_def p)
  moreover have "sent q s s'" using s'(2) w_eq by (auto intro: sent_cong)
  ultimately show ?thesis using s'(3-6) w_eq
    by (intro exI [of _ s'] exI [of _ "fst (now_ms v)"]) (simp add: q_def)
qed

lemma createHeartbeat_fields [simp]:
  "pkt_type (createHeartbeat r sd sn csn ts cts ctx) = RASTA_TYPE_HB" "receiver_id (createHeartbeat r sd sn csn ts cts ctx) = r"
  "sender_id (createHeartbeat r sd sn csn ts cts ctx) = sd" "sequence_number (createHeartbeat r sd sn csn ts cts ctx) = sn"
  "confirmed_sequence_number (createHeartbeat r sd sn csn ts cts ctx) = csn" "timestamp (createHeartbeat r sd sn csn ts cts ctx) = ts"
  "confirmed_timestamp (createHeartbeat r sd sn csn ts cts ctx) = cts"
  by (simp_all add: createHeartbeat_def initializePacket_def)

lemma heartbeat_returns:
  assumes "sr_inv s" and "link_ok s"
  shows "\<exists>s' t h. sendHeartbeat True s = Some s' \<and>
    sent (createHeartbeat (remote_id (con s)) (my_id (con s)) (sn_t (con s)) (cs_t (con s)) t (ts_r (con s))
      (sr_hashing_context (mux s))) s s' \<and> link_ok s' \<and> sr_inv s' \<and> cfg s' = cfg s \<and>
    con s' = (con s)\<lparr>sn_t := sn_t (con s) + 1, send_heartbeat_event := h\<rparr>"
proof -
  define v where "v = snd (now_ms s)"
  define q where "q = createHeartbeat (remote_id (con s)) (my_id (con s)) (sn_t (con s)) (cs_t (con s)) (fst (now_ms s))
    (ts_r (con s)) (sr_hashing_context (mux s))"
  have v: "con v = con s" "chan v = chan s" "net v = net s" "cfg v = cfg s" "mux v = mux s"
    by (simp_all add: v_def now_ms_def cur_timestamp_def clock_gettime_def Let_def)
  have inv: "sr_inv v" "link_ok v"
    using sr_ok_now(1) [of s "fst (now_ms s)" v] assms by (auto simp: v_def sr_ok_def)
  have "fits_wire v q"
    using fits_wire_initializePacket [OF inv(1), of 0] by (simp add: q_def createHeartbeat_def v)
  from mux_send_sent [OF inv this] obtain x where x: "redundancy_mux_send q (role (con v)) v = Some x" "sent q v x" "link_ok x"
    "sr_inv x" "con x = con v" "cfg x = cfg v" by blast
  define s' where "s' = reschedule_heartbeat (map_con (\<lambda>c. c\<lparr>sn_t := sn_t c + 1\<rparr>) x)"
  have "sendHeartbeat True s = Some s'"
    using x(1) by (simp add: sendHeartbeat_def split_beta Let_def s'_def v_def [symmetric] q_def [symmetric] v)
  moreover have "sr_ok x s'" by (simp add: s'_def sr_ok_simps)
  then have "sr_inv s'" using x(4) by (simp add: sr_ok_def)
  moreover have "link_ok s'" using x(3) by (simp add: s'_def)
  moreover have s': "net s' = net x" "chan s' = chan x" "cfg s' = cfg x"
    "\<exists>h. con s' = (con s)\<lparr>sn_t := sn_t (con s) + 1, send_heartbeat_event := h\<rparr>"
    using x(5) v(1) by (auto simp: s'_def reschedule_heartbeat_def map_con_def now_ns_def get_nanotime_def clock_gettime_def Let_def split_beta)
  moreover have "sent q s s'" using x(2) v(3) s'(1-3) by (auto intro: sent_cong)
  ultimately show ?thesis using x(6) v(4) unfolding q_def by metis
qed

text \<open>A client that waits for the response opens the connection and sends a heartbeat.\<close>

lemma client_opens:
  assumes "sr_inv s" and "link_ok s"
    and "current_state (con s) = RASTA_CONNECTION_START" and "role (con s) = RASTA_ROLE_CLIENT"
    and "version_accepted (accepted_versions (cfg s)) RASTA_VERSION"
    and p: "p = redelivered ctx' (greeting RASTA_TYPE_CONNRESP (my_id (con s)) (remote_id (con s)) n (sn_t (con s) - 1) ts cts sm ctx)"
  shows "\<exists>s' t. sr_receive p s = Some (True, s') \<and>
    sent (createHeartbeat (remote_id (con s)) (my_id (con s)) (sn_t (con s)) n t ts (sr_hashing_context (mux s))) s s' \<and>
    sr_inv s' \<and> cfg s' = cfg s \<and> current_state (con s') = RASTA_CONNECTION_UP \<and> role (con s') = RASTA_ROLE_CLIENT \<and>
    \<not> hb_locked (con s') \<and> sn_t (con s') = sn_t (con s) + 1 \<and> sn_r (con s') = n + 1"
proof -
  define u where "u = set_state RASTA_CONNECTION_UP (map_con (\<lambda>c. c\<lparr>cs_r := confirmed_sequence_number p\<rparr>)
    (map_con (update_connection_attrs p) s))"
  have u: "net u = net s" "chan u = chan s" "cfg u = cfg s" "mux u = mux s"
    "remote_id (con u) = remote_id (con s)" "my_id (con u) = my_id (con s)" "sn_t (con u) = sn_t (con s)" "cs_t (con u) = n"
    "ts_r (con u) = ts" "sn_r (con u) = n + 1" "role (con u) = RASTA_ROLE_CLIENT" "current_state (con u) = RASTA_CONNECTION_UP"
    using assms(4) by (simp_all add: u_def set_state_def map_con_def p update_connection_attrs_def)
  have "sr_ok s u" by (simp add: u_def handler_simps)
  then have "sr_inv u" "link_ok u"
    using assms(1,2) u by (simp_all add: sr_ok_def link_ok_def) (simp add: u_def set_state_def map_con_def update_connection_attrs_def)
  from heartbeat_returns [OF this] obtain x t h where x: "sendHeartbeat True u = Some x" "sr_inv x" "cfg x = cfg s"
    "sent (createHeartbeat (remote_id (con s)) (my_id (con s)) (sn_t (con s)) n t ts (sr_hashing_context (mux s))) u x"
    "con x = (con u)\<lparr>sn_t := sn_t (con u) + 1, send_heartbeat_event := h\<rparr>" unfolding u by blast
  define s' where "s' = enable_timeout (map_con (\<lambda>c. c\<lparr>hb_locked := False, connected_recv_buffer_size := uint sm\<rparr>) (enable_heartbeat x))"
  have s': "net s' = net x" "chan s' = chan x" "cfg s' = cfg x" "current_state (con s') = RASTA_CONNECTION_UP"
    "role (con s') = RASTA_ROLE_CLIENT" "\<not> hb_locked (con s')" "sn_t (con s') = sn_t (con s) + 1" "sn_r (con s') = n + 1"
    using u by (simp_all add: s'_def enable_timeout_def enable_heartbeat_def map_con_def now_ns_def get_nanotime_def
        clock_gettime_def Let_def split_beta x(5))
  have "sr_ok x s'" by (simp add: s'_def sr_ok_simps)
  then have "sr_inv s'" using x(2) by (simp add: sr_ok_def)
  have chk: "sr_check_packet (con s) (sending (cfg s)) p" by (simp add: p check_defs)
  note greet = extract_greeting [of _ ctx' RASTA_TYPE_CONNRESP "my_id (con s)" "remote_id (con s)" n "sn_t (con s) - 1" ts cts sm ctx, folded p]
  have "x\<lparr>factory_error := factory_error x\<rparr> = x" for x :: rasta_st by simp
  then have "handle_conresp p s = Some s'"
    using assms(3-5) chk x(1) by (simp add: handle_conresp_def greet Let_def u_def [symmetric] s'_def)
  then have "sr_receive p s = Some (True, s')" by (simp add: sr_receive_def p rasta_type_defs)
  moreover have "sent (createHeartbeat (remote_id (con s)) (my_id (con s)) (sn_t (con s)) n t ts (sr_hashing_context (mux s))) s s'"
    using x(4) by (rule sent_cong) (simp_all add: u s')
  ultimately show ?thesis using \<open>sr_inv s'\<close> s'(3-) x(3) by (intro exI [of _ s'] exI [of _ t]) simp
qed

text \<open>The first heartbeat opens the connection of the server.\<close>

lemma server_opens:
  assumes "sr_inv s" and "current_state (con s) = RASTA_CONNECTION_START" and "role (con s) = RASTA_ROLE_SERVER"
    and "kex_mode (cfg s) = KEY_EXCHANGE_MODE_NONE" and "cs_r (con s) = 0" and "cts_r (con s) = 0" and "n < sn_t (con s)"
    and p: "p = redelivered ctx' (createHeartbeat (my_id (con s)) (remote_id (con s)) (sn_r (con s)) n ts cts ctx)"
  shows "\<exists>s'. sr_receive p s = Some (True, s') \<and> current_state (con s') = RASTA_CONNECTION_UP \<and>
    is_new (con s') \<and> \<not> hb_locked (con s') \<and> role (con s') = RASTA_ROLE_SERVER \<and>
    sn_r (con s') = sn_r (con s) + 1 \<and> sn_t (con s') = sn_t (con s)"
  using assms
  by (simp add: sr_receive_def check_defs sr_rekeying_skipped_def handle_received_packet_def handle_hb_def handle_hb_start_def
      Let_def set_state_def enable_heartbeat_def enable_timeout_def map_con_def now_ns_def get_nanotime_def clock_gettime_def
      update_connection_attrs_def split_beta)

section \<open>The handshake\<close>

lemma client_requests:
  assumes "redundancy_channel_connect c = Some (0, t)" and "sr_inv t" and "net_ok (net t)"
    and "list_all connected (transport_channels (chan t))"
    and "ucast (remote_id (con c)) = rasta_id_remote (general (cfg c))"
  shows "\<exists>c' ts. sr_connect_start c = Some (True, c') \<and>
    sent (greeting RASTA_TYPE_CONNREQ (remote_id (con t)) (my_id (con t)) (initial_sequence_number (cfg t)) 0 ts 0
      (send_max (sending (cfg t))) (hashing_context (chan t))) t c' \<and> sr_inv c' \<and> link_ok c' \<and> cfg c' = cfg t \<and>
    current_state (con c') = RASTA_CONNECTION_START \<and> role (con c') = RASTA_ROLE_CLIENT \<and>
    sn_t (con c') = initial_sequence_number (cfg t) + 1 \<and> my_id (con c') = my_id (con t) \<and> remote_id (con c') = remote_id (con t)"
proof -
  obtain c' q ts where c': "sr_connect_start c = Some (True, c')"
    "createConnectionRequest (remote_id (con t)) (my_id (con t)) (initial_sequence_number (cfg t)) ts
      (send_max (sending (cfg t))) RASTA_VERSION (hashing_context (chan t)) = Some q"
    "wire (net c') = wire (net t) @ map (wire_on (red_frame (hashing_context (chan t))
      (createRedundancyPacket (ucast (seq_tx (chan t))) q (crc_type (redundancy (cfg t)))))) (transport_channels (chan t))"
    "sr_ok t c'" "net_ok (net c')" "transport_channels (chan c') = transport_channels (chan t)"
    "current_state (con c') = RASTA_CONNECTION_START" "role (con c') = RASTA_ROLE_CLIENT"
    "sn_t (con c') = initial_sequence_number (cfg t) + 1" "my_id (con c') = my_id (con t)" "remote_id (con c') = remote_id (con t)"
    using connect_start_sends [OF assms] by blast
  have q: "q = greeting RASTA_TYPE_CONNREQ (remote_id (con t)) (my_id (con t)) (initial_sequence_number (cfg t)) 0 ts 0
    (send_max (sending (cfg t))) (hashing_context (chan t))" using c'(2) by (simp add: create_greeting)
  have inv: "sr_inv c'" "cfg c' = cfg t" "hashing_context (chan c') = hashing_context (chan t)"
    using c'(4) assms(2) by (auto simp: sr_ok_def sr_frame_rel_def sr_inv_def static_ok_def)
  moreover have "filter connected (transport_channels (chan t)) = transport_channels (chan t)"
    using assms(4) by (simp add: list_all_iff)
  then have "sent q t c'" using c'(3,6) inv by (auto simp: sent_def)
  moreover have "link_ok c'" using c'(5,6) assms(4) by (simp add: link_ok_def list_all_iff)
  ultimately show ?thesis using c'(1,7-) unfolding q by blast
qed

text \<open>
  C2: The handshake completes. When the transport channels of a client are connected and every call
  succeeds, the client sends a connection request; a server that waits for it answers with a
  connection response; the client takes it, is \<open>UP\<close>, and sends a heartbeat, which makes the server
  \<open>UP\<close>, too. Each packet is what the redundancy layer of the other side hands up, and in the end each
  side expects the sequence number that the other one will send next.
\<close>

theorem handshake_completes:
  assumes "redundancy_channel_connect c = Some (0, t)" and "sr_inv t" and "net_ok (net t)"
    and "list_all connected (transport_channels (chan t))"
    and "ucast (remote_id (con c)) = rasta_id_remote (general (cfg c))"
    and "version_accepted (accepted_versions (cfg t)) RASTA_VERSION"
    and "sr_inv s" and "net_ok (net s)" and "kex_mode (cfg s) = KEY_EXCHANGE_MODE_NONE"
    and "current_state (con s) = RASTA_CONNECTION_CLOSED \<or> current_state (con s) = RASTA_CONNECTION_DOWN"
    and "my_id (con s) = remote_id (con t)" and "remote_id (con s) = my_id (con t)"
    and "initial_sequence_number (cfg s) \<noteq> - 1"
  shows "\<exists>request response heartbeat c1 c2 s1 s2.
    sr_connect_start c = Some (True, c1) \<and> sent request t c1 \<and>
    sr_receive (redelivered (hashing_context (chan s)) request) s = Some (False, s1) \<and> sent response s s1 \<and>
    sr_receive (redelivered (hashing_context (chan c1)) response) c1 = Some (True, c2) \<and> sent heartbeat c1 c2 \<and>
    sr_receive (redelivered (hashing_context (chan s1)) heartbeat) s1 = Some (True, s2) \<and>
    current_state (con c2) = RASTA_CONNECTION_UP \<and> role (con c2) = RASTA_ROLE_CLIENT \<and> \<not> hb_locked (con c2) \<and>
    current_state (con s2) = RASTA_CONNECTION_UP \<and> role (con s2) = RASTA_ROLE_SERVER \<and> \<not> hb_locked (con s2) \<and>
    is_new (con s2) \<and> sn_r (con s2) = sn_t (con c2) \<and> sn_r (con c2) = sn_t (con s2)"
proof -
  let ?n = "initial_sequence_number (cfg t)" and ?m = "initial_sequence_number (cfg s)"
  obtain c1 t1 where c1: "sr_connect_start c = Some (True, c1)" "sent (greeting RASTA_TYPE_CONNREQ (remote_id (con t)) (my_id (con t)) ?n 0 t1 0
      (send_max (sending (cfg t))) (hashing_context (chan t))) t c1" "sr_inv c1" "link_ok c1" "cfg c1 = cfg t"
    "current_state (con c1) = RASTA_CONNECTION_START" "role (con c1) = RASTA_ROLE_CLIENT" "sn_t (con c1) = ?n + 1"
    "my_id (con c1) = my_id (con t)" "remote_id (con c1) = remote_id (con t)"
    using client_requests [OF assms(1-5)] by blast
  obtain s1 t2 where s1: "sr_receive (redelivered (hashing_context (chan s)) (greeting RASTA_TYPE_CONNREQ (remote_id (con t)) (my_id (con t)) ?n 0 t1 0
      (send_max (sending (cfg t))) (hashing_context (chan t)))) s = Some (False, s1)"
    "sent (greeting RASTA_TYPE_CONNRESP (my_id (con t)) (remote_id (con t)) ?m ?n t2 0
      (send_max (sending (cfg s))) (hashing_context (chan s))) s s1" "sr_inv s1" "cfg s1 = cfg s"
    "current_state (con s1) = RASTA_CONNECTION_START" "role (con s1) = RASTA_ROLE_SERVER" "sn_t (con s1) = ?m + 1"
    "sn_r (con s1) = ?n + 1" "cs_r (con s1) = 0" "cts_r (con s1) = 0" "my_id (con s1) = my_id (con s)" "remote_id (con s1) = remote_id (con s)"
    using server_answers [OF assms(7,8,10) refl] unfolding assms(11,12) by blast
  have n: "?n = sn_t (con c1) - 1" using c1(8) by simp
  obtain c2 t3 where c2: "sr_receive (redelivered (hashing_context (chan c1)) (greeting RASTA_TYPE_CONNRESP (my_id (con t)) (remote_id (con t)) ?m ?n t2 0
      (send_max (sending (cfg s))) (hashing_context (chan s)))) c1 = Some (True, c2)"
    "sent (createHeartbeat (remote_id (con t)) (my_id (con t)) (?n + 1) ?m t3 t2 (sr_hashing_context (mux c1))) c1 c2"
    "current_state (con c2) = RASTA_CONNECTION_UP" "role (con c2) = RASTA_ROLE_CLIENT" "\<not> hb_locked (con c2)"
    "sn_t (con c2) = ?n + 1 + 1" "sn_r (con c2) = ?m + 1"
    using client_opens [OF c1(3,4,6,7) _ refl] assms(6) unfolding c1(5,8-10) by fastforce
  have "1 + ?m \<noteq> 0" using assms(13) by (simp add: add_eq_0_iff)
  then have "?m < sn_t (con s1)" using s1(7) unatSuc [of ?m] by (simp add: word_less_nat_alt add.commute)
  from server_opens [OF s1(3,5,6) _ s1(9,10) this refl] assms(9) obtain s2 where
    "sr_receive (redelivered (hashing_context (chan s1)) (createHeartbeat (remote_id (con t)) (my_id (con t)) (?n + 1) ?m t3 t2
      (sr_hashing_context (mux c1)))) s1 = Some (True, s2)" "current_state (con s2) = RASTA_CONNECTION_UP" "is_new (con s2)"
    "\<not> hb_locked (con s2)" "role (con s2) = RASTA_ROLE_SERVER" "sn_r (con s2) = ?n + 1 + 1" "sn_t (con s2) = ?m + 1"
    unfolding s1(4,7,8,11,12) assms(11,12) by blast
  then show ?thesis using c1(1,2) s1(1,2) c2 by metis
qed

text \<open>The peer of the example endpoint, waiting for a connection.\<close>

definition listening_server :: rasta_st where
  "listening_server = map_con (\<lambda>c. c\<lparr>my_id := 0x61, remote_id := 0x60, current_state := RASTA_CONNECTION_DOWN\<rparr>) example_st"

theorem handshake_completes_witness:
  "\<exists>client t request response c1 c2 s1 s2 heartbeat. rasta_lib_init_configuration example_junk example_config example_st = Some client \<and>
     redundancy_channel_connect client = Some (0, t) \<and> sr_connect_start client = Some (True, c1) \<and> sent request t c1 \<and>
     sr_receive (redelivered plain_ctx request) listening_server = Some (False, s1) \<and> sent response listening_server s1 \<and>
     sr_receive (redelivered (hashing_context (chan c1)) response) c1 = Some (True, c2) \<and> sent heartbeat c1 c2 \<and>
     sr_receive (redelivered (hashing_context (chan s1)) heartbeat) s1 = Some (True, s2) \<and>
     current_state (con c2) = RASTA_CONNECTION_UP \<and> current_state (con s2) = RASTA_CONNECTION_UP"
proof (rule example_dialled)
  fix s t assume s: "rasta_lib_init_configuration example_junk example_config example_st = Some s"
    and t: "redundancy_channel_connect s = Some (0, t)" "sr_inv t" "net_ok (net t)" "list_all connected (transport_channels (chan t))"
    "length (transport_channels (chan t)) = 2" "wire (net t) = []" "cfg t = example_config"
    "con t = initial_connection example_config" "ucast (remote_id (con s)) = rasta_id_remote (general (cfg s))"
  have "sr_ok example_st listening_server" by (simp add: listening_server_def sr_ok_simps)
  then have "sr_inv listening_server" using example_sr_inv by (simp add: sr_ok_def)
  moreover have "net_ok (net listening_server)" "kex_mode (cfg listening_server) = KEY_EXCHANGE_MODE_NONE"
    "current_state (con listening_server) = RASTA_CONNECTION_CLOSED \<or> current_state (con listening_server) = RASTA_CONNECTION_DOWN"
    "initial_sequence_number (cfg listening_server) \<noteq> - 1" "hashing_context (chan listening_server) = plain_ctx"
    by (simp_all add: listening_server_def map_con_def net_ok_def example_defs)
  moreover have "my_id (con listening_server) = remote_id (con t)" "remote_id (con listening_server) = my_id (con t)"
    by (simp_all add: t(8) listening_server_def map_con_def initial_connection_def init_connection_events_def example_config_def)
  moreover have "version_accepted (accepted_versions (cfg t)) RASTA_VERSION"
    by (simp add: t(7) example_config_def compare_version_def RASTA_VERSION_def numeral_eq_Suc)
  ultimately show ?thesis
    using handshake_completes [OF t(1-4,9), of listening_server] s t(1) by metis
qed

end
