(* ===== verification/Rasta_Key_Exchange.thy ===== *)
theory Rasta_Key_Exchange
  imports Rasta_Session_Key Rasta_Handshake
begin

text \<open>
  The key exchange between two endpoints, over a library that works as its documentation says
  (\<open>opaque_works\<close>). The exchange completes with a common key when both sides use the same initial
  sequence number, and fails when they do not, since each side takes its own number for the one of the
  server.
\<close>

section \<open>What the code relies on\<close>

text \<open>The password of an array that holds a terminated string.\<close>

definition password :: "bytes \<Rightarrow> bytes" where
  "password b = takeWhile (\<lambda>x. x \<noteq> 0) b"

lemma strlen_password: "0 \<in> set b \<Longrightarrow> strlen b = Some (length (password b))" "take (length (password b)) b = password b"
  by (simp_all add: strlen_def password_def takeWhile_eq_take [symmetric])

text \<open>
  The library: its calls succeed and fill their buffers, whose sizes are moderate; a client that knows
  the password recovers the key and the authentication token of the server from the response, if both
  name the same identities and the same context; \<open>opaque_UserAuth\<close> compares two tokens.
\<close>

definition opaque_works :: "libopaque \<Rightarrow> bool" where
  "opaque_works lib \<longleftrightarrow>
     USER_SESSION_PUBLIC_LEN lib \<le> 1000 \<and> SERVER_SESSION_LEN lib \<le> 1000 \<and> HMACSHA512_BYTES lib \<le> 1000 \<and>
     (\<forall>n pw. \<exists>sec pub. opaque_CreateCredentialRequest lib n pw = (0, sec, pub) \<and>
        length sec = length pw + USER_SESSION_SECRET_LEN lib \<and> length pub = USER_SESSION_PUBLIC_LEN lib) \<and>
     (\<forall>n pw ids. \<exists>rec. opaque_Register lib n pw ids = (0, rec)) \<and>
     (\<forall>l m n pw ids ctx rec sec pub. opaque_Register lib l pw ids = (0, rec) \<longrightarrow>
        opaque_CreateCredentialRequest lib m pw = (0, sec, pub) \<longrightarrow>
        (\<exists>resp sk auth. opaque_CreateCredentialResponse lib n pub rec ids ctx = (0, resp, sk, auth) \<and>
           length resp = SERVER_SESSION_LEN lib \<and> length sk = SHARED_SECRETBYTES lib \<and>
           length auth = HMACSHA512_BYTES lib \<and> opaque_RecoverCredentials lib resp sec ctx ids = (0, sk, auth))) \<and>
     (\<forall>a b. length a = HMACSHA512_BYTES lib \<longrightarrow> length b = HMACSHA512_BYTES lib \<longrightarrow>
        (opaque_UserAuth lib a b = 0 \<longleftrightarrow> a = b))"

lemma opaque_worksD:
  assumes "opaque_works lib"
  shows "USER_SESSION_PUBLIC_LEN lib \<le> 1000" and "SERVER_SESSION_LEN lib \<le> 1000" and "HMACSHA512_BYTES lib \<le> 1000"
    and "\<exists>sec pub. opaque_CreateCredentialRequest lib n pw = (0, sec, pub)"
    and "opaque_CreateCredentialRequest lib n pw = (0, sec, pub) \<Longrightarrow>
      length sec = length pw + USER_SESSION_SECRET_LEN lib \<and> length pub = USER_SESSION_PUBLIC_LEN lib"
    and "\<exists>rec. opaque_Register lib n pw ids = (0, rec)"
    and "opaque_Register lib l pw ids = (0, rec) \<Longrightarrow> opaque_CreateCredentialRequest lib m pw = (0, sec, pub) \<Longrightarrow>
      \<exists>resp sk auth. opaque_CreateCredentialResponse lib n pub rec ids ctx = (0, resp, sk, auth) \<and>
        length resp = SERVER_SESSION_LEN lib \<and> length sk = SHARED_SECRETBYTES lib \<and>
        length auth = HMACSHA512_BYTES lib \<and> opaque_RecoverCredentials lib resp sec ctx ids = (0, sk, auth)"
    and "length a = HMACSHA512_BYTES lib \<Longrightarrow> opaque_UserAuth lib a a = 0"
proof -
  show "opaque_CreateCredentialRequest lib n pw = (0, sec, pub) \<Longrightarrow>
      length sec = length pw + USER_SESSION_SECRET_LEN lib \<and> length pub = USER_SESSION_PUBLIC_LEN lib"
    using assms unfolding opaque_works_def by (metis prod.inject)
qed (use assms in \<open>unfold opaque_works_def, blast+\<close>)

text \<open>A response is bound to its context: with another one the client recovers nothing.\<close>

definition opaque_binds_context :: "libopaque \<Rightarrow> bool" where
  "opaque_binds_context lib \<longleftrightarrow>
     (\<forall>n pub rec ids ctx ctx' resp sk auth sec ids'. opaque_CreateCredentialResponse lib n pub rec ids ctx = (0, resp, sk, auth) \<longrightarrow>
        length ctx = 4 \<longrightarrow> length ctx' = 4 \<longrightarrow> ctx' \<noteq> ctx \<longrightarrow> fst (opaque_RecoverCredentials lib resp sec ctx' ids') \<noteq> 0)"

text \<open>An endpoint that can take part: key exchange is on, the password is terminated, no data is waiting.\<close>

definition kex_ready :: "kex_st \<Rightarrow> bool" where
  "kex_ready k \<longleftrightarrow> kex_mode (cfg (base k)) = KEY_EXCHANGE_MODE_OPAQUE \<and> 0 \<in> set (psk (kex k)) \<and>
     \<not> has_psk_record (kex k) \<and> rekeying_interval_ms (kex k) = 0 \<and>
     items (fifo_retransmission (con (base k))) = [] \<and> \<not> queue_full (fifo_send (con (base k)))"

lemma remove_nothing:
  "items (fifo_retransmission (con s)) = [] \<Longrightarrow> \<not> queue_full (fifo_send (con s)) \<Longrightarrow> sr_remove_confirmed_messages s = Some s"
proof -
  assume empty: "items (fifo_retransmission (con s)) = []" "\<not> queue_full (fifo_send (con s))"
  have "(fifo_retransmission (con s))\<lparr>items := []\<rparr> = fifo_retransmission (con s)"
    using empty(1) by (cases "fifo_retransmission (con s)") simp
  then have "map_con (\<lambda>c. c\<lparr>fifo_retransmission := (fifo_retransmission c)\<lparr>items := []\<rparr>\<rparr>) s = s"
    by (simp add: map_con_def)
  with empty show ?thesis by (simp add: sr_remove_confirmed_messages_def)
qed

section \<open>The packets\<close>

definition kex_packet :: "rasta_conn_type \<Rightarrow> u32 \<Rightarrow> u32 \<Rightarrow> u32 \<Rightarrow> u32 \<Rightarrow> u32 \<Rightarrow> u32 \<Rightarrow> bytes \<Rightarrow> rasta_hashing_ctx \<Rightarrow> RastaPacket" where
  "kex_packet ty r sd sn csn ts cts d ctx = (initializePacket ty r sd sn csn ts cts (of_nat (length d)) ctx)\<lparr>pkt_data := d\<rparr>"

lemma kex_packet_fields [simp]:
  "pkt_type (kex_packet ty r sd sn csn ts cts d ctx) = ty" "receiver_id (kex_packet ty r sd sn csn ts cts d ctx) = r"
  "sender_id (kex_packet ty r sd sn csn ts cts d ctx) = sd" "sequence_number (kex_packet ty r sd sn csn ts cts d ctx) = sn"
  "confirmed_sequence_number (kex_packet ty r sd sn csn ts cts d ctx) = csn" "timestamp (kex_packet ty r sd sn csn ts cts d ctx) = ts"
  "confirmed_timestamp (kex_packet ty r sd sn csn ts cts d ctx) = cts" "pkt_data (kex_packet ty r sd sn csn ts cts d ctx) = d"
  by (simp_all add: kex_packet_def initializePacket_def)

lemma redelivered_data [simp]: "pkt_data (redelivered ctx p) = pkt_data p"
  by (simp add: redelivered_def)

lemma kex_payload:
  assumes "length d = n" and "n \<le> 1000"
  shows "rmemcpy (pkt_data (initializePacket ty r sd sn csn ts cts (of_nat n) ctx)) 0 d 0 n = Some d"
proof -
  have "unat (of_nat n :: u16) = n" using assms(2) by (intro unat_of_nat_bounded) simp
  then show ?thesis using assms(1) by (simp add: rmemcpy_def)
qed

lemma kex_packet_sent:
  assumes "sr_inv s" and "link_ok s" and "length d \<le> 1000" and "sr_hashing_context (mux s) = ctx" and "con s = c"
  shows "\<exists>s'. redundancy_mux_send (kex_packet ty r sd sn csn ts cts d ctx) (role c) s = Some s' \<and>
    sent (kex_packet ty r sd sn csn ts cts d ctx) s s' \<and> link_ok s' \<and> sr_inv s' \<and> con s' = c \<and> cfg s' = cfg s \<and>
    sr_hashing_context (mux s') = ctx \<and> (sockets_ok s \<longrightarrow> sockets_ok s')"
proof -
  let ?q = "kex_packet ty r sd sn csn ts cts d ctx" and ?p = "initializePacket ty r sd sn csn ts cts (of_nat (length d)) ctx"
  have n: "unat (of_nat (length d) :: u16) = length d" using assms(3) by (intro unat_of_nat_bounded) simp
  have "fits_wire s ?p" using assms(3) n unfolding assms(4) [symmetric] by (intro fits_wire_initializePacket [OF assms(1)]) simp
  moreover have "length d = length (pkt_data ?p)" using n by simp
  ultimately have "fits_wire s ?q" unfolding kex_packet_def fits_wire_def by (simp add: packet_wf_data)
  from mux_send_sent [OF assms(1,2) this] obtain s' where s': "redundancy_mux_send ?q (role c) s = Some s'" "sent ?q s s'"
    "link_ok s'" "sr_inv s'" "con s' = c" "cfg s' = cfg s" using assms(5) by auto
  moreover have "sr_hashing_context (mux s') = ctx"
    using s'(4) assms(1,4) redundancy_mux_send_keeps [OF s'(1)] by (simp add: sr_inv_def static_ok_def)
  moreover have "sockets_ok s \<longrightarrow> sockets_ok s'"
    using mux_send_returns [OF assms(1,2) \<open>fits_wire s ?q\<close>] redundancy_mux_send_keeps [OF s'(1)] s'(1) assms(5)
    by (auto simp: sockets_ok_def)
  ultimately show ?thesis by blast
qed

section \<open>The three steps\<close>

text \<open>Reading the clock.\<close>

lemma clock_steps:
  "timestamp_of k = (fst (now_ms (base k)), k\<lparr>base := snd (now_ms (base k))\<rparr>)"
  "\<exists>t c. current_time k = (t, k\<lparr>base := (base k)\<lparr>clk := c\<rparr>\<rparr>)"
  by (simp add: timestamp_of_def split_beta) (auto simp: current_time_def map_base_def split_beta)

lemma clock_keeps [simp]:
  "con (snd (now_ms s)) = con s" "chan (snd (now_ms s)) = chan s" "net (snd (now_ms s)) = net s" "cfg (snd (now_ms s)) = cfg s"
  "mux (snd (now_ms s)) = mux s"
  by (simp_all add: now_ms_def cur_timestamp_def clock_gettime_def Let_def)

lemma clock_inv [simp]: "sr_inv (snd (now_ms s)) = sr_inv s" "sr_inv (s\<lparr>clk := c\<rparr>) = sr_inv s" "link_ok (s\<lparr>clk := c\<rparr>) = link_ok s"
  by (simp_all add: sr_inv_def static_ok_def wire_ok_def link_ok_def now_ms_def cur_timestamp_def clock_gettime_def Let_def)

lemma start_rekeying_off: "rekeying_interval_ms (kex k) = 0 \<Longrightarrow> \<exists>c. start_rekeying k = k\<lparr>base := (base k)\<lparr>clk := c\<rparr>\<rparr>"
  using clock_steps(2) [of k] by (auto simp: start_rekeying_def)

text \<open>The client asks.\<close>

lemma client_asks:
  assumes "sr_inv (base k)" and "link_ok (base k)" and "opaque_works lib" and "kex_ready k"
    and "malloc_succeeds lib (lib_calls k)" and "mlock lib (lib_calls k) = 0"
    and "opaque_CreateCredentialRequest lib (lib_calls k) (password (psk (kex k))) = (0, sec, pub)"
  shows "\<exists>k' t. send_KexRequest lib k = Some k' \<and>
    sent (kex_packet RASTA_TYPE_KEX_REQUEST (remote_id (con (base k))) (my_id (con (base k))) (sn_t (con (base k))) (cs_t (con (base k)))
      t (ts_r (con (base k))) pub (sr_hashing_context (mux (base k)))) (base k) (base k') \<and>
    link_ok (base k') \<and> sr_inv (base k') \<and> cfg (base k') = cfg (base k) \<and> kex k' = kex k \<and> freed k' = freed k \<and>
    con (base k') = (con (base k))\<lparr>sn_t := sn_t (con (base k)) + 1, current_state := RASTA_CONNECTION_KEX_RESP\<rparr> \<and>
    client_secret (kex_state k') = Some sec \<and> password_length (kex_state k') = length (password (psk (kex k))) \<and>
    (sockets_ok (base k) \<longrightarrow> sockets_ok (base k'))"
proof -
  define s where "s = snd (now_ms (base k))"
  define q where "q = kex_packet RASTA_TYPE_KEX_REQUEST (remote_id (con (base k))) (my_id (con (base k))) (sn_t (con (base k)))
    (cs_t (con (base k))) (fst (now_ms (base k))) (ts_r (con (base k))) pub (sr_hashing_context (mux (base k)))"
  define k1 where "k1 = (map_kex (\<lambda>x. x\<lparr>client_secret := Some sec, password_length := length (password (psk (kex k))),
    client_public := pub\<rparr>) (k\<lparr>base := s\<rparr>))\<lparr>lib_calls := Suc (lib_calls k)\<rparr>"
  have s: "con s = con (base k)" "mux s = mux (base k)" "cfg s = cfg (base k)" "net s = net (base k)" "sr_inv s" "link_ok s" "chan s = chan (base k)"
    using assms(1,2) by (simp_all add: s_def)
  have pub: "length pub = USER_SESSION_PUBLIC_LEN lib" "USER_SESSION_PUBLIC_LEN lib \<le> 1000"
    using opaque_worksD(1,5) [OF assms(3)] assms(7) by auto
  have "key_exchange_prepare_credential_request lib (psk (kex k)) (k\<lparr>base := s\<rparr>) = Some (0, k1)"
    using assms(4-7) by (simp add: strlen_password kex_ready_def key_exchange_prepare_credential_request_def k1_def map_kex_def)
  then have create: "createKexRequest lib (remote_id (con s)) (my_id (con s)) (sn_t (con s)) (cs_t (con s)) (fst (now_ms (base k)))
      (ts_r (con s)) (sr_hashing_context (mux s)) (psk (kex k)) (k\<lparr>base := s\<rparr>) = Some (q, k1)"
    using kex_payload [OF pub] pub(1)
    by (simp add: createKexRequest_def q_def kex_packet_def k1_def map_kex_def s)
  obtain c where c: "start_rekeying k1 = k1\<lparr>base := s\<lparr>clk := c\<rparr>\<rparr>"
    using start_rekeying_off [of k1] assms(4) by (auto simp: k1_def map_kex_def kex_ready_def)
  have "sr_inv (s\<lparr>clk := c\<rparr>)" "link_ok (s\<lparr>clk := c\<rparr>)" "length pub \<le> 1000"
    "sr_hashing_context (mux (s\<lparr>clk := c\<rparr>)) = sr_hashing_context (mux (base k))" "con (s\<lparr>clk := c\<rparr>) = con s" using s pub by simp_all
  from kex_packet_sent [OF this] obtain u where u: "redundancy_mux_send q (role (con s)) (s\<lparr>clk := c\<rparr>) = Some u"
    "sent q (s\<lparr>clk := c\<rparr>) u" "link_ok u" "sr_inv u" "con u = con s" "cfg u = cfg (s\<lparr>clk := c\<rparr>)"
    "sockets_ok (s\<lparr>clk := c\<rparr>) \<longrightarrow> sockets_ok u" unfolding q_def by blast
  define v where "v = map_con (\<lambda>c. c\<lparr>sn_t := sn_t c + 1\<rparr>) u"
  obtain t d where d: "current_time (k1\<lparr>base := v\<rparr>) = (t, k1\<lparr>base := v\<lparr>clk := d\<rparr>\<rparr>)"
    using clock_steps(2) [of "k1\<lparr>base := v\<rparr>"] by auto
  define k' where "k' = map_base (set_state RASTA_CONNECTION_KEX_RESP) (map_kex (\<lambda>x. x\<lparr>last_key_exchanged_millis := t\<rparr>) (k1\<lparr>base := v\<lparr>clk := d\<rparr>\<rparr>))"
  have "send_KexRequest lib k = Some k'"
    using create u(1) d
    by (simp add: send_KexRequest_def clock_steps(1) s_def [symmetric] c on_base_def map_base_def k'_def v_def [symmetric] Let_def)
  moreover have k': "con (base k') = (con (base k))\<lparr>sn_t := sn_t (con (base k)) + 1, current_state := RASTA_CONNECTION_KEX_RESP\<rparr>"
    "net (base k') = net u" "chan (base k') = chan u" "cfg (base k') = cfg u" "kex k' = kex k" "freed k' = freed k"
    "client_secret (kex_state k') = Some sec" "password_length (kex_state k') = length (password (psk (kex k)))"
    by (simp_all add: k'_def k1_def v_def map_base_def map_kex_def set_state_def map_con_def u s)
  moreover have "sent q (base k) (base k')" using u(2) by (rule sent_cong) (simp_all add: k' s)
  moreover have "sr_ok u (base k')"
    by (simp add: k'_def v_def map_base_def map_kex_def set_state_def sr_ok_simps)
      (simp add: sr_ok_def sr_inv_def sr_frame_rel_def static_ok_def wire_ok_def map_con_def receive_side_def)
  then have "sr_inv (base k')" using u(4) by (simp add: sr_ok_def)
  moreover have "link_ok (base k')"
    using u(3) by (simp add: link_ok_def k'_def v_def map_base_def map_kex_def set_state_def map_con_def)
  moreover have "sockets_ok (base k) \<longrightarrow> sockets_ok (base k')"
    using u(7) s(2,7) by (simp add: sockets_ok_def k'_def v_def map_base_def map_kex_def set_state_def map_con_def)
  ultimately show ?thesis using u(6) s(3) unfolding q_def by auto
qed

lemma install_session_key_eq:
  assumes "length (session_key (kex_state k)) = SHARED_SECRETBYTES lib"
  shows "install_session_key lib k = Some (map_base (rekey ((sr_hashing_context (mux (base k)))\<lparr>key := session_key (kex_state k)\<rparr>)) k)"
  using assms by (simp add: install_session_key_def rasta_set_hash_key_variable_def rmemcpy_def allocateRastaByteArray_def map_base_def rekey_def)

lemma confirms_last: "cs \<le> n \<Longrightarrow> n \<noteq> - 1 \<Longrightarrow> n - cs < n + 1 - (cs :: u32)"
proof -
  assume le: "cs \<le> n" and "n \<noteq> - 1"
  then have "unat (n + 1) = unat n + 1" by (metis add.commute add_eq_0_iff Suc_eq_plus1 unatSuc)
  moreover from this have "cs \<le> n + 1" using le by (simp add: word_le_nat_alt)
  ultimately show ?thesis using le by (simp add: word_less_nat_alt unat_sub word_le_nat_alt)
qed

text \<open>The server answers and takes the key.\<close>

lemma server_answers_kex:
  assumes "sr_inv (base k)" and "link_ok (base k)" and "opaque_works lib" and "kex_ready k"
    and "current_state (con (base k)) = RASTA_CONNECTION_KEX_REQ"
    and "cs_r (con (base k)) \<le> csn" and "csn = sn_t (con (base k)) - 1" and "sn_t (con (base k)) \<noteq> 0"
    and "opaque_CreateCredentialRequest lib m (password (psk (kex k))) = (0, sec, pub)"
    and p: "p = redelivered ctx' (kex_packet RASTA_TYPE_KEX_REQUEST (my_id (con (base k))) (remote_id (con (base k))) (sn_r (con (base k)))
      csn ts cts pub ctx)"
  shows "\<exists>k' t resp sk auth rec. sr_receive_kex lib p k = Some (False, k') \<and>
    opaque_Register lib (lib_calls k) (password (psk (kex k)))
      \<lparr>idS = htobe32 (my_id (con (base k))), idU = htobe32 (remote_id (con (base k)))\<rparr> = (0, rec) \<and>
    opaque_CreateCredentialResponse lib (Suc (lib_calls k)) pub rec
      \<lparr>idS = htobe32 (my_id (con (base k))), idU = htobe32 (remote_id (con (base k)))\<rparr> (htobe32 (sn_i (con (base k)))) = (0, resp, sk, auth) \<and>
    sent (kex_packet RASTA_TYPE_KEX_RESPONSE (remote_id (con (base k))) (my_id (con (base k))) (sn_t (con (base k))) (sn_r (con (base k)))
      t ts resp (sr_hashing_context (mux (base k)))) (base k) (base k') \<and>
    cfg (base k') = cfg (base k) \<and> kex k' = kex k \<and> session_key (kex_state k') = sk \<and> user_auth_server (kex_state k') = auth \<and>
    sr_hashing_context (mux (base k')) = (sr_hashing_context (mux (base k)))\<lparr>key := sk\<rparr> \<and>
    con (base k') = (con (base k))\<lparr>sn_r := sn_r (con (base k)) + 1, sn_t := sn_t (con (base k)) + 1, cs_t := sn_r (con (base k)),
      cs_r := csn, ts_r := ts, cts_r := cts, current_state := RASTA_CONNECTION_KEX_AUTH\<rparr>"
proof -
  let ?c = "con (base k)" and ?ids = "\<lparr>idS = htobe32 (my_id (con (base k))), idU = htobe32 (remote_id (con (base k)))\<rparr>"
  obtain rec where rec: "opaque_Register lib (lib_calls k) (password (psk (kex k))) ?ids = (0, rec)"
    using opaque_worksD(6) [OF assms(3)] by blast
  obtain resp sk auth where resp: "opaque_CreateCredentialResponse lib (Suc (lib_calls k)) pub rec ?ids (htobe32 (sn_i ?c)) = (0, resp, sk, auth)"
    "length resp = SERVER_SESSION_LEN lib" "length sk = SHARED_SECRETBYTES lib" "length auth = HMACSHA512_BYTES lib"
    using opaque_worksD(7) [OF assms(3) rec assms(9)] by blast
  have pub: "length pub = USER_SESSION_PUBLIC_LEN lib" using opaque_worksD(5) [OF assms(3,9)] by simp
  obtain t0 c where c: "current_time k = (t0, k\<lparr>base := (base k)\<lparr>clk := c\<rparr>\<rparr>)" using clock_steps(2) [of k] by auto
  define s where "s = snd (now_ms ((base k)\<lparr>clk := c\<rparr>))"
  define t where "t = fst (now_ms ((base k)\<lparr>clk := c\<rparr>))"
  have s: "con s = ?c" "mux s = mux (base k)" "cfg s = cfg (base k)" "net s = net (base k)" "sr_inv s" "link_ok s"
    using assms(1,2) by (simp_all add: s_def)
  define k0 where "k0 = map_kex (\<lambda>x. x\<lparr>last_key_exchanged_millis := t0\<rparr>) (k\<lparr>base := s\<rparr>)"
  define k1 where "k1 = (map_kex (\<lambda>x. x\<lparr>user_record := rec, certificate_response := resp, session_key := sk, user_auth_server := auth\<rparr>) k0)
    \<lparr>lib_calls := Suc (Suc (lib_calls k))\<rparr>"
  define q where "q = kex_packet RASTA_TYPE_KEX_RESPONSE (remote_id ?c) (my_id ?c) (sn_t ?c) (sn_r ?c) t ts resp (sr_hashing_context (mux (base k)))"
  have create: "createKexResponse lib (remote_id ?c) (my_id ?c) (sn_t ?c) (sn_r ?c) t ts (sr_hashing_context (mux (base k)))
      (psk (kex k)) pub (sn_i ?c) k0 = Some (q, k1)"
    using assms(4) rec resp pub kex_payload [OF resp(2) opaque_worksD(2) [OF assms(3)]]
    by (simp add: createKexResponse_def prepare_user_record_def key_exchange_prepare_from_psk_def kex_prepare_credential_response_def
        rasta_ids_to_opaque_ids_def kex_ready_def strlen_password q_def kex_packet_def k1_def k0_def map_kex_def)
  have "length resp \<le> 1000" using resp(2) opaque_worksD(2) [OF assms(3)] by simp
  from kex_packet_sent [OF s(5,6) this _ s(1), of "sr_hashing_context (mux (base k))"] obtain u where
    u: "redundancy_mux_send q (role ?c) s = Some u" "sent q s u" "con u = ?c" "cfg u = cfg s"
      "sr_hashing_context (mux u) = sr_hashing_context (mux (base k))"
    unfolding q_def s(2) by blast
  define v where "v = map_con (\<lambda>c. kex_update_attrs p (c\<lparr>sn_t := sn_t c + 1\<rparr>)) u"
  have v: "sr_remove_confirmed_messages v = Some v"
    using assms(4) by (intro remove_nothing) (simp_all add: v_def map_con_def kex_update_attrs_def u kex_ready_def)
  define k' where "k' = k1\<lparr>base := rekey ((sr_hashing_context (mux (base k)))\<lparr>key := sk\<rparr>) (set_state RASTA_CONNECTION_KEX_AUTH v)\<rparr>"
  have "install_session_key lib (k1\<lparr>base := set_state RASTA_CONNECTION_KEX_AUTH v\<rparr>) = Some k'"
    using install_session_key_eq [of "k1\<lparr>base := set_state RASTA_CONNECTION_KEX_AUTH v\<rparr>" lib] resp(3)
    by (simp add: k'_def k1_def map_kex_def map_base_def set_state_def map_con_def v_def u)
  moreover have stamp: "timestamp_of (map_kex (\<lambda>x. x\<lparr>last_key_exchanged_millis := t0\<rparr>) (k\<lparr>base := (base k)\<lparr>clk := c\<rparr>\<rparr>)) = (t, k0)"
    by (simp add: clock_steps(1) k0_def t_def s_def map_kex_def)
  moreover have p': "sr_sn_in_seq ?c p" "sr_cts_in_seq ?c (sending (cfg (base k))) p" "sequence_number p = sn_r ?c" "timestamp p = ts" "pkt_data p = pub"
    by (simp_all add: p check_defs kex_type_defs)
  moreover have "base k0 = s" "kex k0 = kex k" "base k1 = s" by (simp_all add: k0_def k1_def map_kex_def)
  ultimately have "handle_kex_request lib p k = Some (False, k')"
    using assms(4,5) c create u(1) v
    by (simp add: handle_kex_request_def s kex_ready_def on_base_def map_base_def v_def [symmetric])
  moreover have "sr_receive_kex lib p k = handle_kex_request lib p k"
    using confirms_last [OF assms(6)] assms(5-8)
    by (simp add: sr_receive_kex_def p check_defs kex_type_defs sr_rekeying_skipped_kex_def handle_received_packet_kex_def)
  moreover have k': "net (base k') = net u" "chan (base k') = chan u" "cfg (base k') = cfg u" "kex k' = kex k"
    "session_key (kex_state k') = sk" "user_auth_server (kex_state k') = auth"
    "sr_hashing_context (mux (base k')) = (sr_hashing_context (mux (base k)))\<lparr>key := sk\<rparr>"
    "con (base k') = ?c\<lparr>sn_r := sn_r ?c + 1, sn_t := sn_t ?c + 1, cs_t := sn_r ?c,
      cs_r := csn, ts_r := ts, cts_r := cts, current_state := RASTA_CONNECTION_KEX_AUTH\<rparr>"
    by (simp_all add: k'_def k1_def k0_def v_def map_kex_def set_state_def map_con_def u kex_update_attrs_def p)
  moreover have "sent q (base k) (base k')" using u(2) by (rule sent_cong) (simp_all add: k' s)
  ultimately show ?thesis using rec resp(1) u(4) s(3) unfolding q_def by auto
qed

text \<open>The response reaches the client's handler, which asks the library for the key.\<close>

definition recovered :: "libopaque \<Rightarrow> bytes \<Rightarrow> kex_st \<Rightarrow> int \<times> bytes \<times> bytes" where
  "recovered lib resp k = opaque_RecoverCredentials lib resp (the (client_secret (kex_state k))) (htobe32 (sn_i (con (base k))))
     \<lparr>idS = htobe32 (remote_id (con (base k))), idU = htobe32 (my_id (con (base k)))\<rparr>"

text \<open>The state behind the call of the library: the secret is freed, all but its first bytes as they were.\<close>

definition after_recovery :: "libopaque \<Rightarrow> bytes \<Rightarrow> kex_st \<Rightarrow> kex_st" where
  "after_recovery lib resp k = (map_kex (\<lambda>x. x\<lparr>session_key := fst (snd (recovered lib resp k)),
     user_auth_server := snd (snd (recovered lib resp k)), client_secret := None\<rparr>) k)
     \<lparr>freed := (replicate (password_length (kex_state k)) 0 @ drop (password_length (kex_state k)) (the (client_secret (kex_state k)))) # freed k\<rparr>"

lemma recover_credential_eq:
  assumes "length resp = SERVER_SESSION_LEN lib" and "client_secret (kex_state k) = Some sec" and "password_length (kex_state k) \<le> length sec"
  shows "kex_recover_credential lib resp (my_id (con (base k))) (remote_id (con (base k))) (sn_i (con (base k))) k =
    Some (fst (recovered lib resp k), after_recovery lib resp k)"
  using assms by (simp add: kex_recover_credential_def recovered_def after_recovery_def rasta_ids_to_opaque_ids_def rmemset_def split_beta Let_def)

text \<open>A packet of the server that the checks of \<open>sr_receive\<close> let pass.\<close>

definition expected_response :: "RastaPacket \<Rightarrow> kex_st \<Rightarrow> bool" where
  "expected_response p k \<longleftrightarrow> (\<exists>ctx' csn ts cts resp ctx. csn = sn_t (con (base k)) - 1 \<and> cs_r (con (base k)) \<le> csn \<and>
     p = redelivered ctx' (kex_packet RASTA_TYPE_KEX_RESPONSE (my_id (con (base k))) (remote_id (con (base k))) (sn_r (con (base k)))
       csn ts cts resp ctx))"

lemma response_dispatched:
  assumes "expected_response p k" and "sn_t (con (base k)) \<noteq> 0" and "role (con (base k)) = RASTA_ROLE_CLIENT"
  shows "sr_receive_kex lib p k = handle_kex_response lib p k" and "sr_sn_in_seq (con (base k)) p"
    and "sr_cts_in_seq (con (base k)) (sending (cfg (base k))) p" and "sequence_number p = sn_r (con (base k))"
proof -
  obtain ctx' csn ts cts resp ctx where csn: "csn = sn_t (con (base k)) - 1" "cs_r (con (base k)) \<le> csn" and
    p: "p = redelivered ctx' (kex_packet RASTA_TYPE_KEX_RESPONSE (my_id (con (base k))) (remote_id (con (base k))) (sn_r (con (base k)))
      csn ts cts resp ctx)" using assms(1) by (auto simp: expected_response_def)
  show "sr_receive_kex lib p k = handle_kex_response lib p k"
    using confirms_last [OF csn(2)] assms(2,3) csn
    by (simp add: sr_receive_kex_def p check_defs kex_type_defs sr_rekeying_skipped_kex_def handle_received_packet_kex_def)
qed (use assms(1) in \<open>auto simp: expected_response_def check_defs kex_type_defs\<close>)

lemma client_takes_key:
  assumes "sr_inv (base k)" and "link_ok (base k)" and "opaque_works lib" and "kex_ready k"
    and "current_state (con (base k)) = RASTA_CONNECTION_KEX_RESP" and "expected_response p k"
    and "sn_t (con (base k)) \<noteq> 0" and "role (con (base k)) = RASTA_ROLE_CLIENT"
    and "client_secret (kex_state k) = Some sec" and "password_length (kex_state k) \<le> length sec"
    and "recovered lib (pkt_data p) k = (0, sk, auth)" and "length (pkt_data p) = SERVER_SESSION_LEN lib"
    and "length sk = SHARED_SECRETBYTES lib" and "length auth = HMACSHA512_BYTES lib"
  shows "\<exists>k' t. sr_receive_kex lib p k = Some (True, k') \<and>
    sent (kex_packet RASTA_TYPE_KEX_AUTHENTICATION (remote_id (con (base k))) (my_id (con (base k))) (sn_t (con (base k)))
      (sn_r (con (base k))) t (timestamp p) auth (sr_hashing_context (mux (base k)))) (base k) (base k') \<and>
    current_state (con (base k')) = RASTA_CONNECTION_UP \<and> session_key (kex_state k') = sk \<and>
    sr_hashing_context (mux (base k')) = (sr_hashing_context (mux (base k)))\<lparr>key := sk\<rparr> \<and>
    sn_t (con (base k')) = sn_t (con (base k)) + 1 \<and> sn_r (con (base k')) = sn_r (con (base k)) + 1"
proof -
  let ?c = "con (base k)"
  define k0 where "k0 = after_recovery lib (pkt_data p) k"
  have k0: "base k0 = base k" "kex k0 = kex k" "session_key (kex_state k0) = sk" "user_auth_server (kex_state k0) = auth"
    by (simp_all add: k0_def after_recovery_def map_kex_def assms(11))
  have rec: "kex_recover_credential lib (pkt_data p) (my_id ?c) (remote_id ?c) (sn_i ?c) k = Some (0, k0)"
    using recover_credential_eq [OF assms(12,9,10)] assms(11) by (simp add: k0_def)
  define s where "s = snd (now_ms (base k))"
  have s: "con s = ?c" "mux s = mux (base k)" "cfg s = cfg (base k)" "net s = net (base k)" "sr_inv s" "link_ok s"
    using assms(1,2) by (simp_all add: s_def)
  define q where "q = kex_packet RASTA_TYPE_KEX_AUTHENTICATION (remote_id ?c) (my_id ?c) (sn_t ?c) (sn_r ?c) (fst (now_ms (base k)))
    (timestamp p) auth (sr_hashing_context (mux (base k)))"
  have create: "createKexAuthentication (remote_id ?c) (my_id ?c) (sn_t ?c) (sn_r ?c) (fst (now_ms (base k))) (timestamp p)
      (sr_hashing_context (mux (base k))) auth (HMACSHA512_BYTES lib) = Some q"
    using kex_payload [OF assms(14) opaque_worksD(3) [OF assms(3)]] assms(14)
    by (simp add: createKexAuthentication_def q_def kex_packet_def)
  have "length auth \<le> 1000" using assms(14) opaque_worksD(3) [OF assms(3)] by simp
  from kex_packet_sent [OF s(5,6) this _ s(1), of "sr_hashing_context (mux (base k))"] obtain u where
    u: "redundancy_mux_send q (role ?c) s = Some u" "sent q s u" "con u = ?c" "cfg u = cfg s"
      "sr_hashing_context (mux u) = sr_hashing_context (mux (base k))"
    unfolding q_def s(2) by blast
  define v where "v = map_con (\<lambda>c. kex_update_attrs p (c\<lparr>sn_t := sn_t c + 1\<rparr>)) u"
  have v: "sr_remove_confirmed_messages v = Some v"
    using assms(4) by (intro remove_nothing) (simp_all add: v_def map_con_def kex_update_attrs_def u kex_ready_def)
  define k' where "k' = k0\<lparr>base := rekey ((sr_hashing_context (mux (base k)))\<lparr>key := sk\<rparr>) (set_state RASTA_CONNECTION_UP v)\<rparr>"
  have "install_session_key lib (k0\<lparr>base := set_state RASTA_CONNECTION_UP v\<rparr>) = Some k'"
    using install_session_key_eq [of "k0\<lparr>base := set_state RASTA_CONNECTION_UP v\<rparr>" lib] assms(13)
    by (simp add: k'_def k0 map_base_def set_state_def map_con_def v_def u)
  then have "handle_kex_response lib p k = Some (True, k')"
    using response_dispatched(2-4) [OF assms(6-8)] assms(4,5) rec create u(1) v
    by (simp add: handle_kex_response_def kex_ready_def clock_steps(1) s_def [symmetric] s k0 on_base_def map_base_def v_def [symmetric])
  moreover have k': "net (base k') = net u" "chan (base k') = chan u" "cfg (base k') = cfg u"
    "current_state (con (base k')) = RASTA_CONNECTION_UP" "session_key (kex_state k') = sk"
    "sr_hashing_context (mux (base k')) = (sr_hashing_context (mux (base k)))\<lparr>key := sk\<rparr>"
    "sn_t (con (base k')) = sn_t ?c + 1" "sn_r (con (base k')) = sn_r ?c + 1"
    using response_dispatched(4) [OF assms(6-8)]
    by (simp_all add: k'_def k0 v_def set_state_def map_con_def u kex_update_attrs_def)
  moreover have "sent q (base k) (base k')" using u(2) by (rule sent_cong) (simp_all add: k' s)
  ultimately show ?thesis
    using response_dispatched(1) [OF assms(6-8)] unfolding q_def by auto
qed

text \<open>The token opens the server.\<close>

lemma server_authenticates:
  assumes "opaque_works lib" and "kex_ready k" and "current_state (con (base k)) = RASTA_CONNECTION_KEX_AUTH"
    and "cs_r (con (base k)) \<le> csn" and "csn = sn_t (con (base k)) - 1" and "sn_t (con (base k)) \<noteq> 0"
    and "length (user_auth_server (kex_state k)) = HMACSHA512_BYTES lib"
    and p: "p = redelivered ctx' (kex_packet RASTA_TYPE_KEX_AUTHENTICATION (my_id (con (base k))) (remote_id (con (base k)))
      (sn_r (con (base k))) csn ts cts (user_auth_server (kex_state k)) ctx)"
  shows "\<exists>k'. sr_receive_kex lib p k = Some (True, k') \<and> current_state (con (base k')) = RASTA_CONNECTION_UP \<and>
    kex_state k' = kex_state k \<and> sr_hashing_context (mux (base k')) = sr_hashing_context (mux (base k)) \<and>
    sn_r (con (base k')) = sn_r (con (base k)) + 1 \<and> sn_t (con (base k')) = sn_t (con (base k))"
proof -
  let ?v = "map_con (kex_update_attrs p) (base k)"
  have "sr_remove_confirmed_messages ?v = Some ?v"
    using assms(2) by (intro remove_nothing) (simp_all add: map_con_def kex_update_attrs_def kex_ready_def)
  moreover have "kex_authenticate_user lib (kex_state k) (user_auth_server (kex_state k)) = 0"
    using opaque_worksD(8) [OF assms(1,7)] assms(7) by (simp add: kex_authenticate_user_def)
  ultimately have "handle_kex_auth lib p k = Some (True, k\<lparr>base := set_state RASTA_CONNECTION_UP ?v\<rparr>)"
    using assms(2,3) by (simp add: handle_kex_auth_def kex_ready_def p check_defs kex_type_defs on_base_def map_base_def)
  moreover have "sr_receive_kex lib p k = handle_kex_auth lib p k"
    using confirms_last [OF assms(4)] assms(2,4-6)
    by (simp add: sr_receive_kex_def p check_defs kex_type_defs sr_rekeying_skipped_kex_def handle_received_packet_kex_def kex_ready_def)
  ultimately show ?thesis by (simp add: set_state_def map_con_def kex_update_attrs_def p)
qed

section \<open>The exchange\<close>

text \<open>
  A client and a server after the handshake, each with the number that the other one expects, and the
  numbers not at the end of their range.
\<close>

definition in_step :: "rasta_connection \<Rightarrow> rasta_connection \<Rightarrow> bool" where
  "in_step c s \<longleftrightarrow> my_id s = remote_id c \<and> remote_id s = my_id c \<and> role c = RASTA_ROLE_CLIENT \<and>
     current_state s = RASTA_CONNECTION_KEX_REQ \<and> sn_r s = sn_t c \<and> sn_r c = sn_t s \<and> cs_t c = sn_t s - 1 \<and>
     cs_r s \<le> sn_t s - 1 \<and> cs_r c \<le> sn_t c \<and> sn_t c \<noteq> - 1 \<and> sn_t s \<noteq> 0 \<and> sn_t s \<noteq> - 1"

definition kex_pair :: "libopaque \<Rightarrow> kex_st \<Rightarrow> kex_st \<Rightarrow> bool" where
  "kex_pair lib c s \<longleftrightarrow> sr_inv (base c) \<and> link_ok (base c) \<and> kex_ready c \<and> sr_inv (base s) \<and> link_ok (base s) \<and> kex_ready s \<and>
     in_step (con (base c)) (con (base s)) \<and> malloc_succeeds lib (lib_calls c) \<and> mlock lib (lib_calls c) = 0 \<and>
     password (psk (kex c)) = password (psk (kex s))"

lemma not_minus_one: "n \<noteq> - 1 \<Longrightarrow> n + 1 \<noteq> (0 :: u32)"
  by (metis add.commute add_eq_0_iff)

lemma pred_le: "n \<noteq> 0 \<Longrightarrow> n - 1 \<le> (n :: u32)"
  by (simp add: word_le_nat_alt unat_minus_one)

lemma htobe32_inject: "htobe32 a = htobe32 b \<Longrightarrow> a = b"
proof -
  assume "htobe32 a = htobe32 b"
  moreover have "htobe32 v = rev (hostLongToLe v)" for v by (simp add: htobe32_def hostLongToLe_def)
  ultimately show ?thesis by (metis le_long_hostLongToLe rev_rev_ident)
qed

text \<open>The exchange up to the response, which the client has yet to take.\<close>

lemma request_and_response:
  assumes "opaque_works lib" and "kex_pair lib c s"
  obtains request response c1 s1 rec sec pub sk auth ids where
    "send_KexRequest lib c = Some c1" "sent request (base c) (base c1)"
    "sr_receive_kex lib (redelivered (hashing_context (chan (base s))) request) s = Some (False, s1)" "sent response (base s) (base s1)"
    "sr_inv (base c1)" "link_ok (base c1)" "sockets_ok (base c) \<Longrightarrow> sockets_ok (base c1)" "kex_ready c1" "kex_ready s1"
    "con (base c1) = (con (base c))\<lparr>sn_t := sn_t (con (base c)) + 1, current_state := RASTA_CONNECTION_KEX_RESP\<rparr>"
    "client_secret (kex_state c1) = Some sec" "password_length (kex_state c1) \<le> length sec"
    "opaque_CreateCredentialResponse lib (Suc (lib_calls s)) pub rec ids (htobe32 (sn_i (con (base s)))) = (0, pkt_data response, sk, auth)"
    "recovered lib (pkt_data response) c1 = opaque_RecoverCredentials lib (pkt_data response) sec (htobe32 (sn_i (con (base c)))) ids"
    "opaque_RecoverCredentials lib (pkt_data response) sec (htobe32 (sn_i (con (base s)))) ids = (0, sk, auth)"
    "expected_response (redelivered (hashing_context (chan (base c1))) response) c1" "length (pkt_data response) = SERVER_SESSION_LEN lib"
    "length sk = SHARED_SECRETBYTES lib" "length auth = HMACSHA512_BYTES lib"
    "session_key (kex_state s1) = sk" "user_auth_server (kex_state s1) = auth" "key (sr_hashing_context (mux (base s1))) = sk"
    "con (base s1) = (con (base s))\<lparr>sn_r := sn_r (con (base s)) + 1, sn_t := sn_t (con (base s)) + 1, cs_t := sn_r (con (base s)),
      cs_r := sn_t (con (base s)) - 1, ts_r := timestamp request, cts_r := confirmed_timestamp request,
      current_state := RASTA_CONNECTION_KEX_AUTH\<rparr>"
proof -
  let ?c = "con (base c)" and ?s = "con (base s)"
  let ?ids = "\<lparr>idS = htobe32 (my_id ?s), idU = htobe32 (remote_id ?s)\<rparr>"
  note pair = assms(2) [unfolded kex_pair_def in_step_def]
  obtain sec pub where pub: "opaque_CreateCredentialRequest lib (lib_calls c) (password (psk (kex c))) = (0, sec, pub)"
    using opaque_worksD(4) [OF assms(1)] by blast
  from client_asks [OF _ _ assms(1) _ _ _ pub] pair obtain c1 t1 where c1: "send_KexRequest lib c = Some c1"
    "sent (kex_packet RASTA_TYPE_KEX_REQUEST (remote_id ?c) (my_id ?c) (sn_t ?c) (cs_t ?c) t1 (ts_r ?c) pub
      (sr_hashing_context (mux (base c)))) (base c) (base c1)"
    "link_ok (base c1)" "sr_inv (base c1)" "cfg (base c1) = cfg (base c)" "kex c1 = kex c"
    "con (base c1) = ?c\<lparr>sn_t := sn_t ?c + 1, current_state := RASTA_CONNECTION_KEX_RESP\<rparr>"
    "client_secret (kex_state c1) = Some sec" "password_length (kex_state c1) = length (password (psk (kex c)))"
    "sockets_ok (base c) \<longrightarrow> sockets_ok (base c1)" by blast
  let ?rq = "kex_packet RASTA_TYPE_KEX_REQUEST (remote_id ?c) (my_id ?c) (sn_t ?c) (cs_t ?c) t1 (ts_r ?c) pub (sr_hashing_context (mux (base c)))"
  have rq: "redelivered (hashing_context (chan (base s))) ?rq = redelivered (hashing_context (chan (base s)))
    (kex_packet RASTA_TYPE_KEX_REQUEST (my_id ?s) (remote_id ?s) (sn_r ?s) (sn_t ?s - 1) t1 (ts_r ?c) pub (sr_hashing_context (mux (base c))))"
    using pair by simp
  have pub_s: "opaque_CreateCredentialRequest lib (lib_calls c) (password (psk (kex s))) = (0, sec, pub)" using pub pair by simp
  have "sr_inv (base s)" "link_ok (base s)" "kex_ready s" "current_state ?s = RASTA_CONNECTION_KEX_REQ" "cs_r ?s \<le> sn_t ?s - 1" "sn_t ?s \<noteq> 0"
    using pair by simp_all
  from server_answers_kex [OF this(1,2) assms(1) this(3-5) refl this(6) pub_s rq] obtain s1 t2 resp sk auth rec where
    s1: "sr_receive_kex lib (redelivered (hashing_context (chan (base s))) ?rq) s = Some (False, s1)"
    "opaque_Register lib (lib_calls s) (password (psk (kex s))) ?ids = (0, rec)"
    "opaque_CreateCredentialResponse lib (Suc (lib_calls s)) pub rec ?ids (htobe32 (sn_i ?s)) = (0, resp, sk, auth)"
    "sent (kex_packet RASTA_TYPE_KEX_RESPONSE (remote_id ?s) (my_id ?s) (sn_t ?s) (sn_r ?s) t2 t1 resp (sr_hashing_context (mux (base s)))) (base s) (base s1)"
    "cfg (base s1) = cfg (base s)" "kex s1 = kex s" "session_key (kex_state s1) = sk" "user_auth_server (kex_state s1) = auth"
    "sr_hashing_context (mux (base s1)) = (sr_hashing_context (mux (base s)))\<lparr>key := sk\<rparr>"
    "con (base s1) = ?s\<lparr>sn_r := sn_r ?s + 1, sn_t := sn_t ?s + 1, cs_t := sn_r ?s, cs_r := sn_t ?s - 1, ts_r := t1, cts_r := ts_r ?c,
      current_state := RASTA_CONNECTION_KEX_AUTH\<rparr>" by blast
  let ?rs = "kex_packet RASTA_TYPE_KEX_RESPONSE (remote_id ?s) (my_id ?s) (sn_t ?s) (sn_r ?s) t2 t1 resp (sr_hashing_context (mux (base s)))"
  have works: "length resp = SERVER_SESSION_LEN lib" "length sk = SHARED_SECRETBYTES lib" "length auth = HMACSHA512_BYTES lib"
    "opaque_RecoverCredentials lib resp sec (htobe32 (sn_i ?s)) ?ids = (0, sk, auth)"
    using opaque_worksD(7) [OF assms(1) s1(2) pub_s, of "Suc (lib_calls s)" "htobe32 (sn_i ?s)"] s1(3) by auto
  have ready: "kex_ready c1" "kex_ready s1" using pair c1(5-7) s1(5,6,10) by (simp_all add: kex_ready_def)
  have len: "password_length (kex_state c1) \<le> length sec" using opaque_worksD(5) [OF assms(1) pub] c1(9) by simp
  have rec: "recovered lib (pkt_data ?rs) c1 = opaque_RecoverCredentials lib (pkt_data ?rs) sec (htobe32 (sn_i ?c)) ?ids"
    using pair c1(7,8) by (simp add: recovered_def)
  have exp: "expected_response (redelivered (hashing_context (chan (base c1))) ?rs) c1"
    unfolding expected_response_def using pair by (simp add: c1(7)) blast
  show ?thesis
    by (rule that [of c1 ?rq s1 ?rs sec pub rec ?ids sk auth])
      (use c1 s1 works ready len rec exp in \<open>simp_all\<close>)
qed

text \<open>
  C17: The key exchange completes. The client sends its request, the server answers, the client takes
  the response and sends its token, and the token opens the server. Each packet is what the redundancy
  layer of the other side hands up. In the end both connections are \<open>UP\<close> and both multiplexers have the
  same session key. The library has to work, the passwords have to agree, and so do the initial sequence
  numbers that the two sides use as context.
\<close>

theorem key_exchange_completes:
  assumes "opaque_works lib" and "kex_pair lib c s" and "sn_i (con (base c)) = sn_i (con (base s))"
  shows "\<exists>request response token c1 c2 s1 s2.
    send_KexRequest lib c = Some c1 \<and> sent request (base c) (base c1) \<and>
    sr_receive_kex lib (redelivered (hashing_context (chan (base s))) request) s = Some (False, s1) \<and> sent response (base s) (base s1) \<and>
    sr_receive_kex lib (redelivered (hashing_context (chan (base c1))) response) c1 = Some (True, c2) \<and> sent token (base c1) (base c2) \<and>
    sr_receive_kex lib (redelivered (hashing_context (chan (base s1))) token) s1 = Some (True, s2) \<and>
    current_state (con (base c2)) = RASTA_CONNECTION_UP \<and> current_state (con (base s2)) = RASTA_CONNECTION_UP \<and>
    session_key (kex_state c2) = session_key (kex_state s2) \<and>
    key (sr_hashing_context (mux (base c2))) = session_key (kex_state c2) \<and>
    key (sr_hashing_context (mux (base s2))) = session_key (kex_state s2) \<and>
    sn_r (con (base s2)) = sn_t (con (base c2)) \<and> sn_r (con (base c2)) = sn_t (con (base s2))"
proof (rule request_and_response [OF assms(1,2)])
  fix request response and c1 s1 :: kex_st and rec sec pub sk auth ids
  let ?c = "con (base c)" and ?s = "con (base s)"
  let ?rs = "redelivered (hashing_context (chan (base c1))) response"
  note pair = assms(2) [unfolded kex_pair_def in_step_def]
  assume h: "send_KexRequest lib c = Some c1" "sent request (base c) (base c1)"
    "sr_receive_kex lib (redelivered (hashing_context (chan (base s))) request) s = Some (False, s1)" "sent response (base s) (base s1)"
    and c1: "sr_inv (base c1)" "link_ok (base c1)" "kex_ready c1"
    "con (base c1) = ?c\<lparr>sn_t := sn_t ?c + 1, current_state := RASTA_CONNECTION_KEX_RESP\<rparr>"
    "client_secret (kex_state c1) = Some sec" "password_length (kex_state c1) \<le> length sec"
    "recovered lib (pkt_data response) c1 = opaque_RecoverCredentials lib (pkt_data response) sec (htobe32 (sn_i ?c)) ids"
    "opaque_RecoverCredentials lib (pkt_data response) sec (htobe32 (sn_i ?s)) ids = (0, sk, auth)"
    "expected_response ?rs c1" "length (pkt_data response) = SERVER_SESSION_LEN lib"
    "length sk = SHARED_SECRETBYTES lib" "length auth = HMACSHA512_BYTES lib"
    and s1: "kex_ready s1" "session_key (kex_state s1) = sk" "user_auth_server (kex_state s1) = auth"
    "key (sr_hashing_context (mux (base s1))) = sk"
    "con (base s1) = ?s\<lparr>sn_r := sn_r ?s + 1, sn_t := sn_t ?s + 1, cs_t := sn_r ?s, cs_r := sn_t ?s - 1,
      ts_r := timestamp request, cts_r := confirmed_timestamp request, current_state := RASTA_CONNECTION_KEX_AUTH\<rparr>"
  have up: "sn_t (con (base c1)) \<noteq> 0" "role (con (base c1)) = RASTA_ROLE_CLIENT" "current_state (con (base c1)) = RASTA_CONNECTION_KEX_RESP"
    "sn_t (con (base s1)) \<noteq> 0" "current_state (con (base s1)) = RASTA_CONNECTION_KEX_AUTH"
    using pair by (simp_all add: c1(4) s1(5) not_minus_one)
  from client_takes_key [OF c1(1,2) assms(1) c1(3) up(3) c1(9) up(1,2) c1(5,6), of sk auth] c1(7,8,10-12) assms(3)
  obtain c2 t where c2: "sr_receive_kex lib ?rs c1 = Some (True, c2)"
    "sent (kex_packet RASTA_TYPE_KEX_AUTHENTICATION (remote_id ?c) (my_id ?c) (sn_t ?c + 1) (sn_r ?c) t (timestamp ?rs) auth
      (sr_hashing_context (mux (base c1)))) (base c1) (base c2)" "current_state (con (base c2)) = RASTA_CONNECTION_UP"
    "session_key (kex_state c2) = sk" "sr_hashing_context (mux (base c2)) = (sr_hashing_context (mux (base c1)))\<lparr>key := sk\<rparr>"
    "sn_t (con (base c2)) = sn_t ?c + 1 + 1" "sn_r (con (base c2)) = sn_r ?c + 1" by (auto simp: c1(4))
  let ?tk = "kex_packet RASTA_TYPE_KEX_AUTHENTICATION (remote_id ?c) (my_id ?c) (sn_t ?c + 1) (sn_r ?c) t (timestamp ?rs) auth
    (sr_hashing_context (mux (base c1)))"
  have tk: "redelivered (hashing_context (chan (base s1))) ?tk = redelivered (hashing_context (chan (base s1)))
    (kex_packet RASTA_TYPE_KEX_AUTHENTICATION (my_id (con (base s1))) (remote_id (con (base s1))) (sn_r (con (base s1)))
      (sn_t (con (base s1)) - 1) t (timestamp ?rs) (user_auth_server (kex_state s1)) (sr_hashing_context (mux (base c1))))"
    using pair by (simp add: s1(3,5))
  have "cs_r (con (base s1)) \<le> sn_t (con (base s1)) - 1" using pair by (simp add: s1(5) pred_le)
  from server_authenticates [OF assms(1) s1(1) up(5) this refl up(4) _ tk] s1(3) c1(12) obtain s2 where
    s2: "sr_receive_kex lib (redelivered (hashing_context (chan (base s1))) ?tk) s1 = Some (True, s2)"
    "current_state (con (base s2)) = RASTA_CONNECTION_UP" "kex_state s2 = kex_state s1"
    "sr_hashing_context (mux (base s2)) = sr_hashing_context (mux (base s1))"
    "sn_r (con (base s2)) = sn_r ?s + 1 + 1" "sn_t (con (base s2)) = sn_t ?s + 1" by (auto simp: s1(5))
  have "session_key (kex_state c2) = session_key (kex_state s2)" "key (sr_hashing_context (mux (base c2))) = session_key (kex_state c2)"
    "key (sr_hashing_context (mux (base s2))) = session_key (kex_state s2)"
    "sn_r (con (base s2)) = sn_t (con (base c2))" "sn_r (con (base c2)) = sn_t (con (base s2))"
    using pair by (simp_all add: c2(4-7) s2(3-6) s1(2,4))
  then show ?thesis using h c2(1-3) s2(1,2) by blast
qed

section \<open>A client and a server\<close>

text \<open>The example endpoint as a client and as a server after the handshake; \<open>n\<close> is the number of the server.\<close>

definition kex_example_config :: rasta_config_info where
  "kex_example_config = example_config\<lparr>kex_mode := KEY_EXCHANGE_MODE_OPAQUE\<rparr>"

definition quiet_st :: "(rasta_connection \<Rightarrow> rasta_connection) \<Rightarrow> rasta_st" where
  "quiet_st f = map_con (\<lambda>c. f (c\<lparr>fifo_retransmission := (fifo_retransmission c)\<lparr>items := []\<rparr>\<rparr>)) (example_st\<lparr>cfg := kex_example_config\<rparr>)"

definition kex_client :: kex_st where
  "kex_client = example_kex (quiet_st (\<lambda>c. c\<lparr>sn_t := 7, sn_r := 4, cs_t := 3, cs_r := 6, sn_i := 5\<rparr>))"

definition kex_server :: "u32 \<Rightarrow> kex_st" where
  "kex_server n = example_kex (quiet_st (\<lambda>c. c\<lparr>my_id := 0x61, remote_id := 0x60, role := RASTA_ROLE_SERVER,
     current_state := RASTA_CONNECTION_KEX_REQ, sn_t := 4, sn_r := 7, cs_t := 6, cs_r := 3, sn_i := n\<rparr>))"

lemma example_opaque_works: "opaque_works example_opaque"
proof -
  have "min n 8 + (8 - n) = 8" "min n 64 + (64 - n) = (64 :: nat)" for n by auto
  then show ?thesis by (simp add: opaque_works_def example_opaque_def)
qed

lemma example_opaque_binds: "opaque_binds_context example_opaque"
proof -
  have "take 8 (a @ replicate 8 (0 :: u8)) \<noteq> take 8 (b @ replicate 8 0)" if "length a = 4" "length b = 4" "a \<noteq> b" for a b
    using that by (simp add: take_Cons')
  then show ?thesis by (auto simp: opaque_binds_context_def example_opaque_def)
qed

lemma quiet_st_ok:
  assumes "\<And>c. fifo_send (f c) = fifo_send c" and "\<And>c. fifo_retransmission (f c) = fifo_retransmission c"
  shows "sr_inv (quiet_st f)" and "link_ok (quiet_st f)" and "sockets_ok (quiet_st f)" and "kex_ready (example_kex (quiet_st f))"
proof -
  have q: "net (quiet_st f) = net example_st" "chan (quiet_st f) = chan example_st" "mux (quiet_st f) = mux example_st"
    "module_error (quiet_st f) = module_error example_st" "cfg (quiet_st f) = kex_example_config"
    "fifo_send (con (quiet_st f)) = fifo_send (con example_st)"
    "fifo_retransmission (con (quiet_st f)) = (fifo_retransmission (con example_st))\<lparr>items := []\<rparr>"
    by (simp_all add: quiet_st_def map_con_def assms)
  have c: "sending kex_example_config = sending (cfg example_st)" "redundancy kex_example_config = redundancy (cfg example_st)"
    "max_retransmission_queue_size kex_example_config = max_retransmission_queue_size (cfg example_st)"
    by (simp_all add: kex_example_config_def example_st_def)
  show "sr_inv (quiet_st f)"
    using example_sr_inv by (simp add: sr_inv_def static_ok_def wire_ok_def message_fits_def q c queue_invar_def)
  show "link_ok (quiet_st f)" "sockets_ok (quiet_st f)"
    using example_connected example_net_ok example_sockets_ok by (simp_all add: link_ok_def sockets_ok_def q)
  show "kex_ready (example_kex (quiet_st f))"
    by (simp add: kex_ready_def example_kex_def q kex_example_config_def example_st_def example_connection_def queue_full_def)
qed

lemma example_kex_base [simp]: "base (example_kex s) = s" "lib_calls (example_kex s) = 0" 
  by (simp_all add: example_kex_def)

lemma example_pair: "kex_pair example_opaque kex_client (kex_server n)"
proof -
  have "in_step (con (base kex_client)) (con (base (kex_server n)))"
    by (simp add: in_step_def kex_client_def kex_server_def quiet_st_def map_con_def example_st_def example_connection_def)
  moreover have "kex kex_client = kex (kex_server n)" "lib_calls kex_client = 0" by (simp_all add: kex_client_def kex_server_def example_kex_def)
  moreover have "malloc_succeeds example_opaque 0" "mlock example_opaque 0 = 0" by (simp_all add: example_opaque_def)
  ultimately show ?thesis
    unfolding kex_pair_def by (simp) (simp add: kex_client_def kex_server_def quiet_st_ok)
qed

theorem key_exchange_completes_witness:
  "\<exists>c1 c2 s1 s2 request response token.
     send_KexRequest example_opaque kex_client = Some c1 \<and> sent request (base kex_client) (base c1) \<and>
     sr_receive_kex example_opaque (redelivered plain_ctx request) (kex_server 5) = Some (False, s1) \<and> sent response (base (kex_server 5)) (base s1) \<and>
     sr_receive_kex example_opaque (redelivered (hashing_context (chan (base c1))) response) c1 = Some (True, c2) \<and>
     sent token (base c1) (base c2) \<and>
     sr_receive_kex example_opaque (redelivered (hashing_context (chan (base s1))) token) s1 = Some (True, s2) \<and>
     current_state (con (base c2)) = RASTA_CONNECTION_UP \<and> current_state (con (base s2)) = RASTA_CONNECTION_UP \<and>
     session_key (kex_state c2) = session_key (kex_state s2)"
proof -
  have "sn_i (con (base kex_client)) = sn_i (con (base (kex_server 5)))"
    by (simp add: kex_client_def kex_server_def example_kex_def quiet_st_def map_con_def)
  moreover have "hashing_context (chan (base (kex_server 5))) = plain_ctx"
    by (simp add: kex_server_def example_kex_def quiet_st_def map_con_def example_st_def)
  ultimately show ?thesis using key_exchange_completes [OF example_opaque_works example_pair, of 5] by metis
qed

end
