(* ===== verification/Rasta_Kex_Failures.thy ===== *)
theory Rasta_Kex_Failures
  imports Rasta_Key_Exchange Rasta_Protocol
begin

text \<open>
  Where the key exchange goes wrong, and the build with key exchange that is switched off: it behaves
  as the default build.
\<close>

section \<open>Switched off\<close>

lemma on_base_eq: "map_option base (on_base f k) = f (base k)"
  by (cases "f (base k)") (simp_all add: on_base_def)

lemma conresp_off:
  assumes "kex_mode (cfg (base k)) = KEY_EXCHANGE_MODE_NONE"
  shows "map_option base (handle_conresp_kex lib p k) = handle_conresp p (base k)"
proof -
  have cfg: "kex_mode (cfg s') = KEY_EXCHANGE_MODE_NONE"
    if "sendHeartbeat True s = Some s'" "kex_mode (cfg s) = KEY_EXCHANGE_MODE_NONE" for s s'
    using keepsD(11) [OF keeps_control(2) [OF that(1)]] that(2) by simp
  have "Option.bind (on_base (sendHeartbeat True) k) (\<lambda>k.
      Option.bind (if kex_mode (cfg (base k)) = KEY_EXCHANGE_MODE_OPAQUE then send_KexRequest lib k else Some k) h) =
    Option.bind (sendHeartbeat True (base k)) (\<lambda>s. h (k\<lparr>base := s\<rparr>))"
    if "kex_mode (cfg (base k)) = KEY_EXCHANGE_MODE_NONE" for k and h :: "kex_st \<Rightarrow> rasta_st option"
    using that cfg by (auto simp: on_base_def Option.bind_map_option comp_def intro!: Option.bind_cong)
  note send = this
  have modes: "kex_mode (cfg (set_state st s)) = kex_mode (cfg s)" "kex_mode (cfg (map_con g s)) = kex_mode (cfg s)" for st g s
    by (simp_all add: set_state_def map_con_def)
  show ?thesis
    using assms
    by (auto simp: handle_conresp_kex_def handle_conresp_def on_base_eq map_option_bind comp_def split_beta Let_def map_base_def
        intro!: Option.bind_cong) (simp add: send modes)
qed

text \<open>
  C21: The build with key exchange behaves as the default build when key exchange is configured off and
  the rekeying interval is 0 (rekeying is checked whatever the mode): for every packet that is not one
  of the three key exchange packets, which only this build knows, \<open>sr_receive\<close> returns the same and
  leaves the endpoint in the same state, or aborts in the same cases.
\<close>

theorem kex_off_is_default_build:
  assumes "kex_mode (cfg (base k)) = KEY_EXCHANGE_MODE_NONE" and "rekeying_interval_ms (kex k) = 0"
    and "pkt_type p \<notin> {RASTA_TYPE_KEX_REQUEST, RASTA_TYPE_KEX_RESPONSE, RASTA_TYPE_KEX_AUTHENTICATION}"
  shows "map_option (apsnd base) (sr_receive_kex lib p k) = sr_receive p (base k)"
proof -
  have "map_option (\<lambda>k. (False, base k)) (handle_conreq_kex p k) = map_option (Pair False) (handle_conreq p (base k))"
    by (cases "handle_conreq p (base k)") (simp_all add: handle_conreq_kex_def on_base_def forget_key_exchange_def map_kex_def)
  moreover have "map_option (\<lambda>k. (True, base k)) (handle_conresp_kex lib p k) = map_option (Pair True) (handle_conresp p (base k))"
    using arg_cong [OF conresp_off [OF assms(1), of lib p], of "map_option (Pair True)"] by (simp add: option.map_comp comp_def)
  moreover have "map_option (apsnd base) (on_base2 (handle_received_packet p) k) = handle_received_packet p (base k)"
    by (cases "handle_received_packet p (base k)") (auto simp: on_base2_def)
  ultimately show ?thesis
    using assms by (simp add: sr_receive_kex_def sr_receive_def sr_rekeying_skipped_kex_def sr_rekeying_skipped_def
        handle_received_packet_kex_def map_base_def option.map_comp comp_def)
qed

section \<open>Different initial sequence numbers\<close>

text \<open>Each side keeps its own initial sequence number, although both use it as the one of the server.\<close>

lemma client_number:
  assumes "sr_connect_start s = Some (True, s')"
  shows "sn_i (con s') = initial_sequence_number (cfg s)"
proof -
  have conn: "cfg t = cfg s" if "redundancy_channel_connect s = Some (r, t)" for r t
    using that by (auto simp: redundancy_channel_connect_def Option.bind_eq_Some_conv map_chan_def
        dest!: connect_loop_frame quiet_frameD(1) transport_frameD(2))
  show ?thesis using assms
    by (auto simp: sr_connect_start_def Option.bind_eq_Some_conv Let_def split_beta map_con_def now_ns_def now_ms_def
        get_nanotime_def cur_timestamp_def clock_gettime_def dest!: conn redundancy_mux_send_keeps(1) split: if_splits)
qed

lemma server_number:
  assumes "handle_conreq p s = Some s'" and "current_state (con s) = RASTA_CONNECTION_CLOSED \<or> current_state (con s) = RASTA_CONNECTION_DOWN"
  shows "sn_i (con s') = initial_sequence_number (cfg s)"
proof -
  have close: "sn_i (con v) = sn_i (con u)" if "sr_close_connection rsn dts u = Some v" for rsn dts u v
    using that by (auto simp: sr_close_connection_def sr_reset_connection_def map_con_def sendDisconnectionRequest_def
        Option.bind_eq_Some_conv Let_def split_beta dest!: channel_close_con redundancy_mux_send_keeps(1) split: if_splits)
  show ?thesis
    using assms
    by (auto simp: handle_conreq_def set_state_def map_con_def Option.bind_eq_Some_conv Let_def split_beta
        update_connection_attrs_def update_confirmed_attrs_def now_ms_def cur_timestamp_def clock_gettime_def
        dest!: close redundancy_mux_send_keeps(1) split: if_splits)
qed

text \<open>
  C18: Two endpoints with different initial sequence numbers cannot exchange a key. The server uses its
  number as the context of the response, the client its own, though the comment in both places says that
  it is the number of the server. A library that binds the response to its context rejects it, and the
  client sends a disconnection request and closes the connection.
\<close>

theorem different_numbers_fail:
  assumes "opaque_works lib" and "opaque_binds_context lib" and "kex_pair lib c s" and "sockets_ok (base c)"
    and "sn_i (con (base c)) \<noteq> sn_i (con (base s))"
  shows "\<exists>request response c1 c2 s1.
    send_KexRequest lib c = Some c1 \<and> sent request (base c) (base c1) \<and>
    sr_receive_kex lib (redelivered (hashing_context (chan (base s))) request) s = Some (False, s1) \<and> sent response (base s) (base s1) \<and>
    sr_receive_kex lib (redelivered (hashing_context (chan (base c1))) response) c1 = Some (True, c2) \<and>
    disconnect_sent RASTA_DISC_REASON_UNEXPECTEDTYPE (base c1) (base c2) \<and> current_state (con (base c2)) = RASTA_CONNECTION_CLOSED"
proof (rule request_and_response [OF assms(1,3)])
  fix request response and c1 s1 :: kex_st and rec sec pub sk auth ids
  let ?c = "con (base c)" and ?s = "con (base s)"
  let ?rs = "redelivered (hashing_context (chan (base c1))) response"
  note pair = assms(3) [unfolded kex_pair_def in_step_def]
  assume h: "send_KexRequest lib c = Some c1" "sent request (base c) (base c1)"
    "sr_receive_kex lib (redelivered (hashing_context (chan (base s))) request) s = Some (False, s1)" "sent response (base s) (base s1)"
    and c1: "sr_inv (base c1)" "link_ok (base c1)" "sockets_ok (base c) \<Longrightarrow> sockets_ok (base c1)" "kex_ready c1"
    "con (base c1) = ?c\<lparr>sn_t := sn_t ?c + 1, current_state := RASTA_CONNECTION_KEX_RESP\<rparr>"
    "client_secret (kex_state c1) = Some sec" "password_length (kex_state c1) \<le> length sec"
    "opaque_CreateCredentialResponse lib (Suc (lib_calls s)) pub rec ids (htobe32 (sn_i ?s)) = (0, pkt_data response, sk, auth)"
    "recovered lib (pkt_data response) c1 = opaque_RecoverCredentials lib (pkt_data response) sec (htobe32 (sn_i ?c)) ids"
    "expected_response ?rs c1" "length (pkt_data response) = SERVER_SESSION_LEN lib"
  have up: "sn_t (con (base c1)) \<noteq> 0" "role (con (base c1)) = RASTA_ROLE_CLIENT" "current_state (con (base c1)) = RASTA_CONNECTION_KEX_RESP"
    using pair by (simp_all add: c1(5) not_minus_one)
  have "htobe32 (sn_i ?c) \<noteq> htobe32 (sn_i ?s)" using assms(5) htobe32_inject by blast
  moreover have "length (htobe32 n) = 4" for n by (simp add: htobe32_def)
  ultimately have fails: "fst (recovered lib (pkt_data response) c1) \<noteq> 0"
    using assms(2) c1(8) unfolding opaque_binds_context_def c1(9) by blast
  have "current_state (con (base c1)) \<noteq> RASTA_CONNECTION_DOWN" "current_state (con (base c1)) \<noteq> RASTA_CONNECTION_CLOSED"
    using up(3) by simp_all
  from sr_close_returns [OF c1(1,2) c1(3) [OF assms(4)] this, of RASTA_DISC_REASON_UNEXPECTEDTYPE] obtain u where
    u: "sr_close_connection RASTA_DISC_REASON_UNEXPECTEDTYPE 0 (base c1) = Some u" "con u = sr_reset_connection (con (base c1))"
      "disconnect_sent RASTA_DISC_REASON_UNEXPECTEDTYPE (base c1) u" by blast
  define c2 where "c2 = (after_recovery lib (pkt_data response) c1)\<lparr>base := u\<rparr>"
  have "base (after_recovery lib (pkt_data response) c1) = base c1" by (simp add: after_recovery_def map_kex_def)
  then have "handle_kex_response lib ?rs c1 = Some (True, c2)"
    using response_dispatched(2,3) [OF c1(10) up(1,2)] up(3) fails u(1) c1(4) recover_credential_eq [OF c1(11,6,7)]
    by (simp add: handle_kex_response_def kex_ready_def kex_close_def on_base_def c2_def)
  then show ?thesis
    using h response_dispatched(1) [OF c1(10) up(1,2), of lib] u(2,3)
    by (intro exI [of _ request] exI [of _ response] exI [of _ c1] exI [of _ c2] exI [of _ s1]) (simp add: c2_def sr_reset_connection_def)
qed

section \<open>Opening a connection\<close>

lemma heartbeat_sockets:
  assumes "sendHeartbeat True s = Some s'" and "sr_inv s" and "link_ok s" and "sockets_ok s"
  shows "sockets_ok s'"
proof -
  let ?v = "snd (now_ms s)"
  let ?q = "createHeartbeat (remote_id (con s)) (my_id (con s)) (sn_t (con s)) (cs_t (con s)) (fst (now_ms s)) (ts_r (con s))
    (sr_hashing_context (mux s))"
  have v: "sr_inv ?v" "link_ok ?v" "sockets_ok ?v" using assms(2-4) by (simp_all add: sockets_ok_def)
  have "fits_wire ?v ?q" using fits_wire_initializePacket [OF v(1), of 0] by (simp add: createHeartbeat_def)
  from mux_send_returns [OF v(1,2) this] obtain x where x: "redundancy_mux_send ?q (role (con s)) ?v = Some x"
    "transport_channels (chan x) = transport_channels (chan ?v)" by auto
  have "sockets_ok x" using x(2) v(3) redundancy_mux_send_keeps [OF x(1)] by (simp add: sockets_ok_def)
  then show ?thesis
    using assms(1) x(1) by (auto simp: sendHeartbeat_def split_beta Let_def sockets_ok_def reschedule_heartbeat_def map_con_def now_ns_def
        get_nanotime_def clock_gettime_def)
qed

text \<open>
  C20: A client that is to exchange keys never opens a connection. When the connection response arrives,
  the client sends its heartbeat and its key exchange request and waits for the answer in \<open>KEX_RESP\<close>; but
  the response also ends the event loop of \<open>sr_connect\<close>, which then finds a connection that is not \<open>UP\<close>,
  closes the transport channels and reports a failure.
\<close>

theorem connect_fails_with_key_exchange:
  assumes "sr_inv (base k)" and "link_ok (base k)" and "sockets_ok (base k)" and "opaque_works lib" and "kex_ready k"
    and "malloc_succeeds lib (lib_calls k)" and "mlock lib (lib_calls k) = 0"
    and "current_state (con (base k)) = RASTA_CONNECTION_START" and "role (con (base k)) = RASTA_ROLE_CLIENT"
    and "version_accepted (accepted_versions (cfg (base k))) RASTA_VERSION"
    and "p = redelivered ctx' (greeting RASTA_TYPE_CONNRESP (my_id (con (base k))) (remote_id (con (base k))) n
      (sn_t (con (base k)) - 1) ts cts sm ctx)"
  shows "\<exists>k' s'. sr_receive_kex lib p k = Some (True, k') \<and> current_state (con (base k')) = RASTA_CONNECTION_KEX_RESP \<and>
    sr_connect_finish (base k') = Some (False, s') \<and> (transport_lib s' = TCP \<longrightarrow> (\<forall>c \<in> set (transport_channels (chan s')). \<not> connected c))"
proof -
  let ?s = "base k"
  note p = assms(11)
  define u where "u = set_state RASTA_CONNECTION_UP (map_con (\<lambda>c. c\<lparr>cs_r := confirmed_sequence_number p\<rparr>)
    (map_con (update_connection_attrs p) ?s))"
  have "sr_ok ?s u" by (simp add: u_def handler_simps)
  then have u: "sr_inv u" "link_ok u" "sockets_ok u" "cfg u = cfg ?s"
    using assms(1-3) by (simp_all add: sr_ok_def)
      (simp_all add: u_def set_state_def map_con_def update_connection_attrs_def link_ok_def sockets_ok_def)
  obtain x h where x: "sendHeartbeat True u = Some x" "link_ok x" "sr_inv x" "cfg x = cfg u"
    "con x = (con u)\<lparr>sn_t := sn_t (con u) + 1, send_heartbeat_event := h\<rparr>" using heartbeat_returns [OF u(1,2)] by blast
  have "sockets_ok x" using heartbeat_sockets [OF x(1) u(1-3)] .
  define k1 where "k1 = k\<lparr>base := x\<rparr>"
  have ready: "kex_ready k1" using assms(5) x(4,5) u(4) by (simp add: kex_ready_def k1_def u_def set_state_def map_con_def update_connection_attrs_def)
  obtain sec pub where pub: "opaque_CreateCredentialRequest lib (lib_calls k1) (password (psk (kex k1))) = (0, sec, pub)"
    using opaque_worksD(4) [OF assms(4)] by blast
  from client_asks [of k1 lib sec pub] x(2,3) assms(4,6,7) ready pub \<open>sockets_ok x\<close> obtain k2 where
    k2: "send_KexRequest lib k1 = Some k2" "link_ok (base k2)" "sr_inv (base k2)" "sockets_ok (base k2)"
      "current_state (con (base k2)) = RASTA_CONNECTION_KEX_RESP" by (auto simp: k1_def)
  define k' where "k' = map_base (\<lambda>s. enable_timeout (map_con (\<lambda>c. c\<lparr>hb_locked := False,
    connected_recv_buffer_size := uint sm\<rparr>) (enable_heartbeat s))) k2"
  have chk: "sr_check_packet (con ?s) (sending (cfg ?s)) p" by (simp add: p check_defs)
  note greet = extract_greeting [of _ ctx' RASTA_TYPE_CONNRESP "my_id (con ?s)" "remote_id (con ?s)" n "sn_t (con ?s) - 1" ts cts sm ctx, folded p]
  have same: "k\<lparr>base := (base k)\<lparr>factory_error := factory_error (base k)\<rparr>\<rparr> = k" by simp
  have "handle_conresp_kex lib p k = Some k'"
    using assms(5,8-10) chk x(1,4) u(4) k2(1) unfolding kex_ready_def
    by (simp add: handle_conresp_kex_def greet Let_def map_base_def same u_def [symmetric] on_base_def k1_def k'_def)
  then have "sr_receive_kex lib p k = Some (True, k')" by (simp add: sr_receive_kex_def p rasta_type_defs)
  moreover have st: "current_state (con (base k')) = RASTA_CONNECTION_KEX_RESP" "net_ok (net (base k'))" "sockets_ok (base k')"
    using k2 by (simp_all add: k'_def map_base_def enable_timeout_def enable_heartbeat_def map_con_def now_ns_def get_nanotime_def
        clock_gettime_def Let_def split_beta sockets_ok_def link_ok_def)
  define w where "w = map_con (\<lambda>c. c\<lparr>handshake_timeout_event := disable_timed_event (handshake_timeout_event c)\<rparr>) (base k')"
  have "net_ok (net w)" "sockets_ok w" using st by (simp_all add: w_def map_con_def sockets_ok_def)
  from channel_close_returns [OF this] obtain s' where s': "redundancy_channel_close w = Some s'"
    "transport_lib w = TCP \<longrightarrow> (\<forall>c \<in> set (transport_channels (chan s')). \<not> connected c)" by blast
  then have "sr_connect_finish (base k') = Some (False, s')"
    using st(1) by (simp add: sr_connect_finish_def w_def [symmetric]) (simp add: w_def map_con_def)
  moreover have "quiet_frame w s'" using s'(1) by (auto simp: redundancy_channel_close_def dest: close_loop_frame)
  then have "transport_lib s' = transport_lib w" using quiet_frameD(1) transport_frameD(3) by blast
  ultimately show ?thesis using st(1) s'(2) by auto
qed

section \<open>Malformed requests\<close>

text \<open>
  A request whose payload has not the length of the library's request makes the server abort, although
  the packet passes all checks of the safety layer: \<open>createKexResponse\<close> calls \<open>abort\<close> before the wrapper
  below it can return its error.
\<close>

theorem malformed_request_aborts:
  assumes "sr_check_packet (con (base k)) (sending (cfg (base k))) p" and "pkt_type p = RASTA_TYPE_KEX_REQUEST"
    and "current_state (con (base k)) = RASTA_CONNECTION_KEX_REQ" and "kex_mode (cfg (base k)) = KEY_EXCHANGE_MODE_OPAQUE"
    and "length (pkt_data p) \<noteq> USER_SESSION_PUBLIC_LEN lib"
  shows "sr_receive_kex lib p k = None"
proof -
  have "createKexResponse lib r sd sn csn ts cts ctx pw (pkt_data p) isn k' = None" for r sd sn csn ts cts ctx pw isn k'
    using assms(5) by (simp add: createKexResponse_def)
  then have "handle_kex_request lib p k = None"
    using assms(1,3,4) by (simp add: handle_kex_request_def sr_check_packet_def Let_def split_beta)
  then show ?thesis
    using assms(1-3) by (simp add: sr_receive_kex_def sr_check_packet_def kex_type_defs rasta_type_defs sr_rekeying_skipped_kex_def
        handle_received_packet_kex_def)
qed

section \<open>Examples\<close>

theorem kex_off_is_default_build_witness:
  "map_option (apsnd base) (sr_receive_kex example_opaque example_data (example_kex example_st)) = sr_receive example_data example_st"
proof -
  have "kex_mode (cfg (base (example_kex example_st))) = KEY_EXCHANGE_MODE_NONE" "rekeying_interval_ms (kex (example_kex example_st)) = 0"
    "pkt_type example_data \<notin> {RASTA_TYPE_KEX_REQUEST, RASTA_TYPE_KEX_RESPONSE, RASTA_TYPE_KEX_AUTHENTICATION}"
    by (simp_all add: example_kex_def example_st_def example_config_def example_data_def rasta_type_defs kex_type_defs)
  from kex_off_is_default_build [OF this] show ?thesis by simp
qed

theorem different_numbers_fail_witness:
  "\<exists>c1 c2 s1 request response.
     send_KexRequest example_opaque kex_client = Some c1 \<and>
     sr_receive_kex example_opaque (redelivered plain_ctx request) (kex_server 9) = Some (False, s1) \<and> sent response (base (kex_server 9)) (base s1) \<and>
     sr_receive_kex example_opaque (redelivered (hashing_context (chan (base c1))) response) c1 = Some (True, c2) \<and>
     current_state (con (base c2)) = RASTA_CONNECTION_CLOSED"
proof -
  have "sn_i (con (base kex_client)) \<noteq> sn_i (con (base (kex_server 9)))" "hashing_context (chan (base (kex_server 9))) = plain_ctx"
    by (simp_all add: kex_client_def kex_server_def quiet_st_def map_con_def example_st_def)
  moreover have "sockets_ok (base kex_client)" by (simp add: kex_client_def quiet_st_ok)
  ultimately show ?thesis
    using different_numbers_fail [OF example_opaque_works example_opaque_binds example_pair, of 9] by metis
qed

definition kex_starting :: kex_st where
  "kex_starting = example_kex (quiet_st (\<lambda>c. c\<lparr>current_state := RASTA_CONNECTION_START\<rparr>))"

theorem connect_fails_with_key_exchange_witness:
  "\<exists>k' s'. sr_receive_kex example_opaque (redelivered plain_ctx (greeting RASTA_TYPE_CONNRESP 0x60 0x61 3 4 100 0 20 plain_ctx)) kex_starting =
       Some (True, k') \<and> current_state (con (base k')) = RASTA_CONNECTION_KEX_RESP \<and> sr_connect_finish (base k') = Some (False, s')"
proof -
  let ?s = "quiet_st (\<lambda>c. c\<lparr>current_state := RASTA_CONNECTION_START\<rparr>)"
  have k: "base kex_starting = ?s" "lib_calls kex_starting = 0" by (simp_all add: kex_starting_def)
  have ok: "sr_inv (base kex_starting)" "link_ok (base kex_starting)" "sockets_ok (base kex_starting)" "kex_ready kex_starting"
    unfolding kex_starting_def by (simp_all add: quiet_st_ok)
  have lib: "malloc_succeeds example_opaque (lib_calls kex_starting)" "mlock example_opaque (lib_calls kex_starting) = 0"
    by (simp_all add: example_opaque_def)
  have c: "current_state (con (base kex_starting)) = RASTA_CONNECTION_START" "role (con (base kex_starting)) = RASTA_ROLE_CLIENT"
    "my_id (con (base kex_starting)) = 0x60" "remote_id (con (base kex_starting)) = 0x61" "sn_t (con (base kex_starting)) - 1 = 4"
    by (simp_all add: k quiet_st_def map_con_def example_st_def example_connection_def)
  have "version_accepted (accepted_versions (cfg (base kex_starting))) RASTA_VERSION"
    by (simp add: k quiet_st_def map_con_def kex_example_config_def example_config_def compare_version_def RASTA_VERSION_def numeral_eq_Suc)
  from connect_fails_with_key_exchange [OF ok(1-3) example_opaque_works ok(4) lib c(1,2) this refl, of plain_ctx 3 100 0 20 plain_ctx]
  show ?thesis unfolding c by blast
qed

end
