(* ===== verification/Rasta_Cancel.thy ===== *)
theory Rasta_Cancel
  imports Rasta_Loop Rasta_Example
begin

text \<open>
  Waiting that can be cancelled (\<open>rasta.c\<close>): \<open>rasta_accept_with_cancel\<close> adds the reading end of a pipe to the event
  loop, and \<open>rasta_cancel_operation\<close> writes to the other end. Then the notifications of the redundancy layer and the
  helpers that wait for them (\<open>rasta_red_multiplexer.c\<close>, \<open>diagnostics.c\<close>).
\<close>

section \<open>Cancelling\<close>

record rasta_cancellation =
  read_end :: int
  write_end :: int

text \<open>\<open>pipe\<close> returns the two descriptors in its argument, here those of the environment.\<close>

definition rasta_prepare_cancellation :: "rasta_cancellation \<Rightarrow> rasta_st \<Rightarrow> rasta_cancellation option \<times> rasta_st" where
  "rasta_prepare_cancellation made s = (let (r, s) = call s in (if r < 0 then None else Some made, s))"

text \<open>\<open>read\<close> and \<open>close\<close>; their results are ignored. The Boolean ends the loop.\<close>

definition terminator_callback :: "rasta_st \<Rightarrow> bool \<times> rasta_st" where
  "terminator_callback s = (let (_, s) = call s; (_, s) = call s in (True, s))"

text \<open>
  \<open>event_system_sleep\<close> with the event of the pipe at the end of the list. The second result says whether its
  callback has run.
\<close>

definition sleep_cancel :: "int \<Rightarrow> rasta_st \<Rightarrow> ((int \<times> bool) \<times> rasta_st) option" where
  "sleep_cancel fd s = do {
     let events = List.map_filter (\<lambda>src. source_event src s) (fd_sources s) @ [\<lparr>ev_fd = fd, ev_enabled = True\<rparr>];
     if get_max_nfds (map ev_fd events) \<ge> FD_SETSIZE then Some ((-1, False), s)
     else do {
       let watched = map ev_fd (filter ev_enabled events);
       if list_ex (\<lambda>fd. fd < 0) watched then None
       else do {
         let ready = filter (\<lambda>fd. fd \<in> set watched) (readable (net s) (n_calls (net s)));
         let (result, s) = call s;
         if result = -1 then Some ((-1, False), s)
         else do {
           (result, s) \<leftarrow> fire_sources (fd_sources s) ready result s;
           if result \<noteq> -1 \<and> fd \<in> set ready then
             let (stop, s) = terminator_callback s in Some ((if stop then -1 else result, True), s)
           else Some ((result, False), s)
         }
       }
     }
   }"

definition loop_body_cancel :: "int \<Rightarrow> rasta_st \<Rightarrow> ((bool \<times> bool) \<times> rasta_st) option" where
  "loop_body_cancel fd s = do {
     let (cur_time, s) = now_ns s;
     let (time_to_wait, next_event) = calc_next_timed_event (map (\<lambda>t. timer_event t (con s)) timers) cur_time;
     if time_to_wait = -1 then do {
       ((result, fired), s) \<leftarrow> sleep_cancel fd s;
       Some ((result = -1, fired), s)
     }
     else if time_to_wait \<noteq> 0 then do {
       ((result, fired), s) \<leftarrow> sleep_cancel fd s;
       if result = -1 then Some ((True, fired), s)
       else if result \<ge> 0 then Some ((False, fired), s)
       else do { (stop, s) \<leftarrow> fire_next next_event (cur_time + time_to_wait) s; Some ((stop, fired), s) }
     }
     else do { (stop, s) \<leftarrow> fire_next next_event (cur_time + time_to_wait) s; Some ((stop, False), s) }
   }"

partial_function (option) loop_cancel :: "int \<Rightarrow> rasta_st \<Rightarrow> (bool \<times> rasta_st) option" where
  "loop_cancel fd s = do {
     ((stop, fired), s) \<leftarrow> loop_body_cancel fd s;
     if stop then Some (fired, s) else loop_cancel fd s
   }"

definition event_system_start_cancel :: "int \<Rightarrow> rasta_st \<Rightarrow> (bool \<times> rasta_st) option" where
  "event_system_start_cancel fd s =
     (let (cur_time, s) = now_ns s
      in loop_cancel fd (map_con (\<lambda>c. fold (\<lambda>t. map_timer t (\<lambda>e. e\<lparr>last_call := cur_time\<rparr>)) timers c) s))"

text \<open>The results: whether there is a connection, and the ends of the pipe that have been closed.\<close>

definition rasta_accept_with_cancel :: "rasta_cancellation \<Rightarrow> rasta_st \<Rightarrow> ((bool \<times> int list) \<times> rasta_st) option" where
  "rasta_accept_with_cancel cancellation s = do {
     (fired, s) \<leftarrow> event_system_start_cancel (read_end cancellation) (redundancy_mux_init s);
     let (accepted, s) = (if is_new (con s) then (True, map_con (\<lambda>c. c\<lparr>is_new := False\<rparr>) s) else (False, s));
     let (_, s) = call s;
     Some ((accepted, (if fired then [read_end cancellation] else []) @ [write_end cancellation]), s)
   }"

text \<open>The byte that is written makes the other end readable.\<close>

definition rasta_cancel_operation :: "rasta_st \<Rightarrow> rasta_st" where
  "rasta_cancel_operation s = snd (call s)"

section \<open>What cancelling does\<close>

text \<open>An accept that is not cancelled leaves the reading end of the pipe open.\<close>

lemma uncancelled_accept_leaks:
  assumes "event_system_start_cancel (read_end c) (redundancy_mux_init s) = Some (False, t)"
  shows "\<exists>accepted t'. rasta_accept_with_cancel c s = Some ((accepted, [write_end c]), t')"
  using assms by (auto simp: rasta_accept_with_cancel_def split: prod.splits)

text \<open>No callback of the library runs when only the pipe is readable.\<close>

lemma fire_sources_quiet:
  assumes "\<forall>src \<in> set srcs. \<exists>e. source_event src s = Some e \<and> (ev_enabled e \<longrightarrow> 0 \<le> ev_fd e \<and> ev_fd e \<noteq> fd)"
    and "set ready \<subseteq> {fd}"
  shows "fire_sources srcs ready result s = Some (result, s)"
  using assms
proof (induction srcs)
  case (Cons src srcs)
  then obtain e where e: "source_event src s = Some e" "ev_enabled e \<longrightarrow> 0 \<le> ev_fd e \<and> ev_fd e \<noteq> fd" by auto
  moreover have "fire_sources srcs ready result s = Some (result, s)" using Cons by simp
  ultimately show ?case using Cons.prems(2) by auto
qed simp

lemma get_max_nfds_less:
  assumes "\<forall>fd \<in> set fds. fd < n" and "0 < n"
  shows "get_max_nfds fds < n + 1"
proof -
  have "fold (\<lambda>fd nfds. if nfds < fd then fd else nfds) fds m < n" if "m < n" for m :: int
    using that assms(1) by (induction fds arbitrary: m) auto
  from this [of 0] assms(2) show ?thesis by (simp add: get_max_nfds_def)
qed

definition waits_on :: "int \<Rightarrow> rasta_st \<Rightarrow> bool" where
  "waits_on fd s \<longleftrightarrow> 0 \<le> fd \<and> fd < 1023 \<and>
     (\<forall>src \<in> set (fd_sources s). \<exists>e. source_event src s = Some e \<and> ev_fd e < 1023 \<and>
        (ev_enabled e \<longrightarrow> 0 \<le> ev_fd e \<and> ev_fd e \<noteq> fd))"

lemma same_events:
  assumes "mux s' = mux s" and "chan s' = chan s" and "transport_lib s' = transport_lib s"
  shows "source_event src s' = source_event src s" and "fd_sources s' = fd_sources s"
  by (cases "(src, s)" rule: source_event.cases; simp add: assms socket_at_def channel_at_def) (simp add: assms fd_sources_def)

lemma sleep_cancelled:
  assumes "waits_on fd s" and "readable (net s) (n_calls (net s)) = [fd]" and "answers (net s) (n_calls (net s)) = 1"
  shows "\<exists>t. sleep_cancel fd s = Some ((-1, True), t) \<and> con t = con s"
proof -
  define events where "events = List.map_filter (\<lambda>src. source_event src s) (fd_sources s) @ [\<lparr>ev_fd = fd, ev_enabled = True\<rparr>]"
  have ev: "ev_fd e < 1023 \<and> (ev_enabled e \<longrightarrow> 0 \<le> ev_fd e)" if "e \<in> set events" for e
    using that assms(1) by (auto simp: events_def waits_on_def List.map_filter_def)
  then have "get_max_nfds (map ev_fd events) < FD_SETSIZE"
    using get_max_nfds_less [of "map ev_fd events" 1023] by (auto simp: FD_SETSIZE_def)
  moreover have "\<not> list_ex (\<lambda>fd. fd < 0) (map ev_fd (filter ev_enabled events))" using ev by (force simp: list_ex_iff)
  moreover have "fd \<in> set (map ev_fd (filter ev_enabled events))" by (simp add: events_def)
  moreover have "source_event src (snd (call s)) = source_event src s" "fd_sources (snd (call s)) = fd_sources s" for src
    by (rule same_events; simp add: call_def sys_call_def)+
  then have "fire_sources (fd_sources (snd (call s))) [fd] 1 (snd (call s)) = Some (1, snd (call s))"
    using assms(1) by (intro fire_sources_quiet [where fd = fd]) (auto simp: waits_on_def)
  moreover have "call s = (1, snd (call s))" using assms(3) by (simp add: call_def sys_call_def)
  moreover have "con (snd (call u)) = con u" for u by (simp add: call_def sys_call_def)
  ultimately show ?thesis
    using assms(2) unfolding sleep_cancel_def events_def [symmetric] Let_def
    by (auto simp: terminator_callback_def split: prod.splits) (metis snd_conv)+
qed

lemma no_timer: "\<forall>e \<in> set es. \<not> te_enabled e \<Longrightarrow> calc_next_timed_event es t = (-1, None)"
proof -
  have "calc_next_loop i es t acc = acc" if "\<forall>e \<in> set es. \<not> te_enabled e" for i acc
    using that by (induction es arbitrary: i) (auto simp: surj_pair split: prod.splits, metis calc_next_loop.simps(2) surj_pair)
  then show "\<forall>e \<in> set es. \<not> te_enabled e \<Longrightarrow> calc_next_timed_event es t = (-1, None)"
    by (simp add: calc_next_timed_event_def)
qed

text \<open>
  Cancelling works: when no timer runs and only the pipe is readable, \<open>rasta_accept_with_cancel\<close> returns without a
  connection and has closed both ends.
\<close>

lemma loop_cancelled:
  assumes "waits_on fd s" and "readable (net s) (n_calls (net s)) = [fd]" and "answers (net s) (n_calls (net s)) = 1"
    and "\<forall>x \<in> set timers. \<not> te_enabled (timer_event x (con s))"
  shows "\<exists>t. loop_cancel fd s = Some (True, t) \<and> con t = con s"
proof -
  let ?s = "snd (now_ns s)"
  have s: "con ?s = con s" "net ?s = net s" "mux ?s = mux s" "chan ?s = chan s" "transport_lib ?s = transport_lib s"
    by (simp_all add: now_ns_def Let_def split_beta)
  have e: "source_event src ?s = source_event src s" "fd_sources ?s = fd_sources s" for src
    by (rule same_events; simp add: s)+
  have w: "waits_on fd ?s" using assms(1) by (simp add: waits_on_def e)
  obtain t where t: "sleep_cancel fd ?s = Some ((-1, True), t)" "con t = con s"
    using sleep_cancelled [OF w] assms(2,3) s by auto
  have "calc_next_timed_event (map (\<lambda>x. timer_event x (con s)) timers) u = (-1, None)" for u
    using assms(4) by (intro no_timer) auto
  then have "loop_body_cancel fd s = Some ((True, True), t)"
    using t(1) s(1) by (simp add: loop_body_cancel_def Let_def split_beta)
  then show ?thesis using t(2) by (subst loop_cancel.simps) simp
qed

lemma cancelled_accept_returns:
  fixes s c
  defines "u \<equiv> map_con (\<lambda>k. fold (\<lambda>t. map_timer t (\<lambda>e. e\<lparr>last_call := fst (now_ns (redundancy_mux_init s))\<rparr>)) timers k)
    (snd (now_ns (redundancy_mux_init s)))"
  assumes "waits_on (read_end c) u" and "readable (net u) (n_calls (net u)) = [read_end c]"
    and "answers (net u) (n_calls (net u)) = 1" and "\<forall>x \<in> set timers. \<not> te_enabled (timer_event x (con u))" and "\<not> is_new (con u)"
  shows "\<exists>t. rasta_accept_with_cancel c s = Some ((False, [read_end c, write_end c]), t)"
proof -
  obtain t where t: "loop_cancel (read_end c) u = Some (True, t)" "con t = con u"
    using loop_cancelled [OF assms(2-5)] by blast
  then have "event_system_start_cancel (read_end c) (redundancy_mux_init s) = Some (True, t)"
    by (simp add: event_system_start_cancel_def u_def Let_def split_beta)
  then show ?thesis using t(2) assms(6) by (simp add: rasta_accept_with_cancel_def Let_def split_beta)
qed

section \<open>Notifications\<close>

text \<open>
  The counter is an \<open>unsigned int\<close>, but its decrement goes through \<open>unsigned short\<close>. A handler is a function of
  the application; the argument it gets besides the multiplexer is \<open>x\<close>.
\<close>

record 'm notifying_mux =
  notifications_running :: u32
  associated_channel :: u64
  notified :: 'm

definition run_notification ::
  "('x \<Rightarrow> 'm notifying_mux \<Rightarrow> 'm notifying_mux) option \<Rightarrow> 'x \<Rightarrow> 'm notifying_mux \<Rightarrow> 'm notifying_mux" where
  "run_notification handler x m =
     (case handler of
        None \<Rightarrow> m
      | Some f \<Rightarrow>
          let m = m\<lparr>notifications_running := notifications_running m + 1\<rparr>;
              m = f x m
          in m\<lparr>notifications_running := ucast (ucast (notifications_running m - 1) :: u16)\<rparr>)"

definition red_call_on_new_connection ::
  "(u64 \<Rightarrow> 'm notifying_mux \<Rightarrow> 'm notifying_mux) option \<Rightarrow> u64 \<Rightarrow> 'm notifying_mux \<Rightarrow> 'm notifying_mux" where
  "red_call_on_new_connection on_new_connection new_id m = run_notification on_new_connection new_id m"

definition red_call_on_diagnostic ::
  "(int \<times> int \<times> u64 \<times> u64 \<times> u64 \<Rightarrow> 'm notifying_mux \<Rightarrow> 'm notifying_mux) option \<Rightarrow>
     int \<times> int \<times> u64 \<times> u64 \<times> u64 \<Rightarrow> 'm notifying_mux \<Rightarrow> 'm notifying_mux" where
  "red_call_on_diagnostic on_diagnostics_available values m = run_notification on_diagnostics_available values m"

text \<open>The busy waits: nothing else runs in the process, so a condition that is false stays false.\<close>

partial_function (option) wait_while :: "('a \<Rightarrow> bool) \<Rightarrow> 'a \<Rightarrow> 'a option" where
  "wait_while cond m = (if cond m then wait_while cond m else Some m)"

definition redundancy_mux_wait_for_notifications :: "'m notifying_mux \<Rightarrow> 'm notifying_mux option" where
  "redundancy_mux_wait_for_notifications m =
     (if notifications_running m = 0 then Some m else wait_while (\<lambda>m. notifications_running m > 0) m)"

definition redundancy_mux_wait_for_entity :: "u64 \<Rightarrow> 'm notifying_mux \<Rightarrow> 'm notifying_mux option" where
  "redundancy_mux_wait_for_entity wanted m = wait_while (\<lambda>m. associated_channel m \<noteq> wanted) m"

lemma wait_while_iff: "wait_while cond m = Some m' \<longleftrightarrow> \<not> cond m \<and> m' = m"
proof
  assume "wait_while cond m = Some m'"
  then show "\<not> cond m \<and> m' = m"
    by (rule wait_while.raw_induct [where P = "\<lambda>cond m m'. \<not> cond m \<and> m' = m", rotated]) (auto split: if_splits)
qed (simp add: wait_while.simps)

text \<open>
  Notifications run on the calling thread, so that the counter is back at its value when they return, and
  waiting for them either returns at once or never.
\<close>

lemma short_and_back: "w < 2 ^ 16 \<Longrightarrow> ucast (ucast w :: u16) = (w :: u32)"
proof -
  assume "w < 2 ^ 16"
  then have "unat w < 2 ^ 16" by (simp add: word_less_nat_alt)
  then have "unat (ucast (ucast w :: u16) :: u32) = unat w" by (simp add: unsigned_ucast_eq unsigned_take_bit_eq take_bit_nat_eq_self_iff)
  then show ?thesis by (simp add: unsigned_word_eqI)
qed

lemma notification_counter:
  assumes "notifications_running m < 2 ^ 16" and "\<And>f x m. handler = Some f \<Longrightarrow> notifications_running (f x m) = notifications_running m"
  shows "notifications_running (run_notification handler x m) = notifications_running m"
  using assms
  by (auto simp: run_notification_def Let_def short_and_back split: option.splits)

lemma waiting_returns_iff:
  "redundancy_mux_wait_for_notifications m = Some m' \<longleftrightarrow> notifications_running m = 0 \<and> m' = m"
  "redundancy_mux_wait_for_entity wanted m = Some m' \<longleftrightarrow> associated_channel m = wanted \<and> m' = m"
  by (auto simp: redundancy_mux_wait_for_notifications_def redundancy_mux_wait_for_entity_def wait_while_iff word_neq_0_conv)

end
