(* ===== verification/Rasta_App.thy ===== *)
theory Rasta_App
  imports Rasta_Cancel
begin

text \<open>
  The event loop with file descriptor events of the application (\<open>rasta_add_fd_event\<close> in
  \<open>util/event_system.c\<close>), and \<open>rasta_recv\<close> of \<open>rasta.c\<close> on top of it. The events of the application come after
  those of the library, in the order in which they were added. Their callbacks work on a state of the application
  and on the endpoint; no program of the repository enables or disables its events while the loop runs.
\<close>

section \<open>The loop\<close>

record 'a app_event =
  app_fd_event :: fd_event
  app_callback :: "'a \<times> rasta_st \<Rightarrow> (bool \<times> 'a \<times> rasta_st) option"

text \<open>The rest of the loop of \<open>event_system_sleep\<close> over the events; \<open>ready\<close> is the set \<open>on_readable\<close>.\<close>

fun fire_apps :: "'a app_event list \<Rightarrow> int list \<Rightarrow> int \<Rightarrow> 'a \<times> rasta_st \<Rightarrow> (int \<times> 'a \<times> rasta_st) option" where
  "fire_apps [] ready result st = Some (result, st)"
| "fire_apps (current # events) ready result st =
     (if ev_enabled (app_fd_event current) \<and> ev_fd (app_fd_event current) \<in> set ready then do {
        (stop, st) \<leftarrow> app_callback current st;
        if stop then Some (-1, st) else fire_apps events ready result st
      }
      else fire_apps events ready result st)"

definition sleep_apps :: "'a app_event list \<Rightarrow> 'a \<times> rasta_st \<Rightarrow> (int \<times> 'a \<times> rasta_st) option" where
  "sleep_apps apps st = (case st of (a, s) \<Rightarrow> do {
     let events = List.map_filter (\<lambda>src. source_event src s) (fd_sources s) @ map app_fd_event apps;
     if get_max_nfds (map ev_fd events) \<ge> FD_SETSIZE then Some (-1, a, s)
     else do {
       let watched = map ev_fd (filter ev_enabled events);
       if list_ex (\<lambda>fd. fd < 0) watched then None
       else do {
         let ready = filter (\<lambda>fd. fd \<in> set watched) (readable (net s) (n_calls (net s)));
         let (result, s) = call s;
         if result = -1 then Some (-1, a, s)
         else do {
           (result, s) \<leftarrow> fire_sources (fd_sources s) ready result s;
           if result = -1 then Some (-1, a, s) else fire_apps apps ready result (a, s)
         }
       }
     }
   })"

definition loop_body_apps :: "'a app_event list \<Rightarrow> 'a \<times> rasta_st \<Rightarrow> (bool \<times> 'a \<times> rasta_st) option" where
  "loop_body_apps apps st = (case st of (a, s) \<Rightarrow> do {
     let (cur_time, s) = now_ns s;
     let (time_to_wait, next_event) = calc_next_timed_event (map (\<lambda>t. timer_event t (con s)) timers) cur_time;
     if time_to_wait = -1 then do {
       (result, st) \<leftarrow> sleep_apps apps (a, s);
       Some (result = -1, st)
     }
     else if time_to_wait \<noteq> 0 then do {
       (result, a, s) \<leftarrow> sleep_apps apps (a, s);
       if result = -1 then Some (True, a, s)
       else if result \<ge> 0 then Some (False, a, s)
       else do { (stop, s) \<leftarrow> fire_next next_event (cur_time + time_to_wait) s; Some (stop, a, s) }
     }
     else do { (stop, s) \<leftarrow> fire_next next_event (cur_time + time_to_wait) s; Some (stop, a, s) }
   })"

partial_function (option) loop_apps :: "'a app_event list \<Rightarrow> 'a \<times> rasta_st \<Rightarrow> ('a \<times> rasta_st) option" where
  "loop_apps apps st = do {
     (stop, st) \<leftarrow> loop_body_apps apps st;
     if stop then Some st else loop_apps apps st
   }"

definition event_system_start_apps :: "'a app_event list \<Rightarrow> 'a \<times> rasta_st \<Rightarrow> ('a \<times> rasta_st) option" where
  "event_system_start_apps apps st = (case st of (a, s) \<Rightarrow>
     let (cur_time, s) = now_ns s
     in loop_apps apps (a, map_con (\<lambda>c. fold (\<lambda>t. map_timer t (\<lambda>e. e\<lparr>last_call := cur_time\<rparr>)) timers c) s))"

partial_function (option) recv_wait_apps :: "'a app_event list \<Rightarrow> 'a \<times> rasta_st \<Rightarrow> ('a \<times> rasta_st) option" where
  "recv_wait_apps apps st =
     (if current_state (con (snd st)) = RASTA_CONNECTION_UP \<and> sr_recv_queue_item_count (con (snd st)) = 0
      then do { st \<leftarrow> event_system_start_apps apps st; recv_wait_apps apps st }
      else Some st)"

definition rasta_recv_apps ::
  "'a app_event list \<Rightarrow> nat \<Rightarrow> 'a \<times> rasta_st \<Rightarrow> ((int \<times> bytes) \<times> 'a \<times> rasta_st) option" where
  "rasta_recv_apps apps len st = do {
     (a, s) \<leftarrow> recv_wait_apps apps st;
     if current_state (con s) \<noteq> RASTA_CONNECTION_UP then Some ((-1, []), a, s)
     else case queue_pop (fifo_receive (con s)) of
       (None, _) \<Rightarrow> None
     | (Some elem, q) \<Rightarrow>
         let received_len = (if len < length elem then len else length elem)
         in Some ((int received_len, take received_len elem), a, map_con (\<lambda>c. c\<lparr>fifo_receive := q\<rparr>) s)
   }"

section \<open>The loop without events of the application\<close>

text \<open>Without events of the application this is the loop of the library.\<close>

definition beside :: "'a \<Rightarrow> 'b \<times> rasta_st \<Rightarrow> 'b \<times> 'a \<times> rasta_st" where
  "beside a x = (fst x, a, snd x)"

lemma sleep_no_apps: "sleep_apps [] (a, s) = map_option (beside a) (event_system_sleep s)"
  by (simp add: sleep_apps_def event_system_sleep_def Let_def split_beta [of _ "call s"])
     (auto simp: beside_def split: Option.bind_split)

lemma loop_body_no_apps: "loop_body_apps [] (a, s) = map_option (beside a) (event_loop_body s)"
  by (simp add: loop_body_apps_def event_loop_body_def Let_def split_beta [of _ "now_ns s"]
      split_beta [of _ "calc_next_timed_event _ _"] sleep_no_apps)
     (auto simp: beside_def split: Option.bind_split)

lemma loop_no_apps: "loop_apps [] (a, s) = map_option (Pair a) (event_loop s)"
proof -
  have "loop_apps [] (a, s) = Some (a, t)" if "event_loop s = Some t" for t
    using that
  proof (induction rule: event_loop.raw_induct [rotated, consumes 1, case_names step])
    case (step f s t)
    then show ?case
      by (subst loop_apps.simps) (auto simp: loop_body_no_apps beside_def bind_eq_Some_conv split: if_splits)
  qed
  moreover have "apps = [] \<longrightarrow> event_loop (snd x) = Some (snd st) \<and> fst st = fst x"
    if "loop_apps apps x = Some st" for apps :: "'a app_event list" and x st
    using that
  proof (induction rule: loop_apps.raw_induct [rotated, consumes 1, case_names step])
    case (step f apps x st)
    then show ?case
      by (subst event_loop.simps)
         (cases x; cases st; fastforce simp: loop_body_no_apps beside_def bind_eq_Some_conv split: if_splits)
  qed
  ultimately show ?thesis by (cases "event_loop s"; cases "loop_apps [] (a, s)") auto
qed

lemma start_no_apps: "event_system_start_apps [] (a, s) = map_option (Pair a) (event_system_start s)"
  by (simp add: event_system_start_apps_def event_system_start_def loop_no_apps split_beta Let_def)

lemma recv_wait_no_apps: "recv_wait_apps [] (a, s) = map_option (Pair a) (recv_wait s)"
proof -
  have "recv_wait_apps [] (a, s) = Some (a, t)" if "recv_wait s = Some t" for t
    using that
  proof (induction rule: recv_wait.raw_induct [rotated, consumes 1, case_names step])
    case (step f s t)
    then show ?case
      by (subst recv_wait_apps.simps) (auto simp: start_no_apps bind_eq_Some_conv split: if_splits)
  qed
  moreover have "apps = [] \<longrightarrow> recv_wait (snd x) = Some (snd st) \<and> fst st = fst x"
    if "recv_wait_apps apps x = Some st" for apps :: "'a app_event list" and x st
    using that
  proof (induction rule: recv_wait_apps.raw_induct [rotated, consumes 1, case_names step])
    case (step f apps x st)
    then show ?case
      by (subst recv_wait.simps)
         (cases x; cases st; fastforce simp: start_no_apps bind_eq_Some_conv split: if_splits)
  qed
  ultimately show ?thesis by (cases "recv_wait s"; cases "recv_wait_apps [] (a, s)") auto
qed

lemma rasta_recv_no_apps: "rasta_recv_apps [] len (a, s) = map_option (beside a) (rasta_recv len s)"
  by (auto simp: rasta_recv_apps_def rasta_recv_def recv_wait_no_apps beside_def Let_def
      split: Option.bind_split option.splits prod.splits)

section \<open>Cancelling as an event of the application\<close>

text \<open>
  The loop of \<open>rasta_accept_with_cancel\<close> is the loop with one event of the application, whose callback notes that it
  has run.
\<close>

definition cancel_event :: "int \<Rightarrow> bool app_event" where
  "cancel_event fd = \<lparr>app_fd_event = \<lparr>ev_fd = fd, ev_enabled = True\<rparr>,
     app_callback = \<lambda>(_, s). let (stop, s) = terminator_callback s in Some (stop, True, s)\<rparr>"

definition flagged :: "'b \<times> bool \<times> rasta_st \<Rightarrow> ('b \<times> bool) \<times> rasta_st" where
  "flagged x = ((fst x, fst (snd x)), snd (snd x))"

lemma sleep_cancel_apps: "sleep_cancel fd s = map_option flagged (sleep_apps [cancel_event fd] (False, s))"
  by (simp add: sleep_apps_def sleep_cancel_def Let_def split_beta [of _ "call s"] cancel_event_def)
     (auto simp: flagged_def terminator_callback_def split_beta split: Option.bind_split)

lemma loop_body_cancel_apps:
  "loop_body_cancel fd s = map_option flagged (loop_body_apps [cancel_event fd] (False, s))"
  by (simp add: loop_body_apps_def loop_body_cancel_def Let_def split_beta [of _ "now_ns s"]
      split_beta [of _ "calc_next_timed_event _ _"] sleep_cancel_apps)
     (auto simp: flagged_def split: Option.bind_split)

lemma sleep_flag: "sleep_apps [cancel_event fd] (False, s) = Some (r, True, s') \<Longrightarrow> r = -1"
  by (auto simp: sleep_apps_def cancel_event_def terminator_callback_def Let_def split_beta bind_eq_Some_conv split: if_splits)

lemma loop_body_flag: "loop_body_apps [cancel_event fd] (False, s) = Some (stop, f, s') \<Longrightarrow> \<not> stop \<Longrightarrow> \<not> f"
  by (auto simp: loop_body_apps_def Let_def split_beta bind_eq_Some_conv split: if_splits dest!: sleep_flag)

lemma loop_cancel_apps: "loop_cancel fd s = loop_apps [cancel_event fd] (False, s)"
proof -
  have "loop_apps [cancel_event fd] (False, s) = Some r" if "loop_cancel fd s = Some r" for r
    using that
  proof (induction rule: loop_cancel.raw_induct [rotated, consumes 1, case_names step])
    case (step f fd s r)
    then obtain stop g s' where b: "loop_body_apps [cancel_event fd] (False, s) = Some (stop, g, s')"
      "if stop then (g, s') = r else f fd s' = Some r"
      by (auto simp: loop_body_cancel_apps flagged_def bind_eq_Some_conv split: if_splits)
    then show ?case
      using step(1) [of fd s' r] loop_body_flag [OF b(1)] by (subst loop_apps.simps) (auto split: if_splits)
  qed
  moreover have "apps = [cancel_event fd] \<and> \<not> fst x \<longrightarrow> loop_cancel fd (snd x) = Some r"
    if "loop_apps apps x = Some r" for apps x r
    using that
  proof (induction rule: loop_apps.raw_induct [rotated, consumes 1, case_names step])
    case (step f apps x r)
    show ?case
    proof
      assume a: "apps = [cancel_event fd] \<and> \<not> fst x"
      then obtain stop g s' where b: "loop_body_apps [cancel_event fd] (False, snd x) = Some (stop, g, s')"
        "if stop then (g, s') = r else f apps (g, s') = Some r"
        using step(2) by (cases x) (auto simp: bind_eq_Some_conv split: if_splits)
      then show "loop_cancel fd (snd x) = Some r"
        using step(1) [of apps "(g, s')" r] a loop_body_flag [OF b(1)]
        by (subst loop_cancel.simps) (auto simp: loop_body_cancel_apps flagged_def split: if_splits)
    qed
  qed
  from this [of "[cancel_event fd]" "(False, s)"] have "loop_cancel fd s = Some r" if "loop_apps [cancel_event fd] (False, s) = Some r" for r
    using that by simp
  ultimately show ?thesis by (cases "loop_cancel fd s"; cases "loop_apps [cancel_event fd] (False, s)") auto
qed

end
