(* ===== verification/Rasta_Dictionary.thy ===== *)
theory Rasta_Dictionary
  imports Rasta_State
begin

text \<open>
  The dictionary of the configuration reader, \<open>examples/common/c/dictionary.c\<close>: an array of entries
  that grows by doubling, with keys that ignore case. A C string is the list of its characters up to
  the terminator. The lemmas show that it is a map in which the first value of a key stays.
\<close>

section \<open>Characters (ctype.h, C locale)\<close>

definition isdigit :: "char \<Rightarrow> bool" where
  "isdigit c \<longleftrightarrow> (of_char c :: nat) \<in> {48..57}"

definition islower :: "char \<Rightarrow> bool" where
  "islower c \<longleftrightarrow> (of_char c :: nat) \<in> {97..122}"

definition isupper :: "char \<Rightarrow> bool" where
  "isupper c \<longleftrightarrow> (of_char c :: nat) \<in> {65..90}"

definition isalpha :: "char \<Rightarrow> bool" where
  "isalpha c \<longleftrightarrow> islower c \<or> isupper c"

definition toupper :: "char \<Rightarrow> char" where
  "toupper c = (if islower c then char_of ((of_char c :: nat) - 32) else c)"

definition tolower :: "char \<Rightarrow> char" where
  "tolower c = (if isupper c then char_of ((of_char c :: nat) + 32) else c)"

lemma of_char_toupper: "islower c \<Longrightarrow> (of_char (toupper c) :: nat) = of_char c - 32"
  by (auto simp: toupper_def islower_def)

lemma toupper_toupper [simp]: "toupper (toupper c) = toupper c"
proof (cases "islower c")
  case True
  then have "\<not> islower (toupper c)"
    using of_char_toupper [OF True] by (auto simp: islower_def)
  then show ?thesis by (simp add: toupper_def)
qed (simp add: toupper_def)

section \<open>Data\<close>

text \<open>
  The tagged union. \<open>number\<close> and \<open>unumber\<close> share their 32 bits. An element of an array is \<open>None\<close>
  while it is not initialised. A string is that of a C array of \<open>PATH_MAX\<close> characters.
\<close>

datatype DictionaryValue =
  DICTIONARY_STRING string | DICTIONARY_ARRAY "string option list" | DICTIONARY_NUMBER u32 | DICTIONARY_ERROR

record DictionaryEntry =
  entry_key :: string
  entry_value :: DictionaryValue

text \<open>Of the array the model keeps the \<open>size\<close> cells in use; the others are never read.\<close>

record Dictionary =
  dict_size :: u32
  actual_size :: u32
  dict_data :: "DictionaryEntry list"

definition MAX_DICTIONARY_STRING_LENGTH_BYTES :: nat where
  "MAX_DICTIONARY_STRING_LENGTH_BYTES = 4096"

section \<open>Operations\<close>

definition uppercase :: "string \<Rightarrow> string" where
  "uppercase s = map (\<lambda>c. if isalpha c then toupper c else c) s"

definition dictionary_change_size :: "u32 \<Rightarrow> Dictionary \<Rightarrow> Dictionary" where
  "dictionary_change_size n d = d\<lparr>actual_size := n\<rparr>"

fun find_key :: "string \<Rightarrow> DictionaryEntry list \<Rightarrow> DictionaryValue option" where
  "find_key k [] = None"
| "find_key k (e # es) = (if k = entry_key e then Some (entry_value e) else find_key k es)"

text \<open>Keys are copied into arrays of 256 characters.\<close>

definition dictionary_isin :: "Dictionary \<Rightarrow> string \<Rightarrow> bool option" where
  "dictionary_isin d k =
     (if length k < 256 then Some (find_key (uppercase k) (dict_data d) \<noteq> None) else None)"

definition dictionary_add :: "Dictionary \<Rightarrow> DictionaryEntry \<Rightarrow> (bool \<times> Dictionary) option" where
  "dictionary_add d e = do {
     present \<leftarrow> dictionary_isin d (entry_key e);
     if present then Some (False, d)
     else do {
       let e = e\<lparr>entry_key := uppercase (entry_key e)\<rparr>;
       let d = (if dict_size d \<ge> actual_size d then dictionary_change_size (actual_size d * 2) d else d);
       if dict_size d < actual_size d
       then Some (True, d\<lparr>dict_data := dict_data d @ [e], dict_size := dict_size d + 1\<rparr>)
       else None
     }
   }"

definition allocate_DictionaryArray :: "nat \<Rightarrow> string option list" where
  "allocate_DictionaryArray n = replicate n None"

definition reallocate_DictionaryArray :: "string option list \<Rightarrow> nat \<Rightarrow> string option list" where
  "reallocate_DictionaryArray a n = take n a @ replicate (n - length a) None"

definition dictionary_create :: "u32 \<Rightarrow> Dictionary" where
  "dictionary_create n = \<lparr>dict_size = 0, actual_size = (if n < 2 then 2 else n), dict_data = []\<rparr>"

definition dictionary_addNumber :: "Dictionary \<Rightarrow> string \<Rightarrow> u32 \<Rightarrow> (bool \<times> Dictionary) option" where
  "dictionary_addNumber d k n =
     (if length k < 256 then dictionary_add d \<lparr>entry_key = k, entry_value = DICTIONARY_NUMBER n\<rparr> else None)"

definition dictionary_addString :: "Dictionary \<Rightarrow> string \<Rightarrow> string \<Rightarrow> (bool \<times> Dictionary) option" where
  "dictionary_addString d k s =
     (if length k < 256 then dictionary_add d \<lparr>entry_key = k, entry_value = DICTIONARY_STRING s\<rparr> else None)"

definition dictionary_addArray :: "Dictionary \<Rightarrow> string \<Rightarrow> string option list \<Rightarrow> (bool \<times> Dictionary) option" where
  "dictionary_addArray d k a =
     (if length k < 256 then dictionary_add d \<lparr>entry_key = k, entry_value = DICTIONARY_ARRAY a\<rparr> else None)"

text \<open>\<open>strncpy\<close> of 255 characters leaves a longer key without terminator.\<close>

definition dictionary_get :: "Dictionary \<Rightarrow> string \<Rightarrow> DictionaryValue option" where
  "dictionary_get d k =
     (if length k < 255 then Some (case find_key (uppercase k) (dict_data d) of None \<Rightarrow> DICTIONARY_ERROR | Some v \<Rightarrow> v)
      else None)"

text \<open>
  \<open>dictionary_free\<close> releases the arrays of the entries. \<open>freed\<close> are the keys whose array was released
  before; to release one of them again is undefined.
\<close>

definition dictionary_free :: "string set \<Rightarrow> Dictionary \<Rightarrow> unit option" where
  "dictionary_free freed d =
     (if \<exists>e \<in> set (dict_data d). (case entry_value e of DICTIONARY_ARRAY a \<Rightarrow> a \<noteq> [] \<and> entry_key e \<in> freed | _ \<Rightarrow> False)
      then None else Some ())"

section \<open>The first value of a key stays\<close>

text \<open>Keys up to case are mapped to values; adding never changes a value.\<close>

locale first_wins =
  fixes invar :: "'d \<Rightarrow> bool" and lookup :: "'d \<Rightarrow> 'k \<Rightarrow> 'v option" and add :: "'d \<Rightarrow> 'k \<Rightarrow> 'v \<Rightarrow> (bool \<times> 'd) option"
    and norm :: "'k \<Rightarrow> 'k" and key_ok :: "'k \<Rightarrow> bool" and room :: "'d \<Rightarrow> nat"
  assumes norm_norm: "norm (norm k) = norm k"
    and add_new: "invar d \<Longrightarrow> key_ok k \<Longrightarrow> 0 < room d \<Longrightarrow> lookup d (norm k) = None \<Longrightarrow>
      \<exists>d'. add d k v = Some (True, d') \<and> invar d' \<and> lookup d' = (lookup d)(norm k \<mapsto> v) \<and> room d' = room d - 1"
    and add_old: "invar d \<Longrightarrow> key_ok k \<Longrightarrow> lookup d (norm k) = Some w \<Longrightarrow> add d k v = Some (False, d)"
begin

text \<open>Adding a list of pairs.\<close>

fun add_all :: "'d \<Rightarrow> ('k \<times> 'v) list \<Rightarrow> 'd option" where
  "add_all d [] = Some d"
| "add_all d ((k, v) # kvs) = (case add d k v of None \<Rightarrow> None | Some (_, d') \<Rightarrow> add_all d' kvs)"

lemma add_all_first_wins:
  assumes "invar d" and "\<forall>(k, v) \<in> set kvs. key_ok k" and "length kvs \<le> room d"
  shows "\<exists>d'. add_all d kvs = Some d' \<and> invar d' \<and>
    lookup d' = map_of (map (\<lambda>(k, v). (norm k, v)) kvs) ++ lookup d"
  using assms
proof (induction kvs arbitrary: d)
  case (Cons kv kvs)
  obtain k v where kv: "kv = (k, v)" by (cases kv)
  let ?m = "map_of (map (\<lambda>(k, v). (norm k, v)) kvs)"
  have ok: "key_ok k" "\<forall>(k, v) \<in> set kvs. key_ok k" "length kvs \<le> room d - 1" "0 < room d"
    using Cons.prems(2,3) by (auto simp: kv)
  show ?case
  proof (cases "lookup d (norm k)")
    case None
    then obtain d1 where d1: "add d k v = Some (True, d1)" "invar d1" "lookup d1 = (lookup d)(norm k \<mapsto> v)" "room d1 = room d - 1"
      using add_new [OF Cons.prems(1) ok(1,4)] by blast
    then obtain d' where d': "add_all d1 kvs = Some d'" "invar d'" "lookup d' = ?m ++ (lookup d)(norm k \<mapsto> v)"
      using Cons.IH [OF d1(2) ok(2)] ok(3) unfolding d1(3,4) by blast
    have "?m ++ (lookup d)(norm k \<mapsto> v) = (?m(norm k \<mapsto> v)) ++ lookup d"
      using None by (auto simp: fun_eq_iff map_add_def split: option.splits)
    then show ?thesis using kv d1(1) d' by (simp add: fun_upd_def)
  next
    case (Some w)
    then have "add d k v = Some (False, d)" using add_old [OF Cons.prems(1) ok(1)] by blast
    moreover have "length kvs \<le> room d" using ok(3) by simp
    then obtain d' where "add_all d kvs = Some d'" "invar d'" "lookup d' = ?m ++ lookup d"
      using Cons.IH [OF Cons.prems(1) ok(2)] by blast
    moreover have "?m ++ lookup d = (?m(norm k \<mapsto> v)) ++ lookup d"
      using Some by (auto simp: fun_eq_iff map_add_def split: option.splits)
    ultimately show ?thesis using kv by (simp add: fun_upd_def)
  qed
qed simp

end

text \<open>The dictionary keeps this contract: keys are compared in upper case, and there is room for \<open>2\<^sup>3\<^sup>1\<close> entries.\<close>

definition dict_invar :: "Dictionary \<Rightarrow> bool" where
  "dict_invar d \<longleftrightarrow> 0 < actual_size d \<and> dict_size d \<le> actual_size d"

definition dict_lookup :: "Dictionary \<Rightarrow> string \<Rightarrow> DictionaryValue option" where
  "dict_lookup d k = find_key k (dict_data d)"

definition dict_room :: "Dictionary \<Rightarrow> nat" where
  "dict_room d = 2 ^ 31 - unat (dict_size d)"

definition short_key :: "string \<Rightarrow> bool" where
  "short_key k \<longleftrightarrow> length k < 256"

lemma uppercase_uppercase [simp]: "uppercase (uppercase k) = uppercase k"
  by (auto simp: uppercase_def isalpha_def)

lemma find_key_append: "find_key k (es @ [e]) = (case find_key k es of None \<Rightarrow> if k = entry_key e then Some (entry_value e) else None | Some v \<Rightarrow> Some v)"
  by (induction es) auto

lemma grown:
  assumes "dict_invar d" and "0 < dict_room d"
  shows "dict_size d < actual_size d \<or> dict_size d < actual_size d * 2"
    and "unat (dict_size d + 1) = unat (dict_size d) + 1"
proof -
  have n: "unat (dict_size d) < 2 ^ 31" using assms(2) by (simp add: dict_room_def)
  have "unat (- 1 :: u32) = 2 ^ 32 - 1" by (simp add: unsigned_minus_1_eq_mask mask_eq_exp_minus_1)
  with n have "1 + dict_size d \<noteq> 0" by (auto simp: add_eq_0_iff)
  then show "unat (dict_size d + 1) = unat (dict_size d) + 1" using unatSuc [of "dict_size d"] by (simp add: add.commute)
  have "dict_size d < actual_size d * 2" if "dict_size d = actual_size d"
  proof -
    have "unat (actual_size d) * 2 < 2 ^ 32" using n that by simp
    then have "unat (actual_size d * 2) = unat (actual_size d) * 2" by (simp add: unat_word_ariths)
    moreover have "0 < unat (actual_size d)" using assms(1) by (auto simp: dict_invar_def unat_gt_0)
    ultimately show ?thesis using that by (simp add: word_less_nat_alt)
  qed
  then show "dict_size d < actual_size d \<or> dict_size d < actual_size d * 2"
    using assms(1) by (auto simp: dict_invar_def le_less)
qed

lemma dictionary_add_new:
  assumes "dict_invar d" and "length k < 256" and "0 < dict_room d" and "dict_lookup d (uppercase k) = None"
  shows "\<exists>d'. dictionary_add d \<lparr>entry_key = k, entry_value = v\<rparr> = Some (True, d') \<and> dict_invar d' \<and>
    dict_lookup d' = (dict_lookup d)(uppercase k \<mapsto> v) \<and> dict_room d' = dict_room d - 1"
proof -
  define d1 where "d1 = (if dict_size d \<ge> actual_size d then dictionary_change_size (actual_size d * 2) d else d)"
  define d' where "d' = d1\<lparr>dict_data := dict_data d1 @ [\<lparr>entry_key = uppercase k, entry_value = v\<rparr>], dict_size := dict_size d1 + 1\<rparr>"
  have d1: "dict_size d1 = dict_size d" "dict_data d1 = dict_data d" "dict_size d1 < actual_size d1"
    using grown(1) [OF assms(1,3)] by (auto simp: d1_def dictionary_change_size_def)
  have "dictionary_add d \<lparr>entry_key = k, entry_value = v\<rparr> = Some (True, d')"
    using assms(2,4) d1(3) by (simp add: dictionary_add_def dictionary_isin_def dict_lookup_def Let_def d1_def [symmetric] d'_def)
  moreover have "dict_size d + 1 \<le> actual_size d1" "0 < actual_size d1"
    using d1(1,3) grown(2) [OF assms(1,3)] by (auto simp: word_less_nat_alt word_le_nat_alt)
  then have "dict_invar d'" by (simp add: dict_invar_def d'_def d1)
  moreover have "dict_lookup d' = (dict_lookup d)(uppercase k \<mapsto> v)"
    using assms(4) by (auto simp: dict_lookup_def d'_def d1 find_key_append fun_eq_iff split: option.splits)
  moreover have "dict_room d' = dict_room d - 1"
    using grown(2) [OF assms(1,3)] by (simp add: dict_room_def d'_def d1)
  ultimately show ?thesis by blast
qed

lemma dictionary_add_old:
  "length k < 256 \<Longrightarrow> dict_lookup d (uppercase k) = Some w \<Longrightarrow>
   dictionary_add d \<lparr>entry_key = k, entry_value = v\<rparr> = Some (False, d)"
  by (simp add: dictionary_add_def dictionary_isin_def dict_lookup_def)

interpretation dict: first_wins dict_invar dict_lookup "\<lambda>d k v. dictionary_add d \<lparr>entry_key = k, entry_value = v\<rparr>"
  uppercase short_key dict_room
  using dictionary_add_new dictionary_add_old by unfold_locales (simp_all add: short_key_def)

lemma dictionary_get_eq: "length k < 255 \<Longrightarrow> dictionary_get d k = Some (case dict_lookup d (uppercase k) of None \<Rightarrow> DICTIONARY_ERROR | Some v \<Rightarrow> v)"
  by (simp add: dictionary_get_def dict_lookup_def)

lemma dictionary_create_props: "dict_invar (dictionary_create n)" "dict_lookup (dictionary_create n) = Map.empty" "dict_room (dictionary_create n) = 2 ^ 31"
  by (auto simp: dict_invar_def dictionary_create_def dict_lookup_def dict_room_def fun_eq_iff word_gt_0)

end
