(* ===== verification/Rasta_Rcat.thy ===== *)
theory Rasta_Rcat
  imports Rasta_App Rasta_Protocol Rasta_Reachable Rasta_Configfile Rasta_Opaque
begin

text \<open>
  The program \<open>rcat\<close> (\<open>examples/rcat\<close>): it copies its standard input to the peer and what the peer sends to its
  standard output. The program is stated over the functions of \<open>rasta.h\<close> it calls, because its variants are linked
  with different builds of the library; then it is put on the library of the default build. Standard input is the
  list of bytes before the end of file: that \<open>getchar\<close> may have to wait for them makes no difference to what is read.
\<close>

section \<open>The interface the program uses\<close>

text \<open>
  \<open>lib_recv\<close> takes the one event the program has registered, a descriptor and a callback; \<open>lib_call\<close> is the system call
  \<open>write\<close>.
\<close>

record ('c, 'a, 's) library =
  lib_init :: "'c \<Rightarrow> 's \<Rightarrow> 's option"
  lib_bind :: "'s \<Rightarrow> (bool \<times> 's) option"
  lib_listen :: "'s \<Rightarrow> 's option"
  lib_accept :: "'s \<Rightarrow> (bool \<times> 's) option"
  lib_connect :: "'s \<Rightarrow> (bool \<times> 's) option"
  lib_recv :: "int \<times> ('a \<times> 's \<Rightarrow> (bool \<times> 'a \<times> 's) option) \<Rightarrow> nat \<Rightarrow> 'a \<times> 's \<Rightarrow> ((int \<times> bytes) \<times> 'a \<times> 's) option"
  lib_send :: "bytes \<Rightarrow> 's \<Rightarrow> (int \<times> 's) option"
  lib_disconnect :: "'s \<Rightarrow> 's option"
  lib_cleanup :: "'s \<Rightarrow> 's option"
  lib_call :: "'s \<Rightarrow> int \<times> 's"

definition app_event_of :: "int \<times> ('a \<times> rasta_st \<Rightarrow> (bool \<times> 'a \<times> rasta_st) option) \<Rightarrow> 'a app_event" where
  "app_event_of e = \<lparr>app_fd_event = \<lparr>ev_fd = fst e, ev_enabled = True\<rparr>, app_callback = snd e\<rparr>"

definition default_library ::
  "(nat \<Rightarrow> rasta_redundancy_packet_wrapper list) \<Rightarrow> (rasta_config_info, 'a, rasta_st) library" where
  "default_library junk =
     \<lparr>lib_init = rasta_lib_init_configuration junk, lib_bind = rasta_bind, lib_listen = rasta_listen,
      lib_accept = rasta_accept, lib_connect = rasta_connect, lib_recv = \<lambda>e. rasta_recv_apps [app_event_of e],
      lib_send = rasta_send, lib_disconnect = rasta_disconnect, lib_cleanup = rasta_cleanup, lib_call = call\<rparr>"

section \<open>The program\<close>

definition BUF_SIZE :: nat where
  "BUF_SIZE = 500"

definition NL :: u8 where
  "NL = 10"

record rcat_io =
  stdin_rest :: bytes
  stdout_written :: bytes

text \<open>
  The two loops of \<open>send_input_data\<close>: \<open>buf\<close> holds the \<open>read_len\<close> bytes read so far, \<open>input\<close> is what \<open>getchar\<close> still
  returns before \<open>EOF\<close>. The results of \<open>rasta_send\<close> are ignored.
\<close>

function send_input_loop ::
  "(bytes \<Rightarrow> 's \<Rightarrow> (int \<times> 's) option) \<Rightarrow> ('s \<Rightarrow> 's option) \<Rightarrow> bytes \<Rightarrow> bytes \<Rightarrow> 's \<Rightarrow> (bool \<times> bytes \<times> 's) option"
where
  "send_input_loop send disconnect buf input s =
     (if length buf < BUF_SIZE then
        (case input of
           [] \<Rightarrow> do {
             s \<leftarrow> (if length buf > 0 then map_option snd (send buf s) else Some s);
             s \<leftarrow> disconnect s;
             Some (True, [], s)
           }
         | c # input \<Rightarrow>
             if c = NL then do { (_, s) \<leftarrow> send (buf @ [c]) s; Some (False, input, s) }
             else send_input_loop send disconnect (buf @ [c]) input s)
      else do { (_, s) \<leftarrow> send buf s; send_input_loop send disconnect [] input s })"
  by pat_completeness auto
termination
  by (relation "measure (\<lambda>(send, disconnect, buf, input, s). 2 * length input + (if length buf < BUF_SIZE then 0 else 1))")
    (auto simp: BUF_SIZE_def)

declare send_input_loop.simps [simp del]

definition send_input_data ::
  "(bytes \<Rightarrow> 's \<Rightarrow> (int \<times> 's) option) \<Rightarrow> ('s \<Rightarrow> 's option) \<Rightarrow> rcat_io \<times> 's \<Rightarrow> (bool \<times> rcat_io \<times> 's) option" where
  "send_input_data send disconnect st = (case st of (io, s) \<Rightarrow> do {
     (r, rest, s) \<leftarrow> send_input_loop send disconnect [] (stdin_rest io) s;
     Some (r, io\<lparr>stdin_rest := rest\<rparr>, s)
   })"

text \<open>The descriptor of standard input is 0. \<open>write\<close> may write less than it is given.\<close>

partial_function (option) rcat_copy_loop :: "('c, rcat_io, 's) library \<Rightarrow> rcat_io \<times> 's \<Rightarrow> (rcat_io \<times> 's) option" where
  "rcat_copy_loop lib st = do {
     ((recv_len, buf), io, s) \<leftarrow> lib_recv lib (0, send_input_data (lib_send lib) (lib_disconnect lib)) BUF_SIZE st;
     if recv_len > 0 then
       let (r, s) = lib_call lib s
       in if r = -1 then Some (io, s)
          else rcat_copy_loop lib (io\<lparr>stdout_written := stdout_written io @ take (nat r) buf\<rparr>, s)
     else Some (io, s)
   }"

text \<open>
  The results: the exit status, what was read and written, and the endpoint. Before \<open>lib_init\<close> the endpoint holds the
  environment and the contents of fresh memory.
\<close>

definition rcat_receiver :: "('c, rcat_io, 's) library \<Rightarrow> 'c \<Rightarrow> rcat_io \<times> 's \<Rightarrow> (int \<times> rcat_io \<times> 's) option" where
  "rcat_receiver lib config st = (case st of (io, s) \<Rightarrow> do {
     s \<leftarrow> lib_init lib config s;
     (_, s) \<leftarrow> lib_bind lib s;
     s \<leftarrow> lib_listen lib s;
     (c, s) \<leftarrow> lib_accept lib s;
     if \<not> c then Some (1, io, s)
     else do {
       (io, s) \<leftarrow> rcat_copy_loop lib (io, s);
       s \<leftarrow> lib_cleanup lib s;
       Some (0, io, s)
     }
   })"

definition rcat_sender :: "('c, rcat_io, 's) library \<Rightarrow> 'c \<Rightarrow> rcat_io \<times> 's \<Rightarrow> (int \<times> rcat_io \<times> 's) option" where
  "rcat_sender lib config st = (case st of (io, s) \<Rightarrow> do {
     s \<leftarrow> lib_init lib config s;
     (_, s) \<leftarrow> lib_bind lib s;
     (c, s) \<leftarrow> lib_connect lib s;
     if \<not> c then Some (1, io, s)
     else do {
       (io, s) \<leftarrow> rcat_copy_loop lib (io, s);
       s \<leftarrow> lib_cleanup lib s;
       Some (0, io, s)
     }
   })"

text \<open>\<open>load\<close> is \<open>load_configfile\<close>. An argument that is neither \<open>r\<close> nor \<open>s\<close> ends in \<open>rasta_cleanup(NULL)\<close>.\<close>

definition rcat_main ::
  "(string \<Rightarrow> 'c option) \<Rightarrow> ('c, rcat_io, 's) library \<Rightarrow> string list \<Rightarrow> rcat_io \<times> 's \<Rightarrow> (int \<times> rcat_io \<times> 's) option" where
  "rcat_main load lib argv st =
     (if length argv \<noteq> 2 then Some (1, st)
      else if argv ! 1 = ''r'' then do { config \<leftarrow> load ''rasta_server_local.cfg''; rcat_receiver lib config st }
      else if argv ! 1 = ''s'' then do { config \<leftarrow> load ''rasta_client_local.cfg''; rcat_sender lib config st }
      else None)"

text \<open>\<open>prepare_certs\<close> may end the program with a status.\<close>

definition rcat_tls_main ::
  "(string \<Rightarrow> int option option) \<Rightarrow> (string \<Rightarrow> 'c option) \<Rightarrow> ('c, rcat_io, 's) library \<Rightarrow> string list \<Rightarrow> rcat_io \<times> 's \<Rightarrow>
   (int \<times> rcat_io \<times> 's) option" where
  "rcat_tls_main prepare_certs load lib argv st =
     (if length argv \<noteq> 2 then Some (1, st)
      else if argv ! 1 = ''r'' then do {
        exited \<leftarrow> prepare_certs ''rasta_server_local_tls.cfg'';
        (case exited of
           Some status \<Rightarrow> Some (status, st)
         | None \<Rightarrow> do { config \<leftarrow> load ''rasta_server_local_tls.cfg''; rcat_receiver lib config st })
      }
      else if argv ! 1 = ''s'' then do { config \<leftarrow> load ''rasta_client_local_tls.cfg''; rcat_sender lib config st }
      else None)"

definition rcat_dtls_main ::
  "(string \<Rightarrow> int option option) \<Rightarrow> (string \<Rightarrow> 'c option) \<Rightarrow> ('c, rcat_io, 's) library \<Rightarrow> string list \<Rightarrow> rcat_io \<times> 's \<Rightarrow>
   (int \<times> rcat_io \<times> 's) option" where
  "rcat_dtls_main prepare_certs load lib argv st =
     (if length argv \<noteq> 2 then Some (1, st)
      else if argv ! 1 = ''r'' then do {
        exited \<leftarrow> prepare_certs ''rasta_server_local_dtls.cfg'';
        (case exited of
           Some status \<Rightarrow> Some (status, st)
         | None \<Rightarrow> do { config \<leftarrow> load ''rasta_server_local_dtls.cfg''; rcat_receiver lib config st })
      }
      else if argv ! 1 = ''s'' then do { config \<leftarrow> load ''rasta_client_local_dtls.cfg''; rcat_sender lib config st }
      else None)"

text \<open>Any second argument switches rekeying off.\<close>

definition rcat_kex_main ::
  "(string \<Rightarrow> (rasta_config_info \<times> RastaConfigKex) option) \<Rightarrow> (rasta_config_info \<times> RastaConfigKex, rcat_io, 's) library \<Rightarrow>
   string list \<Rightarrow> rcat_io \<times> 's \<Rightarrow> (int \<times> rcat_io \<times> 's) option" where
  "rcat_kex_main load lib argv st =
     (if length argv < 2 then Some (1, st)
      else
        let force_disable_rekeying = length argv > 2;
            adjust = (\<lambda>(config, kex). (config, if force_disable_rekeying then kex\<lparr>rekeying_interval_ms := 0\<rparr> else kex))
        in if argv ! 1 = ''r'' then do { config \<leftarrow> load ''rasta_server_local.cfg''; rcat_receiver lib (adjust config) st }
           else if argv ! 1 = ''s'' then do { config \<leftarrow> load ''rasta_client_local.cfg''; rcat_sender lib (adjust config) st }
           else None)"

section \<open>What one call of the callback sends\<close>

text \<open>The first line of the input with its newline, or the whole input when there is none; the rest of the input.\<close>

definition first_line :: "bytes \<Rightarrow> bytes" where
  "first_line input = takeWhile (\<lambda>c. c \<noteq> NL) input @ (if NL \<in> set input then [NL] else [])"

definition after_line :: "bytes \<Rightarrow> bytes" where
  "after_line input = drop (length (first_line input)) input"

text \<open>A line in pieces of \<open>n\<close> bytes, the last one possibly shorter.\<close>

function chunks :: "nat \<Rightarrow> 'a list \<Rightarrow> 'a list list" where
  "chunks n xs = (if n = 0 \<or> xs = [] then [] else take n xs # chunks n (drop n xs))"
  by pat_completeness auto
termination
  by (relation "measure (\<lambda>(n, xs). length xs)") (auto simp: length_greater_0_conv [symmetric] simp del: length_greater_0_conv)

declare chunks.simps [simp del]

lemma chunks_simps [simp]: "chunks n [] = []"
  by (simp add: chunks.simps)

lemma chunks_short: "xs \<noteq> [] \<Longrightarrow> length xs \<le> n \<Longrightarrow> chunks n xs = [xs]"
  by (cases xs) (auto simp: chunks.simps)

lemma chunks_full: "length xs = n \<Longrightarrow> 0 < n \<Longrightarrow> chunks n (xs @ ys) = xs # chunks n ys"
  by (subst chunks.simps) auto

lemma concat_chunks: "0 < n \<Longrightarrow> concat (chunks n xs) = xs"
  by (induction n xs rule: chunks.induct) (subst chunks.simps, auto)

lemma length_chunk: "c \<in> set (chunks n xs) \<Longrightarrow> 0 < length c \<and> length c \<le> n"
proof (induction n xs rule: chunks.induct)
  case (1 n xs)
  then show ?case by (subst (asm) (2) chunks.simps) (auto split: if_splits)
qed

lemma length_chunks: "length xs \<le> k * n \<Longrightarrow> length (chunks n xs) \<le> k"
proof (induction n xs arbitrary: k rule: chunks.induct)
  case (1 n xs)
  show ?case
  proof (cases "n = 0 \<or> xs = []")
    case False
    then have "0 < k" using 1(2) by (cases k) auto
    moreover from this have "length (drop n xs) \<le> (k - 1) * n" using 1(2) by (cases k) auto
    ultimately show ?thesis using 1(1) [of "k - 1"] False by (subst chunks.simps) auto
  qed (auto simp: chunks.simps)
qed

fun send_each :: "(bytes \<Rightarrow> 's \<Rightarrow> (int \<times> 's) option) \<Rightarrow> bytes list \<Rightarrow> 's \<Rightarrow> 's option" where
  "send_each send [] s = Some s"
| "send_each send (m # ms) s = do { (_, s) \<leftarrow> send m s; send_each send ms s }"

lemma send_input_loop_chunks:
  "length buf \<le> BUF_SIZE \<Longrightarrow> NL \<notin> set buf \<Longrightarrow>
   send_input_loop send disconnect buf input s = do {
     s \<leftarrow> send_each send (chunks BUF_SIZE (buf @ first_line input)) s;
     if NL \<in> set input then Some (False, after_line input, s)
     else do { s \<leftarrow> disconnect s; Some (True, [], s) }
   }"
proof (induction send disconnect buf input s rule: send_input_loop.induct)
  case (1 send disconnect buf input s)
  consider (full) "length buf = BUF_SIZE" | (eof) "length buf < BUF_SIZE" "input = []"
    | (char) c cs where "length buf < BUF_SIZE" "input = c # cs"
    using 1(3) by (cases input; cases "length buf = BUF_SIZE") auto
  then show ?case
  proof cases
    case full
    then show ?thesis
      using 1(2) by (subst send_input_loop.simps) (auto simp: chunks_full BUF_SIZE_def split: Option.bind_split)
  next
    case eof
    then show ?thesis
      by (subst send_input_loop.simps)
         (auto simp: first_line_def chunks_short split: Option.bind_split option.splits)
  next
    case char
    then show ?thesis
      using 1(1) 1(4) by (subst send_input_loop.simps)
        (auto simp: first_line_def after_line_def chunks_short split: Option.bind_split)
  qed
qed

section \<open>The contract of sending\<close>

text \<open>
  What a client relies on: a message is accepted at the end of the queue while there is room, and nothing else the
  client sees changes. \<open>view\<close> is what sending leaves alone.
\<close>

locale message_sink =
  fixes send :: "bytes \<Rightarrow> 's \<Rightarrow> (int \<times> 's) option"
    and accepted :: "'s \<Rightarrow> bytes list"
    and room :: "'s \<Rightarrow> nat"
    and view :: "'s \<Rightarrow> 'v"
    and inv :: "'s \<Rightarrow> bool"
    and fits :: "'v \<Rightarrow> bytes \<Rightarrow> bool"
  assumes send_accepts: "inv s \<Longrightarrow> fits (view s) m \<Longrightarrow> 0 < room s \<Longrightarrow>
    \<exists>s'. send m s = Some (0, s') \<and> accepted s' = accepted s @ [m] \<and> room s' = room s - 1 \<and> view s' = view s \<and> inv s'"
begin

lemma send_each_accepts:
  "inv s \<Longrightarrow> list_all (fits (view s)) ms \<Longrightarrow> length ms \<le> room s \<Longrightarrow>
   \<exists>s'. send_each send ms s = Some s' \<and> accepted s' = accepted s @ ms \<and> room s' = room s - length ms \<and>
     view s' = view s \<and> inv s'"
proof (induction ms arbitrary: s)
  case (Cons m ms)
  then obtain t where t: "send m s = Some (0, t)" "accepted t = accepted s @ [m]" "room t = room s - 1" "view t = view s" "inv t"
    using send_accepts [of s m] by auto
  then show ?case using Cons.IH [of t] Cons.prems by auto
qed simp

lemma line_accepted:
  assumes "inv s" and "NL \<in> set input" and "list_all (fits (view s)) (chunks BUF_SIZE (first_line input))"
    and "length (chunks BUF_SIZE (first_line input)) \<le> room s"
  shows "\<exists>s'. send_input_loop send disconnect [] input s = Some (False, after_line input, s') \<and>
    accepted s' = accepted s @ chunks BUF_SIZE (first_line input) \<and> view s' = view s \<and> inv s'"
  using send_each_accepts [OF assms(1,3,4)] assms(2) by (auto simp: send_input_loop_chunks)

lemma last_part_accepted:
  assumes "inv s" and "NL \<notin> set input" and "list_all (fits (view s)) (chunks BUF_SIZE input)"
    and "length (chunks BUF_SIZE input) \<le> room s"
  shows "\<exists>s'. send_input_loop send disconnect [] input s = map_option (\<lambda>s. (True, [], s)) (disconnect s') \<and>
    accepted s' = accepted s @ chunks BUF_SIZE input \<and> view s' = view s \<and> inv s'"
proof -
  have "takeWhile (\<lambda>c. c \<noteq> NL) input = input" using assms(2) by (auto simp: takeWhile_eq_all_conv)
  then have "first_line input = input" using assms(2) by (simp add: first_line_def)
  moreover obtain s' where s': "send_each send (chunks BUF_SIZE input) s = Some s'"
    "accepted s' = accepted s @ chunks BUF_SIZE input" "view s' = view s" "inv s'"
    using send_each_accepts [OF assms(1,3,4)] by blast
  ultimately show ?thesis
    using assms(2) by (intro exI [of _ s']) (auto simp: send_input_loop_chunks split: Option.bind_split)
qed

end

text \<open>The send queue of an open connection as such a sink.\<close>

definition send_room :: "rasta_st \<Rightarrow> nat" where
  "send_room s = (if current_state (con s) = RASTA_CONNECTION_UP \<and> max_packet (sending (cfg s)) > 0
     then unat (capacity (fifo_send (con s))) - length (items (fifo_send (con s))) else 0)"

definition queued :: "rasta_st \<Rightarrow> bytes list" where
  "queued s = items (fifo_send (con s))"

definition send_view ::
  "rasta_st \<Rightarrow> rasta_config_info \<times> rasta_redundancy_channel \<times> redundancy_mux \<times> network \<times> transport \<times> rasta_sr_state \<times> rasta_role" where
  "send_view s = (cfg s, chan s, mux s, net s, transport_lib s, current_state (con s), role (con s))"

lemma rasta_send_accepts:
  assumes "sr_inv s" and "message_fits (cfg s) m" and "0 < send_room s"
  shows "\<exists>s'. rasta_send m s = Some (0, s') \<and> queued s' = queued s @ [m] \<and> send_room s' = send_room s - 1 \<and>
    send_view s' = send_view s \<and> sr_inv s'"
proof -
  have c: "current_state (con s) = RASTA_CONNECTION_UP" "0 < max_packet (sending (cfg s))"
    "\<not> queue_full (fifo_send (con s))"
    using assms(3) by (auto simp: send_room_def queue_full_def split: if_splits)
  then have "\<not> 1 > max_packet (sending (cfg s))" by (simp add: word_greater_zero_iff not_less word_le_nat_alt unat_gt_0 Suc_leI)
  with c obtain s' where s': "rasta_send m s = Some (0, s')" "queued s' = queued s @ [m]" "send_room s' = send_room s - 1"
    "send_view s' = send_view s"
    by (auto simp: rasta_send_def sr_send_def queue_push_def Let_def split_beta now_ns_def map_con_def queued_def
        send_room_def send_view_def)
  then show ?thesis using sr_ok_send [OF s'(1) assms(2)] assms(1) by (auto simp: sr_ok_def)
qed

interpretation send_queue: message_sink rasta_send queued send_room send_view sr_inv "message_fits \<circ> fst"
  by unfold_locales (use rasta_send_accepts in \<open>auto simp: send_view_def\<close>)

lemma chunks_fit:
  assumes "502 * unat (max_packet (sending (cfg s))) \<le> 65000"
  shows "list_all ((message_fits \<circ> fst) (send_view s)) (chunks BUF_SIZE xs)"
proof -
  have "message_fits (cfg s) c" if "c \<in> set (chunks BUF_SIZE xs)" for c
  proof -
    have "length c + 2 \<le> 502" using length_chunk [OF that] by (simp add: BUF_SIZE_def)
    then have "(length c + 2) * unat (max_packet (sending (cfg s))) \<le> 502 * unat (max_packet (sending (cfg s)))"
      by (rule mult_right_mono) simp
    from le_trans [OF this assms] show ?thesis unfolding message_fits_def .
  qed
  then show ?thesis by (simp add: list_all_iff send_view_def)
qed

lemma send_view_parts:
  assumes "send_view s' = send_view s"
  shows "cfg s' = cfg s" "chan s' = chan s" "mux s' = mux s" "net s' = net s" "transport_lib s' = transport_lib s"
    "current_state (con s') = current_state (con s)" "role (con s') = role (con s)"
  using assms by (simp_all add: send_view_def)

section \<open>What happens to the input\<close>

text \<open>\<open>rasta_disconnect\<close> sends a disconnection request and nothing of what is queued.\<close>

lemma disconnect_drops_queue:
  assumes "sr_inv s" and "link_ok s" and "sockets_ok s" and "current_state (con s) = RASTA_CONNECTION_UP"
  shows "\<exists>s'. rasta_disconnect s = Some s' \<and> disconnect_sent RASTA_DISC_REASON_USERREQUEST s s' \<and>
    current_state (con s') = RASTA_CONNECTION_CLOSED \<and> queued s' = queued s"
proof -
  obtain u where "sr_close_connection RASTA_DISC_REASON_USERREQUEST 0 s = Some u" "con u = sr_reset_connection (con s)"
    "disconnect_sent RASTA_DISC_REASON_USERREQUEST s u"
    using sr_close_returns [OF assms(1-3), of RASTA_DISC_REASON_USERREQUEST] assms(4) by auto
  then show ?thesis
    by (auto simp: rasta_disconnect_def sr_disconnect_def map_con_def disconnect_sent_def sr_reset_connection_def queued_def)
qed

text \<open>
  C14: A call of the input callback takes one line. While the send queue has room for it, the line is queued in order
  and completely, in pieces of at most 500 bytes behind what was queued before, nothing goes out on the network yet,
  and the input goes on after the line.
\<close>

theorem rcat_line_queued:
  assumes "sr_inv s" and "502 * unat (max_packet (sending (cfg s))) \<le> 65000"
    and "NL \<in> set (stdin_rest io)" and "length (first_line (stdin_rest io)) \<le> send_room s * 500"
  shows "\<exists>s' ms. send_input_data rasta_send rasta_disconnect (io, s) = Some (False, io\<lparr>stdin_rest := after_line (stdin_rest io)\<rparr>, s') \<and>
    queued s' = queued s @ ms \<and> concat ms = first_line (stdin_rest io) \<and> list_all (\<lambda>m. 0 < length m \<and> length m \<le> 500) ms \<and>
    first_line (stdin_rest io) @ after_line (stdin_rest io) = stdin_rest io \<and> wire (net s') = wire (net s)"
proof -
  let ?line = "first_line (stdin_rest io)"
  have "length (chunks BUF_SIZE ?line) \<le> send_room s"
    using assms(4) by (intro length_chunks) (simp add: BUF_SIZE_def)
  with assms obtain s' where s': "send_input_loop rasta_send rasta_disconnect [] (stdin_rest io) s =
      Some (False, after_line (stdin_rest io), s')" "queued s' = queued s @ chunks BUF_SIZE ?line" "send_view s' = send_view s"
    using send_queue.line_accepted [OF assms(1,3) chunks_fit [OF assms(2)]] by blast
  moreover have "concat (chunks BUF_SIZE ?line) = ?line" by (simp add: concat_chunks BUF_SIZE_def)
  moreover have "list_all (\<lambda>m. 0 < length m \<and> length m \<le> 500) (chunks BUF_SIZE ?line)"
    using length_chunk [of _ BUF_SIZE ?line] by (auto simp: list_all_iff BUF_SIZE_def)
  moreover have "?line @ after_line (stdin_rest io) = stdin_rest io"
  proof -
    obtain ys zs where "stdin_rest io = ys @ NL # zs" "NL \<notin> set ys" using split_list_first [OF assms(3)] by blast
    then show ?thesis by (simp add: first_line_def after_line_def takeWhile_append takeWhile_eq_all_conv)
  qed
  moreover have "wire (net s') = wire (net s)" using send_view_parts(4) [OF s'(3)] by simp
  ultimately show ?thesis
    by (intro exI [of _ s'] exI [of _ "chunks BUF_SIZE ?line"]) (simp add: send_input_data_def)
qed

text \<open>The end of the input: what is left of it is queued, then the connection is closed.\<close>

lemma end_of_input_disconnects:
  assumes "sr_inv s" and "link_ok s" and "sockets_ok s" and "current_state (con s) = RASTA_CONNECTION_UP"
    and "502 * unat (max_packet (sending (cfg s))) \<le> 65000"
    and "NL \<notin> set (stdin_rest io)" and "length (stdin_rest io) \<le> send_room s * 500"
  shows "\<exists>s' ms. send_input_data rasta_send rasta_disconnect (io, s) = Some (True, io\<lparr>stdin_rest := []\<rparr>, s') \<and>
    queued s' = queued s @ ms \<and> concat ms = stdin_rest io \<and> disconnect_sent RASTA_DISC_REASON_USERREQUEST s s' \<and>
    current_state (con s') = RASTA_CONNECTION_CLOSED"
proof -
  have "length (chunks BUF_SIZE (stdin_rest io)) \<le> send_room s"
    using assms(7) by (intro length_chunks) (simp add: BUF_SIZE_def)
  then obtain t where t: "send_input_loop rasta_send rasta_disconnect [] (stdin_rest io) s =
      map_option (\<lambda>s. (True, [], s)) (rasta_disconnect t)" "queued t = queued s @ chunks BUF_SIZE (stdin_rest io)"
      "send_view t = send_view s" "sr_inv t"
    using send_queue.last_part_accepted [OF assms(1,6) chunks_fit [OF assms(5)]] by blast
  note v = send_view_parts [OF t(3)]
  have "link_ok t" "sockets_ok t" using assms(2,3) v by (simp_all add: link_ok_def sockets_ok_def)
  then obtain u where u: "rasta_disconnect t = Some u" "disconnect_sent RASTA_DISC_REASON_USERREQUEST t u"
    "current_state (con u) = RASTA_CONNECTION_CLOSED" "queued u = queued t"
    using disconnect_drops_queue [of t] t(4) v(6) assms(4) by auto
  moreover have "disconnect_sent RASTA_DISC_REASON_USERREQUEST s u" using u(2) v by (simp add: disconnect_sent_def)
  moreover have "concat (chunks BUF_SIZE (stdin_rest io)) = stdin_rest io" by (simp add: concat_chunks BUF_SIZE_def)
  ultimately show ?thesis using t(1,2) by (auto simp: send_input_data_def)
qed

text \<open>
  C15: At the end of the input the program disconnects at once. When the part of the input after the last newline
  fits the free room of the send queue, it is queued, and neither this part nor whatever was still queued is sent:
  the only packet that goes out is the disconnection request. (For a longer last part \<open>rasta_send\<close> empties the full
  queue in between, and what remains queued at the end is lost.)
\<close>

theorem rcat_end_of_input_lost:
  assumes "sr_inv s" and "link_ok s" and "sockets_ok s" and "current_state (con s) = RASTA_CONNECTION_UP"
    and "502 * unat (max_packet (sending (cfg s))) \<le> 65000"
    and "NL \<notin> set (stdin_rest io)" and "length (stdin_rest io) \<le> send_room s * 500"
  shows "\<exists>s' ms. send_input_data rasta_send rasta_disconnect (io, s) = Some (True, io\<lparr>stdin_rest := []\<rparr>, s') \<and>
    queued s' = queued s @ ms \<and> concat ms = stdin_rest io \<and> disconnect_sent RASTA_DISC_REASON_USERREQUEST s s' \<and>
    current_state (con s') = RASTA_CONNECTION_CLOSED"
  using end_of_input_disconnects [OF assms] .

text \<open>
  When the queue and the retransmission buffer are full, \<open>rasta_send\<close> fails, and because its result is ignored a line
  is read and dropped.
\<close>

lemma rasta_send_full:
  assumes "current_state (con s) = RASTA_CONNECTION_UP" and "0 < max_packet (sending (cfg s))"
    and "queue_full (fifo_send (con s))" and "0 < capacity (fifo_send (con s))"
    and "max_retransmission_queue_size (cfg s) \<le> sr_retransmission_queue_item_count (con s)"
  shows "rasta_send m s = Some (-1, s)"
proof -
  have "\<not> 1 > max_packet (sending (cfg s))" using assms(2) by (simp add: not_less word_le_nat_alt unat_gt_0 Suc_leI)
  moreover have "sr_send_queue_item_count (con s) = capacity (fifo_send (con s))"
    using assms(3) by (simp add: sr_send_queue_item_count_def queue_size_def queue_full_def)
  then have "data_send_event s = Some (False, s)" using assms(4,5) by (simp add: data_send_event_def word_gt_0 not_less [symmetric])
  ultimately show ?thesis
    using assms(1,3) by (simp add: rasta_send_def sr_send_def queue_push_def map_con_def)
qed

lemma full_queue_drops_line:
  assumes "current_state (con s) = RASTA_CONNECTION_UP" and "0 < max_packet (sending (cfg s))"
    and "queue_full (fifo_send (con s))" and "0 < capacity (fifo_send (con s))"
    and "max_retransmission_queue_size (cfg s) \<le> sr_retransmission_queue_item_count (con s)"
    and "NL \<in> set (stdin_rest io)"
  shows "send_input_data rasta_send rasta_disconnect (io, s) = Some (False, io\<lparr>stdin_rest := after_line (stdin_rest io)\<rparr>, s)"
proof -
  have "send_each rasta_send ms s = Some s" for ms
    by (induction ms) (simp_all add: rasta_send_full [OF assms(1-5)])
  then show ?thesis using assms(6) by (simp add: send_input_data_def send_input_loop_chunks)
qed

text \<open>Once the connection is closed the copying ends, and what was queued goes with the endpoint.\<close>

lemma closed_copy_ends:
  assumes "current_state (con s) \<noteq> RASTA_CONNECTION_UP"
  shows "rcat_copy_loop (default_library junk) (io, s) = Some (io, s)"
proof -
  have "recv_wait_apps apps (io, s) = Some (io, s)" for apps
    using assms by (subst recv_wait_apps.simps) simp
  then show ?thesis
    using assms by (subst rcat_copy_loop.simps) (simp add: default_library_def rasta_recv_apps_def)
qed

lemma cleanup_empties: "rasta_cleanup s = Some s' \<Longrightarrow> queued s' = []"
  by (auto simp: rasta_cleanup_def bind_eq_Some_conv map_con_def queued_def queue_init_def)

text \<open>An argument other than \<open>r\<close> and \<open>s\<close> is not rejected: \<open>rasta_cleanup\<close> gets a null pointer.\<close>

lemma unknown_mode_undefined:
  "rcat_main load lib [prog, mode] st = None" if "mode \<noteq> ''r''" "mode \<noteq> ''s''"
  using that by (simp add: rcat_main_def)

theorem rcat_line_queued_witness:
  "\<exists>s'. send_input_data rasta_send rasta_disconnect (\<lparr>stdin_rest = [104, 105, 10, 120], stdout_written = []\<rparr>, example_st) =
      Some (False, \<lparr>stdin_rest = [120], stdout_written = []\<rparr>, s') \<and> concat (queued s') = concat (queued example_st) @ [104, 105, 10]"
proof -
  let ?io = "\<lparr>stdin_rest = [104, 105, 10, 120], stdout_written = []\<rparr>"
  have line: "first_line (stdin_rest ?io) = [104, 105, 10]" "after_line (stdin_rest ?io) = [120]" "NL \<in> set (stdin_rest ?io)"
    by (simp_all add: first_line_def after_line_def NL_def)
  have "502 * unat (max_packet (sending (cfg example_st))) \<le> 65000" by (simp add: example_defs)
  moreover have "length (first_line (stdin_rest ?io)) \<le> send_room example_st * 500"
    unfolding line by (simp add: send_room_def example_defs)
  ultimately show ?thesis
    using rcat_line_queued [OF example_sr_inv, of ?io] line by auto
qed

theorem rcat_end_of_input_lost_witness:
  "\<exists>s'. send_input_data rasta_send rasta_disconnect (\<lparr>stdin_rest = [104, 105], stdout_written = []\<rparr>, example_st) =
      Some (True, \<lparr>stdin_rest = [], stdout_written = []\<rparr>, s') \<and> concat (queued s') = concat (queued example_st) @ [104, 105] \<and>
      length (wire (net s')) = 2"
proof -
  let ?io = "\<lparr>stdin_rest = [104, 105], stdout_written = []\<rparr>"
  have "current_state (con example_st) = RASTA_CONNECTION_UP" "502 * unat (max_packet (sending (cfg example_st))) \<le> 65000"
    "NL \<notin> set (stdin_rest ?io)" "length (stdin_rest ?io) \<le> send_room example_st * 500"
    by (simp_all add: example_defs NL_def send_room_def)
  moreover have "length (wire (net example_st)) + length (filter connected (transport_channels (chan example_st))) = 2"
    by (simp add: example_defs)
  ultimately show ?thesis
    using rcat_end_of_input_lost [OF example_sr_inv example_link_ok example_sockets_ok, of ?io] by (auto simp: disconnect_sent_def)
qed

end
