(* ===== verification/Rasta_Rcat_Run.thy ===== *)
theory Rasta_Rcat_Run
  imports Rasta_Rcat
begin

text \<open>
  A run of the event loop in which only an event of the application is ready, and with it the end of \<open>rcat\<close>: the
  program waits in \<open>rasta_recv\<close>, its input ends, and it returns.
\<close>

section \<open>An event of the application ends the loop\<close>

text \<open>The endpoint when \<open>select\<close> has returned in the first round of \<open>event_system_start\<close>.\<close>

definition timers_started :: "rasta_st \<Rightarrow> rasta_st" where
  "timers_started s = map_con (\<lambda>c. fold (\<lambda>t. map_timer t (\<lambda>e. e\<lparr>last_call := fst (now_ns s)\<rparr>)) timers c) (snd (now_ns s))"

definition selected :: "rasta_st \<Rightarrow> rasta_st" where
  "selected s = snd (call (snd (now_ns (timers_started s))))"

text \<open>No timer is due in that round.\<close>

definition no_timer_due :: "rasta_st \<Rightarrow> bool" where
  "no_timer_due s \<longleftrightarrow> fst (calc_next_timed_event (map (\<lambda>t. timer_event t (con (timers_started s))) timers)
     (fst (now_ns (timers_started s)))) \<noteq> 0"

text \<open>Only the descriptor \<open>fd\<close> is ready.\<close>

definition only_ready :: "int \<Rightarrow> rasta_st \<Rightarrow> bool" where
  "only_ready fd s \<longleftrightarrow> waits_on fd s \<and> readable (net s) (n_calls (net s)) = [fd] \<and> answers (net s) (n_calls (net s)) = 1"

lemma now_ns_parts [simp]:
  "con (snd (now_ns s)) = con s" "net (snd (now_ns s)) = net s" "mux (snd (now_ns s)) = mux s" "chan (snd (now_ns s)) = chan s"
  "cfg (snd (now_ns s)) = cfg s" "transport_lib (snd (now_ns s)) = transport_lib s"
  by (simp_all add: now_ns_def split_beta Let_def)

lemma call_parts [simp]:
  "con (snd (call s)) = con s" "mux (snd (call s)) = mux s" "chan (snd (call s)) = chan s"
  "cfg (snd (call s)) = cfg s" "transport_lib (snd (call s)) = transport_lib s" "wire (net (snd (call s))) = wire (net s)"
  by (simp_all add: call_def sys_call_def)

lemma timers_started_parts [simp]:
  "net (timers_started s) = net s" "mux (timers_started s) = mux s" "chan (timers_started s) = chan s" "cfg (timers_started s) = cfg s"
  "transport_lib (timers_started s) = transport_lib s" "current_state (con (timers_started s)) = current_state (con s)"
  "role (con (timers_started s)) = role (con s)" "fifo_send (con (timers_started s)) = fifo_send (con s)"
  by (simp_all add: timers_started_def map_con_def timers_def)

lemma sleep_fires_app:
  assumes "only_ready fd s" and "app_fd_event e = \<lparr>ev_fd = fd, ev_enabled = True\<rparr>" and "app_callback e (a, snd (call s)) = Some (True, st)"
  shows "sleep_apps [e] (a, s) = Some (-1, st)"
proof -
  define events where "events = List.map_filter (\<lambda>src. source_event src s) (fd_sources s) @ map app_fd_event [e]"
  have w: "waits_on fd s" using assms(1) by (simp add: only_ready_def)
  have ev: "ev_fd x < 1023 \<and> (ev_enabled x \<longrightarrow> 0 \<le> ev_fd x)" if "x \<in> set events" for x
    using that w assms(2) by (auto simp: events_def waits_on_def List.map_filter_def)
  then have "get_max_nfds (map ev_fd events) < FD_SETSIZE"
    using get_max_nfds_less [of "map ev_fd events" 1023] by (auto simp: FD_SETSIZE_def)
  moreover have "\<not> list_ex (\<lambda>fd. fd < 0) (map ev_fd (filter ev_enabled events))" using ev by (force simp: list_ex_iff)
  moreover have "fd \<in> set (map ev_fd (filter ev_enabled events))" using assms(2) by (simp add: events_def)
  moreover have "source_event src (snd (call s)) = source_event src s" "fd_sources (snd (call s)) = fd_sources s" for src
    by (rule same_events; simp)+
  then have "fire_sources (fd_sources (snd (call s))) [fd] 1 (snd (call s)) = Some (1, snd (call s))"
    using w by (intro fire_sources_quiet [where fd = fd]) (auto simp: waits_on_def)
  moreover have "fst (call s) = 1" using assms(1) by (simp add: only_ready_def call_def sys_call_def)
  moreover have "readable (net s) (n_calls (net s)) = [fd]" using assms(1) by (simp add: only_ready_def)
  ultimately show ?thesis
    using assms(2,3) unfolding sleep_apps_def prod.case events_def [symmetric] Let_def split_beta [of _ "call s"] by simp
qed

lemma app_event_ends_loop:
  assumes "only_ready fd s" and "no_timer_due s" and "app_fd_event e = \<lparr>ev_fd = fd, ev_enabled = True\<rparr>"
    and "app_callback e (a, selected s) = Some (True, st)"
  shows "event_system_start_apps [e] (a, s) = Some st"
proof -
  let ?t = "timers_started s"
  have e: "source_event src (snd (now_ns ?t)) = source_event src s" "fd_sources (snd (now_ns ?t)) = fd_sources s" for src
    by (rule same_events; simp)+
  have "only_ready fd (snd (now_ns ?t))" using assms(1) by (simp add: only_ready_def waits_on_def e)
  then have sleep: "sleep_apps [e] (a, snd (now_ns ?t)) = Some (-1, st)"
    using assms(3,4) by (intro sleep_fires_app) (simp_all add: selected_def)
  have "loop_body_apps [e] (a, ?t) = Some (True, st)"
    using sleep assms(2)
    by (cases st) (simp add: loop_body_apps_def no_timer_due_def Let_def split_beta [of _ "now_ns ?t"] split_beta [of _ "calc_next_timed_event _ _"])
  then have "loop_apps [e] (a, ?t) = Some st" by (subst loop_apps.simps) simp
  then show ?thesis by (simp add: event_system_start_apps_def timers_started_def split_beta [of _ "now_ns s"] Let_def)
qed

section \<open>The end of rcat\<close>

lemma selected_send:
  "send_room (selected s) = send_room s" "queued (selected s) = queued s" "cfg (selected s) = cfg s"
  "current_state (con (selected s)) = current_state (con s)"
  by (simp_all add: send_room_def queued_def selected_def)

lemma selected_ok:
  assumes "sr_inv s" and "link_ok s" and "sockets_ok s"
  shows "sr_inv (selected s)" "link_ok (selected s)" "sockets_ok (selected s)"
proof -
  have "sr_neutral (map_con (\<lambda>c. fold (\<lambda>k. map_timer k (\<lambda>e. e\<lparr>last_call := t\<rparr>)) timers c))" for t
    by (rule sr_neutral_map_con) (simp_all add: timers_def)
  then have "sr_inv (timers_started s)"
    using assms(1) sr_neutral_now(2) unfolding timers_started_def sr_neutral_def by blast
  then have "sr_inv (snd (now_ns (timers_started s)))" using sr_neutral_now(2) unfolding sr_neutral_def by blast
  moreover have "sr_inv (snd (call u)) = sr_inv u" for u
    by (simp add: sr_inv_def static_ok_def wire_ok_def call_def sys_call_def)
  ultimately show "sr_inv (selected s)" by (simp add: selected_def)
  show "link_ok (selected s)" using assms(2) by (simp add: link_ok_def selected_def call_def sys_call_def net_ok_def)
  show "sockets_ok (selected s)" using assms(3) by (simp add: sockets_ok_def selected_def)
qed

text \<open>
  The end of the input ends the program: it waits in \<open>rasta_recv\<close>, reads the rest of its input, disconnects without
  sending what is queued, and leaves its loop.
\<close>

lemma rcat_ends_with_input:
  assumes "sr_inv s" and "link_ok s" and "sockets_ok s" and "current_state (con s) = RASTA_CONNECTION_UP"
    and "sr_recv_queue_item_count (con s) = 0" and "502 * unat (max_packet (sending (cfg s))) \<le> 65000"
    and "NL \<notin> set (stdin_rest io)" and "length (stdin_rest io) \<le> send_room s * 500"
    and "only_ready 0 s" and "no_timer_due s"
  shows "\<exists>s'. rcat_copy_loop (default_library junk) (io, s) = Some (io\<lparr>stdin_rest := []\<rparr>, s') \<and>
    disconnect_sent RASTA_DISC_REASON_USERREQUEST s s' \<and> current_state (con s') = RASTA_CONNECTION_CLOSED"
proof -
  let ?cb = "send_input_data rasta_send rasta_disconnect" and ?io = "io\<lparr>stdin_rest := []\<rparr>"
  obtain s' where s': "?cb (io, selected s) = Some (True, ?io, s')"
    "disconnect_sent RASTA_DISC_REASON_USERREQUEST (selected s) s'" "current_state (con s') = RASTA_CONNECTION_CLOSED"
    using end_of_input_disconnects [OF selected_ok [OF assms(1-3)]] assms(4,6-8) by (fastforce simp: selected_send)
  have "event_system_start_apps [app_event_of (0, ?cb)] (io, s) = Some (?io, s')"
    using assms(9,10) s'(1) by (intro app_event_ends_loop) (auto simp: app_event_of_def)
  then have "recv_wait_apps [app_event_of (0, ?cb)] (io, s) = Some (?io, s')"
    using assms(4,5) s'(3) by (subst recv_wait_apps.simps, simp) (subst recv_wait_apps.simps, simp)
  then have "rcat_copy_loop (default_library junk) (io, s) = Some (?io, s')"
    using s'(3) by (subst rcat_copy_loop.simps) (simp add: default_library_def rasta_recv_apps_def)
  moreover have "disconnect_sent RASTA_DISC_REASON_USERREQUEST s s'" using s'(2) by (simp add: disconnect_sent_def selected_def)
  ultimately show ?thesis using s'(3) by blast
qed

end
