(* ===== verification/Rasta_Bridge.thy ===== *)
theory Rasta_Bridge
  imports Rasta_Rcat
begin

text \<open>
  The gRPC bridge (\<open>examples/rasta_grpc_bridge/cpp/main.cpp\<close>). Two threads share a queue of messages and two pipes:
  the forwarder reads messages from the gRPC stream, puts them into the queue and wakes up the event loop of the
  library through a pipe; the main thread runs the loop, takes the messages out and sends them. gRPC is an
  environment: what a stream returns is arbitrary. A step of the model is what one thread does between two accesses to
  shared data; the mutexes make exactly these accesses atomic.
\<close>

section \<open>The threads of a connection\<close>

datatype forwarder_location = F_Connect | F_Read | F_Push bytes | F_Notify | F_Close | F_Terminate | F_Done

text \<open>
  In \<open>M_Selected d t\<close> \<open>select\<close> has returned, \<open>d\<close> and \<open>t\<close> say whether the two pipes were readable, and the callbacks of
  the library run; then come the callback of the data pipe (\<open>M_Data\<close>, \<open>M_Send\<close>) and that of the terminator pipe
  (\<open>M_Check\<close>). In \<open>M_Write\<close> a received message is written to the stream.
\<close>

datatype main_location =
  M_Recv | M_Selected bool bool | M_Data bool | M_Send bool bytes | M_Check bool | M_Write bytes | M_Join | M_Finished

text \<open>
  The deque has its front first. A pipe is the number of 8-byte words in it. The last five fields record what has
  happened: the messages of both directions at both ends, and whether the terminator callback has run.
\<close>

record 's bridge =
  forwarder :: forwarder_location
  main_thread :: main_location
  s_message_fifo :: "bytes list"
  data_pipe :: nat
  terminator_pipe :: nat
  s_currentStream :: bool
  endpoint :: 's
  grpc_read :: "bytes list"
  rasta_sent :: "bytes list"
  rasta_received :: "bytes list"
  grpc_written :: "bytes list"
  stopped :: bool

text \<open>
  The forwarder thread, with the answer of \<open>Read\<close> as an argument. The bridge that is a gRPC client first opens the
  stream and at the end closes it. A write to a full pipe blocks: there is no step.
\<close>

definition forwarder_step :: "bool \<Rightarrow> nat \<Rightarrow> bytes option \<Rightarrow> 's bridge \<Rightarrow> 's bridge option" where
  "forwarder_step client cap answer b =
     (case forwarder b of
        F_Connect \<Rightarrow> Some (b\<lparr>forwarder := F_Read, s_currentStream := True\<rparr>)
      | F_Read \<Rightarrow>
          (case answer of
             Some m \<Rightarrow> Some (b\<lparr>forwarder := F_Push m, grpc_read := grpc_read b @ [m]\<rparr>)
           | None \<Rightarrow> Some (b\<lparr>forwarder := (if client then F_Close else F_Terminate)\<rparr>))
      | F_Push m \<Rightarrow> Some (b\<lparr>forwarder := F_Notify, s_message_fifo := m # s_message_fifo b\<rparr>)
      | F_Notify \<Rightarrow> if data_pipe b < cap then Some (b\<lparr>forwarder := F_Read, data_pipe := data_pipe b + 1\<rparr>) else None
      | F_Close \<Rightarrow> Some (b\<lparr>forwarder := F_Terminate, s_currentStream := False\<rparr>)
      | F_Terminate \<Rightarrow>
          if terminator_pipe b < cap then Some (b\<lparr>forwarder := F_Done, terminator_pipe := terminator_pipe b + 1\<rparr>) else None
      | F_Done \<Rightarrow> None)"

text \<open>
  What the main thread calls: \<open>rasta_send\<close>, \<open>rasta_disconnect\<close>, a callback of the library, \<open>rasta_recv\<close> with a message
  and \<open>rasta_recv\<close> without one.
\<close>

record 's bridge_ops =
  b_send :: "bytes \<Rightarrow> 's \<Rightarrow> (int \<times> 's) option"
  b_disconnect :: "'s \<Rightarrow> 's option"
  b_event :: "'s \<Rightarrow> 's \<Rightarrow> bool"
  b_recv :: "'s \<Rightarrow> bytes \<Rightarrow> 's \<Rightarrow> bool"
  b_lost :: "'s \<Rightarrow> bool"

text \<open>
  The main thread in \<open>processConnection\<close>. \<open>Interrupted\<close>: a callback of the library ends the loop before the events of
  the bridge are looked at. \<open>Received_Empty\<close>: a message without content ends the loop around \<open>rasta_recv\<close>.
\<close>

inductive main_step :: "'s bridge_ops \<Rightarrow> 's bridge \<Rightarrow> 's bridge \<Rightarrow> bool" for ops :: "'s bridge_ops" where
  Select: "main_thread b = M_Recv \<Longrightarrow>
    main_step ops b (b\<lparr>main_thread := M_Selected (0 < data_pipe b) (0 < terminator_pipe b)\<rparr>)"
| Library: "main_thread b = M_Selected d t \<Longrightarrow> b_event ops (endpoint b) s' \<Longrightarrow> main_step ops b (b\<lparr>endpoint := s'\<rparr>)"
| Interrupted: "main_thread b = M_Selected d t \<Longrightarrow> b_event ops (endpoint b) s' \<Longrightarrow>
    main_step ops b (b\<lparr>main_thread := M_Recv, endpoint := s'\<rparr>)"
| Data_Event: "main_thread b = M_Selected True t \<Longrightarrow>
    main_step ops b (b\<lparr>main_thread := M_Data t, data_pipe := data_pipe b - 1\<rparr>)"
| No_Data_Event: "main_thread b = M_Selected False t \<Longrightarrow> main_step ops b (b\<lparr>main_thread := M_Check t\<rparr>)"
| Take: "main_thread b = M_Data t \<Longrightarrow> s_message_fifo b \<noteq> [] \<Longrightarrow>
    main_step ops b (b\<lparr>main_thread := M_Send t (last (s_message_fifo b)), s_message_fifo := butlast (s_message_fifo b)\<rparr>)"
| Take_None: "main_thread b = M_Data t \<Longrightarrow> s_message_fifo b = [] \<Longrightarrow> main_step ops b (b\<lparr>main_thread := M_Check t\<rparr>)"
| Send: "main_thread b = M_Send t m \<Longrightarrow> b_send ops m (endpoint b) = Some (r, s') \<Longrightarrow>
    main_step ops b (b\<lparr>main_thread := M_Data t, endpoint := s', rasta_sent := rasta_sent b @ [m]\<rparr>)"
| Terminator_Event: "main_thread b = M_Check True \<Longrightarrow> b_disconnect ops (endpoint b) = Some s' \<Longrightarrow>
    main_step ops b (b\<lparr>main_thread := M_Join, terminator_pipe := terminator_pipe b - 1, endpoint := s', stopped := True\<rparr>)"
| No_Terminator_Event: "main_thread b = M_Check False \<Longrightarrow> main_step ops b (b\<lparr>main_thread := M_Recv\<rparr>)"
| Received: "main_thread b = M_Recv \<Longrightarrow> b_recv ops (endpoint b) m s' \<Longrightarrow> m \<noteq> [] \<Longrightarrow>
    main_step ops b (b\<lparr>main_thread := M_Write m, endpoint := s', rasta_received := rasta_received b @ [m]\<rparr>)"
| Received_Empty: "main_thread b = M_Recv \<Longrightarrow> b_recv ops (endpoint b) [] s' \<Longrightarrow>
    main_step ops b (b\<lparr>main_thread := M_Join, endpoint := s'\<rparr>)"
| Write: "main_thread b = M_Write m \<Longrightarrow>
    main_step ops b (b\<lparr>main_thread := M_Recv,
      grpc_written := (if s_currentStream b then grpc_written b @ [m] else grpc_written b)\<rparr>)"
| Lost: "main_thread b = M_Recv \<Longrightarrow> b_lost ops (endpoint b) \<Longrightarrow> main_step ops b (b\<lparr>main_thread := M_Join\<rparr>)"
| Join: "main_thread b = M_Join \<Longrightarrow> forwarder b = F_Done \<Longrightarrow> b_disconnect ops (endpoint b) = Some s' \<Longrightarrow>
    main_step ops b (b\<lparr>main_thread := M_Finished, endpoint := s', data_pipe := 0, terminator_pipe := 0\<rparr>)"

inductive_cases main_stepE: "main_step ops b b'"

text \<open>The beginning of \<open>processConnection\<close>: the queue is cleared and the pipes are new.\<close>

definition start_bridge :: "bool \<Rightarrow> 's \<Rightarrow> 's bridge" where
  "start_bridge client s =
     \<lparr>forwarder = (if client then F_Connect else F_Read), main_thread = M_Recv, s_message_fifo = [], data_pipe = 0,
      terminator_pipe = 0, s_currentStream = (\<not> client), endpoint = s, grpc_read = [], rasta_sent = [],
      rasta_received = [], grpc_written = [], stopped = False\<rparr>"

inductive bridge_reachable :: "'s bridge_ops \<Rightarrow> bool \<Rightarrow> nat \<Rightarrow> 's \<Rightarrow> 's bridge \<Rightarrow> bool" for ops client cap s where
  Start: "bridge_reachable ops client cap s (start_bridge client s)"
| Forwarder: "bridge_reachable ops client cap s b \<Longrightarrow> forwarder_step client cap answer b = Some b' \<Longrightarrow>
    bridge_reachable ops client cap s b'"
| Main: "bridge_reachable ops client cap s b \<Longrightarrow> main_step ops b b' \<Longrightarrow> bridge_reachable ops client cap s b'"

section \<open>Messages from gRPC to RaSTA\<close>

fun in_hand :: "main_location \<Rightarrow> bytes list" where
  "in_hand (M_Send t m) = [m]"
| "in_hand _ = []"

fun not_pushed :: "forwarder_location \<Rightarrow> bytes list" where
  "not_pushed (F_Push m) = [m]"
| "not_pushed _ = []"

definition draining :: "main_location \<Rightarrow> bool" where
  "draining l \<longleftrightarrow> (\<exists>t. l = M_Data t) \<or> (\<exists>t m. l = M_Send t m)"

text \<open>\<open>t\<close> stands for what \<open>select\<close> has reported about the terminator pipe.\<close>

fun terminator_seen :: "main_location \<Rightarrow> bool" where
  "terminator_seen (M_Selected d t) = t"
| "terminator_seen (M_Data t) = t"
| "terminator_seen (M_Send t m) = t"
| "terminator_seen (M_Check t) = t"
| "terminator_seen _ = False"

definition order_inv :: "'s bridge \<Rightarrow> bool" where
  "order_inv b \<longleftrightarrow> grpc_read b = rasta_sent b @ in_hand (main_thread b) @ rev (s_message_fifo b) @ not_pushed (forwarder b)"

definition wake_inv :: "'s bridge \<Rightarrow> bool" where
  "wake_inv b \<longleftrightarrow> draining (main_thread b) \<or> main_thread b \<in> {M_Join, M_Finished} \<or> s_message_fifo b = [] \<or>
     0 < data_pipe b \<or> forwarder b = F_Notify"

definition end_inv :: "'s bridge \<Rightarrow> bool" where
  "end_inv b \<longleftrightarrow>
     (0 < terminator_pipe b \<or> terminator_seen (main_thread b) \<or> stopped b \<longrightarrow> forwarder b = F_Done) \<and>
     (\<forall>d. main_thread b = M_Selected d True \<longrightarrow> d \<or> s_message_fifo b = []) \<and>
     (main_thread b = M_Check True \<or> stopped b \<longrightarrow> s_message_fifo b = []) \<and>
     (stopped b \<longrightarrow> main_thread b \<in> {M_Join, M_Finished}) \<and>
     (terminator_seen (main_thread b) \<longrightarrow> 0 < terminator_pipe b) \<and>
     (\<forall>t. main_thread b = M_Selected True t \<longrightarrow> 0 < data_pipe b)"

lemma rev_butlast_last: "xs \<noteq> [] \<Longrightarrow> rev xs = last xs # rev (butlast xs)"
  by (metis append_butlast_last_id rev_append rev_singleton_conv append_Cons append_Nil)

lemma order_inv_main: "main_step ops b b' \<Longrightarrow> order_inv b \<Longrightarrow> order_inv b'"
  by (induction rule: main_step.induct) (auto simp: order_inv_def rev_butlast_last)

lemma order_inv_forwarder: "forwarder_step client cap answer b = Some b' \<Longrightarrow> order_inv b \<Longrightarrow> order_inv b'"
  by (cases "forwarder b") (auto simp: order_inv_def forwarder_step_def split: option.splits if_splits)

lemma wake_inv_main: "main_step ops b b' \<Longrightarrow> wake_inv b \<Longrightarrow> wake_inv b'"
  by (induction rule: main_step.induct) (auto simp: wake_inv_def draining_def)

lemma wake_inv_forwarder: "forwarder_step client cap answer b = Some b' \<Longrightarrow> wake_inv b \<Longrightarrow> wake_inv b'"
  by (cases "forwarder b") (auto simp: wake_inv_def draining_def forwarder_step_def split: option.splits if_splits)

lemma end_inv_main: "main_step ops b b' \<Longrightarrow> wake_inv b \<Longrightarrow> end_inv b \<Longrightarrow> end_inv b'"
  by (induction rule: main_step.induct) (auto simp: end_inv_def wake_inv_def draining_def)

lemma end_inv_forwarder: "forwarder_step client cap answer b = Some b' \<Longrightarrow> end_inv b \<Longrightarrow> end_inv b'"
proof -
  assume s: "forwarder_step client cap answer b = Some b'" and i: "end_inv b"
  have kept: "main_thread b' = main_thread b" "stopped b' = stopped b" "data_pipe b \<le> data_pipe b'"
    "forwarder b \<noteq> F_Done" "terminator_pipe b' = terminator_pipe b \<or> forwarder b' = F_Done"
    using s by (auto simp: forwarder_step_def split: forwarder_location.splits option.splits if_splits)
  then have "terminator_pipe b = 0" "\<not> terminator_seen (main_thread b)" "\<not> stopped b" using i by (auto simp: end_inv_def)
  moreover from this(2) have "main_thread b \<noteq> M_Check True" "\<And>d. main_thread b \<noteq> M_Selected d True" by auto
  moreover have "\<forall>t. main_thread b = M_Selected True t \<longrightarrow> 0 < data_pipe b'" using i kept(3) unfolding end_inv_def by (meson less_le_trans)
  ultimately show "end_inv b'" using kept unfolding end_inv_def by auto
qed

lemma bridge_invariants:
  "bridge_reachable ops client cap s b \<Longrightarrow> order_inv b \<and> wake_inv b \<and> end_inv b"
proof (induction rule: bridge_reachable.induct)
  case Start
  then show ?case by (simp add: start_bridge_def order_inv_def wake_inv_def end_inv_def)
next
  case (Forwarder b answer b')
  then show ?case by (blast intro: order_inv_forwarder wake_inv_forwarder end_inv_forwarder)
next
  case (Main b b')
  then show ?case by (blast intro: order_inv_main wake_inv_main end_inv_main)
qed

lemma waiting_short: "length (in_hand l @ rev q @ not_pushed f) \<le> length q + 2"
  by (cases l rule: in_hand.cases; cases f rule: not_pushed.cases) auto

text \<open>
  C13: In every interleaving of the two threads the messages reach \<open>rasta_send\<close> in the order in which they came from the
  gRPC stream, each once and none left out. No wake-up is lost: while messages wait in the queue and the main thread
  is in \<open>rasta_recv\<close>, the data pipe is readable or the forwarder is about to write to it. When the end of the stream
  ends the loop, every message of the stream has been passed to \<open>rasta_send\<close>.
\<close>

theorem bridge_forwards_in_order:
  assumes "bridge_reachable ops client cap s b"
  shows "(\<exists>waiting. grpc_read b = rasta_sent b @ waiting \<and> length waiting \<le> length (s_message_fifo b) + 2) \<and>
    (main_thread b = M_Recv \<and> s_message_fifo b \<noteq> [] \<longrightarrow> 0 < data_pipe b \<or> forwarder b = F_Notify) \<and>
    (stopped b \<longrightarrow> rasta_sent b = grpc_read b)"
proof -
  note i = bridge_invariants [OF assms]
  then have "stopped b \<longrightarrow> rasta_sent b = grpc_read b" by (auto simp: end_inv_def order_inv_def)
  moreover have "main_thread b = M_Recv \<and> s_message_fifo b \<noteq> [] \<longrightarrow> 0 < data_pipe b \<or> forwarder b = F_Notify"
    using i by (auto simp: wake_inv_def draining_def)
  ultimately show ?thesis
    using i waiting_short [of "main_thread b" "s_message_fifo b" "forwarder b"] unfolding order_inv_def by blast
qed

section \<open>Messages from RaSTA to gRPC\<close>

text \<open>
  A bridge that is a gRPC server has its stream from the beginning and writes every message to it. A gRPC client opens
  its stream after the connection: what arrives before that is dropped.
\<close>

lemma server_bridge_writes_all:
  assumes "bridge_reachable ops False cap s b"
  shows "s_currentStream b \<and> forwarder b \<noteq> F_Close \<and> forwarder b \<noteq> F_Connect \<and>
    rasta_received b = grpc_written b @ (case main_thread b of M_Write m \<Rightarrow> [m] | _ \<Rightarrow> [])"
  using assms
proof (induction rule: bridge_reachable.induct)
  case (Forwarder b answer b')
  then show ?case by (auto simp: forwarder_step_def split: forwarder_location.splits option.splits if_splits)
next
  case (Main b b')
  from Main(2) Main(3) show ?case by (induction rule: main_step.induct) auto
qed (simp add: start_bridge_def)

lemma early_message_dropped:
  assumes "b_recv ops s m s'" and "m \<noteq> []"
  shows "\<exists>b. bridge_reachable ops True cap s b \<and> main_thread b = M_Recv \<and> rasta_received b = [m] \<and> grpc_written b = []"
proof -
  let ?b = "start_bridge True s"
  let ?c = "?b\<lparr>main_thread := M_Write m, endpoint := s', rasta_received := rasta_received ?b @ [m]\<rparr>"
  have "main_step ops ?b ?c" using assms by (intro Received) (auto simp: start_bridge_def)
  moreover have "main_step ops ?c (?c\<lparr>main_thread := M_Recv, grpc_written := (if s_currentStream ?c then grpc_written ?c @ [m] else grpc_written ?c)\<rparr>)"
    by (rule Write) simp
  ultimately have "bridge_reachable ops True cap s (?c\<lparr>main_thread := M_Recv,
      grpc_written := (if s_currentStream ?c then grpc_written ?c @ [m] else grpc_written ?c)\<rparr>)"
    by (blast intro: bridge_reachable.intros)
  then show ?thesis by (intro exI conjI, assumption) (simp_all add: start_bridge_def)
qed

section \<open>A deadlock\<close>

text \<open>
  When the connection is lost the main thread waits for the forwarder and no longer reads the data pipe. A forwarder that
  then writes to a full pipe blocks for ever: neither thread has a step.
\<close>

lemma pipe_fills:
  assumes "n \<le> cap"
  shows "\<exists>b. bridge_reachable ops False cap s b \<and> main_thread b = M_Recv \<and> forwarder b = F_Read \<and> data_pipe b = n \<and> endpoint b = s"
  using assms
proof (induction n)
  case 0
  then show ?case using Start [of ops False cap s] by (intro exI [of _ "start_bridge False s"]) (simp add: start_bridge_def)
next
  case (Suc n)
  then obtain b where b: "bridge_reachable ops False cap s b" "main_thread b = M_Recv" "forwarder b = F_Read" "data_pipe b = n"
    "endpoint b = s" by auto
  let ?b1 = "b\<lparr>forwarder := F_Push [0], grpc_read := grpc_read b @ [[0]]\<rparr>"
  let ?b2 = "?b1\<lparr>forwarder := F_Notify, s_message_fifo := [0] # s_message_fifo ?b1\<rparr>"
  let ?b3 = "?b2\<lparr>forwarder := F_Read, data_pipe := data_pipe ?b2 + 1\<rparr>"
  have "forwarder_step False cap (Some [0]) b = Some ?b1" using b(3) by (simp add: forwarder_step_def)
  moreover have "forwarder_step False cap None ?b1 = Some ?b2" by (simp add: forwarder_step_def)
  moreover have "forwarder_step False cap None ?b2 = Some ?b3" using b(4) Suc.prems by (simp add: forwarder_step_def)
  ultimately have "bridge_reachable ops False cap s ?b3" using b(1) by (blast intro: Forwarder)
  then show ?case using b by (intro exI [of _ ?b3]) simp
qed

lemma bridge_can_deadlock:
  assumes "b_lost ops s"
  shows "\<exists>b. bridge_reachable ops False cap s b \<and> main_thread b = M_Join \<and> (\<forall>b'. \<not> main_step ops b b') \<and>
    (\<forall>answer. forwarder_step False cap answer b = None)"
proof -
  obtain b where b: "bridge_reachable ops False cap s b" "main_thread b = M_Recv" "forwarder b = F_Read" "data_pipe b = cap"
    "endpoint b = s" using pipe_fills [of cap cap ops s] by auto
  let ?b1 = "b\<lparr>forwarder := F_Push [0], grpc_read := grpc_read b @ [[0]]\<rparr>"
  let ?b2 = "?b1\<lparr>forwarder := F_Notify, s_message_fifo := [0] # s_message_fifo ?b1\<rparr>"
  let ?b3 = "?b2\<lparr>main_thread := M_Join\<rparr>"
  have "forwarder_step False cap (Some [0]) b = Some ?b1" using b(3) by (simp add: forwarder_step_def)
  moreover have "forwarder_step False cap None ?b1 = Some ?b2" by (simp add: forwarder_step_def)
  moreover have "main_step ops ?b2 ?b3" using b assms by (intro Lost) auto
  ultimately have "bridge_reachable ops False cap s ?b3" using b(1) by (blast intro: Forwarder Main)
  moreover have "\<not> main_step ops ?b3 b'" for b' by (auto elim!: main_stepE)
  moreover have "forwarder_step False cap answer ?b3 = None" for answer using b(4) by (simp add: forwarder_step_def)
  ultimately show ?thesis by (intro exI [of _ ?b3]) simp
qed

section \<open>The bridge on the library\<close>

text \<open>
  The calls of the main thread on an endpoint of the default build. \<open>rasta_recv\<close> returns a message when there is one,
  into a buffer of \<open>recv_msg_size\<close> bytes; its event loop is what the other steps model.
\<close>

definition received_message :: "nat \<Rightarrow> rasta_st \<Rightarrow> bytes \<Rightarrow> rasta_st \<Rightarrow> bool" where
  "received_message recv_msg_size s m s' \<longleftrightarrow>
     sr_recv_queue_item_count (con s) \<noteq> 0 \<and> rasta_recv recv_msg_size s = Some ((int (length m), m), s')"

definition library_event :: "rasta_st \<Rightarrow> rasta_st \<Rightarrow> bool" where
  "library_event s s' \<longleftrightarrow> (\<exists>src r. fire_source src s = Some (r, s')) \<or> (\<exists>t r. fire_timer t s = Some (r, s'))"

definition rasta_ops :: "nat \<Rightarrow> rasta_st bridge_ops" where
  "rasta_ops recv_msg_size =
     \<lparr>b_send = rasta_send, b_disconnect = rasta_disconnect, b_event = library_event, b_recv = received_message recv_msg_size,
      b_lost = \<lambda>s. current_state (con s) \<noteq> RASTA_CONNECTION_UP\<rparr>"

text \<open>
  \<open>rasta_send\<close> has only queued the messages: the end of the stream disconnects at once, and what is still queued is not
  sent.
\<close>

lemma end_of_stream_drops_queue:
  assumes "main_step (rasta_ops n) b b'" and "main_thread b = M_Check True"
    and "sr_inv (endpoint b)" and "link_ok (endpoint b)" and "sockets_ok (endpoint b)"
    and "current_state (con (endpoint b)) = RASTA_CONNECTION_UP"
  shows "disconnect_sent RASTA_DISC_REASON_USERREQUEST (endpoint b) (endpoint b') \<and>
    queued (endpoint b') = queued (endpoint b) \<and> current_state (con (endpoint b')) = RASTA_CONNECTION_CLOSED"
  using assms(1,2) disconnect_drops_queue [OF assms(3-6)] by (auto elim!: main_stepE simp: rasta_ops_def)

text \<open>A run on an endpoint: one message is read, queued, notified, taken and sent, and the end of the stream stops the loop.\<close>

lemma example_bridge_run:
  assumes "b_send ops m s = Some (r, s')" and "b_disconnect ops s' = Some s''" and "0 < cap"
  shows "\<exists>b. bridge_reachable ops False cap s b \<and> stopped b \<and> grpc_read b = [m] \<and> endpoint b = s''"
proof -
  define b0 where "b0 = start_bridge False s"
  note fields = b0_def start_bridge_def forwarder_step_def
  define b1 where "b1 = b0\<lparr>forwarder := F_Push m, grpc_read := [m]\<rparr>"
  define b2 where "b2 = b1\<lparr>forwarder := F_Notify, s_message_fifo := [m]\<rparr>"
  define b3 where "b3 = b2\<lparr>forwarder := F_Read, data_pipe := 1\<rparr>"
  define b4 where "b4 = b3\<lparr>forwarder := F_Terminate\<rparr>"
  define b5 where "b5 = b4\<lparr>forwarder := F_Done, terminator_pipe := 1\<rparr>"
  have f: "forwarder_step False cap (Some m) b0 = Some b1" "forwarder_step False cap None b1 = Some b2"
    "forwarder_step False cap None b2 = Some b3" "forwarder_step False cap None b3 = Some b4"
    "forwarder_step False cap None b4 = Some b5"
    using assms(3) by (simp_all add: fields b1_def b2_def b3_def b4_def b5_def)
  have "bridge_reachable ops False cap s b5"
    by (rule Forwarder [OF Forwarder [OF Forwarder [OF Forwarder [OF Forwarder [OF
        Start [of ops False cap s, folded b0_def] f(1)] f(2)] f(3)] f(4)] f(5)])
  moreover define b6 where "b6 = b5\<lparr>main_thread := M_Selected True True\<rparr>"
  moreover define b7 where "b7 = b6\<lparr>main_thread := M_Data True, data_pipe := 0\<rparr>"
  moreover define b8 where "b8 = b7\<lparr>main_thread := M_Send True m, s_message_fifo := []\<rparr>"
  moreover define b9 where "b9 = b8\<lparr>main_thread := M_Data True, endpoint := s', rasta_sent := [m]\<rparr>"
  moreover define b10 where "b10 = b9\<lparr>main_thread := M_Check True\<rparr>"
  moreover define b11 where "b11 = b10\<lparr>main_thread := M_Join, terminator_pipe := 0, endpoint := s'', stopped := True\<rparr>"
  moreover have "main_step ops b5 b6" using Select [of b5 ops] by (simp add: b6_def b5_def b4_def b3_def b2_def b1_def fields)
  moreover have "main_step ops b6 b7" using Data_Event [of b6 True ops] by (simp add: b7_def b6_def b5_def b4_def b3_def)
  moreover have "main_step ops b7 b8" using Take [of b7 True ops] by (simp add: b8_def b7_def b6_def b5_def b4_def b3_def b2_def)
  moreover have "main_step ops b8 b9"
    using Send [of b8 True m ops r s'] assms(1) by (simp add: b9_def b8_def b7_def b6_def b5_def b4_def b3_def b2_def b1_def fields)
  moreover have "main_step ops b9 b10" using Take_None [of b9 True ops] by (simp add: b10_def b9_def b8_def)
  moreover have "main_step ops b10 b11"
    using Terminator_Event [of b10 ops s''] assms(2)
    by (simp add: b11_def b10_def b9_def b8_def b7_def b6_def b5_def)
  ultimately have "bridge_reachable ops False cap s b11" by (meson Main)
  then show ?thesis
    by (intro exI [of _ b11]) (simp add: b11_def b10_def b9_def b8_def b7_def b6_def b5_def b4_def b3_def b2_def b1_def)
qed

theorem bridge_forwards_in_order_witness:
  "\<exists>b. bridge_reachable (rasta_ops 500) False 8192 example_st b \<and> stopped b \<and> rasta_sent b = [[65]] \<and>
     queued (endpoint b) = queued example_st @ [[65]]"
proof -
  have "message_fits (cfg example_st) [65]" "0 < send_room example_st" "current_state (con example_st) = RASTA_CONNECTION_UP"
    by (simp_all add: message_fits_def send_room_def example_defs)
  then obtain s' where s': "rasta_send [65] example_st = Some (0, s')" "queued s' = queued example_st @ [[65]]"
    "send_view s' = send_view example_st" "sr_inv s'" using rasta_send_accepts [OF example_sr_inv] by blast
  have "link_ok s'" "sockets_ok s'" "current_state (con s') = RASTA_CONNECTION_UP"
    using send_view_parts [OF s'(3)] example_link_ok example_sockets_ok by (simp_all add: link_ok_def sockets_ok_def example_defs)
  then obtain s'' where s'': "rasta_disconnect s' = Some s''" "queued s'' = queued s'"
    using disconnect_drops_queue [OF s'(4)] by blast
  obtain b where b: "bridge_reachable (rasta_ops 500) False 8192 example_st b" "stopped b" "grpc_read b = [[65]]" "endpoint b = s''"
    using example_bridge_run [of "rasta_ops 500" "[65]" example_st 0 s' s'' 8192] s'(1) s''(1) by (auto simp: rasta_ops_def)
  then show ?thesis using bridge_forwards_in_order [OF b(1)] s'(2) s''(2) by auto
qed

end
