(* ===== verification/Rasta_Bridge_Main.thy ===== *)
theory Rasta_Bridge_Main
  imports Rasta_Bridge
begin

text \<open>
  The rest of the gRPC bridge: \<open>processRasta\<close>, the gRPC service and \<open>main\<close>. An exception that is not caught and
  undefined behaviour are \<open>None\<close>; so is a loop that does not end. \<open>process\<close> is \<open>processConnection\<close> run to its end, with
  the size of the receive buffer; its threads are in \<open>Rasta_Bridge\<close>.
\<close>

section \<open>Numbers on the command line\<close>

text \<open>\<open>isspace\<close> in the C locale.\<close>

definition isspace :: "char \<Rightarrow> bool" where
  "isspace c \<longleftrightarrow> c = CHR '' '' \<or> (9 \<le> (of_char c :: nat) \<and> (of_char c :: nat) \<le> 13)"

text \<open>An optional sign and the digits after it.\<close>

definition sign_and_digits :: "string \<Rightarrow> bool \<times> string" where
  "sign_and_digits s =
     (case dropWhile isspace s of
        c # cs \<Rightarrow> if c = CHR ''-'' then (True, takeWhile isdigit cs)
                   else if c = CHR ''+'' then (False, takeWhile isdigit cs) else (False, takeWhile isdigit (c # cs))
      | [] \<Rightarrow> (False, []))"

text \<open>\<open>std::stoul\<close> and \<open>std::stoi\<close> stop at the first character that is not a digit; a negative number wraps around.\<close>

definition stoul :: "string \<Rightarrow> u64 option" where
  "stoul s = (case sign_and_digits s of (neg, ds) \<Rightarrow>
     if ds = [] \<or> number_value 10 ds \<ge> 2 ^ 64 then None
     else Some (if neg then - of_nat (number_value 10 ds) else of_nat (number_value 10 ds)))"

definition stoi :: "string \<Rightarrow> int option" where
  "stoi s = (case sign_and_digits s of (neg, ds) \<Rightarrow>
     let n = (if neg then - int (number_value 10 ds) else int (number_value 10 ds))
     in if ds = [] \<or> n < - (2 ^ 31) \<or> n \<ge> 2 ^ 31 then None else Some n)"

section \<open>Configuration\<close>

record bridge_args =
  config_file :: string
  channel1_address :: string
  channel1_port :: string
  channel2_address :: string
  channel2_port :: string
  local_id_arg :: string
  target_id_arg :: string

text \<open>
  The first two entries of the remote connections are overwritten, whether the file had two or not; an address has room
  for 15 characters.
\<close>

definition bridge_config :: "bridge_args \<Rightarrow> u32 \<Rightarrow> rasta_config_info \<Rightarrow> rasta_config_info option" where
  "bridge_config a s_remote_id config = do {
     let nchannels = (if length (connections (redundancy config)) < 2 then length (connections (redundancy config)) else 2);
     let data = connections (redundancy_remote config);
     if length data < 2 \<or> length (channel1_address a) > 15 \<or> length (channel2_address a) > 15 then None
     else do {
       port1 \<leftarrow> stoi (channel1_port a);
       port2 \<leftarrow> stoi (channel2_port a);
       let data = data[0 := \<lparr>ip = channel1_address a, ip_port = port1\<rparr>, 1 := \<lparr>ip = channel2_address a, ip_port = port2\<rparr>];
       Some (config\<lparr>redundancy_remote := (redundancy_remote config)\<lparr>connections := take nchannels data\<rparr>,
         general := (general config)\<lparr>rasta_id_remote := ucast s_remote_id\<rparr>\<rparr>)
     }
   }"

section \<open>Connections\<close>

partial_function (option) server_loop ::
  "('c, 'a, 's) library \<Rightarrow> ('s \<Rightarrow> 's option) \<Rightarrow> 's \<Rightarrow> 's option" where
  "server_loop lib process s = do {
     (c, s) \<leftarrow> lib_accept lib s;
     s \<leftarrow> (if c then process s else Some s);
     server_loop lib process s
   }"

text \<open>An attempt that fails is not cleaned up.\<close>

partial_function (option) client_loop ::
  "('c, 'a, 's) library \<Rightarrow> 'c \<Rightarrow> ('s \<Rightarrow> 's option) \<Rightarrow> bool \<Rightarrow> 's \<Rightarrow> (bool \<times> 's) option" where
  "client_loop lib config process retry s = do {
     s \<leftarrow> lib_init lib config s;
     (b, s) \<leftarrow> lib_bind lib s;
     if \<not> b then do { s \<leftarrow> lib_cleanup lib s; Some (False, s) }
     else do {
       (c, s) \<leftarrow> lib_connect lib s;
       if c then do {
         s \<leftarrow> process s;
         s \<leftarrow> lib_cleanup lib s;
         Some (True, s)
       }
       else if retry then client_loop lib config process retry s
       else Some (False, s)
     }
   }"

definition processRasta ::
  "(string \<Rightarrow> (rasta_config_info \<times> u32) option) \<Rightarrow> (rasta_config_info, 'a, 's) library \<Rightarrow> (nat \<Rightarrow> 's \<Rightarrow> 's option) \<Rightarrow>
   bridge_args \<Rightarrow> bool \<Rightarrow> 's \<Rightarrow> (bool \<times> 's) option" where
  "processRasta load lib process a retry s = do {
     local_id \<leftarrow> stoul (local_id_arg a);
     target \<leftarrow> stoul (target_id_arg a);
     let s_remote_id = (ucast target :: u32);
     (config, recv_msg_size) \<leftarrow> load (config_file a);
     config \<leftarrow> bridge_config a s_remote_id config;
     if local_id > ucast s_remote_id then do {
       s \<leftarrow> lib_init lib config s;
       (b, s) \<leftarrow> lib_bind lib s;
       if \<not> b then do { s \<leftarrow> lib_cleanup lib s; Some (False, s) }
       else do {
         s \<leftarrow> lib_listen lib s;
         s \<leftarrow> server_loop lib (process (unat recv_msg_size)) s;
         s \<leftarrow> lib_cleanup lib s;
         Some (True, s)
       }
     }
     else client_loop lib config (process (unat recv_msg_size)) retry s
   }"

datatype grpc_status = GRPC_OK | GRPC_CANCELLED

definition Stream ::
  "(string \<Rightarrow> (rasta_config_info \<times> u32) option) \<Rightarrow> (rasta_config_info, 'a, 's) library \<Rightarrow> (nat \<Rightarrow> 's \<Rightarrow> 's option) \<Rightarrow>
   bridge_args \<Rightarrow> 's \<Rightarrow> (grpc_status \<times> 's) option" where
  "Stream load lib process a s = do {
     (success, s) \<leftarrow> processRasta load lib process a False s;
     Some (if success then GRPC_OK else GRPC_CANCELLED, s)
   }"

datatype bridge_mode = Bridge_Exit int | Grpc_Server string bridge_args | Grpc_Client string bridge_args

text \<open>\<open>main\<close> up to the choice of the mode; \<open>stat\<close> says whether the configuration file exists.\<close>

definition bridge_mode_of :: "(string \<Rightarrow> bool) \<Rightarrow> string list \<Rightarrow> bridge_mode" where
  "bridge_mode_of stat argv =
     (if length argv < 9 then Bridge_Exit 1
      else if \<not> stat (argv ! 1) then Bridge_Exit 1
      else
        let a = \<lparr>config_file = argv ! 1, channel1_address = argv ! 3, channel1_port = argv ! 4, channel2_address = argv ! 5,
              channel2_port = argv ! 6, local_id_arg = argv ! 7, target_id_arg = argv ! 8\<rparr>;
            grpc_server_address = (if length argv \<ge> 10 then argv ! 9 else [])
        in if length grpc_server_address = 0 then Grpc_Server (argv ! 2) a else Grpc_Client grpc_server_address a)"

text \<open>The bridge that is a gRPC server calls \<open>Stream\<close> for each client and does not end.\<close>

definition bridge_main ::
  "(string \<Rightarrow> bool) \<Rightarrow> (string \<Rightarrow> (rasta_config_info \<times> u32) option) \<Rightarrow> (rasta_config_info, 'a, 's) library \<Rightarrow>
   (nat \<Rightarrow> 's \<Rightarrow> 's option) \<Rightarrow> string list \<Rightarrow> 's \<Rightarrow> (int \<times> 's) option" where
  "bridge_main stat load lib process argv s =
     (case bridge_mode_of stat argv of
        Bridge_Exit status \<Rightarrow> Some (status, s)
      | Grpc_Server server_address a \<Rightarrow> None
      | Grpc_Client grpc_server_address a \<Rightarrow> do { (_, s) \<leftarrow> processRasta load lib process a True s; Some (0, s) })"

section \<open>Roles\<close>

text \<open>
  Two bridges with each other's identifiers take different roles, if the identifiers are different and have 32 bits.
  With equal identifiers both are clients; a local identifier of more than 32 bits makes both servers.
\<close>

definition bridge_is_server :: "u64 \<Rightarrow> u64 \<Rightarrow> bool" where
  "bridge_is_server local_id target \<longleftrightarrow> local_id > ucast (ucast target :: u32)"

lemma ucast_ucast_32: "x < 2 ^ 32 \<Longrightarrow> ucast (ucast x :: u32) = (x :: u64)"
proof -
  assume "x < 2 ^ 32"
  then have "unat x < 2 ^ 32" by (simp add: word_less_nat_alt)
  then have "unat (ucast (ucast x :: u32) :: u64) = unat x"
    by (simp add: unsigned_ucast_eq unsigned_take_bit_eq take_bit_nat_eq_self_iff)
  then show ?thesis by (simp add: unsigned_word_eqI)
qed

lemma roles_complementary:
  "a < 2 ^ 32 \<Longrightarrow> b < 2 ^ 32 \<Longrightarrow> a \<noteq> b \<Longrightarrow> bridge_is_server a b \<longleftrightarrow> \<not> bridge_is_server b a"
  by (auto simp: bridge_is_server_def ucast_ucast_32)

lemma roles_of_wide_ids: "bridge_is_server (2 ^ 32 + 1) 2 \<and> bridge_is_server 2 (2 ^ 32 + 1)"
  by (simp add: bridge_is_server_def)

section \<open>What the bridge does\<close>

text \<open>
  The library asserts that both ends have the same number of connections. A file with more than two local connections
  therefore does not work with the bridge, which leaves two remote ones.
\<close>

lemma init_needs_equal_counts:
  assumes "rasta_lib_init_configuration junk config blank = Some s"
  shows "length (connections (redundancy_remote config)) = length (connections (redundancy config))"
proof -
  have frame: "port_count (mux t) = port_count (mux u)" "cfg t = cfg u" if "create_sockets_loop is u = Some t" for "is" t u
  proof -
    have "transport_view t = transport_view u"
      using create_sockets_loop_frame [OF that] by (simp add: quiet_frame_def transport_frame_def)
    then have "mux t\<lparr>transport_sockets := []\<rparr> = mux u\<lparr>transport_sockets := []\<rparr>" "cfg t = cfg u"
      by (auto simp: transport_view_def dest: arg_cong [where f = mux] arg_cong [where f = cfg])
    then show "port_count (mux t) = port_count (mux u)" "cfg t = cfg u" by (auto dest: arg_cong [where f = port_count])
  qed
  show ?thesis
    using assms
    by (auto simp: rasta_lib_init_configuration_def redundancy_mux_alloc_def redundancy_mux_allocate_channels_def bind_eq_Some_conv
        Let_def frame split: if_splits)
qed

lemma three_channels_abort:
  assumes "bridge_config a rid config = Some config'" and "length (connections (redundancy config)) > 2"
  shows "rasta_lib_init_configuration junk config' blank = None"
proof -
  have "length (connections (redundancy_remote config')) = 2" "redundancy config' = redundancy config"
    using assms by (auto simp: bridge_config_def bind_eq_Some_conv Let_def min_def split: if_splits)
  then show ?thesis using init_needs_equal_counts [of junk config' blank] assms(2) by (cases "rasta_lib_init_configuration junk config' blank") auto
qed

text \<open>A server never comes back from \<open>processRasta\<close>: the gRPC call that started it is not answered, and no other is served.\<close>

lemma server_loop_never_returns: "server_loop lib process s = None"
proof -
  have False if "server_loop lib process s = Some r" for r
    using that by (induction rule: server_loop.raw_induct [rotated, consumes 1]) (auto simp: bind_eq_Some_conv)
  then show ?thesis by (cases "server_loop lib process s") auto
qed

lemma stream_of_server_never_ends:
  assumes "stoul (local_id_arg a) = Some local_id" and "stoul (target_id_arg a) = Some target" and "bridge_is_server local_id target"
    and "load (config_file a) = Some (config, n)" and "bridge_config a (ucast target) config = Some config'"
    and "lib_init lib config' s = Some t" and "lib_bind lib t = Some (True, u)"
  shows "Stream load lib process a s = None"
  using assms by (simp add: Stream_def processRasta_def bridge_is_server_def server_loop_never_returns split: Option.bind_split)

text \<open>A client that does not retry makes one attempt.\<close>

lemma stream_of_client_cancelled:
  assumes "stoul (local_id_arg a) = Some local_id" and "stoul (target_id_arg a) = Some target" and "\<not> bridge_is_server local_id target"
    and "load (config_file a) = Some (config, n)" and "bridge_config a (ucast target) config = Some config'"
    and "lib_init lib config' s = Some t" and "lib_bind lib t = Some (True, u)" and "lib_connect lib u = Some (False, v)"
  shows "Stream load lib process a s = Some (GRPC_CANCELLED, v)"
  using assms by (simp add: Stream_def processRasta_def bridge_is_server_def client_loop.simps)

lemma bridge_config_example:
  "map_option (\<lambda>c. (connections (redundancy_remote c), rasta_id_remote (general c)))
     (bridge_config \<lparr>config_file = ''rasta.cfg'', channel1_address = ''10.0.0.1'', channel1_port = ''8888'',
        channel2_address = ''10.0.1.1'', channel2_port = '' +8889x'', local_id_arg = ''97'', target_id_arg = ''96''\<rparr> 96 example_config) =
   Some ([\<lparr>ip = ''10.0.0.1'', ip_port = 8888\<rparr>, \<lparr>ip = ''10.0.1.1'', ip_port = 8889\<rparr>], 96)"
  by (simp add: bridge_config_def example_config_def stoi_def sign_and_digits_def isspace_def isdigit_def number_value_def
      digit_value_def)

end
