(* ===== verification/Rasta_Config_Kex.thy ===== *)
theory Rasta_Config_Kex
  imports Rasta_Bridge_Main
begin

text \<open>
  The settings for key exchange in the configuration file (\<open>config_setstd\<close> of \<open>examples/common/c/configfile.c\<close> in the
  build with \<open>ENABLE_OPAQUE\<close>), and the program that prints user records for it (\<open>examples/rcat/c/record_generator.c\<close>).
  \<open>n\<close> is \<open>OPAQUE_USER_RECORD_LEN\<close>.
\<close>

section \<open>Reading\<close>

definition KEX_PSK_MAX :: nat where
  "KEX_PSK_MAX = 128"

definition USER_RECORD_HEADER :: string where
  "USER_RECORD_HEADER = ''URV1''"

definition KEX_MODE_OPAQUE :: string where
  "KEX_MODE_OPAQUE = ''KEY_EXCHANGE_MODE_OPAQUE''"

text \<open>An unknown mode aborts; only as many characters are compared as the name has.\<close>

definition config_kex_mode :: "Dictionary \<Rightarrow> KEY_EXCHANGE_MODE option" where
  "config_kex_mode d = do {
     entr \<leftarrow> config_get d ''RASTA_KEX_MODE'';
     (case entr of
        DICTIONARY_STRING s \<Rightarrow>
          if take (length KEX_MODE_OPAQUE) s = KEX_MODE_OPAQUE then Some KEY_EXCHANGE_MODE_OPAQUE else None
      | _ \<Rightarrow> Some KEY_EXCHANGE_MODE_NONE)
   }"

text \<open>
  The array up to the terminator of the string; 128 bytes are copied over the terminator that was written before. Without
  the setting the array is zeroed.
\<close>

definition config_kex_psk :: "Dictionary \<Rightarrow> bytes option" where
  "config_kex_psk d = do {
     entr \<leftarrow> config_get d ''RASTA_KEX_PSK'';
     Some (case entr of DICTIONARY_STRING s \<Rightarrow> take KEX_PSK_MAX (map of_char s @ [0]) | _ \<Rightarrow> replicate KEX_PSK_MAX 0)
   }"

text \<open>The number is an \<open>int\<close>, which is extended with its sign.\<close>

definition config_kex_interval :: "Dictionary \<Rightarrow> u64 option" where
  "config_kex_interval d = do {
     entr \<leftarrow> config_get d ''RASTA_KEX_REKEYING_INTERVAL_MS'';
     Some (case entr of DICTIONARY_NUMBER n \<Rightarrow> scast n | _ \<Rightarrow> 0)
   }"

definition hex_digit :: "char \<Rightarrow> nat option" where
  "hex_digit c = (let v = of_char c :: nat in
     if 48 \<le> v \<and> v \<le> 57 then Some (v - 48)
     else if 97 \<le> v \<and> v \<le> 102 then Some (v - 87)
     else if 65 \<le> v \<and> v \<le> 70 then Some (v - 55) else None)"

text \<open>
  The loop over the record, two characters at a time; the last one may be alone. What \<open>sscanf\<close> makes of other characters
  than digits is not modelled (\<open>None\<close>).
\<close>

fun scan_record :: "string \<Rightarrow> bytes option" where
  "scan_record [] = Some []"
| "scan_record [c] = do { x \<leftarrow> hex_digit c; Some [of_nat x] }"
| "scan_record (c # d # cs) = do {
     x \<leftarrow> hex_digit c;
     y \<leftarrow> hex_digit d;
     bs \<leftarrow> scan_record cs;
     Some (of_nat (16 * x + y) # bs)
   }"

text \<open>
  A wrong length is only reported. A record that is too long is written past the end of the array, and one that is too
  short leaves zeros.
\<close>

definition config_kex_record :: "nat \<Rightarrow> Dictionary \<Rightarrow> (bool \<times> bytes) option" where
  "config_kex_record n d = do {
     entr \<leftarrow> config_get d ''RASTA_KEX_PSK_RECORD'';
     (case entr of
        DICTIONARY_STRING s \<Rightarrow>
          if take (length USER_RECORD_HEADER) s \<noteq> USER_RECORD_HEADER then None
          else do {
            bs \<leftarrow> scan_record (drop (length USER_RECORD_HEADER) s);
            if length bs > n then None else Some (True, bs @ replicate (n - length bs) 0)
          }
      | _ \<Rightarrow> Some (False, replicate n 0))
   }"

definition config_kex :: "nat \<Rightarrow> Dictionary \<Rightarrow> (KEY_EXCHANGE_MODE \<times> RastaConfigKex) option" where
  "config_kex n d = do {
     mode \<leftarrow> config_kex_mode d;
     secret \<leftarrow> config_kex_psk d;
     interval \<leftarrow> config_kex_interval d;
     (has_record, rec) \<leftarrow> config_kex_record n d;
     Some (mode, \<lparr>psk = secret, rekeying_interval_ms = interval, has_psk_record = has_record, psk_record = rec\<rparr>)
   }"

section \<open>Printing\<close>

definition hex_char :: "nat \<Rightarrow> char" where
  "hex_char x = (if x < 10 then char_of (48 + x) else char_of (87 + x))"

text \<open>The format \<open>%02x\<close>.\<close>

definition print_byte :: "u8 \<Rightarrow> string" where
  "print_byte b = [hex_char (unat b div 16), hex_char (unat b mod 16)]"

definition MAX_PASSWORD_LENGTH :: nat where
  "MAX_PASSWORD_LENGTH = 128"

text \<open>\<open>strtol\<close> with base 16: the value, limited to the range of \<open>long\<close>, and what is left of the string.\<close>

definition is_hex :: "char \<Rightarrow> bool" where
  "is_hex c \<longleftrightarrow> hex_digit c \<noteq> None"

fun hex_value :: "nat \<Rightarrow> string \<Rightarrow> nat" where
  "hex_value n [] = n"
| "hex_value n (c # cs) = (case hex_digit c of None \<Rightarrow> n | Some x \<Rightarrow> hex_value (16 * n + x) cs)"

definition skip_sign :: "string \<Rightarrow> bool \<times> string" where
  "skip_sign s = (case s of c # cs \<Rightarrow> if c = CHR ''-'' then (True, cs) else if c = CHR ''+'' then (False, cs) else (False, s) | [] \<Rightarrow> (False, s))"

definition skip_0x :: "string \<Rightarrow> string" where
  "skip_0x s = (case s of a # b # c # cs \<Rightarrow>
     if a = CHR ''0'' \<and> (b = CHR ''x'' \<or> b = CHR ''X'') \<and> is_hex c then c # cs else s | _ \<Rightarrow> s)"

definition strtol16 :: "string \<Rightarrow> int \<times> string" where
  "strtol16 s =
     (case skip_sign (dropWhile isspace s) of (neg, t) \<Rightarrow>
        let t = skip_0x t; n = int (hex_value 0 t)
        in if takeWhile is_hex t = [] then (0, s)
           else (if neg then max (- n) (- (2 ^ 63)) else min n (2 ^ 63 - 1), dropWhile is_hex t))"

text \<open>
  The options as \<open>getopt\<close> returns them, in order, with their arguments; any other character is an option it does not
  know. \<open>None\<close> is a call of \<open>usage\<close>, which ends the program with status 1.
\<close>

record generator_options =
  gen_my_id :: int
  gen_remote_id :: int
  gen_passphrase :: "string option"

fun generator_getopt :: "(char \<times> string) list \<Rightarrow> generator_options \<Rightarrow> generator_options option" where
  "generator_getopt [] g = Some g"
| "generator_getopt ((opt, optarg) # opts) g =
     (if opt = CHR ''m'' then
        (case strtol16 optarg of (v, rest) \<Rightarrow> if rest \<noteq> [] then None else generator_getopt opts (g\<lparr>gen_my_id := v\<rparr>))
      else if opt = CHR ''r'' then
        (case strtol16 optarg of (v, rest) \<Rightarrow> if rest \<noteq> [] then None else generator_getopt opts (g\<lparr>gen_remote_id := v\<rparr>))
      else if opt = CHR ''p'' then generator_getopt opts (g\<lparr>gen_passphrase := Some optarg\<rparr>)
      else None)"

text \<open>
  The exit status and the output. A passphrase from standard input is one line of at most 127 characters without its
  newline. The identifiers are cut to 32 bits by the call.
\<close>

definition record_generator :: "libopaque \<Rightarrow> (char \<times> string) list \<Rightarrow> string \<Rightarrow> kex_st \<Rightarrow> ((int \<times> string) \<times> kex_st) option" where
  "record_generator lib opts input k =
     (case generator_getopt opts \<lparr>gen_my_id = -1, gen_remote_id = -1, gen_passphrase = None\<rparr> of
        None \<Rightarrow> Some ((1, []), k)
      | Some g \<Rightarrow>
          (case (case gen_passphrase g of
                   Some p \<Rightarrow> Some p
                 | None \<Rightarrow> if input = [] then None
                           else Some (takeWhile (\<lambda>c. c \<noteq> newline) (fst (fgets (MAX_PASSWORD_LENGTH - 1) input)))) of
             None \<Rightarrow> Some ((1, []), k)
           | Some passphrase \<Rightarrow>
               if gen_my_id g = -1 \<or> gen_remote_id g = -1 then Some ((1, []), k)
               else do {
                 (ret, k) \<leftarrow> key_exchange_prepare_from_psk lib (map of_char passphrase @ [0])
                   (of_int (gen_my_id g)) (of_int (gen_remote_id g)) k;
                 Some (if ret \<noteq> 0 then ((1, []), k)
                       else ((0, USER_RECORD_HEADER @ concat (map print_byte (user_record (kex_state k)))), k))
               }))"

section \<open>The record is read back\<close>

lemma of_char_zero_iff: "(of_char c :: u8) = 0 \<longleftrightarrow> c = CHR 0x00"
proof
  assume "(of_char c :: u8) = 0"
  then have "(of_nat (of_char c) :: u8) = 0" by (simp add: of_nat_of_char)
  then have "unat (of_nat (of_char c) :: u8) = 0" by (simp only: unat_0)
  then have "(of_char c :: nat) mod 256 = 0" by (simp only: unat_of_nat) simp
  then have "(of_char c :: nat) = of_char (CHR 0x00)" by (simp add: of_char_mod_256)
  then show "c = CHR 0x00" by (simp only: of_char_eq_iff)
qed simp

lemma hex_char_digit: "x < 16 \<Longrightarrow> hex_digit (hex_char x) = Some x"
  by (auto simp: hex_char_def hex_digit_def of_char_of take_bit_nat_eq_self Let_def)

lemma scan_printed: "scan_record (concat (map print_byte bs)) = Some bs"
proof (induction bs)
  case (Cons b bs)
  have "unat b div 16 < 16" using unsigned_less [of b, where 'a = nat] by simp
  moreover have "of_nat (16 * (unat b div 16) + unat b mod 16) = b" by (simp only: mult_div_mod_eq) simp
  ultimately show ?case using Cons by (simp add: print_byte_def hex_char_digit del: of_nat_add of_nat_mult)
qed simp

text \<open>
  The user record that the generator prints for a server, a client and a passphrase is read from the configuration
  file as the record that registration returned for them.
\<close>

lemma generated_record_loads:
  assumes "strtol16 m = (me, [])" and "strtol16 r = (remote, [])" and "me \<noteq> -1" and "remote \<noteq> -1"
    and "opaque_Register lib (lib_calls k) (map of_char secret) (rasta_ids_to_opaque_ids (htobe32 (of_int me)) (htobe32 (of_int remote))) = (0, rec)"
    and "CHR 0x00 \<notin> set secret" and "length rec = USER_RECORD_LEN lib"
    and "record_generator lib [(CHR ''m'', m), (CHR ''r'', r), (CHR ''p'', secret)] input k = Some ((status, output), k')"
    and "config_get d ''RASTA_KEX_PSK_RECORD'' = Some (DICTIONARY_STRING output)"
  shows "status = 0 \<and> config_kex_record (USER_RECORD_LEN lib) d = Some (True, rec)"
proof -
  have "\<forall>c \<in> set secret. (of_char c :: u8) \<noteq> 0" using assms(6) by (metis of_char_zero_iff)
  then have "takeWhile (\<lambda>x. x \<noteq> 0) (map of_char secret @ [0 :: u8]) = map of_char secret"
    by (subst takeWhile_append2) auto
  then have l: "strlen (map of_char secret @ [0]) = Some (length secret)" by (simp add: strlen_def)
  have "status = 0 \<and> output = USER_RECORD_HEADER @ concat (map print_byte rec)"
    using assms(1-5,8) by (auto simp: record_generator_def key_exchange_prepare_from_psk_def l map_kex_def)
  then show ?thesis using assms(7,9) by (simp add: config_kex_record_def scan_printed)
qed

end
