(* ===== verification/Rasta_Config_Roundtrip.thy ===== *)
theory Rasta_Config_Roundtrip
  imports Rasta_Configfile
begin

text \<open>
  The configuration reader gets back what a printer writes: numbers, texts and arrays of texts under
  distinct or repeated keys. Also: what happens to keys that are too long and addresses that are wrong.
\<close>

section \<open>Printing\<close>

fun decimal :: "nat \<Rightarrow> string" where
  "decimal n = (if n < 10 then [char_of (48 + n)] else decimal (n div 10) @ [char_of (48 + n mod 10)])"

declare decimal.simps [simp del]

definition quoted :: "string \<Rightarrow> string" where
  "quoted s = CHR 0x22 # s @ [CHR 0x22]"

fun print_elements :: "string option list \<Rightarrow> string" where
  "print_elements [] = []"
| "print_elements [s] = quoted (the s)"
| "print_elements (s # t # ss) = quoted (the s) @ CHR '';'' # print_elements (t # ss)"

fun print_value :: "DictionaryValue \<Rightarrow> string" where
  "print_value (DICTIONARY_NUMBER n) =
     (if sint n < 0 then CHR ''-'' # decimal (nat (- sint n)) else decimal (nat (sint n)))"
| "print_value (DICTIONARY_STRING s) = quoted s"
| "print_value (DICTIONARY_ARRAY a) = CHR ''{'' # print_elements a @ [CHR ''}'']"
| "print_value DICTIONARY_ERROR = []"

definition print_line :: "string \<times> DictionaryValue \<Rightarrow> string" where
  "print_line = (\<lambda>(k, v). k @ '' = '' @ print_value v @ [newline])"

text \<open>What can be written: the smallest \<open>int\<close> is missing, because \<open>atoi\<close> does not read its absolute value.\<close>

definition text_ok :: "string \<Rightarrow> bool" where
  "text_ok s \<longleftrightarrow> length s < MAX_DICTIONARY_STRING_LENGTH_BYTES \<and> (\<forall>c \<in> set s. c \<notin> {CHR 0x22, newline, CHR 0x00})"

fun value_ok :: "DictionaryValue \<Rightarrow> bool" where
  "value_ok (DICTIONARY_NUMBER n) \<longleftrightarrow> sint n \<noteq> - (2 ^ 31)"
| "value_ok (DICTIONARY_STRING s) \<longleftrightarrow> text_ok s"
| "value_ok (DICTIONARY_ARRAY a) \<longleftrightarrow> a \<noteq> [] \<and> (\<forall>s \<in> set a. s \<noteq> None \<and> text_ok (the s))"
| "value_ok DICTIONARY_ERROR \<longleftrightarrow> False"

definition line_ok :: "string \<times> DictionaryValue \<Rightarrow> bool" where
  "line_ok = (\<lambda>(k, v). k \<noteq> [] \<and> length k < 256 \<and> (\<forall>c \<in> set k. is_ident c) \<and> uppercase k = k \<and> value_ok v \<and>
     length (print_line (k, v)) < CONFIG_BUFFER_LENGTH)"

section \<open>Numbers\<close>

lemma digit_char: "n < 10 \<Longrightarrow> isdigit (char_of (48 + n))" "n < 10 \<Longrightarrow> digit_value (char_of (48 + n)) = n"
  by (auto simp: isdigit_def digit_value_def)

lemma decimal_digits: "\<forall>c \<in> set (decimal n). isdigit c" "decimal n \<noteq> []"
  by (induction n rule: decimal.induct) (subst decimal.simps; auto simp: digit_char)+

lemma number_value_snoc: "number_value b (s @ [c]) = b * number_value b s + digit_value c"
  by (simp add: number_value_def)

lemma number_value_decimal: "number_value 10 (decimal n) = n"
proof (induction n rule: decimal.induct)
  case (1 n)
  then show ?case by (subst decimal.simps) (simp add: number_value_snoc digit_char, simp add: number_value_def digit_char)
qed

lemma length_decimal: "n < 10 ^ Suc k \<Longrightarrow> length (decimal n) \<le> Suc k"
proof (induction k arbitrary: n)
  case (Suc k)
  have "n div 10 < 10 ^ Suc k" using Suc.prems by (simp add: div_less_iff_less_mult)
  with Suc.IH [of "n div 10"] show ?case by (subst decimal.simps) simp
qed (subst decimal.simps, simp)

section \<open>Reading\<close>

text \<open>The parser is at the first of the characters \<open>cs\<close>, which end the line.\<close>

definition reads :: "LineParser \<Rightarrow> string \<Rightarrow> bool" where
  "reads p cs \<longleftrightarrow> cs \<noteq> [] \<and> drop (lp_pos p) (lp_buf p) = cs \<and> length (lp_buf p) < CONFIG_BUFFER_LENGTH \<and>
     lp_current p = hd cs"

lemma reads_current [simp]: "reads p (c # cs) \<Longrightarrow> lp_current p = c"
  by (simp add: reads_def)

lemma next_reads:
  assumes "reads p (c # cs)" and "cs \<noteq> []" and "hd cs \<noteq> newline"
  obtains q where "parser_next p = (True, q)" "reads q cs"
proof -
  have d: "drop (lp_pos p) (lp_buf p) = c # cs" and l: "length (lp_buf p) < CONFIG_BUFFER_LENGTH"
    using assms(1) by (simp_all add: reads_def del: reads_current)
  have "drop (1 + lp_pos p) (lp_buf p) = drop 1 (c # cs)" unfolding d [symmetric] drop_drop ..
  then have e: "drop (Suc (lp_pos p)) (lp_buf p) = cs" by simp
  then have "\<not> length (lp_buf p) \<le> Suc (lp_pos p)" using assms(2) by auto
  moreover from this have "lp_buf p ! Suc (lp_pos p) = hd cs" using e hd_drop_conv_nth [of "Suc (lp_pos p)" "lp_buf p"] by simp
  ultimately show thesis
    using that [of "p\<lparr>lp_pos := Suc (lp_pos p), lp_current := hd cs\<rparr>"] e l assms(2,3)
    by (simp add: parser_next_def reads_def del: reads_current)
qed

lemma next_ends:
  assumes "reads p [c, newline]"
  obtains q where "parser_next p = (False, q)"
proof -
  have d: "drop (lp_pos p) (lp_buf p) = [c, newline]" using assms by (simp add: reads_def del: reads_current)
  have "drop (1 + lp_pos p) (lp_buf p) = drop 1 [c, newline]" unfolding d [symmetric] drop_drop ..
  then have e: "drop (Suc (lp_pos p)) (lp_buf p) = [newline]" by simp
  then have "\<not> length (lp_buf p) \<le> Suc (lp_pos p)" by auto
  then have "lp_buf p ! Suc (lp_pos p) = newline" using e hd_drop_conv_nth [of "Suc (lp_pos p)" "lp_buf p"] by simp
  with that show thesis by (simp add: parser_next_def Let_def)
qed

lemma not_newline: "is_ident c \<Longrightarrow> c \<noteq> newline" "isdigit c \<Longrightarrow> c \<noteq> newline" "isdigit c \<Longrightarrow> is_ident c" "\<not> is_ident newline"
  by (auto simp: is_ident_def isdigit_def isalpha_def islower_def isupper_def newline_def)

lemma skipBlank_stays: "reads p (c # cs) \<Longrightarrow> \<not> is_blank c \<Longrightarrow> parser_skipBlank p = p"
  by (subst parser_skipBlank.simps) simp

lemma skipBlank_one:
  assumes "reads p (c # d # cs)" and "is_blank c" and "\<not> is_blank d" and "d \<noteq> newline"
  shows "reads (parser_skipBlank p) (d # cs)"
proof (rule next_reads [OF assms(1)])
  fix q assume "parser_next p = (True, q)" "reads q (d # cs)"
  with assms show ?thesis by (subst parser_skipBlank.simps) (simp add: skipBlank_stays)
qed (use assms in simp_all)

lemma identifier_loop_reads:
  assumes "reads p (k @ c # cs)" and "\<forall>x \<in> set k. is_ident x" and "uppercase k = k" and "\<not> is_ident c" and "c \<noteq> newline"
    and "length s + length k < MAX_DICTIONARY_STRING_LENGTH_BYTES"
  shows "\<exists>q. identifier_loop p s = (Some (s @ k), q) \<and> reads q (c # cs)"
  using assms
proof (induction k arbitrary: p s)
  case Nil
  then show ?case by (subst identifier_loop.simps) simp
next
  case (Cons x k)
  have x: "is_ident x" "(if isalpha x then toupper x else x) = x" using Cons.prems by (auto simp: uppercase_def)
  have "hd (k @ c # cs) \<noteq> newline" using Cons.prems by (cases k) (auto dest: not_newline(1))
  then obtain q where q: "parser_next p = (True, q)" "reads q (k @ c # cs)"
    using next_reads [of p x "k @ c # cs"] Cons.prems(1) by auto
  from Cons.IH [OF q(2), of "s @ [x]"] Cons.prems have "\<exists>r. identifier_loop q (s @ [x]) = (Some (s @ x # k), r) \<and> reads r (c # cs)"
    by (simp add: uppercase_def)
  moreover have "length s < MAX_DICTIONARY_STRING_LENGTH_BYTES - 1" using Cons.prems(6) by simp
  ultimately show ?case using Cons.prems(1) x q(1) by (subst identifier_loop.simps) (simp only: reads_current Let_def append_Cons, simp)
qed

lemma digits_loop_reads:
  assumes "reads p (ds @ [newline])" and "ds \<noteq> []" and "\<forall>x \<in> set ds. isdigit x" and "length s + length ds \<le> 100"
  shows "\<exists>q. digits_loop p s = (Some (s @ ds), q)"
  using assms
proof (induction ds arbitrary: p s)
  case (Cons x ds)
  show ?case
  proof (cases "ds = []")
    case True
    then obtain q where "parser_next p = (False, q)" using next_ends [of p x] Cons.prems(1) by auto
    with Cons.prems True show ?thesis by (subst digits_loop.simps) simp
  next
    case False
    then have "hd (ds @ [newline]) \<noteq> newline" using Cons.prems(3) by (cases ds) (auto dest: not_newline(2))
    then obtain q where q: "parser_next p = (True, q)" "reads q (ds @ [newline])"
      using next_reads [of p x "ds @ [newline]"] Cons.prems(1) by auto
    from Cons.IH [OF q(2) False, of "s @ [x]"] Cons.prems have "\<exists>r. digits_loop q (s @ [x]) = (Some (s @ x # ds), r)" by simp
    then show ?thesis using Cons.prems q(1) by (subst digits_loop.simps) simp
  qed
qed simp

lemma string_loop_reads:
  assumes "reads p (t @ CHR 0x22 # cs)" and "\<forall>x \<in> set t. x \<notin> {CHR 0x22, newline, CHR 0x00}"
    and "length s + length t < MAX_DICTIONARY_STRING_LENGTH_BYTES"
  shows "\<exists>q. string_loop p s = (Some (s @ t), q) \<and> reads q (CHR 0x22 # cs)"
  using assms
proof (induction t arbitrary: p s)
  case Nil
  then show ?case by (subst string_loop.simps) simp
next
  case (Cons x t)
  have "hd (t @ CHR 0x22 # cs) \<noteq> newline" using Cons.prems(2) by (cases t) (auto simp: newline_def)
  then obtain q where q: "parser_next p = (True, q)" "reads q (t @ CHR 0x22 # cs)"
    using next_reads [of p x "t @ CHR 0x22 # cs"] Cons.prems(1) by auto
  from Cons.IH [OF q(2), of "s @ [x]"] Cons.prems have "\<exists>r. string_loop q (s @ [x]) = (Some (s @ x # t), r) \<and> reads r (CHR 0x22 # cs)"
    by simp
  then show ?case using Cons.prems q(1) by (subst string_loop.simps) simp
qed

lemma skip_char_reads: "reads p (c # cs) \<Longrightarrow> cs \<noteq> [] \<Longrightarrow> hd cs \<noteq> newline \<Longrightarrow> reads (skip_char c p) cs"
  by (rule next_reads) (auto simp: skip_char_def)

lemma parseString_reads:
  assumes "reads p (quoted s @ cs)" and "text_ok s"
  shows "\<exists>q. parser_parseString p = (Some s, q) \<and> reads q (CHR 0x22 # cs)"
proof -
  have "hd (s @ CHR 0x22 # cs) \<noteq> newline" using assms(2) by (cases s) (auto simp: text_ok_def newline_def)
  then have "reads (skip_char (CHR 0x22) p) (s @ CHR 0x22 # cs)"
    using assms(1) by (intro skip_char_reads) (simp_all add: quoted_def)
  from string_loop_reads [OF this, of "[]"] assms(2) show ?thesis by (simp add: parser_parseString_def text_ok_def)
qed

lemma array_element_reads:
  assumes "reads p (quoted s @ c # cs)" and "text_ok s" and "\<not> is_blank c" and "c \<noteq> newline"
  shows "\<exists>q. array_element p = (Some s, q) \<and> reads q (c # cs)"
proof -
  obtain q where q: "parser_parseString p = (Some s, q)" "reads q (CHR 0x22 # c # cs)"
    using parseString_reads [OF assms(1,2)] by blast
  then have "reads (skip_char (CHR 0x22) q) (c # cs)" using assms(4) by (intro skip_char_reads) simp_all
  with q(1) assms(3) show ?thesis by (simp add: array_element_def skipBlank_stays)
qed

lemma quote_char: "\<not> isdigit (CHR 0x22)" "\<not> is_blank (CHR 0x22)" "\<not> is_blank (CHR '';'')" "\<not> is_blank (CHR ''}'')"
  by (simp_all add: isdigit_def is_blank_def)

lemma array_loop_reads:
  assumes "ss \<noteq> []" and "\<forall>s \<in> set ss. s \<noteq> None \<and> text_ok (the s)"
    and "reads p (print_elements ss @ CHR ''}'' # cs)" and "length a = max 1 i"
  shows "\<exists>q. array_loop p i a = (Some (take i a @ ss), q)"
  using assms
proof (induction ss arbitrary: p i a rule: print_elements.induct)
  case (2 s)
  obtain x where s: "s = Some x" "text_ok x" using "2.prems"(2) by auto
  have r: "reads p (quoted x @ CHR ''}'' # cs)" using "2.prems"(3) s(1) by simp
  have cur: "lp_current p = CHR 0x22" using r by (auto simp: quoted_def)
  have stay: "parser_skipBlank p = p" using r by (intro skipBlank_stays) (auto simp: quoted_def quote_char)
  obtain q where q: "array_element p = (Some x, q)" "reads q (CHR ''}'' # cs)"
    using array_element_reads [OF r s(2)] by (auto simp: quote_char newline_def)
  have "(if length a \<le> i then reallocate_DictionaryArray a (i + 1) else a)[i := s] = take i a @ [s]"
    using "2.prems"(4) by (cases i) (auto simp: reallocate_DictionaryArray_def list_update_append length_Suc_conv)
  then show ?case using cur stay q s(1) by (subst array_loop.simps) (simp add: quote_char Let_def)
next
  case (3 s t ss)
  let ?rest = "print_elements (t # ss) @ CHR ''}'' # cs"
  obtain x where s: "s = Some x" "text_ok x" using "3.prems"(2) by auto
  have r: "reads p (quoted x @ CHR '';'' # ?rest)" using "3.prems"(3) s(1) by simp
  have cur: "lp_current p = CHR 0x22" using r by (auto simp: quoted_def)
  have stay: "parser_skipBlank p = p" using r by (intro skipBlank_stays) (auto simp: quoted_def quote_char)
  obtain q where q: "array_element p = (Some x, q)" "reads q (CHR '';'' # ?rest)"
    using array_element_reads [OF r s(2)] by (auto simp: quote_char newline_def)
  have "hd ?rest \<noteq> newline" "?rest \<noteq> []" by (cases ss; simp add: quoted_def newline_def)+
  then obtain q' where q': "parser_next q = (True, q')" "reads q' ?rest" using next_reads [OF q(2)] by blast
  let ?a = "(if length a \<le> i then reallocate_DictionaryArray a (i + 1) else a)[i := s]"
  have a: "?a = take i a @ [s]"
    using "3.prems"(4) by (cases i) (auto simp: reallocate_DictionaryArray_def list_update_append length_Suc_conv)
  then have "length ?a = max 1 (i + 1)" using "3.prems"(4) by simp
  then have "\<exists>q. array_loop q' (i + 1) ?a = (Some (take (i + 1) ?a @ t # ss), q)"
    using "3.prems"(2) q'(2) by (intro "3.IH") simp_all
  moreover have "take (i + 1) ?a = take i a @ [s]" using a "3.prems"(4) by simp
  ultimately show ?case using cur stay q q'(1) s(1) by (subst array_loop.simps) (simp add: quote_char Let_def)
qed simp

lemma sint_bounds: "- (2 ^ 31) \<le> sint (n :: u32)" "sint (n :: u32) < 2 ^ 31"
  using sint_greater_eq [of n] sint_less [of n] by simp_all

lemma parseNumber_reads:
  assumes "reads p (print_value (DICTIONARY_NUMBER n) @ [newline])" and "value_ok (DICTIONARY_NUMBER n)"
  shows "\<exists>q. parser_parseNumber p = Some (Some n, q)"
proof -
  define neg where "neg \<longleftrightarrow> sint n < 0"
  define m where "m = nat \<bar>sint n\<bar>"
  define q where "q = (if neg then snd (parser_next p) else p)"
  have m: "m < 2 ^ 31" "(if neg then -1 else 1) * int m = sint n"
    using sint_bounds [of n] assms(2) by (auto simp: m_def neg_def)
  have dm: "isdigit (hd (decimal m))" "decimal m \<noteq> []" using decimal_digits(1) [of m] decimal_digits(2) [of m] by (auto intro: bspec)
  have r: "if neg then reads p (CHR ''-'' # decimal m @ [newline]) else reads p (decimal m @ [newline])"
    using assms(1) by (auto simp: neg_def m_def)
  have q: "reads q (decimal m @ [newline])"
  proof (cases neg)
    case True
    have "hd (decimal m @ [newline]) \<noteq> newline" using dm by (auto dest: not_newline(2))
    moreover have "reads p (CHR ''-'' # decimal m @ [newline])" using r True by simp
    ultimately obtain x where "parser_next p = (True, x)" "reads x (decimal m @ [newline])" using next_reads by blast
    then show ?thesis using True by (simp add: q_def)
  qed (use r in \<open>simp add: q_def\<close>)
  then have cur: "lp_current q = hd (decimal m)" using dm by (auto simp: reads_def simp del: reads_current)
  have cur_p: "(lp_current p = CHR ''-'') = neg"
    using r cur dm by (auto simp: q_def isdigit_def split: if_splits)
  have len: "length (decimal m) < 100" using length_decimal [of m 9] m(1) by simp
  then obtain q' where "digits_loop q [] = (Some (decimal m), q')"
    using digits_loop_reads [OF q dm(2) decimal_digits(1), of "[]"] by auto
  moreover have "word_of_int ((if neg then -1 else 1) * int m) = n" unfolding m(2) by simp
  ultimately show ?thesis
    using dm cur len m(1) by (simp add: parser_parseNumber_def Let_def cur_p q_def [symmetric] atoi_def number_value_decimal)
qed

section \<open>Lines\<close>

text \<open>A character that ends neither the line nor the string.\<close>

definition plain :: "char \<Rightarrow> bool" where
  "plain c \<longleftrightarrow> c \<noteq> newline \<and> c \<noteq> CHR 0x00"

lemma plain_simps [simp]:
  "plain (CHR 0x22)" "plain (CHR '' '')" "plain (CHR ''='')" "plain (CHR ''-'')" "plain (CHR '';'')" "plain (CHR ''{'')"
  "plain (CHR ''}'')" "\<not> plain newline"
  by (simp_all add: plain_def newline_def)

lemma plain_ident: "is_ident c \<Longrightarrow> plain c"
  by (auto simp: plain_def newline_def is_ident_def isdigit_def isalpha_def islower_def isupper_def)

lemma plain_text: "text_ok s \<Longrightarrow> list_all plain s"
  by (auto simp: text_ok_def plain_def list_all_iff)

lemma plain_quoted: "text_ok s \<Longrightarrow> list_all plain (quoted s)"
  by (simp add: quoted_def plain_text)

lemma plain_decimal: "list_all plain (decimal n)"
  using decimal_digits(1) [of n] plain_ident not_newline(3) by (auto simp: list_all_iff)

lemma plain_elements: "\<forall>s \<in> set ss. s \<noteq> None \<and> text_ok (the s) \<Longrightarrow> list_all plain (print_elements ss)"
  by (induction ss rule: print_elements.induct) (simp_all add: plain_quoted)

lemma plain_value: "value_ok v \<Longrightarrow> list_all plain (print_value v)"
  by (cases v) (simp_all add: plain_decimal plain_quoted plain_elements)

lemma digit_not_blank: "isdigit c \<Longrightarrow> \<not> is_blank c"
  by (auto simp: isdigit_def is_blank_def)

lemma print_value_start:
  assumes "value_ok v"
  obtains c cs where "print_value v = c # cs" "plain c" "\<not> is_blank c"
proof -
  have dec: "decimal n = hd (decimal n) # tl (decimal n)" "\<not> is_blank (hd (decimal n))" for n
    using decimal_digits(1) [of n] decimal_digits(2) [of n] digit_not_blank hd_in_set [of "decimal n"] by auto
  have "\<exists>c cs. print_value v = c # cs \<and> \<not> is_blank c"
    using assms
  proof (cases v)
    case (DICTIONARY_NUMBER n)
    then show ?thesis using dec by (auto simp: is_blank_def)
  qed (auto simp: quoted_def is_blank_def)
  then obtain c cs where "print_value v = c # cs" "\<not> is_blank c" by blast
  with that plain_value [OF assms] show thesis by simp
qed

lemma parseValue_reads:
  assumes "reads p (print_value v @ [newline])" and "value_ok v"
  shows "parser_parseValue p k d =
    (if length k < 256 then map_option snd (dictionary_add d \<lparr>entry_key = k, entry_value = v\<rparr>) else None)"
proof -
  obtain c cs where c: "print_value v = c # cs" "\<not> is_blank c" using print_value_start [OF assms(2)] by blast
  have stay: "parser_skipBlank p = p" using assms(1) c by (intro skipBlank_stays) auto
  have cur: "lp_current p = c" using assms(1) c by simp
  show ?thesis
  proof (cases v)
    case (DICTIONARY_NUMBER n)
    then obtain q where "parser_parseNumber p = Some (Some n, q)" using parseNumber_reads assms(1,2) by blast
    moreover have "c = CHR ''-'' \<or> isdigit c"
      using c DICTIONARY_NUMBER decimal_digits by (auto split: if_splits) (metis list.set_intros(1))
    ultimately show ?thesis
      using stay cur DICTIONARY_NUMBER by (simp add: parser_parseValue_def dictionary_addNumber_def)
  next
    case (DICTIONARY_STRING s)
    then have "c = CHR 0x22" "\<exists>q. parser_parseString p = (Some s, q)"
      using c parseString_reads [of p s "[newline]"] assms(1,2) by (auto simp: quoted_def)
    then show ?thesis
      using stay cur DICTIONARY_STRING by (auto simp: parser_parseValue_def dictionary_addString_def isdigit_def)
  next
    case (DICTIONARY_ARRAY a)
    have "plain (hd (print_elements a @ [CHR ''}'', newline]))"
      using plain_elements [of a] DICTIONARY_ARRAY assms(2) by (cases "print_elements a") auto
    then have "hd (print_elements a @ [CHR ''}'', newline]) \<noteq> newline" by (auto simp: plain_def)
    then have "reads (skip_char (CHR ''{'') p) (print_elements a @ CHR ''}'' # [newline])"
      using assms(1) DICTIONARY_ARRAY by (intro skip_char_reads) simp_all
    then have "\<exists>q. parser_parseArray p (allocate_DictionaryArray 1) = (Some a, q)"
      using array_loop_reads [of a "skip_char (CHR ''{'') p" "[newline]" "[None]" 0] DICTIONARY_ARRAY assms(2)
      by (auto simp: parser_parseArray_def allocate_DictionaryArray_def)
    moreover have "c = CHR ''{''" using c DICTIONARY_ARRAY by simp
    ultimately show ?thesis
      using stay cur DICTIONARY_ARRAY by (auto simp: parser_parseValue_def dictionary_addArray_def isdigit_def)
  qed (use assms(2) in simp)
qed

lemma config_line_reads:
  assumes k: "k \<noteq> []" "length k < MAX_DICTIONARY_STRING_LENGTH_BYTES" "\<forall>c \<in> set k. is_ident c" "uppercase k = k"
    and v: "value_ok v" and "length (print_line (k, v)) < CONFIG_BUFFER_LENGTH"
  shows "config_line (print_line (k, v)) d =
    (if length k < 256 then map_option snd (dictionary_add d \<lparr>entry_key = k, entry_value = v\<rparr>) else None)"
proof -
  define buf where "buf = print_line (k, v)"
  let ?rest = "print_value v @ [newline]"
  have buf: "buf = k @ CHR '' '' # CHR ''='' # CHR '' '' # ?rest" by (simp add: buf_def print_line_def)
  have len: "length buf < CONFIG_BUFFER_LENGTH" using assms(6) by (simp add: buf_def)
  have hd_k: "is_ident (hd k)" using k(1,3) by simp
  then have hd_plain: "\<not> is_blank (hd k)" "hd k \<noteq> CHR '';''"
    by (auto simp: is_ident_def isdigit_def isalpha_def islower_def isupper_def is_blank_def)
  define p where "p = parser_init buf"
  have p: "reads p buf" "lp_current p = hd k" "lp_pos p = 0" using len k(1) by (simp_all add: p_def parser_init_def reads_def buf)
  have stay: "parser_skipBlank p = p" using p(2) hd_plain by (subst parser_skipBlank.simps) simp
  have "\<not> is_ident (CHR '' '')" by (simp add: is_ident_def isdigit_def isalpha_def islower_def isupper_def)
  then obtain q where q: "identifier_loop p [] = (Some k, q)" "reads q (CHR '' '' # CHR ''='' # CHR '' '' # ?rest)"
    using identifier_loop_reads [of p k "CHR '' ''" _ "[]"] p(1) k by (auto simp: buf newline_def)
  have r: "reads (parser_skipBlank q) (CHR ''='' # CHR '' '' # ?rest)"
    using q(2) by (intro skipBlank_one) (auto simp: is_blank_def newline_def)
  then obtain x where x: "parser_next (parser_skipBlank q) = (True, x)" "reads x (CHR '' '' # ?rest)"
    by (rule next_reads) (auto simp: newline_def)
  obtain c cs where c: "print_value v = c # cs" "plain c" "\<not> is_blank c" using print_value_start [OF v] by blast
  have "reads (parser_skipBlank x) (c # cs @ [newline])"
    using x(2) c by (intro skipBlank_one [of x "CHR '' ''" c]) (auto simp: is_blank_def plain_def)
  then have y: "reads (parser_skipBlank x) ?rest" by (simp add: c(1))
  have "1 < length buf" using k(1) by (cases k) (simp_all add: buf)
  then show ?thesis
    using p(2,3) stay hd_plain hd_k q(1) reads_current [OF r] x(1) parseValue_reads [OF y v, of k d]
    by (simp add: config_line_def p_def [symmetric] parser_parseIdentifier_def buf_def [symmetric])
qed

lemma fgets_line: "newline \<notin> set l \<Longrightarrow> length l < n \<Longrightarrow> fgets n (l @ newline # r) = (l @ [newline], r)"
  by (induction n l rule: fgets.induct) (auto simp: less_Suc_eq_0_disj gr0_conv_Suc)

lemma config_lines_cons:
  assumes "line_ok kv"
  shows "config_lines (print_line kv @ r) d =
    Option.bind (dictionary_add d \<lparr>entry_key = fst kv, entry_value = snd kv\<rparr>) (\<lambda>(_, d). config_lines r d)"
proof -
  obtain k v where kv: "kv = (k, v)" by (cases kv)
  define l where "l = k @ '' = '' @ print_value v"
  have l: "print_line kv = l @ [newline]" by (simp add: l_def print_line_def kv)
  have plain: "list_all plain l"
    using assms plain_value [of v] plain_ident by (auto simp: l_def line_ok_def kv list_all_iff)
  have "length l < CONFIG_BUFFER_LENGTH - 1" using assms l by (auto simp: line_ok_def kv)
  then have "fgets (CONFIG_BUFFER_LENGTH - 1) (print_line kv @ r) = (print_line kv, r)"
    using fgets_line [of l] plain by (auto simp: l list_all_iff plain_def)
  moreover have "c_string (print_line kv) = print_line kv" "print_line kv \<noteq> []"
    using plain by (auto simp: c_string_def l list_all_iff plain_def newline_def)
  ultimately show ?thesis
    using config_line_reads [of k v d] assms [unfolded kv line_ok_def] MAX_DICTIONARY_STRING_LENGTH_BYTES_def
    by (subst config_lines.simps) (cases "dictionary_add d \<lparr>entry_key = k, entry_value = v\<rparr>"; simp add: kv split_beta)
qed

lemma config_lines_add_all:
  "\<forall>kv \<in> set kvs. line_ok kv \<Longrightarrow> config_lines (concat (map print_line kvs)) d = dict.add_all d kvs"
proof (induction kvs arbitrary: d)
  case Nil
  then show ?case by (subst config_lines.simps) simp
next
  case (Cons kv kvs)
  obtain k v where kv: "kv = (k, v)" by (cases kv)
  show ?case
    using config_lines_cons [of kv "concat (map print_line kvs)" d] Cons
    by (cases "dictionary_add d \<lparr>entry_key = k, entry_value = v\<rparr>") (auto simp: kv)
qed

lemma config_file_parsed:
  assumes "\<forall>kv \<in> set kvs. line_ok kv" and "length kvs \<le> 2 ^ 31"
  shows "\<exists>d. config_lines (concat (map print_line kvs)) (dictionary_create 2) = Some d \<and>
    (\<forall>k. length k < 255 \<longrightarrow> config_get d k = Some (case map_of kvs (uppercase k) of None \<Rightarrow> DICTIONARY_ERROR | Some v \<Rightarrow> v))"
proof -
  have "\<forall>(k, v) \<in> set kvs. short_key k" using assms(1) by (auto simp: line_ok_def short_key_def)
  moreover have "map (\<lambda>(k, v). (uppercase k, v)) kvs = kvs"
    using assms(1) by (intro map_idI) (auto simp: line_ok_def)
  ultimately obtain d where "dict.add_all (dictionary_create 2) kvs = Some d" "dict_lookup d = map_of kvs"
    using dict.add_all_first_wins [of "dictionary_create 2" kvs] assms(2) by (auto simp: dictionary_create_props)
  then show ?thesis
    using config_lines_add_all [OF assms(1)] by (auto simp: config_get_def dictionary_get_eq)
qed

section \<open>Properties\<close>

text \<open>
  C39: The reader is the inverse of the printer. A file with lines \<open>KEY = value\<close>, where the values are
  numbers, quoted texts or arrays of quoted texts, is read without error into a dictionary in which each
  key, in upper or lower case, has the value of its first line, and no other key has one.
\<close>

theorem config_file_roundtrip:
  assumes "\<forall>kv \<in> set kvs. line_ok kv" and "length kvs \<le> 2 ^ 31"
  shows "\<exists>d. config_lines (concat (map print_line kvs)) (dictionary_create 2) = Some d \<and>
    (\<forall>k. length k < 255 \<longrightarrow> config_get d k = Some (case map_of kvs (uppercase k) of None \<Rightarrow> DICTIONARY_ERROR | Some v \<Rightarrow> v))"
  using assms by (rule config_file_parsed)

definition example_lines :: "(string \<times> DictionaryValue) list" where
  "example_lines = [(''RASTA_T_MAX'', DICTIONARY_NUMBER 750), (''RASTA_ID'', DICTIONARY_NUMBER (- 5)),
     (''RASTA_REDUNDANCY_CONNECTIONS'', DICTIONARY_ARRAY [Some ''*:8888'', Some ''10.0.0.1:8889'']),
     (''RASTA_T_MAX'', DICTIONARY_NUMBER 1), (''RASTA_CRC_TYPE'', DICTIONARY_STRING ''TYPE_B'')]"

lemma example_lines_ok: "\<forall>kv \<in> set example_lines. line_ok kv"
  by (simp add: example_lines_def line_ok_def print_line_def quoted_def text_ok_def decimal.simps uppercase_def is_ident_def
      isdigit_def isalpha_def islower_def isupper_def toupper_def newline_def CONFIG_BUFFER_LENGTH_def
      MAX_DICTIONARY_STRING_LENGTH_BYTES_def)

theorem config_file_roundtrip_witness:
  "\<exists>d. config_lines (concat (map print_line example_lines)) (dictionary_create 2) = Some d \<and>
     config_get d ''rasta_t_max'' = Some (DICTIONARY_NUMBER 750) \<and> config_get d ''RASTA_MWA'' = Some DICTIONARY_ERROR"
proof -
  have "map_of example_lines (uppercase ''rasta_t_max'') = Some (DICTIONARY_NUMBER 750)"
    "map_of example_lines (uppercase ''RASTA_MWA'') = None" by code_simp+
  with config_file_roundtrip [OF example_lines_ok] show ?thesis by (fastforce simp: example_lines_def)
qed

section \<open>What is not checked\<close>

text \<open>A line whose key has 256 characters or more writes behind the key of its entry.\<close>

lemma long_key_undefined:
  assumes "256 \<le> length k" and "length k < MAX_DICTIONARY_STRING_LENGTH_BYTES" and "\<forall>c \<in> set k. is_ident c" and "uppercase k = k"
    and "value_ok v" and "length (print_line (k, v)) < CONFIG_BUFFER_LENGTH"
  shows "config_line (print_line (k, v)) d = None"
  using config_line_reads [of k v d] assms by (cases "k = []") auto

lemma connections_wrong:
  assumes "Some s \<in> set a" and "extractIPData s = Some c" and "cells_port c = 0"
  shows "connections_loop a = None \<or> (\<exists>cs. connections_loop a = Some (cs, True))"
  using assms(1)
proof (induction a rule: connections_loop.induct)
  case (3 t ss)
  then show ?case using assms(2,3) by (cases "extractIPData t") (auto split: option.splits)
qed simp_all

lemma array_released:
  assumes "dict_lookup d k = Some (DICTIONARY_ARRAY a)" and "a \<noteq> []" and "k \<in> keys"
  shows "dictionary_free keys d = None"
proof -
  have "\<exists>e \<in> set es. entry_key e = k \<and> entry_value e = v" if "find_key k es = Some v" for es v
    using that by (induction es) (auto split: if_splits)
  with assms(1) obtain e where "e \<in> set (dict_data d)" "entry_key e = k" "entry_value e = DICTIONARY_ARRAY a"
    unfolding dict_lookup_def by blast
  with assms(2,3) show ?thesis by (force simp: dictionary_free_def)
qed

text \<open>
  A wrong address ends the program. When one of the addresses under
  \<open>RASTA_REDUNDANCY_CONNECTIONS\<close> is not of the form the reader takes, \<open>config_setstd\<close> reports it and
  releases the array, which stays in the dictionary and is released a second time at the end of
  \<open>load_configfile\<close>. Whatever else is in the file, loading it is undefined.
\<close>

theorem wrong_address_undefined:
  assumes "files filename = Some text" and "config_lines text (dictionary_create 2) = Some d"
    and "config_get d ''RASTA_REDUNDANCY_CONNECTIONS'' = Some (DICTIONARY_ARRAY a)" and "Some s \<in> set a"
    and "extractIPData s = Some c" and "cells_port c = 0"
  shows "load_configfile tbl e files filename = None"
proof (cases "config_load tbl files filename")
  case (Some r)
  then obtain v where v: "r = (0, d, v)" "config_setstd tbl d = Some v"
    using assms(1,2) by (auto simp: config_load_def Option.bind_eq_Some_conv split: if_splits)
  have up: "uppercase ''RASTA_REDUNDANCY_CONNECTIONS'' = ''RASTA_REDUNDANCY_CONNECTIONS''" by code_simp
  from v(2) obtain cs where "connections_loop a = Some (cs, True)" "''RASTA_REDUNDANCY_CONNECTIONS'' \<in> freed v"
    using connections_wrong [OF assms(4-6)] assms(3)
    by (auto simp: config_setstd_def config_connections_def Option.bind_eq_Some_conv split: if_splits)
  moreover have "dict_lookup d ''RASTA_REDUNDANCY_CONNECTIONS'' = Some (DICTIONARY_ARRAY a)"
    using assms(3) by (simp add: config_get_def dictionary_get_eq up split: option.splits)
  ultimately have "dictionary_free (freed v) d = None" using assms(4) by (intro array_released) auto
  then show ?thesis using Some v(1) by (simp add: load_configfile_def Let_def split: prod.splits Option.bind_splits)
qed (simp add: load_configfile_def)

lemma example_wrong_address: "extractIPData ''*:8888'' = Some \<lparr>ip_array = replicate 16 None, cells_port = 0\<rparr>"
  by (simp add: extractIPData_def isdigit_def)

theorem wrong_address_undefined_witness:
  "load_configfile [] \<lparr>clock_value = 0, time_value = 0, process_id = 0, rand_value = \<lambda>_ _. 0\<rparr>
     (\<lambda>_. Some (concat (map print_line example_lines))) ''rasta.cfg'' = None"
proof -
  obtain d where d: "config_lines (concat (map print_line example_lines)) (dictionary_create 2) = Some d"
    "config_get d ''RASTA_REDUNDANCY_CONNECTIONS'' = Some (case map_of example_lines (uppercase ''RASTA_REDUNDANCY_CONNECTIONS'')
       of None \<Rightarrow> DICTIONARY_ERROR | Some v \<Rightarrow> v)"
    using config_file_parsed [OF example_lines_ok] by (auto simp: example_lines_def)
  have "map_of example_lines (uppercase ''RASTA_REDUNDANCY_CONNECTIONS'') = Some (DICTIONARY_ARRAY [Some ''*:8888'', Some ''10.0.0.1:8889''])"
    by code_simp
  with d wrong_address_undefined [of "\<lambda>_. Some (concat (map print_line example_lines))" "''rasta.cfg''" _ d _ "''*:8888''"
    "\<lparr>ip_array = replicate 16 None, cells_port = 0\<rparr>"]
  show ?thesis by (simp add: example_wrong_address)
qed

section \<open>Addresses\<close>

definition octet :: "string \<Rightarrow> bool" where
  "octet g \<longleftrightarrow> g \<noteq> [] \<and> length g \<le> 3 \<and> (\<forall>c \<in> set g. isdigit c)"

definition address_ok :: "rasta_ip_data \<Rightarrow> bool" where
  "address_ok x \<longleftrightarrow> (\<exists>a b c d. octet a \<and> octet b \<and> octet c \<and> octet d \<and>
     ip x = a @ CHR ''.'' # b @ CHR ''.'' # c @ CHR ''.'' # d) \<and> 0 < ip_port x \<and> ip_port x < 10 ^ 9"

definition print_address :: "rasta_ip_data \<Rightarrow> string" where
  "print_address x = ip x @ CHR '':'' # decimal (nat (ip_port x))"

text \<open>The characters of \<open>g\<close> from position \<open>i\<close> on.\<close>

fun store :: "nat \<Rightarrow> string \<Rightarrow> char option list \<Rightarrow> char option list" where
  "store i [] a = a"
| "store i (c # cs) a = store (i + 1) cs (a[i := Some c])"

lemma store_append: "store i (g @ h) a = store (i + length g) h (store i g a)"
  by (induction g arbitrary: i a) simp_all

lemma store_eq: "i + length g \<le> length a \<Longrightarrow> store i g a = take i a @ map Some g @ drop (i + length g) a"
proof (induction g arbitrary: i a)
  case (Cons c g)
  then have "store (i + 1) g (a[i := Some c]) = take (i + 1) (a[i := Some c]) @ map Some g @ drop (i + 1 + length g) (a[i := Some c])"
    by (intro Cons.IH) simp
  also have "take (i + 1) (a[i := Some c]) = take i a @ [Some c]"
    using Cons.prems by (simp add: take_Suc_conv_app_nth)
  finally show ?case by simp
qed simp

lemma address_loop_digits:
  assumes "\<forall>c \<in> set g. isdigit c" and "n + length g \<le> 3" and "i + length g \<le> 16"
  shows "address_loop (g @ r) i n m a = address_loop r (i + length g) (n + length g) m (store i g a)"
  using assms
proof (induction g arbitrary: i n a)
  case (Cons c g)
  then show ?case using Cons.IH [of "n + 1" "i + 1" "a[i := Some c]"] by simp
qed simp

lemma dot_colon: "\<not> isdigit (CHR ''.'')" "\<not> isdigit (CHR '':'')"
  by (simp_all add: isdigit_def)

lemma address_loop_group:
  assumes "octet g" and "i + length g < 16" and "m < 3"
  shows "address_loop (g @ CHR ''.'' # r) i 0 m a = address_loop r (i + length g + 1) 0 (m + 1) (store i (g @ ''.'') a)"
  using assms address_loop_digits [of g 0 i "CHR ''.'' # r" m a] by (simp add: octet_def dot_colon store_append)

lemma port_loop_digits: "\<forall>c \<in> set ds. isdigit c \<Longrightarrow> length s + length ds < 10 \<Longrightarrow> port_loop ds s = Some (Some (s @ ds))"
  by (induction ds arbitrary: s) simp_all

lemma cells_text_eq: "\<forall>c \<in> set s. c \<noteq> CHR 0x00 \<Longrightarrow> cells_text (map Some (s @ [CHR 0x00]) @ r) = Some s"
  by (induction s) simp_all

lemma extractIPData_print:
  assumes "address_ok x"
  shows "\<exists>c. extractIPData (print_address x) = Some c \<and> cells_port c \<noteq> 0 \<and> cells_ip (Some c) = Some x"
proof -
  obtain a b c d where o: "octet a" "octet b" "octet c" "octet d" and x: "ip x = a @ CHR ''.'' # b @ CHR ''.'' # c @ CHR ''.'' # d"
    using assms by (auto simp: address_ok_def)
  have len: "length a \<le> 3" "length b \<le> 3" "length c \<le> 3" "length d \<le> 3" "d \<noteq> []" "\<forall>y \<in> set d. isdigit y" using o by (auto simp: octet_def)
  let ?n = "length (ip x)"
  have n: "?n \<le> 15" using len by (simp add: x)
  define arr where "arr = store 0 (ip x @ [CHR 0x00]) (replicate 16 None)"
  have "address_loop (print_address x) 0 0 0 (replicate 16 None) = Some (Inr (?n, arr))"
    using len n o
    by (simp add: print_address_def x address_loop_group address_loop_digits dot_colon arr_def store_append)
  moreover have "drop (?n + 1) (print_address x) = decimal (nat (ip_port x))" by (simp add: print_address_def)
  moreover have p: "0 < ip_port x" "nat (ip_port x) < 10 ^ Suc 8" using assms by (auto simp: address_ok_def)
  then have "port_loop (decimal (nat (ip_port x))) [] = Some (Some (decimal (nat (ip_port x))))"
    using length_decimal [of "nat (ip_port x)" 8] decimal_digits(1) by (intro port_loop_digits [where s = "[]", simplified]) auto
  moreover have "atoi (decimal (nat (ip_port x))) = Some (ip_port x)"
    using p by (simp add: atoi_def number_value_decimal)
  ultimately have e: "extractIPData (print_address x) = Some \<lparr>ip_array = arr, cells_port = ip_port x\<rparr>"
    by (simp add: extractIPData_def)
  have "\<forall>y \<in> set (ip x). y \<noteq> CHR 0x00" using o by (auto simp: x octet_def isdigit_def)
  moreover have "arr = map Some (ip x @ [CHR 0x00]) @ drop (?n + 1) (replicate 16 None)"
    using store_eq [of 0 "ip x @ [CHR 0x00]" "replicate 16 None"] n by (simp add: arr_def)
  ultimately have "cells_text arr = Some (ip x)" using cells_text_eq by blast
  with e p(1) show ?thesis by (simp add: cells_ip_def)
qed

end
