(* ===== verification/Rasta_Config_Load.thy ===== *)
theory Rasta_Config_Load
  imports Rasta_Config_Roundtrip Rasta_Reachable
begin

text \<open>
  From the text of a configuration file to the configuration of an endpoint: every setting that
  \<open>load_configfile\<close> produces, and when the code stays inside its buffers with the result.
\<close>

definition value_of :: "(string \<times> DictionaryValue) list \<Rightarrow> string \<Rightarrow> DictionaryValue" where
  "value_of kvs k = (case map_of kvs k of None \<Rightarrow> DICTIONARY_ERROR | Some v \<Rightarrow> v)"

text \<open>A number that is not negative, or the standard value.\<close>

definition number_or :: "u32 \<Rightarrow> DictionaryValue \<Rightarrow> u32" where
  "number_or std v = (case v of DICTIONARY_NUMBER n \<Rightarrow> if sint n < 0 then std else n | _ \<Rightarrow> std)"

definition any_number_or :: "u32 \<Rightarrow> DictionaryValue \<Rightarrow> u32" where
  "any_number_or std v = (case v of DICTIONARY_NUMBER n \<Rightarrow> n | _ \<Rightarrow> std)"

definition config_keys :: "string list" where
  "config_keys = [''RASTA_T_MAX'', ''RASTA_T_H'', ''RASTA_MD4_TYPE'', ''RASTA_SR_CHECKSUM_LEN'', ''RASTA_SR_CHECKSUM_KEY'',
     ''RASTA_SR_CHECKSUM_ALGO'', ''RASTA_MD4_A'', ''RASTA_MD4_B'', ''RASTA_MD4_C'', ''RASTA_MD4_D'', ''RASTA_SEND_MAX'',
     ''RASTA_MWA'', ''RASTA_MAX_PACKET'', ''RASTA_DIAG_WINDOW'', ''RASTA_RECVQUEUE_SIZE'', ''RASTA_RECV_MSG_SIZE'', ''RASTA_RETRANSMISSION_QUEUE_SIZE'',
     ''RASTA_REDUNDANCY_CONNECTIONS'', ''RASTA_REMOTE_REDUNDANCY_CONNECTIONS'', ''RASTA_CRC_TYPE'', ''RASTA_T_SEQ'',
     ''RASTA_N_DIAGNOSE'', ''RASTA_N_DEFERQUEUE_SIZE'', ''RASTA_NETWORK'', ''RASTA_ID'', ''RASTA_REMOTE_ID'', ''LOGGER_TYPE'',
     ''LOGGER_MAX_LEVEL'', ''LOGGER_FILE'', ''RASTA_ACCEPTED_VERSIONS'', ''RASTA_INITIAL_SEQ'']"

lemma config_keys_upper: "list_all (\<lambda>k. length k < 100 \<and> uppercase k = k) config_keys"
  by (simp add: config_keys_def uppercase_def isalpha_def islower_def isupper_def toupper_def)

text \<open>The dictionary holds the lines \<open>kvs\<close>.\<close>

definition holds :: "Dictionary \<Rightarrow> (string \<times> DictionaryValue) list \<Rightarrow> bool" where
  "holds d kvs \<longleftrightarrow> list_all (\<lambda>k. config_get d k = Some (value_of kvs k)) config_keys"

lemma parsed_holds:
  assumes "\<forall>kv \<in> set kvs. line_ok kv" and "length kvs \<le> 2 ^ 31"
  obtains d where "config_lines (concat (map print_line kvs)) (dictionary_create 2) = Some d" "holds d kvs"
  using config_file_parsed [OF assms] config_keys_upper that by (fastforce simp: holds_def list_all_iff value_of_def)

lemmas holds_get = holds_def config_keys_def

lemma connections_loop_ok:
  "\<forall>x \<in> set xs. address_ok x \<Longrightarrow> \<exists>cs. connections_loop (map (\<lambda>x. Some (print_address x)) xs) = Some (cs, False) \<and>
     those (map cells_ip cs) = Some xs"
proof (induction xs)
  case (Cons x xs)
  then obtain c cs where "extractIPData (print_address x) = Some c" "cells_port c \<noteq> 0" "cells_ip (Some c) = Some x"
    "connections_loop (map (\<lambda>x. Some (print_address x)) xs) = Some (cs, False)" "those (map cells_ip cs) = Some xs"
    using extractIPData_print [of x] by auto
  then show ?case by (intro exI [of _ "Some c # cs"]) simp
qed simp

lemma connections_hold:
  assumes "config_get d k = Some v" and "v = DICTIONARY_ARRAY (map (\<lambda>x. Some (print_address x)) xs)" and "\<forall>x \<in> set xs. address_ok x"
  obtains cs where "config_connections d k = Some (cs, {})" "those (map cells_ip cs) = Some xs"
  using connections_loop_ok [OF assms(3)] assms(1,2) that by (auto simp: config_connections_def)

lemma opt_len: "crc_len crc_init_opt_a \<le> 4" "crc_len (crc_init_opt_b tbl) \<le> 4" "crc_len (crc_init_opt_c tbl) \<le> 4"
  "crc_len (crc_init_opt_d tbl) \<le> 4" "crc_len (crc_init_opt_e tbl) \<le> 4"
  by (simp_all add: crc_len_def crc_init_opt_a_def crc_init_opt_defs)

text \<open>One of several names, or the standard value.\<close>

definition one_of :: "(string \<times> 'a) list \<Rightarrow> 'a \<Rightarrow> DictionaryValue \<Rightarrow> 'a" where
  "one_of names std v = (case v of DICTIONARY_STRING s \<Rightarrow> (case map_of names s of Some x \<Rightarrow> x | None \<Rightarrow> std) | _ \<Rightarrow> std)"

text \<open>
  The configuration a file describes: each setting with its key, its standard value and the width it is
  stored with. \<open>RASTA_MD4_TYPE\<close> goes before \<open>RASTA_SR_CHECKSUM_LEN\<close>. Of the remote side a file gives only
  the addresses.
\<close>

definition described :: "u64 list \<Rightarrow> (string \<times> DictionaryValue) list \<Rightarrow> rasta_ip_data list \<Rightarrow> rasta_ip_data list \<Rightarrow> string list \<Rightarrow>
    u32 \<Rightarrow> rasta_config_info" where
  "described tbl kvs ls rs vs n =
     \<lparr>initial_sequence_number = n,
      accepted_versions = map (\<lambda>v. map of_char v @ [0]) vs,
      sending =
        \<lparr>t_max = number_or 1800 (value_of kvs ''RASTA_T_MAX''),
         t_h = number_or 300 (value_of kvs ''RASTA_T_H''),
         md4_type = one_of [(''NONE'', RASTA_CHECKSUM_NONE), (''HALF'', RASTA_CHECKSUM_8B), (''FULL'', RASTA_CHECKSUM_16B)]
           RASTA_CHECKSUM_8B
           (if value_of kvs ''RASTA_MD4_TYPE'' = DICTIONARY_ERROR then value_of kvs ''RASTA_SR_CHECKSUM_LEN''
            else value_of kvs ''RASTA_MD4_TYPE''),
         md4_a = any_number_or 0x67452301 (value_of kvs ''RASTA_MD4_A''),
         md4_b = any_number_or 0xefcdab89 (value_of kvs ''RASTA_MD4_B''),
         md4_c = any_number_or 0x98badcfe (value_of kvs ''RASTA_MD4_C''),
         md4_d = any_number_or 0x10325476 (value_of kvs ''RASTA_MD4_D''),
         mwa = ucast (number_or 10 (value_of kvs ''RASTA_MWA'')),
         send_max = ucast (number_or 20 (value_of kvs ''RASTA_SEND_MAX'')),
         max_packet = number_or 3 (value_of kvs ''RASTA_MAX_PACKET''),
         diag_window = number_or 5000 (value_of kvs ''RASTA_DIAG_WINDOW''),
         sr_hash_key = any_number_or 0 (value_of kvs ''RASTA_SR_CHECKSUM_KEY''),
         sr_hash_algorithm = one_of [(''MD4'', RASTA_ALGO_MD4), (''BLAKE2B'', RASTA_ALGO_BLAKE2B),
           (''SIPHASH-2-4'', RASTA_ALGO_SIPHASH_2_4)] RASTA_ALGO_MD4 (value_of kvs ''RASTA_SR_CHECKSUM_ALGO'')\<rparr>,
      max_recvqueue_size = number_or 20 (value_of kvs ''RASTA_RECVQUEUE_SIZE''),
      max_retransmission_queue_size = number_or 100 (value_of kvs ''RASTA_RETRANSMISSION_QUEUE_SIZE''),
      redundancy =
        \<lparr>connections = ls,
         crc_type = one_of [(''TYPE_A'', crc_init_opt_a), (''TYPE_B'', crc_init_opt_b tbl), (''TYPE_C'', crc_init_opt_c tbl),
           (''TYPE_D'', crc_init_opt_d tbl), (''TYPE_E'', crc_init_opt_e tbl)] crc_init_opt_a (value_of kvs ''RASTA_CRC_TYPE''),
         t_seq = of_nat (unat (number_or 100 (value_of kvs ''RASTA_T_SEQ'')) mod 2 ^ 16),
         n_diagnose = int (unat (number_or 200 (value_of kvs ''RASTA_N_DIAGNOSE'')) mod 2 ^ 16),
         n_deferqueue_size = of_nat (unat (number_or 4 (value_of kvs ''RASTA_N_DEFERQUEUE_SIZE'')) mod 2 ^ 16)\<rparr>,
      redundancy_remote = zero_redundancy\<lparr>connections := rs\<rparr>,
      general =
        \<lparr>rasta_network = ucast (number_or 0 (value_of kvs ''RASTA_NETWORK'')),
         rasta_id = ucast (any_number_or 0 (value_of kvs ''RASTA_ID'')),
         rasta_id_remote = ucast (any_number_or 0 (value_of kvs ''RASTA_REMOTE_ID''))\<rparr>,
      kex_mode = KEY_EXCHANGE_MODE_NONE\<rparr>"

lemma cut_to_16_bits:
  fixes x :: u32
  shows "ucast (ucast x :: u16) = (of_nat (unat x mod 2 ^ 16) :: 'a :: len word)" and "uint (ucast x :: u16) = int (unat x mod 2 ^ 16)"
proof -
  have "unat (ucast x :: u16) = unat x mod 2 ^ 16" by (simp add: unsigned_ucast_eq take_bit_eq_mod)
  then show "uint (ucast x :: u16) = int (unat x mod 2 ^ 16)" and "ucast (ucast x :: u16) = (of_nat (unat x mod 2 ^ 16) :: 'a :: len word)"
    by (metis of_nat_unat, metis of_nat_unat)
qed

lemma described_config_ok: "config_ok (described tbl kvs ls rs vs n) \<longleftrightarrow> safety_code_ok (sending (described tbl kvs ls rs vs n))"
proof -
  have "crc_len (crc_type (redundancy (described tbl kvs ls rs vs n))) \<le> 4"
    using opt_len by (simp add: described_def one_of_def split: DictionaryValue.split)
  then show ?thesis by (simp add: config_ok_def)
qed

lemma number_holds:
  "config_get d k = Some (value_of kvs k) \<Longrightarrow> config_number d k std = Some (number_or std (value_of kvs k))"
  "config_get d k = Some (value_of kvs k) \<Longrightarrow> config_any_number d k std = Some (any_number_or std (value_of kvs k))"
  by (simp_all add: config_number_def config_any_number_def number_or_def any_number_or_def)

lemma names_hold:
  assumes "holds d kvs"
  shows "config_checksum_type d = Some (md4_type (sending (described tbl kvs ls rs vs n)))"
    and "config_hash_algorithm d = Some (sr_hash_algorithm (sending (described tbl kvs ls rs vs n)))"
    and "config_crc_type tbl d = Some (crc_type (redundancy (described tbl kvs ls rs vs n)))"
  using assms unfolding holds_get
  by (simp_all add: config_checksum_type_def config_hash_algorithm_def config_crc_type_def described_def one_of_def
      split: DictionaryValue.split)

lemma setstd_holds:
  assumes "holds d kvs" and "config_connections d ''RASTA_REDUNDANCY_CONNECTIONS'' = Some (ls, F)"
    and "config_connections d ''RASTA_REMOTE_REDUNDANCY_CONNECTIONS'' = Some (rs, G)"
  shows "config_setstd tbl d = Some \<lparr>info = described tbl kvs [] [] [] 0, max_recv_msg_size = number_or 500 (value_of kvs ''RASTA_RECV_MSG_SIZE''),
    local_cells = ls, remote_cells = rs, freed = F \<union> G\<rparr>"
proof -
  note get = assms(1) [unfolded holds_get, simplified]
  show ?thesis
    using get assms(2,3) names_hold [OF assms(1), of tbl "[]" "[]" "[]" 0]
    by (simp add: config_setstd_def config_sending_def number_holds) (simp add: described_def zero_redundancy_def cut_to_16_bits)
qed


text \<open>A file that sets the kind of every code and some numbers, and leaves the others to the standard.\<close>

definition loaded_lines :: "(string \<times> DictionaryValue) list" where
  "loaded_lines = [(''LOGGER_TYPE'', DICTIONARY_NUMBER 0), (''LOGGER_MAX_LEVEL'', DICTIONARY_NUMBER 3),
     (''RASTA_REDUNDANCY_CONNECTIONS'', DICTIONARY_ARRAY (map (\<lambda>x. Some (print_address x)) (connections (redundancy example_config)))),
     (''RASTA_REMOTE_REDUNDANCY_CONNECTIONS'', DICTIONARY_ARRAY (map (\<lambda>x. Some (print_address x)) (connections (redundancy_remote example_config)))),
     (''RASTA_ACCEPTED_VERSIONS'', DICTIONARY_ARRAY [Some ''0303'']), (''RASTA_INITIAL_SEQ'', DICTIONARY_NUMBER 5),
     (''RASTA_MAX_PACKET'', DICTIONARY_NUMBER 2), (''RASTA_SR_CHECKSUM_LEN'', DICTIONARY_STRING ''FULL''),
     (''RASTA_MD4_A'', DICTIONARY_NUMBER 7), (''RASTA_CRC_TYPE'', DICTIONARY_STRING ''TYPE_B''),
     (''RASTA_T_SEQ'', DICTIONARY_NUMBER 50)]"

lemma example_addresses_ok:
  "\<forall>x \<in> set (connections (redundancy example_config) @ connections (redundancy_remote example_config)). address_ok x"
proof -
  have *: "address_ok \<lparr>ip = a @ CHR ''.'' # b @ CHR ''.'' # c @ CHR ''.'' # d, ip_port = p\<rparr>"
    if "octet a" "octet b" "octet c" "octet d" "0 < p" "p < 10 ^ 9" for a b c d p
    using that by (auto simp: address_ok_def)
  have o: "octet ''10''" "octet ''0''" "octet ''1''" "octet ''2''" by (simp_all add: octet_def isdigit_def)
  show ?thesis
    using * [OF o(1,2,2,3), of 8888] * [OF o(1,2,3,3), of 8889] * [OF o(1,2,2,4), of 8888] * [OF o(1,2,3,4), of 8889]
    by (simp add: example_config_def)
qed

lemma port_digits: "char_of (56 :: nat) = CHR ''8''" "char_of (57 :: nat) = CHR ''9''"
  by code_simp+

lemma loaded_lines_ok: "\<forall>kv \<in> set loaded_lines. line_ok kv"
  by (simp add: loaded_lines_def example_config_def line_ok_def print_line_def quoted_def text_ok_def decimal.simps uppercase_def
      is_ident_def isdigit_def isalpha_def islower_def isupper_def toupper_def newline_def CONFIG_BUFFER_LENGTH_def
      MAX_DICTIONARY_STRING_LENGTH_BYTES_def print_address_def port_digits)

lemma loaded_values:
  "value_of loaded_lines ''RASTA_MAX_PACKET'' = DICTIONARY_NUMBER 2" "value_of loaded_lines ''RASTA_T_MAX'' = DICTIONARY_ERROR"
  "value_of loaded_lines ''RASTA_MD4_TYPE'' = DICTIONARY_ERROR" "value_of loaded_lines ''RASTA_SR_CHECKSUM_LEN'' = DICTIONARY_STRING ''FULL''"
  "value_of loaded_lines ''RASTA_MD4_A'' = DICTIONARY_NUMBER 7" "value_of loaded_lines ''RASTA_MD4_B'' = DICTIONARY_ERROR"
  "value_of loaded_lines ''RASTA_CRC_TYPE'' = DICTIONARY_STRING ''TYPE_B''" "value_of loaded_lines ''RASTA_T_SEQ'' = DICTIONARY_NUMBER 50"
  "value_of loaded_lines ''RASTA_N_DIAGNOSE'' = DICTIONARY_ERROR" "value_of loaded_lines ''RASTA_SR_CHECKSUM_ALGO'' = DICTIONARY_ERROR"
  by (simp_all add: value_of_def loaded_lines_def)


end
