(* ===== verification/Rasta_TLS.thy ===== *)
theory Rasta_TLS
  imports Rasta_Events
begin

text \<open>
  The TLS and DTLS transports: \<open>transport/ssl_utils.c\<close>, \<open>transport/tls.c\<close>, \<open>transport/dtls.c\<close>, and what
  \<open>ENABLE_TLS\<close> adds to \<open>tcp_base.c\<close>, \<open>udp_base.c\<close> and \<open>events.c\<close>. wolfSSL is not part of the repository: it is an
  environment that answers calls. \<open>wolf_calls\<close> lists the calls in order, with their arguments; the answers
  are functions of the number of the call, and the constants of its headers are parameters. A pointer is 0,
  the null pointer, or names the object by the call that returned it, so that an object is never mistaken
  for an earlier one that had the same address. Nothing is said about what a call does: the theorems are about
  which calls are made, in which order, and what follows from the answers.
\<close>

section \<open>State\<close>

datatype wolf_call =
  wolfSSL_Init | wolfSSL_CTX_new string | wolfSSL_CTX_load_verify_locations nat string |
  wolfSSL_CTX_use_certificate_file nat string | wolfSSL_CTX_use_PrivateKey_file nat string | wolfSSL_CTX_free nat |
  wolfSSL_new nat | wolfSSL_set_fd nat int | wolfSSL_accept nat | wolfSSL_connect nat | wolfSSL_check_domain_name nat string |
  wolfSSL_get_error nat | wolfSSL_set_using_nonblock nat | wolfSSL_dtls_set_using_nonblock nat |
  wolfSSL_dtls_set_peer nat "string \<times> u16" | wolfSSL_write nat bytes | wolfSSL_read nat nat | wolfSSL_KeepArrays nat |
  wolfSSL_shutdown nat | wolfSSL_free nat | wolfSSL_get_peer_certificate nat | wolfSSL_X509_load_certificate_file string |
  wolfSSL_X509_get_der nat | wolfSSL_X509_digest nat | wolfSSL_X509_free nat

datatype rasta_tls_connection_state =
  RASTA_TLS_CONNECTION_READY | RASTA_TLS_CONNECTION_ESTABLISHED | RASTA_TLS_CONNECTION_CLOSED

text \<open>The fields that \<open>ENABLE_TLS\<close> adds to a transport channel and to a socket.\<close>

record tls_fields =
  tls_ctx :: nat
  tls_ssl :: nat
  tls_state :: rasta_tls_connection_state

text \<open>All sockets and channels point to the one configuration of the endpoint.\<close>

record rasta_config_tls =
  ca_cert_path :: "string option"
  cert_path :: "string option"
  key_path :: "string option"
  tls_hostname :: string
  peer_tls_cert_path :: "string option"

record wolfssl =
  SSL_SUCCESS :: int
  WOLFSSL_SUCCESS :: int
  SSL_ERROR_WANT_READ :: int
  SSL_ERROR_WANT_WRITE :: int
  SOCKET_PEER_CLOSED_E :: int
  wolf_result :: "nat \<Rightarrow> int"
  wolf_null :: "nat \<Rightarrow> bool"
  wolf_bytes :: "nat \<Rightarrow> bytes"

record tls_st =
  lower :: rasta_st
  channel_tls :: "nat \<Rightarrow> tls_fields"
  socket_tls :: "nat \<Rightarrow> tls_fields"
  tls_config :: rasta_config_tls
  wolfssl_initialized :: bool
  wolf_calls :: "wolf_call list"

definition map_channel_tls :: "nat \<Rightarrow> (tls_fields \<Rightarrow> tls_fields) \<Rightarrow> tls_st \<Rightarrow> tls_st" where
  "map_channel_tls i f t = t\<lparr>channel_tls := (channel_tls t)(i := f (channel_tls t i))\<rparr>"

definition map_socket_tls :: "nat \<Rightarrow> (tls_fields \<Rightarrow> tls_fields) \<Rightarrow> tls_st \<Rightarrow> tls_st" where
  "map_socket_tls i f t = t\<lparr>socket_tls := (socket_tls t)(i := f (socket_tls t i))\<rparr>"

definition map_lower :: "(rasta_st \<Rightarrow> rasta_st) \<Rightarrow> tls_st \<Rightarrow> tls_st" where
  "map_lower f t = t\<lparr>lower := f (lower t)\<rparr>"

text \<open>A call of the library, with an integer, a pointer or no result.\<close>

definition wolf :: "wolf_call \<Rightarrow> tls_st \<Rightarrow> tls_st" where
  "wolf c t = t\<lparr>wolf_calls := wolf_calls t @ [c]\<rparr>"

definition wolf_int :: "wolfssl \<Rightarrow> wolf_call \<Rightarrow> tls_st \<Rightarrow> int \<times> tls_st" where
  "wolf_int W c t = (wolf_result W (length (wolf_calls t)), wolf c t)"

definition wolf_object :: "wolfssl \<Rightarrow> nat \<Rightarrow> nat" where
  "wolf_object W n = (if wolf_null W n then 0 else Suc n)"

definition wolf_ptr :: "wolfssl \<Rightarrow> wolf_call \<Rightarrow> tls_st \<Rightarrow> nat \<times> tls_st" where
  "wolf_ptr W c t = (wolf_object W (length (wolf_calls t)), wolf c t)"

text \<open>A call that has to return a given value; the code aborts otherwise.\<close>

definition wolf_must :: "int \<Rightarrow> wolfssl \<Rightarrow> wolf_call \<Rightarrow> tls_st \<Rightarrow> tls_st option" where
  "wolf_must good W c t = (let (r, t) = wolf_int W c t in if r \<noteq> good then None else Some t)"

definition wolf_alloc :: "wolfssl \<Rightarrow> wolf_call \<Rightarrow> tls_st \<Rightarrow> (nat \<times> tls_st) option" where
  "wolf_alloc W c t = (let (p, t) = wolf_ptr W c t in if p = 0 then None else Some (p, t))"

text \<open>A call of the operating system.\<close>

definition sys :: "tls_st \<Rightarrow> int \<times> tls_st" where
  "sys t = (let (r, s) = call (lower t) in (r, t\<lparr>lower := s\<rparr>))"

section \<open>Sessions (ssl_utils.c)\<close>

definition wolfssl_initialize_if_necessary :: "tls_st \<Rightarrow> tls_st" where
  "wolfssl_initialize_if_necessary t =
     (if \<not> wolfssl_initialized t then wolf wolfSSL_Init (t\<lparr>wolfssl_initialized := True\<rparr>) else t)"

definition wolfssl_start_server :: "wolfssl \<Rightarrow> nat \<Rightarrow> string \<Rightarrow> tls_st \<Rightarrow> tls_st option" where
  "wolfssl_start_server W sk server_method t = do {
     let t = wolfssl_initialize_if_necessary t;
     (ctx, t) \<leftarrow> wolf_alloc W (wolfSSL_CTX_new server_method) t;
     let t = map_socket_tls sk (\<lambda>x. x\<lparr>tls_ctx := ctx\<rparr>) t;
     ca \<leftarrow> ca_cert_path (tls_config t);
     cert \<leftarrow> cert_path (tls_config t);
     key_file \<leftarrow> key_path (tls_config t);
     t \<leftarrow> wolf_must (SSL_SUCCESS W) W (wolfSSL_CTX_load_verify_locations ctx ca) t;
     t \<leftarrow> wolf_must (SSL_SUCCESS W) W (wolfSSL_CTX_use_certificate_file ctx cert) t;
     wolf_must (SSL_SUCCESS W) W (wolfSSL_CTX_use_PrivateKey_file ctx key_file) t
   }"

definition wolfssl_start_tls_server :: "wolfssl \<Rightarrow> nat \<Rightarrow> tls_st \<Rightarrow> tls_st option" where
  "wolfssl_start_tls_server W sk t = wolfssl_start_server W sk ''wolfTLSv1_3_server_method'' t"

text \<open>The descriptor of the socket, of the endpoint below.\<close>

definition socket_fd :: "nat \<Rightarrow> tls_st \<Rightarrow> int option" where
  "socket_fd sk t = map_option ts_fd (socket_at sk (lower t))"

definition channel_fd :: "nat \<Rightarrow> tls_st \<Rightarrow> int option" where
  "channel_fd i t = map_option tc_fd (channel_at i (lower t))"

text \<open>A session on a socket, as \<open>wolfssl_start_dtls_server\<close> and \<open>wolfssl_start_dtls_client\<close> create it.\<close>

definition wolfssl_start_dtls_server :: "wolfssl \<Rightarrow> nat \<Rightarrow> tls_st \<Rightarrow> tls_st option" where
  "wolfssl_start_dtls_server W sk t = do {
     t \<leftarrow> wolfssl_start_server W sk ''wolfDTLSv1_2_server_method'' t;
     (ssl, t) \<leftarrow> wolf_alloc W (wolfSSL_new (tls_ctx (socket_tls t sk))) t;
     let t = map_socket_tls sk (\<lambda>x. x\<lparr>tls_ssl := ssl\<rparr>) t;
     fd \<leftarrow> socket_fd sk t;
     Some (map_socket_tls sk (\<lambda>x. x\<lparr>tls_state := RASTA_TLS_CONNECTION_READY\<rparr>) (wolf (wolfSSL_set_fd ssl fd) t))
   }"

text \<open>The new context is stored by the caller.\<close>

definition wolfssl_start_client :: "wolfssl \<Rightarrow> string \<Rightarrow> tls_st \<Rightarrow> (nat \<times> tls_st) option" where
  "wolfssl_start_client W client_method t = do {
     let t = wolfssl_initialize_if_necessary t;
     (ctx, t) \<leftarrow> wolf_alloc W (wolfSSL_CTX_new client_method) t;
     ca \<leftarrow> ca_cert_path (tls_config t);
     t \<leftarrow> wolf_must (SSL_SUCCESS W) W (wolfSSL_CTX_load_verify_locations ctx ca) t;
     (case (cert_path (tls_config t), key_path (tls_config t)) of
        (Some cert, Some key_file) \<Rightarrow> do {
          t \<leftarrow> wolf_must (SSL_SUCCESS W) W (wolfSSL_CTX_use_certificate_file ctx cert) t;
          t \<leftarrow> wolf_must (SSL_SUCCESS W) W (wolfSSL_CTX_use_PrivateKey_file ctx key_file) t;
          Some (ctx, t)
        }
      | _ \<Rightarrow> Some (ctx, t))
   }"

definition wolfssl_start_tls_client :: "wolfssl \<Rightarrow> nat \<Rightarrow> tls_st \<Rightarrow> tls_st option" where
  "wolfssl_start_tls_client W i t = do {
     (ctx, t) \<leftarrow> wolfssl_start_client W ''wolfTLSv1_3_client_method'' t;
     Some (map_channel_tls i (\<lambda>x. x\<lparr>tls_ctx := ctx\<rparr>) t)
   }"

definition wolfssl_start_dtls_client :: "wolfssl \<Rightarrow> nat \<Rightarrow> tls_st \<Rightarrow> tls_st option" where
  "wolfssl_start_dtls_client W sk t = do {
     (ctx, t) \<leftarrow> wolfssl_start_client W ''wolfDTLSv1_2_client_method'' t;
     let t = map_socket_tls sk (\<lambda>x. x\<lparr>tls_ctx := ctx\<rparr>) t;
     (ssl, t) \<leftarrow> wolf_alloc W (wolfSSL_new ctx) t;
     let t = map_socket_tls sk (\<lambda>x. x\<lparr>tls_ssl := ssl\<rparr>) t;
     t \<leftarrow> (if tls_hostname (tls_config t) \<noteq> [] then wolf_must (SSL_SUCCESS W) W (wolfSSL_check_domain_name ssl (tls_hostname (tls_config t))) t
          else Some t);
     fd \<leftarrow> socket_fd sk t;
     Some (map_socket_tls sk (\<lambda>x. x\<lparr>tls_state := RASTA_TLS_CONNECTION_READY\<rparr>) (wolf (wolfSSL_set_fd ssl fd) t))
   }"

text \<open>\<open>fcntl\<close> twice, then the call that tells the library.\<close>

definition set_socket_async :: "(nat \<Rightarrow> wolf_call) \<Rightarrow> nat \<Rightarrow> tls_st \<Rightarrow> tls_st option" where
  "set_socket_async wolfssl_async_method ssl t =
     (let (r, t) = sys t
      in if r < 0 then None
         else let (r, t) = sys t in if r \<noteq> 0 then None else Some (wolf (wolfssl_async_method ssl) t))"

definition set_tls_async :: "nat \<Rightarrow> tls_st \<Rightarrow> tls_st option" where
  "set_tls_async = set_socket_async wolfSSL_set_using_nonblock"

definition set_dtls_async :: "nat \<Rightarrow> tls_st \<Rightarrow> tls_st option" where
  "set_dtls_async = set_socket_async wolfSSL_dtls_set_using_nonblock"

text \<open>The digest goes to a buffer of 64 bytes.\<close>

definition SHA256_BUFFER_LENGTH_BYTES :: nat where "SHA256_BUFFER_LENGTH_BYTES = 64"

definition generate_certificate_digest :: "wolfssl \<Rightarrow> nat \<Rightarrow> tls_st \<Rightarrow> (bytes \<times> tls_st) option" where
  "generate_certificate_digest W cert t = do {
     (_, t) \<leftarrow> wolf_alloc W (wolfSSL_X509_get_der cert) t;
     let digest = wolf_bytes W (length (wolf_calls t));
     t \<leftarrow> wolf_must (SSL_SUCCESS W) W (wolfSSL_X509_digest cert) t;
     if length digest > SHA256_BUFFER_LENGTH_BYTES then None else Some (digest, t)
   }"

definition tls_pin_certificate :: "wolfssl \<Rightarrow> nat \<Rightarrow> tls_st \<Rightarrow> tls_st option" where
  "tls_pin_certificate W ssl t =
     (case peer_tls_cert_path (tls_config t) of
        None \<Rightarrow> Some t
      | Some path \<Rightarrow> do {
          (peer_cert, t) \<leftarrow> wolf_alloc W (wolfSSL_get_peer_certificate ssl) t;
          (pinned_cert, t) \<leftarrow> wolf_alloc W (wolfSSL_X509_load_certificate_file path) t;
          (peer_digest, t) \<leftarrow> generate_certificate_digest W peer_cert t;
          (pinned_digest, t) \<leftarrow> generate_certificate_digest W pinned_cert t;
          if length peer_digest \<noteq> length pinned_digest then None
          else if memcmp peer_digest pinned_digest \<noteq> 0 then None
          else Some (wolf (wolfSSL_X509_free peer_cert) (wolf (wolfSSL_X509_free pinned_cert) t))
        })"

definition wolfssl_send :: "wolfssl \<Rightarrow> nat \<Rightarrow> bytes \<Rightarrow> tls_st \<Rightarrow> tls_st option" where
  "wolfssl_send W ssl message t =
     (let (r, t) = wolf_int W (wolfSSL_write ssl message) t in if r \<noteq> int (length message) then None else Some t)"

definition wolfssl_send_tls :: "wolfssl \<Rightarrow> nat \<Rightarrow> bytes \<Rightarrow> tls_st \<Rightarrow> tls_st option" where
  "wolfssl_send_tls W ssl message t = wolfssl_send W ssl message t"

definition wolfssl_send_dtls :: "wolfssl \<Rightarrow> nat \<Rightarrow> bytes \<Rightarrow> string \<times> u16 \<Rightarrow> tls_st \<Rightarrow> tls_st option" where
  "wolfssl_send_dtls W i message receiver t = do {
     t \<leftarrow> (if tls_state (channel_tls t i) \<noteq> RASTA_TLS_CONNECTION_ESTABLISHED then do {
            let ssl = tls_ssl (channel_tls t i);
            let t = wolf (wolfSSL_dtls_set_peer ssl receiver) t;
            t \<leftarrow> wolf_must (SSL_SUCCESS W) W (wolfSSL_connect ssl) t;
            t \<leftarrow> tls_pin_certificate W ssl t;
            set_dtls_async ssl (map_channel_tls i (\<lambda>x. x\<lparr>tls_state := RASTA_TLS_CONNECTION_ESTABLISHED\<rparr>) t)
          }
          else Some t);
     wolfssl_send W (tls_ssl (channel_tls t i)) message t
   }"

text \<open>
  The loop that reads as many bytes as there are. The library writes as many bytes as it returns; more
  than the rest of the buffer would be outside of it. The result is the last answer and what was read.
\<close>

function read_loop :: "wolfssl \<Rightarrow> nat \<Rightarrow> nat \<Rightarrow> bytes \<Rightarrow> tls_st \<Rightarrow> ((int \<times> bytes) \<times> tls_st) option" where
  "read_loop W ssl max_buffer_len got t =
     (let data = wolf_bytes W (length (wolf_calls t));
          (receive_len, t) = wolf_int W (wolfSSL_read ssl max_buffer_len) t
      in if receive_len < 0 then Some ((receive_len, got), t)
         else if nat receive_len > max_buffer_len then None
         else
           let got = got @ take (nat receive_len) (data @ replicate (nat receive_len) 0)
           in if receive_len > 0 \<and> max_buffer_len - nat receive_len > 0
              then read_loop W ssl (max_buffer_len - nat receive_len) got t
              else Some ((receive_len, got), t))"
  by pat_completeness auto
termination by (relation "measure (\<lambda>(_, _, n, _, _). n)") auto

declare read_loop.simps [simp del]

definition wolfssl_receive_tls :: "wolfssl \<Rightarrow> nat \<Rightarrow> bytes \<Rightarrow> tls_st \<Rightarrow> ((int \<times> bytes) \<times> tls_st) option" where
  "wolfssl_receive_tls W ssl buffer t = do {
     ((receive_len, got), t) \<leftarrow> read_loop W ssl (length buffer) [] t;
     let result = got @ drop (length got) buffer;
     if receive_len < 0 then
       let (readErr, t) = wolf_int W (wolfSSL_get_error ssl) t
       in if readErr = SOCKET_PEER_CLOSED_E W then Some ((-1, result), t)
          else if readErr \<noteq> SSL_ERROR_WANT_READ W \<and> readErr \<noteq> SSL_ERROR_WANT_WRITE W then None
          else Some ((int (length got), result), t)
     else Some ((int (length got), result), t)
   }"

text \<open>The calls of \<open>wolfssl_cleanup_channel\<close> and \<open>wolfssl_cleanup_socket\<close>; the descriptor is set to 0.\<close>

definition wolfssl_cleanup :: "tls_fields \<Rightarrow> tls_st \<Rightarrow> tls_st" where
  "wolfssl_cleanup x t = wolf (wolfSSL_CTX_free (tls_ctx x)) (wolf (wolfSSL_free (tls_ssl x))
     (wolf (wolfSSL_shutdown (tls_ssl x)) (wolf (wolfSSL_set_fd (tls_ssl x) 0) t)))"

definition closed_tls :: "tls_fields \<Rightarrow> tls_fields" where
  "closed_tls x = x\<lparr>tls_state := RASTA_TLS_CONNECTION_CLOSED, tls_ctx := 0, tls_ssl := 0\<rparr>"

definition wolfssl_cleanup_channel :: "nat \<Rightarrow> tls_st \<Rightarrow> tls_st" where
  "wolfssl_cleanup_channel i t = map_channel_tls i closed_tls (wolfssl_cleanup (channel_tls t i) t)"

definition wolfssl_cleanup_socket :: "nat \<Rightarrow> tls_st \<Rightarrow> tls_st" where
  "wolfssl_cleanup_socket sk t = map_socket_tls sk closed_tls (wolfssl_cleanup (socket_tls t sk) t)"

section \<open>TLS over TCP (tls.c)\<close>

text \<open>\<open>tls.c\<close> defines the functions of \<open>tcp.c\<close> again. Logging of the secrets for Wireshark is left out.\<close>

definition tcp_listen_tls :: "wolfssl \<Rightarrow> nat \<Rightarrow> tls_st \<Rightarrow> tls_st option" where
  "tcp_listen_tls W sk t =
     (let (r, t) = sys t in if r < 0 then None else wolfssl_start_tls_server W sk t)"

definition tcp_accept_tls :: "wolfssl \<Rightarrow> nat \<Rightarrow> tls_st \<Rightarrow> (int \<times> tls_st) option" where
  "tcp_accept_tls W sk t =
     (let (fd, t) = sys t
      in if fd < 0 then None
         else do {
           (ssl, t) \<leftarrow> wolf_alloc W (wolfSSL_new (tls_ctx (socket_tls t sk))) t;
           let t = map_socket_tls sk (\<lambda>x. x\<lparr>tls_ssl := ssl\<rparr>) t;
           let t = wolf (wolfSSL_set_fd ssl fd) t;
           let t = map_socket_tls sk (\<lambda>x. x\<lparr>tls_state := RASTA_TLS_CONNECTION_READY\<rparr>) t;
           t \<leftarrow> wolf_must (WOLFSSL_SUCCESS W) W (wolfSSL_accept ssl) t;
           t \<leftarrow> tls_pin_certificate W ssl t;
           t \<leftarrow> set_tls_async ssl t;
           Some (fd, t)
         })"

text \<open>The part of \<open>tcp_connect\<close> after \<open>connect\<close>: the session on a channel that has a context.\<close>

definition connect_session :: "wolfssl \<Rightarrow> nat \<Rightarrow> int \<Rightarrow> tls_st \<Rightarrow> (int \<times> tls_st) option" where
  "connect_session W i fd t =
     (let (ssl, t) = wolf_ptr W (wolfSSL_new (tls_ctx (channel_tls t i))) t;
          t = map_channel_tls i (\<lambda>x. x\<lparr>tls_ssl := ssl\<rparr>) t
      in if ssl = 0 then Some (1, wolf (wolfSSL_get_error ssl) t)
         else
           let host = tls_hostname (tls_config t);
               (r, t) = (if host \<noteq> [] then wolf_int W (wolfSSL_check_domain_name ssl host) t else (SSL_SUCCESS W, t))
           in if r \<noteq> SSL_SUCCESS W then Some (1, t)
              else
                let (r, t) = wolf_int W (wolfSSL_set_fd ssl fd) t
                in if r \<noteq> WOLFSSL_SUCCESS W then Some (1, t)
                   else
                     let (r, t) = wolf_int W (wolfSSL_connect ssl) (wolf (wolfSSL_KeepArrays ssl) t)
                     in if r \<noteq> WOLFSSL_SUCCESS W then Some (1, wolf (wolfSSL_get_error ssl) t)
                        else do {
                          t \<leftarrow> tls_pin_certificate W ssl t;
                          t \<leftarrow> set_tls_async ssl t;
                          Some (0, map_lower (map_channel i (\<lambda>c. c\<lparr>connected := True\<rparr>)) t)
                        })"

definition tcp_connect_tls :: "wolfssl \<Rightarrow> nat \<Rightarrow> tls_st \<Rightarrow> (int \<times> tls_st) option" where
  "tcp_connect_tls W i t = do {
     c \<leftarrow> channel_at i (lower t);
     if \<not> valid_address (net (lower t)) (remote_ip_address c) then None
     else
       let (r, t) = sys t
       in if r < 0 then Some (1, map_lower (map_channel i (\<lambda>c. c\<lparr>connected := False\<rparr>)) t)
          else do {
            t \<leftarrow> (if tls_ctx (channel_tls t i) = 0 then wolfssl_start_tls_client W i t else Some t);
            connect_session W i (tc_fd c) t
          }
   }"

definition tcp_receive_tls :: "wolfssl \<Rightarrow> nat \<Rightarrow> bytes \<Rightarrow> tls_st \<Rightarrow> ((int \<times> bytes) \<times> tls_st) option" where
  "tcp_receive_tls W i buffer t = wolfssl_receive_tls W (tls_ssl (channel_tls t i)) buffer t"

definition tcp_send_tls :: "wolfssl \<Rightarrow> nat \<Rightarrow> bytes \<Rightarrow> tls_st \<Rightarrow> tls_st option" where
  "tcp_send_tls W i message t = wolfssl_send_tls W (tls_ssl (channel_tls t i)) message t"

text \<open>The operating system below: \<open>bsd_close\<close>.\<close>

definition lower_close :: "int \<Rightarrow> tls_st \<Rightarrow> tls_st option" where
  "lower_close fd t = do { s \<leftarrow> bsd_close fd (lower t); Some (t\<lparr>lower := s\<rparr>) }"

definition tcp_close_tls :: "nat \<Rightarrow> rasta_transport_channel \<Rightarrow> tls_st \<Rightarrow> tls_st option" where
  "tcp_close_tls i c t = lower_close (tc_fd c) (wolfssl_cleanup_channel i t)"

section \<open>DTLS over UDP (dtls.c)\<close>

text \<open>\<open>recvfrom\<close> with \<open>MSG_PEEK\<close> gives the address of the sender.\<close>

definition get_client_addr_from_socket :: "tls_st \<Rightarrow> ((string \<times> u16) \<times> tls_st) option" where
  "get_client_addr_from_socket t =
     (let n = net (lower t); addr = peer n (n_calls n); (r, t) = sys t
      in if r < 0 then None else Some (addr, t))"

definition wolfssl_accept :: "wolfssl \<Rightarrow> nat \<Rightarrow> tls_st \<Rightarrow> tls_st option" where
  "wolfssl_accept W sk t = do {
     (_, t) \<leftarrow> get_client_addr_from_socket t;
     let (r, t) = sys t;
     if r \<noteq> 0 then None
     else do {
       let ssl = tls_ssl (socket_tls t sk);
       t \<leftarrow> wolf_must (SSL_SUCCESS W) W (wolfSSL_accept ssl) t;
       t \<leftarrow> tls_pin_certificate W ssl t;
       set_dtls_async ssl t
     }
   }"

text \<open>The part of \<open>wolfssl_receive_dtls\<close> that reads; an end of the connection is an error here.\<close>

definition read_dtls :: "wolfssl \<Rightarrow> nat \<Rightarrow> bytes \<Rightarrow> tls_st \<Rightarrow> ((int \<times> bytes) \<times> tls_st) option" where
  "read_dtls W ssl buffer t = do {
     ((receive_len, got), t) \<leftarrow> read_loop W ssl (length buffer) [] t;
     let result = (int (length got), got @ drop (length got) buffer);
     if receive_len < 0 then
       let (readErr, t) = wolf_int W (wolfSSL_get_error ssl) t
       in if readErr \<noteq> SSL_ERROR_WANT_READ W \<and> readErr \<noteq> SSL_ERROR_WANT_WRITE W then None else Some (result, t)
     else Some (result, t)
   }"

definition wolfssl_receive_dtls ::
  "wolfssl \<Rightarrow> nat \<Rightarrow> bytes \<Rightarrow> tls_st \<Rightarrow> ((int \<times> bytes \<times> (string \<times> u16)) \<times> tls_st) option" where
  "wolfssl_receive_dtls W sk buffer t = do {
     (sender, t) \<leftarrow> get_client_addr_from_socket t;
     let channel = find_channel_by_ip_address (lower t) (fst sender) (snd sender);
     let t = (case channel of
                Some i \<Rightarrow>
                  if tls_state (channel_tls t i) = RASTA_TLS_CONNECTION_ESTABLISHED
                  then map_socket_tls sk (\<lambda>x. x\<lparr>tls_state := RASTA_TLS_CONNECTION_ESTABLISHED,
                         tls_ssl := tls_ssl (channel_tls t i)\<rparr>) t
                  else t
              | None \<Rightarrow> t);
     (case tls_state (socket_tls t sk) of
        RASTA_TLS_CONNECTION_READY \<Rightarrow> do {
          t \<leftarrow> wolfssl_accept W sk t;
          let t = map_socket_tls sk (\<lambda>x. x\<lparr>tls_state := RASTA_TLS_CONNECTION_ESTABLISHED\<rparr>) t;
          let t = (case channel of
                     Some i \<Rightarrow> map_channel_tls i (\<lambda>x. x\<lparr>tls_state := tls_state (socket_tls t sk),
                                 tls_ssl := tls_ssl (socket_tls t sk)\<rparr>) t
                   | None \<Rightarrow> t);
          Some ((0, buffer, sender), t)
        }
      | RASTA_TLS_CONNECTION_ESTABLISHED \<Rightarrow> do {
          ((n, buffer), t) \<leftarrow> read_dtls W (tls_ssl (socket_tls t sk)) buffer t;
          Some ((n, buffer, sender), t)
        }
      | RASTA_TLS_CONNECTION_CLOSED \<Rightarrow> Some ((0, buffer, sender), t))
   }"

definition is_dtls_server :: "rasta_config_tls \<Rightarrow> bool" where
  "is_dtls_server tls \<longleftrightarrow> cert_path tls \<noteq> None \<and> key_path tls \<noteq> None"

definition handle_tls_mode :: "wolfssl \<Rightarrow> nat \<Rightarrow> tls_st \<Rightarrow> tls_st option" where
  "handle_tls_mode W sk t =
     (if is_dtls_server (tls_config t) then wolfssl_start_dtls_server W sk t else wolfssl_start_dtls_client W sk t)"

definition udp_close_dtls :: "nat \<Rightarrow> rasta_transport_socket \<Rightarrow> tls_st \<Rightarrow> tls_st option" where
  "udp_close_dtls sk socket t = lower_close (ts_fd socket) (wolfssl_cleanup_socket sk t)"

text \<open>\<open>host_port_to_sockaddr\<close> aborts when the address is not valid.\<close>

definition udp_send_dtls :: "wolfssl \<Rightarrow> nat \<Rightarrow> bytes \<Rightarrow> string \<Rightarrow> u16 \<Rightarrow> tls_st \<Rightarrow> tls_st option" where
  "udp_send_dtls W i message host port t =
     (if valid_address (net (lower t)) host then wolfssl_send_dtls W i message (host, port) t else None)"

end
