(* ===== verification/Rasta_TLS_Transport.thy ===== *)
theory Rasta_TLS_Transport
  imports Rasta_TLS
begin

text \<open>
  The transport interface of the builds with TLS and DTLS: what \<open>ENABLE_TLS\<close> changes in \<open>tcp_base.c\<close>,
  \<open>udp_base.c\<close>, \<open>events.c\<close> and the send loop of the redundancy layer, over the sessions of \<open>Rasta_TLS\<close>. The names
  are those of the source with \<open>_tls\<close> at the end; \<open>Rasta_Transport\<close> and \<open>Rasta_Events\<close> have the plain versions.
\<close>

section \<open>The transport interface\<close>

definition lift_lower :: "(rasta_st \<Rightarrow> rasta_st option) \<Rightarrow> tls_st \<Rightarrow> tls_st option" where
  "lift_lower f t = map_option (\<lambda>s. t\<lparr>lower := s\<rparr>) (f (lower t))"

definition transport_bind_tls :: "wolfssl \<Rightarrow> nat \<Rightarrow> tls_st \<Rightarrow> (bool \<times> tls_st) option" where
  "transport_bind_tls W sk t =
     (let (b, s) = bsd_bind_device (lower t); t = t\<lparr>lower := s\<rparr>
      in case transport_lib s of
           TCP \<Rightarrow> Some (b, t)
         | UDP \<Rightarrow> if b then map_option (Pair True) (handle_tls_mode W sk t) else Some (False, t))"

definition transport_listen_tls :: "wolfssl \<Rightarrow> nat \<Rightarrow> tls_st \<Rightarrow> tls_st option" where
  "transport_listen_tls W sk t = do {
     _ \<leftarrow> socket_at sk (lower t);
     (case transport_lib (lower t) of
        TCP \<Rightarrow> do {
          t \<leftarrow> tcp_listen_tls W sk t;
          Some (map_lower (map_socket sk (\<lambda>k. k\<lparr>accept_event := enable_fd_event (accept_event k)\<rparr>)) t)
        }
      | UDP \<Rightarrow> lift_lower (udp_transport_listen sk) t)
   }"

text \<open>\<open>getpeername\<close> follows \<open>tcp_accept\<close>.\<close>

definition transport_accept_tls :: "wolfssl \<Rightarrow> nat \<Rightarrow> tls_st \<Rightarrow> ((int \<times> (string \<times> u16)) \<times> tls_st) option" where
  "transport_accept_tls W sk t =
     (case transport_lib (lower t) of
        TCP \<Rightarrow> do {
          (fd, t) \<leftarrow> tcp_accept_tls W sk t;
          let addr = peer (net (lower t)) (n_calls (net (lower t)));
          let (r, t) = sys t;
          if r \<noteq> 0 then None else Some ((fd, addr), t)
        }
      | UDP \<Rightarrow> Some ((0, uninit_address (lower t)), t))"

definition tcp_transport_connect_tls ::
  "wolfssl \<Rightarrow> nat \<Rightarrow> nat \<Rightarrow> rasta_transport_socket \<Rightarrow> tls_st \<Rightarrow> (int \<times> tls_st) option" where
  "tcp_transport_connect_tls W sk i socket t = do {
     let t = map_lower (map_channel i (\<lambda>c. c\<lparr>tc_fd := ts_fd socket, associated_socket := Some sk\<rparr>)) t;
     (r, t) \<leftarrow> tcp_connect_tls W i t;
     if r \<noteq> 0 then Some (-1, t)
     else Some (0, map_lower (map_channel i (\<lambda>c. c\<lparr>tc_receive_event :=
            enable_fd_event ((tc_receive_event c)\<lparr>ev_fd := tc_fd c\<rparr>)\<rparr>)) t)
   }"

definition udp_transport_connect_tls ::
  "nat \<Rightarrow> nat \<Rightarrow> rasta_transport_socket \<Rightarrow> tls_st \<Rightarrow> (int \<times> tls_st) option" where
  "udp_transport_connect_tls sk i socket t = do {
     (r, s) \<leftarrow> udp_transport_connect sk i socket (lower t);
     Some (r, map_channel_tls i (\<lambda>x. x\<lparr>tls_state := RASTA_TLS_CONNECTION_READY,
       tls_ctx := tls_ctx (socket_tls t sk), tls_ssl := tls_ssl (socket_tls t sk)\<rparr>) (t\<lparr>lower := s\<rparr>))
   }"

definition transport_connect_tls :: "wolfssl \<Rightarrow> nat \<Rightarrow> nat \<Rightarrow> tls_st \<Rightarrow> (int \<times> tls_st) option" where
  "transport_connect_tls W sk i t = do {
     socket \<leftarrow> socket_at sk (lower t);
     _ \<leftarrow> channel_at i (lower t);
     (case transport_lib (lower t) of
        TCP \<Rightarrow> tcp_transport_connect_tls W sk i socket t
      | UDP \<Rightarrow> udp_transport_connect_tls sk i socket t)
   }"

definition tcp_transport_redial_tls :: "wolfssl \<Rightarrow> nat \<Rightarrow> tls_st \<Rightarrow> (int \<times> tls_st) option" where
  "tcp_transport_redial_tls W i t = do {
     c \<leftarrow> channel_at i (lower t);
     sk \<leftarrow> associated_socket c;
     socket \<leftarrow> socket_at sk (lower t);
     (fd, s) \<leftarrow> bsd_create_socket (lower t);
     let t = t\<lparr>lower := map_socket sk (\<lambda>k. k\<lparr>ts_fd := fd\<rparr>) s\<rparr>;
     if ts_id socket < length (connections (redundancy (cfg (lower t)))) then do {
       (_, t) \<leftarrow> transport_bind_tls W sk t;
       (r, t) \<leftarrow> transport_connect_tls W sk i t;
       if r \<noteq> 0 then Some (-1, t)
       else Some (0, map_lower (map_socket sk (\<lambda>k. k\<lparr>
              ts_receive_event := (ts_receive_event k)\<lparr>ev_fd := ts_fd k\<rparr>,
              accept_event := (accept_event k)\<lparr>ev_fd := ts_fd k\<rparr>\<rparr>)) t)
     }
     else None
   }"

definition transport_redial_tls :: "wolfssl \<Rightarrow> nat \<Rightarrow> tls_st \<Rightarrow> (int \<times> tls_st) option" where
  "transport_redial_tls W i t =
     (case transport_lib (lower t) of TCP \<Rightarrow> tcp_transport_redial_tls W i t | UDP \<Rightarrow> Some (-1, t))"

definition transport_close_channel_tls :: "nat \<Rightarrow> tls_st \<Rightarrow> tls_st option" where
  "transport_close_channel_tls i t = do {
     c \<leftarrow> channel_at i (lower t);
     (case transport_lib (lower t) of
        TCP \<Rightarrow> do {
          t \<leftarrow> (if connected c
                then do {
                  t \<leftarrow> tcp_close_tls i c t;
                  Some (map_lower (map_channel i (\<lambda>c. c\<lparr>tc_fd := -1, connected := False\<rparr>)) t)
                }
                else Some t);
          Some (map_lower (map_channel i (\<lambda>c. c\<lparr>tc_receive_event := disable_fd_event (tc_receive_event c)\<rparr>)) t)
        }
      | UDP \<Rightarrow> Some t)
   }"

definition transport_close_socket_tls :: "nat \<Rightarrow> tls_st \<Rightarrow> tls_st option" where
  "transport_close_socket_tls sk t = do {
     socket \<leftarrow> socket_at sk (lower t);
     (case transport_lib (lower t) of
        TCP \<Rightarrow> lift_lower (tcp_transport_close_socket sk socket) t
      | UDP \<Rightarrow> do {
          t \<leftarrow> udp_close_dtls sk socket t;
          Some (map_lower (map_socket sk (\<lambda>k. k\<lparr>ts_fd := -1,
            ts_receive_event := disable_fd_event (ts_receive_event k)\<rparr>)) t)
        })
   }"

definition send_callback_tls :: "wolfssl \<Rightarrow> bytes \<Rightarrow> nat \<Rightarrow> tls_st \<Rightarrow> tls_st option" where
  "send_callback_tls W message i t = do {
     c \<leftarrow> channel_at i (lower t);
     (case transport_lib (lower t) of
        TCP \<Rightarrow> tcp_send_tls W i message t
      | UDP \<Rightarrow> udp_send_dtls W i message (remote_ip_address c) (remote_port c) t)
   }"

text \<open>
  \<open>receive_callback\<close>. Over TLS the address of the sender stays as \<open>channel_receive_event\<close> cleared it; the
  callback of a channel does not look at it.
\<close>

definition receive_callback_tls ::
  "wolfssl \<Rightarrow> receive_event_data \<Rightarrow> bytes \<Rightarrow> tls_st \<Rightarrow> ((int \<times> bytes \<times> (string \<times> u16)) \<times> tls_st) option" where
  "receive_callback_tls W data buffer t =
     (case (transport_lib (lower t), data) of
        (TCP, From_Channel i) \<Rightarrow> do {
          ((n, buffer), t) \<leftarrow> tcp_receive_tls W i buffer t;
          Some ((n, buffer, (''0.0.0.0'', 0)), t)
        }
      | (UDP, From_Socket sk) \<Rightarrow> wolfssl_receive_dtls W sk buffer t
      | _ \<Rightarrow> None)"

text \<open>\<open>is_dtls_conn_ready\<close>; the version of \<open>tcp_base.c\<close> returns false, and over TLS there is no socket.\<close>

definition is_dtls_conn_ready :: "receive_event_data \<Rightarrow> tls_st \<Rightarrow> bool" where
  "is_dtls_conn_ready data t =
     (case data of
        From_Socket sk \<Rightarrow> transport_lib (lower t) = UDP \<and> tls_state (socket_tls t sk) = RASTA_TLS_CONNECTION_READY
      | From_Channel i \<Rightarrow> False)"

section \<open>Transport events\<close>

definition channel_accept_event_tls :: "wolfssl \<Rightarrow> nat \<Rightarrow> tls_st \<Rightarrow> (bool \<times> tls_st) option" where
  "channel_accept_event_tls W sk t = do {
     ((fd, (addr, port)), t) \<leftarrow> transport_accept_tls W sk t;
     (case find_channel_by_ip_address (lower t) addr port of
        Some i \<Rightarrow>
          let t = map_lower (map_channel i (\<lambda>c. c\<lparr>tc_fd := fd,
                tc_receive_event := enable_fd_event ((tc_receive_event c)\<lparr>ev_fd := fd\<rparr>),
                connected := True, associated_socket := Some sk\<rparr>)) t
          in Some (False, map_channel_tls i (\<lambda>x. x\<lparr>tls_state := RASTA_TLS_CONNECTION_READY,
               tls_ctx := tls_ctx (socket_tls t sk), tls_ssl := tls_ssl (socket_tls t sk)\<rparr>) t)
      | None \<Rightarrow> let (_, t) = sys t in Some (False, t))
   }"

text \<open>
  \<open>channel_receive_event\<close> up to the call of the layer above: the sender is not known, the connection counts
  as broken (\<open>handle_closed_transport\<close> follows), or the bytes go to \<open>receive_packet\<close>.
\<close>

datatype receive_outcome = Unknown_Peer | Broken nat | Arrived nat int bytes

definition receive_outcome_of ::
  "bool \<Rightarrow> receive_event_data \<Rightarrow> nat \<Rightarrow> int \<Rightarrow> bytes \<Rightarrow> tls_st \<Rightarrow> (receive_outcome \<times> tls_st) option" where
  "receive_outcome_of ready data i len buffer t = do {
     c \<leftarrow> channel_at i (lower t);
     t \<leftarrow> lift_lower (run_channel_diagnostics (tc_id c)) t;
     if len \<le> 0 \<and> \<not> ready
     then Some (Broken i, map_lower (disable_source data \<circ> map_channel i (\<lambda>c. c\<lparr>connected := False\<rparr>)) t)
     else Some (Arrived i len buffer, t)
   }"

definition channel_receive_event_tls :: "wolfssl \<Rightarrow> receive_event_data \<Rightarrow> tls_st \<Rightarrow> (receive_outcome \<times> tls_st) option" where
  "channel_receive_event_tls W data t = do {
     let ready = is_dtls_conn_ready data t;
     ((len, buffer, (addr, port)), t) \<leftarrow> receive_callback_tls W data (replicate MAX_DEFER_QUEUE_MSG_SIZE 0) t;
     (case data of
        From_Channel i \<Rightarrow> receive_outcome_of ready data i len buffer t
      | From_Socket sk \<Rightarrow>
          (case find_channel_by_ip_address (lower t) addr port of
             None \<Rightarrow> Some (Unknown_Peer, t)
           | Some i \<Rightarrow> do {
               socket \<leftarrow> socket_at sk (lower t);
               receive_outcome_of ready data i len buffer
                 (map_lower (map_channel i (\<lambda>c. c\<lparr>tc_fd := ts_fd socket, connected := True\<rparr>)) t)
             }))
   }"

text \<open>The body of the loop of \<open>redundancy_mux_send\<close>.\<close>

definition mux_send_channel_tls :: "wolfssl \<Rightarrow> rasta_role \<Rightarrow> bytes \<Rightarrow> nat \<Rightarrow> tls_st \<Rightarrow> tls_st option" where
  "mux_send_channel_tls W own_role data_to_send i t = do {
     c \<leftarrow> channel_at i (lower t);
     if connected c then send_callback_tls W data_to_send i t
     else if own_role = RASTA_ROLE_CLIENT then do {
       (r, t) \<leftarrow> transport_redial_tls W i t;
       if r \<noteq> 0 then Some t else send_callback_tls W data_to_send i t
     }
     else Some t
   }"

end
