(* ===== verification/Rasta_TLS_Sessions.thy ===== *)
theory Rasta_TLS_Sessions
  imports Rasta_TLS_Transport Rasta_Example
begin

text \<open>
  Every sequence of calls of the TLS or DTLS transport: no application byte is written to a session before its
  handshake succeeded and the certificate of the peer was compared with the pinned one. The invariant
  \<open>tls_inv\<close> is kept by every operation of \<open>Rasta_TLS_Transport\<close>.
\<close>

section \<open>Authenticated sessions\<close>

text \<open>
  Call number \<open>k\<close> is a handshake of the session that succeeded, and the comparison of the certificates
  follows it: the digests of the certificate of the peer and of the file are the same.
\<close>

definition handshake_at :: "wolfssl \<Rightarrow> wolf_call list \<Rightarrow> nat \<Rightarrow> nat \<Rightarrow> bool" where
  "handshake_at W tr k ssl \<longleftrightarrow>
     tr ! k \<in> {wolfSSL_accept ssl, wolfSSL_connect ssl} \<and> wolf_result W k \<in> {SSL_SUCCESS W, WOLFSSL_SUCCESS W}"

definition pin_at :: "wolfssl \<Rightarrow> string \<Rightarrow> wolf_call list \<Rightarrow> nat \<Rightarrow> nat \<Rightarrow> bool" where
  "pin_at W path tr k ssl \<longleftrightarrow> k + 6 < length tr \<and>
     tr ! (k + 1) = wolfSSL_get_peer_certificate ssl \<and> tr ! (k + 4) = wolfSSL_X509_digest (wolf_object W (k + 1)) \<and>
     tr ! (k + 2) = wolfSSL_X509_load_certificate_file path \<and> tr ! (k + 6) = wolfSSL_X509_digest (wolf_object W (k + 2)) \<and>
     wolf_bytes W (k + 4) = wolf_bytes W (k + 6)"

definition secured :: "wolfssl \<Rightarrow> rasta_config_tls \<Rightarrow> wolf_call list \<Rightarrow> nat \<Rightarrow> bool" where
  "secured W tls tr ssl \<longleftrightarrow> (\<exists>k < length tr. handshake_at W tr k ssl \<and>
     (case peer_tls_cert_path tls of None \<Rightarrow> True | Some path \<Rightarrow> pin_at W path tr k ssl))"

lemma pin_at_append: "pin_at W path tr k ssl \<Longrightarrow> pin_at W path (tr @ xs) k ssl"
  by (auto simp: pin_at_def nth_append)

lemma secured_append:
  assumes "secured W tls tr ssl"
  shows "secured W tls (tr @ xs) ssl"
proof -
  obtain k where "k < length tr" "handshake_at W tr k ssl"
    and "case peer_tls_cert_path tls of None \<Rightarrow> True | Some path \<Rightarrow> pin_at W path tr k ssl"
    using assms by (auto simp: secured_def)
  then show ?thesis
    unfolding secured_def
    by (intro exI [of _ k]) (auto simp: handshake_at_def nth_append split: option.splits intro: pin_at_append)
qed

text \<open>No byte is written outside an authenticated session.\<close>

fun written :: "wolf_call \<Rightarrow> nat option" where
  "written (wolfSSL_write ssl message) = Some ssl"
| "written _ = None"

definition writes_secured :: "wolfssl \<Rightarrow> rasta_config_tls \<Rightarrow> wolf_call list \<Rightarrow> bool" where
  "writes_secured W tls tr \<longleftrightarrow>
     (\<forall>n < length tr. case written (tr ! n) of Some ssl \<Rightarrow> secured W tls (take n tr) ssl | None \<Rightarrow> True)"

lemma writes_secured_snoc:
  "writes_secured W tls (tr @ [c]) \<longleftrightarrow> writes_secured W tls tr \<and>
     (case written c of Some ssl \<Rightarrow> secured W tls tr ssl | None \<Rightarrow> True)"
  by (auto simp: writes_secured_def nth_append All_less_Suc split: option.splits)

lemma writes_secured_quiet:
  "writes_secured W tls tr \<Longrightarrow> \<forall>c \<in> set xs. written c = None \<Longrightarrow> writes_secured W tls (tr @ xs)"
  by (induction xs rule: rev_induct) (auto simp: writes_secured_snoc simp flip: append_assoc)

section \<open>What the operations change\<close>

definition up :: "nat \<Rightarrow> tls_st \<Rightarrow> bool" where
  "up i t = (case channel_at i (lower t) of Some c \<Rightarrow> connected c | None \<Rightarrow> False)"

definition quiet :: "tls_st \<Rightarrow> tls_st \<Rightarrow> bool" where
  "quiet t t' \<longleftrightarrow> tls_config t' = tls_config t \<and> transport_lib (lower t') = transport_lib (lower t) \<and>
     (\<exists>xs. wolf_calls t' = wolf_calls t @ xs \<and> (\<forall>c \<in> set xs. written c = None))"

lemma quiet_refl [simp]: "quiet t t"
  by (simp add: quiet_def)

lemma quiet_trans: "quiet t u \<Longrightarrow> quiet u v \<Longrightarrow> quiet t v"
  unfolding quiet_def by (elim conjE exE) auto

text \<open>The calls of the library and of the operating system, with the states they lead to.\<close>

lemma wolf_must_iff: "wolf_must g W c t = Some t' \<longleftrightarrow> wolf_result W (length (wolf_calls t)) = g \<and> t' = wolf c t"
  by (auto simp: wolf_must_def wolf_int_def)

lemma wolf_alloc_iff:
  "wolf_alloc W c t = Some (p, t') \<longleftrightarrow> p = wolf_object W (length (wolf_calls t)) \<and> p \<noteq> 0 \<and> t' = wolf c t"
  by (auto simp: wolf_alloc_def wolf_ptr_def)

lemmas wolf_iffs = wolf_must_iff wolf_alloc_iff wolf_int_def wolf_ptr_def

lemma wolf_simps [simp]:
  "wolf_calls (wolf c t) = wolf_calls t @ [c]" "lower (wolf c t) = lower t" "channel_tls (wolf c t) = channel_tls t"
  "socket_tls (wolf c t) = socket_tls t" "tls_config (wolf c t) = tls_config t"
  by (simp_all add: wolf_def)

lemma map_channel_tls_simps [simp]:
  "wolf_calls (map_channel_tls i f t) = wolf_calls t" "lower (map_channel_tls i f t) = lower t"
  "channel_tls (map_channel_tls i f t) = (channel_tls t)(i := f (channel_tls t i))"
  "socket_tls (map_channel_tls i f t) = socket_tls t" "tls_config (map_channel_tls i f t) = tls_config t"
  by (simp_all add: map_channel_tls_def)

lemma map_socket_tls_simps [simp]:
  "wolf_calls (map_socket_tls i f t) = wolf_calls t" "lower (map_socket_tls i f t) = lower t"
  "socket_tls (map_socket_tls i f t) = (socket_tls t)(i := f (socket_tls t i))"
  "channel_tls (map_socket_tls i f t) = channel_tls t" "tls_config (map_socket_tls i f t) = tls_config t"
  by (simp_all add: map_socket_tls_def)

lemma map_lower_simps [simp]:
  "wolf_calls (map_lower f t) = wolf_calls t" "lower (map_lower f t) = f (lower t)"
  "channel_tls (map_lower f t) = channel_tls t" "socket_tls (map_lower f t) = socket_tls t"
  "tls_config (map_lower f t) = tls_config t"
  by (simp_all add: map_lower_def)

lemma sys_iff: "sys t = (r, t') \<longleftrightarrow> r = fst (call (lower t)) \<and> t' = map_lower (snd \<circ> call) t"
  by (auto simp: sys_def map_lower_def split: prod.splits)

text \<open>Which channels are connected.\<close>

lemma up_simps [simp]:
  "up i (wolf c t) = up i t" "up i (map_channel_tls j f t) = up i t" "up i (map_socket_tls j f t) = up i t"
  "(\<And>s. channel_at i (h s) = channel_at i s) \<Longrightarrow> up i (map_lower h t) = up i t"
  by (simp_all add: up_def)

lemma channel_at_call [simp]: "channel_at i (snd (call s)) = channel_at i s" "transport_lib (snd (call s)) = transport_lib s"
  by (simp_all add: call_def sys_call_def channel_at_def)

lemma channel_at_map_socket [simp]: "channel_at i (map_socket j f s) = channel_at i s" "transport_lib (map_socket j f s) = transport_lib s"
  by (simp_all add: map_socket_def channel_at_def)

lemma channel_at_map_channel:
  "channel_at i (map_channel j f s) = map_option (\<lambda>c. if i = j then f c else c) (channel_at i s)"
  by (auto simp: channel_at_def map_channel_def map_chan_def nth_list_update)

lemma up_map_channel_other [simp]: "j \<noteq> i \<Longrightarrow> up j (map_lower (map_channel i f) t) = up j t"
  by (simp add: up_def channel_at_map_channel option.map_ident)

lemma transport_lib_map_channel [simp]: "transport_lib (map_channel j f s) = transport_lib s"
  by (simp add: map_channel_def map_chan_def)

lemma quiet_simps [simp]:
  "quiet t0 (map_channel_tls i f t) = quiet t0 t" "quiet t0 (map_socket_tls j g t) = quiet t0 t"
  "transport_lib (h (lower t)) = transport_lib (lower t) \<Longrightarrow> quiet t0 (map_lower h t) = quiet t0 t"
  by (simp_all add: quiet_def)

lemma quiet_wolf [simp]: "written c = None \<Longrightarrow> quiet t0 t \<Longrightarrow> quiet t0 (wolf c t)"
  by (auto simp: quiet_def)

text \<open>\<open>same_sessions\<close>: a quiet operation that leaves the channels and the states of the sessions as they are.\<close>

definition session :: "tls_fields \<Rightarrow> rasta_tls_connection_state \<times> nat" where
  "session x = (tls_state x, tls_ssl x)"

definition same_sessions :: "tls_st \<Rightarrow> tls_st \<Rightarrow> bool" where
  "same_sessions t t' \<longleftrightarrow> quiet t t' \<and> (\<forall>i. session (channel_tls t' i) = session (channel_tls t i)) \<and>
     (\<forall>j. session (socket_tls t' j) = session (socket_tls t j)) \<and> (\<forall>i. up i t' = up i t)"

lemma same_sessions_refl [simp]: "same_sessions t t"
  by (simp add: same_sessions_def)

lemma same_sessions_trans: "same_sessions t u \<Longrightarrow> same_sessions u v \<Longrightarrow> same_sessions t v"
  unfolding same_sessions_def by (metis quiet_trans)

lemma same_sessions_wolf: "written c = None \<Longrightarrow> same_sessions t (wolf c t)"
  by (simp add: same_sessions_def)

lemma same_sessions_lower:
  "(\<And>s. transport_lib (f s) = transport_lib s) \<Longrightarrow> (\<And>s i. channel_at i (f s) = channel_at i s) \<Longrightarrow> same_sessions t (map_lower f t)"
  by (simp add: same_sessions_def up_def)

lemma same_sessions_map_channel: "(\<And>c. connected (f c) = connected c) \<Longrightarrow> same_sessions t (map_lower (map_channel i f) t)"
  by (auto simp: same_sessions_def up_def channel_at_map_channel split: option.splits)

lemma same_sessions_async: "set_tls_async ssl t = Some t' \<Longrightarrow> same_sessions t t'" "set_dtls_async ssl t = Some t' \<Longrightarrow> same_sessions t t'"
  by (auto simp: same_sessions_def set_tls_async_def set_dtls_async_def set_socket_async_def Let_def sys_iff
      split: prod.splits if_splits)

lemma digest_iff:
  "generate_certificate_digest W cert t = Some (digest, t') \<longleftrightarrow>
     wolf_object W (length (wolf_calls t)) \<noteq> 0 \<and> digest = wolf_bytes W (Suc (length (wolf_calls t))) \<and>
     wolf_result W (Suc (length (wolf_calls t))) = SSL_SUCCESS W \<and> length digest \<le> SHA256_BUFFER_LENGTH_BYTES \<and>
     t' = wolf (wolfSSL_X509_digest cert) (wolf (wolfSSL_X509_get_der cert) t)"
  by (auto simp: generate_certificate_digest_def Option.bind_eq_Some_conv wolf_iffs Let_def split: if_splits)

lemma same_sessions_pin: "tls_pin_certificate W ssl t = Some t' \<Longrightarrow> same_sessions t t'"
  by (auto simp: same_sessions_def tls_pin_certificate_def Option.bind_eq_Some_conv digest_iff wolf_iffs
      split: option.splits if_splits)

lemma pin_secures:
  assumes "tls_pin_certificate W ssl t = Some t'" and "wolf_calls t = tr @ [h]"
    and "h \<in> {wolfSSL_accept ssl, wolfSSL_connect ssl}" and "wolf_result W (length tr) \<in> {SSL_SUCCESS W, WOLFSSL_SUCCESS W}"
  shows "secured W (tls_config t) (wolf_calls t') ssl"
proof (cases "peer_tls_cert_path (tls_config t)")
  case None
  with assms show ?thesis
    by (auto simp: tls_pin_certificate_def secured_def handshake_at_def intro!: exI [of _ "length tr"])
next
  case (Some path)
  with assms show ?thesis
    by (auto simp: tls_pin_certificate_def secured_def handshake_at_def Option.bind_eq_Some_conv wolf_iffs digest_iff
        memcmp_eq_0_iff pin_at_def nth_append nth_Cons' eval_nat_numeral split: if_splits intro!: exI [of _ "length tr"])
qed

section \<open>The invariant\<close>

text \<open>
  The session of a connected channel is authenticated, over DTLS the session of every channel and socket in the
  state \<open>RASTA_TLS_CONNECTION_ESTABLISHED\<close>.
\<close>

definition established :: "tls_st \<Rightarrow> nat \<Rightarrow> bool" where
  "established t ssl \<longleftrightarrow> (RASTA_TLS_CONNECTION_ESTABLISHED, ssl) \<in> range (session \<circ> channel_tls t) \<union> range (session \<circ> socket_tls t)"

definition tls_inv :: "wolfssl \<Rightarrow> tls_st \<Rightarrow> bool" where
  "tls_inv W t \<longleftrightarrow>
     writes_secured W (tls_config t) (wolf_calls t) \<and>
     (case transport_lib (lower t) of
        TCP \<Rightarrow> \<forall>i. up i t \<longrightarrow> secured W (tls_config t) (wolf_calls t) (tls_ssl (channel_tls t i))
      | UDP \<Rightarrow> \<forall>ssl. established t ssl \<longrightarrow> secured W (tls_config t) (wolf_calls t) ssl)"

abbreviation good :: "wolfssl \<Rightarrow> tls_st \<Rightarrow> nat \<Rightarrow> bool" where
  "good W t ssl \<equiv> secured W (tls_config t) (wolf_calls t) ssl"

lemma good_quiet: "quiet t t' \<Longrightarrow> good W t ssl \<Longrightarrow> good W t' ssl"
  by (auto simp: quiet_def intro: secured_append)

lemma tls_inv_quiet_TCP:
  assumes "tls_inv W t" and "quiet t t'" and "transport_lib (lower t) = TCP"
    and "\<And>i. up i t' \<Longrightarrow> up i t \<and> tls_ssl (channel_tls t' i) = tls_ssl (channel_tls t i) \<or> good W t' (tls_ssl (channel_tls t' i))"
  shows "tls_inv W t'"
proof -
  have "good W t' (tls_ssl (channel_tls t' i))" if "up i t'" for i
    using assms(4) [OF that] assms(1,3) good_quiet [OF assms(2)] by (auto simp: tls_inv_def)
  moreover have "writes_secured W (tls_config t') (wolf_calls t')" "transport_lib (lower t') = TCP"
    using assms(1-3) by (auto simp: tls_inv_def quiet_def intro: writes_secured_quiet)
  ultimately show ?thesis by (simp add: tls_inv_def)
qed

lemma tls_inv_quiet_UDP:
  assumes "tls_inv W t" and "quiet t t'" and "transport_lib (lower t) = UDP"
    and "\<And>ssl. established t' ssl \<Longrightarrow> established t ssl \<or> good W t' ssl"
  shows "tls_inv W t'"
proof -
  have "good W t' ssl" if "established t' ssl" for ssl
    using assms(4) [OF that] assms(1,3) good_quiet [OF assms(2)] by (auto simp: tls_inv_def)
  moreover have "writes_secured W (tls_config t') (wolf_calls t')" "transport_lib (lower t') = UDP"
    using assms(1-3) by (auto simp: tls_inv_def quiet_def intro: writes_secured_quiet)
  ultimately show ?thesis by (simp add: tls_inv_def)
qed

lemma same_sessions_established: "same_sessions t t' \<Longrightarrow> established t' = established t"
  by (simp add: same_sessions_def established_def comp_def fun_eq_iff)

lemma tls_inv_same_sessions:
  assumes "tls_inv W t" and "same_sessions t t'"
  shows "tls_inv W t'"
proof (cases "transport_lib (lower t)")
  case TCP
  with assms show ?thesis by - (rule tls_inv_quiet_TCP [of W t], simp_all add: same_sessions_def up_def session_def)
next
  case UDP
  with assms same_sessions_established [OF assms(2)] show ?thesis
    by - (rule tls_inv_quiet_UDP [of W t], simp_all add: same_sessions_def)
qed

section \<open>Preservation\<close>

lemma same_sessions_initialize: "same_sessions t (wolfssl_initialize_if_necessary t)"
  by (simp add: wolfssl_initialize_if_necessary_def wolf_def same_sessions_def quiet_def up_def)

lemma same_sessions_start_server:
  assumes "wolfssl_start_server W sk m t = Some t'"
  shows "same_sessions t t'"
proof -
  let ?u = "wolfssl_initialize_if_necessary t"
  have "same_sessions ?u t'"
    using assms by (auto simp: wolfssl_start_server_def Option.bind_eq_Some_conv wolf_iffs Let_def same_sessions_def session_def)
  with same_sessions_initialize show ?thesis by (rule same_sessions_trans)
qed

lemma same_sessions_start_client:
  assumes "wolfssl_start_client W m t = Some (ctx, t')"
  shows "same_sessions t t'"
proof -
  let ?u = "wolfssl_initialize_if_necessary t"
  have "same_sessions ?u t'"
    using assms
    by (cases "cert_path (tls_config ?u)"; cases "key_path (tls_config ?u)")
      (auto simp: wolfssl_start_client_def Option.bind_eq_Some_conv wolf_iffs Let_def same_sessions_def)
  with same_sessions_initialize show ?thesis by (rule same_sessions_trans)
qed

text \<open>The end of every handshake: the pinned certificate is compared, then the socket becomes non-blocking.\<close>

lemma handshake_end:
  assumes "tls_pin_certificate W ssl u = Some v" and "same_sessions v t'"
    and "wolf_calls u = tr @ [h]" and "h \<in> {wolfSSL_accept ssl, wolfSSL_connect ssl}"
    and "wolf_result W (length tr) \<in> {SSL_SUCCESS W, WOLFSSL_SUCCESS W}"
  shows "same_sessions u t'" and "good W t' ssl"
proof -
  show k: "same_sessions u t'" using same_sessions_pin [OF assms(1)] assms(2) by (rule same_sessions_trans)
  have "good W v ssl"
    using pin_secures [OF assms(1,3-5)] same_sessions_pin [OF assms(1)] by (simp add: same_sessions_def quiet_def)
  then show "good W t' ssl" using assms(2) good_quiet by (auto simp: same_sessions_def)
qed

lemma tcp_accept_facts:
  assumes "tcp_accept_tls W sk t = Some (fd, t')"
  shows "quiet t t'" and "good W t' (tls_ssl (socket_tls t' sk))"
    and "session (channel_tls t' i) = session (channel_tls t i)" and "up i t' = up i t"
proof -
  define n where "n = length (wolf_calls t)"
  define u where "u = wolf (wolfSSL_accept (wolf_object W n)) (map_socket_tls sk (\<lambda>x. x\<lparr>tls_state := RASTA_TLS_CONNECTION_READY\<rparr>)
    (wolf (wolfSSL_set_fd (wolf_object W n) fd) (map_socket_tls sk (\<lambda>x. x\<lparr>tls_ssl := wolf_object W n\<rparr>)
      (wolf (wolfSSL_new (tls_ctx (socket_tls t sk))) (map_lower (snd \<circ> call) t)))))"
  obtain v where v: "tls_pin_certificate W (wolf_object W n) u = Some v" "set_tls_async (wolf_object W n) v = Some t'"
    and r: "wolf_result W (n + 2) = WOLFSSL_SUCCESS W"
    using assms
    by (auto simp: tcp_accept_tls_def Let_def sys_iff Option.bind_eq_Some_conv wolf_iffs u_def n_def
        split: prod.splits if_splits)
  have "wolf_calls u = (wolf_calls t @ [wolfSSL_new (tls_ctx (socket_tls t sk)), wolfSSL_set_fd (wolf_object W n) fd]) @
      [wolfSSL_accept (wolf_object W n)]"
    by (simp add: u_def)
  note e = handshake_end [OF v(1) same_sessions_async(1) [OF v(2)] this]
  have q: "quiet t u" "tls_ssl (socket_tls u sk) = wolf_object W n" "channel_tls u = channel_tls t"
    "up i u = up i t" for i
    by (simp_all add: u_def)
  have k: "same_sessions u t'" "good W t' (wolf_object W n)" using e r by (simp_all add: n_def)
  then show "quiet t t'" "session (channel_tls t' i) = session (channel_tls t i)" "up i t' = up i t"
    using q by (auto simp: same_sessions_def intro: quiet_trans)
  show "good W t' (tls_ssl (socket_tls t' sk))" using k q by (simp add: same_sessions_def session_def)
qed

text \<open>
  An operation on the TCP channel \<open>i\<close> that leaves the other channels alone, and connects \<open>i\<close> only with an
  authenticated session; \<open>r\<close> is its result.
\<close>

definition connects :: "wolfssl \<Rightarrow> nat \<Rightarrow> int \<Rightarrow> tls_st \<Rightarrow> tls_st \<Rightarrow> bool" where
  "connects W i r t t' \<longleftrightarrow> quiet t t' \<and>
     (\<forall>j. j \<noteq> i \<longrightarrow> session (channel_tls t' j) = session (channel_tls t j) \<and> up j t' = up j t) \<and>
     (up i t' \<longrightarrow> up i t \<or> good W t' (tls_ssl (channel_tls t' i))) \<and>
     (r = 0 \<longrightarrow> good W t' (tls_ssl (channel_tls t' i)))"

lemma connects_trans:
  assumes "connects W i r t u" and "same_sessions u v"
  shows "connects W i r t v"
proof -
  have u: "quiet u v" "\<And>j. session (channel_tls v j) = session (channel_tls u j)" "\<And>j. up j v = up j u"
    using assms(2) by (simp_all add: same_sessions_def up_def)
  show ?thesis
    using assms(1) u good_quiet [OF u(1)] quiet_trans [of t u v] unfolding connects_def session_def by auto
qed

lemma connects_after:
  assumes "same_sessions t u" and "connects W i r u v"
  shows "connects W i r t v"
proof -
  have u: "quiet t u" "\<And>j. session (channel_tls u j) = session (channel_tls t j)" "\<And>j. up j u = up j t"
    using assms(1) by (simp_all add: same_sessions_def up_def)
  show ?thesis
    using assms(2) u quiet_trans [of t u v] unfolding connects_def by auto
qed

lemma connects_inv:
  assumes "connects W i r t t'" and "\<not> up i t" and "tls_inv W t" and "transport_lib (lower t) = TCP"
  shows "tls_inv W t'"
proof (rule tls_inv_quiet_TCP [OF assms(3) _ assms(4)])
  show "quiet t t'" using assms(1) by (simp add: connects_def)
  fix j assume "up j t'"
  then show "up j t \<and> tls_ssl (channel_tls t' j) = tls_ssl (channel_tls t j) \<or> good W t' (tls_ssl (channel_tls t' j))"
    using assms(1,2) by (cases "j = i") (auto simp: connects_def session_def)
qed

lemma handshake_connects:
  assumes "tls_pin_certificate W ssl u = Some v" and "set_tls_async ssl v = Some w"
    and "wolf_calls u = tr @ [wolfSSL_connect ssl]" and "wolf_result W (length tr) = WOLFSSL_SUCCESS W"
    and "quiet t u" and "\<And>j. up j u = up j t" and "\<And>j. j \<noteq> i \<Longrightarrow> channel_tls u j = channel_tls t j" and "tls_ssl (channel_tls u i) = ssl"
  shows "connects W i 0 t (map_lower (map_channel i (\<lambda>c. c\<lparr>connected := True\<rparr>)) w)"
proof -
  note e = handshake_end [OF assms(1) same_sessions_async(1) [OF assms(2)] assms(3)]
  have k: "same_sessions u w" "good W w ssl" using e assms(4) by simp_all
  then have "quiet t w" "\<And>j. session (channel_tls w j) = session (channel_tls u j)" "\<And>j. up j w = up j t"
    using assms(5,6) by (auto simp: same_sessions_def intro: quiet_trans)
  moreover from this(2) [of i] have "tls_ssl (channel_tls w i) = ssl" using assms(8) by (simp add: session_def)
  ultimately show ?thesis using k(2) assms(7) by (simp add: connects_def)
qed

lemma connect_session_connects:
  assumes "connect_session W i fd t = Some (r, t')"
  shows "connects W i r t t'"
proof -
  define ssl where "ssl = wolf_object W (length (wolf_calls t))"
  define a where "a = map_channel_tls i (\<lambda>x. x\<lparr>tls_ssl := ssl\<rparr>) (wolf (wolfSSL_new (tls_ctx (channel_tls t i))) t)"
  define b where "b = (if tls_hostname (tls_config t) \<noteq> [] then wolf (wolfSSL_check_domain_name ssl (tls_hostname (tls_config t))) a else a)"
  define d where "d = wolf (wolfSSL_set_fd ssl fd) b"
  define u where "u = wolf (wolfSSL_connect ssl) (wolf (wolfSSL_KeepArrays ssl) d)"
  have failed: "connects W i r t x" if "r \<noteq> 0" "quiet t x" "\<And>j. j \<noteq> i \<Longrightarrow> channel_tls x j = channel_tls t j" "lower x = lower t" for x
    using that by (simp add: connects_def up_def)
  have q: "quiet t a" "quiet t b" "quiet t d" "quiet t u" "lower a = lower t" "lower b = lower t" "lower d = lower t" "lower u = lower t" "up j u = up j t"
    "channel_tls a = (channel_tls t)(i := (channel_tls t i)\<lparr>tls_ssl := ssl\<rparr>)" "channel_tls b = channel_tls a"
    "channel_tls d = channel_tls a" "channel_tls u = channel_tls a"
    for j by (simp_all add: a_def b_def d_def u_def)
  have cases: "r = 1 \<and> (t' = wolf (wolfSSL_get_error ssl) a \<or> t' = b \<or> t' = d \<or> t' = wolf (wolfSSL_get_error ssl) u) \<or>
    (\<exists>v w. wolf_result W (length (wolf_calls d) + 1) = WOLFSSL_SUCCESS W \<and> tls_pin_certificate W ssl u = Some v \<and>
       set_tls_async ssl v = Some w \<and> t' = map_lower (map_channel i (\<lambda>c. c\<lparr>connected := True\<rparr>)) w)"
    using assms
    by (auto simp: connect_session_def Let_def wolf_iffs Option.bind_eq_Some_conv a_def b_def d_def u_def ssl_def
        split: if_splits prod.splits)
  show ?thesis
  proof (cases "\<exists>v w. wolf_result W (length (wolf_calls d) + 1) = WOLFSSL_SUCCESS W \<and> tls_pin_certificate W ssl u = Some v \<and>
       set_tls_async ssl v = Some w \<and> t' = map_lower (map_channel i (\<lambda>c. c\<lparr>connected := True\<rparr>)) w")
    case True
    then obtain v w where v: "tls_pin_certificate W ssl u = Some v" "set_tls_async ssl v = Some w"
      and r: "wolf_result W (length (wolf_calls d) + 1) = WOLFSSL_SUCCESS W"
      and t': "t' = map_lower (map_channel i (\<lambda>c. c\<lparr>connected := True\<rparr>)) w" by blast
    have "wolf_calls u = (wolf_calls d @ [wolfSSL_KeepArrays ssl]) @ [wolfSSL_connect ssl]" by (simp add: u_def)
    from handshake_connects [OF v this, of t i] r q have "connects W i 0 t t'" by (simp add: t')
    then show ?thesis by (simp add: connects_def)
  next
    case False
    with cases have "r \<noteq> 0" "t' = wolf (wolfSSL_get_error ssl) a \<or> t' = b \<or> t' = d \<or> t' = wolf (wolfSSL_get_error ssl) u" by auto
    then show ?thesis using q by (elim disjE) (rule failed, simp_all)+
  qed
qed

lemma tcp_connect_connects:
  assumes "tcp_connect_tls W i t = Some (r, t')"
  shows "connects W i r t t'"
proof -
  let ?u = "map_lower (snd \<circ> call) t"
  have u: "same_sessions t ?u" by (rule same_sessions_lower) simp_all
  consider (refused) "r \<noteq> 0" "t' = map_lower (map_channel i (\<lambda>c. c\<lparr>connected := False\<rparr>)) ?u"
    | (old) fd where "connect_session W i fd ?u = Some (r, t')"
    | (started) v fd where "wolfssl_start_tls_client W i ?u = Some v" "connect_session W i fd v = Some (r, t')"
    using assms by (auto simp: tcp_connect_tls_def Let_def sys_iff Option.bind_eq_Some_conv split: prod.splits if_splits)
  then have "connects W i r ?u t'"
  proof cases
    case refused
    then show ?thesis by (auto simp: connects_def up_def channel_at_map_channel option.map_ident split: option.splits)
  next
    case started
    obtain ctx w where w: "wolfssl_start_client W ''wolfTLSv1_3_client_method'' ?u = Some (ctx, w)"
      and v: "v = map_channel_tls i (\<lambda>x. x\<lparr>tls_ctx := ctx\<rparr>) w"
      using started(1) by (auto simp: wolfssl_start_tls_client_def Option.bind_eq_Some_conv)
    have "same_sessions ?u v" using same_sessions_start_client [OF w] unfolding v by (simp add: same_sessions_def session_def)
    then show ?thesis using connect_session_connects [OF started(2)] by (rule connects_after)
  qed (rule connect_session_connects)
  with u show ?thesis by (rule connects_after)
qed

lemma transport_connect_connects:
  assumes "tcp_transport_connect_tls W sk i socket t = Some (r, t')"
  shows "connects W i r t t'"
proof -
  let ?u = "map_lower (map_channel i (\<lambda>c. c\<lparr>tc_fd := ts_fd socket, associated_socket := Some sk\<rparr>)) t"
  obtain q v where v: "tcp_connect_tls W i ?u = Some (q, v)"
    and t': "same_sessions v t'" and r: "r = (if q = 0 then 0 else -1)"
    using assms by (auto simp: tcp_transport_connect_tls_def Option.bind_eq_Some_conv Let_def same_sessions_map_channel split: if_splits)
  have "same_sessions t ?u" by (rule same_sessions_map_channel) simp
  then have "connects W i q t v" using tcp_connect_connects [OF v] by (rule connects_after)
  then have "connects W i q t t'" using t' by (rule connects_trans)
  then show ?thesis using r by (simp add: connects_def split: if_splits)
qed

lemma call_snd: "call s = (r, s') \<Longrightarrow> s' = snd (call s)"
  by simp

lemma same_sessions_create_socket:
  assumes "bsd_create_socket (lower t) = Some (fd, s)"
  shows "same_sessions t (t\<lparr>lower := map_socket sk f s\<rparr>)"
  using assms
  by (auto simp: bsd_create_socket_def Let_def same_sessions_def quiet_def up_def split: prod.splits if_splits dest!: call_snd)

lemma bind_TCP: "transport_lib (lower t) = TCP \<Longrightarrow> transport_bind_tls W sk t = Some (b, t') \<Longrightarrow> same_sessions t t'"
  by (auto simp: transport_bind_tls_def bsd_bind_device_def Let_def same_sessions_def quiet_def up_def split: prod.splits dest!: call_snd)

lemma redial_connects:
  assumes "transport_lib (lower t) = TCP" and "transport_redial_tls W i t = Some (r, t')"
  shows "connects W i r t t'"
proof -
  obtain fd s sk b u q v where s: "bsd_create_socket (lower t) = Some (fd, s)"
    and u: "transport_bind_tls W sk (t\<lparr>lower := map_socket sk (\<lambda>k. k\<lparr>ts_fd := fd\<rparr>) s\<rparr>) = Some (b, u)"
    and v: "transport_connect_tls W sk i u = Some (q, v)"
    and t': "same_sessions v t'" and r: "r = (if q = 0 then 0 else -1)"
    using assms
    by (auto simp: transport_redial_tls_def tcp_transport_redial_tls_def Option.bind_eq_Some_conv Let_def same_sessions_lower
        split: if_splits prod.splits)
  note k = same_sessions_create_socket [OF s, of sk "\<lambda>k. k\<lparr>ts_fd := fd\<rparr>"]
  then have "transport_lib s = TCP" using assms(1) by (simp add: same_sessions_def quiet_def)
  then have u: "same_sessions t u" using k bind_TCP [OF _ u] by (auto intro: same_sessions_trans)
  then have "transport_lib (lower u) = TCP" using assms(1) by (simp add: same_sessions_def quiet_def)
  then have "connects W i q u v"
    using v transport_connect_connects by (auto simp: transport_connect_tls_def Option.bind_eq_Some_conv)
  with u t' have "connects W i q t t'" by (blast intro: connects_after connects_trans)
  then show ?thesis using r by (simp add: connects_def split: if_splits)
qed

lemma same_sessions_sys: "sys t = (r, t') \<Longrightarrow> same_sessions t t'"
  by (simp add: sys_iff same_sessions_lower)

lemma sys_eq: "sys t = (fst (call (lower t)), map_lower (snd \<circ> call) t)"
  by (simp add: sys_def map_lower_def split: prod.splits)

lemma transport_accept_facts:
  assumes "transport_accept_tls W sk t = Some (x, v)" and "transport_lib (lower t) = TCP"
  shows "quiet t v" and "good W v (tls_ssl (socket_tls v sk))"
    and "session (channel_tls v i) = session (channel_tls t i)" and "up i v = up i t"
proof -
  obtain fd u where u: "tcp_accept_tls W sk t = Some (fd, u)" and v: "v = map_lower (snd \<circ> call) u"
    using assms by (auto simp: transport_accept_tls_def Option.bind_eq_Some_conv Let_def sys_eq split: if_splits)
  note f = tcp_accept_facts [OF u]
  have k: "same_sessions u v" unfolding v by (simp add: same_sessions_lower)
  then show "quiet t v" "session (channel_tls v i) = session (channel_tls t i)" "up i v = up i t"
    using f by (auto simp: same_sessions_def intro: quiet_trans)
  show "good W v (tls_ssl (socket_tls v sk))" using f(2) k good_quiet [of u v] by (simp add: same_sessions_def session_def)
qed

lemma accept_event_inv:
  assumes "channel_accept_event_tls W sk t = Some (r, t')" and "transport_lib (lower t) = TCP" and "tls_inv W t"
  shows "tls_inv W t'"
proof -
  obtain fd addr port v where v: "transport_accept_tls W sk t = Some ((fd, addr, port), v)"
    and t': "(case find_channel_by_ip_address (lower v) addr port of
        Some i \<Rightarrow> Some (False, map_channel_tls i (\<lambda>x. x\<lparr>tls_state := RASTA_TLS_CONNECTION_READY,
               tls_ctx := tls_ctx (socket_tls v sk), tls_ssl := tls_ssl (socket_tls v sk)\<rparr>)
            (map_lower (map_channel i (\<lambda>c. c\<lparr>tc_fd := fd,
                tc_receive_event := enable_fd_event ((tc_receive_event c)\<lparr>ev_fd := fd\<rparr>),
                connected := True, associated_socket := Some sk\<rparr>)) v))
      | None \<Rightarrow> Some (False, snd (sys v))) = Some (r, t')"
    using assms(1)
    by (auto simp: channel_accept_event_tls_def Option.bind_eq_Some_conv Let_def split_beta cong: option.case_cong)
  note v = transport_accept_facts [OF v assms(2)]
  have inv: "tls_inv W v"
    using v by (intro tls_inv_quiet_TCP [OF assms(3) v(1) assms(2)]) (simp add: session_def)
  show ?thesis
  proof (cases "find_channel_by_ip_address (lower v) addr port")
    case None
    with t' have "same_sessions v t'" by (auto simp: sys_eq same_sessions_lower)
    with inv show ?thesis by (rule tls_inv_same_sessions)
  next
    case (Some i)
    with t' have t': "t' = map_channel_tls i (\<lambda>x. x\<lparr>tls_state := RASTA_TLS_CONNECTION_READY,
               tls_ctx := tls_ctx (socket_tls v sk), tls_ssl := tls_ssl (socket_tls v sk)\<rparr>)
            (map_lower (map_channel i (\<lambda>c. c\<lparr>tc_fd := fd,
                tc_receive_event := enable_fd_event ((tc_receive_event c)\<lparr>ev_fd := fd\<rparr>),
                connected := True, associated_socket := Some sk\<rparr>)) v)" by simp
    have "transport_lib (lower v) = TCP" using v(1) assms(2) by (simp add: quiet_def)
    then show ?thesis
    proof (rule tls_inv_quiet_TCP [OF inv, rotated])
      fix j assume "up j t'"
      then show "up j v \<and> tls_ssl (channel_tls t' j) = tls_ssl (channel_tls v j) \<or> good W t' (tls_ssl (channel_tls t' j))"
        using v(2) by (cases "j = i") (simp_all add: t')
    qed (simp add: t')
  qed
qed

lemma quiet_cleanup [simp]: "quiet t (wolfssl_cleanup x t)"
  by (simp add: wolfssl_cleanup_def)

lemma cleanup_simps [simp]:
  "channel_tls (wolfssl_cleanup x t) = channel_tls t" "socket_tls (wolfssl_cleanup x t) = socket_tls t" "lower (wolfssl_cleanup x t) = lower t"
  by (simp_all add: wolfssl_cleanup_def)

lemma same_sessions_close: "lower_close fd t = Some t' \<Longrightarrow> same_sessions t t'"
  by (auto simp: lower_close_def bsd_close_def Option.bind_eq_Some_conv Let_def same_sessions_def quiet_def up_def
      split: if_splits prod.splits dest!: call_snd)

lemma close_channel_inv:
  assumes "transport_close_channel_tls i t = Some t'" and "tls_inv W t"
  shows "tls_inv W t'"
proof (cases "transport_lib (lower t) = TCP \<and> up i t")
  case True
  obtain fd u where u: "lower_close fd (wolfssl_cleanup_channel i t) = Some u"
    and t': "t' = map_lower (map_channel i (\<lambda>c. c\<lparr>tc_receive_event := disable_fd_event (tc_receive_event c)\<rparr>))
      (map_lower (map_channel i (\<lambda>c. c\<lparr>tc_fd := -1, connected := False\<rparr>)) u)"
    using assms(1) True
    by (auto simp: transport_close_channel_tls_def tcp_close_tls_def up_def Option.bind_eq_Some_conv split: if_splits)
  have k: "same_sessions (wolfssl_cleanup_channel i t) u" by (rule same_sessions_close [OF u])
  then have "quiet t u" "\<And>j. j \<noteq> i \<Longrightarrow> session (channel_tls u j) = session (channel_tls t j)" "\<And>j. up j u = up j t"
    using quiet_trans [of t "wolfssl_cleanup_channel i t" u] by (auto simp: same_sessions_def wolfssl_cleanup_channel_def up_def)
  moreover have "\<not> up i t'" by (auto simp: t' up_def channel_at_map_channel split: option.splits)
  ultimately have "up j t \<and> tls_ssl (channel_tls t' j) = tls_ssl (channel_tls t j)" if "up j t'" for j
    using that by (cases "j = i") (simp_all add: t' session_def)
  moreover have "quiet t t'" using \<open>quiet t u\<close> by (simp add: t')
  ultimately show ?thesis using True by - (rule tls_inv_quiet_TCP [OF assms(2)], blast+)
next
  case False
  then have "same_sessions t t'"
    using assms(1)
    by (cases "transport_lib (lower t)")
      (auto simp: transport_close_channel_tls_def up_def Option.bind_eq_Some_conv same_sessions_map_channel split: if_splits)
  with assms(2) show ?thesis by (rule tls_inv_same_sessions)
qed

text \<open>DTLS: the sessions that count are those of the channels and sockets in the established state.\<close>

lemma established_socket:
  assumes "established t' ssl" and "channel_tls t' = channel_tls t" and "socket_tls t' = (socket_tls t)(sk := x)"
  shows "established t ssl \<or> session x = (RASTA_TLS_CONNECTION_ESTABLISHED, ssl)"
  using assms by (auto simp: established_def session_def split: if_splits)

lemma established_channel:
  assumes "established t' ssl" and "socket_tls t' = socket_tls t" and "channel_tls t' = (channel_tls t)(i := x)"
  shows "established t ssl \<or> session x = (RASTA_TLS_CONNECTION_ESTABLISHED, ssl)"
  using assms by (auto simp: established_def session_def split: if_splits)

lemma established_same: "channel_tls t' = channel_tls t \<Longrightarrow> socket_tls t' = socket_tls t \<Longrightarrow> established t' ssl = established t ssl"
  by (simp add: established_def)

text \<open>\<open>loses\<close>: a quiet operation after which no session is established that was not before.\<close>

definition loses :: "tls_st \<Rightarrow> tls_st \<Rightarrow> bool" where
  "loses t t' \<longleftrightarrow> quiet t t' \<and> (\<forall>ssl. established t' ssl \<longrightarrow> established t ssl)"

lemma loses_inv: "loses t t' \<Longrightarrow> tls_inv W t \<Longrightarrow> transport_lib (lower t) = UDP \<Longrightarrow> tls_inv W t'"
  using tls_inv_quiet_UDP [of W t t'] by (auto simp: loses_def)

lemma same_sessions_loses: "same_sessions t t' \<Longrightarrow> loses t t'"
  by (simp add: loses_def same_sessions_established) (simp add: same_sessions_def)

lemma loses_trans: "loses t u \<Longrightarrow> loses u v \<Longrightarrow> loses t v"
  by (auto simp: loses_def intro: quiet_trans)

lemma established_iff:
  "established t ssl \<longleftrightarrow> (\<exists>i. session (channel_tls t i) = (RASTA_TLS_CONNECTION_ESTABLISHED, ssl)) \<or>
     (\<exists>j. session (socket_tls t j) = (RASTA_TLS_CONNECTION_ESTABLISHED, ssl))"
  unfolding established_def by (auto simp: image_iff comp_def) metis+

lemma loses_socket:
  assumes "quiet t t'" and "channel_tls t' = channel_tls t" and "\<forall>j. j \<noteq> sk \<longrightarrow> socket_tls t' j = socket_tls t j"
    and "tls_state (socket_tls t' sk) \<noteq> RASTA_TLS_CONNECTION_ESTABLISHED"
  shows "loses t t'"
  using assms unfolding loses_def established_iff session_def by (metis fst_conv)

lemma loses_channel:
  assumes "quiet t t'" and "socket_tls t' = socket_tls t" and "\<forall>j. j \<noteq> i \<longrightarrow> channel_tls t' j = channel_tls t j"
    and "tls_state (channel_tls t' i) \<noteq> RASTA_TLS_CONNECTION_ESTABLISHED"
  shows "loses t t'"
  using assms unfolding loses_def established_iff session_def by (metis fst_conv)

lemma start_dtls_server_loses:
  assumes "wolfssl_start_dtls_server W sk t = Some t'"
  shows "loses t t'"
proof -
  obtain u where u: "wolfssl_start_server W sk ''wolfDTLSv1_2_server_method'' t = Some u"
    and "quiet u t'" "channel_tls t' = channel_tls u"
    "\<forall>j. j \<noteq> sk \<longrightarrow> socket_tls t' j = socket_tls u j" "tls_state (socket_tls t' sk) = RASTA_TLS_CONNECTION_READY"
    using assms by (auto simp: wolfssl_start_dtls_server_def Option.bind_eq_Some_conv wolf_iffs Let_def)
  then have "loses u t'" by - (rule loses_socket [of _ _ sk], simp_all)
  with same_sessions_loses [OF same_sessions_start_server [OF u]] show ?thesis by (rule loses_trans)
qed

lemma start_dtls_client_loses:
  assumes "wolfssl_start_dtls_client W sk t = Some t'"
  shows "loses t t'"
proof -
  obtain u ctx where u: "wolfssl_start_client W ''wolfDTLSv1_2_client_method'' t = Some (ctx, u)"
    and "quiet u t'" "channel_tls t' = channel_tls u"
    "\<forall>j. j \<noteq> sk \<longrightarrow> socket_tls t' j = socket_tls u j" "tls_state (socket_tls t' sk) = RASTA_TLS_CONNECTION_READY"
    using assms by (auto simp: wolfssl_start_dtls_client_def Option.bind_eq_Some_conv wolf_iffs Let_def split: if_splits)
  then have "loses u t'" by - (rule loses_socket [of _ _ sk], simp_all)
  with same_sessions_loses [OF same_sessions_start_client [OF u]] show ?thesis by (rule loses_trans)
qed

lemma bind_inv:
  assumes "transport_bind_tls W sk t = Some (b, t')" and "tls_inv W t"
  shows "tls_inv W t'"
proof (cases "transport_lib (lower t)")
  case TCP
  then show ?thesis using assms bind_TCP tls_inv_same_sessions by blast
next
  case UDP
  let ?u = "map_lower (snd \<circ> call) t"
  have k: "same_sessions t ?u" by (simp add: same_sessions_lower)
  have "loses ?u t'"
    using assms(1) UDP start_dtls_server_loses start_dtls_client_loses
    by (auto simp: transport_bind_tls_def bsd_bind_device_def handle_tls_mode_def Let_def split_beta map_lower_def same_sessions_loses
        split: if_splits)
  with k have "loses t t'" by (blast intro: same_sessions_loses loses_trans)
  then show ?thesis using assms(2) UDP by (rule loses_inv)
qed

lemma listen_same_sessions: "transport_listen_tls W sk t = Some t' \<Longrightarrow> same_sessions t t'"
proof (cases "transport_lib (lower t)")
  case TCP
  assume "transport_listen_tls W sk t = Some t'"
  then obtain u where u: "wolfssl_start_server W sk ''wolfTLSv1_3_server_method'' (map_lower (snd \<circ> call) t) = Some u"
    and t': "t' = map_lower (map_socket sk (\<lambda>k. k\<lparr>accept_event := enable_fd_event (accept_event k)\<rparr>)) u"
    using TCP
    by (auto simp: transport_listen_tls_def tcp_listen_tls_def wolfssl_start_tls_server_def Option.bind_eq_Some_conv sys_eq Let_def
        split: if_splits)
  have "same_sessions t (map_lower (snd \<circ> call) t)" "same_sessions u t'" unfolding t' by (simp_all add: same_sessions_lower)
  with same_sessions_start_server [OF u] show ?thesis by (blast intro: same_sessions_trans)
qed (auto simp: transport_listen_tls_def lift_lower_def udp_transport_listen_def Option.bind_eq_Some_conv
    same_sessions_def quiet_def up_def)

lemma connect_UDP_loses:
  assumes "udp_transport_connect_tls sk i socket t = Some (r, t')"
  shows "loses t t'"
  using assms
  by (intro loses_channel [of _ _ i])
    (auto simp: udp_transport_connect_tls_def udp_transport_connect_def Option.bind_eq_Some_conv Let_def quiet_def)

lemma connect_inv:
  assumes "transport_connect_tls W sk i t = Some (r, t')" and "\<not> up i t" and "tls_inv W t"
  shows "tls_inv W t'"
proof (cases "transport_lib (lower t)")
  case TCP
  then have "connects W i r t t'"
    using assms(1) transport_connect_connects by (auto simp: transport_connect_tls_def Option.bind_eq_Some_conv)
  then show ?thesis using assms TCP by (blast intro: connects_inv)
next
  case UDP
  then have "loses t t'"
    using assms(1) connect_UDP_loses by (auto simp: transport_connect_tls_def Option.bind_eq_Some_conv)
  then show ?thesis using assms(3) UDP by (rule loses_inv)
qed

lemma redial_inv:
  assumes "transport_redial_tls W i t = Some (r, t')" and "\<not> up i t" and "tls_inv W t"
  shows "tls_inv W t'"
proof (cases "transport_lib (lower t)")
  case TCP
  with assms show ?thesis using redial_connects connects_inv by blast
qed (use assms in \<open>simp add: transport_redial_tls_def\<close>)

lemma close_socket_inv:
  assumes "transport_close_socket_tls sk t = Some t'" and "tls_inv W t"
  shows "tls_inv W t'"
proof (cases "transport_lib (lower t)")
  case TCP
  then have "same_sessions t t'"
    using assms(1)
    by (auto simp: transport_close_socket_tls_def tcp_transport_close_socket_def bsd_close_def lift_lower_def
        Option.bind_eq_Some_conv Let_def same_sessions_def quiet_def up_def split: if_splits prod.splits dest!: call_snd)
  with assms(2) show ?thesis by (rule tls_inv_same_sessions)
next
  case UDP
  obtain fd u where u: "lower_close fd (wolfssl_cleanup_socket sk t) = Some u"
    and t': "t' = map_lower (map_socket sk (\<lambda>k. k\<lparr>ts_fd := -1, ts_receive_event := disable_fd_event (ts_receive_event k)\<rparr>)) u"
    using assms(1) UDP by (auto simp: transport_close_socket_tls_def udp_close_dtls_def Option.bind_eq_Some_conv)
  have "loses t (wolfssl_cleanup_socket sk t)"
    by (rule loses_socket [of _ _ sk]) (simp_all add: wolfssl_cleanup_socket_def closed_tls_def)
  moreover have "same_sessions u t'" unfolding t' by (simp add: same_sessions_lower)
  ultimately have "loses t t'" using same_sessions_close [OF u] by (blast intro: same_sessions_loses loses_trans)
  then show ?thesis using assms(2) UDP by (rule loses_inv)
qed

lemma read_loop_same_sessions: "read_loop W ssl n got t = Some (x, t') \<Longrightarrow> same_sessions t t'"
proof (induction W ssl n got t arbitrary: x rule: read_loop.induct)
  case (1 W ssl n got t)
  let ?u = "wolf (wolfSSL_read ssl n) t"
  have u: "same_sessions t ?u" by (simp add: same_sessions_wolf)
  from 1 have "same_sessions ?u t'"
    by (subst (asm) read_loop.simps) (auto simp: wolf_int_def Let_def split: if_splits)
  with u show ?case by (rule same_sessions_trans)
qed

lemma receive_tls_same_sessions: "wolfssl_receive_tls W ssl buffer t = Some (x, t') \<Longrightarrow> same_sessions t t'"
  by (auto simp: wolfssl_receive_tls_def Option.bind_eq_Some_conv Let_def wolf_int_def same_sessions_wolf
      split: if_splits dest!: read_loop_same_sessions intro: same_sessions_trans)

lemma read_dtls_same_sessions: "read_dtls W ssl buffer t = Some (x, t') \<Longrightarrow> same_sessions t t'"
  by (auto simp: read_dtls_def Option.bind_eq_Some_conv Let_def wolf_int_def same_sessions_wolf
      split: if_splits dest!: read_loop_same_sessions intro: same_sessions_trans)

lemma dtls_accept_facts:
  assumes "wolfssl_accept W sk t = Some t'"
  shows "same_sessions t t'" and "good W t' (tls_ssl (socket_tls t sk))"
proof -
  let ?ssl = "tls_ssl (socket_tls t sk)" and ?s = "map_lower (snd \<circ> call) (map_lower (snd \<circ> call) t)"
  let ?u = "wolf (wolfSSL_accept ?ssl) ?s"
  obtain v where v: "tls_pin_certificate W ?ssl ?u = Some v" "set_dtls_async ?ssl v = Some t'"
    and r: "wolf_result W (length (wolf_calls t)) = SSL_SUCCESS W"
    using assms
    by (auto simp: wolfssl_accept_def get_client_addr_from_socket_def sys_eq Let_def Option.bind_eq_Some_conv wolf_iffs
        split: if_splits)
  note e = handshake_end [OF v(1) same_sessions_async(2) [OF v(2)], of "wolf_calls t" "wolfSSL_accept ?ssl"]
  have "same_sessions t ?u" by (simp add: same_sessions_def)
  then show "same_sessions t t'" using e(1) r by (simp add: same_sessions_trans [of t ?u t'])
  show "good W t' ?ssl" using e(2) r by simp
qed

lemma adopt_loses:
  assumes "tls_state (channel_tls t i) = RASTA_TLS_CONNECTION_ESTABLISHED"
  shows "loses t (map_socket_tls sk (\<lambda>x. x\<lparr>tls_state := RASTA_TLS_CONNECTION_ESTABLISHED, tls_ssl := tls_ssl (channel_tls t i)\<rparr>) t)"
  using assms by (auto simp: loses_def established_iff session_def split: if_splits)

lemma receive_dtls_lib: "wolfssl_receive_dtls W sk buffer t = Some (x, t') \<Longrightarrow> transport_lib (lower t') = transport_lib (lower t)"
  by (auto simp: wolfssl_receive_dtls_def get_client_addr_from_socket_def sys_eq Let_def Option.bind_eq_Some_conv same_sessions_def quiet_def
      split: if_splits option.splits rasta_tls_connection_state.splits dest!: dtls_accept_facts(1) read_dtls_same_sessions)

text \<open>The handshake of a waiting DTLS socket, with what is passed on to the channel of the sender.\<close>

lemma dtls_handshake_inv:
  assumes inv: "tls_inv W v" and lib: "transport_lib (lower v) = UDP" and w: "wolfssl_accept W sk v = Some w"
    and t': "quiet w t'" "\<And>s. established t' s \<Longrightarrow> established w s \<or> s = tls_ssl (socket_tls w sk)"
      "wolf_calls t' = wolf_calls w" "tls_config t' = tls_config w"
  shows "tls_inv W t'"
proof (rule tls_inv_quiet_UDP [OF inv _ lib])
  note f = dtls_accept_facts [OF w]
  have ssl: "tls_ssl (socket_tls w sk) = tls_ssl (socket_tls v sk)" using f(1) by (simp add: same_sessions_def session_def)
  show "quiet v t'" using f(1) t'(1) by (auto simp: same_sessions_def intro: quiet_trans)
  fix s assume "established t' s"
  with t'(2) show "established v s \<or> good W t' s"
    using f(2) ssl same_sessions_established [OF f(1)] t'(3,4) by auto
qed

lemma receive_dtls_inv:
  assumes "wolfssl_receive_dtls W sk buffer t = Some (x, t')" and "tls_inv W t" and "transport_lib (lower t) = UDP"
  shows "tls_inv W t'"
proof -
  let ?E = RASTA_TLS_CONNECTION_ESTABLISHED
  let ?u = "map_lower (snd \<circ> call) t"
  define channel where "channel = (let n = net (lower t); a = peer n (n_calls n) in find_channel_by_ip_address (lower ?u) (fst a) (snd a))"
  define v where "v = (case channel of
      Some i \<Rightarrow> if tls_state (channel_tls t i) = ?E
        then map_socket_tls sk (\<lambda>x. x\<lparr>tls_state := ?E, tls_ssl := tls_ssl (channel_tls t i)\<rparr>) ?u else ?u
    | None \<Rightarrow> ?u)"
  have "loses t ?u" by (rule same_sessions_loses) (simp add: same_sessions_lower)
  moreover have "loses ?u v" using adopt_loses [of ?u] by (auto simp: v_def same_sessions_loses split: option.splits)
  ultimately have v: "loses t v" by (rule loses_trans)
  then have lib: "transport_lib (lower v) = UDP" and inv: "tls_inv W v"
    using assms(2,3) loses_inv by (auto simp: loses_def quiet_def)
  have run: "(case tls_state (socket_tls v sk) of
        RASTA_TLS_CONNECTION_READY \<Rightarrow> map_option (\<lambda>w. (case channel of
            Some i \<Rightarrow> map_channel_tls i (\<lambda>x. x\<lparr>tls_state := ?E, tls_ssl := tls_ssl (socket_tls w sk)\<rparr>)
              (map_socket_tls sk (\<lambda>x. x\<lparr>tls_state := ?E\<rparr>) w)
          | None \<Rightarrow> map_socket_tls sk (\<lambda>x. x\<lparr>tls_state := ?E\<rparr>) w)) (wolfssl_accept W sk v)
      | RASTA_TLS_CONNECTION_ESTABLISHED \<Rightarrow> map_option snd (read_dtls W (tls_ssl (socket_tls v sk)) buffer v)
      | RASTA_TLS_CONNECTION_CLOSED \<Rightarrow> Some v) = Some t'"
    using assms(1)
    by (auto simp: wolfssl_receive_dtls_def get_client_addr_from_socket_def sys_eq Let_def Option.bind_eq_Some_conv v_def channel_def
        split: if_splits option.splits rasta_tls_connection_state.splits)
  show ?thesis
  proof (cases "tls_state (socket_tls v sk)")
    case RASTA_TLS_CONNECTION_READY
    then obtain w where w: "wolfssl_accept W sk v = Some w" using run by auto
    show ?thesis
      by (rule dtls_handshake_inv [OF inv lib w])
        (use run w RASTA_TLS_CONNECTION_READY in \<open>auto simp: established_iff session_def split: option.splits if_splits\<close>)
  next
    case RASTA_TLS_CONNECTION_ESTABLISHED
    then have "same_sessions v t'" using run read_dtls_same_sessions by auto
    with inv show ?thesis by (rule tls_inv_same_sessions)
  qed (use run inv in auto)
qed

text \<open>\<open>lowers\<close>: nothing is called, and no TCP channel becomes connected.\<close>

definition lowers :: "tls_st \<Rightarrow> tls_st \<Rightarrow> bool" where
  "lowers t t' \<longleftrightarrow> (\<exists>s. t' = t\<lparr>lower := s\<rparr> \<and> transport_lib s = transport_lib (lower t)) \<and>
     (transport_lib (lower t) = TCP \<longrightarrow> (\<forall>i. up i t' \<longrightarrow> up i t))"

lemma lowers_inv:
  assumes "lowers t t'" and "tls_inv W t"
  shows "tls_inv W t'"
proof (cases "transport_lib (lower t)")
  case TCP
  with assms show ?thesis by - (rule tls_inv_quiet_TCP [of W t], auto simp: lowers_def quiet_def)
next
  case UDP
  with assms show ?thesis by - (rule tls_inv_quiet_UDP [of W t], auto simp: lowers_def quiet_def established_def)
qed

lemma lowers_trans: "lowers t u \<Longrightarrow> lowers u v \<Longrightarrow> lowers t v"
  by (auto simp: lowers_def)

lemma channel_at_now [simp]:
  "channel_at i (snd (now_ms s)) = channel_at i s" "transport_lib (snd (now_ms s)) = transport_lib s"
  "channel_at i (map_chan (\<lambda>c. c\<lparr>diagnostics_packet_buffer := f c\<rparr>) s) = channel_at i s"
  "transport_lib (map_chan g s) = transport_lib s"
  by (simp_all add: now_ms_def channel_at_def map_chan_def Let_def split_beta)

lemma diagnostics_lowers: "run_channel_diagnostics i (lower t) = Some s \<Longrightarrow> lowers t (t\<lparr>lower := s\<rparr>)"
  by (auto simp: run_channel_diagnostics_def map_diagnostics_def Option.bind_eq_Some_conv Let_def split_beta lowers_def up_def
      channel_at_map_channel split: if_splits option.splits)

lemma outcome_lowers:
  assumes "receive_outcome_of ready data i len buffer t = Some (x, t')"
  shows "lowers t t'"
proof -
  obtain s where s: "lowers t (t\<lparr>lower := s\<rparr>)"
    and t': "t' = t\<lparr>lower := s\<rparr> \<or> t' = map_lower (disable_source data \<circ> map_channel i (\<lambda>c. c\<lparr>connected := False\<rparr>)) (t\<lparr>lower := s\<rparr>)"
    using assms diagnostics_lowers
    by (auto simp: receive_outcome_of_def lift_lower_def Option.bind_eq_Some_conv split: if_splits)
  have "lowers u (map_lower (disable_source data \<circ> map_channel i (\<lambda>c. c\<lparr>connected := False\<rparr>)) u)" for u
    by (cases data) (auto simp: lowers_def map_lower_def disable_source_def up_def channel_at_map_channel split: option.splits)
  with s t' show ?thesis by (auto intro: lowers_trans)
qed

lemma receive_event_inv:
  assumes "channel_receive_event_tls W data t = Some (x, t')" and "tls_inv W t"
  shows "tls_inv W t'"
proof (cases "transport_lib (lower t)")
  case TCP
  then obtain i y z u where u: "wolfssl_receive_tls W (tls_ssl (channel_tls t i)) y t = Some (z, u)" and "lowers u t'"
    using assms(1) outcome_lowers
    by (cases data) (auto simp: channel_receive_event_tls_def receive_callback_tls_def tcp_receive_tls_def Option.bind_eq_Some_conv)
  then show ?thesis
    using assms(2) receive_tls_same_sessions [OF u] by (blast intro: tls_inv_same_sessions lowers_inv)
next
  case UDP
  then obtain sk y z u where u: "wolfssl_receive_dtls W sk y t = Some (z, u)"
    and r: "t' = u \<or> (\<exists>i f ready len b w. receive_outcome_of ready data i len b (map_lower (map_channel i f) u) = Some (w, t'))"
    using assms(1)
    by (cases data)
      (auto simp: channel_receive_event_tls_def receive_callback_tls_def Option.bind_eq_Some_conv split: option.splits, blast)
  note inv = receive_dtls_inv [OF u assms(2) UDP]
  have "transport_lib (lower u) = UDP" using receive_dtls_lib [OF u] UDP by simp
  then have "lowers u (map_lower (map_channel i f) u)" for i f
    by (auto simp: lowers_def map_lower_def intro!: exI [of _ "map_channel i f (lower u)"])
  with r have "t' = u \<or> lowers u t'" using outcome_lowers lowers_trans by blast
  with inv show ?thesis by (auto intro: lowers_inv)
qed

text \<open>A DTLS channel that is not established yet goes through the handshake before it writes.\<close>

lemma dtls_connected:
  assumes "wolfssl_send_dtls W i message receiver t = Some t'" and "tls_inv W t" and "transport_lib (lower t) = UDP"
  obtains w where "tls_inv W w" "good W w (tls_ssl (channel_tls w i))" "t' = wolf (wolfSSL_write (tls_ssl (channel_tls w i)) message) w"
proof (cases "tls_state (channel_tls t i) = RASTA_TLS_CONNECTION_ESTABLISHED")
  case True
  then have "t' = wolf (wolfSSL_write (tls_ssl (channel_tls t i)) message) t"
    using assms(1) by (auto simp: wolfssl_send_dtls_def wolfssl_send_def wolf_int_def split: if_splits)
  moreover have "established t (tls_ssl (channel_tls t i))" using True by (auto simp: established_iff session_def)
  ultimately show ?thesis using that [of t] assms(2,3) by (simp add: tls_inv_def)
next
  case False
  let ?ssl = "tls_ssl (channel_tls t i)" and ?E = RASTA_TLS_CONNECTION_ESTABLISHED
  let ?u = "wolf (wolfSSL_connect ?ssl) (wolf (wolfSSL_dtls_set_peer ?ssl receiver) t)"
  obtain v w where v: "tls_pin_certificate W ?ssl ?u = Some v"
    and w: "set_dtls_async ?ssl (map_channel_tls i (\<lambda>x. x\<lparr>tls_state := ?E\<rparr>) v) = Some w"
    and r: "wolf_result W (Suc (length (wolf_calls t))) = SSL_SUCCESS W"
    and t': "t' = wolf (wolfSSL_write (tls_ssl (channel_tls w i)) message) w"
    using assms(1) False
    by (auto simp: wolfssl_send_dtls_def wolfssl_send_def wolf_int_def wolf_must_iff Option.bind_eq_Some_conv Let_def split: if_splits)
  have calls: "wolf_calls ?u = (wolf_calls t @ [wolfSSL_dtls_set_peer ?ssl receiver]) @ [wolfSSL_connect ?ssl]" by simp
  note e = handshake_end [OF v same_sessions_refl calls]
  have k: "same_sessions ?u v" and g: "good W v ?ssl" using e r by simp_all
  have "same_sessions t ?u" by (simp add: same_sessions_def)
  then have tv: "same_sessions t v" using k by (rule same_sessions_trans)
  note kw = same_sessions_async(2) [OF w]
  have q: "quiet v w" using kw by (simp add: same_sessions_def quiet_def)
  have ssl: "tls_ssl (channel_tls w i) = ?ssl" using kw tv by (simp add: same_sessions_def session_def)
  have gw: "good W w ?ssl" using q g by (rule good_quiet)
  have "quiet t w" using tv q by (auto simp: same_sessions_def intro: quiet_trans)
  then have "tls_inv W w"
  proof (rule tls_inv_quiet_UDP [OF assms(2) _ assms(3)])
    fix s assume "established w s"
    then have "established (map_channel_tls i (\<lambda>x. x\<lparr>tls_state := ?E\<rparr>) v) s" using same_sessions_established [OF kw] by simp
    then have "established v s \<or> s = tls_ssl (channel_tls v i)" by (auto simp: established_iff session_def split: if_splits)
    then show "established t s \<or> good W w s"
      using gw tv same_sessions_established [OF tv] by (auto simp: same_sessions_def session_def)
  qed
  with that gw ssl t' show ?thesis by simp
qed

lemma send_inv:
  assumes "send_callback_tls W message i t = Some t'" and "transport_lib (lower t) = TCP \<Longrightarrow> good W t (tls_ssl (channel_tls t i))"
    and "tls_inv W t"
  shows "tls_inv W t'"
proof -
  have sent: "tls_inv W (wolf (wolfSSL_write ssl message) u)" if "tls_inv W u" "good W u ssl" for u ssl
    using that unfolding tls_inv_def established_def
    by (auto simp: writes_secured_snoc intro: secured_append split: transport.splits)
  show ?thesis
  proof (cases "transport_lib (lower t)")
    case TCP
    then have "t' = wolf (wolfSSL_write (tls_ssl (channel_tls t i)) message) t"
      using assms(1)
      by (auto simp: send_callback_tls_def tcp_send_tls_def wolfssl_send_tls_def wolfssl_send_def wolf_int_def
          Option.bind_eq_Some_conv split: if_splits)
    then show ?thesis using sent assms(2,3) TCP by simp
  next
    case UDP
    then obtain receiver where "wolfssl_send_dtls W i message receiver t = Some t'"
      using assms(1)
      by (auto simp: send_callback_tls_def udp_send_dtls_def Option.bind_eq_Some_conv split: if_splits)
    from dtls_connected [OF this assms(3) UDP] show ?thesis using sent by metis
  qed
qed

lemma mux_send_inv:
  assumes "mux_send_channel_tls W own_role message i t = Some t'" and "tls_inv W t"
  shows "tls_inv W t'"
proof (cases "up i t")
  case True
  then have "send_callback_tls W message i t = Some t'"
    using assms(1) by (auto simp: mux_send_channel_tls_def up_def Option.bind_eq_Some_conv split: option.splits)
  then show ?thesis using True assms(2) by - (rule send_inv [of W message i t], simp_all add: tls_inv_def)
next
  case False
  then consider (skipped) "t' = t" | (failed) r where "transport_redial_tls W i t = Some (r, t')"
    | (redialled) u where "transport_redial_tls W i t = Some (0, u)" "send_callback_tls W message i u = Some t'"
    using assms(1) by (auto simp: mux_send_channel_tls_def up_def Option.bind_eq_Some_conv split: if_splits)
  then show ?thesis
  proof cases
    case redialled
    then have "transport_lib (lower t) = TCP" by (cases "transport_lib (lower t)") (simp_all add: transport_redial_tls_def)
    from redial_connects [OF this redialled(1)] have "good W u (tls_ssl (channel_tls u i))" by (simp add: connects_def)
    then show ?thesis using redialled(2) redial_inv [OF redialled(1) False assms(2)] by - (rule send_inv)
  qed (use assms False redial_inv in auto)
qed

section \<open>Every sequence of calls\<close>

text \<open>
  What the endpoint does with the transport: bind and listen, a client connects a channel that is not
  connected, the events of sockets and channels, sending, closing. \<open>step_above\<close> is whatever the layers above do
  in between: they never connect a TCP channel by themselves. Over UDP there is no accept event.
\<close>

inductive tls_step :: "wolfssl \<Rightarrow> tls_st \<Rightarrow> tls_st \<Rightarrow> bool" for W where
  step_bind: "transport_bind_tls W sk t = Some (b, t') \<Longrightarrow> tls_step W t t'"
| step_listen: "transport_listen_tls W sk t = Some t' \<Longrightarrow> tls_step W t t'"
| step_connect: "transport_connect_tls W sk i t = Some (r, t') \<Longrightarrow> \<not> up i t \<Longrightarrow> tls_step W t t'"
| step_accept: "channel_accept_event_tls W sk t = Some (b, t') \<Longrightarrow> transport_lib (lower t) = TCP \<Longrightarrow> tls_step W t t'"
| step_receive: "channel_receive_event_tls W data t = Some (x, t') \<Longrightarrow> tls_step W t t'"
| step_send: "mux_send_channel_tls W own_role message i t = Some t' \<Longrightarrow> tls_step W t t'"
| step_close_channel: "transport_close_channel_tls i t = Some t' \<Longrightarrow> tls_step W t t'"
| step_close_socket: "transport_close_socket_tls sk t = Some t' \<Longrightarrow> tls_step W t t'"
| step_above: "lowers t t' \<Longrightarrow> tls_step W t t'"

inductive tls_run :: "wolfssl \<Rightarrow> tls_st \<Rightarrow> tls_st \<Rightarrow> bool" for W where
  run_start: "tls_run W t t"
| run_step: "tls_run W t u \<Longrightarrow> tls_step W u v \<Longrightarrow> tls_run W t v"

lemma tls_step_inv: "tls_step W t t' \<Longrightarrow> tls_inv W t \<Longrightarrow> tls_inv W t'"
  by (induction rule: tls_step.induct)
    (blast intro: bind_inv tls_inv_same_sessions listen_same_sessions connect_inv accept_event_inv receive_event_inv mux_send_inv
      close_channel_inv close_socket_inv lowers_inv)+

lemma tls_run_inv: "tls_run W t t' \<Longrightarrow> tls_inv W t \<Longrightarrow> tls_inv W t'"
  by (induction rule: tls_run.induct) (blast intro: tls_step_inv)+

text \<open>The start: nothing called, nothing connected, all fields zero.\<close>

definition tls_start :: "tls_st \<Rightarrow> bool" where
  "tls_start t \<longleftrightarrow> wolf_calls t = [] \<and> (\<forall>c \<in> set (transport_channels (chan (lower t))). \<not> connected c) \<and>
     (\<forall>i. channel_tls t i = \<lparr>tls_ctx = 0, tls_ssl = 0, tls_state = RASTA_TLS_CONNECTION_READY\<rparr> \<and>
        socket_tls t i = \<lparr>tls_ctx = 0, tls_ssl = 0, tls_state = RASTA_TLS_CONNECTION_READY\<rparr>)"

lemma tls_start_inv:
  assumes "tls_start t"
  shows "tls_inv W t"
proof -
  have "\<not> up i t" for i using assms by (auto simp: tls_start_def up_def channel_at_def)
  then show ?thesis
    using assms by (auto simp: tls_inv_def tls_start_def writes_secured_def established_iff session_def split: transport.splits)
qed

text \<open>A client whose library answers every call with success; the write returns the two bytes it was given.\<close>

definition example_wolfssl :: wolfssl where
  "example_wolfssl = \<lparr>SSL_SUCCESS = 1, WOLFSSL_SUCCESS = 1, SSL_ERROR_WANT_READ = 2, SSL_ERROR_WANT_WRITE = 3,
     SOCKET_PEER_CLOSED_E = -397, wolf_result = (\<lambda>n. if n = 17 then 2 else 1), wolf_null = (\<lambda>_. False),
     wolf_bytes = (\<lambda>_. [7, 8, 9])\<rparr>"

definition example_tls :: tls_st where
  "example_tls =
     (let zero = \<lparr>tls_ctx = 0, tls_ssl = 0, tls_state = RASTA_TLS_CONNECTION_READY\<rparr>
      in \<lparr>lower = example_st\<lparr>chan := (chan example_st)\<lparr>transport_channels :=
              [(example_channel 0)\<lparr>connected := False, remote_ip_address := ''10.0.0.2'', remote_port := 8888\<rparr>]\<rparr>\<rparr>,
          channel_tls = (\<lambda>_. zero), socket_tls = (\<lambda>_. zero),
          tls_config = \<lparr>ca_cert_path = Some ''ca.pem'', cert_path = None, key_path = None, tls_hostname = ''peer'',
            peer_tls_cert_path = Some ''peer.pem''\<rparr>,
          wolfssl_initialized = False, wolf_calls = []\<rparr>)"

lemma example_channels [simp]:
  "channel_at 0 (lower example_tls) = Some ((example_channel 0)\<lparr>connected := False, remote_ip_address := ''10.0.0.2'', remote_port := 8888\<rparr>)"
  "transport_lib (lower example_tls) = TCP"
  by (simp_all add: example_tls_def Let_def example_st_def channel_at_def)

lemma example_wolfssl_simps [simp]:
  "SSL_SUCCESS example_wolfssl = 1" "WOLFSSL_SUCCESS example_wolfssl = 1" "wolf_bytes example_wolfssl n = [7, 8, 9]"
  "wolf_result example_wolfssl n = (if n = 17 then 2 else 1)" "wolf_object example_wolfssl n = Suc n"
  by (simp_all add: example_wolfssl_def wolf_object_def)

lemma example_tls_simps [simp]:
  "wolf_calls example_tls = []" "wolfssl_initialized example_tls = False"
  "tls_config example_tls = \<lparr>ca_cert_path = Some ''ca.pem'', cert_path = None, key_path = None, tls_hostname = ''peer'',
     peer_tls_cert_path = Some ''peer.pem''\<rparr>"
  "channel_tls example_tls = (\<lambda>_. \<lparr>tls_ctx = 0, tls_ssl = 0, tls_state = RASTA_TLS_CONNECTION_READY\<rparr>)"
  "answers (net (lower example_tls)) = (\<lambda>_. 0)" "valid_address (net (lower example_tls)) = (\<lambda>_. True)"
  "\<exists>socket. socket_at 0 (lower example_tls) = Some socket"
  by (simp_all add: example_tls_def example_st_def example_net_def socket_at_def Let_def)

lemma net_simps [simp]:
  "fst (call s) = answers (net s) (n_calls (net s))" "answers (net (snd (call s))) = answers (net s)"
  "answers (net (map_channel i f s)) = answers (net s)" "answers (net (map_socket i g s)) = answers (net s)"
  "valid_address (net (snd (call s))) = valid_address (net s)" "valid_address (net (map_channel i f s)) = valid_address (net s)"
  by (simp_all add: call_def sys_call_def map_channel_def map_chan_def map_socket_def)

lemmas wolf_eval = wolf_alloc_def wolf_ptr_def wolf_int_def wolf_must_def sys_eq

lemma initialize_eq:
  "\<not> wolfssl_initialized t \<Longrightarrow> wolfssl_initialize_if_necessary t = wolf wolfSSL_Init (t\<lparr>wolfssl_initialized := True\<rparr>)"
  by (simp add: wolfssl_initialize_if_necessary_def)

lemma memcmp_same [simp]: "memcmp xs xs = 0"
  using memcmp_eq_0_iff by blast

lemma initialized_simps [simp]: "wolfssl_initialized (map_lower f t) = wolfssl_initialized t" "lower (t\<lparr>wolfssl_initialized := b\<rparr>) = lower t"
  by (simp_all add: map_lower_def)

lemma example_connects:
  "\<exists>t'. transport_connect_tls example_wolfssl 0 0 example_tls = Some (0, t') \<and> up 0 t' \<and> transport_lib (lower t') = TCP \<and>
     length (wolf_calls t') = 17 \<and> tls_ssl (channel_tls t' 0) = 4"
proof -
  obtain socket where "socket_at 0 (lower example_tls) = Some socket" using example_tls_simps(7) by blast
  then show ?thesis
    by (simp add: transport_connect_tls_def tcp_transport_connect_tls_def tcp_connect_tls_def wolf_eval channel_at_map_channel
        wolfssl_start_tls_client_def wolfssl_start_client_def initialize_eq connect_session_def)
      (simp add: tls_pin_certificate_def generate_certificate_digest_def wolf_eval SHA256_BUFFER_LENGTH_BYTES_def set_tls_async_def
        set_socket_async_def channel_at_map_channel up_def)
qed

lemma example_sends:
  assumes "up 0 t" and "transport_lib (lower t) = TCP" and "length (wolf_calls t) = 17" and "tls_ssl (channel_tls t 0) = 4"
  shows "mux_send_channel_tls example_wolfssl RASTA_ROLE_CLIENT [1, 2] 0 t = Some (wolf (wolfSSL_write 4 [1, 2]) t)"
  using assms
  by (auto simp: mux_send_channel_tls_def send_callback_tls_def tcp_send_tls_def wolfssl_send_tls_def wolfssl_send_def wolf_int_def up_def
      split: option.splits)

lemma example_tls_start: "tls_start example_tls"
  by (simp add: tls_start_def) (simp add: example_tls_def Let_def)

text \<open>
  C22: Nothing leaves the endpoint before the peer is authenticated. In every run of the TLS or DTLS transport
  that starts from zeroed channels and sockets, each \<open>wolfSSL_write\<close> is on a session whose handshake returned
  success before, and if a certificate is pinned, the digest of the certificate of that peer was equal to the
  digest of the pinned file.
\<close>

theorem tls_writes_authenticated:
  assumes "tls_start t" and "tls_run W t t'"
  shows "writes_secured W (tls_config t') (wolf_calls t')"
  using tls_run_inv [OF assms(2) tls_start_inv [OF assms(1)]] by (simp add: tls_inv_def)


text \<open>On the example, the handshake and the pinned certificate come before the two bytes.\<close>

theorem tls_writes_authenticated_witness:
  "tls_start example_tls \<and>
   (\<exists>t'. tls_run example_wolfssl example_tls t' \<and> writes_secured example_wolfssl (tls_config t') (wolf_calls t') \<and>
      wolf_calls t' ! 17 = wolfSSL_write 4 [1, 2])"
proof -
  obtain t where t: "transport_connect_tls example_wolfssl 0 0 example_tls = Some (0, t)" "up 0 t" "transport_lib (lower t) = TCP"
    "length (wolf_calls t) = 17" "tls_ssl (channel_tls t 0) = 4"
    using example_connects by blast
  let ?t = "wolf (wolfSSL_write 4 [1, 2]) t"
  have "\<not> up 0 example_tls" by (simp add: up_def)
  then have "tls_run example_wolfssl example_tls ?t"
    by (blast intro: run_start run_step step_connect [OF t(1)] step_send [OF example_sends [OF t(2-5)]])
  moreover have "wolf_calls ?t ! 17 = wolfSSL_write 4 [1, 2]" using t(4) by (simp add: nth_append)
  ultimately show ?thesis using example_tls_start tls_writes_authenticated by blast
qed

end
