(* ===== verification/Rasta_TLS_Failures.thy ===== *)
theory Rasta_TLS_Failures
  imports Rasta_TLS_Sessions
begin

text \<open>
  What the TLS transport reads, and three of its weaknesses: an accepted channel shares the context of the
  listening socket and frees it when it closes, a record without application data counts as the end of the
  connection, and a stranger can take the only session of a DTLS socket.
\<close>

section \<open>Reading\<close>

text \<open>Beginning with call \<open>k\<close>, the library delivers the chunks \<open>cs\<close>.\<close>

definition delivers :: "wolfssl \<Rightarrow> nat \<Rightarrow> bytes list \<Rightarrow> bool" where
  "delivers W k cs \<longleftrightarrow> (\<forall>j < length cs. cs ! j \<noteq> [] \<and> wolf_result W (k + j) = int (length (cs ! j)) \<and> wolf_bytes W (k + j) = cs ! j)"

lemma delivers_Cons:
  "delivers W k (c # cs) \<longleftrightarrow> c \<noteq> [] \<and> wolf_result W k = int (length c) \<and> wolf_bytes W k = c \<and> delivers W (Suc k) cs"
  by (auto simp: delivers_def All_less_Suc2)

lemma read_loop_stream:
  assumes "delivers W (length (wolf_calls t)) cs" and "length (concat cs) < n"
    and "wolf_result W (length (wolf_calls t) + length cs) < 0"
  shows "\<exists>t'. read_loop W ssl n got t = Some ((wolf_result W (length (wolf_calls t) + length cs), got @ concat cs), t') \<and>
    length (wolf_calls t') = length (wolf_calls t) + length cs + 1"
  using assms
proof (induction cs arbitrary: n got t)
  case Nil
  then show ?case by (simp add: read_loop.simps wolf_int_def)
next
  case (Cons c cs)
  let ?t = "wolf (wolfSSL_read ssl n) t"
  have "\<exists>t'. read_loop W ssl (n - length c) (got @ c) ?t =
      Some ((wolf_result W (length (wolf_calls ?t) + length cs), (got @ c) @ concat cs), t') \<and>
    length (wolf_calls t') = length (wolf_calls ?t) + length cs + 1"
    using Cons.prems by (intro Cons.IH) (auto simp: delivers_Cons)
  then show ?case using Cons.prems by (subst read_loop.simps) (auto simp: wolf_int_def delivers_Cons)
qed

text \<open>A full buffer ends the loop too.\<close>

lemma read_loop_full:
  assumes "delivers W (length (wolf_calls t)) cs" and "length (concat cs) = n" and "cs \<noteq> []"
  shows "\<exists>r t'. 0 < r \<and> read_loop W ssl n got t = Some ((r, got @ concat cs), t')"
  using assms
proof (induction cs arbitrary: n got t)
  case (Cons c cs)
  let ?t = "wolf (wolfSSL_read ssl n) t"
  show ?case
  proof (cases "cs = []")
    case True
    then show ?thesis using Cons.prems by (subst read_loop.simps) (auto simp: wolf_int_def delivers_Cons)
  next
    case False
    then have ne: "concat cs \<noteq> []" using Cons.prems(1) by (cases cs) (auto simp: delivers_Cons)
    have "\<exists>r t'. 0 < r \<and> read_loop W ssl (n - length c) (got @ c) ?t = Some ((r, (got @ c) @ concat cs), t')"
      using Cons.prems False by (intro Cons.IH) (auto simp: delivers_Cons)
    then show ?thesis using Cons.prems ne by (subst read_loop.simps) (auto simp: wolf_int_def delivers_Cons Let_def)
  qed
qed simp

text \<open>
  What \<open>wolfssl_receive_tls\<close> returns for a stream: all the bytes there are, in order; nothing of them when the
  peer has closed the connection in the meantime.
\<close>

lemma receive_tls_stream:
  assumes "delivers W (length (wolf_calls t)) cs" and "length (concat cs) < length buffer"
    and "wolf_result W (length (wolf_calls t) + length cs) < 0"
  defines "e \<equiv> wolf_result W (length (wolf_calls t) + length cs + 1)"
  shows "map_option fst (wolfssl_receive_tls W ssl buffer t) =
    (if e = SOCKET_PEER_CLOSED_E W then Some (-1, concat cs @ drop (length (concat cs)) buffer)
     else if e \<noteq> SSL_ERROR_WANT_READ W \<and> e \<noteq> SSL_ERROR_WANT_WRITE W then None
     else Some (int (length (concat cs)), concat cs @ drop (length (concat cs)) buffer))"
  using read_loop_stream [OF assms(1-3), of ssl "[]"] assms(3)
  by (auto simp: wolfssl_receive_tls_def wolf_int_def e_def)

section \<open>A record without application data\<close>

lemma diagnostics_defined:
  assumes "channel_at i (lower t) = Some c"
  shows "\<exists>s c'. run_channel_diagnostics i (lower t) = Some s \<and> channel_at i s = Some c'"
  using assms
  by (auto simp: run_channel_diagnostics_def Let_def split_beta map_diagnostics_def channel_at_map_channel)

text \<open>
  A TLS record without application data ends the connection. When the event of a channel finds that the
  library has nothing to deliver (\<open>SSL_ERROR_WANT_READ\<close>, as after a session ticket of TLS 1.3), then
  \<open>channel_receive_event\<close> takes the length 0 for a broken connection: the channel is no longer connected and its event is disabled.
\<close>

theorem record_without_data_breaks:
  assumes "transport_lib (lower t) = TCP" and "channel_at i (lower t) = Some c" and "tc_id c = i"
    and "wolf_result W (length (wolf_calls t)) < 0"
    and "wolf_result W (length (wolf_calls t) + 1) = SSL_ERROR_WANT_READ W" and "SSL_ERROR_WANT_READ W \<noteq> SOCKET_PEER_CLOSED_E W"
  shows "\<exists>t' c'. channel_receive_event_tls W (From_Channel i) t = Some (Broken i, t') \<and>
    channel_at i (lower t') = Some c' \<and> \<not> connected c' \<and> \<not> ev_enabled (tc_receive_event c')"
proof -
  let ?ssl = "tls_ssl (channel_tls t i)" and ?b = "replicate MAX_DEFER_QUEUE_MSG_SIZE 0"
  let ?t = "wolf (wolfSSL_get_error ?ssl) (wolf (wolfSSL_read ?ssl MAX_DEFER_QUEUE_MSG_SIZE) t)"
  have "wolfssl_receive_tls W ?ssl ?b t = Some ((0, ?b), ?t)"
    using assms(4-6) by (simp add: wolfssl_receive_tls_def read_loop.simps wolf_int_def)
  moreover obtain s c' where "run_channel_diagnostics i (lower ?t) = Some s" "channel_at i s = Some c'"
    using diagnostics_defined [of i ?t] assms(2) by auto
  ultimately show ?thesis
    using assms(1-3)
    by (simp add: channel_receive_event_tls_def receive_callback_tls_def tcp_receive_tls_def is_dtls_conn_ready_def
        receive_outcome_of_def lift_lower_def disable_source_def channel_at_map_channel disable_fd_event_def)
qed

text \<open>On the example: a library that has nothing to deliver.\<close>

theorem record_without_data_breaks_witness:
  "let W = example_wolfssl\<lparr>wolf_result := (\<lambda>n. if n = 0 then -1 else 2)\<rparr>
   in \<exists>t' c'. channel_receive_event_tls W (From_Channel 0) example_tls = Some (Broken 0, t') \<and>
        channel_at 0 (lower t') = Some c' \<and> \<not> connected c' \<and> \<not> ev_enabled (tc_receive_event c')"
  unfolding Let_def
  by (rule record_without_data_breaks) (simp_all add: example_channel_def, simp_all add: example_wolfssl_def)

section \<open>The context of the listening socket\<close>

text \<open>The address that the next \<open>accept\<close> finds: \<open>getpeername\<close> comes after \<open>accept\<close> and two calls of \<open>fcntl\<close>.\<close>

definition next_peer :: "tls_st \<Rightarrow> string \<times> u16" where
  "next_peer t = peer (net (lower t)) (n_calls (net (lower t)) + 3)"

lemma pin_fields:
  "tls_pin_certificate W ssl t = Some t' \<Longrightarrow> lower t' = lower t \<and> socket_tls t' = socket_tls t \<and> channel_tls t' = channel_tls t \<and>
     (\<exists>zs. wolf_calls t' = wolf_calls t @ zs)"
  by (auto simp: tls_pin_certificate_def Option.bind_eq_Some_conv digest_iff wolf_iffs split: option.splits if_splits)

lemma async_fields:
  "set_tls_async ssl t = Some t' \<Longrightarrow> t' = wolf (wolfSSL_set_using_nonblock ssl) (map_lower (snd \<circ> call) (map_lower (snd \<circ> call) t))"
  by (auto simp: set_tls_async_def set_socket_async_def Let_def sys_eq split: if_splits)

lemma tcp_accept_fields:
  assumes "tcp_accept_tls W sk t = Some (fd, t')"
  shows "lower t' = (snd \<circ> call \<circ> snd \<circ> call \<circ> snd \<circ> call) (lower t)" and "tls_ctx (socket_tls t' sk) = tls_ctx (socket_tls t sk)"
    and "\<exists>zs. wolf_calls t' = wolf_calls t @ wolfSSL_new (tls_ctx (socket_tls t sk)) # zs"
  using assms
  by (auto simp: tcp_accept_tls_def sys_eq Let_def Option.bind_eq_Some_conv wolf_iffs
      split: if_splits dest!: pin_fields async_fields)

lemma call_fields:
  "transport_channels (chan (snd (call s))) = transport_channels (chan s)" "peer (net (snd (call s))) = peer (net s)"
  "n_calls (net (snd (call s))) = Suc (n_calls (net s))" "find_channel_by_ip_address (snd (call s)) = find_channel_by_ip_address s"
  by (simp_all add: call_def sys_call_def find_channel_by_ip_address_def fun_eq_iff)

lemma accept_event_fields:
  assumes "channel_accept_event_tls W sk t = Some (b, t')" and "transport_lib (lower t) = TCP"
  shows "\<exists>zs. wolf_calls t' = wolf_calls t @ wolfSSL_new (tls_ctx (socket_tls t sk)) # zs"
    and "tls_ctx (socket_tls t' sk) = tls_ctx (socket_tls t sk)" and "transport_lib (lower t') = TCP"
    and "find_channel_by_ip_address (lower t) (fst (next_peer t)) (snd (next_peer t)) = Some i \<Longrightarrow>
      tls_ctx (channel_tls t' i) = tls_ctx (socket_tls t sk) \<and> (channel_at i (lower t) \<noteq> None \<longrightarrow> up i t')"
proof -
  obtain fd addr port v where v: "transport_accept_tls W sk t = Some ((fd, addr, port), v)"
    using assms(1) by (auto simp: channel_accept_event_tls_def Option.bind_eq_Some_conv)
  then obtain u where u: "tcp_accept_tls W sk t = Some (fd, u)" and v': "v = map_lower (snd \<circ> call) u"
    and a: "(addr, port) = peer (net (lower u)) (n_calls (net (lower u)))"
    using assms(2) by (auto simp: transport_accept_tls_def Option.bind_eq_Some_conv Let_def sys_eq split: if_splits)
  note f = tcp_accept_fields [OF u]
  have a': "(addr, port) = next_peer t" by (simp add: a f(1) next_peer_def call_fields eval_nat_numeral)
  show "\<exists>zs. wolf_calls t' = wolf_calls t @ wolfSSL_new (tls_ctx (socket_tls t sk)) # zs" "transport_lib (lower t') = TCP"
    "tls_ctx (socket_tls t' sk) = tls_ctx (socket_tls t sk)"
    "find_channel_by_ip_address (lower t) (fst (next_peer t)) (snd (next_peer t)) = Some i \<Longrightarrow>
      tls_ctx (channel_tls t' i) = tls_ctx (socket_tls t sk) \<and> (channel_at i (lower t) \<noteq> None \<longrightarrow> up i t')"
    using assms f v
    by (auto simp: channel_accept_event_tls_def v' sys_eq f(1) call_fields up_def channel_at_map_channel simp flip: a' split: option.splits)
qed

lemma close_fields:
  "lower_close fd t = Some t' \<Longrightarrow> wolf_calls t' = wolf_calls t \<and> socket_tls t' = socket_tls t \<and> transport_lib (lower t') = transport_lib (lower t)"
  by (auto simp: lower_close_def bsd_close_def Option.bind_eq_Some_conv Let_def split_beta split: if_splits)

lemma close_frees_context:
  assumes "transport_close_channel_tls i t = Some t'" and "transport_lib (lower t) = TCP" and "up i t"
  shows "\<exists>xs. wolf_calls t' = xs @ [wolfSSL_CTX_free (tls_ctx (channel_tls t i))]" and "socket_tls t' = socket_tls t"
    and "transport_lib (lower t') = TCP"
proof -
  obtain c where c: "channel_at i (lower t) = Some c" "connected c" using assms(3) by (auto simp: up_def split: option.splits)
  then obtain u where u: "lower_close (tc_fd c) (wolfssl_cleanup_channel i t) = Some u"
    and "wolf_calls t' = wolf_calls u" "socket_tls t' = socket_tls u" "transport_lib (lower t') = transport_lib (lower u)"
    using assms(1,2) by (auto simp: transport_close_channel_tls_def tcp_close_tls_def Option.bind_eq_Some_conv)
  with close_fields [OF u] assms(2)
  show "\<exists>xs. wolf_calls t' = xs @ [wolfSSL_CTX_free (tls_ctx (channel_tls t i))]" "socket_tls t' = socket_tls t"
    "transport_lib (lower t') = TCP"
    by (auto simp: wolfssl_cleanup_channel_def wolfssl_cleanup_def)
qed

text \<open>
  C23: A TLS server uses a context after it has freed it. The channel of an accepted connection gets the context
  of the listening socket, closing the channel passes it to \<open>wolfSSL_CTX_free\<close>, and the next connection creates
  its session with the same context: \<open>wolfSSL_new\<close> is the very next call.
\<close>

theorem accept_uses_freed_context:
  assumes "transport_lib (lower t) = TCP" and "channel_at i (lower t) = Some c"
    and "find_channel_by_ip_address (lower t) (fst (next_peer t)) (snd (next_peer t)) = Some i"
    and "channel_accept_event_tls W sk t = Some (b1, t1)" and "transport_close_channel_tls i t1 = Some t2"
    and "channel_accept_event_tls W sk t2 = Some (b3, t3)"
  shows "\<exists>xs zs. wolf_calls t3 = xs @ [wolfSSL_CTX_free (tls_ctx (socket_tls t sk)), wolfSSL_new (tls_ctx (socket_tls t sk))] @ zs"
proof -
  note a = accept_event_fields [OF assms(4,1)]
  have "tls_ctx (channel_tls t1 i) = tls_ctx (socket_tls t sk)" "up i t1" using a(4) [OF assms(3)] assms(2) by auto
  with close_frees_context [OF assms(5) a(3)] obtain xs
    where c: "wolf_calls t2 = xs @ [wolfSSL_CTX_free (tls_ctx (socket_tls t sk))]" "socket_tls t2 = socket_tls t1"
    "transport_lib (lower t2) = TCP" by auto
  from accept_event_fields(1) [OF assms(6) c(3)] obtain zs
    where "wolf_calls t3 = wolf_calls t2 @ wolfSSL_new (tls_ctx (socket_tls t sk)) # zs" using a(2) c(2) by auto
  with c(1) have "wolf_calls t3 = xs @ [wolfSSL_CTX_free (tls_ctx (socket_tls t sk)), wolfSSL_new (tls_ctx (socket_tls t sk))] @ zs" by simp
  then show ?thesis by blast
qed

text \<open>On the example, whose address is the one every connection comes from.\<close>

definition example_server :: tls_st where
  "example_server = map_socket_tls 0 (\<lambda>x. x\<lparr>tls_ctx := 9\<rparr>)
     (example_tls\<lparr>tls_config := (tls_config example_tls)\<lparr>peer_tls_cert_path := None\<rparr>\<rparr>)"

lemma accept_succeeds:
  assumes "transport_lib (lower t) = TCP" and "answers (net (lower t)) = (\<lambda>_. 0)" and "peer_tls_cert_path (tls_config t) = None"
    and "\<not> wolf_null W (length (wolf_calls t))" and "wolf_result W (length (wolf_calls t) + 2) = WOLFSSL_SUCCESS W"
  shows "\<exists>t'. channel_accept_event_tls W sk t = Some (False, t') \<and> answers (net (lower t')) = (\<lambda>_. 0) \<and>
    peer_tls_cert_path (tls_config t') = None \<and> length (wolf_calls t') = length (wolf_calls t) + 4"
  using assms
  by (simp add: channel_accept_event_tls_def transport_accept_tls_def tcp_accept_tls_def sys_eq Let_def wolf_alloc_def wolf_ptr_def
      wolf_object_def wolf_must_def wolf_int_def tls_pin_certificate_def set_tls_async_def set_socket_async_def split: option.splits prod.splits)

lemma close_succeeds:
  assumes "transport_lib (lower t) = TCP" and "answers (net (lower t)) = (\<lambda>_. 0)" and "up i t"
  shows "\<exists>t'. transport_close_channel_tls i t = Some t' \<and> answers (net (lower t')) = (\<lambda>_. 0) \<and>
    tls_config t' = tls_config t \<and> length (wolf_calls t') = length (wolf_calls t) + 4"
  using assms
  by (auto simp: transport_close_channel_tls_def tcp_close_tls_def lower_close_def bsd_close_def wolfssl_cleanup_channel_def
      wolfssl_cleanup_def up_def Let_def split_beta map_channel_tls_def map_lower_def wolf_def split: option.splits)

theorem accept_uses_freed_context_witness:
  "\<exists>t1 t2 t3 xs zs.
     channel_accept_event_tls example_wolfssl 0 example_server = Some (False, t1) \<and> transport_close_channel_tls 0 t1 = Some t2 \<and>
     channel_accept_event_tls example_wolfssl 0 t2 = Some (False, t3) \<and>
     wolf_calls t3 = xs @ [wolfSSL_CTX_free 9, wolfSSL_new 9] @ zs"
proof -
  have s: "transport_lib (lower example_server) = TCP" "answers (net (lower example_server)) = (\<lambda>_. 0)"
    "peer_tls_cert_path (tls_config example_server) = None" "wolf_calls example_server = []" "tls_ctx (socket_tls example_server 0) = 9"
    "channel_at 0 (lower example_server) = channel_at 0 (lower example_tls)"
    by (simp_all add: example_server_def)
  have null: "\<not> wolf_null example_wolfssl n" for n by (simp add: example_wolfssl_def)
  have find: "find_channel_by_ip_address (lower example_server) (fst (next_peer example_server)) (snd (next_peer example_server)) = Some 0"
    by (simp add: example_server_def next_peer_def example_tls_def example_st_def example_net_def find_channel_by_ip_address_def Let_def)
  obtain t1 where t1: "channel_accept_event_tls example_wolfssl 0 example_server = Some (False, t1)"
    "answers (net (lower t1)) = (\<lambda>_. 0)" "peer_tls_cert_path (tls_config t1) = None" "length (wolf_calls t1) = 4"
    using accept_succeeds [of example_server example_wolfssl 0] s null by auto
  note a = accept_event_fields [OF t1(1) s(1)]
  have up: "up 0 t1" using a(4) [OF find] s(6) by simp
  obtain t2 where t2: "transport_close_channel_tls 0 t1 = Some t2" "answers (net (lower t2)) = (\<lambda>_. 0)"
    "tls_config t2 = tls_config t1" "length (wolf_calls t2) = 8"
    using close_succeeds [OF a(3) t1(2) up] t1(4) by auto
  have "transport_lib (lower t2) = TCP" by (rule close_frees_context(3) [OF t2(1) a(3) up])
  then obtain t3 where t3: "channel_accept_event_tls example_wolfssl 0 t2 = Some (False, t3)"
    using accept_succeeds [of t2 example_wolfssl 0] t2 t1(3) null by auto
  from accept_uses_freed_context [OF s(1) _ find t1(1) t2(1) t3] s(5,6) t1(1) t2(1) t3 show ?thesis by auto
qed

section \<open>Strangers\<close>

text \<open>
  The handshake comes before the check of the address: when a sender that is not configured talks to a DTLS socket
  that waits for a connection, the socket is his. Its state is established, so that no later client hello is
  accepted.
\<close>

lemma stranger_takes_socket:
  assumes "channel_receive_event_tls W (From_Socket sk) t = Some (Unknown_Peer, t')" and "transport_lib (lower t) = UDP"
    and "find_channel_by_ip_address (lower t) (fst (peer (net (lower t)) (n_calls (net (lower t))))) (snd (peer (net (lower t)) (n_calls (net (lower t))))) = None"
    and "tls_state (socket_tls t sk) = RASTA_TLS_CONNECTION_READY"
  shows "tls_state (socket_tls t' sk) = RASTA_TLS_CONNECTION_ESTABLISHED \<and> secured W (tls_config t') (wolf_calls t') (tls_ssl (socket_tls t' sk))"
proof -
  let ?t = "map_lower (snd \<circ> call) t"
  obtain x where "wolfssl_receive_dtls W sk (replicate MAX_DEFER_QUEUE_MSG_SIZE 0) t = Some (x, t')"
    using assms(1,2)
    by (auto simp: channel_receive_event_tls_def receive_callback_tls_def receive_outcome_of_def Option.bind_eq_Some_conv
        split: option.splits if_splits)
  then obtain u where u: "wolfssl_accept W sk ?t = Some u"
    and t': "t' = map_socket_tls sk (\<lambda>x. x\<lparr>tls_state := RASTA_TLS_CONNECTION_ESTABLISHED\<rparr>) u"
    using assms(3,4)
    by (auto simp: wolfssl_receive_dtls_def get_client_addr_from_socket_def sys_eq Let_def Option.bind_eq_Some_conv call_fields split: if_splits)
  show ?thesis
    using dtls_accept_facts [OF u] by (simp add: t' same_sessions_def session_def)
qed

text \<open>A client that fails the TLS handshake ends the server: \<open>tcp_accept\<close> aborts the process.\<close>

lemma failed_handshake_aborts:
  assumes "transport_lib (lower t) = TCP" and "wolf_result W (length (wolf_calls t) + 2) \<noteq> WOLFSSL_SUCCESS W"
  shows "channel_accept_event_tls W sk t = None"
  using assms
  by (auto simp: channel_accept_event_tls_def transport_accept_tls_def tcp_accept_tls_def sys_eq Let_def wolf_alloc_def wolf_ptr_def
      wolf_must_def wolf_int_def split: option.splits)

end
