(* ===== verification/Rasta_Logging.thy ===== *)
theory Rasta_Logging
  imports Rasta_Config_Load Rasta_TLS_Failures
begin

text \<open>
  \<open>logging.c\<close>. The text that \<open>vsprintf\<close> makes of a format and its arguments, the time stamp of \<open>strftime\<close> and the
  milliseconds since the epoch are arguments. A text with its terminator that does not fit its buffer is written
  outside of it: \<open>None\<close>, as is the use of a file that could not be opened.
\<close>

section \<open>Loggers\<close>

text \<open>The enumerations are numbers: the configuration file can give others than the source names.\<close>

definition LOG_LEVEL_NONE :: u32 where "LOG_LEVEL_NONE = 0"

definition LOG_LEVEL_ERROR :: u32 where "LOG_LEVEL_ERROR = 1"

definition LOG_LEVEL_INFO :: u32 where "LOG_LEVEL_INFO = 2"

definition LOG_LEVEL_DEBUG :: u32 where "LOG_LEVEL_DEBUG = 3"

definition LOGGER_TYPE_CONSOLE :: u32 where "LOGGER_TYPE_CONSOLE = 0"

definition LOGGER_TYPE_FILE :: u32 where "LOGGER_TYPE_FILE = 1"

definition LOGGER_TYPE_BOTH :: u32 where "LOGGER_TYPE_BOTH = 2"

lemmas level_defs = LOG_LEVEL_NONE_def LOG_LEVEL_ERROR_def LOG_LEVEL_INFO_def LOG_LEVEL_DEBUG_def

lemmas type_defs = LOGGER_TYPE_CONSOLE_def LOGGER_TYPE_FILE_def LOGGER_TYPE_BOTH_def

text \<open>A path is a pointer: null, to a string, or to memory that is no longer there.\<close>

datatype path_pointer = No_Path | Path string | Dangling_Path

record logger_t =
  max_log_level :: u32
  log_type :: u32
  log_file :: path_pointer

text \<open>What has been written; a file that is \<open>None\<close> cannot be opened.\<close>

record log_output =
  console :: string
  log_files :: "string \<Rightarrow> string option"

definition LOGGER_MAX_MSG_SIZE :: nat where
  "LOGGER_MAX_MSG_SIZE = 4096"

definition logger_init :: "u32 \<Rightarrow> u32 \<Rightarrow> logger_t" where
  "logger_init level type = \<lparr>max_log_level = level, log_type = type, log_file = No_Path\<rparr>"

definition logger_set_log_file :: "path_pointer \<Rightarrow> logger_t \<Rightarrow> logger_t" where
  "logger_set_log_file path logger = logger\<lparr>log_file := path\<rparr>"

definition log_to_console :: "string \<Rightarrow> log_output \<Rightarrow> log_output" where
  "log_to_console message out = out\<lparr>console := console out @ message\<rparr>"

text \<open>After the messages about a missing path or a file that cannot be opened the code goes on.\<close>

definition log_to_file :: "string \<Rightarrow> path_pointer \<Rightarrow> log_output \<Rightarrow> log_output option" where
  "log_to_file message path out =
     (case path of
        Path file \<Rightarrow> do {
          old \<leftarrow> log_files out file;
          Some (out\<lparr>log_files := (log_files out)(file \<mapsto> old @ message)\<rparr>)
        }
      | _ \<Rightarrow> None)"

definition do_log_message :: "logger_t \<Rightarrow> string \<Rightarrow> log_output \<Rightarrow> log_output option" where
  "do_log_message logger msg out =
     (if log_type logger = LOGGER_TYPE_CONSOLE then Some (log_to_console msg out)
      else if log_type logger = LOGGER_TYPE_FILE then log_to_file msg (log_file logger) out
      else if log_type logger = LOGGER_TYPE_BOTH then log_to_file msg (log_file logger) (log_to_console msg out)
      else Some out)"

section \<open>Messages\<close>

text \<open>\<open>sprintf\<close> into a buffer of \<open>n\<close> bytes.\<close>

definition sprintf :: "nat \<Rightarrow> string \<Rightarrow> string option" where
  "sprintf n text = (if length text < n then Some text else None)"

text \<open>Decimal and hexadecimal numbers of \<open>printf\<close>.\<close>

fun digits :: "nat \<Rightarrow> nat \<Rightarrow> string" where
  "digits b n = (if b < 2 then [] else
     (if n < b then [] else digits b (n div b)) @ [(''0123456789abcdef'' ! (n mod b))])"

declare digits.simps [simp del]

definition print_dec :: "nat \<Rightarrow> string" where
  "print_dec n = digits 10 n"

definition print_hex :: "nat \<Rightarrow> nat \<Rightarrow> string" where
  "print_hex w n = replicate (w - length (digits 16 n)) CHR ''0'' @ digits 16 n"

text \<open>The name of the level; the buffer stays uninitialised for any other level.\<close>

definition level_str :: "u32 \<Rightarrow> string option" where
  "level_str level =
     (if level = LOG_LEVEL_DEBUG then Some ''DEBUG''
      else if level = LOG_LEVEL_ERROR then Some ''ERROR''
      else if level = LOG_LEVEL_INFO then Some ''INFO ''
      else None)"

text \<open>
  The outer \<open>option\<close> is an undefined run, the inner one the null pointer that says that the level is not logged.
  \<open>stamp\<close> is the text of \<open>strftime\<close>, at most 29 characters.
\<close>

definition get_log_message_string ::
  "string \<Rightarrow> u64 \<Rightarrow> u32 \<Rightarrow> u32 \<Rightarrow> string \<Rightarrow> string \<Rightarrow> string option option" where
  "get_log_message_string stamp milliseconds max_level level location msg_str =
     (if level > max_level then Some None
      else do {
        name \<leftarrow> level_str level;
        timestamp2 \<leftarrow> sprintf 60 (stamp @ '' (Epoch time: '' @ print_dec (unat milliseconds) @ '')'');
        msg \<leftarrow> sprintf LOGGER_MAX_MSG_SIZE
          (''['' @ timestamp2 @ '']['' @ name @ '']['' @ location @ ''] '' @ msg_str @ [CHR 0x0A]);
        Some (Some msg)
      })"

text \<open>The logger may be a null pointer. The message is formatted before its level is compared.\<close>

definition logger_log ::
  "string \<Rightarrow> u64 \<Rightarrow> logger_t option \<Rightarrow> u32 \<Rightarrow> string \<Rightarrow> string \<Rightarrow> log_output \<Rightarrow> log_output option" where
  "logger_log stamp milliseconds logger level location text out =
     (case logger of
        None \<Rightarrow> Some out
      | Some l \<Rightarrow>
          if max_log_level l = LOG_LEVEL_NONE then Some out
          else do {
            message \<leftarrow> sprintf (LOGGER_MAX_MSG_SIZE div 2) text;
            msg \<leftarrow> get_log_message_string stamp milliseconds (max_log_level l) level location message;
            (case msg of None \<Rightarrow> Some out | Some msg \<Rightarrow> do_log_message l msg out)
          })"

definition logger_log_if ::
  "string \<Rightarrow> u64 \<Rightarrow> logger_t option \<Rightarrow> bool \<Rightarrow> u32 \<Rightarrow> string \<Rightarrow> string \<Rightarrow> log_output \<Rightarrow> log_output option" where
  "logger_log_if stamp milliseconds logger cond level location text out =
     (if \<not> cond then Some out else logger_log stamp milliseconds logger level location text out)"

section \<open>Dumps\<close>

text \<open>One line of 16 bytes. A \<open>char\<close> is signed; bytes above 127 are not printable in the C locale.\<close>

definition print_char :: "u8 \<Rightarrow> string" where
  "print_char b = (if 32 \<le> b \<and> b < 127 then [char_of (unat b)] else ''.'')"

definition dump_line :: "nat \<Rightarrow> bytes \<Rightarrow> string list" where
  "dump_line line_start bs =
     [''0x'' @ print_hex 4 line_start @ ''    ''] @ map (\<lambda>b. print_hex 2 (unat b)) bs @ [''    ''] @
     map print_char bs @ [[CHR 0x0A]]"

fun dump_lines :: "nat \<Rightarrow> bytes \<Rightarrow> string list" where
  "dump_lines line_start bs =
     (if bs = [] then [] else dump_line line_start (take 16 bs) @ dump_lines (line_start + 16) (drop 16 bs))"

declare dump_lines.simps [simp del]

fun log_all :: "logger_t \<Rightarrow> string list \<Rightarrow> log_output \<Rightarrow> log_output option" where
  "log_all logger [] out = Some out"
| "log_all logger (m # ms) out = do { out \<leftarrow> do_log_message logger m out; log_all logger ms out }"

text \<open>\<open>vsnprintf\<close> cuts the header off at the end of its buffer.\<close>

definition logger_hexdump ::
  "string \<Rightarrow> u64 \<Rightarrow> logger_t option \<Rightarrow> u32 \<Rightarrow> bytes \<Rightarrow> string \<Rightarrow> log_output \<Rightarrow> log_output option" where
  "logger_hexdump stamp milliseconds logger level data header out =
     (let message = take (LOGGER_MAX_MSG_SIZE div 2 - 1) header
      in case logger of
           None \<Rightarrow> Some out
         | Some l \<Rightarrow>
             if max_log_level l = LOG_LEVEL_NONE then Some out
             else do {
               out \<leftarrow> logger_log stamp milliseconds logger level [] (message @ [CHR 0x0A]) out;
               if level \<le> max_log_level l then log_all l (dump_lines 0 data) out else Some out
             })"

section \<open>What is logged\<close>

lemma length_digits: "2 \<le> b \<Longrightarrow> n < b ^ Suc k \<Longrightarrow> length (digits b n) \<le> Suc k"
proof (induction k arbitrary: n)
  case 0
  then show ?case by (subst digits.simps) simp
next
  case (Suc k)
  then have "n div b < b ^ Suc k" by (simp add: less_mult_imp_div_less mult.commute)
  then have "length (digits b (n div b)) \<le> Suc k" using Suc by blast
  then show ?case using Suc.prems(1) by (subst digits.simps) simp
qed

text \<open>
  In the C locale the stamp has 17 characters and always fits. With the longest stamp that \<open>strftime\<close> can write
  it need not.
\<close>

lemma timestamp_fits:
  assumes "length stamp \<le> 24"
  shows "sprintf 60 (stamp @ '' (Epoch time: '' @ print_dec (unat (ms :: u64)) @ '')'') \<noteq> None"
proof -
  have "unat ms < 2 ^ 64" using unsigned_less [of ms] by simp
  then have "length (print_dec (unat ms)) \<le> Suc 19" unfolding print_dec_def by (intro length_digits) simp_all
  then show ?thesis using assms by (simp add: sprintf_def)
qed

text \<open>A message is logged when its level is not above the maximum, and only then.\<close>

lemma logger_log_console:
  assumes "max_log_level l \<noteq> LOG_LEVEL_NONE" and "log_type l = LOGGER_TYPE_CONSOLE"
    and "level \<in> {LOG_LEVEL_ERROR, LOG_LEVEL_INFO, LOG_LEVEL_DEBUG}"
    and "length stamp \<le> 24" and "length text < 2048" and "length location < 1900"
  shows "\<exists>line. logger_log stamp ms (Some l) level location text out =
    Some (if level \<le> max_log_level l then out\<lparr>console := console out @ line @ text @ [CHR 0x0A]\<rparr> else out)"
proof -
  obtain name where name: "level_str level = Some name" "length name = 5" using assms(3) by (auto simp: level_str_def level_defs)
  obtain ts where ts: "sprintf 60 (stamp @ '' (Epoch time: '' @ print_dec (unat ms) @ '')'') = Some ts" "length ts < 60"
    using timestamp_fits [OF assms(4), of ms] by (auto simp: sprintf_def split: if_splits)
  have "sprintf 4096 (''['' @ ts @ '']['' @ name @ '']['' @ location @ ''] '' @ text @ [CHR 0x0A]) =
      Some (''['' @ ts @ '']['' @ name @ '']['' @ location @ ''] '' @ text @ [CHR 0x0A])"
    using ts(2) name(2) assms(5,6) by (simp add: sprintf_def)
  moreover have "sprintf 2048 text = Some text" using assms(5) by (simp add: sprintf_def)
  ultimately show ?thesis
    using assms(1,2) name(1) ts(1)
    by (intro exI [of _ "''['' @ ts @ '']['' @ name @ '']['' @ location @ ''] ''"])
      (auto simp: logger_log_def get_log_message_string_def LOGGER_MAX_MSG_SIZE_def do_log_message_def log_to_console_def not_less)
qed

text \<open>A text of 2048 characters overruns the buffer, even when its level is not logged.\<close>

lemma long_message_overruns:
  "max_log_level l \<noteq> LOG_LEVEL_NONE \<Longrightarrow> 2048 \<le> length text \<Longrightarrow> logger_log stamp ms (Some l) level location text out = None"
  by (simp add: logger_log_def sprintf_def LOGGER_MAX_MSG_SIZE_def)

text \<open>The header of a dump is cut off too late, as a line end is added.\<close>

lemma long_header_overruns:
  "max_log_level l \<noteq> LOG_LEVEL_NONE \<Longrightarrow> 2047 \<le> length header \<Longrightarrow> logger_hexdump stamp ms (Some l) level data header out = None"
  by (simp add: logger_hexdump_def logger_log_def sprintf_def LOGGER_MAX_MSG_SIZE_def Let_def min_def)

text \<open>A file that cannot be opened is used nevertheless.\<close>

lemma unopened_file_used:
  "log_type l \<in> {LOGGER_TYPE_FILE, LOGGER_TYPE_BOTH} \<Longrightarrow> log_file l = Path path \<Longrightarrow> log_files out path = None \<Longrightarrow>
     do_log_message l msg out = None"
  by (auto simp: do_log_message_def log_to_file_def log_to_console_def type_defs)

text \<open>A dump has the data in it.\<close>

lemma digit_inj: "n < 16 \<Longrightarrow> m < 16 \<Longrightarrow> ''0123456789abcdef'' ! n = ''0123456789abcdef'' ! m \<Longrightarrow> n = m"
  by (subst (asm) nth_eq_iff_index_eq) simp_all

lemma print_hex_2: "n < 256 \<Longrightarrow> print_hex 2 n = [''0123456789abcdef'' ! (n div 16), ''0123456789abcdef'' ! (n mod 16)]"
proof -
  assume n: "n < 256"
  have small: "digits 16 k = [''0123456789abcdef'' ! k]" if "k < 16" for k using that by (subst digits.simps) simp
  show ?thesis
  proof (cases "n < 16")
    case True
    then show ?thesis by (simp add: print_hex_def small)
  next
    case False
    then have "digits 16 n = [''0123456789abcdef'' ! (n div 16), ''0123456789abcdef'' ! (n mod 16)]"
      using n by (subst digits.simps) (simp add: small less_mult_imp_div_less)
    then show ?thesis by (simp add: print_hex_def)
  qed
qed

lemma byte_lt: "unat (b :: u8) < 256"
  using unsigned_less [of b] by simp

lemma print_byte_inj: "print_hex 2 (unat (a :: u8)) = print_hex 2 (unat b) \<Longrightarrow> a = b"
proof -
  assume eq: "print_hex 2 (unat a) = print_hex 2 (unat b)"
  have "unat a div 16 = unat b div 16" "unat a mod 16 = unat b mod 16"
    using eq byte_lt [of a] byte_lt [of b] by (auto simp: print_hex_2 intro!: digit_inj simp: less_mult_imp_div_less)
  then have "unat a = unat b" by (metis div_mult_mod_eq)
  then show ?thesis by (simp add: unat_arith_simps)
qed

lemma dump_line_hex: "takeWhile (\<lambda>m. m \<noteq> ''    '') (tl (dump_line n bs @ ms)) = map (\<lambda>b. print_hex 2 (unat b)) bs"
proof -
  have "print_hex 2 (unat b) \<noteq> ''    ''" for b :: u8
    using byte_lt [of b] by (simp add: print_hex_2)
  then show ?thesis by (simp add: dump_line_def) (subst takeWhile_append2, auto)
qed

lemma dump_lines_inj: "dump_lines n a = dump_lines n b \<Longrightarrow> a = b"
proof (induction n a arbitrary: b rule: dump_lines.induct)
  case (1 n a)
  show ?case
  proof (cases "a = [] \<or> b = []")
    case True
    then show ?thesis using 1(2) by (auto simp: dump_lines.simps [of n] dump_line_def split: if_splits)
  next
    case False
    then have eq: "dump_line n (take 16 a) @ dump_lines (n + 16) (drop 16 a) = dump_line n (take 16 b) @ dump_lines (n + 16) (drop 16 b)"
      using 1(2) by (simp add: dump_lines.simps [of n])
    then have "map (\<lambda>b. print_hex 2 (unat b)) (take 16 a) = map (\<lambda>b. print_hex 2 (unat b)) (take 16 b)"
      using dump_line_hex by metis
    then have t: "take 16 a = take 16 b" using print_byte_inj by (simp add: inj_map_eq_map inj_def)
    then have "drop 16 a = drop 16 b" using eq False 1(1) by simp
    with t show ?thesis by (metis append_take_drop_id)
  qed
qed

lemma console_log_all:
  "log_type l = LOGGER_TYPE_CONSOLE \<Longrightarrow> log_all l ms out = Some (out\<lparr>console := console out @ concat ms\<rparr>)"
  by (induction ms arbitrary: out) (simp_all add: do_log_message_def log_to_console_def)

section \<open>The logger and the TLS settings of a configuration file\<close>

text \<open>
  The logger that \<open>load_configfile\<close> leaves behind. The path of its file points into a local variable of that
  function, which is gone when it returns.
\<close>

definition load_logger :: "Dictionary \<Rightarrow> logger_t option" where
  "load_logger d = do {
     logger_ty \<leftarrow> config_get d ''LOGGER_TYPE'';
     logger_maxlvl \<leftarrow> config_get d ''LOGGER_MAX_LEVEL'';
     logger_file \<leftarrow> config_get d ''LOGGER_FILE'';
     (case (logger_ty, logger_maxlvl) of
        (DICTIONARY_NUMBER ty, DICTIONARY_NUMBER maxlvl) \<Rightarrow>
          let logger = logger_init maxlvl ty
          in if log_type logger = LOGGER_TYPE_FILE then
               (case logger_file of DICTIONARY_STRING path \<Rightarrow> Some (logger_set_log_file Dangling_Path logger) | _ \<Rightarrow> None)
             else Some logger
      | _ \<Rightarrow> None)
   }"

text \<open>No logger of a configuration file can write to a file: its path is dangling, or null when it logs to both.\<close>

lemma loaded_file_logger_undefined:
  assumes "load_logger d = Some l" and "log_type l \<in> {LOGGER_TYPE_FILE, LOGGER_TYPE_BOTH}"
    and "max_log_level l \<noteq> LOG_LEVEL_NONE" and "level \<le> max_log_level l"
  shows "logger_log stamp ms (Some l) level location text out = None"
proof -
  obtain x y z where "config_get d ''LOGGER_TYPE'' = Some x" "config_get d ''LOGGER_MAX_LEVEL'' = Some y" "config_get d ''LOGGER_FILE'' = Some z"
    using assms(1) by (auto simp: load_logger_def Option.bind_eq_Some_conv)
  then have "log_file l \<in> {No_Path, Dangling_Path}"
    using assms(1)
    by (cases x; cases y; cases z) (auto simp: load_logger_def logger_init_def logger_set_log_file_def Let_def split: if_splits)
  then have "do_log_message l msg out = None" for msg
    using assms(2) by (auto simp: do_log_message_def log_to_file_def type_defs)
  then have "logger_log stamp ms (Some l) level location text out \<noteq> Some r" for r
    using assms(3,4)
    by (auto simp: logger_log_def get_log_message_string_def Option.bind_eq_Some_conv not_less)
  then show ?thesis by (metis not_None_eq)
qed

text \<open>
  The TLS part of \<open>config_setstd\<close>, on a structure that has been zeroed. Paths are copied, up to the last byte of
  their buffers. The host name is copied with \<open>memcpy\<close>, over the terminator that was just written: without one
  among its first 64 characters the buffer is no string.
\<close>

definition MAX_DOMAIN_LENGTH :: nat where
  "MAX_DOMAIN_LENGTH = 64"

definition config_path :: "Dictionary \<Rightarrow> string \<Rightarrow> string option option" where
  "config_path d k = do {
     entr \<leftarrow> config_get d k;
     Some (case entr of DICTIONARY_STRING path \<Rightarrow> Some (take (MAX_DICTIONARY_STRING_LENGTH_BYTES - 1) path) | _ \<Rightarrow> None)
   }"

definition config_hostname :: "Dictionary \<Rightarrow> string option" where
  "config_hostname d = do {
     entr \<leftarrow> config_get d ''RASTA_TLS_HOSTNAME'';
     (case entr of
        DICTIONARY_STRING host \<Rightarrow> if length host < MAX_DOMAIN_LENGTH then Some host else None
      | _ \<Rightarrow> Some [])
   }"

definition config_tls :: "Dictionary \<Rightarrow> rasta_config_tls option" where
  "config_tls d = do {
     ca \<leftarrow> config_path d ''RASTA_CA_PATH'';
     cert \<leftarrow> config_path d ''RASTA_CERT_PATH'';
     key_file \<leftarrow> config_path d ''RASTA_KEY_PATH'';
     host \<leftarrow> config_hostname d;
     pin \<leftarrow> config_path d ''RASTA_TLS_PEER_CERT_PATH'';
     Some \<lparr>ca_cert_path = ca, cert_path = cert, key_path = key_file, tls_hostname = host, peer_tls_cert_path = pin\<rparr>
   }"

text \<open>
  What the settings make of an endpoint: with both a certificate and a key a DTLS socket is always started as a
  server, whatever the role of the endpoint.
\<close>

lemma certificates_make_server:
  assumes "config_tls d = Some tls" and "config_get d ''RASTA_CERT_PATH'' = Some (DICTIONARY_STRING cert)"
    and "config_get d ''RASTA_KEY_PATH'' = Some (DICTIONARY_STRING key_file)"
  shows "handle_tls_mode W sk (t\<lparr>tls_config := tls\<rparr>) = wolfssl_start_dtls_server W sk (t\<lparr>tls_config := tls\<rparr>)"
  using assms by (auto simp: config_tls_def config_path_def handle_tls_mode_def is_dtls_server_def Option.bind_eq_Some_conv)

end
