(* ===== verification/Rasta_Tools.thy ===== *)
theory Rasta_Tools
  imports Rasta_Config_Kex Rasta_Logging
begin

text \<open>
  The tools beside \<open>rcat\<close>: the certificates that \<open>rcat_tls\<close> and \<open>rcat_dtls\<close> create
  (\<open>wolfssl_certificate_helper.c\<close>, \<open>prepare_certs\<close>) and \<open>pw2iv.c\<close>, which turns a password into an initial vector.
  wolfCrypt is an environment: its results are an argument.
\<close>

section \<open>Creating certificates\<close>

text \<open>What the calls return, in the order in which \<open>create_certificate\<close> makes them.\<close>

record wolfcrypt =
  der_allocated :: bool
  pem_allocated :: bool
  wc_InitRng :: int
  wc_ecc_init :: int
  wc_ecc_make_key :: int
  wc_SetIssuerBuffer :: int
  wc_MakeCert :: int
  wc_SignCert :: int
  wc_CertToPem :: int
  cert_opened :: bool
  wc_EccPrivateKeyToDer :: int
  wc_KeyToPem :: int
  key_opened :: bool

text \<open>
  The last part writes the key. The results are the value of \<open>ret\<close> at the label \<open>exit\<close> and the files written; a value
  other than zero ends the program with it.
\<close>

definition write_key :: "wolfcrypt \<Rightarrow> int \<Rightarrow> string list \<Rightarrow> string option \<Rightarrow> int \<times> string list" where
  "write_key w ret files_done key_to =
     (case key_to of
        None \<Rightarrow> (0, files_done)
      | Some path \<Rightarrow>
          if wc_EccPrivateKeyToDer w < 0 then (ret, files_done)
          else if wc_KeyToPem w < 0 then (ret, files_done)
          else if \<not> key_opened w then (ret, files_done)
          else (0, files_done @ [path]))"

definition create_certificate :: "bool \<Rightarrow> wolfcrypt \<Rightarrow> string \<Rightarrow> string option \<Rightarrow> int \<times> string list" where
  "create_certificate is_ca w cert_to key_to =
     (if \<not> der_allocated w then (0, [])
      else if \<not> pem_allocated w then (0, [])
      else if wc_InitRng w \<noteq> 0 then (wc_InitRng w, [])
      else if wc_ecc_init w \<noteq> 0 then (wc_ecc_init w, [])
      else if wc_ecc_make_key w \<noteq> 0 then (wc_ecc_make_key w, [])
      else if \<not> is_ca \<and> wc_SetIssuerBuffer w < 0 then (wc_SetIssuerBuffer w, [])
      else if wc_MakeCert w < 0 then (wc_MakeCert w, [])
      else if wc_SignCert w < 0 then (wc_SignCert w, [])
      else
        let ret = wc_SignCert w
        in if wc_CertToPem w < 0 then (ret, [])
           else if \<not> cert_opened w then (ret, [])
           else write_key w ret [cert_to] key_to)"

text \<open>The exit status, if the program ends here, and the files written.\<close>

definition create_certificates :: "wolfcrypt \<Rightarrow> wolfcrypt \<Rightarrow> string \<Rightarrow> string \<Rightarrow> string \<Rightarrow> int option \<times> string list" where
  "create_certificates ca server ca_cert_to server_cert_to server_key_to =
     (let (ret, files_done) = create_certificate True ca ca_cert_to None
      in if ret \<noteq> 0 then (Some ret, files_done)
         else
           let (ret, files') = create_certificate False server server_cert_to (Some server_key_to)
           in (if ret \<noteq> 0 then Some ret else None, files_done @ files'))"

text \<open>
  \<open>access\<close> of a null pointer fails; \<open>fopen\<close> of one is undefined. A file that cannot be read leaves the settings zero.
\<close>

definition prepare_certs ::
  "u64 list \<Rightarrow> (string \<Rightarrow> string option) \<Rightarrow> (string \<Rightarrow> bool) \<Rightarrow> wolfcrypt \<Rightarrow> wolfcrypt \<Rightarrow> string \<Rightarrow> (int option \<times> string list) option" where
  "prepare_certs tbl files exists ca server path = do {
     (_, d, v) \<leftarrow> config_load tbl files path;
     ca_path \<leftarrow> config_path d ''RASTA_CA_PATH'';
     cert_path \<leftarrow> config_path d ''RASTA_CERT_PATH'';
     key_file \<leftarrow> config_path d ''RASTA_KEY_PATH'';
     let missing = (\<lambda>p. case p of None \<Rightarrow> True | Some p \<Rightarrow> \<not> exists p);
     (exited, files_done) \<leftarrow> (if missing ca_path \<or> missing cert_path \<or> missing key_file then do {
         a \<leftarrow> ca_path;
         b \<leftarrow> cert_path;
         c \<leftarrow> key_file;
         Some (create_certificates ca server a b c)
       }
       else Some (None, []));
     if exited \<noteq> None then Some (exited, files_done)
     else do {
       _ \<leftarrow> dictionary_free (config_values.freed v) d;
       Some (None, files_done)
     }
   }"

text \<open>The certificate and the key are written, and the function returns, exactly when every call succeeds.\<close>

lemma certificate_created_iff:
  "create_certificate is_ca w cert_to key_to = (0, cert_to # (case key_to of None \<Rightarrow> [] | Some p \<Rightarrow> [p])) \<longleftrightarrow>
   der_allocated w \<and> pem_allocated w \<and> wc_InitRng w = 0 \<and> wc_ecc_init w = 0 \<and> wc_ecc_make_key w = 0 \<and>
   (is_ca \<or> 0 \<le> wc_SetIssuerBuffer w) \<and> 0 \<le> wc_MakeCert w \<and> 0 \<le> wc_SignCert w \<and> 0 \<le> wc_CertToPem w \<and> cert_opened w \<and>
   (key_to = None \<or> 0 \<le> wc_EccPrivateKeyToDer w \<and> 0 \<le> wc_KeyToPem w \<and> key_opened w)"
  by (auto simp: create_certificate_def write_key_def Let_def split: option.splits)

text \<open>
  Without memory the function returns as if it had written its files. A file that cannot be opened ends the program with
  the length of the certificate, and a status is cut to eight bits: 512 bytes are reported as success.
\<close>

lemma no_memory_reported_as_success:
  "\<not> der_allocated w \<or> \<not> pem_allocated w \<Longrightarrow> create_certificate is_ca w cert_to key_to = (0, [])"
  by (auto simp: create_certificate_def)

lemma unwritable_certificate_status:
  assumes "der_allocated w" "pem_allocated w" "wc_InitRng w = 0" "wc_ecc_init w = 0" "wc_ecc_make_key w = 0"
    "0 \<le> wc_SetIssuerBuffer w" "0 \<le> wc_MakeCert w" "0 \<le> wc_SignCert w" "0 \<le> wc_CertToPem w" "\<not> cert_opened w"
  shows "create_certificate is_ca w cert_to key_to = (wc_SignCert w, [])"
  using assms by (simp add: create_certificate_def)

text \<open>Existing files are kept only if all three exist: with one missing all are written again.\<close>

lemma existing_files_kept:
  assumes "config_load tbl files path = Some (r, d, v)" and "config_path d ''RASTA_CA_PATH'' = Some (Some a)"
    and "config_path d ''RASTA_CERT_PATH'' = Some (Some b)" and "config_path d ''RASTA_KEY_PATH'' = Some (Some c)"
    and "dictionary_free (config_values.freed v) d = Some x"
  shows "prepare_certs tbl files exists ca server path =
    Some (if exists a \<and> exists b \<and> exists c then (None, []) else create_certificates ca server a b c)"
  using assms by (auto simp: prepare_certs_def split: prod.splits)

section \<open>A password as initial vector\<close>

definition MD4_STD :: "u32 list" where
  "MD4_STD = [0x67452301, 0xefcdab89, 0x98badcfe, 0x10325476]"

text \<open>
  The first loop copies whole words; \<open>i\<close> is \<open>pw_written / 4\<close>. The machine is little-endian, so that \<open>rasta_htole32\<close> is
  right to do nothing.
\<close>

fun pw_words :: "nat \<Rightarrow> bytes \<Rightarrow> u32 list \<Rightarrow> u32 list" where
  "pw_words i (a # b # c # d # pw) out = pw_words (i + 1) pw (out[i := le_long [a, b, c, d]])"
| "pw_words i pw out = out"

text \<open>The second loop copies the other \<open>n\<close> bytes into the next word, from the last one down.\<close>

fun pw_last_word :: "nat \<Rightarrow> bytes \<Rightarrow> bytes \<Rightarrow> bytes" where
  "pw_last_word 0 rest word = word"
| "pw_last_word (Suc n) rest word = pw_last_word n rest (word[n := rest ! n])"

definition pw2iv :: "bytes \<Rightarrow> u32 list" where
  "pw2iv pw =
     (let out = pw_words 0 pw MD4_STD;
          k = length pw div 4;
          n = length pw mod 4
      in if n = 0 then out else out[k := le_long (pw_last_word n (drop (4 * k) pw) (hostLongToLe (out ! k)))])"

text \<open>The format \<open>%x\<close>.\<close>

fun print_hex :: "nat \<Rightarrow> string" where
  "print_hex n = (if n < 16 then [hex_char n] else print_hex (n div 16) @ [hex_char (n mod 16)])"

declare print_hex.simps [simp del]

text \<open>All four lines have the name of the first word.\<close>

definition pw2iv_text :: "bytes \<Rightarrow> string" where
  "pw2iv_text pw = concat (map (\<lambda>(std, v). ''; std: 0x'' @ print_hex (unat std) @ [newline] @
     ''RASTA_MD4_A = #'' @ print_hex (unat v) @ [newline]) (zip MD4_STD (pw2iv pw)))"

definition pw2iv_main :: "bytes list \<Rightarrow> int \<times> string" where
  "pw2iv_main argv =
     (if length argv = 1 then (1, [])
      else if length (argv ! 1) > 16 then (1, [])
      else (0, pw2iv_text (argv ! 1)))"

text \<open>The vector in memory: the password over the standard vector.\<close>

definition iv_image :: "u32 list \<Rightarrow> bytes" where
  "iv_image out = concat (map hostLongToLe out)"

lemma iv_image_append: "iv_image (xs @ ys) = iv_image xs @ iv_image ys"
  by (simp add: iv_image_def)

lemma length_iv_image [simp]: "length (iv_image out) = 4 * length out"
  by (induction out) (simp_all add: iv_image_def hostLongToLe_def)

lemma iv_image_update:
  assumes "i < length out"
  shows "iv_image (out[i := w]) = take (4 * i) (iv_image out) @ hostLongToLe w @ drop (4 * i + 4) (iv_image out)"
proof -
  have out: "out = take i out @ [out ! i] @ drop (Suc i) out" using assms by (simp add: Cons_nth_drop_Suc)
  have "iv_image out = iv_image (take i out) @ iv_image [out ! i] @ iv_image (drop (Suc i) out)" by (subst out) (simp only: iv_image_append)
  moreover have "length (iv_image (take i out)) = 4 * i" "length (iv_image [out ! i]) = 4" using assms by simp_all
  ultimately have "take (4 * i) (iv_image out) = iv_image (take i out)" "drop (4 * i + 4) (iv_image out) = iv_image (drop (Suc i) out)" by simp_all
  moreover have "iv_image (out[i := w]) = iv_image (take i out) @ iv_image [w] @ iv_image (drop (Suc i) out)"
    using assms by (subst upd_conv_take_nth_drop) (simp_all add: iv_image_append [symmetric])
  ultimately show ?thesis by (simp add: iv_image_def)
qed

lemma take_drop_4:
  "take (4 + m) (a # b # c # d # xs) = a # b # c # d # take m xs" "drop (4 + m) (a # b # c # d # xs) = drop m xs"
  by (simp_all add: numeral_eq_Suc)

lemma iv_image_pw_words:
  "i + length pw div 4 \<le> length out \<Longrightarrow>
   iv_image (pw_words i pw out) = take (4 * i) (iv_image out) @ take (4 * (length pw div 4)) pw @ drop (4 * i + 4 * (length pw div 4)) (iv_image out)"
proof (induction i pw out rule: pw_words.induct)
  case (1 i a b c d pw out)
  have "hostLongToLe (le_long [a, b, c, d]) = [a, b, c, d]" by (rule hostLongToLe_le_long) simp
  moreover have "(4 + length pw) div 4 = Suc (length pw div 4)" by (simp add: div_add_self1)
  ultimately show ?case using 1 by (simp add: iv_image_update take_drop_4 ac_simps del: le_long.simps)
qed simp_all

lemma pw_last_word: "n \<le> length rest \<Longrightarrow> n \<le> length word \<Longrightarrow> pw_last_word n rest word = take n rest @ drop n word"
proof (induction n arbitrary: word)
  case (Suc n)
  then show ?case by (simp add: take_Suc_conv_app_nth upd_conv_take_nth_drop)
qed simp

lemma length_pw_words [simp]: "length (pw_words i pw out) = length out"
  by (induction i pw out rule: pw_words.induct) simp_all

lemma iv_image_nth:
  assumes "k < length out"
  shows "hostLongToLe (out ! k) = take 4 (drop (4 * k) (iv_image out))"
proof -
  have "iv_image out = take (4 * k) (iv_image out) @ hostLongToLe (out ! k) @ drop (4 * k + 4) (iv_image out)"
    using iv_image_update [OF assms, of "out ! k"] by simp
  moreover have "length (take (4 * k) (iv_image out)) = 4 * k" using assms by simp
  moreover have "length (hostLongToLe (out ! k)) = 4" by (simp add: hostLongToLe_def)
  ultimately show ?thesis by (metis append_eq_conv_conj)
qed

lemma pw2iv_image:
  assumes "length pw \<le> 16"
  shows "iv_image (pw2iv pw) = pw @ drop (length pw) (iv_image MD4_STD)"
proof -
  obtain k n where kn: "k = length pw div 4" "n = length pw mod 4" by blast
  then have len: "length pw = 4 * k + n" "n < 4" by simp_all
  have std: "length MD4_STD = 4" by (simp add: MD4_STD_def)
  let ?out = "pw_words 0 pw MD4_STD"
  have "0 + length pw div 4 \<le> length MD4_STD" using assms std by simp
  from iv_image_pw_words [OF this] have out: "iv_image ?out = take (4 * k) pw @ drop (4 * k) (iv_image MD4_STD)"
    unfolding kn(1) by simp
  have iv: "pw2iv pw = (if n = 0 then ?out else ?out[k := le_long (pw_last_word n (drop (4 * k) pw) (hostLongToLe (?out ! k)))])"
    by (simp only: pw2iv_def Let_def kn)
  show ?thesis
  proof (cases "n = 0")
    case True
    then show ?thesis using out len by (simp add: iv)
  next
    case False
    then have k: "k < 4" using assms len by simp
    have "hostLongToLe (?out ! k) = take 4 (drop (4 * k) (iv_image MD4_STD))"
      using iv_image_nth [of k ?out] k len std out by simp
    then have w: "pw_last_word n (drop (4 * k) pw) (hostLongToLe (?out ! k)) = drop (4 * k) pw @ take (4 - n) (drop (4 * k + n) (iv_image MD4_STD))"
      using len k std by (simp add: pw_last_word drop_take add.commute)
    have "length (drop (4 * k) pw @ take (4 - n) (drop (4 * k + n) (iv_image MD4_STD))) = 4" using len k std by simp
    then have "iv_image (pw2iv pw) = take (4 * k) (iv_image ?out) @
        (drop (4 * k) pw @ take (4 - n) (drop (4 * k + n) (iv_image MD4_STD))) @ drop (4 * k + 4) (iv_image ?out)"
      using False k std by (simp add: iv w iv_image_update hostLongToLe_le_long)
    also have "\<dots> = pw @ take (4 - n) (drop (4 * k + n) (iv_image MD4_STD)) @ drop (4 * k + 4) (iv_image MD4_STD)"
    proof -
      have "take (4 * k) (iv_image ?out) = take (4 * k) pw" using out len by simp
      moreover have "drop (4 * k + 4) (iv_image ?out) = drop (4 * k + 4) (iv_image MD4_STD)" using out len by (simp add: add.commute)
      ultimately show ?thesis by (simp only: append_assoc [symmetric] append_take_drop_id)
    qed
    also have "drop (4 * k + 4) (iv_image MD4_STD) = drop (4 - n) (drop (4 * k + n) (iv_image MD4_STD))" using len(2) by (simp add: add.commute)
    finally show ?thesis unfolding append_take_drop_id len(1) .
  qed
qed

end
