(* ===== verification/Spec2Isabelle.thy ===== *)
theory Spec2Isabelle
  imports Rasta_Kex_Failures Rasta_Rcat_Run Rasta_Tools
begin

text \<open>
  A model of librasta, an implementation of the RaSTA protocol (Rail Safe Transport Application,
  DIN VDE V 0831-200), and of what makes it correct. Paths below are relative to \<open>src/src/c/\<close>.

  \<^bold>\<open>The program.\<close> An endpoint has three layers. The safety and retransmission layer
  (\<open>retransmission/\<close>) opens, supervises and closes one connection, numbers its packets and repeats
  lost ones. The redundancy layer (\<open>redundancy/\<close>) sends each of its packets over every transport
  channel and merges what arrives, using a defer queue for packets that come too early. The transport
  layer (\<open>transport/\<close>) is TCP or UDP. An event loop (\<open>util/event_system.c\<close>) drives them by four timers
  and the sockets, and \<open>rasta.c\<close> is the interface for applications. Below are packets with checksums
  and safety codes (\<open>rastafactory.c\<close>, \<open>util/rastamodule.c\<close>, \<open>util/rastacrc.c\<close>, \<open>util/rastamd4.c\<close>,
  \<open>util/rastablake2.c\<close>, \<open>util/rastasiphash24.c\<close>, \<open>util/rastahashing.c\<close>) and containers
  (\<open>util/fifo.c\<close>, \<open>util/rastadeferqueue.c\<close>).

  Beside the default library are key exchange (\<open>experimental/\<close>, in builds with libopaque), transport over TLS
  and DTLS (\<open>transport/tls.c\<close>, \<open>dtls.c\<close>, \<open>ssl_utils.c\<close>, in builds with wolfSSL) and the reader of
  configuration files that the example programs share (\<open>src/examples/common/\<close>). The programs themselves are \<open>rcat\<close>,
  which copies standard input and output over a connection, a bridge between gRPC streams and connections, and small tools.

  \<^bold>\<open>How the code is read.\<close> The platform is LP64 and little-endian, the build the default one
  (neither key exchange nor TLS, own MD4), except in the theories of the key exchange and of TLS. Integers
  have the width they have in C, arithmetic wraps.
  A function that can leave its buffers, dereference a null pointer or abort has an \<open>option\<close> result,
  and \<open>None\<close> is that. Global variables (\<open>rastamodule_lasterror\<close>, \<open>rastafactory_lasterror\<close>) are
  arguments and results. The record \<open>rasta_st\<close> of \<open>Rasta_State\<close> is one endpoint: \<open>con\<close> its
  \<open>struct rasta_connection\<close>, \<open>chan\<close> its redundancy channel, \<open>mux\<close> the multiplexer, \<open>cfg\<close> the
  configuration, \<open>clk\<close> and \<open>net\<close> the environment: what the clock shows and what the operating system
  answers, as functions of the number of the call, and all bytes sent so far (\<open>wire\<close>). Stateful
  functions map \<open>rasta_st\<close> to \<open>rasta_st option\<close>, with a result where the C function has one. The
  FIFOs inside the connection are bounded queues, which \<open>Rasta_Fifo\<close> shows the linked lists to be.

  \<^bold>\<open>Theories.\<close>
  \<^item> \<open>Rasta_Prelude\<close>, \<open>Rasta_Util\<close>: types, generic lemmas, \<open>util/rmemory.c\<close>, \<open>util/rastautil.c\<close>,
    \<open>retransmission/protocol.c\<close>.
  \<^item> \<open>Rasta_Fifo\<close>: \<open>util/fifo.c\<close> on an explicit heap; it implements the locale \<open>bounded_queue\<close>, as does
    the list queue that the layers use. \<open>Rasta_DeferQueue\<close>: \<open>util/rastadeferqueue.c\<close>, an instance of
    the locale \<open>packet_buffer\<close> (a bounded bag with keys).
  \<^item> \<open>Rasta_CRC\<close>, \<open>Rasta_MD4\<close>, \<open>Rasta_SipHash\<close>, \<open>Rasta_Blake2\<close>: the checksums, each against a reference
    definition; the CRC with its error detection, HalfSipHash with a family of collisions. MD4 is compared with
    RFC 1320, and with a code of fewer than 16 bytes it leaves its array. \<open>Rasta_Hashing\<close>: their dispatch, an
    instance of the locale \<open>safety_code\<close>; \<open>hashing_ok\<close> are the contexts with which it stays inside its buffers.
  \<^item> \<open>Rasta_Module\<close>, \<open>Rasta_Factory\<close>: byte formats of both layers and contents of the packets. Round
    trips, the exact conditions under which parsing stays inside its input, overflow of the length.
  \<^item> \<open>Rasta_State\<close>, \<open>Rasta_Transport\<close>: the endpoint and the transport layer (\<open>bsd_utils.c\<close>, \<open>tcp.c\<close>,
    \<open>tcp_base.c\<close>, \<open>udp.c\<close>, \<open>udp_base.c\<close>, \<open>transport.c\<close>), with what each operation leaves alone.
  \<^item> \<open>Rasta_Redundancy\<close>: \<open>rasta_red_multiplexer.c\<close>, \<open>rasta_redundancy_channel.c\<close>, \<open>rastaredundancy.c\<close>,
    \<open>transport/diagnostics.c\<close>. \<open>Rasta_Reorder\<close>: the delivery loop and the defer queue against an
    abstract history of arrivals, for any layer above that keeps the contract of the locale
    \<open>upper_layer\<close>. \<open>Rasta_Framing\<close>: taking a byte stream apart into frames.
  \<^item> \<open>Rasta_Connection\<close>, \<open>Rasta_Handlers\<close>: \<open>safety_retransmission.c\<close>, \<open>messages.c\<close>, \<open>handlers.c\<close>.
    \<open>Rasta_Invariant\<close>: the invariant \<open>sr_inv\<close> and its preservation by every operation, which makes
    \<open>sr_receive\<close> an instance of \<open>upper_layer\<close>. \<open>Rasta_Transitions\<close>: the state after a received packet as a table,
    and the two places where the code leaves it.
    \<open>Rasta_Buffers\<close>, \<open>Rasta_Protocol\<close>, \<open>Rasta_Handshake\<close>: what the operations do on a working network,
    from sending and retransmission to the handshake of two endpoints and the timeout.
  \<^item> \<open>Rasta_Error_Flag\<close>: what holds whatever bytes arrive, also when the parser has set its error flag, which
    never goes off again. \<open>Rasta_Events\<close>, \<open>Rasta_Event_System\<close>, \<open>Rasta_Loop\<close>: callbacks (\<open>transport/events.c\<close>), event lists and
    timer selection, the loop, and the interface (\<open>rasta_init.c\<close>, \<open>rasta.c\<close>). \<open>Rasta_Reachable\<close>: the
    states that calls of the interface reach, as an inductive relation, and the invariant of all of them.
  \<^item> \<open>Rasta_Delivery\<close>: the promises of the redundancy layer with the endpoint's own layer above it.
    \<open>Rasta_Example\<close>: a concrete endpoint on which the theorems are exercised.

  \<^item> \<open>Rasta_Opaque\<close>: \<open>experimental/key_exchange.c\<close>, \<open>experimental/handlers.c\<close> and what the build with key
    exchange adds elsewhere, over \<open>kex_st\<close>, an endpoint with the state of the exchange. libopaque is a
    parameter. \<open>Rasta_Session_Key\<close>: the key is of no effect. \<open>Rasta_Key_Exchange\<close>, \<open>Rasta_Kex_Failures\<close>: the
    exchange of two endpoints, when it completes and when not, and the same build with key exchange off.
  \<^item> \<open>Rasta_TLS\<close>: \<open>ssl_utils.c\<close>, \<open>tls.c\<close>, \<open>dtls.c\<close> over \<open>tls_st\<close>, an endpoint with its sessions and the list of
    calls of wolfSSL so far, which answers as the record \<open>wolfssl\<close> says. \<open>Rasta_TLS_Transport\<close>: the transport
    interface and the events in that build. \<open>Rasta_TLS_Sessions\<close>: the runs of that interface as an inductive
    relation, and the invariant that writes are authenticated. \<open>Rasta_TLS_Failures\<close>: what is read, and what
    goes wrong.
  \<^item> \<open>Rasta_Dictionary\<close>, \<open>Rasta_Configfile\<close>: \<open>dictionary.c\<close> (an instance of the locale \<open>first_wins\<close>) and
    \<open>configfile.c\<close> of the examples: line parser, standard values, \<open>load_configfile\<close>. \<open>Rasta_Config_Roundtrip\<close>,
    \<open>Rasta_Config_Load\<close>: what is read from a printed file, and every setting of the configuration it gives.
  \<^item> \<open>Rasta_Logging\<close>: \<open>logging.c\<close>, and the logger and TLS settings of a configuration file. \<open>Rasta_Cancel\<close>: accepting
    with a pipe that cancels it, notifications and the helpers that wait for them.
  \<^item> \<open>Rasta_App\<close>: the event loop and \<open>rasta_recv\<close> with file descriptor events of the application. Without any it is the
    loop of \<open>Rasta_Loop\<close>, with one particular event that of \<open>Rasta_Cancel\<close>.
  \<^item> \<open>Rasta_Rcat\<close>: \<open>src/examples/rcat/c/rcat.c\<close> and its variants, over a record of the functions they call, and the locale
    \<open>message_sink\<close>, what a program may expect of \<open>rasta_send\<close>, with the send queue as its instance. \<open>Rasta_Rcat_Run\<close>: the
    round of the event loop in which the input ends, and with it the program.
  \<^item> \<open>Rasta_Bridge\<close>: the two threads of the gRPC bridge (\<open>src/examples/rasta_grpc_bridge/cpp/main.cpp\<close>) as an
    inductive relation over their locations, the shared queue and the pipes, and its invariants. \<open>Rasta_Bridge_Main\<close>:
    \<open>processRasta\<close>, the gRPC service and \<open>main\<close>.
  \<^item> \<open>Rasta_Config_Kex\<close>: the settings for key exchange of a configuration file and \<open>record_generator.c\<close>, whose output they
    read. \<open>Rasta_Tools\<close>: \<open>wolfssl_certificate_helper.c\<close>, \<open>prepare_certs\<close> and \<open>pw2iv.c\<close>.

  \<^bold>\<open>What is shown.\<close> With a configuration whose safety code stays inside its buffers (\<open>config_ok\<close>: BLAKE2b, MD4
  with 16 bytes, or SipHash without a code), and whatever bytes the network returns, an endpoint keeps its
  configuration, its safety code and the bounds of its buffers. As long as no input has set the error flag of the
  parser, its retransmission buffer holds well-formed packets, and everything it has sent is well-formed and parses
  back; after such an input it sends zeros. The redundancy layer hands on a
  gapless prefix of the stream of its peer, in order, and all of what has arrived within the window. Packets
  with changes in at most as many consecutive bytes as the CRC has, all before it or all in it, are rejected.
  The state after every received packet is that of a table, with two exceptions, and only
  an authentic packet opens a connection; data in sequence is appended to the receive buffer as far as it has room,
  messages leave the send queue in order and are kept until confirmed, a retransmission sends them again, silence
  closes the connection, and two endpoints complete the handshake. A configuration file is read back as
  it was printed, and every setting of the configuration is the one of the file or the standard one. Over TLS and DTLS nothing is
  written before the handshake has succeeded and the pinned certificate was compared. However the threads of the bridge
  interleave, messages are passed on in order, none is lost between them and no wake-up is missed; \<open>rcat\<close> queues its
  input line by line, completely and in order. Some theorems state that the code
  does something else than it means to: a confirmation that matches no packet empties the
  retransmission buffer, messages of a confirmed packet that find the receive buffer full are lost, the standard
  safety code, MD4 of 8 bytes, is written past the end of an array, an early heartbeat reopens a connection that was just closed, the diagnostic
  intervals never count, the redundancy layer stops after \<open>2\<^sup>3\<^sup>2\<close> packets, one short packet disables all
  serialisation, the session key of the key exchange protects nothing, a TLS server goes on with a context
  it has freed, \<open>rcat\<close> and the bridge disconnect before what they have queued is sent, and others.

  \<^bold>\<open>Loops and bounds.\<close> Loops over arrays and queues are structural. The delivery loop, the event loop
  and the loop of \<open>rasta_recv\<close> are \<open>partial_function\<close>s; for the first, termination is a theorem
  (\<open>deliverDeferQueue_terminates\<close>), the other two may wait forever, and the invariant speaks of the
  states they return. So are the loops of the example programs that run as long as the connection. The loops of the
  file parser, of the input callback of \<open>rcat\<close> and of the TLS read are functions with a measure, the input or the room
  that is left. There is no fuel. \<open>message_fits\<close> bounds messages so that any
  \<open>max_packet\<close> of them fit a packet of 16-bit length: beyond it the code writes outside its buffer
  (\<open>createDataMessage_overflow\<close>), and \<open>rasta_send\<close> does not check.

  \<^bold>\<open>Not modelled.\<close> What wolfSSL does: only its answers matter. The layers above the transport in the build
  with TLS: they call the same interface. The logging of TLS secrets. What the layers log:
  the calls of \<open>logger_log\<close> are left out of their models. Handlers of notifications are code of the application;
  those of \<open>rastahandle.c\<close> have empty bodies. Releasing of memory, except in \<open>fifo_destroy\<close> and
  \<open>kex_recover_credential\<close>. Partial writes: a \<open>send\<close> that does not fail takes all bytes, which is also what the
  code assumes. In the configuration reader \<open>config_free\<close>; files, entropy and random numbers are arguments there.
  gRPC: what its streams return is arbitrary. What the example programs print besides the data they receive. The
  demonstrations \<open>event_test.c\<close> and \<open>logging_example\<close>, the second of which calls functions that no longer exist.
\<close>

end
